(* ===== verification/Prelude.thy ===== *)
theory Prelude
  imports Complex_Main "HOL-Library.AList" "HOL-Library.Multiset"
begin

text \<open>
  What every component shares: the exceptions of the Python code as one datatype and the result
  type of a fallible call, Python dictionaries as association lists in insertion order, the string
  methods the code calls, decimal rendering of integers, and the stable sort behind
  \<^verbatim>\<open>sorted\<close> and \<^verbatim>\<open>list.sort\<close>.

  Python text is a \<open>string\<close>: a list of code points below 256 (Latin-1). Code points beyond that,
  and lone surrogates, are outside the model. Bytes are lists of integers from 0 to 255.
  Numbers are \<open>int\<close> throughout, whose binary numerals the simplifier computes with.
\<close>

named_theorems res_simps \<open>how a raised exception travels through the combinators\<close>
named_theorems dict_simps \<open>reading a dictionary after an update\<close>

subsection \<open>Exceptions and fallible results\<close>

text \<open>
  One constructor for each exception class that the modelled code raises, catches or lets escape.
  \<open>ValueError\<close> also stands for its subclasses that the code never tells apart
  (\<^verbatim>\<open>JSONDecodeError\<close>, \<^verbatim>\<open>UnicodeError\<close>, \<^verbatim>\<open>binascii.Error\<close>), and \<open>ProcessError\<close> for the subclasses of
  \<^verbatim>\<open>subprocess.SubprocessError\<close>.
\<close>

datatype exn =
    AttributeError
  | TypeError
  | KeyError
  | IndexError
  | ValueError
  | InvalidOperation
  | OverflowError
  | ZeroDivisionError
  | KeyEncodingError
  | SchemaValidationError string
  | InsufficientFunds
  | TransportError string
  | DiscoveryError
  | AnchorError
  | ComputeError
  | UntrustedProvider string
  | ProcessError
  | TimeoutError
  | NotImplementedError
  | RuntimeError
  | OSError
  | NodeError string

type_synonym 'a res = "exn + 'a"
type_synonym bytes = "int list"

definition rbind :: "'a res \<Rightarrow> ('a \<Rightarrow> 'b res) \<Rightarrow> 'b res" where
  "rbind r f = (case r of Inl e \<Rightarrow> Inl e | Inr x \<Rightarrow> f x)"

lemma rbind_Inl [simp, res_simps]: "rbind (Inl e) f = Inl e"
  by (simp add: rbind_def)

lemma rbind_Inr [simp, res_simps]: "rbind (Inr x) f = f x"
  by (simp add: rbind_def)

lemma rbind_eq_Inr: "rbind r f = Inr y \<longleftrightarrow> (\<exists>x. r = Inr x \<and> f x = Inr y)"
  by (cases r) simp_all

lemma rbind_eq_Inl: "rbind r f = Inl e \<longleftrightarrow> r = Inl e \<or> (\<exists>x. r = Inr x \<and> f x = Inl e)"
  by (cases r) simp_all

text \<open>A Python \<^verbatim>\<open>for\<close> loop whose body may raise.\<close>

fun rfold :: "('a \<Rightarrow> 'b \<Rightarrow> 'b res) \<Rightarrow> 'a list \<Rightarrow> 'b \<Rightarrow> 'b res" where
  "rfold f [] s = Inr s"
| "rfold f (x # xs) s = rbind (f x s) (rfold f xs)"

lemma rfold_append: "rfold f (xs @ ys) s = rbind (rfold f xs s) (rfold f ys)"
proof (induction xs arbitrary: s)
  case Nil
  then show ?case by simp
next
  case (Cons x xs)
  then show ?case by (cases "f x s") simp_all
qed

text \<open>A comprehension whose element expression may raise.\<close>

fun rmap :: "('a \<Rightarrow> 'b res) \<Rightarrow> 'a list \<Rightarrow> 'b list res" where
  "rmap f [] = Inr []"
| "rmap f (x # xs) = rbind (f x) (\<lambda>y. rbind (rmap f xs) (\<lambda>ys. Inr (y # ys)))"

lemma rmap_cong [fundef_cong]:
  "xs = ys \<Longrightarrow> (\<And>x. x \<in> set ys \<Longrightarrow> f x = g x) \<Longrightarrow> rmap f xs = rmap g ys"
  by (induction xs arbitrary: ys) auto

lemma rmap_length: "rmap f xs = Inr ys \<Longrightarrow> length ys = length xs"
  by (induction xs arbitrary: ys) (auto simp: rbind_eq_Inr)

lemma rmap_all_Inr: "(\<And>x. x \<in> set xs \<Longrightarrow> f x = Inr (g x)) \<Longrightarrow> rmap f xs = Inr (map g xs)"
  by (induction xs) auto

lemma scored_list:
  "rmap (\<lambda>e. rbind (score e) (\<lambda>s. Inr (s, e))) es = Inr ps \<Longrightarrow>
     map snd ps = es \<and> (\<forall>(s, e)\<in>set ps. score e = Inr s)"
  by (induction es arbitrary: ps) (auto simp: rbind_eq_Inr)

subsection \<open>Dictionaries\<close>

text \<open>
  A Python \<^verbatim>\<open>dict\<close> keeps insertion order and overwrites in place, which is what
  \<^const>\<open>AList.update\<close> does on an association list.
\<close>

abbreviation dict_get :: "('k \<times> 'v) list \<Rightarrow> 'k \<Rightarrow> 'v option" where
  "dict_get d k \<equiv> map_of d k"

abbreviation dict_set :: "'k \<Rightarrow> 'v \<Rightarrow> ('k \<times> 'v) list \<Rightarrow> ('k \<times> 'v) list" where
  "dict_set \<equiv> AList.update"

definition dict_without :: "'k \<Rightarrow> ('k \<times> 'v) list \<Rightarrow> ('k \<times> 'v) list" where
  "dict_without k d = filter (\<lambda>(k', _). k' \<noteq> k) d"

lemma dict_get_set [dict_simps]: "dict_get (dict_set k v d) k' = (if k' = k then Some v else dict_get d k')"
  by (simp add: update_conv)

lemma dict_get_without [dict_simps]:
  "dict_get (dict_without k d) k' = (if k' = k then None else dict_get d k')"
  by (induction d) (auto simp: dict_without_def)

lemma dict_without_absent: "dict_get d k = None \<Longrightarrow> dict_without k d = d"
  by (induction d) (auto simp: dict_without_def split: if_splits)

lemma dict_without_set: "dict_without k (dict_set k v d) = dict_without k d"
  by (induction d) (auto simp: dict_without_def)

lemma dict_without_idem [simp]: "dict_without k (dict_without k d) = dict_without k d"
  by (simp add: dict_without_def)

lemma distinct_dict_without: "distinct (map fst d) \<Longrightarrow> distinct (map fst (dict_without k d))"
  by (induction d) (auto simp: dict_without_def)

subsection \<open>Strings\<close>

definition startswith :: "string \<Rightarrow> string \<Rightarrow> bool" where
  "startswith s p = (take (length p) s = p)"

definition endswith :: "string \<Rightarrow> string \<Rightarrow> bool" where
  "endswith s p = (length p \<le> length s \<and> drop (length s - length p) s = p)"

text \<open>\<^verbatim>\<open>t in s\<close>\<close>

definition contains_text :: "string \<Rightarrow> string \<Rightarrow> bool" where
  "contains_text t s \<longleftrightarrow> list_ex (\<lambda>i. startswith (drop i s) t) [0..<Suc (length s)]"

lemma startswith_append [simp]: "startswith (p @ s) p"
  by (simp add: startswith_def)

text \<open>\<^verbatim>\<open>s.partition(c)\<close> for a one-character separator: head, whether it was found, tail.\<close>

fun partition_char :: "char \<Rightarrow> string \<Rightarrow> string \<times> bool \<times> string" where
  "partition_char c [] = ([], False, [])"
| "partition_char c (x # xs) =
     (if x = c then ([], True, xs)
      else (case partition_char c xs of (h, f, t) \<Rightarrow> (x # h, f, t)))"

lemma partition_char_found: "c \<notin> set h \<Longrightarrow> partition_char c (h @ c # t) = (h, True, t)"
  by (induction h) auto

definition is_space :: "char \<Rightarrow> bool" where
  "is_space c = (let n = of_char c :: int in
     n = 32 \<or> (9 \<le> n \<and> n \<le> 13) \<or> (28 \<le> n \<and> n \<le> 31) \<or> n = 133 \<or> n = 160)"

definition py_strip :: "string \<Rightarrow> string" where
  "py_strip s = rev (dropWhile is_space (rev (dropWhile is_space s)))"

text \<open>\<^verbatim>\<open>s.split()\<close>: the maximal runs of non-space characters.\<close>

fun split_acc :: "string \<Rightarrow> string \<Rightarrow> string list" where
  "split_acc acc [] = (if acc = [] then [] else [rev acc])"
| "split_acc acc (c # cs) =
     (if is_space c then (if acc = [] then split_acc [] cs else rev acc # split_acc [] cs)
      else split_acc (c # acc) cs)"

definition py_split :: "string \<Rightarrow> string list" where
  "py_split s = split_acc [] s"

lemma split_acc_length: "length (split_acc acc s) \<le> length acc + length s"
  by (induction acc s rule: split_acc.induct) (auto simp: Suc_le_eq neq_Nil_conv)

lemma py_split_length: "length (py_split s) \<le> length s"
  using split_acc_length [of "[]" s] by (simp add: py_split_def)

definition lower_char :: "char \<Rightarrow> char" where
  "lower_char c = (let n = of_char c :: int in
     if (65 \<le> n \<and> n \<le> 90) \<or> (192 \<le> n \<and> n \<le> 222 \<and> n \<noteq> 215) then char_of (n + 32) else c)"

definition py_lower :: "string \<Rightarrow> string" where
  "py_lower s = map lower_char s"

definition utf8_char :: "char \<Rightarrow> bytes" where
  "utf8_char c = (let n = of_char c :: int in
     if n < 128 then [n] else [192 + n div 64, 128 + n mod 64])"

definition utf8 :: "string \<Rightarrow> bytes" where
  "utf8 s = concat (map utf8_char s)"

definition is_ascii :: "string \<Rightarrow> bool" where
  "is_ascii s = list_all (\<lambda>c. (of_char c :: int) < 128) s"

lemma utf8_Nil [simp]: "utf8 [] = []"
  by (simp add: utf8_def)

lemma utf8_Cons [simp]: "utf8 (c # s) = utf8_char c @ utf8 s"
  by (simp add: utf8_def)

lemma utf8_append [simp]: "utf8 (s @ t) = utf8 s @ utf8 t"
  by (simp add: utf8_def)

lemma code_point_range: "(of_char c :: int) < 256" "0 \<le> (of_char c :: int)"
  using of_char_mod_256 [of c, where 'a = int] pos_mod_bound [of 256 "of_char c"]
    pos_mod_sign [of 256 "of_char c"] by auto

lemma utf8_char_inj: "utf8_char c @ x = utf8_char d @ y \<Longrightarrow> c = d \<and> x = y"
proof -
  assume eq: "utf8_char c @ x = utf8_char d @ y"
  define m n where "m = (of_char c :: int)" and "n = (of_char d :: int)"
  have lt: "m < 256" "n < 256" "0 \<le> m" "0 \<le> n"
    using code_point_range by (simp_all add: m_def n_def)
  have "m = n \<and> x = y"
    using eq lt unfolding utf8_char_def Let_def m_def [symmetric] n_def [symmetric]
    by (auto split: if_splits) (metis div_mult_mod_eq)+
  then show ?thesis
    by (simp add: m_def n_def)
qed

lemma utf8_inj: "utf8 s = utf8 t \<Longrightarrow> s = t"
proof (induction s arbitrary: t)
  case Nil
  then show ?case by (cases t) (auto simp: utf8_char_def Let_def split: if_splits)
next
  case (Cons c s)
  then obtain d t' where t: "t = d # t'"
    by (cases t) (auto simp: utf8_char_def Let_def split: if_splits)
  with Cons.prems have "c = d \<and> utf8 s = utf8 t'"
    by (intro utf8_char_inj) simp
  with t Cons.IH show ?case by blast
qed

subsection \<open>Decimal digits\<close>

definition digit_char :: "int \<Rightarrow> char" where
  "digit_char n = char_of (48 + n)"

definition is_digit :: "char \<Rightarrow> bool" where
  "is_digit c = (let n = of_char c :: int in 48 \<le> n \<and> n \<le> 57)"

definition digit_val :: "char \<Rightarrow> int" where
  "digit_val c = of_char c - 48"

function str_of_nat :: "int \<Rightarrow> string" where
  "str_of_nat n = (if n < 10 then [digit_char n] else str_of_nat (n div 10) @ [digit_char (n mod 10)])"
  by pat_completeness auto
termination
  by (relation "measure nat") auto

declare str_of_nat.simps [simp del]

definition str_of_int :: "int \<Rightarrow> string" where
  "str_of_int i = (if i < 0 then CHR ''-'' # str_of_nat (- i) else str_of_nat i)"

definition nat_of_digits :: "string \<Rightarrow> int" where
  "nat_of_digits s = foldl (\<lambda>a c. 10 * a + digit_val c) 0 s"

lemma digit_char_props: "0 \<le> n \<Longrightarrow> n < 10 \<Longrightarrow> is_digit (digit_char n) \<and> digit_val (digit_char n) = n"
  by (simp add: is_digit_def digit_val_def digit_char_def)

lemma nat_of_digits_snoc: "nat_of_digits (s @ [c]) = 10 * nat_of_digits s + digit_val c"
  by (simp add: nat_of_digits_def)

lemma str_of_nat_digits: "0 \<le> n \<Longrightarrow> list_all is_digit (str_of_nat n)"
proof (induction n rule: str_of_nat.induct)
  case (1 n)
  then show ?case
    by (subst str_of_nat.simps) (simp add: digit_char_props)
qed

lemma str_of_nat_nonempty [simp]: "str_of_nat n \<noteq> []"
  by (subst str_of_nat.simps) simp

lemma nat_of_digits_str [simp]: "0 \<le> n \<Longrightarrow> nat_of_digits (str_of_nat n) = n"
proof (induction n rule: str_of_nat.induct)
  case (1 n)
  show ?case
  proof (cases "n < 10")
    case True
    with 1 show ?thesis
      by (subst str_of_nat.simps) (simp add: nat_of_digits_def digit_char_props)
  next
    case False
    with 1 have "nat_of_digits (str_of_nat (n div 10)) = n div 10" by simp
    with False show ?thesis
      by (subst str_of_nat.simps) (simp add: nat_of_digits_snoc digit_char_props)
  qed
qed

lemma str_of_nat_inj: "0 \<le> m \<Longrightarrow> 0 \<le> n \<Longrightarrow> str_of_nat m = str_of_nat n \<Longrightarrow> m = n"
  by (metis nat_of_digits_str)

text \<open>A number padded with zeros to a fixed width, as \<^verbatim>\<open>%02d\<close> prints it.\<close>

definition pad_left :: "nat \<Rightarrow> char \<Rightarrow> string \<Rightarrow> string" where
  "pad_left w c s = replicate (w - length s) c @ s"

definition join :: "string \<Rightarrow> string list \<Rightarrow> string" where
  "join sep xs = (case xs of [] \<Rightarrow> [] | y # ys \<Rightarrow> y @ concat (map (\<lambda>z. sep @ z) ys))"

subsection \<open>Mixed-radix integers\<close>

lemma pack_div: "0 \<le> y \<Longrightarrow> y < k \<Longrightarrow> (x * k + y) div k = (x::int)"
  by simp

lemma pack_mod: "0 \<le> y \<Longrightarrow> y < k \<Longrightarrow> (x * k + y) mod k = (y::int)"
  by simp

subsection \<open>Stable sorting\<close>

text \<open>
  \<^verbatim>\<open>sorted\<close> is stable. Stable insertion gives the same list for every comparison that is
  a total preorder, which is all that the language promises of its sort.
\<close>

fun insort_by :: "('a \<Rightarrow> 'a \<Rightarrow> bool) \<Rightarrow> 'a \<Rightarrow> 'a list \<Rightarrow> 'a list" where
  "insort_by le x [] = [x]"
| "insort_by le x (y # ys) = (if le x y then x # y # ys else y # insort_by le x ys)"

fun isort_by :: "('a \<Rightarrow> 'a \<Rightarrow> bool) \<Rightarrow> 'a list \<Rightarrow> 'a list" where
  "isort_by le [] = []"
| "isort_by le (x # xs) = insort_by le x (isort_by le xs)"

lemma mset_insort_by [simp]: "mset (insort_by le x xs) = add_mset x (mset xs)"
  by (induction xs) auto

lemma mset_isort_by [simp]: "mset (isort_by le xs) = mset xs"
  by (induction xs) auto

lemma set_isort_by [simp]: "set (isort_by le xs) = set xs"
  by (rule mset_eq_setD) simp

lemma length_isort_by [simp]: "length (isort_by le xs) = length xs"
  by (rule mset_eq_length) simp

lemma insort_by_cong:
  "(\<And>y. y \<in> set xs \<Longrightarrow> le x y = le' x y) \<Longrightarrow> insort_by le x xs = insort_by le' x xs"
  by (induction xs) auto

lemma isort_by_cong:
  "(\<And>x y. x \<in> set xs \<Longrightarrow> y \<in> set xs \<Longrightarrow> le x y = le' x y) \<Longrightarrow> isort_by le xs = isort_by le' xs"
proof (induction xs)
  case (Cons x xs)
  then have "isort_by le xs = isort_by le' xs" by simp
  moreover have "insort_by le x (isort_by le' xs) = insort_by le' x (isort_by le' xs)"
    by (rule insort_by_cong) (simp add: Cons.prems)
  ultimately show ?case by simp
qed simp

locale total_preorder =
  fixes le :: "'a \<Rightarrow> 'a \<Rightarrow> bool"
  assumes le_total: "le x y \<or> le y x"
    and le_trans: "le x y \<Longrightarrow> le y z \<Longrightarrow> le x z"
begin

lemma le_refl: "le x x"
  using le_total by blast

lemma sorted_insort: "sorted_wrt le xs \<Longrightarrow> sorted_wrt le (insort_by le x xs)"
proof (induction xs)
  case Nil
  then show ?case by simp
next
  case (Cons y ys)
  have "set (insort_by le x ys) = insert x (set ys)"
    using mset_insort_by [of le x ys] by (metis set_mset_add_mset_insert set_mset_mset)
  with Cons show ?case
    using le_total le_trans by auto
qed

lemma sorted_isort: "sorted_wrt le (isort_by le xs)"
  by (induction xs) (simp_all add: sorted_insort)

lemma insort_stable:
  "sorted_wrt le xs \<Longrightarrow>
     filter (\<lambda>y. le y z \<and> le z y) (insort_by le x xs) =
     filter (\<lambda>y. le y z \<and> le z y) (x # xs)"
proof (induction xs)
  case Nil
  then show ?case by simp
next
  case (Cons y ys)
  show ?case
  proof (cases "le x y")
    case False
    then have yx: "le y x" "\<not> le x y"
      using le_total by blast+
    have "\<not> ((le x z \<and> le z x) \<and> (le y z \<and> le z y))"
      using yx le_trans by blast
    with Cons False show ?thesis by auto
  qed simp
qed

lemma isort_stable:
  "filter (\<lambda>y. le y z \<and> le z y) (isort_by le xs) = filter (\<lambda>y. le y z \<and> le z y) xs"
  by (induction xs) (simp_all add: insort_stable sorted_isort)

lemma isort_head_max:
  "isort_by le xs = y # ys \<Longrightarrow> x \<in> set xs \<Longrightarrow> le y x"
  using sorted_isort [of xs] le_refl
  by (metis set_ConsD set_isort_by sorted_wrt.simps(2))

end

text \<open>Text is compared code point by code point.\<close>

fun codes_le :: "int list \<Rightarrow> int list \<Rightarrow> bool" where
  "codes_le [] ys = True"
| "codes_le (x # xs) [] = False"
| "codes_le (x # xs) (y # ys) = (x < y \<or> x = y \<and> codes_le xs ys)"

definition str_le :: "string \<Rightarrow> string \<Rightarrow> bool" where
  "str_le s t = codes_le (map of_char s) (map of_char t)"

lemma codes_le_antisym: "codes_le xs ys \<Longrightarrow> codes_le ys xs \<Longrightarrow> xs = ys"
  by (induction xs ys rule: codes_le.induct) (auto elim: codes_le.elims)

lemma codes_le_total: "codes_le xs ys \<or> codes_le ys xs"
  by (induction xs ys rule: codes_le.induct) auto

lemma codes_le_trans: "codes_le xs ys \<Longrightarrow> codes_le ys zs \<Longrightarrow> codes_le xs zs"
proof (induction xs ys arbitrary: zs rule: codes_le.induct)
  case (3 x xs y ys)
  then show ?case by (cases zs) auto
qed auto

lemma str_le_antisym: "str_le s t \<Longrightarrow> str_le t s \<Longrightarrow> s = t"
  using codes_le_antisym inj_of_char by (auto simp: str_le_def dest: map_injective)

definition str_less :: "string \<Rightarrow> string \<Rightarrow> bool" where
  "str_less s t = (\<not> str_le t s)"

interpretation str_order: total_preorder str_le
  by unfold_locales (auto simp: str_le_def codes_le_total intro: codes_le_trans)

text \<open>A comparison of keys is a total preorder when the key order is.\<close>

lemma total_preorder_key: "total_preorder le \<Longrightarrow> total_preorder (\<lambda>x y. le (f x) (f y))"
  unfolding total_preorder_def by blast

end
