(* ===== verification/PyFloat.thy ===== *)
theory PyFloat
  imports Prelude
begin

text \<open>
  Python's \<^verbatim>\<open>float\<close>: IEEE binary64 with round-half-to-even. A finite float is the rational it
  denotes; each operation computes the exact rational and rounds once. The sign of zero is not
  kept: nothing in the modelled code reads it.
\<close>

datatype pyfloat = Fin rat | PInf | NInf | NaN

subsection \<open>Rounding a rational to an integer, halves to even\<close>

definition rne :: "rat \<Rightarrow> int" where
  "rne x = (let f = \<lfloor>x\<rfloor>; d = x - of_int f in
     if d < 1/2 then f else if 1/2 < d then f + 1 else if even f then f else f + 1)"

lemma rne_bounds: "\<lfloor>x\<rfloor> \<le> rne x \<and> rne x \<le> \<lfloor>x\<rfloor> + 1"
  by (simp add: rne_def Let_def)

lemma rne_of_int [simp]: "rne (of_int i) = i"
  by (simp add: rne_def)

lemma rne_mono: "x \<le> y \<Longrightarrow> rne x \<le> rne y"
proof -
  assume le: "x \<le> y"
  show ?thesis
  proof (cases "\<lfloor>x\<rfloor> = \<lfloor>y\<rfloor>")
    case True
    with le show ?thesis by (auto simp: rne_def Let_def)
  next
    case False
    with le have "\<lfloor>x\<rfloor> + 1 \<le> \<lfloor>y\<rfloor>"
      using floor_mono [OF le] by simp
    then show ?thesis
      using rne_bounds [of x] rne_bounds [of y] by linarith
  qed
qed

lemma rne_nonneg: "0 \<le> x \<Longrightarrow> 0 \<le> rne x"
  using rne_mono [of 0 x] rne_of_int [of 0] by simp

lemma rne_near: "\<bar>of_int (rne x) - x\<bar> \<le> 1/2"
proof -
  have "of_int \<lfloor>x\<rfloor> \<le> x" "x < of_int \<lfloor>x\<rfloor> + 1"
    by linarith+
  then show ?thesis unfolding rne_def Let_def abs_if by auto linarith+
qed

subsection \<open>Binary exponents\<close>

text \<open>\<^verbatim>\<open>int.bit_length\<close>.\<close>

function nbits :: "int \<Rightarrow> nat" where
  "nbits n = (if n \<le> 0 then 0 else Suc (nbits (n div 2)))"
  by pat_completeness auto
termination
  by (relation "measure nat") auto

declare nbits.simps [simp del]

lemma nbits_0 [simp]: "n \<le> 0 \<Longrightarrow> nbits n = 0"
  by (simp add: nbits.simps)

lemma nbits_upper: "n < 2 ^ nbits n"
proof (induction n rule: nbits.induct)
  case (1 n)
  then show ?case by (cases "n \<le> 0") (auto simp: nbits.simps [of n])
qed

lemma nbits_lower: "0 < n \<Longrightarrow> 2 ^ (nbits n - 1) \<le> n"
proof (induction n rule: nbits.induct)
  case (1 n)
  show ?case
  proof (cases "n div 2 \<le> 0")
    case True
    with "1.prems" show ?thesis by (simp add: nbits.simps [of n])
  next
    case False
    with 1 have "2 ^ (nbits (n div 2) - 1) \<le> n div 2" by simp
    moreover have "nbits (n div 2) \<noteq> 0"
      using False by (simp add: nbits.simps [of "n div 2"])
    then obtain k where "nbits (n div 2) = Suc k" by (cases "nbits (n div 2)") auto
    ultimately show ?thesis
      using "1.prems" by (simp add: nbits.simps [of n])
  qed
qed

definition pow2 :: "int \<Rightarrow> rat" where
  "pow2 e = (if 0 \<le> e then 2 ^ nat e else 1 / 2 ^ nat (- e))"

lemma pow2_powi: "pow2 e = 2 powi e"
  by (simp add: pow2_def power_int_def field_simps)

lemma pow2_pos [simp]: "0 < pow2 e"
  by (simp add: pow2_def)

lemma pow2_nonzero [simp]: "pow2 e \<noteq> 0"
  by (metis pow2_pos less_irrefl)

lemma pow2_add: "pow2 (a + b) = pow2 a * pow2 b"
  by (simp add: pow2_powi power_int_add)

lemma pow2_mono: "a \<le> b \<Longrightarrow> pow2 a \<le> pow2 b"
  by (simp add: pow2_powi power_int_increasing)

lemma pow2_nat: "pow2 (int n) = 2 ^ n"
  by (simp add: pow2_def)

text \<open>The exponent of the leading bit of a positive rational.\<close>

definition ilog2 :: "rat \<Rightarrow> int" where
  "ilog2 x = (case quotient_of x of (p, q) \<Rightarrow>
     let k = int (nbits p) - int (nbits q) in if x < pow2 k then k - 1 else k)"

lemma ilog2_bounds: "0 < x \<Longrightarrow> pow2 (ilog2 x) \<le> x \<and> x < pow2 (ilog2 x + 1)"
proof -
  assume pos: "0 < x"
  obtain p q where pq: "quotient_of x = (p, q)" by (cases "quotient_of x")
  then have q: "0 < q" and x: "x = of_int p / of_int q"
    using quotient_of_denom_pos quotient_of_div by auto
  with pos have p: "0 < p" by (simp add: zero_less_divide_iff)
  define a b where "a = nbits p" and "b = nbits q"
  have ab: "1 \<le> a" "1 \<le> b"
    using p q by (auto simp: a_def b_def nbits.simps)
  have "(of_int p :: rat) < of_int (2 ^ a)" "(of_int (2 ^ (a - 1)) :: rat) \<le> of_int p"
    "(of_int q :: rat) < of_int (2 ^ b)" "(of_int (2 ^ (b - 1)) :: rat) \<le> of_int q"
    using nbits_upper nbits_lower p q by (auto simp only: of_int_less_iff of_int_le_iff a_def b_def)
  then have bnd: "of_int p < pow2 (int a)" "pow2 (int a - 1) \<le> of_int p"
    "of_int q < pow2 (int b)" "pow2 (int b - 1) \<le> of_int q"
    using ab by (auto simp: pow2_nat [symmetric] of_nat_diff)
  have up: "x < pow2 (int a - int b + 1)"
  proof -
    have "pow2 (int a) = pow2 (int a - int b + 1) * pow2 (int b - 1)"
      by (simp add: pow2_add [symmetric])
    also have "\<dots> \<le> pow2 (int a - int b + 1) * of_int q"
      using bnd(4) by (intro mult_left_mono less_imp_le [OF pow2_pos])
    finally have "of_int p < pow2 (int a - int b + 1) * of_int q"
      using bnd(1) by linarith
    then show ?thesis using q by (simp add: x divide_less_eq)
  qed
  have lo: "pow2 (int a - int b - 1) \<le> x"
  proof -
    have "pow2 (int a - int b - 1) * of_int q \<le> pow2 (int a - int b - 1) * pow2 (int b)"
      using bnd(3) by (intro mult_left_mono less_imp_le [OF pow2_pos] less_imp_le)
    also have "\<dots> = pow2 (int a - 1)"
      by (simp add: pow2_add [symmetric])
    finally have "pow2 (int a - int b - 1) * of_int q \<le> of_int p"
      using bnd(2) by linarith
    then show ?thesis using q by (simp add: x le_divide_eq)
  qed
  show ?thesis
    using up lo by (simp add: ilog2_def pq a_def [symmetric] b_def [symmetric] Let_def not_less)
qed

lemma ilog2_unique: "pow2 k \<le> x \<Longrightarrow> x < pow2 (k + 1) \<Longrightarrow> ilog2 x = k"
proof -
  assume k: "pow2 k \<le> x" "x < pow2 (k + 1)"
  then have "0 < x" using pow2_pos [of k] by linarith
  note b = ilog2_bounds [OF this]
  have "\<not> ilog2 x + 1 \<le> k" "\<not> k + 1 \<le> ilog2 x"
    using k b pow2_mono [of "ilog2 x + 1" k] pow2_mono [of "k + 1" "ilog2 x"] by linarith+
  then show ?thesis by simp
qed

lemma ilog2_mono: "0 < x \<Longrightarrow> x \<le> y \<Longrightarrow> ilog2 x \<le> ilog2 y"
proof (rule ccontr)
  assume x: "0 < x" and xy: "x \<le> y" and "\<not> ilog2 x \<le> ilog2 y"
  then have "pow2 (ilog2 y + 1) \<le> pow2 (ilog2 x)"
    by (intro pow2_mono) simp
  with x xy ilog2_bounds [of x] ilog2_bounds [of y] show False by linarith
qed

subsection \<open>Rounding to binary64\<close>

definition ulp_exp :: "rat \<Rightarrow> int" where
  "ulp_exp x = max (ilog2 x - 52) (- 1074)"

definition round_pos :: "rat \<Rightarrow> rat" where
  "round_pos x = of_int (rne (x / pow2 (ulp_exp x))) * pow2 (ulp_exp x)"

definition round_rat :: "rat \<Rightarrow> rat" where
  "round_rat x = (if x = 0 then 0 else if 0 < x then round_pos x else - round_pos (- x))"

definition to_float :: "rat \<Rightarrow> pyfloat" where
  "to_float x = (let r = round_rat x in
     if pow2 1024 \<le> r then PInf else if r \<le> - pow2 1024 then NInf else Fin r)"

lemma round_pos_nonneg: "0 < x \<Longrightarrow> 0 \<le> round_pos x"
  by (simp add: round_pos_def rne_nonneg less_imp_le)

lemma round_pos_grid_upper:
  assumes x: "0 < x" and k: "x \<le> pow2 k" and e: "ulp_exp x \<le> k"
  shows "round_pos x \<le> pow2 k"
proof -
  let ?e = "ulp_exp x"
  have "pow2 k / pow2 ?e = of_int (2 ^ nat (k - ?e))"
    using e pow2_add [of "k - ?e" ?e] by (simp add: pow2_def [of "k - ?e"])
  moreover have "rne (x / pow2 ?e) \<le> rne (pow2 k / pow2 ?e)"
    by (intro rne_mono divide_right_mono k less_imp_le [OF pow2_pos])
  ultimately have "rne (x / pow2 ?e) \<le> 2 ^ nat (k - ?e)"
    by (simp only: rne_of_int)
  then have "of_int (rne (x / pow2 ?e)) \<le> (2 ^ nat (k - ?e) :: rat)"
    by (metis of_int_le_iff of_int_numeral of_int_power)
  then have "of_int (rne (x / pow2 ?e)) * pow2 ?e \<le> 2 ^ nat (k - ?e) * pow2 ?e"
    by (intro mult_right_mono) (simp_all add: less_imp_le)
  also have "\<dots> = pow2 k"
    using e pow2_add [of "k - ?e" ?e] by (simp add: pow2_def [of "k - ?e"])
  finally show ?thesis by (simp add: round_pos_def)
qed

lemma round_pos_grid_lower:
  assumes x: "0 < x" and k: "pow2 k \<le> x" and e: "ulp_exp x \<le> k"
  shows "pow2 k \<le> round_pos x"
proof -
  let ?e = "ulp_exp x"
  have "pow2 k / pow2 ?e = of_int (2 ^ nat (k - ?e))"
    using e pow2_add [of "k - ?e" ?e] by (simp add: pow2_def [of "k - ?e"])
  moreover have "rne (pow2 k / pow2 ?e) \<le> rne (x / pow2 ?e)"
    by (intro rne_mono divide_right_mono k less_imp_le [OF pow2_pos])
  ultimately have "2 ^ nat (k - ?e) \<le> rne (x / pow2 ?e)"
    by (simp only: rne_of_int)
  then have "(2 ^ nat (k - ?e) :: rat) \<le> of_int (rne (x / pow2 ?e))"
    by (metis of_int_le_iff of_int_numeral of_int_power)
  then have "2 ^ nat (k - ?e) * pow2 ?e \<le> of_int (rne (x / pow2 ?e)) * pow2 ?e"
    by (intro mult_right_mono) (simp_all add: less_imp_le)
  moreover have "2 ^ nat (k - ?e) * pow2 ?e = pow2 k"
    using e pow2_add [of "k - ?e" ?e] by (simp add: pow2_def [of "k - ?e"])
  ultimately show ?thesis by (simp add: round_pos_def)
qed

lemma round_pos_mono:
  assumes x: "0 < x" and xy: "x \<le> y"
  shows "round_pos x \<le> round_pos y"
proof -
  have y: "0 < y" using x xy by linarith
  have l: "ilog2 x \<le> ilog2 y" by (rule ilog2_mono [OF x xy])
  show ?thesis
  proof (cases "ulp_exp x = ulp_exp y")
    case True
    have "rne (x / pow2 (ulp_exp y)) \<le> rne (y / pow2 (ulp_exp y))"
      by (intro rne_mono divide_right_mono xy) (simp add: less_imp_le)
    then show ?thesis
      by (simp add: round_pos_def True mult_right_mono less_imp_le)
  next
    case False
    with l have e: "ilog2 x < ilog2 y" "- 1074 \<le> ilog2 y - 52"
      by (auto simp: ulp_exp_def max_def split: if_splits)
    have "x \<le> pow2 (ilog2 y)"
      using e ilog2_bounds [OF x] pow2_mono [of "ilog2 x + 1" "ilog2 y"] by linarith
    then have "round_pos x \<le> pow2 (ilog2 y)"
      using e by (intro round_pos_grid_upper [OF x]) (auto simp: ulp_exp_def)
    also have "\<dots> \<le> round_pos y"
      using e ilog2_bounds [OF y] by (intro round_pos_grid_lower [OF y]) (auto simp: ulp_exp_def)
    finally show ?thesis .
  qed
qed

lemma round_rat_mono: "x \<le> y \<Longrightarrow> round_rat x \<le> round_rat y"
proof -
  assume le: "x \<le> y"
  consider "0 < x" | "x \<le> 0" "0 \<le> y" | "y < 0" by linarith
  then show ?thesis
  proof cases
    case 1
    with le show ?thesis by (simp add: round_rat_def round_pos_mono)
  next
    case 2
    then show ?thesis
      using round_pos_nonneg [of "- x"] round_pos_nonneg [of y] by (auto simp: round_rat_def)
  next
    case 3
    with le show ?thesis
      using round_pos_mono [of "- y" "- x"] by (auto simp: round_rat_def)
  qed
qed

lemma round_rat_0 [simp]: "round_rat 0 = 0"
  by (simp add: round_rat_def)

lemma round_rat_nonneg: "0 \<le> x \<Longrightarrow> 0 \<le> round_rat x"
  using round_rat_mono [of 0 x] by simp

subsection \<open>Comparison\<close>

fun fle :: "pyfloat \<Rightarrow> pyfloat \<Rightarrow> bool" where
  "fle NaN b = False"
| "fle a NaN = False"
| "fle NInf b = True"
| "fle a PInf = True"
| "fle (Fin x) (Fin y) = (x \<le> y)"
| "fle a b = False"

definition flt :: "pyfloat \<Rightarrow> pyfloat \<Rightarrow> bool" where
  "flt a b = (fle a b \<and> \<not> fle b a)"

definition feq :: "pyfloat \<Rightarrow> pyfloat \<Rightarrow> bool" where
  "feq a b = (fle a b \<and> fle b a)"

lemma fle_refl: "a \<noteq> NaN \<Longrightarrow> fle a a"
  by (cases a) auto

lemma fle_total: "a \<noteq> NaN \<Longrightarrow> b \<noteq> NaN \<Longrightarrow> fle a b \<or> fle b a"
  by (cases a; cases b) auto

lemma fle_trans: "fle a b \<Longrightarrow> fle b c \<Longrightarrow> fle a c"
  by (cases a; cases b; cases c) auto

lemma flt_Fin [simp]: "flt (Fin x) (Fin y) = (x < y)"
  by (auto simp: flt_def)

lemma fle_NInf: "a \<noteq> NaN \<Longrightarrow> fle NInf a"
  by (cases a) auto

lemma fle_PInf: "a \<noteq> NaN \<Longrightarrow> fle a PInf"
  by (cases a) auto

lemma to_float_not_NaN [simp]: "to_float x \<noteq> NaN"
  by (simp add: to_float_def Let_def)

lemma to_float_mono: "x \<le> y \<Longrightarrow> fle (to_float x) (to_float y)"
proof -
  assume "x \<le> y"
  then have "round_rat x \<le> round_rat y" by (rule round_rat_mono)
  moreover have "- pow2 1024 < pow2 1024" using pow2_pos [of 1024] by linarith
  ultimately show ?thesis by (auto simp: to_float_def Let_def)
qed

lemma to_float_0 [simp]: "to_float 0 = Fin 0"
  using pow2_pos [of 1024] by (simp add: to_float_def not_le)

lemma to_float_of_int:
  assumes "0 \<le> n" "n < 2 ^ 53"
  shows "to_float (of_int n) = Fin (of_int n)"
proof (cases "n = 0")
  case False
  let ?x = "of_int n :: rat"
  have x: "0 < ?x" using False assms(1) by simp
  have "?x < of_int (2 ^ 53)" using assms(2) by (simp only: of_int_less_iff)
  then have "?x < pow2 53" by (simp add: pow2_def)
  then have "pow2 (ilog2 ?x) < pow2 53" using ilog2_bounds [OF x] by linarith
  then have "ilog2 ?x < 53" using pow2_mono [of 53 "ilog2 ?x"] by (cases "ilog2 ?x < 53") auto
  then have "ulp_exp ?x \<le> 0" by (simp add: ulp_exp_def)
  then obtain k where k: "ulp_exp ?x = - int k" by (metis nonneg_int_cases neg_0_le_iff_le minus_minus)
  have p: "pow2 (- int k) = 1 / 2 ^ k" by (simp add: pow2_def)
  have "?x / pow2 (ulp_exp ?x) = of_int (n * 2 ^ k)" by (simp add: k p)
  then have "round_pos ?x = of_int (n * 2 ^ k) / 2 ^ k" by (simp only: round_pos_def rne_of_int) (simp add: k p)
  then have r: "round_rat ?x = ?x" using x by (simp add: round_rat_def)
  have "pow2 53 \<le> pow2 1024" by (rule pow2_mono) simp
  then have "?x < pow2 1024" "- pow2 1024 < ?x" using \<open>?x < pow2 53\<close> x by linarith+
  with r show ?thesis by (simp add: to_float_def)
qed simp

lemma to_float_numeral: "(numeral k :: int) < 2 ^ 53 \<Longrightarrow> to_float (numeral k) = Fin (numeral k)"
  using to_float_of_int [of "numeral k"] by simp

lemma to_float_1: "to_float 1 = Fin 1"
  using to_float_of_int [of 1] by simp
lemma to_float_in_binade:
  assumes "pow2 k \<le> x" "x < pow2 (k + 1)" "- 1022 \<le> k" "k < 1023"
  shows "to_float x = Fin (of_int (rne (x / pow2 (k - 52))) * pow2 (k - 52))"
proof -
  have x: "0 < x" using assms(1) pow2_pos [of k] by linarith
  have u: "ulp_exp x = k - 52" using ilog2_unique [OF assms(1,2)] assms(3) by (simp add: ulp_exp_def)
  have "x / pow2 (k - 52) \<le> of_int (2 ^ 53)"
    using assms(2) pow2_add [of "k - 52" 53] by (simp add: divide_le_eq pow2_def [of 53] mult.commute add.commute less_imp_le)
  then have "rne (x / pow2 (k - 52)) \<le> rne (of_int (2 ^ 53))" by (rule rne_mono)
  then have "rne (x / pow2 (k - 52)) \<le> 2 ^ 53" by (simp only: rne_of_int)
  then have "(of_int (rne (x / pow2 (k - 52))) :: rat) \<le> of_int (2 ^ 53)" by (simp only: of_int_le_iff)
  then have "round_pos x \<le> pow2 53 * pow2 (k - 52)"
    unfolding round_pos_def u by (intro mult_right_mono) (simp_all add: pow2_def [of 53] less_imp_le)
  also have "\<dots> = pow2 (k + 1)" by (simp add: pow2_add [symmetric] add.commute)
  also have "\<dots> \<le> pow2 1023" using assms(4) by (intro pow2_mono) simp
  also have "\<dots> < pow2 1024" by (simp add: pow2_def)
  finally have "round_pos x < pow2 1024" .
  moreover have "- pow2 1024 < round_pos x" using round_pos_nonneg [OF x] pow2_pos [of 1024] by linarith
  ultimately show ?thesis using x u by (simp add: to_float_def round_rat_def round_pos_def Let_def)
qed

lemma to_float_nonneg: "0 \<le> x \<Longrightarrow> fle (Fin 0) (to_float x)"
  using to_float_mono [of 0 x] by simp

text \<open>The interface of a rounding step: it keeps order and fixes zero.\<close>

locale monotone_rounding =
  fixes rnd :: "rat \<Rightarrow> 'v" and vle :: "'v \<Rightarrow> 'v \<Rightarrow> bool"
  assumes rnd_mono: "x \<le> y \<Longrightarrow> vle (rnd x) (rnd y)"
    and vle_trans: "vle a b \<Longrightarrow> vle b c \<Longrightarrow> vle a c"
begin

lemma rnd_scaled: "x \<le> y \<Longrightarrow> 0 \<le> c \<Longrightarrow> vle (rnd (x * c)) (rnd (y * c))"
  by (intro rnd_mono mult_right_mono)

lemma rnd_sum: "x \<le> x' \<Longrightarrow> y \<le> y' \<Longrightarrow> vle (rnd (x + y)) (rnd (x' + y'))"
  by (intro rnd_mono add_mono)

lemma rnd_quot: "x \<le> y \<Longrightarrow> 0 < c \<Longrightarrow> vle (rnd (x / c)) (rnd (y / c))"
  by (intro rnd_mono divide_right_mono) auto

end

interpretation binary64: monotone_rounding to_float fle
  by unfold_locales (auto intro: to_float_mono fle_trans)

interpretation half_even: monotone_rounding rne "(\<le>)"
  by unfold_locales (auto intro: rne_mono)

subsection \<open>Arithmetic\<close>

fun fneg :: "pyfloat \<Rightarrow> pyfloat" where
  "fneg (Fin x) = Fin (- x)"
| "fneg PInf = NInf"
| "fneg NInf = PInf"
| "fneg NaN = NaN"

fun fadd :: "pyfloat \<Rightarrow> pyfloat \<Rightarrow> pyfloat" where
  "fadd NaN b = NaN"
| "fadd a NaN = NaN"
| "fadd (Fin x) (Fin y) = to_float (x + y)"
| "fadd (Fin x) b = b"
| "fadd a (Fin y) = a"
| "fadd PInf PInf = PInf"
| "fadd NInf NInf = NInf"
| "fadd a b = NaN"

definition fsub :: "pyfloat \<Rightarrow> pyfloat \<Rightarrow> pyfloat" where
  "fsub a b = fadd a (fneg b)"

definition finf :: "rat \<Rightarrow> pyfloat \<Rightarrow> pyfloat" where
  "finf x i = (if x = 0 then NaN else if 0 < x then i else fneg i)"

fun fmul :: "pyfloat \<Rightarrow> pyfloat \<Rightarrow> pyfloat" where
  "fmul NaN b = NaN"
| "fmul a NaN = NaN"
| "fmul (Fin x) (Fin y) = to_float (x * y)"
| "fmul (Fin x) b = finf x b"
| "fmul a (Fin y) = finf y a"
| "fmul PInf b = b"
| "fmul NInf b = fneg b"

fun fdiv :: "pyfloat \<Rightarrow> pyfloat \<Rightarrow> pyfloat res" where
  "fdiv a (Fin y) =
     (if y = 0 then Inl ZeroDivisionError
      else (case a of Fin x \<Rightarrow> Inr (to_float (x / y)) | NaN \<Rightarrow> Inr NaN | i \<Rightarrow> Inr (finf y i)))"
| "fdiv (Fin x) NaN = Inr NaN"
| "fdiv (Fin x) b = Inr (Fin 0)"
| "fdiv a b = Inr NaN"

text \<open>\<^verbatim>\<open>max(a, b)\<close> and \<^verbatim>\<open>min(a, b)\<close> keep the first argument unless the second is strictly better.\<close>

definition fmax :: "pyfloat \<Rightarrow> pyfloat \<Rightarrow> pyfloat" where
  "fmax a b = (if flt a b then b else a)"

definition fmin :: "pyfloat \<Rightarrow> pyfloat \<Rightarrow> pyfloat" where
  "fmin a b = (if flt b a then b else a)"

text \<open>\<^verbatim>\<open>float(i)\<close> of an integer.\<close>

definition float_of_int :: "int \<Rightarrow> pyfloat res" where
  "float_of_int i = (case to_float (of_int i) of Fin x \<Rightarrow> Inr (Fin x) | _ \<Rightarrow> Inl OverflowError)"

definition pow10 :: "int \<Rightarrow> rat" where
  "pow10 e = (if 0 \<le> e then 10 ^ nat e else 1 / 10 ^ nat (- e))"

lemma pow10_pos [simp]: "0 < pow10 e"
  by (simp add: pow10_def)

text \<open>\<^verbatim>\<open>round(x, n)\<close> for \<open>n \<ge> 0\<close>: the decimal nearest to the exact value, read back as a float.\<close>

fun fround :: "nat \<Rightarrow> pyfloat \<Rightarrow> pyfloat" where
  "fround n (Fin x) = to_float (of_int (rne (x * 10 ^ n)) / 10 ^ n)"
| "fround n a = a"

lemma fround_mono: "fle a b \<Longrightarrow> fle (fround n a) (fround n b)"
proof (cases "(a, b)" rule: fle.cases)
  case (5 x y)
  assume "fle a b"
  with 5 have "rne (x * 10 ^ n) \<le> rne (y * 10 ^ n)"
    by (intro half_even.rnd_scaled) auto
  with 5 show ?thesis by (auto intro!: to_float_mono divide_right_mono)
qed (auto intro!: fle_PInf fle_NInf)

lemma fround_nonneg: "fle (Fin 0) x \<Longrightarrow> fle (Fin 0) (fround n x)"
  using fround_mono [of "Fin 0" x n] rne_of_int [of 0] by simp

lemma fadd_mono_nonneg:
  assumes "fle (Fin 0) a" "fle (Fin 0) c" "fle a b" "fle c d"
  shows "fle (fadd a c) (fadd b d)"
  using assms by (cases a; cases b; cases c; cases d) (auto intro!: to_float_mono fle_PInf)

lemma fmul_mono_rate:
  assumes "fle (Fin 0) a" "fle a b" "0 \<le> r" "b \<noteq> PInf"
  shows "fle (fmul a (Fin r)) (fmul b (Fin r))"
  using assms by (cases a; cases b) (auto intro!: to_float_mono mult_right_mono)

lemma fmul_nonneg: "fle (Fin 0) a \<Longrightarrow> a \<noteq> PInf \<Longrightarrow> 0 \<le> r \<Longrightarrow> fle (Fin 0) (fmul a (Fin r))"
  by (cases a) (auto intro!: to_float_nonneg)

subsection \<open>Reading and printing\<close>

text \<open>
  A decimal literal: sign, coefficient, exponent. \<^verbatim>\<open>float\<close> and \<^verbatim>\<open>Decimal\<close> read the same
  numeric form.
\<close>

definition parse_sign :: "string \<Rightarrow> bool \<times> string" where
  "parse_sign s = (case s of [] \<Rightarrow> (False, [])
     | c # r \<Rightarrow> if c = CHR ''-'' then (True, r) else if c = CHR ''+'' then (False, r) else (False, s))"

definition parse_exponent :: "string \<Rightarrow> int option" where
  "parse_exponent s = (case s of [] \<Rightarrow> Some 0
     | c # r \<Rightarrow> if lower_char c \<noteq> CHR ''e'' then None
                else (case parse_sign r of (neg, ds) \<Rightarrow>
                  if ds = [] \<or> \<not> list_all is_digit ds then None
                  else Some (if neg then - nat_of_digits ds else nat_of_digits ds)))"

definition parse_literal :: "string \<Rightarrow> (bool \<times> int \<times> int) option" where
  "parse_literal s = (case parse_sign s of (neg, s1) \<Rightarrow>
     let i = takeWhile is_digit s1; r1 = dropWhile is_digit s1;
         dot = (r1 \<noteq> [] \<and> hd r1 = CHR ''.'');
         f = (if dot then takeWhile is_digit (tl r1) else []);
         r2 = (if dot then dropWhile is_digit (tl r1) else r1)
     in if i = [] \<and> f = [] then None
        else map_option (\<lambda>e. (neg, nat_of_digits (i @ f), e - int (length f))) (parse_exponent r2))"

fun underscores_ok :: "bool \<Rightarrow> string \<Rightarrow> bool" where
  "underscores_ok p [] = True"
| "underscores_ok p (c # s) =
     (if c = CHR ''_'' then p \<and> s \<noteq> [] \<and> is_digit (hd s) \<and> underscores_ok False s
      else underscores_ok (is_digit c) s)"

definition without_underscores :: "string \<Rightarrow> string" where
  "without_underscores s = filter (\<lambda>c. c \<noteq> CHR ''_'') s"

definition float_of_str :: "string \<Rightarrow> pyfloat res" where
  "float_of_str s0 = (let s = py_strip s0 in
     if \<not> underscores_ok False s then Inl ValueError
     else (case parse_sign (py_lower s) of (neg, w) \<Rightarrow>
       if w = ''inf'' \<or> w = ''infinity'' then Inr (if neg then NInf else PInf)
       else if w = ''nan'' then Inr NaN
       else (case parse_literal (without_underscores s) of None \<Rightarrow> Inl ValueError
             | Some (n, m, e) \<Rightarrow> Inr (to_float ((if n then - 1 else 1) * of_int m * pow10 e)))))"

text \<open>\<^verbatim>\<open>f"{x:.6f}"\<close>.\<close>

definition fixed6 :: "int \<Rightarrow> string" where
  "fixed6 n = str_of_nat (n div 10 ^ 6) @ CHR ''.'' # pad_left 6 (CHR ''0'') (str_of_nat (n mod 10 ^ 6))"

fun fmt6 :: "pyfloat \<Rightarrow> string" where
  "fmt6 (Fin x) = (if x < 0 then CHR ''-'' # fixed6 (rne (- x * 10 ^ 6)) else fixed6 (rne (x * 10 ^ 6)))"
| "fmt6 PInf = ''inf''"
| "fmt6 NInf = ''-inf''"
| "fmt6 NaN = ''nan''"

text \<open>
  \<^verbatim>\<open>repr(x)\<close>: the shortest decimal (1 to 17 significant digits) that reads back as the same float,
  in positional notation for decimal points between -4 and 16 and in scientific notation outside.
\<close>

function ilog10_up :: "rat \<Rightarrow> nat \<Rightarrow> int \<Rightarrow> int" where
  "ilog10_up x 0 k = k"
| "ilog10_up x (Suc n) k = (if pow10 (k + 1) \<le> x then ilog10_up x n (k + 1) else k)"
  by pat_completeness auto
termination
  by (relation "measure (\<lambda>(x, n, k). n)") auto

definition ilog10 :: "rat \<Rightarrow> int" where
  "ilog10 x = ilog10_up x 640 (- 330)"

definition digits_of :: "rat \<Rightarrow> nat \<Rightarrow> int \<times> int" where
  "digits_of x n = (let k = ilog10 x; m = rne (x / pow10 (k - int n + 1)) in
     if m = 10 ^ n then (10 ^ (n - 1), k + 1) else (m, k))"

fun shortest :: "rat \<Rightarrow> nat \<Rightarrow> nat \<Rightarrow> nat \<times> int \<times> int" where
  "shortest x 0 n = (case digits_of x 17 of (m, k) \<Rightarrow> (17, m, k))"
| "shortest x (Suc fuel) n = (case digits_of x n of (m, k) \<Rightarrow>
     if round_rat (of_int m * pow10 (k - int n + 1)) = x then (n, m, k) else shortest x fuel (Suc n))"

definition repr_pos :: "rat \<Rightarrow> string" where
  "repr_pos x = (case shortest x 16 1 of (n, m, k) \<Rightarrow>
     let ds = str_of_nat m; p = k + 1 in
     if - 4 < p \<and> p \<le> 16 then
       (if p \<le> 0 then ''0.'' @ replicate (nat (- p)) (CHR ''0'') @ ds
        else if int (length ds) \<le> p then ds @ replicate (nat p - length ds) (CHR ''0'') @ ''.0''
        else take (nat p) ds @ CHR ''.'' # drop (nat p) ds)
     else (if length ds = 1 then ds else hd ds # CHR ''.'' # tl ds) @
          CHR ''e'' # (if k < 0 then CHR ''-'' else CHR ''+'') # pad_left 2 (CHR ''0'') (str_of_nat \<bar>k\<bar>))"

fun float_repr :: "pyfloat \<Rightarrow> string" where
  "float_repr (Fin x) = (if x = 0 then ''0.0'' else if 0 < x then repr_pos x else CHR ''-'' # repr_pos (- x))"
| "float_repr PInf = ''inf''"
| "float_repr NInf = ''-inf''"
| "float_repr NaN = ''nan''"

subsection \<open>int\<close>

text \<open>\<^verbatim>\<open>int(text)\<close>: a decimal integer; \<^verbatim>\<open>int\<close> of a float truncates.\<close>

definition int_of_str :: "string \<Rightarrow> int res" where
  "int_of_str s = (let t = py_strip s in
     if \<not> underscores_ok False t then Inl ValueError
     else case parse_sign (without_underscores t) of (neg, digits) \<Rightarrow>
       if digits = [] \<or> \<not> list_all is_digit digits then Inl ValueError
       else Inr (if neg then - nat_of_digits digits else nat_of_digits digits))"

definition truncate_float :: "pyfloat \<Rightarrow> int res" where
  "truncate_float f = (case f of Fin x \<Rightarrow> Inr (if x < 0 then - \<lfloor>- x\<rfloor> else \<lfloor>x\<rfloor>) | NaN \<Rightarrow> Inl ValueError | _ \<Rightarrow> Inl OverflowError)"

end
