(* ===== verification/PyDecimal.thy ===== *)
theory PyDecimal
  imports PyFloat
begin

text \<open>
  Python's \<^verbatim>\<open>decimal.Decimal\<close>: sign, coefficient and exponent. Construction is exact;
  addition rounds to the default context's 28 digits, halves to even; ordering a NaN raises
  \<open>InvalidOperation\<close>. The context's exponent limits (about \<open>10 ^ 6\<close>) are not modelled.
\<close>

datatype dec = DFin bool int int | DInf bool | DNaN bool

definition dec_zero :: dec where
  "dec_zero = DFin False 0 0"

definition nan_word :: "string \<Rightarrow> string \<Rightarrow> bool" where
  "nan_word p w = (startswith w p \<and> list_all is_digit (drop (length p) w))"

definition dec_of_str :: "string \<Rightarrow> dec res" where
  "dec_of_str s0 = (let s = without_underscores (py_strip s0) in
     case parse_sign (py_lower s) of (neg, w) \<Rightarrow>
       if w = ''inf'' \<or> w = ''infinity'' then Inr (DInf neg)
       else if nan_word ''nan'' w then Inr (DNaN False)
       else if nan_word ''snan'' w then Inr (DNaN True)
       else (case parse_literal s of None \<Rightarrow> Inl InvalidOperation
             | Some (n, m, e) \<Rightarrow> Inr (DFin n m e)))"

text \<open>The number a finite decimal denotes, and the order on all but NaN.\<close>

fun dec_val :: "dec \<Rightarrow> rat" where
  "dec_val (DFin n m e) = (if n then - 1 else 1) * of_int m * pow10 e"
| "dec_val d = 0"

fun dec_rank :: "dec \<Rightarrow> int" where
  "dec_rank (DInf n) = (if n then - 1 else 1)"
| "dec_rank d = 0"

fun is_nan :: "dec \<Rightarrow> bool" where
  "is_nan (DNaN s) = True"
| "is_nan d = False"

definition dec_less_val :: "dec \<Rightarrow> dec \<Rightarrow> bool" where
  "dec_less_val a b = (dec_rank a < dec_rank b \<or> dec_rank a = dec_rank b \<and> dec_val a < dec_val b)"

definition dec_le_val :: "dec \<Rightarrow> dec \<Rightarrow> bool" where
  "dec_le_val a b = (\<not> dec_less_val b a)"

definition dec_lt :: "dec \<Rightarrow> dec \<Rightarrow> bool res" where
  "dec_lt a b = (if is_nan a \<or> is_nan b then Inl InvalidOperation else Inr (dec_less_val a b))"

definition dec_le :: "dec \<Rightarrow> dec \<Rightarrow> bool res" where
  "dec_le a b = (if is_nan a \<or> is_nan b then Inl InvalidOperation else Inr (dec_le_val a b))"

lemma dec_le_val_total: "dec_le_val a b \<or> dec_le_val b a"
  by (auto simp: dec_le_val_def dec_less_val_def)

lemma dec_le_val_trans: "dec_le_val a b \<Longrightarrow> dec_le_val b c \<Longrightarrow> dec_le_val a c"
  by (auto simp: dec_le_val_def dec_less_val_def)

interpretation decimal_order: total_preorder dec_le_val
  by unfold_locales (use dec_le_val_total in \<open>auto intro: dec_le_val_trans\<close>)

lemma dec_le_val_Fin: "dec_le_val (DFin n m e) (DFin n' m' e') \<longleftrightarrow> dec_val (DFin n m e) \<le> dec_val (DFin n' m' e')"
  by (auto simp: dec_le_val_def dec_less_val_def)

subsection \<open>Addition in the default context\<close>

definition dec_fix :: "bool \<Rightarrow> int \<Rightarrow> int \<Rightarrow> dec" where
  "dec_fix neg c e = (let n = length (str_of_nat c) in
     if n \<le> 28 then DFin neg c e
     else (let k = n - 28; m = rne (of_int c / 10 ^ k) in
       if m = 10 ^ 28 then DFin neg (10 ^ 27) (e + int k + 1) else DFin neg m (e + int k)))"

definition signed :: "bool \<Rightarrow> int \<Rightarrow> int" where
  "signed neg c = (if neg then - c else c)"

fun dec_add :: "dec \<Rightarrow> dec \<Rightarrow> dec res" where
  "dec_add (DNaN True) b = Inl InvalidOperation"
| "dec_add a (DNaN True) = Inl InvalidOperation"
| "dec_add (DNaN False) b = Inr (DNaN False)"
| "dec_add a (DNaN False) = Inr (DNaN False)"
| "dec_add (DInf n) (DInf n') = (if n = n' then Inr (DInf n) else Inl InvalidOperation)"
| "dec_add (DInf n) b = Inr (DInf n)"
| "dec_add a (DInf n) = Inr (DInf n)"
| "dec_add (DFin n m e) (DFin n' m' e') =
     (let k = min e e';
          s = signed n m * 10 ^ nat (e - k) + signed n' m' * 10 ^ nat (e' - k)
      in Inr (dec_fix (if s = 0 then n \<and> n' else s < 0) \<bar>s\<bar> k))"

text \<open>\<^verbatim>\<open>str(d)\<close>: plain notation unless the exponent forces the scientific one.\<close>

definition dec_str_fin :: "int \<Rightarrow> int \<Rightarrow> string" where
  "dec_str_fin m e = (let ds = str_of_nat m; len = int (length ds); left = e + len;
       dot = (if e \<le> 0 \<and> - 6 < left then left else 1);
       body = (if dot \<le> 0 then ''0.'' @ replicate (nat (- dot)) (CHR ''0'') @ ds
               else if len \<le> dot then ds @ replicate (nat (dot - len)) (CHR ''0'')
               else take (nat dot) ds @ CHR ''.'' # drop (nat dot) ds)
     in if left = dot then body
        else body @ CHR ''E'' # (if left - dot < 0 then CHR ''-'' else CHR ''+'') # str_of_nat \<bar>left - dot\<bar>)"

fun dec_str :: "dec \<Rightarrow> string" where
  "dec_str (DFin n m e) = (if n then CHR ''-'' # dec_str_fin m e else dec_str_fin m e)"
| "dec_str (DInf n) = (if n then ''-Infinity'' else ''Infinity'')"
| "dec_str (DNaN s) = (if s then ''sNaN'' else ''NaN'')"

subsection \<open>Values\<close>

fun dec_wf :: "dec \<Rightarrow> bool" where
  "dec_wf (DFin n m e) = (0 \<le> m)"
| "dec_wf d = True"

definition dec_nonneg :: "dec \<Rightarrow> bool" where
  "dec_nonneg d = (\<not> is_nan d \<and> dec_wf d \<and> dec_le_val dec_zero d)"

lemma pow10_add: "pow10 (a + b) = pow10 a * pow10 b"
proof -
  have "pow10 e = 10 powi e" for e
    by (simp add: pow10_def power_int_def field_simps)
  then show ?thesis by (simp add: power_int_add)
qed

lemma pow10_nonzero [simp]: "pow10 e \<noteq> 0"
  by (metis pow10_pos less_irrefl)

lemma pow10_nat_diff: "k \<le> e \<Longrightarrow> 10 ^ nat (e - k) * pow10 k = pow10 e"
  using pow10_add [of "e - k" k] by (simp add: pow10_def [of "e - k"])

lemma nat_of_digits_nonneg: "list_all is_digit s \<Longrightarrow> 0 \<le> nat_of_digits s"
proof (induction s rule: rev_induct)
  case Nil
  then show ?case by (simp add: nat_of_digits_def)
next
  case (snoc c s)
  then show ?case by (simp add: nat_of_digits_snoc digit_val_def is_digit_def Let_def)
qed

lemma takeWhile_digits: "list_all is_digit (takeWhile is_digit s)"
  by (induction s) auto

lemma parse_literal_nonneg: "parse_literal s = Some (n, m, e) \<Longrightarrow> 0 \<le> m"
  by (auto simp: parse_literal_def Let_def takeWhile_digits
      intro!: nat_of_digits_nonneg split: prod.splits if_splits)

lemma dec_of_str_wf: "dec_of_str s = Inr d \<Longrightarrow> dec_wf d"
  by (auto simp: dec_of_str_def Let_def dest: parse_literal_nonneg
      split: prod.splits if_splits option.splits)

lemma dec_fix_exact: "length (str_of_nat c) \<le> 28 \<Longrightarrow> dec_fix neg c e = DFin neg c e"
  by (simp add: dec_fix_def)

lemma dec_fix_wf: "0 \<le> c \<Longrightarrow> dec_wf (dec_fix neg c e)"
  by (auto simp: dec_fix_def Let_def intro!: rne_nonneg)

lemma dec_add_wf: "dec_add a b = Inr d \<Longrightarrow> dec_wf a \<Longrightarrow> dec_wf b \<Longrightarrow> dec_wf d"
  by (induction a b rule: dec_add.induct) (auto simp: Let_def split: if_splits intro!: dec_fix_wf)

lemma signed_val: "dec_val (DFin n m e) = of_int (signed n m) * pow10 e"
  by (simp add: signed_def)

lemma dec_add_exact:
  assumes "dec_add (DFin n m e) (DFin n' m' e') = Inr d"
    and "length (str_of_nat \<bar>signed n m * 10 ^ nat (e - min e e') + signed n' m' * 10 ^ nat (e' - min e e')\<bar>) \<le> 28"
  shows "dec_val d = dec_val (DFin n m e) + dec_val (DFin n' m' e')"
proof -
  define k where "k = min e e'"
  define s where "s = signed n m * 10 ^ nat (e - k) + signed n' m' * 10 ^ nat (e' - k)"
  have "d = dec_fix (if s = 0 then n \<and> n' else s < 0) \<bar>s\<bar> k"
    using assms(1) by (simp only: dec_add.simps Let_def sum.inject k_def s_def)
  also have "\<dots> = DFin (if s = 0 then n \<and> n' else s < 0) \<bar>s\<bar> k"
    using assms(2) by (intro dec_fix_exact) (simp add: k_def s_def)
  finally have "dec_val d = of_int s * pow10 k" by (auto simp: abs_if)
  also have "\<dots> = of_int (signed n m) * (10 ^ nat (e - k) * pow10 k) + of_int (signed n' m') * (10 ^ nat (e' - k) * pow10 k)"
    by (simp add: s_def algebra_simps)
  also have "\<dots> = dec_val (DFin n m e) + dec_val (DFin n' m' e')"
    by (simp add: k_def pow10_nat_diff signed_val del: dec_val.simps)
  finally show ?thesis .
qed

end
