(* ===== verification/Json.thy ===== *)
theory Json
  imports PyDecimal
begin

text \<open>
  JSON values as \<^verbatim>\<open>json.loads\<close> returns them, the Python operations the code applies to a value
  of unknown shape (equality, \<^verbatim>\<open>in\<close>, \<^verbatim>\<open>str\<close>, \<^verbatim>\<open>float\<close>, \<^verbatim>\<open>Decimal\<close>, truth), and
  \<^verbatim>\<open>sip_protocol.canonical\<close>: the canonical serialisation that every signature covers.
  \<^verbatim>\<open>json.loads\<close> accepts \<^verbatim>\<open>NaN\<close> and \<^verbatim>\<open>Infinity\<close>, so a \<open>JFloat\<close> may hold them.
\<close>

datatype json =
    JNull
  | JBool bool
  | JInt int
  | JFloat pyfloat
  | JStr string
  | JArr "json list"
  | JObj "(string \<times> json) list"

type_synonym dict = "(string \<times> json) list"

abbreviation jget :: "dict \<Rightarrow> string \<Rightarrow> json option" where
  "jget d k \<equiv> dict_get d k"

text \<open>\<^verbatim>\<open>d.get(k)\<close> with its default \<^verbatim>\<open>None\<close>, and with an explicit one.\<close>

definition getn :: "dict \<Rightarrow> string \<Rightarrow> json" where
  "getn d k = (case dict_get d k of None \<Rightarrow> JNull | Some v \<Rightarrow> v)"

definition get_or :: "dict \<Rightarrow> string \<Rightarrow> json \<Rightarrow> json" where
  "get_or d k x = (case dict_get d k of None \<Rightarrow> x | Some v \<Rightarrow> v)"

text \<open>\<^verbatim>\<open>d[k]\<close>.\<close>

definition getitem :: "dict \<Rightarrow> string \<Rightarrow> json res" where
  "getitem d k = (case dict_get d k of None \<Rightarrow> Inl KeyError | Some v \<Rightarrow> Inr v)"

fun the_str :: "json \<Rightarrow> string option" where
  "the_str (JStr s) = Some s"
| "the_str v = None"

fun the_obj :: "json \<Rightarrow> dict option" where
  "the_obj (JObj d) = Some d"
| "the_obj v = None"

fun the_arr :: "json \<Rightarrow> json list option" where
  "the_arr (JArr xs) = Some xs"
| "the_arr v = None"

text \<open>\<^verbatim>\<open>v.get(k)\<close> on a value that need not be a dictionary.\<close>

definition attr_get :: "json \<Rightarrow> string \<Rightarrow> json res" where
  "attr_get v k = (case the_obj v of None \<Rightarrow> Inl AttributeError | Some d \<Rightarrow> Inr (getn d k))"

lemma the_str_Some [simp]: "the_str v = Some s \<longleftrightarrow> v = JStr s"
  by (cases v) auto

lemma the_obj_Some [simp]: "the_obj v = Some d \<longleftrightarrow> v = JObj d"
  by (cases v) auto

lemma the_arr_Some [simp]: "the_arr v = Some xs \<longleftrightarrow> v = JArr xs"
  by (cases v) auto

lemma getn_set [dict_simps]: "getn (dict_set k v d) k' = (if k' = k then v else getn d k')"
  by (simp add: getn_def dict_simps)

lemma getn_without [dict_simps]: "getn (dict_without k d) k' = (if k' = k then JNull else getn d k')"
  by (simp add: getn_def dict_simps)

subsection \<open>Equality, truth and membership\<close>

text \<open>A value as a number: Python compares \<^verbatim>\<open>True\<close>, \<^verbatim>\<open>1\<close> and \<^verbatim>\<open>1.0\<close> by value.\<close>

fun num_of :: "json \<Rightarrow> pyfloat option" where
  "num_of (JBool b) = Some (Fin (if b then 1 else 0))"
| "num_of (JInt i) = Some (Fin (of_int i))"
| "num_of (JFloat f) = Some f"
| "num_of v = None"

fun py_eq :: "json \<Rightarrow> json \<Rightarrow> bool"
  and py_eq_list :: "json list \<Rightarrow> json list \<Rightarrow> bool"
  and py_eq_dict :: "dict \<Rightarrow> dict \<Rightarrow> bool" where
  "py_eq JNull w = (w = JNull)"
| "py_eq (JStr s) w = (w = JStr s)"
| "py_eq (JBool b) w = (case num_of w of None \<Rightarrow> False | Some g \<Rightarrow> feq (Fin (if b then 1 else 0)) g)"
| "py_eq (JInt i) w = (case num_of w of None \<Rightarrow> False | Some g \<Rightarrow> feq (Fin (of_int i)) g)"
| "py_eq (JFloat f) w = (case num_of w of None \<Rightarrow> False | Some g \<Rightarrow> feq f g)"
| "py_eq (JArr xs) w = (case w of JArr ys \<Rightarrow> py_eq_list xs ys | _ \<Rightarrow> False)"
| "py_eq (JObj d) w = (case w of JObj d' \<Rightarrow> length d = length d' \<and> py_eq_dict d d' | _ \<Rightarrow> False)"
| "py_eq_list [] ys = (ys = [])"
| "py_eq_list (x # xs) ys = (case ys of [] \<Rightarrow> False | y # ys' \<Rightarrow> py_eq x y \<and> py_eq_list xs ys')"
| "py_eq_dict [] d' = True"
| "py_eq_dict ((k, v) # d) d' =
     ((case dict_get d' k of None \<Rightarrow> False | Some w \<Rightarrow> py_eq v w) \<and> py_eq_dict d d')"

lemma py_eq_JStr [simp]: "py_eq v (JStr s) = (v = JStr s)"
  by (cases v) auto

fun truthy :: "json \<Rightarrow> bool" where
  "truthy JNull = False"
| "truthy (JBool b) = b"
| "truthy (JInt i) = (i \<noteq> 0)"
| "truthy (JFloat f) = (f \<noteq> Fin 0)"
| "truthy (JStr s) = (s \<noteq> [])"
| "truthy (JArr xs) = (xs \<noteq> [])"
| "truthy (JObj d) = (d \<noteq> [])"

fun is_substring :: "string \<Rightarrow> string \<Rightarrow> bool" where
  "is_substring p [] = (p = [])"
| "is_substring p (c # s) = (startswith (c # s) p \<or> is_substring p s)"

text \<open>\<^verbatim>\<open>s in v\<close> for a string \<open>s\<close>.\<close>

fun str_in :: "string \<Rightarrow> json \<Rightarrow> bool res" where
  "str_in s (JArr xs) = Inr (JStr s \<in> set xs)"
| "str_in s (JObj d) = Inr (s \<in> fst ` set d)"
| "str_in s (JStr t) = Inr (is_substring s t)"
| "str_in s v = Inl TypeError"

subsection \<open>Text and numbers\<close>

definition hex_char :: "int \<Rightarrow> char" where
  "hex_char n = (if n < 10 then digit_char n else char_of (87 + n))"

definition repr_char :: "char \<Rightarrow> char \<Rightarrow> string" where
  "repr_char q c = (let n = of_char c :: int in
     if c = q \<or> n = 92 then [CHR 0x5C, c]
     else if n = 9 then [CHR 0x5C, CHR ''t''] else if n = 10 then [CHR 0x5C, CHR ''n'']
     else if n = 13 then [CHR 0x5C, CHR ''r'']
     else if n < 32 \<or> (127 \<le> n \<and> n \<le> 160) \<or> n = 173
       then [CHR 0x5C, CHR ''x'', hex_char (n div 16), hex_char (n mod 16)]
     else [c])"

definition repr_str :: "string \<Rightarrow> string" where
  "repr_str s = (let q = (if CHR 0x27 \<in> set s \<and> CHR 0x22 \<notin> set s then CHR 0x22 else CHR 0x27) in
     q # concat (map (repr_char q) s) @ [q])"

fun py_repr :: "json \<Rightarrow> string" where
  "py_repr JNull = ''None''"
| "py_repr (JBool b) = (if b then ''True'' else ''False'')"
| "py_repr (JInt i) = str_of_int i"
| "py_repr (JFloat f) = float_repr f"
| "py_repr (JStr s) = repr_str s"
| "py_repr (JArr xs) = CHR ''['' # join '', '' (map py_repr xs) @ '']''"
| "py_repr (JObj d) = CHR ''{'' # join '', '' (map (\<lambda>(k, v). repr_str k @ '': '' @ py_repr v) d) @ ''}''"

fun py_str :: "json \<Rightarrow> string" where
  "py_str (JStr s) = s"
| "py_str v = py_repr v"

text \<open>\<^verbatim>\<open>float(v)\<close> and \<^verbatim>\<open>Decimal(v)\<close>; the sequence form of \<^verbatim>\<open>Decimal\<close> is not modelled.\<close>

fun py_float :: "json \<Rightarrow> pyfloat res" where
  "py_float (JStr s) = float_of_str s"
| "py_float (JInt i) = float_of_int i"
| "py_float (JBool b) = Inr (Fin (if b then 1 else 0))"
| "py_float (JFloat f) = Inr f"
| "py_float v = Inl TypeError"

definition dec_of_rat :: "rat \<Rightarrow> dec" where
  "dec_of_rat x = (case quotient_of x of (p, q) \<Rightarrow>
     let k = nbits q - 1 in DFin (p < 0) (\<bar>p\<bar> * 5 ^ k) (- int k))"

fun py_decimal :: "json \<Rightarrow> dec res" where
  "py_decimal (JStr s) = dec_of_str s"
| "py_decimal (JInt i) = Inr (DFin (i < 0) \<bar>i\<bar> 0)"
| "py_decimal (JBool b) = Inr (DFin False (if b then 1 else 0) 0)"
| "py_decimal (JFloat (Fin x)) = Inr (dec_of_rat x)"
| "py_decimal (JFloat PInf) = Inr (DInf False)"
| "py_decimal (JFloat NInf) = Inr (DInf True)"
| "py_decimal (JFloat NaN) = Inr (DNaN False)"
| "py_decimal (JArr xs) = Inl ValueError"
| "py_decimal v = Inl TypeError"

subsection \<open>Canonical JSON\<close>

definition json_char :: "char \<Rightarrow> string" where
  "json_char c = (let n = of_char c :: int in
     if n = 34 then [CHR 0x5C, CHR 0x22] else if n = 92 then [CHR 0x5C, CHR 0x5C]
     else if n = 10 then [CHR 0x5C, CHR ''n''] else if n = 13 then [CHR 0x5C, CHR ''r'']
     else if n = 9 then [CHR 0x5C, CHR ''t''] else if n = 12 then [CHR 0x5C, CHR ''f'']
     else if n = 8 then [CHR 0x5C, CHR ''b'']
     else if n < 32 then [CHR 0x5C, CHR ''u'', CHR ''0'', CHR ''0'', hex_char (n div 16), hex_char (n mod 16)]
     else [c])"

definition json_string :: "string \<Rightarrow> string" where
  "json_string s = CHR 0x22 # concat (map json_char s) @ [CHR 0x22]"

definition key_le :: "string \<times> 'v \<Rightarrow> string \<times> 'v \<Rightarrow> bool" where
  "key_le p q = str_le (fst p) (fst q)"

interpretation key_order: total_preorder key_le
  unfolding key_le_def by (rule total_preorder_key [OF str_order.total_preorder_axioms])

fun json_text :: "json \<Rightarrow> string res" where
  "json_text JNull = Inr ''null''"
| "json_text (JBool b) = Inr (if b then ''true'' else ''false'')"
| "json_text (JInt i) = Inr (str_of_int i)"
| "json_text (JFloat f) = (case f of Fin x \<Rightarrow> Inr (float_repr f) | _ \<Rightarrow> Inl ValueError)"
| "json_text (JStr s) = Inr (json_string s)"
| "json_text (JArr xs) =
     rbind (rmap json_text xs) (\<lambda>ts. Inr (CHR ''['' # join '','' ts @ '']''))"
| "json_text (JObj d) =
     rbind (rmap (\<lambda>(k, v). rbind (json_text v) (\<lambda>t. Inr (json_string k @ CHR '':'' # t)))
                 (isort_by key_le d))
           (\<lambda>ts. Inr (CHR ''{'' # join '','' ts @ ''}''))"

definition canonical_json :: "json \<Rightarrow> bytes res" where
  "canonical_json v = rbind (json_text v) (\<lambda>t. Inr (utf8 t))"

subsection \<open>Values that canonicalise\<close>

text \<open>A value without NaN or infinity has a canonical form.\<close>

fun json_ok :: "json \<Rightarrow> bool" where
  "json_ok (JFloat f) = (case f of Fin x \<Rightarrow> True | _ \<Rightarrow> False)"
| "json_ok (JArr xs) = list_all json_ok xs"
| "json_ok (JObj d) = list_all (\<lambda>(k, v). json_ok v) d"
| "json_ok v = True"

lemma rmap_total: "(\<And>x. x \<in> set xs \<Longrightarrow> \<exists>y. f x = Inr y) \<Longrightarrow> \<exists>ys. rmap f xs = Inr ys"
  by (induction xs) (fastforce simp: rbind_eq_Inr)+

lemma json_text_total: "json_ok v \<Longrightarrow> \<exists>t. json_text v = Inr t"
proof (induction v rule: json_ok.induct)
  case (2 xs)
  then have "\<exists>ts. rmap json_text xs = Inr ts" by (intro rmap_total) (auto simp: list_all_iff)
  then show ?case by auto
next
  case (3 d)
  have "\<exists>ts. rmap (\<lambda>(k, v). rbind (json_text v) (\<lambda>t. Inr (json_string k @ CHR '':'' # t))) (isort_by key_le d) = Inr ts"
    using 3 by (intro rmap_total) (fastforce simp: list_all_iff)
  then show ?case by auto
qed (auto split: pyfloat.splits)

lemma canonical_json_total: "json_ok v \<Longrightarrow> \<exists>bs. canonical_json v = Inr bs"
  using json_text_total [of v] by (auto simp: canonical_json_def)

lemma json_ok_set: "json_ok (JObj d) \<Longrightarrow> json_ok v \<Longrightarrow> json_ok (JObj (dict_set k v d))"
  by (induction d) auto

lemma json_ok_without: "json_ok (JObj d) \<Longrightarrow> json_ok (JObj (dict_without k d))"
  by (auto simp: dict_without_def list_all_iff)

end
