(* ===== verification/Base64.thy ===== *)
theory Base64
  imports Json
begin

text \<open>
  The URL-safe base64 of Python's standard library, as the protocol uses it for keys, signatures
  and credit serials. Decoding is the lenient one of \<^verbatim>\<open>binascii.a2b_base64\<close>: characters outside
  the alphabet are skipped, and the spare bits of the last character are ignored. Hence several
  texts decode to the same bytes.
\<close>

definition b64_char :: "int \<Rightarrow> char" where
  "b64_char n =
     (if n < 26 then char_of (65 + n) else if n < 52 then char_of (71 + n)
      else if n < 62 then char_of (n - 4) else if n = 62 then CHR ''-'' else CHR ''_'')"

text \<open>The decoder's table after \<^verbatim>\<open>urlsafe_b64decode\<close> has mapped \<^verbatim>\<open>-_\<close> to \<^verbatim>\<open>+/\<close>: both spellings count.\<close>

definition b64_val :: "char \<Rightarrow> int option" where
  "b64_val c = (let n = of_char c :: int in
     if 65 \<le> n \<and> n \<le> 90 then Some (n - 65)
     else if 97 \<le> n \<and> n \<le> 122 then Some (n - 71)
     else if 48 \<le> n \<and> n \<le> 57 then Some (n + 4)
     else if n = 45 \<or> n = 43 then Some 62
     else if n = 95 \<or> n = 47 then Some 63
     else None)"

fun b64_encode :: "bytes \<Rightarrow> string" where
  "b64_encode [] = []"
| "b64_encode [a] = [b64_char (a div 4), b64_char (a mod 4 * 16), CHR ''='', CHR ''='']"
| "b64_encode [a, b] =
     [b64_char (a div 4), b64_char (a mod 4 * 16 + b div 16), b64_char (b mod 16 * 4), CHR ''='']"
| "b64_encode (a # b # c # bs) =
     b64_char (a div 4) # b64_char (a mod 4 * 16 + b div 16) #
     b64_char (b mod 16 * 4 + c div 64) # b64_char (c mod 64) # b64_encode bs"

text \<open>
  The decoding loop: position in the current group of four, bits carried over, and how many
  padding characters ended the group so far.
\<close>

fun a2b :: "int \<Rightarrow> int \<Rightarrow> int \<Rightarrow> string \<Rightarrow> bytes res" where
  "a2b quad left pads [] = (if quad = 0 then Inr [] else Inl ValueError)"
| "a2b quad left pads (c # s) =
     (if c = CHR ''='' then
        (if 2 \<le> quad \<and> 4 \<le> quad + (pads + 1) then Inr []
         else a2b quad left (if 2 \<le> quad then pads + 1 else pads) s)
      else (case b64_val c of None \<Rightarrow> a2b quad left pads s
        | Some v \<Rightarrow>
            if quad = 0 then a2b 1 v 0 s
            else if quad = 1 then rbind (a2b 2 (v mod 16) 0 s) (\<lambda>bs. Inr ((left * 4 + v div 16) # bs))
            else if quad = 2 then rbind (a2b 3 (v mod 4) 0 s) (\<lambda>bs. Inr ((left * 16 + v div 4) # bs))
            else rbind (a2b 0 0 0 s) (\<lambda>bs. Inr ((left * 64 + v) # bs))))"

definition urlsafe_b64decode :: "string \<Rightarrow> bytes res" where
  "urlsafe_b64decode s = (if is_ascii s then a2b 0 0 0 s else Inl ValueError)"

definition rstrip_char :: "char \<Rightarrow> string \<Rightarrow> string" where
  "rstrip_char c s = rev (dropWhile (\<lambda>x. x = c) (rev s))"

definition b64u_encode :: "bytes \<Rightarrow> string" where
  "b64u_encode raw = rstrip_char (CHR ''='') (b64_encode raw)"

definition pad4 :: "string \<Rightarrow> string" where
  "pad4 s = s @ replicate (nat ((- int (length s)) mod 4)) (CHR ''='')"

definition b64u_decode :: "string \<Rightarrow> bytes res" where
  "b64u_decode s = urlsafe_b64decode (pad4 s)"

definition is_bytes :: "bytes \<Rightarrow> bool" where
  "is_bytes bs = list_all (\<lambda>b. 0 \<le> b \<and> b < 256) bs"

lemma is_bytes_simps [simp]:
  "is_bytes []" "is_bytes (b # bs) \<longleftrightarrow> 0 \<le> b \<and> b < 256 \<and> is_bytes bs"
  "is_bytes (bs @ cs) \<longleftrightarrow> is_bytes bs \<and> is_bytes cs"
  by (auto simp: is_bytes_def)

subsection \<open>Decoding an encoding\<close>

lemma b64_char_code:
  assumes "0 \<le> n" "n < 64"
  shows "(of_char (b64_char n) :: int) =
    (if n < 26 then 65 + n else if n < 52 then 71 + n else if n < 62 then n - 4 else if n = 62 then 45 else 95)"
  using assms by (auto simp: b64_char_def)

lemma b64_val_char: "0 \<le> n \<Longrightarrow> n < 64 \<Longrightarrow> b64_val (b64_char n) = Some n"
  unfolding b64_val_def Let_def by (subst b64_char_code, simp, simp)+ auto

lemma b64_char_not_pad: "0 \<le> n \<Longrightarrow> n < 64 \<Longrightarrow> b64_char n \<noteq> CHR ''=''"
proof
  assume n: "0 \<le> n" "n < 64" and "b64_char n = CHR ''=''"
  then have "(of_char (b64_char n) :: int) = 61" by simp
  with n b64_char_code [OF n] show False by (auto split: if_splits)
qed

lemma b64_char_ascii: "0 \<le> n \<Longrightarrow> n < 64 \<Longrightarrow> (of_char (b64_char n) :: int) < 128"
  by (simp add: b64_char_code)

lemma a2b_char:
  assumes "0 \<le> v" "v < 64"
  shows "a2b quad left pads (b64_char v # s) =
    (if quad = 0 then a2b 1 v 0 s
     else if quad = 1 then rbind (a2b 2 (v mod 16) 0 s) (\<lambda>bs. Inr ((left * 4 + v div 16) # bs))
     else if quad = 2 then rbind (a2b 3 (v mod 4) 0 s) (\<lambda>bs. Inr ((left * 16 + v div 4) # bs))
     else rbind (a2b 0 0 0 s) (\<lambda>bs. Inr ((left * 64 + v) # bs)))"
  using assms by (simp add: b64_val_char b64_char_not_pad)

lemma byte_div:
  fixes b :: int
  assumes "0 \<le> b" "b < 256"
  shows "0 \<le> b div 4" "b div 4 < 64" "0 \<le> b div 16" "b div 16 < 16" "0 \<le> b div 64" "b div 64 < 4"
  using assms by auto

lemma first_sextet:
  fixes a :: int
  assumes "0 \<le> a" "a < 256" "0 \<le> y" "y < 16"
  shows "0 \<le> a mod 4 * 16 + y" "a mod 4 * 16 + y < 64"
    "a div 4 * 4 + (a mod 4 * 16 + y) div 16 = a" "(a mod 4 * 16 + y) mod 16 = y"
proof -
  have "0 \<le> a mod 4" "a mod 4 < 4" by simp_all
  with assms show "0 \<le> a mod 4 * 16 + y" "a mod 4 * 16 + y < 64" by linarith+
  show "a div 4 * 4 + (a mod 4 * 16 + y) div 16 = a" "(a mod 4 * 16 + y) mod 16 = y"
    using assms by (simp_all only: pack_div pack_mod div_mult_mod_eq)
qed

lemma second_sextet:
  fixes b :: int
  assumes "0 \<le> b" "b < 256" "0 \<le> y" "y < 4"
  shows "0 \<le> b mod 16 * 4 + y" "b mod 16 * 4 + y < 64"
    "b div 16 * 16 + (b mod 16 * 4 + y) div 4 = b" "(b mod 16 * 4 + y) mod 4 = y"
proof -
  have "0 \<le> b mod 16" "b mod 16 < 16" by simp_all
  with assms show "0 \<le> b mod 16 * 4 + y" "b mod 16 * 4 + y < 64" by linarith+
  show "b div 16 * 16 + (b mod 16 * 4 + y) div 4 = b" "(b mod 16 * 4 + y) mod 4 = y"
    using assms by (simp_all only: pack_div pack_mod div_mult_mod_eq)
qed

text \<open>The first two characters decode to the first byte, and so on through a group.\<close>

lemma a2b_first:
  assumes "0 \<le> a" "a < 256" "0 \<le> y" "y < 16"
  shows "a2b 0 0 p (b64_char (a div 4) # b64_char (a mod 4 * 16 + y) # s) =
    rbind (a2b 2 y 0 s) (\<lambda>bs. Inr (a # bs))"
  using assms first_sextet [OF assms] byte_div [OF assms(1,2)] by (simp add: a2b_char del: a2b.simps(2))

lemma a2b_second:
  assumes "0 \<le> b" "b < 256" "0 \<le> y" "y < 4"
  shows "a2b 2 (b div 16) 0 (b64_char (b mod 16 * 4 + y) # s) = rbind (a2b 3 y 0 s) (\<lambda>bs. Inr (b # bs))"
  using assms second_sextet [OF assms] by (simp add: a2b_char del: a2b.simps(2))

lemma a2b_third:
  assumes "0 \<le> c" "c < 256"
  shows "a2b 3 (c div 64) 0 (b64_char (c mod 64) # s) = rbind (a2b 0 0 0 s) (\<lambda>bs. Inr (c # bs))"
  using assms by (simp add: a2b_char del: a2b.simps(2))

lemma a2b_encode: "is_bytes bs \<Longrightarrow> a2b 0 0 0 (b64_encode bs) = Inr bs"
proof (induction bs rule: b64_encode.induct)
  case (2 a)
  then show ?case using a2b_first [of a 0 0 "''==''"] by simp
next
  case (3 a b)
  then show ?case
    using a2b_first [of a "b div 16" 0] a2b_second [of b 0] byte_div [of b] by simp
next
  case (4 a b c bs)
  then show ?case
    by (simp add: a2b_first a2b_second a2b_third byte_div del: a2b.simps(2))
qed simp

text \<open>
  Stripping the padding and putting it back: the length modulo 4 determines it.
\<close>

lemma sextet_text:
  "list_all (\<lambda>n. 0 \<le> n \<and> n < 64) ns \<Longrightarrow>
     CHR ''='' \<notin> set (map b64_char ns) \<and> is_ascii (map b64_char ns)"
proof (induction ns)
  case (Cons n ns)
  then have "CHR ''='' \<noteq> b64_char n" "(of_char (b64_char n) :: int) < 128"
    using b64_char_not_pad [of n] b64_char_ascii [of n] by auto
  with Cons show ?case by (simp add: is_ascii_def)
qed (simp add: is_ascii_def)

definition sextets :: "bytes \<Rightarrow> int list \<Rightarrow> nat \<Rightarrow> bool" where
  "sextets bs ns k = (b64_encode bs = map b64_char ns @ replicate k (CHR ''='') \<and> k < 3 \<and>
     (int (length ns) + int k) mod 4 = 0 \<and> list_all (\<lambda>n. 0 \<le> n \<and> n < 64) ns)"

lemma group_mod4: "(int n + int k) mod 4 = 0 \<Longrightarrow> (int (n + Suc 0 + Suc 0 + Suc 0 + Suc 0) + int k) mod 4 = 0"
  by presburger

lemma sextets_exist: "is_bytes bs \<Longrightarrow> \<exists>ns k. sextets bs ns k"
proof (induction bs rule: b64_encode.induct)
  case 1
  have "sextets [] [] 0" by (simp add: sextets_def)
  then show ?case by blast
next
  case (2 a)
  then have "sextets [a] [a div 4, a mod 4 * 16] (Suc (Suc 0))"
    unfolding sextets_def using first_sextet(1,2) [of a 0] byte_div(1,2) [of a]
    by (simp only: b64_encode.simps list.map append.simps replicate.simps list.size list.pred_inject
        is_bytes_simps) simp
  then show ?case by blast
next
  case (3 a b)
  then have "sextets [a, b] [a div 4, a mod 4 * 16 + b div 16, b mod 16 * 4] (Suc 0)"
    unfolding sextets_def
    using first_sextet(1,2) [of a "b div 16"] byte_div(1,2) [of a] byte_div(3,4) [of b] second_sextet(1,2) [of b 0]
    by (simp only: b64_encode.simps list.map append.simps replicate.simps list.size list.pred_inject
        is_bytes_simps) simp
  then show ?case by blast
next
  case (4 a b c bs)
  then obtain ns k where ns: "sextets bs ns k" by auto
  have "sextets (a # b # c # bs)
      (a div 4 # (a mod 4 * 16 + b div 16) # (b mod 16 * 4 + c div 64) # c mod 64 # ns) k"
    unfolding sextets_def
  proof (intro conjI)
    show "list_all (\<lambda>n. 0 \<le> n \<and> n < 64)
        (a div 4 # (a mod 4 * 16 + b div 16) # (b mod 16 * 4 + c div 64) # c mod 64 # ns)"
      using 4(2) ns first_sextet(1,2) [of a "b div 16"] byte_div(1,2) [of a] byte_div(3,4) [of b]
        byte_div(5,6) [of c] second_sextet(1,2) [of b "c div 64"]
      by (simp only: list.pred_inject sextets_def is_bytes_simps) simp
  qed (use ns group_mod4 in \<open>simp_all only: sextets_def b64_encode.simps list.map append.simps list.size\<close>)
  then show ?case by blast
qed

lemma b64_encode_split:
  assumes "is_bytes bs"
  obtains body k where "b64_encode bs = body @ replicate k (CHR ''='')" "k < 3"
    "(int (length body) + int k) mod 4 = 0" "CHR ''='' \<notin> set body" "is_ascii body"
proof -
  from sextets_exist [OF assms] obtain ns k where "sextets bs ns k" by blast
  then show ?thesis
    using that [of "map b64_char ns" k] sextet_text [of ns] by (simp add: sextets_def)
qed

lemma b64u_roundtrip: "is_bytes bs \<Longrightarrow> b64u_decode (b64u_encode bs) = Inr bs"
proof -
  assume bs: "is_bytes bs"
  from this obtain body k where
    b: "b64_encode bs = body @ replicate k (CHR ''='')" "k < 3" "(int (length body) + int k) mod 4 = 0"
      "CHR ''='' \<notin> set body" "is_ascii body" by (rule b64_encode_split)
  have strip: "b64u_encode bs = body"
    using b(4) by (cases body rule: rev_cases) (auto simp: b64u_encode_def rstrip_char_def b(1) dropWhile_append)
  have "(- int (length body)) mod 4 = int k"
    using b(2,3) by presburger
  then have "pad4 body = b64_encode bs"
    by (simp add: pad4_def b(1))
  moreover have "is_ascii (b64_encode bs)"
    using b(5) by (simp add: b(1) is_ascii_def list_all_iff ball_Un set_replicate_conv_if)
  ultimately show ?thesis
    by (simp add: b64u_decode_def strip urlsafe_b64decode_def a2b_encode bs)
qed

end
