(* ===== verification/PyTime.thy ===== *)
theory PyTime
  imports Prelude
begin

text \<open>
  Instants and their UTC text. An aware \<^verbatim>\<open>datetime\<close> is the number of microseconds since
  0001-01-01T00:00:00Z; Python's range is the years 1 to 9999. Calendar conversion follows
  \<^verbatim>\<open>_ord2ymd\<close> and \<^verbatim>\<open>_ymd2ord\<close> of the standard library.
\<close>

definition is_leap :: "int \<Rightarrow> bool" where
  "is_leap y = (y mod 4 = 0 \<and> (y mod 100 \<noteq> 0 \<or> y mod 400 = 0))"

definition days_before_year :: "int \<Rightarrow> int" where
  "days_before_year y = 365 * (y - 1) + (y - 1) div 4 - (y - 1) div 100 + (y - 1) div 400"

definition month_starts :: "int list" where
  "month_starts = [0, 31, 59, 90, 120, 151, 181, 212, 243, 273, 304, 334]"

definition days_before_month :: "bool \<Rightarrow> int \<Rightarrow> int" where
  "days_before_month leap m = month_starts ! nat (m - 1) + (if 2 < m \<and> leap then 1 else 0)"

definition ymd2ord :: "int \<times> int \<times> int \<Rightarrow> int" where
  "ymd2ord = (\<lambda>(y, m, d). days_before_year y + days_before_month (is_leap y) m + d)"

text \<open>Month and day of the \<open>r\<close>-th day (from 0) of a year: the estimate is right or one too large.\<close>

definition month_day :: "bool \<Rightarrow> int \<Rightarrow> int \<times> int" where
  "month_day leap r = (let m = (r + 50) div 32 in
     if r < days_before_month leap m then (m - 1, r - days_before_month leap (m - 1) + 1)
     else (m, r - days_before_month leap m + 1))"

definition ord2ymd :: "int \<Rightarrow> int \<times> int \<times> int" where
  "ord2ymd n = (let n0 = n - 1; n400 = n0 div 146097; r400 = n0 mod 146097;
      n100 = r400 div 36524; r100 = r400 mod 36524;
      n4 = r100 div 1461; r4 = r100 mod 1461; n1 = r4 div 365; r = r4 mod 365;
      year = n400 * 400 + 1 + n100 * 100 + n4 * 4 + n1
    in if n1 = 4 \<or> n100 = 4 then (year - 1, 12, 31)
       else (case month_day (n1 = 3 \<and> (n4 \<noteq> 24 \<or> n100 = 3)) r of (m, d) \<Rightarrow> (year, m, d)))"

lemma days_before_year_split:
  assumes "0 \<le> b" "b \<le> 3" "0 \<le> c" "c \<le> 24" "0 \<le> d" "d \<le> 3"
  shows "days_before_year (a * 400 + 1 + b * 100 + c * 4 + d) = 146097 * a + 36524 * b + 1461 * c + 365 * d"
proof -
  let ?y = "a * 400 + b * 100 + c * 4 + d"
  have "((a * 100 + b * 25 + c) * 4 + d) div 4 = a * 100 + b * 25 + c"
    "((a * 4 + b) * 100 + (c * 4 + d)) div 100 = a * 4 + b"
    "(a * 400 + (b * 100 + c * 4 + d)) div 400 = a"
    by (rule pack_div; use assms in linarith)+
  then have "?y div 4 = a * 100 + b * 25 + c" "?y div 100 = a * 4 + b" "?y div 400 = a"
    by (simp_all only: distrib_right mult.assoc add.assoc mult_numeral_1_right)
  then show ?thesis by (simp add: days_before_year_def algebra_simps)
qed

lemma is_leap_split:
  assumes "0 \<le> b" "b \<le> 3" "0 \<le> c" "c \<le> 24" "0 \<le> d" "d \<le> 3"
  shows "is_leap (a * 400 + 1 + b * 100 + c * 4 + d) \<longleftrightarrow> d = 3 \<and> (c \<noteq> 24 \<or> b = 3)"
proof -
  define y where "y = a * 400 + 1 + b * 100 + c * 4 + d"
  have m4: "y mod 4 = (if d = 3 then 0 else d + 1)"
  proof -
    have "y = (a * 100 + b * 25 + c + 1) * 4 + 0 \<or> d \<noteq> 3" "y = (a * 100 + b * 25 + c) * 4 + (d + 1)"
      by (auto simp: y_def)
    then show ?thesis
      using pack_mod [of 0 4 "a * 100 + b * 25 + c + 1"] pack_mod [of "d + 1" 4 "a * 100 + b * 25 + c"] assms
      by (cases "d = 3") auto
  qed
  have m100: "y mod 100 = (if c = 24 then 0 else c * 4 + 4)" if "d = 3"
  proof -
    have "y = (a * 4 + b + 1) * 100 + 0 \<or> c \<noteq> 24" "y = (a * 4 + b) * 100 + (c * 4 + 4)"
      using that by (auto simp: y_def)
    then show ?thesis
      using pack_mod [of 0 100 "a * 4 + b + 1"] pack_mod [of "c * 4 + 4" 100 "a * 4 + b"] assms
      by (cases "c = 24") auto
  qed
  have m400: "y mod 400 = (if b = 3 then 0 else (b + 1) * 100)" if "d = 3" "c = 24"
  proof -
    have "y = (a + 1) * 400 + 0 \<or> b \<noteq> 3" "y = a * 400 + (b + 1) * 100"
      using that by (auto simp: y_def)
    then show ?thesis
      using pack_mod [of 0 400 "a + 1"] pack_mod [of "(b + 1) * 100" 400 a] assms
      by (cases "b = 3") auto
  qed
  have "is_leap y \<longleftrightarrow> d = 3 \<and> (c \<noteq> 24 \<or> b = 3)"
    unfolding is_leap_def using m4 m100 m400 assms by auto
  then show ?thesis by (simp only: y_def)
qed

text \<open>The month table is checked day by day for both kinds of year.\<close>

definition month_day_ok :: "bool \<Rightarrow> int \<Rightarrow> bool" where
  "month_day_ok leap r = (case month_day leap r of (m, d) \<Rightarrow>
     1 \<le> m \<and> m \<le> 12 \<and> 1 \<le> d \<and> d \<le> 31 \<and> days_before_month leap m + d = r + 1)"

lemma month_day_table: "list_all (month_day_ok leap) [0..364]"
  by (cases leap) (simp_all only:, code_simp+)

lemma month_day_correct: "0 \<le> r \<Longrightarrow> r \<le> 364 \<Longrightarrow> month_day_ok leap r"
  using month_day_table [of leap] by (simp add: list_all_iff)

lemma ord2ymd_correct:
  fixes n :: int
  shows "ymd2ord (ord2ymd n) = n" "(case ord2ymd n of (y, m, d) \<Rightarrow> 1 \<le> m \<and> m \<le> 12 \<and> 1 \<le> d \<and> d \<le> 31)"
proof -
  define a q where "a = (n - 1) div 146097" and "q = (n - 1) mod 146097"
  define b r100 where "b = q div 36524" and "r100 = q mod 36524"
  define c r4 where "c = r100 div 1461" and "r4 = r100 mod 1461"
  define d r where "d = r4 div 365" and "r = r4 mod 365"
  have n: "n - 1 = 146097 * a + 36524 * b + 1461 * c + 365 * d + r"
    by (simp add: a_def q_def b_def r100_def c_def r4_def d_def r_def)
  have bnd: "0 \<le> b" "b \<le> 4" "0 \<le> c" "c \<le> 24" "0 \<le> d" "d \<le> 4" "0 \<le> r" "r \<le> 364"
    "b = 4 \<longrightarrow> r100 = 0" "d = 4 \<longrightarrow> r = 0" "c = 24 \<longrightarrow> d \<le> 3"
  proof -
    have e: "q = 36524 * b + r100" "r100 = 1461 * c + r4" "r4 = 365 * d + r"
      by (simp_all add: b_def r100_def c_def r4_def d_def r_def)
    have l: "0 \<le> q" "q < 146097" "0 \<le> r100" "r100 < 36524" "0 \<le> r4" "r4 < 1461" "0 \<le> r" "r < 365"
      by (simp_all add: q_def r100_def r4_def r_def)
    have p: "0 \<le> b" "0 \<le> c" "0 \<le> d"
      using l by (simp_all add: b_def c_def d_def)
    show "0 \<le> b" "b \<le> 4" "0 \<le> c" "c \<le> 24" "0 \<le> d" "d \<le> 4" "0 \<le> r" "r \<le> 364"
      "b = 4 \<longrightarrow> r100 = 0" "d = 4 \<longrightarrow> r = 0" "c = 24 \<longrightarrow> d \<le> 3"
      using e l p by linarith+
  qed
  note defs = a_def q_def b_def r100_def c_def r4_def d_def r_def
  have o: "ord2ymd n = (if d = 4 \<or> b = 4 then (a * 400 + b * 100 + c * 4 + d, 12, 31)
      else (case month_day (d = 3 \<and> (c \<noteq> 24 \<or> b = 3)) r of (m, e) \<Rightarrow>
        (a * 400 + 1 + b * 100 + c * 4 + d, m, e)))"
    by (simp add: ord2ymd_def Let_def defs)
  have main: "ymd2ord (ord2ymd n) = n \<and> (case ord2ymd n of (y, m, d) \<Rightarrow> 1 \<le> m \<and> m \<le> 12 \<and> 1 \<le> d \<and> d \<le> 31)"
  proof (cases "d = 4 \<or> b = 4")
    case False
    then have lim: "0 \<le> b" "b \<le> 3" "0 \<le> c" "c \<le> 24" "0 \<le> d" "d \<le> 3" using bnd by auto
    have "month_day_ok (d = 3 \<and> (c \<noteq> 24 \<or> b = 3)) r"
      using bnd by (intro month_day_correct) auto
    with False n show ?thesis
      by (auto simp: o ymd2ord_def days_before_year_split [OF lim] is_leap_split [OF lim] month_day_ok_def
          split: prod.splits)
  next
    case True
    show ?thesis
    proof (cases "b = 4")
      case True
      with bnd have "r100 = 0" by simp
      then have "c = 0" "d = 0" "r = 0" by (simp_all add: c_def r4_def d_def r_def)
      have "days_before_year (a * 400 + 400) = 146097 * a + 145731"
        using days_before_year_split [of 3 24 3 a] by (simp add: add.commute)
      moreover have "is_leap (a * 400 + 400)"
        using is_leap_split [of 3 24 3 a] by (simp add: add.commute)
      ultimately show ?thesis
        unfolding o using n True \<open>c = 0\<close> \<open>d = 0\<close> \<open>r = 0\<close>
        by (simp add: ymd2ord_def days_before_month_def month_starts_def)
    next
      case False
      with True bnd have d: "d = 4" "r = 0" "b \<le> 3" "c \<noteq> 24" by auto
      have "days_before_year (a * 400 + b * 100 + c * 4 + 4) = 146097 * a + 36524 * b + 1461 * c + 1095"
        using days_before_year_split [of b c 3 a] bnd d by (simp add: add_ac)
      moreover have "is_leap (a * 400 + b * 100 + c * 4 + 4)"
        using is_leap_split [of b c 3 a] bnd d by (simp add: add_ac)
      ultimately show ?thesis
        unfolding o using n d by (simp add: ymd2ord_def days_before_month_def month_starts_def)
    qed
  qed
  show "ymd2ord (ord2ymd n) = n"
    by (rule conjunct1 [OF main])
  show "(case ord2ymd n of (y, m, d) \<Rightarrow> 1 \<le> m \<and> m \<le> 12 \<and> 1 \<le> d \<and> d \<le> 31)"
    by (rule conjunct2 [OF main])
qed

subsection \<open>Instants and their text\<close>

definition second :: int where
  "second = 1000000"

definition max_instant :: int where
  "max_instant = 3652059 * 86400 * 1000000"

definition valid_instant :: "int \<Rightarrow> bool" where
  "valid_instant t = (0 \<le> t \<and> t < max_instant)"

text \<open>\<^verbatim>\<open>moment + timedelta(...)\<close>: leaving the years 1 to 9999 raises \<open>OverflowError\<close>.\<close>

definition instant_plus :: "int \<Rightarrow> int \<Rightarrow> int res" where
  "instant_plus t d = (if valid_instant (t + d) then Inr (t + d) else Inl OverflowError)"

definition two :: "int \<Rightarrow> string" where
  "two n = [digit_char (n div 10), digit_char (n mod 10)]"

text \<open>\<^verbatim>\<open>moment.astimezone(UTC).strftime("%Y-%m-%dT%H:%M:%SZ")\<close>: microseconds are dropped.\<close>

definition utc_text :: "int \<Rightarrow> string \<Rightarrow> string" where
  "utc_text t zone = (let s = t div second; day = s div 86400; sec = s mod 86400 in
     case ord2ymd (day + 1) of (y, m, d) \<Rightarrow>
       str_of_nat y @ ''-'' @ two m @ ''-'' @ two d @ ''T'' @ two (sec div 3600) @ '':'' @
       two (sec mod 3600 div 60) @ '':'' @ two (sec mod 60) @ zone)"

definition utc_iso :: "int \<Rightarrow> string" where
  "utc_iso t = utc_text t ''Z''"

text \<open>\<^verbatim>\<open>raw.replace("Z", "+00:00")\<close>.\<close>

definition zone_suffix :: "string \<Rightarrow> string" where
  "zone_suffix s = concat (map (\<lambda>c. if c = CHR ''Z'' then ''+00:00'' else [c]) s)"

definition whole_seconds :: "int \<Rightarrow> int" where
  "whole_seconds t = t div second * second"

text \<open>The years that print with four digits: 1000 to 9999.\<close>

definition four_digit_instant :: "int \<Rightarrow> bool" where
  "four_digit_instant t = (case ord2ymd (t div second div 86400 + 1) of (y, _, _) \<Rightarrow> 1000 \<le> y \<and> y \<le> 9999)"

text \<open>
  A reader of exactly that form with the zone \<^verbatim>\<open>+00:00\<close>. It stands in for
  \<^verbatim>\<open>datetime.fromisoformat\<close> (a parameter of the model) wherever a concrete function is needed.
\<close>

definition field :: "string \<Rightarrow> nat \<Rightarrow> nat \<Rightarrow> int" where
  "field s i n = nat_of_digits (take n (drop i s))"

definition days_in_month :: "int \<Rightarrow> int \<Rightarrow> int" where
  "days_in_month y m = (if m = 2 then (if is_leap y then 29 else 28) else if m \<in> {4, 6, 9, 11} then 30 else 31)"

definition iso_reader :: "string \<Rightarrow> (int \<times> int option) res" where
  "iso_reader s =
     (if length s = 25 \<and> s ! 4 = CHR ''-'' \<and> s ! 7 = CHR ''-'' \<and> s ! 10 = CHR ''T'' \<and> s ! 13 = CHR '':'' \<and>
         s ! 16 = CHR '':'' \<and> drop 19 s = ''+00:00'' \<and>
         list_all is_digit (take 4 s @ take 2 (drop 5 s) @ take 2 (drop 8 s) @ take 2 (drop 11 s) @
           take 2 (drop 14 s) @ take 2 (drop 17 s)) \<and>
         1 \<le> field s 5 2 \<and> field s 5 2 \<le> 12 \<and> 1 \<le> field s 8 2 \<and> field s 8 2 \<le> 31 \<and>
         field s 11 2 < 24 \<and> field s 14 2 < 60 \<and> field s 17 2 < 60
      then Inr ((((ymd2ord (field s 0 4, field s 5 2, field s 8 2) - 1) * 24 + field s 11 2) * 60 +
                 field s 14 2) * 60 * second + field s 17 2 * second, Some 0)
      else Inl ValueError)"

lemma two_digits:
  assumes "0 \<le> n" "n < 100"
  shows "list_all is_digit (two n)" "nat_of_digits (two n) = n" "length (two n) = 2" "CHR ''Z'' \<notin> set (two n)"
proof -
  have d: "0 \<le> n div 10" "n div 10 < 10" "0 \<le> n mod 10" "n mod 10 < 10" using assms by auto
  then show "list_all is_digit (two n)" "nat_of_digits (two n) = n" "length (two n) = 2"
    by (simp_all add: two_def digit_char_props nat_of_digits_def)
  have "\<not> is_digit (CHR ''Z'')" by (simp add: is_digit_def)
  then show "CHR ''Z'' \<notin> set (two n)"
    using d digit_char_props by (auto simp: two_def)
qed

lemma four_digits:
  assumes "1000 \<le> y" "y \<le> 9999"
  obtains a b c d where "str_of_nat y = [a, b, c, d]" "list_all is_digit [a, b, c, d]"
    "CHR ''Z'' \<notin> set [a, b, c, d]"
proof -
  have "str_of_nat (y div 1000) = [digit_char (y div 1000)]"
    using assms by (subst str_of_nat.simps) simp
  then have "str_of_nat (y div 100) = [digit_char (y div 1000), digit_char (y div 100 mod 10)]"
    using assms by (subst str_of_nat.simps) (simp add: zdiv_zmult2_eq [symmetric])
  then have "str_of_nat (y div 10) = [digit_char (y div 1000), digit_char (y div 100 mod 10), digit_char (y div 10 mod 10)]"
    using assms by (subst str_of_nat.simps) (simp add: zdiv_zmult2_eq [symmetric])
  then have "str_of_nat y = [digit_char (y div 1000), digit_char (y div 100 mod 10), digit_char (y div 10 mod 10),
      digit_char (y mod 10)]"
    using assms by (subst str_of_nat.simps) simp
  moreover have "list_all is_digit (str_of_nat y)" using assms by (intro str_of_nat_digits) simp
  moreover have "\<not> is_digit (CHR ''Z'')" by (simp add: is_digit_def)
  ultimately show ?thesis using that by (metis list_all_iff)
qed

lemma zone_suffix_append [simp]: "zone_suffix (s @ t) = zone_suffix s @ zone_suffix t"
  by (simp add: zone_suffix_def)

lemma zone_suffix_plain: "CHR ''Z'' \<notin> set s \<Longrightarrow> zone_suffix s = s"
  by (induction s) (auto simp: zone_suffix_def)

lemma seconds_of_day:
  fixes s :: int
  shows "((s div 86400 * 24 + s mod 86400 div 3600) * 60 + s mod 86400 mod 3600 div 60) * 60 + s mod 86400 mod 60 = s"
proof -
  define r q u v w where "r = s mod 86400" and "q = s div 86400" and "u = r div 3600"
    and "v = r mod 3600 div 60" and "w = r mod 60"
  have "r mod 3600 mod 60 = r mod 60" by (rule mod_mod_cancel) simp
  then have "r mod 3600 = v * 60 + w"
    using div_mult_mod_eq [of "r mod 3600" 60] unfolding v_def w_def by simp
  then have "r = u * 3600 + (v * 60 + w)"
    using div_mult_mod_eq [of r 3600] unfolding u_def by simp
  moreover have "s = q * 86400 + r" unfolding q_def r_def by simp
  ultimately have "((q * 24 + u) * 60 + v) * 60 + w = s" by (simp add: distrib_right)
  then show ?thesis by (simp only: r_def q_def u_def v_def w_def)
qed

lemma iso_reader_shape:
  assumes "list_all is_digit [a, b, c, e, m1, m2, d1, d2, h1, h2, i1, i2, s1, s2]"
    and "1 \<le> nat_of_digits [m1, m2]" "nat_of_digits [m1, m2] \<le> 12"
    and "1 \<le> nat_of_digits [d1, d2]" "nat_of_digits [d1, d2] \<le> 31"
    and "nat_of_digits [h1, h2] < 24" "nat_of_digits [i1, i2] < 60" "nat_of_digits [s1, s2] < 60"
  shows "iso_reader ([a, b, c, e, CHR ''-'', m1, m2, CHR ''-'', d1, d2, CHR ''T'', h1, h2, CHR '':'', i1, i2,
      CHR '':'', s1, s2] @ ''+00:00'') =
    Inr ((((ymd2ord (nat_of_digits [a, b, c, e], nat_of_digits [m1, m2], nat_of_digits [d1, d2]) - 1) * 24 +
           nat_of_digits [h1, h2]) * 60 + nat_of_digits [i1, i2]) * 60 * second + nat_of_digits [s1, s2] * second, Some 0)"
  using assms by (simp add: iso_reader_def field_def)

text \<open>
  Reading back what \<^const>\<open>utc_iso\<close> printed, after the zone rewrite, gives the instant to the second.
\<close>

lemma iso_roundtrip:
  assumes "0 \<le> t" "four_digit_instant t"
  shows "iso_reader (zone_suffix (utc_iso t)) = Inr (whole_seconds t, Some 0)"
proof -
  define s where "s = t div second"
  define day sec where "day = s div 86400" and "sec = s mod 86400"
  obtain y m d where ymd: "ord2ymd (day + 1) = (y, m, d)" by (cases "ord2ymd (day + 1)")
  have md: "1 \<le> m" "m \<le> 12" "1 \<le> d" "d \<le> 31" and ord: "ymd2ord (y, m, d) = day + 1"
    using ord2ymd_correct [of "day + 1"] by (simp_all add: ymd)
  have y: "1000 \<le> y" "y \<le> 9999"
    using assms(2) by (simp_all add: four_digit_instant_def s_def [symmetric] day_def [symmetric] ymd)
  obtain a b c e where yd: "str_of_nat y = [a, b, c, e]" "list_all is_digit [a, b, c, e]" "CHR ''Z'' \<notin> set [a, b, c, e]"
    using four_digits [OF y] by blast
  have sec: "0 \<le> sec" "sec < 86400" by (simp_all add: sec_def)
  define h mi se where "h = sec div 3600" and "mi = sec mod 3600 div 60" and "se = sec mod 60"
  have hms: "0 \<le> h" "h < 24" "0 \<le> mi" "mi < 60" "0 \<le> se" "se < 60"
    using sec by (auto simp: h_def mi_def se_def)
  have plain: "zone_suffix (str_of_nat y) = str_of_nat y" "zone_suffix (two m) = two m"
    "zone_suffix (two d) = two d" "zone_suffix (two h) = two h" "zone_suffix (two mi) = two mi"
    "zone_suffix (two se) = two se"
    using yd(1,3) md hms by (intro zone_suffix_plain two_digits(4); simp)+
  have seps: "zone_suffix ''-'' = ''-''" "zone_suffix ''T'' = ''T''" "zone_suffix '':'' = '':''"
    "zone_suffix ''Z'' = ''+00:00''" by (simp_all add: zone_suffix_def)
  have "utc_iso t = str_of_nat y @ ''-'' @ two m @ ''-'' @ two d @ ''T'' @ two h @ '':'' @
      two mi @ '':'' @ two se @ ''Z''"
    by (simp add: utc_iso_def utc_text_def Let_def s_def [symmetric] day_def [symmetric] sec_def [symmetric]
        ymd h_def [symmetric] mi_def [symmetric] se_def [symmetric])
  then have iso_text: "zone_suffix (utc_iso t) = str_of_nat y @ ''-'' @ two m @ ''-'' @ two d @ ''T'' @ two h @ '':'' @
      two mi @ '':'' @ two se @ ''+00:00''"
    by (simp only: zone_suffix_append plain seps)
  have num: "nat_of_digits [a, b, c, e] = y" "nat_of_digits (two m) = m" "nat_of_digits (two d) = d"
    "nat_of_digits (two h) = h" "nat_of_digits (two mi) = mi" "nat_of_digits (two se) = se"
    using y md hms two_digits(2) by (simp_all add: yd(1) [symmetric])
  have dig: "list_all is_digit (two m)" "list_all is_digit (two d)" "list_all is_digit (two h)"
    "list_all is_digit (two mi)" "list_all is_digit (two se)"
    using md hms two_digits(1) by simp_all
  obtain m1 m2 d1 d2 h1 h2 i1 i2 s1 s2 where pairs: "two m = [m1, m2]" "two d = [d1, d2]" "two h = [h1, h2]"
    "two mi = [i1, i2]" "two se = [s1, s2]"
    by (simp only: two_def)
  have "iso_reader (zone_suffix (utc_iso t)) =
      Inr ((((ymd2ord (y, m, d) - 1) * 24 + h) * 60 + mi) * 60 * second + se * second, Some 0)"
    using iso_reader_shape [of a b c e m1 m2 d1 d2 h1 h2 i1 i2 s1 s2] num dig md hms yd(2)
    unfolding iso_text yd(1) pairs by simp
  also have "(((ymd2ord (y, m, d) - 1) * 24 + h) * 60 + mi) * 60 * second + se * second = s * second"
  proof -
    have "((day * 24 + h) * 60 + mi) * 60 + se = s"
      using seconds_of_day [of s] by (simp add: day_def h_def mi_def se_def sec_def)
    then show ?thesis by (simp add: ord flip: distrib_right)
  qed
  finally show ?thesis by (simp add: whole_seconds_def s_def)
qed

end
