(* ===== verification/Protocol.thy ===== *)
theory Protocol
  imports Base64 PyTime
begin

text \<open>
  \<^verbatim>\<open>packages/sip-protocol\<close>: hashing, Ed25519 key and signature encoding, the one signing rule for
  documents, and the five document kinds (receipts, quotes, vouchers, attestations, manifests).
  What the package takes from outside the repository is the record \<open>platform\<close>: the Ed25519
  primitive, SHA-256, the JSON Schema validator applied to a bundled schema file, and the parser of
  ISO dates with the machine's own time zone for dates that carry none.
\<close>

record platform =
  ed_public :: "bytes \<Rightarrow> bytes"
  ed_sign :: "bytes \<Rightarrow> bytes \<Rightarrow> bytes"
  ed_verify :: "bytes \<Rightarrow> bytes \<Rightarrow> bytes \<Rightarrow> bool"
  sha256 :: "bytes \<Rightarrow> bytes"
  validator :: "string \<Rightarrow> json \<Rightarrow> (string list \<times> string) list"
  fromisoformat :: "string \<Rightarrow> (int \<times> int option) res"
  local_offset :: "int \<Rightarrow> int"

text \<open>
  What the code relies on: 32-byte keys and 64-byte signatures, and a signature verifies under the
  public key of its signer.
\<close>

definition ed25519_laws :: "platform \<Rightarrow> bool" where
  "ed25519_laws P \<longleftrightarrow> (\<forall>sk m.
     length (ed_public P sk) = 32 \<and> is_bytes (ed_public P sk) \<and>
     length (ed_sign P sk m) = 64 \<and> is_bytes (ed_sign P sk m) \<and>
     ed_verify P (ed_public P sk) m (ed_sign P sk m))"

subsection \<open>hashing.py\<close>

definition hexdigest :: "bytes \<Rightarrow> string" where
  "hexdigest bs = concat (map (\<lambda>b. [hex_char (b div 16), hex_char (b mod 16)]) bs)"

definition sha256_prefixed :: "platform \<Rightarrow> bytes \<Rightarrow> string" where
  "sha256_prefixed P data = ''sha256:'' @ hexdigest (sha256 P data)"

definition hash_response_body :: "platform \<Rightarrow> string \<Rightarrow> string" where
  "hash_response_body P body = sha256_prefixed P (utf8 body)"

definition hash_request :: "platform \<Rightarrow> json \<Rightarrow> json \<Rightarrow> string res" where
  "hash_request P model messages =
     rbind (canonical_json (JObj [(''model'', model), (''messages'', messages)]))
       (\<lambda>bs. Inr (sha256_prefixed P bs))"

subsection \<open>signing.py\<close>

definition ed_prefix :: string where
  "ed_prefix = ''ed25519:''"

text \<open>The module's \<^verbatim>\<open>_b64u_decode\<close>: any decoding failure becomes \<open>KeyEncodingError\<close>.\<close>

definition signing_b64u_decode :: "string \<Rightarrow> bytes res" where
  "signing_b64u_decode s = (case b64u_decode s of Inl e \<Rightarrow> Inl KeyEncodingError | Inr bs \<Rightarrow> Inr bs)"

definition encode_public_key :: "bytes \<Rightarrow> string" where
  "encode_public_key raw = ed_prefix @ b64u_encode raw"

definition decode_prefixed :: "nat \<Rightarrow> string \<Rightarrow> bytes res" where
  "decode_prefixed n encoded =
     (if \<not> startswith encoded ed_prefix then Inl KeyEncodingError
      else rbind (signing_b64u_decode (drop (length ed_prefix) encoded))
        (\<lambda>raw. if length raw \<noteq> n then Inl KeyEncodingError else Inr raw))"

definition decode_public_key :: "string \<Rightarrow> bytes res" where
  "decode_public_key encoded = decode_prefixed 32 encoded"

definition encode_signature :: "bytes \<Rightarrow> string" where
  "encode_signature raw = ed_prefix @ b64u_encode raw"

definition decode_signature :: "string \<Rightarrow> bytes res" where
  "decode_signature encoded = decode_prefixed 64 encoded"

record keypair =
  private_key :: bytes

definition from_private_str :: "string \<Rightarrow> keypair res" where
  "from_private_str encoded = rbind (decode_prefixed 32 encoded) (\<lambda>raw. Inr \<lparr>private_key = raw\<rparr>)"

definition public_key_str :: "platform \<Rightarrow> keypair \<Rightarrow> string" where
  "public_key_str P kp = encode_public_key (ed_public P (private_key kp))"

definition private_key_str :: "keypair \<Rightarrow> string" where
  "private_key_str kp = ed_prefix @ b64u_encode (private_key kp)"

definition sign_message :: "platform \<Rightarrow> keypair \<Rightarrow> bytes \<Rightarrow> string" where
  "sign_message P kp message = encode_signature (ed_sign P (private_key kp) message)"

definition verify_message :: "platform \<Rightarrow> string \<Rightarrow> bytes \<Rightarrow> string \<Rightarrow> bool" where
  "verify_message P public_key message signature =
     (case rbind (decode_public_key public_key)
             (\<lambda>pub. rbind (decode_signature signature) (\<lambda>raw. Inr (pub, raw))) of
        Inl e \<Rightarrow> False
      | Inr (pub, raw) \<Rightarrow> ed_verify P pub message raw)"

lemma decode_prefixed_roundtrip:
  "is_bytes raw \<Longrightarrow> length raw = n \<Longrightarrow> decode_prefixed n (ed_prefix @ b64u_encode raw) = Inr raw"
  by (simp add: decode_prefixed_def signing_b64u_decode_def b64u_roundtrip)

lemma verify_sign_message:
  "ed25519_laws P \<Longrightarrow> verify_message P (public_key_str P kp) m (sign_message P kp m)"
  by (simp add: ed25519_laws_def verify_message_def public_key_str_def encode_public_key_def sign_message_def
      encode_signature_def decode_public_key_def decode_signature_def decode_prefixed_roundtrip)

lemma private_key_roundtrip:
  "is_bytes (private_key kp) \<Longrightarrow> length (private_key kp) = 32 \<Longrightarrow> from_private_str (private_key_str kp) = Inr kp"
  by (simp add: from_private_str_def private_key_str_def decode_prefixed_roundtrip)

subsection \<open>documents.py\<close>

definition signing_bytes :: "string \<Rightarrow> dict \<Rightarrow> bytes res" where
  "signing_bytes signature_field document = canonical_json (JObj (dict_without signature_field document))"

definition sign_document :: "platform \<Rightarrow> dict \<Rightarrow> keypair \<Rightarrow> dict res" where
  "sign_document P document kp =
     (let signed = dict_without ''signature'' document in
      rbind (signing_bytes ''signature'' signed)
        (\<lambda>bs. Inr (dict_set ''signature'' (JStr (sign_message P kp bs)) signed)))"

definition verify_document :: "platform \<Rightarrow> string \<Rightarrow> dict \<Rightarrow> bool res" where
  "verify_document P pubkey_field document =
     (case (getn document pubkey_field, getn document ''signature'') of
        (JStr public_key, JStr signature) \<Rightarrow>
          rbind (signing_bytes ''signature'' document) (\<lambda>bs. Inr (verify_message P public_key bs signature))
      | _ \<Rightarrow> Inr False)"

lemma sign_document_fields:
  "sign_document P d kp = Inr d' \<Longrightarrow> k \<noteq> ''signature'' \<Longrightarrow> dict_get d' k = dict_get d k"
  by (auto simp: sign_document_def Let_def rbind_eq_Inr dict_simps)

lemma sign_document_unsigned:
  "sign_document P d kp = Inr d' \<Longrightarrow> dict_without ''signature'' d' = dict_without ''signature'' d"
  by (auto simp: sign_document_def Let_def rbind_eq_Inr dict_without_set)

lemma sign_verify_document:
  assumes "ed25519_laws P" "sign_document P d kp = Inr d'"
    and "pk \<noteq> ''signature''" "getn d pk = JStr (public_key_str P kp)"
  shows "verify_document P pk d' = Inr True"
proof -
  obtain bs where bs: "signing_bytes ''signature'' d = Inr bs"
    and d': "d' = dict_set ''signature'' (JStr (sign_message P kp bs)) (dict_without ''signature'' d)"
    using assms(2) by (auto simp: sign_document_def signing_bytes_def Let_def rbind_eq_Inr)
  have "signing_bytes ''signature'' d' = Inr bs"
    using bs by (simp add: signing_bytes_def d' dict_without_set)
  then show ?thesis
    using assms by (simp add: verify_document_def d' dict_simps verify_sign_message)
qed

lemma verify_document_True:
  "verify_document P pk d = Inr True \<longleftrightarrow>
     (\<exists>key sg bs. getn d pk = JStr key \<and> getn d ''signature'' = JStr sg \<and>
        signing_bytes ''signature'' d = Inr bs \<and> verify_message P key bs sg)"
  by (auto simp: verify_document_def rbind_eq_Inr split: json.splits)

subsection \<open>schemas.py\<close>

definition schema_files :: "(string \<times> string) list" where
  "schema_files =
    [(''receipt'', ''inference_receipt.schema.json''), (''quote'', ''inference_quote.schema.json''),
     (''voucher'', ''inference_voucher.schema.json''), (''model_manifest'', ''model_manifest.schema.json''),
     (''provider_manifest'', ''provider_manifest.schema.json''), (''attestation'', ''attestation.schema.json'')]"

definition load_schema :: "string \<Rightarrow> string res" where
  "load_schema name = (case map_of schema_files name of
     None \<Rightarrow> Inl (SchemaValidationError (''unknown schema '' @ repr_str name)) | Some f \<Rightarrow> Inr f)"

definition error_line :: "string list \<times> string \<Rightarrow> string" where
  "error_line e = (case e of (path, message) \<Rightarrow>
     (if path = [] \<or> join ''/'' path = [] then ''<root>'' else join ''/'' path) @ '': '' @ message)"

definition iter_errors :: "platform \<Rightarrow> string \<Rightarrow> json \<Rightarrow> string list res" where
  "iter_errors P name document =
     rbind (load_schema name) (\<lambda>f. Inr (isort_by str_le (map error_line (validator P f document))))"

definition validate :: "platform \<Rightarrow> string \<Rightarrow> json \<Rightarrow> unit res" where
  "validate P name document = rbind (iter_errors P name document) (\<lambda>errors.
     if errors \<noteq> [] then Inl (SchemaValidationError (name @ '' failed validation: '' @ join ''; '' errors))
     else Inr ())"

text \<open>The schema of that name accepts the document.\<close>

definition schema_accepts :: "platform \<Rightarrow> string \<Rightarrow> dict \<Rightarrow> bool" where
  "schema_accepts P name d = (iter_errors P name (JObj d) = Inr [])"

lemma iter_errors_known:
  "name \<in> fst ` set schema_files \<Longrightarrow> \<exists>es. iter_errors P name v = Inr es"
  by (auto simp: iter_errors_def load_schema_def schema_files_def)

lemma iter_errors_kinds [simp]:
  "iter_errors P ''receipt'' v = Inr (isort_by str_le (map error_line (validator P ''inference_receipt.schema.json'' v)))"
  "iter_errors P ''quote'' v = Inr (isort_by str_le (map error_line (validator P ''inference_quote.schema.json'' v)))"
  "iter_errors P ''voucher'' v = Inr (isort_by str_le (map error_line (validator P ''inference_voucher.schema.json'' v)))"
  "iter_errors P ''provider_manifest'' v = Inr (isort_by str_le (map error_line (validator P ''provider_manifest.schema.json'' v)))"
  "iter_errors P ''attestation'' v = Inr (isort_by str_le (map error_line (validator P ''attestation.schema.json'' v)))"
  by (simp_all add: iter_errors_def load_schema_def schema_files_def)

lemma sign_document_total: "json_ok (JObj d) \<Longrightarrow> \<exists>d'. sign_document P d kp = Inr d'"
  using canonical_json_total [OF json_ok_without [OF json_ok_without, of d "''signature''" "''signature''"]]
  by (auto simp: sign_document_def signing_bytes_def Let_def)

lemma hash_request_total: "list_all json_ok ms \<Longrightarrow> \<exists>h. hash_request P (JStr m) (JArr ms) = Inr h"
  using canonical_json_total [of "JObj [(''model'', JStr m), (''messages'', JArr ms)]"] by (auto simp: hash_request_def)

end
