(* ===== verification/Artifacts.thy ===== *)
theory Artifacts
  imports Protocol
begin

text \<open>
  \<^verbatim>\<open>sip_protocol\<close>: \<^verbatim>\<open>receipts.py\<close>, \<^verbatim>\<open>quotes.py\<close>, \<^verbatim>\<open>vouchers.py\<close>,
  \<^verbatim>\<open>attestation.py\<close> and \<^verbatim>\<open>manifests.py\<close>. A document is a dictionary in insertion order; a
  \<^verbatim>\<open>datetime\<close> argument is its UTC instant in microseconds. The three verifiers of one shape share the
  locale \<open>signed_artifact\<close>, which is interpreted on each of them.
\<close>

subsection \<open>Shared shape of the verifiers and expiry dates\<close>

record verification =
  valid :: bool
  schema_ok :: bool
  signature_ok :: bool
  errors :: "string list"

definition optional_field :: "string \<Rightarrow> json option \<Rightarrow> dict \<Rightarrow> dict" where
  "optional_field k v d = (case v of None \<Rightarrow> d | Some x \<Rightarrow> dict_set k x d)"

lemma getn_optional_field [dict_simps]:
  "getn (optional_field k v d) k' = (if k' = k \<and> v \<noteq> None then the v else getn d k')"
  by (simp add: optional_field_def getn_def dict_simps split: option.split)

text \<open>\<^verbatim>\<open>expires.astimezone(UTC)\<close>: an aware value shifts by its offset, a naive one is local time.\<close>

definition as_utc :: "platform \<Rightarrow> int \<times> int option \<Rightarrow> int res" where
  "as_utc P m = (case m of (wall, off) \<Rightarrow>
     let t = wall - (case off of Some z \<Rightarrow> z | None \<Rightarrow> local_offset P wall) in
     if valid_instant t then Inr t else Inl OverflowError)"

definition expires_passed :: "platform \<Rightarrow> dict \<Rightarrow> int \<Rightarrow> bool res" where
  "expires_passed P document now = (case the_str (getn document ''expires_at'') of
     None \<Rightarrow> Inr True
   | Some raw \<Rightarrow> (case fromisoformat P (zone_suffix raw) of
       Inl ValueError \<Rightarrow> Inr True
     | Inl e \<Rightarrow> Inl e
     | Inr m \<Rightarrow> rbind (as_utc P m) (\<lambda>expires. Inr (expires \<le> now))))"

text \<open>
  The ISO parser on the form the builders write, its documented behaviour: a UTC text that
  \<open>utc_iso\<close> printed reads back as its whole second at offset zero.
\<close>

definition isoformat_law :: "platform \<Rightarrow> bool" where
  "isoformat_law P \<longleftrightarrow> (\<forall>t. valid_instant t \<longrightarrow> four_digit_instant t \<longrightarrow>
     fromisoformat P (zone_suffix (utc_iso t)) = Inr (whole_seconds t, Some 0))"

lemma whole_seconds_bounds: "whole_seconds t \<le> t" "t < whole_seconds t + second"
  by (simp_all add: whole_seconds_def second_def)

lemma valid_whole_seconds: "valid_instant t \<Longrightarrow> valid_instant (whole_seconds t)"
  using whole_seconds_bounds [of t]
  by (simp add: valid_instant_def whole_seconds_def second_def)

lemma expires_passed_written:
  assumes "isoformat_law P" "valid_instant t" "four_digit_instant t"
    and "getn d ''expires_at'' = JStr (utc_iso t)"
  shows "expires_passed P d now = Inr (whole_seconds t \<le> now)"
  using assms by (simp add: expires_passed_def isoformat_law_def as_utc_def valid_whole_seconds)

lemma expires_passed_mono:
  "expires_passed P d now = Inr True \<Longrightarrow> now \<le> later \<Longrightarrow> expires_passed P d later = Inr True"
  by (auto simp: expires_passed_def rbind_eq_Inr split: option.splits sum.splits exn.splits)

text \<open>
  The contract of a verifier: it is valid exactly when the schema of its kind accepts the document and
  the signature under the document's own key is good; signing touches no other field.
\<close>

locale signed_artifact =
  fixes sign :: "platform \<Rightarrow> dict \<Rightarrow> keypair \<Rightarrow> dict res"
    and verify :: "platform \<Rightarrow> dict \<Rightarrow> verification res"
    and kind :: string
    and pubkey_field :: string
  assumes sign_law: "sign P d kp = sign_document P d kp"
    and verify_law: "verify P d = Inr v \<Longrightarrow>
        valid v \<longleftrightarrow> schema_accepts P kind d \<and> verify_document P pubkey_field d = Inr True"
    and verify_raises: "(\<exists>v. verify P d = Inr v) \<longleftrightarrow> (\<exists>b. verify_document P pubkey_field d = Inr b)"
    and field_law: "pubkey_field \<noteq> ''signature''"
begin

lemma signed_is_valid:
  assumes "ed25519_laws P" "sign P d kp = Inr d'" "getn d pubkey_field = JStr (public_key_str P kp)"
    and "schema_accepts P kind d'"
  shows "\<exists>v. verify P d' = Inr v \<and> valid v"
proof -
  have "verify_document P pubkey_field d' = Inr True"
    using sign_verify_document [OF assms(1)] assms(2,3) field_law by (simp add: sign_law)
  then show ?thesis
    using verify_law [of P d'] verify_raises [of P d'] assms(4) by auto
qed

lemma valid_has_signature:
  assumes "verify P d = Inr v" "valid v"
  obtains key sg bs where "getn d pubkey_field = JStr key" "getn d ''signature'' = JStr sg"
    "signing_bytes ''signature'' d = Inr bs" "verify_message P key bs sg"
  using verify_law [OF assms(1)] assms(2) by (auto simp: verify_document_True)

lemma sign_keeps_fields: "sign P d kp = Inr d' \<Longrightarrow> k \<noteq> ''signature'' \<Longrightarrow> getn d' k = getn d k"
  unfolding sign_law getn_def by (drule (1) sign_document_fields) simp

end

definition verify_signed :: "platform \<Rightarrow> string \<Rightarrow> string \<Rightarrow> string \<Rightarrow> dict \<Rightarrow> verification res" where
  "verify_signed P kind pubkey_field complaint document =
     rbind (iter_errors P kind (JObj document)) (\<lambda>errs.
     rbind (verify_document P pubkey_field document) (\<lambda>sig_ok.
       Inr \<lparr>valid = (errs = [] \<and> sig_ok), schema_ok = (errs = []), signature_ok = sig_ok,
            errors = (if sig_ok then errs else errs @ [complaint])\<rparr>))"

lemma verify_signed_law:
  "verify_signed P kind pk c d = Inr v \<Longrightarrow>
     valid v \<longleftrightarrow> schema_accepts P kind d \<and> verify_document P pk d = Inr True"
  by (auto simp: verify_signed_def schema_accepts_def rbind_eq_Inr)

lemma verify_signed_raises:
  "kind \<in> fst ` set schema_files \<Longrightarrow>
     (\<exists>v. verify_signed P kind pk c d = Inr v) \<longleftrightarrow> (\<exists>b. verify_document P pk d = Inr b)"
  using iter_errors_known [of kind P "JObj d"]
  by (cases "verify_document P pk d") (auto simp: verify_signed_def)

lemma verify_signed_errors:
  "verify_signed P kind pk c d = Inr v \<Longrightarrow> valid v \<longleftrightarrow> errors v = []"
  by (auto simp: verify_signed_def rbind_eq_Inr split: if_splits)

subsection \<open>receipts.py\<close>

definition receipt_version :: string where
  "receipt_version = ''sip-ai.receipt.v1''"

record receipt_args =
  r_request_id :: string
  r_provider_pubkey :: string
  r_model_manifest_hash :: string
  r_model_alias :: string
  r_runtime :: string
  r_input_tokens :: int
  r_output_tokens :: int
  r_price_units :: string
  r_price_amount :: string
  r_privacy_mode :: string
  r_started_at :: int
  r_completed_at :: int
  r_response_hash :: string
  r_runtime_version :: "string option"
  r_request_hash :: "string option"

definition build_receipt :: "receipt_args \<Rightarrow> dict" where
  "build_receipt a =
     optional_field ''request_hash'' (map_option JStr (r_request_hash a))
      (optional_field ''runtime_version'' (map_option JStr (r_runtime_version a))
        [(''receipt_version'', JStr receipt_version),
         (''request_id'', JStr (r_request_id a)),
         (''provider_pubkey'', JStr (r_provider_pubkey a)),
         (''model_manifest_hash'', JStr (r_model_manifest_hash a)),
         (''model_alias'', JStr (r_model_alias a)),
         (''runtime'', JStr (r_runtime a)),
         (''input_tokens'', JInt (r_input_tokens a)),
         (''output_tokens'', JInt (r_output_tokens a)),
         (''price_units'', JStr (r_price_units a)),
         (''price_amount'', JStr (r_price_amount a)),
         (''privacy_mode'', JStr (r_privacy_mode a)),
         (''started_at'', JStr (utc_iso (r_started_at a))),
         (''completed_at'', JStr (utc_iso (r_completed_at a))),
         (''response_hash'', JStr (r_response_hash a))])"

lemma build_receipt_ok: "json_ok (JObj (build_receipt a))"
  by (cases "r_request_hash a"; cases "r_runtime_version a") (simp_all add: build_receipt_def optional_field_def json_ok_set)

definition sign_receipt :: "platform \<Rightarrow> dict \<Rightarrow> keypair \<Rightarrow> dict res" where
  "sign_receipt P receipt kp = sign_document P receipt kp"

definition receipt_signing_bytes :: "dict \<Rightarrow> bytes res" where
  "receipt_signing_bytes receipt = signing_bytes ''signature'' receipt"

definition verify_receipt :: "platform \<Rightarrow> dict \<Rightarrow> verification res" where
  "verify_receipt P receipt =
     verify_signed P ''receipt'' ''provider_pubkey'' ''signature: invalid or missing provider signature'' receipt"

interpretation receipt: signed_artifact sign_receipt verify_receipt "''receipt''" "''provider_pubkey''"
  by unfold_locales
    (simp_all add: sign_receipt_def verify_receipt_def verify_signed_law verify_signed_raises schema_files_def)

subsection \<open>quotes.py\<close>

definition quote_version :: string where
  "quote_version = ''sip-ai.quote.v1''"

record quote_args =
  q_request_id :: string
  q_provider_pubkey :: string
  q_model_alias :: string
  q_price_units :: string
  q_input_per_1m :: string
  q_output_per_1m :: string
  q_max_output_tokens :: int
  q_max_price :: string
  q_issued_at :: int
  q_expires_at :: int
  q_privacy_mode :: "string option"

definition build_quote :: "quote_args \<Rightarrow> dict" where
  "build_quote a =
     optional_field ''privacy_mode'' (map_option JStr (q_privacy_mode a))
       [(''quote_version'', JStr quote_version),
        (''request_id'', JStr (q_request_id a)),
        (''provider_pubkey'', JStr (q_provider_pubkey a)),
        (''model_alias'', JStr (q_model_alias a)),
        (''price_units'', JStr (q_price_units a)),
        (''input_per_1m'', JStr (q_input_per_1m a)),
        (''output_per_1m'', JStr (q_output_per_1m a)),
        (''max_output_tokens'', JInt (q_max_output_tokens a)),
        (''max_price'', JStr (q_max_price a)),
        (''issued_at'', JStr (utc_iso (q_issued_at a))),
        (''expires_at'', JStr (utc_iso (q_expires_at a)))]"

definition sign_quote :: "platform \<Rightarrow> dict \<Rightarrow> keypair \<Rightarrow> dict res" where
  "sign_quote P quote kp = sign_document P quote kp"

definition verify_quote :: "platform \<Rightarrow> dict \<Rightarrow> verification res" where
  "verify_quote P quote =
     verify_signed P ''quote'' ''provider_pubkey'' ''signature: invalid or missing provider signature'' quote"

definition quote_is_expired :: "platform \<Rightarrow> dict \<Rightarrow> int \<Rightarrow> bool res" where
  "quote_is_expired P quote now = expires_passed P quote now"

interpretation quote: signed_artifact sign_quote verify_quote "''quote''" "''provider_pubkey''"
  by unfold_locales
    (simp_all add: sign_quote_def verify_quote_def verify_signed_law verify_signed_raises schema_files_def)

subsection \<open>vouchers.py\<close>

definition voucher_version :: string where
  "voucher_version = ''sip-ai.voucher.v1''"

text \<open>\<open>fresh\<close> is the value \<^verbatim>\<open>secrets.token_urlsafe(32)\<close> returns in \<^verbatim>\<open>new_voucher_id\<close>.\<close>

definition build_voucher ::
  "string \<Rightarrow> string \<Rightarrow> string \<Rightarrow> string \<Rightarrow> int \<Rightarrow> int \<Rightarrow> string option \<Rightarrow> dict" where
  "build_voucher fresh denomination unit issuer_pubkey issued_at expires_at voucher_id =
     [(''voucher_version'', JStr voucher_version),
      (''voucher_id'', JStr (case voucher_id of None \<Rightarrow> fresh | Some v \<Rightarrow> if v = [] then fresh else v)),
      (''denomination'', JStr denomination),
      (''unit'', JStr unit),
      (''issuer_pubkey'', JStr issuer_pubkey),
      (''issued_at'', JStr (utc_iso issued_at)),
      (''expires_at'', JStr (utc_iso expires_at))]"

definition sign_voucher :: "platform \<Rightarrow> dict \<Rightarrow> keypair \<Rightarrow> dict res" where
  "sign_voucher P voucher kp = sign_document P voucher kp"

definition verify_voucher :: "platform \<Rightarrow> dict \<Rightarrow> verification res" where
  "verify_voucher P voucher =
     verify_signed P ''voucher'' ''issuer_pubkey'' ''signature: invalid or missing issuer signature'' voucher"

definition voucher_is_expired :: "platform \<Rightarrow> dict \<Rightarrow> int \<Rightarrow> bool res" where
  "voucher_is_expired P voucher now = expires_passed P voucher now"

interpretation voucher: signed_artifact sign_voucher verify_voucher "''voucher''" "''issuer_pubkey''"
  by unfold_locales
    (simp_all add: sign_voucher_def verify_voucher_def verify_signed_law verify_signed_raises schema_files_def)

subsection \<open>attestation.py\<close>

definition attestation_schema :: string where
  "attestation_schema = ''sip-ai.attestation.v1''"

definition build_attestation :: "string \<Rightarrow> string \<Rightarrow> string \<Rightarrow> string \<Rightarrow> string option \<Rightarrow> dict" where
  "build_attestation provider_pubkey tee_type measurement issued_at quote_ref =
     optional_field ''quote_ref'' (map_option JStr quote_ref)
       [(''schema'', JStr attestation_schema),
        (''provider_pubkey'', JStr provider_pubkey),
        (''tee_type'', JStr tee_type),
        (''measurement'', JStr measurement),
        (''issued_at'', JStr issued_at)]"

definition sign_attestation :: "platform \<Rightarrow> dict \<Rightarrow> keypair \<Rightarrow> dict res" where
  "sign_attestation P statement kp = sign_document P statement kp"

definition verify_checked :: "platform \<Rightarrow> string \<Rightarrow> dict \<Rightarrow> bool res" where
  "verify_checked P kind document = rbind (iter_errors P kind (JObj document)) (\<lambda>errs.
     if errs \<noteq> [] then Inr False else verify_document P ''provider_pubkey'' document)"

definition verify_attestation :: "platform \<Rightarrow> dict \<Rightarrow> bool res" where
  "verify_attestation P statement = verify_checked P ''attestation'' statement"

definition attach_attestation :: "dict \<Rightarrow> dict \<Rightarrow> dict" where
  "attach_attestation manifest attestation = dict_set ''attestation'' (JObj attestation) manifest"

text \<open>\<^verbatim>\<open>v in set(names)\<close>: a list or a dictionary is not hashable.\<close>

definition in_str_set :: "json \<Rightarrow> string list \<Rightarrow> bool res" where
  "in_str_set v names = (case v of JArr _ \<Rightarrow> Inl TypeError | JObj _ \<Rightarrow> Inl TypeError
     | JStr s \<Rightarrow> Inr (s \<in> set names) | _ \<Rightarrow> Inr False)"

definition is_attested ::
  "platform \<Rightarrow> dict \<Rightarrow> string list \<Rightarrow> (dict \<Rightarrow> bool) option \<Rightarrow> bool res" where
  "is_attested P manifest accepted_tee_types verifier =
     (case the_obj (getn manifest ''attestation'') of
        None \<Rightarrow> Inr False
      | Some attestation \<Rightarrow> rbind (verify_attestation P attestation) (\<lambda>ok.
          if \<not> ok then Inr False
          else if \<not> py_eq (getn attestation ''provider_pubkey'') (getn manifest ''provider_pubkey'') then Inr False
          else rbind (in_str_set (getn attestation ''tee_type'') accepted_tee_types) (\<lambda>accepted.
            if \<not> accepted then Inr False
            else Inr (case verifier of None \<Rightarrow> True | Some f \<Rightarrow> f attestation))))"

lemma verify_checked_True:
  "verify_checked P kind d = Inr True \<longleftrightarrow> schema_accepts P kind d \<and> verify_document P ''provider_pubkey'' d = Inr True"
  by (auto simp: verify_checked_def schema_accepts_def rbind_eq_Inr)

subsection \<open>manifests.py\<close>

definition provider_manifest_schema :: string where
  "provider_manifest_schema = ''sip-ai.provider_manifest.v1''"

record manifest_args =
  m_provider_pubkey :: string
  m_models :: "string list"
  m_runtime_adapters :: "string list"
  m_pricing_unit :: string
  m_published_at :: string
  m_input_per_1m :: pyfloat
  m_output_per_1m :: pyfloat
  m_node_type :: string
  m_max_context :: int
  m_max_concurrency :: "int option"
  m_logging_policy :: string
  m_retention_policy :: "string option"
  m_privacy_modes :: "string list option"
  m_benchmark :: "dict option"
  m_manifest_uri :: "string option"

definition jstrs :: "string list \<Rightarrow> json" where
  "jstrs ss = JArr (map JStr ss)"

text \<open>The keyword arguments that have defaults, as \<^verbatim>\<open>build_provider_manifest\<close> declares them.\<close>

definition manifest_defaults :: "string \<Rightarrow> string list \<Rightarrow> string list \<Rightarrow> string \<Rightarrow> string \<Rightarrow> manifest_args" where
  "manifest_defaults pubkey models adapters unit published =
     \<lparr>m_provider_pubkey = pubkey, m_models = models, m_runtime_adapters = adapters, m_pricing_unit = unit,
      m_published_at = published, m_input_per_1m = Fin 0, m_output_per_1m = Fin 0,
      m_node_type = ''sovereign-node'', m_max_context = 4096, m_max_concurrency = None,
      m_logging_policy = ''no_prompt_logging'', m_retention_policy = None, m_privacy_modes = None,
      m_benchmark = None, m_manifest_uri = None\<rparr>"

definition build_provider_manifest :: "manifest_args \<Rightarrow> dict" where
  "build_provider_manifest a =
     optional_field ''manifest_uri'' (map_option JStr (m_manifest_uri a))
      (optional_field ''benchmark'' (map_option JObj (m_benchmark a))
       (optional_field ''retention_policy'' (map_option JStr (m_retention_policy a))
        (optional_field ''max_concurrency'' (map_option JInt (m_max_concurrency a))
         [(''schema'', JStr provider_manifest_schema),
          (''provider_pubkey'', JStr (m_provider_pubkey a)),
          (''node_type'', JStr (m_node_type a)),
          (''models'', jstrs (m_models a)),
          (''runtime_adapters'', jstrs (m_runtime_adapters a)),
          (''pricing'', JObj [(''unit'', JStr (m_pricing_unit a)),
                             (''input_per_1m'', JFloat (m_input_per_1m a)),
                             (''output_per_1m'', JFloat (m_output_per_1m a))]),
          (''max_context'', JInt (m_max_context a)),
          (''logging_policy'', JStr (m_logging_policy a)),
          (''privacy_modes'', jstrs (case m_privacy_modes a of None \<Rightarrow> [''direct''] | Some ms \<Rightarrow> ms)),
          (''published_at'', JStr (m_published_at a))])))"

definition model_manifest_hash :: "platform \<Rightarrow> dict \<Rightarrow> string res" where
  "model_manifest_hash P manifest =
     rbind (canonical_json (JObj (dict_without ''maintainer_signature'' manifest)))
       (\<lambda>bs. Inr (sha256_prefixed P bs))"

definition validate_model_manifest :: "platform \<Rightarrow> dict \<Rightarrow> unit res" where
  "validate_model_manifest P manifest = validate P ''model_manifest'' (JObj manifest)"

definition sign_provider_manifest :: "platform \<Rightarrow> dict \<Rightarrow> keypair \<Rightarrow> dict res" where
  "sign_provider_manifest P manifest kp = sign_document P manifest kp"

definition verify_provider_manifest :: "platform \<Rightarrow> dict \<Rightarrow> bool res" where
  "verify_provider_manifest P manifest = verify_checked P ''provider_manifest'' manifest"

subsection \<open>A concrete platform\<close>

text \<open>
  Concrete functions for the platform's parameters, with which the properties are applied to inputs: a
  checksum in place of Ed25519 that satisfies \<open>ed25519_laws\<close>, a validator that demands the members
  a table names, and \<open>iso_reader\<close>.
\<close>

definition demo_public :: "bytes \<Rightarrow> bytes" where
  "demo_public sk = take 32 (map (\<lambda>b. b mod 256) sk @ replicate 32 0)"

definition demo_sum :: "bytes \<Rightarrow> int" where
  "demo_sum m = foldl (\<lambda>h b. (3 * h + b) mod 256) 7 m"

definition demo_seal :: "bytes \<Rightarrow> bytes \<Rightarrow> bytes" where
  "demo_seal pub m = pub @ replicate 31 0 @ [demo_sum m]"

definition demo_members :: "(string \<times> string list) list" where
  "demo_members =
    [(''inference_voucher.schema.json'', [''voucher_id'', ''denomination'', ''unit'', ''issuer_pubkey'', ''signature'']),
     (''inference_receipt.schema.json'', [''request_id'', ''provider_pubkey'', ''price_amount'', ''signature'']),
     (''inference_quote.schema.json'', [''request_id'', ''provider_pubkey'', ''max_price'', ''signature'']),
     (''provider_manifest.schema.json'', [''provider_pubkey'', ''models'', ''signature''])]"

definition demo_validator :: "string \<Rightarrow> json \<Rightarrow> (string list \<times> string) list" where
  "demo_validator file v = (case the_obj v of
     None \<Rightarrow> [([], ''not an object'')]
   | Some d \<Rightarrow> map (\<lambda>k. ([], repr_str k @ '' is a required property''))
       (filter (\<lambda>k. dict_get d k = None) (case map_of demo_members file of None \<Rightarrow> [] | Some ks \<Rightarrow> ks)))"

definition demo :: platform where
  "demo = \<lparr>ed_public = demo_public, ed_sign = (\<lambda>sk. demo_seal (demo_public sk)),
     ed_verify = (\<lambda>pub m sg. sg = demo_seal pub m),
     sha256 = (\<lambda>m. replicate 32 (demo_sum m)), validator = demo_validator, fromisoformat = iso_reader,
     local_offset = (\<lambda>_. 0)\<rparr>"

definition demo_key :: "int \<Rightarrow> keypair" where
  "demo_key n = \<lparr>private_key = [n]\<rparr>"

lemma demo_checksum: "0 \<le> demo_sum m \<and> demo_sum m < 256"
  by (induction m rule: rev_induct) (simp_all add: demo_sum_def)

lemma demo_laws: "ed25519_laws demo"
  by (auto simp: ed25519_laws_def demo_def demo_public_def demo_seal_def is_bytes_def list_all_iff demo_checksum
      dest!: in_set_takeD)

lemma demo_isoformat: "isoformat_law demo"
  by (auto simp: isoformat_law_def demo_def valid_instant_def intro!: iso_roundtrip)

end
