(* ===== verification/Pic.thy ===== *)
theory Pic
  imports Artifacts
begin

text \<open>
  \<^verbatim>\<open>packages/pic-vouchers\<close>: the double-spend guard (\<^verbatim>\<open>spentset.py\<close>), the holder's wallet, the
  provider's ledger, the issuer, the x402 scheme and redemption (\<^verbatim>\<open>payment.py\<close>). The guard's table
  of keys is a set; a statement of SQLite is one step on it. Random ids and the clock are arguments.
\<close>

subsection \<open>spentset.py\<close>

type_synonym spent_set = "string set"

definition is_spent :: "string \<Rightarrow> spent_set \<Rightarrow> bool" where
  "is_spent voucher_id spent \<longleftrightarrow> voucher_id \<in> spent"

text \<open>The \<^verbatim>\<open>INSERT\<close> succeeds unless the primary key is there already.\<close>

definition spend :: "string \<Rightarrow> spent_set \<Rightarrow> bool \<times> spent_set" where
  "spend voucher_id spent =
     (if voucher_id \<in> spent then (False, spent) else (True, insert voucher_id spent))"

definition unspend :: "string \<Rightarrow> spent_set \<Rightarrow> spent_set" where
  "unspend voucher_id spent = spent - {voucher_id}"

text \<open>The atomic batch of \<^verbatim>\<open>_redeem_pic\<close>: on a collision, undo what this batch has marked.\<close>

fun spend_batch :: "('k \<Rightarrow> 's \<Rightarrow> bool \<times> 's) \<Rightarrow> ('k \<Rightarrow> 's \<Rightarrow> 's) \<Rightarrow> 'k list \<Rightarrow> 'k list \<Rightarrow> 's \<Rightarrow> bool \<times> 's" where
  "spend_batch mark unmark [] marked s = (True, s)"
| "spend_batch mark unmark (k # ks) marked s = (case mark k s of (won, s') \<Rightarrow>
     if won then spend_batch mark unmark ks (marked @ [k]) s'
     else (False, fold unmark marked s'))"

locale spend_guard =
  fixes seen :: "'k \<Rightarrow> 's \<Rightarrow> bool"
    and mark :: "'k \<Rightarrow> 's \<Rightarrow> bool \<times> 's"
    and unmark :: "'k \<Rightarrow> 's \<Rightarrow> 's"
  assumes mark_wins: "fst (mark k s) \<longleftrightarrow> \<not> seen k s"
    and mark_seen: "seen k' (snd (mark k s)) \<longleftrightarrow> k' = k \<or> seen k' s"
    and unmark_seen: "seen k' (unmark k s) \<longleftrightarrow> k' \<noteq> k \<and> seen k' s"
begin

lemma mark_once: "\<not> fst (mark k (snd (mark k s)))"
  by (simp add: mark_wins mark_seen)

lemma fold_unmark_seen: "seen k (fold unmark ks s) \<longleftrightarrow> k \<notin> set ks \<and> seen k s"
  by (induction ks arbitrary: s) (auto simp: unmark_seen)

lemma batch_result:
  assumes "distinct ks"
  shows "fst (spend_batch mark unmark ks marked s) \<longleftrightarrow> (\<forall>k\<in>set ks. \<not> seen k s)"
  using assms
proof (induction ks arbitrary: marked s)
  case (Cons k ks)
  then show ?case by (auto simp: split_beta mark_wins mark_seen)
qed simp

lemma batch_seen:
  assumes "distinct ks"
  shows "seen k (snd (spend_batch mark unmark ks marked s)) \<longleftrightarrow>
    (if \<forall>j\<in>set ks. \<not> seen j s then k \<in> set ks \<or> seen k s else k \<notin> set marked \<and> seen k s)"
  using assms
proof (induction ks arbitrary: marked s)
  case (Cons j ks)
  show ?case
  proof (cases "seen j s")
    case True
    then have "fst (mark j s) = False" "seen i (snd (mark j s)) = seen i s" for i
      by (auto simp: mark_wins mark_seen)
    with True show ?thesis by (simp add: split_beta fold_unmark_seen)
  next
    case False
    with Cons show ?thesis by (auto simp: split_beta mark_wins mark_seen)
  qed
qed simp

lemma batch_all_or_nothing:
  assumes "distinct ks" "\<not> fst (spend_batch mark unmark ks [] s)"
  shows "seen k (snd (spend_batch mark unmark ks [] s)) \<longleftrightarrow> seen k s"
  using batch_result [OF assms(1)] batch_seen [OF assms(1)] assms(2) by auto

end

interpretation spent: spend_guard is_spent spend unspend
  by unfold_locales (auto simp: is_spent_def spend_def unspend_def)

lemma spent_set_eqI: "(\<And>k. is_spent k S \<longleftrightarrow> is_spent k T) \<Longrightarrow> S = T"
  by (auto simp: is_spent_def)

lemma spend_batch_all_new:
  "distinct ks \<Longrightarrow> set ks \<inter> S = {} \<Longrightarrow> spend_batch spend unspend ks [] S = (True, S \<union> set ks)"
  using spent.batch_result [of ks "[]" S] spent.batch_seen [of ks _ "[]" S]
  by (intro prod_eqI) (auto simp: is_spent_def)

lemma spend_batch_collision:
  assumes "distinct ks" "set ks \<inter> S \<noteq> {}"
  shows "spend_batch spend unspend ks [] S = (False, S)"
proof -
  have "fst (spend_batch spend unspend ks [] S) = False"
    using assms spent.batch_result [of ks "[]" S] by (auto simp: is_spent_def)
  moreover from this have "snd (spend_batch spend unspend ks [] S) = S"
    using spent.batch_all_or_nothing [OF assms(1), of S] by (intro spent_set_eqI) simp
  ultimately show ?thesis by (simp add: prod_eq_iff)
qed

subsection \<open>wallet.py\<close>

text \<open>A held voucher is an object: its identity and its fields. \<^verbatim>\<open>select\<close> removes by identity.\<close>

type_synonym voucher_object = "int \<times> dict"

record wallet =
  held :: "voucher_object list"

definition wallet_add :: "wallet \<Rightarrow> voucher_object list \<Rightarrow> wallet" where
  "wallet_add w vouchers = w\<lparr>held := held w @ vouchers\<rparr>"

definition unit_matches :: "string option \<Rightarrow> dict \<Rightarrow> bool" where
  "unit_matches unit voucher =
     (case unit of None \<Rightarrow> True | Some u \<Rightarrow> getn voucher ''unit'' = JStr u)"

text \<open>\<^verbatim>\<open>total += Decimal(voucher["denomination"])\<close>\<close>

definition add_field :: "string \<Rightarrow> dict \<Rightarrow> dec \<Rightarrow> dec res" where
  "add_field key d acc =
     rbind (getitem d key) (\<lambda>v. rbind (py_decimal v) (\<lambda>x. dec_add acc x))"

definition wallet_balance :: "wallet \<Rightarrow> string option \<Rightarrow> dec res" where
  "wallet_balance w unit =
     rfold (\<lambda>(_, voucher) acc. if unit_matches unit voucher then add_field ''denomination'' voucher acc else Inr acc)
       (held w) dec_zero"

fun pick_vouchers :: "dec \<Rightarrow> string \<Rightarrow> voucher_object list \<Rightarrow> voucher_object list \<Rightarrow> dec \<Rightarrow> voucher_object list res" where
  "pick_vouchers target unit [] picked acc = Inr picked"
| "pick_vouchers target unit (v # vs) picked acc =
     rbind (dec_le target acc) (\<lambda>enough.
       if enough then Inr picked
       else if unit_matches (Some unit) (snd v) then
         rbind (add_field ''denomination'' (snd v) acc)
           (\<lambda>acc'. pick_vouchers target unit vs (picked @ [v]) acc')
       else pick_vouchers target unit vs picked acc)"

definition wallet_select :: "wallet \<Rightarrow> json \<Rightarrow> string \<Rightarrow> (voucher_object list \<times> wallet) res" where
  "wallet_select w amount unit =
     rbind (py_decimal amount) (\<lambda>target.
     rbind (wallet_balance w (Some unit)) (\<lambda>have.
     rbind (dec_lt have target) (\<lambda>short.
       if short then Inl InsufficientFunds
       else rbind (pick_vouchers target unit (held w) [] dec_zero) (\<lambda>picked.
         let picked_ids = set (map fst picked) in
         Inr (picked, w\<lparr>held := filter (\<lambda>v. fst v \<notin> picked_ids) (held w)\<rparr>)))))"

subsection \<open>ledger.py\<close>

text \<open>\<open>ledger_file\<close> is the parsed content of the file at \<open>path\<close>, \<open>None\<close> where it cannot be read or parsed.\<close>

record ledger =
  has_path :: bool
  ledger_file :: "json option"
  entries :: "dict list"

definition ledger_load :: "bool \<Rightarrow> json option \<Rightarrow> dict list" where
  "ledger_load pathed file =
     (case if pathed then file else None of
        None \<Rightarrow> []
      | Some raw \<Rightarrow> (case the_arr raw of None \<Rightarrow> [] | Some xs \<Rightarrow> List.map_filter the_obj xs))"

definition open_ledger :: "bool \<Rightarrow> json option \<Rightarrow> ledger" where
  "open_ledger pathed file = \<lparr>has_path = pathed, ledger_file = file, entries = ledger_load pathed file\<rparr>"

definition ledger_save :: "ledger \<Rightarrow> ledger" where
  "ledger_save l = (if has_path l then l\<lparr>ledger_file := Some (JArr (map JObj (entries l)))\<rparr> else l)"

definition ledger_record :: "string \<Rightarrow> string \<Rightarrow> string \<Rightarrow> string list \<Rightarrow> ledger \<Rightarrow> ledger" where
  "ledger_record provider_pubkey amount unit refs l =
     ledger_save (l\<lparr>entries := entries l @
       [[(''provider_pubkey'', JStr provider_pubkey), (''amount'', JStr amount),
         (''unit'', JStr unit), (''refs'', jstrs refs)]]\<rparr>)"

definition ledger_balance :: "ledger \<Rightarrow> string \<Rightarrow> string option \<Rightarrow> dec res" where
  "ledger_balance l provider_pubkey unit =
     rfold (\<lambda>entry acc.
       if getn entry ''provider_pubkey'' \<noteq> JStr provider_pubkey then Inr acc
       else if unit_matches unit entry then add_field ''amount'' entry acc else Inr acc)
       (entries l) dec_zero"

definition ledger_total :: "ledger \<Rightarrow> string option \<Rightarrow> dec res" where
  "ledger_total l unit =
     rfold (\<lambda>entry acc. if unit_matches unit entry then add_field ''amount'' entry acc else Inr acc)
       (entries l) dec_zero"

subsection \<open>issuer.py\<close>

record issuer =
  issuer_keypair :: keypair
  issuer_unit :: string

definition issuer_pubkey :: "platform \<Rightarrow> issuer \<Rightarrow> string" where
  "issuer_pubkey P i = public_key_str P (issuer_keypair i)"

text \<open>One fresh id per voucher; \<open>ids\<close> has the length \<open>count\<close>.\<close>

definition issue :: "platform \<Rightarrow> issuer \<Rightarrow> string \<Rightarrow> string list \<Rightarrow> int \<Rightarrow> int \<Rightarrow> dict list res" where
  "issue P i denomination ids ttl_seconds now =
     rbind (instant_plus now (ttl_seconds * second)) (\<lambda>expires_at.
       rmap (\<lambda>fresh. sign_voucher P
               (build_voucher fresh denomination (issuer_unit i) (issuer_pubkey P i) now expires_at None)
               (issuer_keypair i)) ids)"

subsection \<open>Properties of the wallet and the ledger\<close>

lemma filter_rfold:
  "rfold (\<lambda>(i, v) acc. if P v then f v acc else Inr acc) vs = rfold f (filter P (map snd vs))"
proof (induction vs)
  case (Cons x vs)
  then show ?case by (cases x) (auto intro!: ext)
qed (auto intro!: ext)

lemma wallet_balance_unit:
  "wallet_balance w (Some unit) =
     rfold (add_field ''denomination'') (filter (unit_matches (Some unit)) (map snd (held w))) dec_zero"
  unfolding wallet_balance_def by (simp only: filter_rfold)

text \<open>What the greedy loop returns: a prefix of the vouchers of the unit, as long as needed.\<close>

definition greedy_prefix :: "dec \<Rightarrow> string \<Rightarrow> voucher_object list \<Rightarrow> voucher_object list \<Rightarrow> bool" where
  "greedy_prefix target unit vs picked \<longleftrightarrow>
     (\<exists>rest. filter (\<lambda>v. unit_matches (Some unit) (snd v)) vs = picked @ rest \<and>
        (picked \<noteq> [] \<longrightarrow> (\<exists>t. rfold (add_field ''denomination'') (map snd (butlast picked)) dec_zero = Inr t \<and>
                              dec_le target t = Inr False)) \<and>
        (rest \<noteq> [] \<longrightarrow> (\<exists>t. rfold (add_field ''denomination'') (map snd picked) dec_zero = Inr t \<and>
                            dec_le target t = Inr True)))"

lemma pick_vouchers_prefix:
  assumes "pick_vouchers target unit vs picked acc = Inr out"
    and "rfold (add_field ''denomination'') (map snd picked) dec_zero = Inr acc"
    and "picked \<noteq> [] \<longrightarrow> (\<exists>t. rfold (add_field ''denomination'') (map snd (butlast picked)) dec_zero = Inr t \<and>
                              dec_le target t = Inr False)"
    and "filter (\<lambda>v. unit_matches (Some unit) (snd v)) us = picked"
  shows "greedy_prefix target unit (us @ vs) out"
  using assms
proof (induction vs arbitrary: picked acc us)
  case Nil
  then show ?case by (auto simp: greedy_prefix_def)
next
  case (Cons v vs)
  obtain enough where enough: "dec_le target acc = Inr enough"
    using Cons.prems(1) by (auto simp: rbind_eq_Inr)
  show ?case
  proof (cases enough)
    case True
    with Cons.prems enough show ?thesis by (auto simp: greedy_prefix_def)
  next
    case False
    show ?thesis
    proof (cases "unit_matches (Some unit) (snd v)")
      case True
      then obtain acc' where "add_field ''denomination'' (snd v) acc = Inr acc'"
        "pick_vouchers target unit vs (picked @ [v]) acc' = Inr out"
        using Cons.prems(1) False enough by (auto simp: rbind_eq_Inr)
      then show ?thesis
        using Cons.IH [of "picked @ [v]" acc' "us @ [v]"] Cons.prems(2-4) True False enough
        by (simp add: rfold_append)
    next
      case no: False
      then show ?thesis
        using Cons.IH [of picked acc "us @ [v]"] Cons.prems False enough by simp
    qed
  qed
qed

lemma mset_split_by: "mset (filter P xs) + mset (filter (\<lambda>x. \<not> P x) xs) = mset xs"
  by (induction xs) auto

lemma wallet_select_cases:
  assumes "wallet_select w amount unit = Inr (picked, w')"
  obtains target where "py_decimal amount = Inr target" "greedy_prefix target unit (held w) picked"
    "held w' = filter (\<lambda>v. fst v \<notin> fst ` set picked) (held w)"
    "\<exists>t. wallet_balance w (Some unit) = Inr t \<and> dec_lt t target = Inr False"
proof -
  obtain target where t: "py_decimal amount = Inr target"
    and pick: "pick_vouchers target unit (held w) [] dec_zero = Inr picked"
    and w': "held w' = filter (\<lambda>v. fst v \<notin> fst ` set picked) (held w)"
    and bal: "\<exists>t. wallet_balance w (Some unit) = Inr t \<and> dec_lt t target = Inr False"
    using assms by (auto simp: wallet_select_def rbind_eq_Inr Let_def split: if_splits)
  from pick_vouchers_prefix [OF pick, of "[]"] have "greedy_prefix target unit (held w) picked" by simp
  with t w' bal that show ?thesis by blast
qed

lemma select_partition:
  assumes "distinct (map fst vs)" "set picked \<subseteq> set vs" "distinct picked"
  shows "mset vs = mset picked + mset (filter (\<lambda>v. fst v \<notin> fst ` set picked) vs)"
proof -
  have inj: "inj_on fst (set vs)" using assms(1) by (simp add: distinct_map)
  have "v \<in> set vs \<Longrightarrow> fst v \<in> fst ` set picked \<longleftrightarrow> v \<in> set picked" for v
    using inj_on_image_mem_iff [OF inj] assms(2) by auto
  then have f: "filter (\<lambda>v. fst v \<notin> fst ` set picked) vs = filter (\<lambda>v. v \<notin> set picked) vs"
    by (intro filter_cong) simp_all
  have "distinct vs" using assms(1) by (simp add: distinct_map)
  then have "mset (filter (\<lambda>v. v \<in> set picked) vs) = mset picked"
    using assms by (intro set_eq_iff_mset_eq_distinct [THEN iffD1]) auto
  then show ?thesis using mset_split_by [of "\<lambda>v. v \<in> set picked" vs] by (simp add: f)
qed

lemma greedy_prefix_subset:
  "greedy_prefix target unit vs picked \<Longrightarrow> distinct vs \<Longrightarrow>
    set picked \<subseteq> set vs \<and> distinct picked \<and> (\<forall>v\<in>set picked. unit_matches (Some unit) (snd v))"
proof -
  assume g: "greedy_prefix target unit vs picked" and d: "distinct vs"
  obtain rest where f: "filter (\<lambda>v. unit_matches (Some unit) (snd v)) vs = picked @ rest"
    using g by (auto simp: greedy_prefix_def)
  have "set (picked @ rest) = {v \<in> set vs. unit_matches (Some unit) (snd v)}" "distinct (picked @ rest)"
    using d by (auto simp flip: f)
  then show ?thesis by auto
qed

lemma dec_le_not_lt: "dec_le a b = Inr True \<Longrightarrow> dec_lt b a = Inr False"
  by (auto simp: dec_le_def dec_lt_def dec_le_val_def split: if_splits)

lemma greedy_prefix_covers:
  assumes "greedy_prefix target unit (held w) picked"
    and "\<exists>t. wallet_balance w (Some unit) = Inr t \<and> dec_lt t target = Inr False"
  shows "\<exists>t. rfold (add_field ''denomination'') (map snd picked) dec_zero = Inr t \<and> dec_lt t target = Inr False"
proof -
  obtain rest where f: "filter (\<lambda>v. unit_matches (Some unit) (snd v)) (held w) = picked @ rest"
    and r: "rest \<noteq> [] \<longrightarrow> (\<exists>t. rfold (add_field ''denomination'') (map snd picked) dec_zero = Inr t \<and>
                            dec_le target t = Inr True)"
    using assms(1) by (auto simp: greedy_prefix_def)
  show ?thesis
  proof (cases "rest = []")
    case True
    then have "filter (unit_matches (Some unit)) (map snd (held w)) = map snd picked"
      using f by (simp add: filter_map comp_def)
    with assms(2) show ?thesis by (simp add: wallet_balance_unit)
  qed (use r dec_le_not_lt in blast)
qed

text \<open>Selecting from the wallet moves vouchers and loses none: what was held is what was picked and what is
  still held; the picked vouchers carry the unit, cover the amount, and without the last one would not.\<close>

theorem wallet_select_conserves:
  assumes "wallet_select w amount unit = Inr (picked, w')" "distinct (map fst (held w))"
  shows "mset (held w) = mset picked + mset (held w') \<and>
    (\<forall>v\<in>set picked. getn (snd v) ''unit'' = JStr unit) \<and>
    (\<exists>target t. py_decimal amount = Inr target \<and>
      rfold (add_field ''denomination'') (map snd picked) dec_zero = Inr t \<and> dec_lt t target = Inr False \<and>
      (picked \<noteq> [] \<longrightarrow> (\<exists>u. rfold (add_field ''denomination'') (map snd (butlast picked)) dec_zero = Inr u \<and>
         dec_le target u = Inr False)))"
proof -
  obtain target where target: "py_decimal amount = Inr target" "greedy_prefix target unit (held w) picked"
    and w': "held w' = filter (\<lambda>v. fst v \<notin> fst ` set picked) (held w)"
    and bal: "\<exists>t. wallet_balance w (Some unit) = Inr t \<and> dec_lt t target = Inr False"
    using wallet_select_cases [OF assms(1)] .
  have "distinct (held w)" using assms(2) by (simp add: distinct_map)
  note sub = greedy_prefix_subset [OF target(2) this]
  have "mset (held w) = mset picked + mset (held w')"
    unfolding w' using sub by (intro select_partition assms) auto
  moreover have "\<forall>v\<in>set picked. getn (snd v) ''unit'' = JStr unit"
    using sub by (auto simp: unit_matches_def)
  ultimately show ?thesis
    using greedy_prefix_covers [OF target(2) bal] target by (auto simp: greedy_prefix_def)
qed

text \<open>A wallet of three vouchers, of which the first of the unit is enough.\<close>

definition demo_voucher :: "string \<Rightarrow> string \<Rightarrow> string \<Rightarrow> dict" where
  "demo_voucher vid denomination unit =
     [(''voucher_id'', JStr vid), (''denomination'', JStr denomination), (''unit'', JStr unit)]"

definition demo_wallet :: wallet where
  "demo_wallet = \<lparr>held = [(1, demo_voucher ''a'' ''5'' ''eur''), (2, demo_voucher ''b'' ''2'' ''pic''),
     (3, demo_voucher ''c'' ''1'' ''pic'')]\<rparr>"

lemma wallet_select_conserves_witness:
  "\<exists>picked w'. wallet_select demo_wallet (JStr ''1.5'') ''pic'' = Inr (picked, w') \<and>
     mset (held demo_wallet) = mset picked + mset (held w') \<and>
     (\<forall>v\<in>set picked. getn (snd v) ''unit'' = JStr ''pic'')"
proof -
  have run: "wallet_select demo_wallet (JStr ''1.5'') ''pic'' =
      Inr ([(2, demo_voucher ''b'' ''2'' ''pic'')],
        \<lparr>held = [(1, demo_voucher ''a'' ''5'' ''eur''), (3, demo_voucher ''c'' ''1'' ''pic'')]\<rparr>)"
    by code_simp
  have "distinct (map fst (held demo_wallet))" by (simp add: demo_wallet_def)
  from wallet_select_conserves [OF run this] run show ?thesis by blast
qed

text \<open>A recorded credit adds its amount to the provider's balance in its unit, leaves every other provider's
  balance alone, and a ledger opened again on the file has the same entries.\<close>

theorem ledger_record_credits:
  assumes "ledger_balance l provider (Some unit) = Inr b"
  shows "ledger_balance (ledger_record provider amount unit refs l) provider (Some unit) =
      rbind (dec_of_str amount) (dec_add b) \<and>
    (other \<noteq> provider \<longrightarrow>
      ledger_balance (ledger_record provider amount unit refs l) other u = ledger_balance l other u) \<and>
    (has_path l \<longrightarrow>
      entries (open_ledger True (ledger_file (ledger_record provider amount unit refs l))) =
      entries l @ [[(''provider_pubkey'', JStr provider), (''amount'', JStr amount), (''unit'', JStr unit),
        (''refs'', jstrs refs)]])"
proof -
  define row where "row = [(''provider_pubkey'', JStr provider), (''amount'', JStr amount), (''unit'', JStr unit),
        (''refs'', jstrs refs)]"
  have e: "entries (ledger_record provider amount unit refs l) = entries l @ [row]"
    by (simp add: ledger_record_def ledger_save_def row_def)
  have row: "getn row ''provider_pubkey'' = JStr provider" "getn row ''unit'' = JStr unit"
    "getitem row ''amount'' = Inr (JStr amount)"
    by (simp_all add: row_def getn_def getitem_def)
  have "ledger_balance (ledger_record provider amount unit refs l) provider (Some unit) =
      rbind (dec_of_str amount) (dec_add b)"
    using assms by (simp add: ledger_balance_def e rfold_append row unit_matches_def add_field_def)
       (cases "dec_of_str amount"; cases "dec_add b (projr (dec_of_str amount))"; simp)
  moreover have "other \<noteq> provider \<longrightarrow>
      ledger_balance (ledger_record provider amount unit refs l) other u = ledger_balance l other u"
    by (cases "ledger_balance l other u") (auto simp: ledger_balance_def e rfold_append row)
  moreover have "has_path l \<longrightarrow>
      entries (open_ledger True (ledger_file (ledger_record provider amount unit refs l))) = entries l @ [row]"
    by (simp add: ledger_record_def ledger_save_def row_def open_ledger_def ledger_load_def
        List.map_filter_def comp_def)
  ultimately show ?thesis by (simp add: row_def)
qed

lemma ledger_record_credits_witness:
  "ledger_balance (ledger_record ''p'' ''2'' ''pic'' [''a''] (open_ledger True None)) ''p'' (Some ''pic'') =
     rbind (dec_of_str ''2'') (dec_add dec_zero)"
  by (rule ledger_record_credits [THEN conjunct1]) (simp add: ledger_balance_def open_ledger_def ledger_load_def)

end
