(* ===== verification/Redeem.thy ===== *)
theory Redeem
  imports Pic
begin

text \<open>
  \<^verbatim>\<open>x402.py\<close> and \<^verbatim>\<open>payment.py\<close> of \<^verbatim>\<open>pic-vouchers\<close>: the payer-signed direct payment, the HTTP 402
  challenge, and redemption of both schemes against the spent set. Redemption returns the new spent
  set; an exception can only be raised before the first key is marked, so it carries none.
\<close>

subsection \<open>x402.py\<close>

definition x402_inner ::
  "platform \<Rightarrow> keypair \<Rightarrow> string \<Rightarrow> string \<Rightarrow> int \<Rightarrow> string \<Rightarrow> string option \<Rightarrow> string option \<Rightarrow> string option \<Rightarrow> dict" where
  "x402_inner P kp amount unit now fresh nonce provider_pubkey request_id =
     optional_field ''request_id'' (map_option JStr request_id)
      (optional_field ''provider_pubkey'' (map_option JStr provider_pubkey)
        [(''payer_pubkey'', JStr (public_key_str P kp)),
         (''amount'', JStr amount),
         (''unit'', JStr unit),
         (''nonce'', JStr (case nonce of None \<Rightarrow> fresh | Some n \<Rightarrow> if n = [] then fresh else n)),
         (''issued_at'', JStr (utc_iso now))])"

definition build_x402_payment ::
  "platform \<Rightarrow> keypair \<Rightarrow> string \<Rightarrow> string \<Rightarrow> int \<Rightarrow> string \<Rightarrow> string option \<Rightarrow> string option \<Rightarrow> string option \<Rightarrow> dict res" where
  "build_x402_payment P kp amount unit now fresh nonce provider_pubkey request_id =
     rbind (sign_document P (x402_inner P kp amount unit now fresh nonce provider_pubkey request_id) kp)
       (\<lambda>signed. Inr [(''scheme'', JStr ''x402''), (''payment'', JObj signed)])"

definition x402_nonce :: "dict \<Rightarrow> string option" where
  "x402_nonce payment = (case the_obj (getn payment ''payment'') of
     None \<Rightarrow> None
   | Some inner \<Rightarrow> (case the_str (getn inner ''nonce'') of
       None \<Rightarrow> None | Some nonce \<Rightarrow> if nonce = [] then None else Some nonce))"

text \<open>\<^verbatim>\<open>given is not None and inner.get(key) != given\<close>\<close>

definition unbound :: "string option \<Rightarrow> string \<Rightarrow> dict \<Rightarrow> bool" where
  "unbound given key inner = (case given of None \<Rightarrow> False | Some v \<Rightarrow> getn inner key \<noteq> JStr v)"

text \<open>The \<^verbatim>\<open>try\<close> around the amount: \<^verbatim>\<open>InvalidOperation\<close> and \<^verbatim>\<open>TypeError\<close> count as too little.\<close>

definition amount_covers :: "json \<Rightarrow> string \<Rightarrow> bool res" where
  "amount_covers amount price =
     (case rbind (dec_of_str (py_str amount)) (\<lambda>a. rbind (dec_of_str price) (\<lambda>p. dec_lt a p)) of
        Inl InvalidOperation \<Rightarrow> Inr False
      | Inl TypeError \<Rightarrow> Inr False
      | Inl e \<Rightarrow> Inl e
      | Inr short \<Rightarrow> Inr (\<not> short))"

definition x402_age :: "platform \<Rightarrow> string \<Rightarrow> int \<Rightarrow> int option res" where
  "x402_age P raw_issued now = (case fromisoformat P (zone_suffix raw_issued) of
     Inl ValueError \<Rightarrow> Inr None
   | Inl e \<Rightarrow> Inl e
   | Inr m \<Rightarrow> rbind (as_utc P m) (\<lambda>issued. Inr (Some (now - issued))))"

definition verify_x402_payment ::
  "platform \<Rightarrow> dict \<Rightarrow> string \<Rightarrow> string \<Rightarrow> int \<Rightarrow> int \<Rightarrow> string option \<Rightarrow> string option \<Rightarrow> bool res" where
  "verify_x402_payment P payment price unit now max_age_seconds provider_pubkey request_id =
     (if getn payment ''scheme'' \<noteq> JStr ''x402'' then Inr False
      else case the_obj (getn payment ''payment'') of
        None \<Rightarrow> Inr False
      | Some inner \<Rightarrow>
          if getn inner ''unit'' \<noteq> JStr unit then Inr False
          else if the_str (getn inner ''nonce'') = None \<or> the_str (getn inner ''nonce'') = Some [] then Inr False
          else if unbound provider_pubkey ''provider_pubkey'' inner then Inr False
          else if unbound request_id ''request_id'' inner then Inr False
          else rbind (amount_covers (getn inner ''amount'') price) (\<lambda>covers.
            if \<not> covers then Inr False
            else rbind (verify_document P ''payer_pubkey'' inner) (\<lambda>signed.
              if \<not> signed then Inr False
              else case the_str (getn inner ''issued_at'') of
                None \<Rightarrow> Inr False
              | Some raw_issued \<Rightarrow> rbind (x402_age P raw_issued now) (\<lambda>age.
                  Inr (case age of None \<Rightarrow> False | Some us \<Rightarrow> us \<le> max_age_seconds * second)))))"

subsection \<open>payment.py\<close>

record redeem_result =
  ok :: bool
  scheme :: string
  total_amount :: string
  reason :: string

definition rejected :: "string \<Rightarrow> string \<Rightarrow> redeem_result" where
  "rejected sch why = \<lparr>ok = False, scheme = sch, total_amount = ''0'', reason = why\<rparr>"

definition build_pic_payment :: "json list \<Rightarrow> dict" where
  "build_pic_payment vouchers = [(''scheme'', JStr ''pic''), (''vouchers'', JArr vouchers)]"

definition payment_required :: "string \<Rightarrow> string \<Rightarrow> string list \<Rightarrow> string list \<Rightarrow> dict" where
  "payment_required price unit issuer_pubkeys accept =
     [(''price_amount'', JStr price), (''price_units'', JStr unit),
      (''accepted_schemes'', jstrs accept), (''pic_issuers'', jstrs issuer_pubkeys)]"

definition validate_voucher :: "platform \<Rightarrow> dict \<Rightarrow> string \<Rightarrow> string list \<Rightarrow> int \<Rightarrow> string option res" where
  "validate_voucher P voucher unit issuer_pubkeys now =
     rbind (verify_voucher P voucher) (\<lambda>v.
       if \<not> valid v then Inr (Some ''invalid_voucher'')
       else if getn voucher ''unit'' \<noteq> JStr unit then Inr (Some ''invalid_voucher'')
       else if getn voucher ''issuer_pubkey'' \<notin> JStr ` set issuer_pubkeys then Inr (Some ''wrong_issuer'')
       else rbind (voucher_is_expired P voucher now) (\<lambda>expired.
         if expired then Inr (Some ''expired'') else Inr None))"

text \<open>The first loop: every element has an id of its own, or the reason to stop.\<close>

fun distinct_ids :: "json list \<Rightarrow> string list \<Rightarrow> bool res" where
  "distinct_ids [] known = Inr True"
| "distinct_ids (voucher # vs) known = rbind (attr_get voucher ''voucher_id'') (\<lambda>vid.
     case the_str vid of
       None \<Rightarrow> Inr False
     | Some voucher_id \<Rightarrow> if voucher_id \<in> set known then Inr False else distinct_ids vs (voucher_id # known))"

text \<open>\<^verbatim>\<open>total += Decimal(voucher["denomination"])\<close> under \<^verbatim>\<open>except (InvalidOperation, KeyError, TypeError)\<close>.\<close>

definition add_denomination :: "dict \<Rightarrow> dec \<Rightarrow> dec option res" where
  "add_denomination voucher acc = (case add_field ''denomination'' voucher acc of
     Inl InvalidOperation \<Rightarrow> Inr None
   | Inl KeyError \<Rightarrow> Inr None
   | Inl TypeError \<Rightarrow> Inr None
   | Inl e \<Rightarrow> Inl e
   | Inr d \<Rightarrow> Inr (Some d))"

definition id_of :: "dict \<Rightarrow> string" where
  "id_of voucher = (case the_str (getn voucher ''voucher_id'') of None \<Rightarrow> [] | Some s \<Rightarrow> s)"

text \<open>The second loop: the total, or the reason the payment is refused. The spent set is only read.\<close>

fun check_vouchers ::
  "platform \<Rightarrow> string \<Rightarrow> string list \<Rightarrow> int \<Rightarrow> spent_set \<Rightarrow> dict list \<Rightarrow> dec \<Rightarrow> (string + dec) res" where
  "check_vouchers P unit issuers now S [] acc = Inr (Inr acc)"
| "check_vouchers P unit issuers now S (voucher # vs) acc =
     rbind (validate_voucher P voucher unit issuers now) (\<lambda>why. case why of
       Some r \<Rightarrow> Inr (Inl r)
     | None \<Rightarrow>
         if is_spent (id_of voucher) S then Inr (Inl ''double_spend'')
         else rbind (add_denomination voucher acc) (\<lambda>acc'. case acc' of
           None \<Rightarrow> Inr (Inl ''invalid_voucher'')
         | Some d \<Rightarrow> check_vouchers P unit issuers now S vs d))"

definition redeem_pic ::
  "platform \<Rightarrow> dict \<Rightarrow> string \<Rightarrow> string \<Rightarrow> string list \<Rightarrow> int \<Rightarrow> bool \<Rightarrow> spent_set \<Rightarrow> (redeem_result \<times> spent_set) res" where
  "redeem_pic P payment price unit issuer_pubkeys now commit S =
     (case the_arr (getn payment ''vouchers'') of
        None \<Rightarrow> Inr (rejected ''pic'' ''invalid_voucher'', S)
      | Some raw \<Rightarrow>
          if raw = [] then Inr (rejected ''pic'' ''invalid_voucher'', S)
          else rbind (distinct_ids raw []) (\<lambda>distinct_ok.
            if \<not> distinct_ok then Inr (rejected ''pic'' ''double_spend'', S)
            else let vouchers = List.map_filter the_obj raw in
              rbind (check_vouchers P unit issuer_pubkeys now S vouchers dec_zero) (\<lambda>checked. case checked of
                Inl why \<Rightarrow> Inr (rejected ''pic'' why, S)
              | Inr tot \<Rightarrow> rbind (dec_of_str price) (\<lambda>p. rbind (dec_lt tot p) (\<lambda>short.
                  let answer = \<lambda>good why. \<lparr>ok = good, scheme = ''pic'', total_amount = dec_str tot, reason = why\<rparr> in
                  if short then Inr (answer False ''insufficient'', S)
                  else if \<not> commit then Inr (answer True [], S)
                  else case spend_batch spend unspend (map id_of vouchers) [] S of
                    (True, S') \<Rightarrow> Inr (answer True [], S')
                  | (False, S') \<Rightarrow> Inr (answer False ''double_spend'', S'))))))"

text \<open>\<^verbatim>\<open>"x402:" + nonce\<close>\<close>

definition x402_key :: "string \<Rightarrow> string" where
  "x402_key nonce = ''x402:'' @ nonce"

definition redeem_x402 ::
  "platform \<Rightarrow> dict \<Rightarrow> string \<Rightarrow> string \<Rightarrow> int \<Rightarrow> bool \<Rightarrow> string option \<Rightarrow> string option \<Rightarrow> spent_set \<Rightarrow>
   (redeem_result \<times> spent_set) res" where
  "redeem_x402 P payment price unit now commit provider_pubkey request_id S =
     (case x402_nonce payment of
        None \<Rightarrow> Inr (rejected ''x402'' ''invalid_payment'', S)
      | Some nonce \<Rightarrow>
          rbind (verify_x402_payment P payment price unit now 300 provider_pubkey request_id) (\<lambda>good.
            if \<not> good then Inr (rejected ''x402'' ''insufficient'', S)
            else let spent_key = x402_key nonce in
              if is_spent spent_key S then Inr (rejected ''x402'' ''double_spend'', S)
              else case (if commit then spend spent_key S else (True, S)) of
                (False, S') \<Rightarrow> Inr (rejected ''x402'' ''double_spend'', S')
              | (True, S') \<Rightarrow>
                  let amount = (case the_obj (getn payment ''payment'') of
                        None \<Rightarrow> JStr price | Some inner \<Rightarrow> get_or inner ''amount'' (JStr price)) in
                  Inr (\<lparr>ok = True, scheme = ''x402'', total_amount = py_str amount, reason = []\<rparr>, S')))"

definition redeem_payment ::
  "platform \<Rightarrow> dict \<Rightarrow> string \<Rightarrow> string \<Rightarrow> string list \<Rightarrow> int \<Rightarrow> bool \<Rightarrow> string option \<Rightarrow> string option \<Rightarrow> spent_set \<Rightarrow>
   (redeem_result \<times> spent_set) res" where
  "redeem_payment P payment price unit issuer_pubkeys now commit provider_pubkey request_id S =
     (let sch = getn payment ''scheme'' in
      if sch = JStr ''pic'' then redeem_pic P payment price unit issuer_pubkeys now commit S
      else if sch = JStr ''x402'' then redeem_x402 P payment price unit now commit provider_pubkey request_id S
      else Inr (rejected (py_str sch) ''unsupported_scheme'', S))"

subsection \<open>What redemption establishes\<close>

text \<open>A voucher a provider may accept: verified, in its unit, from a trusted issuer, unexpired, unspent.\<close>

definition acceptable :: "platform \<Rightarrow> string \<Rightarrow> string list \<Rightarrow> int \<Rightarrow> spent_set \<Rightarrow> dict \<Rightarrow> bool" where
  "acceptable P unit issuers now S voucher \<longleftrightarrow>
     schema_accepts P ''voucher'' voucher \<and> verify_document P ''issuer_pubkey'' voucher = Inr True \<and>
     getn voucher ''unit'' = JStr unit \<and> getn voucher ''issuer_pubkey'' \<in> JStr ` set issuers \<and>
     voucher_is_expired P voucher now = Inr False \<and> id_of voucher \<notin> S"

lemma validate_voucher_None:
  "validate_voucher P d unit issuers now = Inr None \<Longrightarrow> id_of d \<notin> S \<Longrightarrow> acceptable P unit issuers now S d"
  by (auto simp: validate_voucher_def acceptable_def rbind_eq_Inr voucher.verify_law split: if_splits)

lemma add_denomination_Some:
  "add_denomination d acc = Inr (Some t) \<longleftrightarrow> add_field ''denomination'' d acc = Inr t"
  by (auto simp: add_denomination_def split: sum.splits exn.splits)

lemma check_vouchers_total:
  "check_vouchers P unit issuers now S vs acc = Inr (Inr t) \<Longrightarrow>
     list_all (acceptable P unit issuers now S) vs \<and> rfold (add_field ''denomination'') vs acc = Inr t"
  by (induction vs arbitrary: acc)
    (auto simp: rbind_eq_Inr is_spent_def add_denomination_Some intro: validate_voucher_None
      split: option.splits if_splits)

lemma distinct_ids_True:
  "distinct_ids raw known = Inr True \<Longrightarrow> \<exists>vs. raw = map JObj vs \<and>
     (\<forall>v\<in>set vs. getn v ''voucher_id'' = JStr (id_of v)) \<and> distinct (map id_of vs) \<and> id_of ` set vs \<inter> set known = {}"
proof (induction raw arbitrary: known)
  case (Cons x raw)
  then obtain d s where d: "x = JObj d" "getn d ''voucher_id'' = JStr s" "s \<notin> set known"
    "distinct_ids raw (s # known) = Inr True"
    by (auto simp: rbind_eq_Inr attr_get_def split: option.splits if_splits)
  from Cons.IH [OF d(4)] obtain vs where "raw = map JObj vs"
    "\<forall>v\<in>set vs. getn v ''voucher_id'' = JStr (id_of v)" "distinct (map id_of vs)"
    "id_of ` set vs \<inter> set (s # known) = {}" by blast
  moreover have "id_of d = s" by (simp add: id_of_def d(2))
  ultimately show ?case using d by (intro exI [of _ "d # vs"]) auto
qed simp

lemma map_filter_objects [simp]: "List.map_filter the_obj (map JObj vs) = vs"
  by (induction vs) (simp_all add: List.map_filter_simps)

lemma acceptable_unspent: "list_all (acceptable P unit issuers now S) vs \<Longrightarrow> id_of ` set vs \<inter> S = {}"
  by (auto simp: list_all_iff acceptable_def)

text \<open>
  The specification of \<open>redeem_pic\<close>: what is accepted, and that committing marks exactly the ids.
\<close>

definition pic_accepted ::
  "platform \<Rightarrow> dict \<Rightarrow> string \<Rightarrow> string \<Rightarrow> string list \<Rightarrow> int \<Rightarrow> spent_set \<Rightarrow> dict list \<Rightarrow> dec \<Rightarrow> bool" where
  "pic_accepted P payment price unit issuers now S vs t \<longleftrightarrow>
     getn payment ''vouchers'' = JArr (map JObj vs) \<and> vs \<noteq> [] \<and>
     (\<forall>v\<in>set vs. getn v ''voucher_id'' = JStr (id_of v)) \<and> distinct (map id_of vs) \<and>
     list_all (acceptable P unit issuers now S) vs \<and>
     rfold (add_field ''denomination'') vs dec_zero = Inr t \<and>
     (\<exists>p. dec_of_str price = Inr p \<and> dec_lt t p = Inr False)"

lemma redeem_pic_cases:
  assumes "redeem_pic P payment price unit issuers now commit S = Inr (r, S')"
  shows "\<not> ok r \<and> S' = S \<or>
    (\<exists>vs t. pic_accepted P payment price unit issuers now S vs t \<and>
       r = \<lparr>ok = True, scheme = ''pic'', total_amount = dec_str t, reason = []\<rparr> \<and>
       S' = (if commit then S \<union> id_of ` set vs else S) \<and>
       (\<forall>c. redeem_pic P payment price unit issuers now c S =
          Inr (r, if c then S \<union> id_of ` set vs else S)))"
proof (cases "the_arr (getn payment ''vouchers'')")
  case None
  with assms show ?thesis by (auto simp: redeem_pic_def rejected_def)
next
  case (Some raw)
  show ?thesis
  proof (cases "raw \<noteq> [] \<and> distinct_ids raw [] = Inr True")
    case False
    with Some assms show ?thesis
      by (auto simp: redeem_pic_def rejected_def rbind_eq_Inr split: if_splits)
  next
    case True
    then obtain vs where vs: "raw = map JObj vs" "vs \<noteq> []" "distinct (map id_of vs)"
      "\<forall>v\<in>set vs. getn v ''voucher_id'' = JStr (id_of v)"
      using distinct_ids_True [of raw "[]"] by auto
    obtain checked where checked: "check_vouchers P unit issuers now S vs dec_zero = Inr checked"
      using assms Some vs(2) True
      by (auto simp: redeem_pic_def vs(1) rbind_eq_Inr)
    show ?thesis
    proof (cases checked)
      case (Inl why)
      with assms Some vs True checked show ?thesis by (auto simp: redeem_pic_def rejected_def)
    next
      case (Inr t)
      note total = check_vouchers_total [OF checked [unfolded Inr]]
      have batch: "spend_batch spend unspend (map id_of vs) [] S = (True, S \<union> id_of ` set vs)"
        using spend_batch_all_new [OF vs(3), of S] acceptable_unspent [OF total [THEN conjunct1]] by simp
      from assms Some vs True checked Inr batch obtain p short where
        p: "dec_of_str price = Inr p" "dec_lt t p = Inr short"
        by (auto simp: redeem_pic_def rbind_eq_Inr)
      show ?thesis
      proof (cases short)
        case True
        with assms Some vs \<open>raw \<noteq> [] \<and> _\<close> checked Inr p show ?thesis
          by (auto simp: redeem_pic_def Let_def)
      next
        case False
        have run: "redeem_pic P payment price unit issuers now c S =
           Inr (\<lparr>ok = True, scheme = ''pic'', total_amount = dec_str t, reason = []\<rparr>,
                if c then S \<union> id_of ` set vs else S)" for c
          using Some vs \<open>raw \<noteq> [] \<and> _\<close> checked Inr batch p False by (simp add: redeem_pic_def Let_def)
        have "pic_accepted P payment price unit issuers now S vs t"
          using Some vs total p False by (simp add: pic_accepted_def)
        moreover have "r = \<lparr>ok = True, scheme = ''pic'', total_amount = dec_str t, reason = []\<rparr>"
          "S' = (if commit then S \<union> id_of ` set vs else S)"
          using assms run [of commit] by simp_all
        ultimately show ?thesis using run by blast
      qed
    qed
  qed
qed

text \<open>The keys a payment marks when it is redeemed.\<close>


definition spend_keys :: "dict \<Rightarrow> string set" where
  "spend_keys payment =
     (if getn payment ''scheme'' = JStr ''pic'' then
        (case the_arr (getn payment ''vouchers'') of
           None \<Rightarrow> {} | Some raw \<Rightarrow> id_of ` set (List.map_filter the_obj raw))
      else case x402_nonce payment of None \<Rightarrow> {} | Some n \<Rightarrow> {x402_key n})"

lemma redeem_x402_cases:
  assumes "redeem_x402 P payment price unit now commit pk rid S = Inr (r, S')"
  shows "\<not> ok r \<and> S' = S \<or>
    (\<exists>n. x402_nonce payment = Some n \<and> x402_key n \<notin> S \<and> ok r \<and> scheme r = ''x402'' \<and>
       verify_x402_payment P payment price unit now 300 pk rid = Inr True \<and>
       S' = (if commit then insert (x402_key n) S else S) \<and>
       (\<forall>c. redeem_x402 P payment price unit now c pk rid S =
          Inr (r, if c then insert (x402_key n) S else S)))"
proof (cases "x402_nonce payment")
  case None
  with assms show ?thesis by (auto simp: redeem_x402_def rejected_def)
next
  case (Some n)
  obtain good where v: "verify_x402_payment P payment price unit now 300 pk rid = Inr good"
    using assms Some by (auto simp: redeem_x402_def rbind_eq_Inr)
  show ?thesis
  proof (cases "good \<and> x402_key n \<notin> S")
    case False
    with assms Some v show ?thesis
      by (cases good) (auto simp: redeem_x402_def rejected_def is_spent_def Let_def)
  next
    case True
    have run: "\<exists>amount. \<forall>c. redeem_x402 P payment price unit now c pk rid S =
        Inr (\<lparr>ok = True, scheme = ''x402'', total_amount = amount, reason = []\<rparr>,
             if c then insert (x402_key n) S else S)"
      using Some v True by (simp add: redeem_x402_def is_spent_def spend_def Let_def)
    then show ?thesis using assms Some v True by fastforce
  qed
qed

text \<open>Redemption in one rule: refused and nothing marked, or accepted and exactly its keys marked.\<close>

lemma redeem_payment_cases:
  assumes "redeem_payment P payment price unit issuers now commit pk rid S = Inr (r, S')"
  obtains (refused) "\<not> ok r" "S' = S"
  | (accepted) "ok r" "spend_keys payment \<noteq> {}" "spend_keys payment \<inter> S = {}"
      "S' = (if commit then S \<union> spend_keys payment else S)"
      "\<And>c. redeem_payment P payment price unit issuers now c pk rid S =
         Inr (r, if c then S \<union> spend_keys payment else S)"
proof -
  consider "getn payment ''scheme'' = JStr ''pic''" | "getn payment ''scheme'' = JStr ''x402''"
    | "\<not> ok r \<and> S' = S"
    using assms by (auto simp: redeem_payment_def Let_def rejected_def split: if_splits)
  then show ?thesis
  proof cases
    case 1
    then have "redeem_pic P payment price unit issuers now commit S = Inr (r, S')"
      using assms by (simp add: redeem_payment_def)
    from redeem_pic_cases [OF this] show ?thesis
    proof (elim disjE exE conjE)
      fix vs t
      assume a: "pic_accepted P payment price unit issuers now S vs t" "r = \<lparr>ok = True, scheme = ''pic'', total_amount = dec_str t, reason = []\<rparr>"
        "S' = (if commit then S \<union> id_of ` set vs else S)"
        "\<forall>c. redeem_pic P payment price unit issuers now c S = Inr (r, if c then S \<union> id_of ` set vs else S)"
      have "spend_keys payment = id_of ` set vs" using a(1) 1 by (simp add: spend_keys_def pic_accepted_def)
      with a show ?thesis using acceptable_unspent [of P unit issuers now S vs]
        by (intro accepted) (auto simp: pic_accepted_def redeem_payment_def 1)
    qed (rule refused)
  next
    case 2
    then have "redeem_x402 P payment price unit now commit pk rid S = Inr (r, S')"
      using assms by (simp add: redeem_payment_def)
    from redeem_x402_cases [OF this] show ?thesis
    proof (elim disjE exE conjE)
      fix n
      assume a: "x402_nonce payment = Some n" "x402_key n \<notin> S" "ok r"
        "S' = (if commit then insert (x402_key n) S else S)"
        "\<forall>c. redeem_x402 P payment price unit now c pk rid S = Inr (r, if c then insert (x402_key n) S else S)"
      have "spend_keys payment = {x402_key n}" using a 2 by (simp add: spend_keys_def)
      with a show ?thesis by (intro accepted) (auto simp: redeem_payment_def 2)
    qed (rule refused)
  qed (auto intro: refused)
qed


subsection \<open>Issued vouchers and built payments are accepted\<close>

lemma issue_cases:
  assumes "issue P i denomination ids ttl now = Inr vs"
  shows "\<exists>expires. instant_plus now (ttl * second) = Inr expires \<and>
    list_all2 (\<lambda>fresh v. sign_voucher P (build_voucher fresh denomination (issuer_unit i) (issuer_pubkey P i) now expires None)
       (issuer_keypair i) = Inr v) ids vs"
proof -
  have "rmap f xs = Inr ys \<Longrightarrow> list_all2 (\<lambda>x y. f x = Inr y) xs ys" for f :: "string \<Rightarrow> dict res" and xs ys
    by (induction xs arbitrary: ys) (auto simp: rbind_eq_Inr)
  with assms show ?thesis by (auto simp: issue_def rbind_eq_Inr)
qed

lemma built_voucher_fields:
  "getn (build_voucher fresh den u pk t e None) ''voucher_id'' = JStr fresh"
  "getn (build_voucher fresh den u pk t e None) ''denomination'' = JStr den"
  "getn (build_voucher fresh den u pk t e None) ''unit'' = JStr u"
  "getn (build_voucher fresh den u pk t e None) ''issuer_pubkey'' = JStr pk"
  "getn (build_voucher fresh den u pk t e None) ''expires_at'' = JStr (utc_iso e)"
  by (simp_all add: build_voucher_def getn_def)

lemma signed_voucher_fields:
  assumes "sign_voucher P (build_voucher fresh den u pk t e None) kp = Inr v"
  shows "getn v ''voucher_id'' = JStr fresh" "getn v ''denomination'' = JStr den" "getn v ''unit'' = JStr u"
    "getn v ''issuer_pubkey'' = JStr pk" "getn v ''expires_at'' = JStr (utc_iso e)"
  using voucher.sign_keeps_fields [OF assms] by (simp_all add: built_voucher_fields)

lemma getn_JStr_getitem: "getn d k = JStr s \<Longrightarrow> getitem d k = Inr (JStr s)"
  by (auto simp: getn_def getitem_def split: option.splits)

lemma validate_fresh_voucher:
  assumes "ed25519_laws P" "isoformat_law P" "valid_instant expires" "four_digit_instant expires"
    and "sign_voucher P (build_voucher fresh den (issuer_unit i) (issuer_pubkey P i) t expires None) (issuer_keypair i) = Inr v"
    and "schema_accepts P ''voucher'' v" "later < whole_seconds expires"
  shows "validate_voucher P v (issuer_unit i) [issuer_pubkey P i] later = Inr None"
proof -
  have pk: "getn (build_voucher fresh den (issuer_unit i) (issuer_pubkey P i) t expires None) ''issuer_pubkey'' =
      JStr (public_key_str P (issuer_keypair i))"
    by (simp add: built_voucher_fields issuer_pubkey_def)
  obtain ver where "verify_voucher P v = Inr ver" "valid ver"
    using voucher.signed_is_valid [OF assms(1,5) pk assms(6)] by blast
  moreover have "voucher_is_expired P v later = Inr False"
    using expires_passed_written [OF assms(2-4) signed_voucher_fields(5) [OF assms(5)]] assms(7)
    by (simp add: voucher_is_expired_def)
  ultimately show ?thesis
    by (simp add: validate_voucher_def signed_voucher_fields [OF assms(5)])
qed

lemma issued_distinct_ids:
  "list_all2 (\<lambda>k v. getn v ''voucher_id'' = JStr k) ids vs \<Longrightarrow> distinct ids \<Longrightarrow> set ids \<inter> set known = {} \<Longrightarrow>
     distinct_ids (map JObj vs) known = Inr True"
  by (induction ids vs arbitrary: known rule: list_all2_induct) (auto simp: attr_get_def)

lemma issued_check:
  assumes "list_all2 (\<lambda>k v. getn v ''voucher_id'' = JStr k \<and> getn v ''denomination'' = JStr den \<and>
       validate_voucher P v unit issuers now = Inr None) ids vs"
    and "set ids \<inter> S = {}" "dec_of_str den = Inr d" "rfold (\<lambda>_ acc. dec_add acc d) ids acc = Inr t"
  shows "check_vouchers P unit issuers now S vs acc = Inr (Inr t)"
  using assms
proof (induction ids vs arbitrary: acc rule: list_all2_induct)
  case (Cons k ks v vs)
  then obtain acc' where a: "dec_add acc d = Inr acc'" "rfold (\<lambda>_ acc. dec_add acc d) ks acc' = Inr t"
    by (auto simp: rbind_eq_Inr)
  have "id_of v = k" using Cons.hyps by (simp add: id_of_def)
  moreover have "add_denomination v acc = Inr (Some acc')"
    using Cons.hyps a Cons.prems by (simp add: add_denomination_def add_field_def getn_JStr_getitem)
  ultimately show ?case using Cons a by (simp add: is_spent_def)
qed simp

lemma issued_ids: "list_all2 (\<lambda>k v. getn v ''voucher_id'' = JStr k) ids vs \<Longrightarrow> map id_of vs = ids"
  by (induction ids vs rule: list_all2_induct) (auto simp: id_of_def)

lemma issued_redeem:
  assumes laws: "ed25519_laws P" "isoformat_law P"
    and issued: "issue P i den ids ttl t0 = Inr vs" "ids \<noteq> []" "distinct ids" "set ids \<inter> S = {}"
    and dates: "four_digit_instant (t0 + ttl * second)" "now < whole_seconds (t0 + ttl * second)"
    and schema: "\<forall>v\<in>set vs. schema_accepts P ''voucher'' v"
    and money: "dec_of_str den = Inr d" "rfold (\<lambda>_ acc. dec_add acc d) ids dec_zero = Inr t"
      "dec_of_str price = Inr p" "dec_lt t p = Inr False"
  shows "redeem_payment P (build_pic_payment (map JObj vs)) price (issuer_unit i) [issuer_pubkey P i] now True pk rid S =
    Inr (\<lparr>ok = True, scheme = ''pic'', total_amount = dec_str t, reason = []\<rparr>, S \<union> set ids)"
proof -
  obtain expires where e: "instant_plus t0 (ttl * second) = Inr expires"
    and signed: "list_all2 (\<lambda>fresh v. sign_voucher P (build_voucher fresh den (issuer_unit i) (issuer_pubkey P i) t0 expires None)
       (issuer_keypair i) = Inr v) ids vs"
    using issue_cases [OF issued(1)] by blast
  have expires: "expires = t0 + ttl * second" "valid_instant expires"
    using e by (auto simp: instant_plus_def split: if_splits)
  have all: "list_all2 (\<lambda>k v. getn v ''voucher_id'' = JStr k \<and> getn v ''denomination'' = JStr den \<and>
       validate_voucher P v (issuer_unit i) [issuer_pubkey P i] now = Inr None) ids vs"
    using signed schema
    by (auto simp: list_all2_conv_all_nth intro!: signed_voucher_fields validate_fresh_voucher [OF laws] expires
        simp: expires dates)
  then have ids: "list_all2 (\<lambda>k v. getn v ''voucher_id'' = JStr k) ids vs"
    by (rule list_all2_mono) simp
  have "vs \<noteq> []" using signed issued(2) by auto
  moreover note issued_distinct_ids [OF ids issued(3), of "[]"] issued_check [OF all issued(4) money(1,2)]
    spend_batch_all_new [OF issued(3,4)] issued_ids [OF ids]
  ultimately show ?thesis
    using money by (simp add: redeem_payment_def redeem_pic_def build_pic_payment_def getn_def Let_def)
qed

lemma built_x402_verifies:
  assumes laws: "ed25519_laws P" "isoformat_law P"
    and built: "build_x402_payment P kp amount unit t0 fresh (Some nonce) (Some provider) (Some rid) = Inr payment"
    and nonce: "nonce \<noteq> []" and date: "valid_instant t0" "four_digit_instant t0" "now \<le> whole_seconds t0 + age * second"
    and money: "dec_of_str amount = Inr a" "dec_of_str price = Inr p" "dec_lt a p = Inr False"
  shows "verify_x402_payment P payment price unit now age (Some provider) (Some rid) = Inr True"
    and "x402_nonce payment = Some nonce"
proof -
  define inner where "inner = x402_inner P kp amount unit t0 fresh (Some nonce) (Some provider) (Some rid)"
  have f: "getn inner ''payer_pubkey'' = JStr (public_key_str P kp)" "getn inner ''amount'' = JStr amount"
    "getn inner ''unit'' = JStr unit" "getn inner ''nonce'' = JStr nonce"
    "getn inner ''issued_at'' = JStr (utc_iso t0)" "getn inner ''provider_pubkey'' = JStr provider"
    "getn inner ''request_id'' = JStr rid"
    using nonce by (simp_all add: inner_def x402_inner_def dict_simps) (simp_all add: getn_def)
  obtain signed where signed: "sign_document P inner kp = Inr signed"
    and payment: "payment = [(''scheme'', JStr ''x402''), (''payment'', JObj signed)]"
    using built by (auto simp: build_x402_payment_def inner_def rbind_eq_Inr)
  have get: "k \<noteq> ''signature'' \<Longrightarrow> getn signed k = getn inner k" for k
    using sign_document_fields [OF signed] by (simp add: getn_def)
  have "verify_document P ''payer_pubkey'' signed = Inr True"
    using sign_verify_document [OF laws(1) signed _ f(1)] by simp
  moreover have "x402_age P (utc_iso t0) now = Inr (Some (now - whole_seconds t0))"
    using laws(2) date by (simp add: x402_age_def isoformat_law_def as_utc_def valid_whole_seconds)
  moreover have "getn payment ''scheme'' = JStr ''x402''" "the_obj (getn payment ''payment'') = Some signed"
    by (simp_all add: payment getn_def)
  ultimately show "verify_x402_payment P payment price unit now age (Some provider) (Some rid) = Inr True"
    and "x402_nonce payment = Some nonce"
    using nonce money date
    by (simp_all add: verify_x402_payment_def get f unbound_def amount_covers_def x402_nonce_def)
qed

subsection \<open>Inputs\<close>

definition demo_now :: int where
  "demo_now = 63872064000 * second"

definition demo_issuer :: issuer where
  "demo_issuer = \<lparr>issuer_keypair = demo_key 5, issuer_unit = ''pic''\<rparr>"

definition demo_vouchers :: "dict list" where
  "demo_vouchers = (case issue demo demo_issuer ''1.5'' [''a'', ''b''] 3600 demo_now of Inl e \<Rightarrow> [] | Inr vs \<Rightarrow> vs)"

definition demo_pic :: dict where
  "demo_pic = build_pic_payment (map JObj demo_vouchers)"

definition demo_x402 :: "string \<Rightarrow> int \<Rightarrow> dict" where
  "demo_x402 amount t =
     (case build_x402_payment demo (demo_key 9) amount ''pic'' t [] (Some ''n1'') (Some ''prov'') (Some ''req'') of
        Inl e \<Rightarrow> [] | Inr d \<Rightarrow> d)"

lemma demo_issued: "issue demo demo_issuer ''1.5'' [''a'', ''b''] 3600 demo_now = Inr demo_vouchers"
  by code_simp

lemma demo_schema: "\<forall>v\<in>set demo_vouchers. schema_accepts demo ''voucher'' v"
proof -
  have "list_all (schema_accepts demo ''voucher'') demo_vouchers" by code_simp
  then show ?thesis by (simp add: list_all_iff)
qed

lemma demo_unit: "issuer_unit demo_issuer = ''pic''"
  by (simp add: demo_issuer_def)

lemma demo_voucher_money:
  "dec_of_str ''1.5'' = Inr (DFin False 15 (- 1))"
  "rfold (\<lambda>_ acc. dec_add acc (DFin False 15 (- 1))) [''a'', ''b''] dec_zero = Inr (DFin False 30 (- 1))"
  "dec_of_str ''2'' = Inr (DFin False 2 0)" "dec_lt (DFin False 30 (- 1)) (DFin False 2 0) = Inr False"
  "dec_str (DFin False 30 (- 1)) = ''3.0''"
  by code_simp+

lemma demo_voucher_dates:
  "four_digit_instant (demo_now + 3600 * second)" "demo_now < whole_seconds (demo_now + 3600 * second)"
  by code_simp+

lemma demo_redeemed:
  "redeem_payment demo demo_pic ''2'' ''pic'' [issuer_pubkey demo demo_issuer] demo_now True None None {} =
     Inr (\<lparr>ok = True, scheme = ''pic'', total_amount = ''3.0'', reason = []\<rparr>, {''a'', ''b''})"
  using issued_redeem [OF demo_laws demo_isoformat demo_issued _ _ _ demo_voucher_dates demo_schema demo_voucher_money(1-4), of "{}"]
    demo_voucher_money(5)
  by (simp add: demo_pic_def demo_unit)

lemma demo_replayed:
  "\<exists>r T. redeem_payment demo demo_pic ''1'' ''pic'' [issuer_pubkey demo demo_issuer] (demo_now + 1) True None None
     {''a'', ''b'', ''c''} = Inr (r, T)"
proof -
  have "(case redeem_payment demo demo_pic ''1'' ''pic'' [issuer_pubkey demo demo_issuer] (demo_now + 1) True None None
     {''a'', ''b'', ''c''} of Inl e \<Rightarrow> False | Inr x \<Rightarrow> True)" by code_simp
  then show ?thesis by (auto split: sum.splits)
qed

lemma demo_verified:
  "redeem_payment demo demo_pic ''2'' ''pic'' [issuer_pubkey demo demo_issuer] demo_now False None None {} =
     Inr (\<lparr>ok = True, scheme = ''pic'', total_amount = ''3.0'', reason = []\<rparr>, {})"
  using demo_redeemed by (elim redeem_payment_cases) auto

lemma demo_pic_keys: "spend_keys demo_pic = {''a'', ''b''}"
  using demo_redeemed by (elim redeem_payment_cases) auto

lemma demo_built:
  "build_x402_payment demo (demo_key 9) ''3'' ''pic'' demo_now [] (Some ''n1'') (Some ''prov'') (Some ''req'') =
     Inr (demo_x402 ''3'' demo_now)"
  by code_simp

lemma demo_dates: "valid_instant demo_now" "four_digit_instant demo_now" "whole_seconds demo_now = demo_now"
  by code_simp+

lemma demo_money: "dec_of_str ''3'' = Inr (DFin False 3 0)" "dec_of_str ''2'' = Inr (DFin False 2 0)"
  "dec_lt (DFin False 3 0) (DFin False 2 0) = Inr False"
  by code_simp+

subsection \<open>Properties\<close>

text \<open>C4. Redemption is all or nothing: a refused payment of either scheme leaves the spent set as it was, and
  an accepted one marks exactly its own keys, none of which was marked before, and only when committing.\<close>

theorem redeem_all_or_nothing:
  assumes "redeem_payment P payment price unit issuers now commit pk rid S = Inr (r, S')"
  shows "S' = (if ok r \<and> commit then S \<union> spend_keys payment else S) \<and>
    (ok r \<longrightarrow> spend_keys payment \<noteq> {} \<and> spend_keys payment \<inter> S = {})"
  using assms by (rule redeem_payment_cases) auto

lemma redeem_all_or_nothing_witness:
  "{''a'', ''b''} = (if True \<and> True then {} \<union> spend_keys demo_pic else {})"
  using redeem_all_or_nothing [OF demo_redeemed] by simp

text \<open>C3. No credit is redeemed twice: once a payment has been committed, no payment of either scheme that shares
  a voucher id or nonce with it is accepted again, at whatever price, unit, time and request, as long as
  the marks are kept.\<close>

theorem redeem_never_twice:
  assumes "redeem_payment P p1 price unit issuers now True pk rid S = Inr (r, S')" "ok r"
    and "S' \<subseteq> T"
    and "redeem_payment Q p2 price' unit' issuers' now' commit' pk' rid' T = Inr (r', T')"
    and "spend_keys p1 \<inter> spend_keys p2 \<noteq> {}"
  shows "\<not> ok r' \<and> T' = T"
proof -
  have "spend_keys p1 \<subseteq> T"
    by (rule redeem_payment_cases [OF assms(1)]) (use assms(2,3) in auto)
  note marked = this
  show ?thesis
    by (rule redeem_payment_cases [OF assms(4)]) (use assms(5) marked in auto)
qed

lemma redeem_never_twice_witness:
  "\<exists>r. redeem_payment demo demo_pic ''1'' ''pic'' [issuer_pubkey demo demo_issuer] (demo_now + 1) True None None {''a'', ''b'', ''c''} =
      Inr (r, {''a'', ''b'', ''c''}) \<and> \<not> ok r"
proof -
  obtain r T where run: "redeem_payment demo demo_pic ''1'' ''pic'' [issuer_pubkey demo demo_issuer] (demo_now + 1) True None None
      {''a'', ''b'', ''c''} = Inr (r, T)"
    using demo_replayed by blast
  from redeem_never_twice [OF demo_redeemed _ _ run] run show ?thesis by (auto simp: demo_pic_keys)
qed

text \<open>C5. Charging on success is sound: a payment that verifies with \<^verbatim>\<open>commit=False\<close> is accepted when it is
  committed against the same spent set, with the same answer.\<close>

theorem verify_then_commit:
  assumes "redeem_payment P payment price unit issuers now False pk rid S = Inr (r, S')" "ok r"
  shows "S' = S \<and>
    redeem_payment P payment price unit issuers now True pk rid S = Inr (r, S \<union> spend_keys payment)"
  using assms by (elim redeem_payment_cases) auto

lemma verify_then_commit_witness:
  "redeem_payment demo demo_pic ''2'' ''pic'' [issuer_pubkey demo demo_issuer] demo_now True None None {} =
     Inr (\<lparr>ok = True, scheme = ''pic'', total_amount = ''3.0'', reason = []\<rparr>, {} \<union> spend_keys demo_pic)"
  using verify_then_commit [OF demo_verified] by simp

text \<open>C6. What an accepted voucher payment proves: a non-empty list of vouchers with ids of their own, each with
  a good issuer signature of a trusted issuer, in the unit, unexpired and unspent, whose denominations
  add up to at least the price.\<close>

theorem redeem_pic_sound:
  assumes "redeem_payment P payment price unit issuers now commit pk rid S = Inr (r, S')" "ok r"
    and "getn payment ''scheme'' = JStr ''pic''"
  shows "\<exists>vs t. pic_accepted P payment price unit issuers now S vs t \<and> total_amount r = dec_str t"
proof -
  have "redeem_pic P payment price unit issuers now commit S = Inr (r, S')"
    using assms(1,3) by (simp add: redeem_payment_def)
  from redeem_pic_cases [OF this] assms(2) show ?thesis by (metis redeem_result.select_convs(3))
qed

lemma redeem_pic_sound_witness:
  "\<exists>vs t. pic_accepted demo demo_pic ''2'' ''pic'' [issuer_pubkey demo demo_issuer] demo_now {} vs t \<and> ''3.0'' = dec_str t"
proof -
  have "getn demo_pic ''scheme'' = JStr ''pic''" by (simp add: demo_pic_def build_pic_payment_def getn_def)
  from redeem_pic_sound [OF demo_redeemed _ this] show ?thesis by simp
qed

text \<open>C10. What the issuer mints, the provider redeems: fresh vouchers of one issue with distinct unspent ids,
  accepted by the schema, pay any price they cover until the second they expire.\<close>

theorem issued_vouchers_redeem:
  assumes "ed25519_laws P" "isoformat_law P"
    and "issue P i den ids ttl t0 = Inr vs" "ids \<noteq> []" "distinct ids" "set ids \<inter> S = {}"
    and "four_digit_instant (t0 + ttl * second)" "now < whole_seconds (t0 + ttl * second)"
    and "\<forall>v\<in>set vs. schema_accepts P ''voucher'' v"
    and "dec_of_str den = Inr d" "rfold (\<lambda>_ acc. dec_add acc d) ids dec_zero = Inr t"
    and "dec_of_str price = Inr p" "dec_lt t p = Inr False"
  shows "redeem_payment P (build_pic_payment (map JObj vs)) price (issuer_unit i) [issuer_pubkey P i] now True pk rid S =
    Inr (\<lparr>ok = True, scheme = ''pic'', total_amount = dec_str t, reason = []\<rparr>, S \<union> set ids)"
  using assms by (rule issued_redeem)

lemma issued_vouchers_redeem_witness:
  "redeem_payment demo demo_pic ''2'' ''pic'' [issuer_pubkey demo demo_issuer] demo_now True (Some ''prov'') None {''z''} =
     Inr (\<lparr>ok = True, scheme = ''pic'', total_amount = ''3.0'', reason = []\<rparr>, {''z''} \<union> set [''a'', ''b''])"
  using issued_vouchers_redeem [OF demo_laws demo_isoformat demo_issued _ _ _ demo_voucher_dates demo_schema demo_voucher_money(1-4),
      of "{''z''}" "Some ''prov''" None] demo_voucher_money(5)
  by (simp add: demo_pic_def demo_unit)

text \<open>A built x402 payment verifies for the provider and the request it is bound to, for any price it covers,
  until its age passes the limit.\<close>

theorem x402_build_verify:
  assumes "ed25519_laws P" "isoformat_law P"
    and "build_x402_payment P kp amount unit t0 fresh (Some nonce) (Some provider) (Some rid) = Inr payment"
    and "nonce \<noteq> []" "valid_instant t0" "four_digit_instant t0" "now \<le> whole_seconds t0 + age * second"
    and "dec_of_str amount = Inr a" "dec_of_str price = Inr p" "dec_lt a p = Inr False"
  shows "verify_x402_payment P payment price unit now age (Some provider) (Some rid) = Inr True"
  using assms by (rule built_x402_verifies)

lemma x402_build_verify_witness:
  "verify_x402_payment demo (demo_x402 ''3'' demo_now) ''2'' ''pic'' (demo_now + 60 * second) 300 (Some ''prov'') (Some ''req'') =
     Inr True"
  by (rule x402_build_verify [OF demo_laws demo_isoformat demo_built _ demo_dates(1,2) _ demo_money])
    (simp_all add: demo_dates second_def)

text \<open>What an accepted x402 payment proves: a good payer signature over a payment in the unit, bound to this
  provider and this request, whose amount is not less than the price.\<close>

theorem x402_verified:
  assumes "verify_x402_payment P payment price unit now age (Some provider) (Some rid) = Inr True"
  shows "\<exists>inner a p. getn payment ''payment'' = JObj inner \<and>
    verify_document P ''payer_pubkey'' inner = Inr True \<and> getn inner ''unit'' = JStr unit \<and>
    getn inner ''provider_pubkey'' = JStr provider \<and> getn inner ''request_id'' = JStr rid \<and>
    dec_of_str (py_str (getn inner ''amount'')) = Inr a \<and> dec_of_str price = Inr p \<and> dec_lt a p = Inr False"
proof -
  obtain inner where inner: "getn payment ''payment'' = JObj inner"
    using assms by (auto simp: verify_x402_payment_def split: if_splits option.splits)
  have "unbound (Some provider) ''provider_pubkey'' inner = False" "unbound (Some rid) ''request_id'' inner = False"
    "getn inner ''unit'' = JStr unit"
    using assms inner by (auto simp: verify_x402_payment_def split: if_splits)
  moreover have "amount_covers (getn inner ''amount'') price = Inr True"
    "verify_document P ''payer_pubkey'' inner = Inr True"
    using assms inner by (auto simp: verify_x402_payment_def rbind_eq_Inr split: if_splits)
  moreover from this(1) have "\<exists>a p. dec_of_str (py_str (getn inner ''amount'')) = Inr a \<and> dec_of_str price = Inr p \<and>
      dec_lt a p = Inr False"
    by (auto simp: amount_covers_def rbind_eq_Inr split: sum.splits exn.splits)
  ultimately show ?thesis using inner by (auto simp: unbound_def)
qed

lemma x402_verified_witness:
  "\<exists>inner. getn (demo_x402 ''3'' demo_now) ''payment'' = JObj inner \<and> getn inner ''request_id'' = JStr ''req''"
  using x402_verified [OF built_x402_verifies(1) [OF demo_laws demo_isoformat demo_built _ demo_dates(1,2) _ demo_money]]
  by (fastforce simp: demo_dates second_def)

text \<open>The age limit bounds the past only: a payment dated however far in the future is accepted as fresh.\<close>

theorem x402_future_dated:
  assumes "ed25519_laws P" "isoformat_law P"
    and "build_x402_payment P kp amount unit t0 fresh (Some nonce) (Some provider) (Some rid) = Inr payment"
    and "nonce \<noteq> []" "valid_instant t0" "four_digit_instant t0" "now \<le> whole_seconds t0"
    and "dec_of_str amount = Inr a" "dec_of_str price = Inr p" "dec_lt a p = Inr False"
  shows "verify_x402_payment P payment price unit now 300 (Some provider) (Some rid) = Inr True"
  by (rule built_x402_verifies(1) [OF assms(1-6) _ assms(8-10)]) (use assms(7) in \<open>simp add: second_def\<close>)

lemma x402_future_dated_witness:
  "verify_x402_payment demo (demo_x402 ''3'' demo_now) ''2'' ''pic'' (demo_now - 86400 * second) 300 (Some ''prov'') (Some ''req'') =
     Inr True"
  by (rule x402_future_dated [OF demo_laws demo_isoformat demo_built _ demo_dates(1,2) _ demo_money])
    (simp_all add: demo_dates second_def)

end
