(* ===== verification/Rsa.thy ===== *)
theory Rsa
  imports Prelude
begin

text \<open>
  Arithmetic behind \<^verbatim>\<open>blind.py\<close>: Python's three-argument \<^verbatim>\<open>pow\<close> by repeated squaring, its modular
  inverse by the extended Euclidean algorithm, and the RSA identity from Fermat's little theorem.
\<close>

subsection \<open>pow\<close>

function pow_mod :: "int \<Rightarrow> int \<Rightarrow> int \<Rightarrow> int" where
  "pow_mod b k n =
     (if k \<le> 0 then 1 mod n
      else if k mod 2 = 0 then pow_mod (b * b mod n) (k div 2) n
      else b * pow_mod (b * b mod n) (k div 2) n mod n)"
  by pat_completeness auto
termination by (relation "measure (\<lambda>(b, k, n). nat k)") auto

declare pow_mod.simps [simp del]

lemma pow_mod_power: "0 \<le> k \<Longrightarrow> pow_mod b k n = b ^ nat k mod n"
proof (induction b k n rule: pow_mod.induct)
  case (1 b k n)
  show ?case
  proof (cases "k = 0")
    case False
    then have k: "0 < k" using "1.prems" by simp
    define j where "j = nat (k div 2)"
    have half: "pow_mod (b * b mod n) (k div 2) n = (b ^ 2) ^ j mod n"
      using "1.IH" k by (cases "k mod 2 = 0") (auto simp: j_def power_mod power2_eq_square)
    have "nat k = 2 * j + nat (k mod 2)"
      using k unfolding j_def by (metis mult_div_mod_eq nat_add_distrib nat_mult_distrib nat_numeral
          pos_imp_zdiv_nonneg_iff order_less_imp_le pos_mod_sign zero_le_mult_iff zero_less_numeral zero_le_numeral)
    moreover have "k mod 2 = 0 \<or> k mod 2 = 1" by presburger
    ultimately have "nat k = 2 * j \<and> k mod 2 = 0 \<or> nat k = Suc (2 * j) \<and> k mod 2 = 1" by auto
    then show ?thesis
      using k half by (subst pow_mod.simps) (auto simp: power_mult mod_mult_right_eq)
  qed (simp add: pow_mod.simps)
qed

subsection \<open>The inverse\<close>

text \<open>\<^verbatim>\<open>pow(r, -1, n)\<close>; \<open>egcd r n\<close> is the pair of the divisor and the factor of \<open>r\<close>.\<close>

function egcd :: "int \<Rightarrow> int \<Rightarrow> int \<Rightarrow> int \<Rightarrow> int \<times> int" where
  "egcd a x b y = (if b \<le> 0 then (a, x) else egcd b y (a mod b) (x - a div b * y))"
  by pat_completeness auto
termination by (relation "measure (\<lambda>(a, x, b, y). nat b)") auto

declare egcd.simps [simp del]

definition mod_inverse :: "int \<Rightarrow> int \<Rightarrow> int res" where
  "mod_inverse r n = (case egcd (r mod n) 1 n 0 of (g, x) \<Rightarrow> if g = 1 then Inr (x mod n) else Inl ValueError)"

lemma egcd_correct:
  "0 \<le> a \<Longrightarrow> 0 \<le> b \<Longrightarrow> n dvd x * r - a \<Longrightarrow> n dvd y * r - b \<Longrightarrow>
     fst (egcd a x b y) = gcd a b \<and> n dvd snd (egcd a x b y) * r - fst (egcd a x b y)"
proof (induction a x b y rule: egcd.induct)
  case (1 a x b y)
  show ?case
  proof (cases "b \<le> 0")
    case True
    with "1.prems" show ?thesis by (simp add: egcd.simps)
  next
    case False
    have "n dvd (x * r - a) - a div b * (y * r - b)"
      by (rule dvd_diff [OF "1.prems"(3) dvd_mult [OF "1.prems"(4)]])
    also have "(x * r - a) - a div b * (y * r - b) = (x - a div b * y) * r - a mod b"
      by (simp add: algebra_simps minus_mult_div_eq_mod [symmetric])
    finally have d: "n dvd (x - a div b * y) * r - a mod b" .
    have step: "egcd a x b y = egcd b y (a mod b) (x - a div b * y)"
      using False by (simp add: egcd.simps [of a x b y])
    have "gcd b (a mod b) = gcd a b" by (metis gcd.commute gcd_red_int)
    then show ?thesis
      using "1.IH" [OF False _ _ "1.prems"(4) d] "1.prems" False by (simp only: step) (metis pos_mod_sign not_le)
  qed
qed

lemma mod_inverse_ok:
  assumes "1 < n" "coprime r n"
  shows "\<exists>x. mod_inverse r n = Inr x \<and> x * r mod n = 1"
proof -
  have "n dvd 1 * r - r mod n" by (simp add: minus_mod_eq_mult_div)
  then have e: "fst (egcd (r mod n) 1 n 0) = gcd (r mod n) n"
    "n dvd snd (egcd (r mod n) 1 n 0) * r - fst (egcd (r mod n) 1 n 0)"
    using egcd_correct [of "r mod n" n n 1 r 0] assms(1) by auto
  have "gcd (r mod n) n = 1" using assms(2) by (metis coprime_iff_gcd_eq_1 gcd.commute gcd_red_int)
  with e have "mod_inverse r n = Inr (snd (egcd (r mod n) 1 n 0) mod n)"
    "n dvd snd (egcd (r mod n) 1 n 0) * r - 1"
    by (auto simp: mod_inverse_def split: prod.split)
  moreover from this(2) have "snd (egcd (r mod n) 1 n 0) mod n * r mod n = 1"
    using assms(1) by (metis mod_mult_left_eq mod_eq_dvd_iff mod_pos_pos_trivial zero_le_one)
  ultimately show ?thesis by blast
qed

subsection \<open>The RSA identity\<close>

definition prime_number :: "nat \<Rightarrow> bool" where
  "prime_number p \<longleftrightarrow> 1 < p \<and> (\<forall>k\<in>{2..<p}. \<not> k dvd p)"

lemma prime_coprime:
  assumes "prime_number p" "\<not> p dvd a"
  shows "coprime p a"
proof (rule coprimeI)
  fix k assume k: "k dvd p" "k dvd a"
  then have "k \<le> p" "k \<noteq> 0" using assms(1) by (auto simp: prime_number_def dest: dvd_imp_le intro!: Nat.gr0I)
  moreover have "k \<noteq> p" using k(2) assms(2) by auto
  moreover have "k \<notin> {2..<p}" using assms(1) k(1) by (auto simp: prime_number_def)
  ultimately have "k = 1" by auto
  then show "is_unit k" by simp
qed

lemma prime_dvd_choose:
  assumes "prime_number p" "0 < k" "k < p"
  shows "p dvd (p choose k)"
proof -
  have "k * (p choose k) = p * ((p - 1) choose (k - 1))"
    using assms(2) by (simp add: times_binomial_minus1_eq)
  then have "p dvd k * (p choose k)" by simp
  moreover have "coprime p k"
    using assms by (intro prime_coprime) (auto dest: dvd_imp_le)
  ultimately show ?thesis by (simp add: coprime_dvd_mult_right_iff)
qed

lemma fermat:
  assumes "prime_number p"
  shows "(a :: nat) ^ p mod p = a mod p"
proof (induction a)
  case 0
  then show ?case using assms by (simp add: prime_number_def power_0_left)
next
  case (Suc a)
  have p: "0 < p" using assms by (simp add: prime_number_def)
  have "(a + 1) ^ p = (\<Sum>k\<le>p. (p choose k) * a ^ k)"
    using binomial_ring [of a 1 p] by simp
  also have "{..p} = insert 0 (insert p {0<..<p})" using p by auto
  also have "(\<Sum>k\<in>insert 0 (insert p {0<..<p}). (p choose k) * a ^ k) =
      1 + (a ^ p + (\<Sum>k\<in>{0<..<p}. (p choose k) * a ^ k))"
    using p by simp
  finally have e: "Suc a ^ p = (\<Sum>k\<in>{0<..<p}. (p choose k) * a ^ k) + (a ^ p + 1)" by simp
  have "p dvd (\<Sum>k\<in>{0<..<p}. (p choose k) * a ^ k)"
    by (intro dvd_sum dvd_mult2 prime_dvd_choose [OF assms]) auto
  then have "Suc a ^ p mod p = (a ^ p + 1) mod p" unfolding e by auto
  also have "\<dots> = (a mod p + 1) mod p" using Suc by (metis mod_add_left_eq)
  also have "\<dots> = Suc a mod p" by (simp add: mod_Suc_eq)
  finally show ?case .
qed

lemma fermat_minus1:
  assumes "prime_number p" "\<not> p dvd a"
  shows "a ^ (p - 1) mod p = 1"
proof -
  have p: "1 < p" using assms by (simp add: prime_number_def)
  have "int p dvd int (a ^ p) - int a"
    using fermat [OF assms(1), of a] by (metis mod_eq_dvd_iff of_nat_mod)
  also have "a ^ p = a * a ^ (p - 1)" using p by (cases p) simp_all
  finally have "int p dvd int a * (int (a ^ (p - 1)) - 1)" by (simp add: algebra_simps)
  moreover have "coprime (int p) (int a)" using prime_coprime [OF assms] by simp
  ultimately have "int p dvd int (a ^ (p - 1)) - 1" by (simp add: coprime_dvd_mult_right_iff)
  then have "int (a ^ (p - 1)) mod int p = 1 mod int p" by (simp only: mod_eq_dvd_iff)
  then show ?thesis using p by (metis mod_less of_nat_1 of_nat_eq_iff of_nat_mod)
qed

lemma power_exponent:
  assumes "prime_number p" "(p - 1) dvd k"
  shows "(a :: nat) ^ (k + 1) mod p = a mod p"
proof (cases "p dvd a")
  case True
  then show ?thesis by (simp add: mod_eq_0_iff_dvd)
next
  case False
  obtain t where "k = (p - 1) * t" using assms(2) by auto
  then have "a ^ k mod p = 1"
    using fermat_minus1 [OF assms(1) False] assms(1)
    by (metis mod_less power_mod power_mult power_one prime_number_def)
  then show ?thesis by (metis mod_mult_right_eq mult.right_neutral power_add power_one_right mult.commute)
qed

text \<open>An RSA key: two different primes, and \<open>e d\<close> is 1 modulo \<open>p - 1\<close> and \<open>q - 1\<close>.\<close>

definition rsa_key :: "int \<Rightarrow> int \<Rightarrow> int \<Rightarrow> nat \<Rightarrow> nat \<Rightarrow> bool" where
  "rsa_key n e d p q \<longleftrightarrow> prime_number p \<and> prime_number q \<and> p \<noteq> q \<and> n = int p * int q \<and>
     1 \<le> e \<and> 1 \<le> d \<and> (p - 1) dvd nat (e * d) - 1 \<and> (q - 1) dvd nat (e * d) - 1"

theorem rsa_identity:
  assumes "rsa_key n e d p q" "0 \<le> m"
  shows "m ^ nat (e * d) mod n = m mod n"
proof -
  define a where "a = nat m"
  have m: "m = int a" using assms(2) by (simp add: a_def)
  define k where "k = nat (e * d) - 1"
  have "1 \<le> e * d" using assms(1) mult_mono [of 1 e 1 d] by (simp add: rsa_key_def)
  then have k: "nat (e * d) = k + 1" by (simp add: k_def)
  have "a ^ (k + 1) mod p = a mod p" "a ^ (k + 1) mod q = a mod q"
    using assms(1) by (intro power_exponent; simp add: rsa_key_def k_def)+
  then have "int p dvd int a ^ (k + 1) - int a" "int q dvd int a ^ (k + 1) - int a"
    by (metis mod_eq_dvd_iff of_nat_mod of_nat_power)+
  moreover have "coprime (int p) (int q)"
  proof -
    have "\<not> p dvd q"
    proof
      assume "p dvd q"
      moreover have "p \<in> {2..<q} \<or> p = q \<or> \<not> p \<le> q" using assms(1) by (auto simp: rsa_key_def prime_number_def)
      ultimately show False using assms(1) by (auto simp: rsa_key_def prime_number_def dest: dvd_imp_le)
    qed
    then show ?thesis using assms(1) by (auto simp: rsa_key_def intro: prime_coprime)
  qed
  ultimately have "int p * int q dvd int a ^ (k + 1) - int a" by (rule divides_mult)
  then show ?thesis using assms(1) by (simp add: m k rsa_key_def mod_eq_dvd_iff del: power_add)
qed

end
