(* ===== verification/Blind.thy ===== *)
theory Blind
  imports Redeem Rsa
begin

text \<open>
  \<^verbatim>\<open>blind.py\<close> of \<^verbatim>\<open>pic-vouchers\<close>: issuer-unlinkable credits by RSA blind signatures. SHA-256 is the
  platform's; the random source is a function of the call's index and size; texts are shorter than
  \<open>2 ^ 32\<close> bytes and RSA parameters positive, so that the code's \<^verbatim>\<open>to_bytes\<close> never overflow.
\<close>

subsection \<open>Encodings\<close>

definition issuer_prefix :: string where
  "issuer_prefix = ''rsa-blind:''"

fun be_bytes :: "nat \<Rightarrow> int \<Rightarrow> bytes" where
  "be_bytes 0 v = []"
| "be_bytes (Suc k) v = be_bytes k (v div 256) @ [v mod 256]"

definition int_of_bytes :: "bytes \<Rightarrow> int" where
  "int_of_bytes bs = foldl (\<lambda>a b. a * 256 + b) 0 bs"

definition bit_length :: "int \<Rightarrow> int" where
  "bit_length v = int (nbits v)"

definition int_to_b64u :: "int \<Rightarrow> string" where
  "int_to_b64u v = b64u_encode (be_bytes (nat (max 1 ((bit_length v + 7) div 8))) v)"

definition b64u_to_int :: "string \<Rightarrow> int res" where
  "b64u_to_int s = rbind (b64u_decode s) (\<lambda>bs. Inr (int_of_bytes bs))"

text \<open>\<^verbatim>\<open>int(text)\<close>.\<close>

definition int_of_str :: "string \<Rightarrow> int res" where
  "int_of_str s = (case parse_sign (py_strip s) of (neg, body) \<Rightarrow>
     let ds = without_underscores body in
     if ds = [] \<or> \<not> list_all is_digit ds \<or> \<not> underscores_ok False body \<or> 4300 < length ds then Inl ValueError
     else Inr (if neg then - nat_of_digits ds else nat_of_digits ds))"

subsection \<open>Keys and the issuer\<close>

record blind_key =
  key_n :: int
  key_e :: int

record blind_issuer =
  iss_n :: int
  iss_e :: int
  iss_d :: int

definition key_bytes :: "blind_key \<Rightarrow> int" where
  "key_bytes k = (bit_length (key_n k) - 1) div 8"

definition pubkey_str :: "blind_key \<Rightarrow> string" where
  "pubkey_str k = issuer_prefix @ int_to_b64u (key_n k) @ CHR ''.'' # str_of_int (key_e k)"

definition key_from_str :: "string \<Rightarrow> blind_key res" where
  "key_from_str s =
     (if \<not> startswith s issuer_prefix then Inl ValueError
      else case partition_char CHR ''.'' (drop (length issuer_prefix) s) of (n_b64, _, e_str) \<Rightarrow>
        rbind (b64u_to_int n_b64) (\<lambda>n. rbind (int_of_str e_str) (\<lambda>e.
          if n < 3 \<or> e < 2 then Inl ValueError else Inr \<lparr>key_n = n, key_e = e\<rparr>)))"

definition issuer_public :: "blind_issuer \<Rightarrow> blind_key" where
  "issuer_public i = \<lparr>key_n = iss_n i, key_e = iss_e i\<rparr>"

definition sign_blinded :: "blind_issuer \<Rightarrow> int \<Rightarrow> int res" where
  "sign_blinded i blinded =
     (if \<not> (0 < blinded \<and> blinded < iss_n i) then Inl ValueError
      else Inr (pow_mod blinded (iss_d i) (iss_n i)))"

subsection \<open>The full-domain hash\<close>

text \<open>The 32 bytes of a SHA-256 digest.\<close>

definition digest32 :: "platform \<Rightarrow> bytes \<Rightarrow> bytes" where
  "digest32 P m = take 32 (sha256 P m @ replicate 32 0)"

lemma length_digest32 [simp]: "length (digest32 P m) = 32"
  by (simp add: digest32_def)

function mgf1_loop :: "platform \<Rightarrow> bytes \<Rightarrow> int \<Rightarrow> bytes \<Rightarrow> int \<Rightarrow> bytes" where
  "mgf1_loop P seed counter out len =
     (if len \<le> int (length out) then take (nat len) out
      else mgf1_loop P seed (counter + 1) (out @ digest32 P (seed @ be_bytes 4 counter)) len)"
  by pat_completeness auto
termination by (relation "measure (\<lambda>(P, seed, counter, out, len). nat (len - int (length out)))") auto

declare mgf1_loop.simps [simp del]

definition mgf1 :: "platform \<Rightarrow> bytes \<Rightarrow> int \<Rightarrow> bytes" where
  "mgf1 P seed len = mgf1_loop P seed 0 [] len"

definition denomination_bytes :: "string \<Rightarrow> string \<Rightarrow> bytes" where
  "denomination_bytes amount unit = (let a = utf8 amount; u = utf8 unit in
     be_bytes 4 (int (length a)) @ a @ be_bytes 4 (int (length u)) @ u)"

definition fdh :: "platform \<Rightarrow> bytes \<Rightarrow> string \<Rightarrow> string \<Rightarrow> blind_key \<Rightarrow> int" where
  "fdh P token amount unit k =
     (let preimage = utf8 ''sip-blind-fdh-v2:'' @ token @ denomination_bytes amount unit
      in int_of_bytes (mgf1 P preimage (key_bytes k)) mod key_n k)"

subsection \<open>Blinding\<close>

type_synonym rng = "nat \<Rightarrow> int \<Rightarrow> bytes"

partial_function (option) random_unit :: "int \<Rightarrow> rng \<Rightarrow> nat \<Rightarrow> (int \<times> nat) option" where
  "random_unit n rng i =
     (let r = int_of_bytes (rng i ((bit_length n + 7) div 8)) mod n in
      if 1 < r \<and> gcd r n = 1 then Some (r, Suc i) else random_unit n rng (Suc i))"

declare random_unit.simps [code]

definition blind ::
  "platform \<Rightarrow> bytes \<Rightarrow> string \<Rightarrow> string \<Rightarrow> blind_key \<Rightarrow> rng \<Rightarrow> nat \<Rightarrow> (int \<times> int) option" where
  "blind P token amount unit k rng i =
     (let m = fdh P token amount unit k in
      case random_unit (key_n k) rng i of None \<Rightarrow> None
      | Some (r, _) \<Rightarrow> Some (m * pow_mod r (key_e k) (key_n k) mod key_n k, r))"

definition unblind :: "int \<Rightarrow> int \<Rightarrow> blind_key \<Rightarrow> int res" where
  "unblind blinded_sig r k =
     rbind (mod_inverse r (key_n k)) (\<lambda>r_inv. Inr (blinded_sig * r_inv mod key_n k))"

definition verify_blind_token :: "platform \<Rightarrow> bytes \<Rightarrow> string \<Rightarrow> string \<Rightarrow> int \<Rightarrow> blind_key \<Rightarrow> bool" where
  "verify_blind_token P token amount unit sg k =
     (pow_mod sg (key_e k) (key_n k) = fdh P token amount unit k)"

subsection \<open>The credit flow\<close>

record credit_request =
  req_blinded :: int
  req_unit :: string
  req_amount :: string
  req_issuer :: string

record blinding_secret =
  sec_token :: bytes
  sec_r :: int
  sec_unit :: string
  sec_amount :: string
  sec_key :: blind_key

record blind_credit =
  cr_unit :: string
  cr_amount :: string
  cr_issuer :: string
  cr_token :: string
  cr_signature :: string

definition blind_credit_request ::
  "platform \<Rightarrow> blind_key \<Rightarrow> string \<Rightarrow> string \<Rightarrow> rng \<Rightarrow> (credit_request \<times> blinding_secret) option" where
  "blind_credit_request P k unit amount rng =
     (let token = rng 0 32 in
      case blind P token amount unit k rng 1 of None \<Rightarrow> None
      | Some (blinded, r) \<Rightarrow> Some
          (\<lparr>req_blinded = blinded, req_unit = unit, req_amount = amount, req_issuer = pubkey_str k\<rparr>,
           \<lparr>sec_token = token, sec_r = r, sec_unit = unit, sec_amount = amount, sec_key = k\<rparr>))"

definition finalize_blind_credit :: "int \<Rightarrow> blinding_secret \<Rightarrow> blind_credit res" where
  "finalize_blind_credit blinded_sig secret =
     rbind (unblind blinded_sig (sec_r secret) (sec_key secret)) (\<lambda>sg.
       Inr \<lparr>cr_unit = sec_unit secret, cr_amount = sec_amount secret, cr_issuer = pubkey_str (sec_key secret),
         cr_token = b64u_encode (sec_token secret), cr_signature = int_to_b64u sg\<rparr>)"

text \<open>The \<^verbatim>\<open>try\<close> catches \<^verbatim>\<open>ValueError\<close> and \<^verbatim>\<open>TypeError\<close>; nothing else is raised inside it.\<close>

definition verify_blind_credit :: "platform \<Rightarrow> blind_credit \<Rightarrow> bool" where
  "verify_blind_credit P credit =
     (case rbind (key_from_str (cr_issuer credit)) (\<lambda>k. rbind (b64u_decode (cr_token credit)) (\<lambda>token.
             rbind (b64u_to_int (cr_signature credit)) (\<lambda>sg. Inr (k, token, sg)))) of
        Inl e \<Rightarrow> False
      | Inr (k, token, sg) \<Rightarrow> verify_blind_token P token (cr_amount credit) (cr_unit credit) sg k)"

definition blind_spend_key :: "blind_credit \<Rightarrow> string" where
  "blind_spend_key credit = ''blind:'' @ cr_issuer credit @ CHR '':'' # cr_token credit"

text \<open>The result of the final \<^verbatim>\<open>spend\<close> is not looked at.\<close>

definition redeem_blind_credit ::
  "platform \<Rightarrow> blind_credit \<Rightarrow> string \<Rightarrow> string \<Rightarrow> string list \<Rightarrow> spent_set \<Rightarrow> redeem_result \<times> spent_set" where
  "redeem_blind_credit P credit price unit issuer_keys S =
     (if cr_issuer credit \<notin> set issuer_keys then (rejected ''blind'' ''unknown_issuer'', S)
      else if \<not> verify_blind_credit P credit then (rejected ''blind'' ''bad_signature'', S)
      else if cr_unit credit \<noteq> unit \<or> cr_amount credit \<noteq> price then (rejected ''blind'' ''amount_mismatch'', S)
      else if is_spent (blind_spend_key credit) S then (rejected ''blind'' ''double_spend'', S)
      else (\<lparr>ok = True, scheme = ''blind'', total_amount = cr_amount credit, reason = []\<rparr>,
            snd (spend (blind_spend_key credit) S)))"

subsection \<open>Round trips of the encodings\<close>

lemma int_of_bytes_snoc [simp]: "int_of_bytes (bs @ [b]) = int_of_bytes bs * 256 + b"
  by (simp add: int_of_bytes_def)

lemma int_of_be_bytes: "0 \<le> v \<Longrightarrow> v < 256 ^ k \<Longrightarrow> int_of_bytes (be_bytes k v) = v"
proof (induction k arbitrary: v)
  case 0
  then show ?case by (simp add: int_of_bytes_def)
next
  case (Suc k)
  then have "v div 256 < 256 ^ k" by (simp add: div_less_iff_less_mult)
  with Suc show ?case by (simp add: div_mult_mod_eq)
qed

lemma length_be_bytes [simp]: "length (be_bytes k v) = k"
  by (induction k arbitrary: v) auto

lemma is_bytes_be_bytes [simp]: "is_bytes (be_bytes k v)"
  by (induction k arbitrary: v) auto

lemma b64u_int_roundtrip:
  assumes "0 \<le> v"
  shows "b64u_to_int (int_to_b64u v) = Inr v"
proof -
  define k where "k = nat (max 1 ((bit_length v + 7) div 8))"
  have "nbits v \<le> 8 * k" by (simp add: k_def bit_length_def)
  then have "(2::int) ^ nbits v \<le> 256 ^ k"
    using power_increasing [of "nbits v" "8 * k" "2::int"] by (simp add: power_mult)
  then have "v < 256 ^ k" using nbits_upper [of v] by linarith
  with assms show ?thesis
    by (simp add: b64u_to_int_def int_to_b64u_def b64u_roundtrip int_of_be_bytes flip: k_def)
qed

lemma b64_char_not_dot: "0 \<le> n \<Longrightarrow> n < 64 \<Longrightarrow> b64_char n \<noteq> CHR ''.''"
proof
  assume n: "0 \<le> n" "n < 64" and "b64_char n = CHR ''.''"
  then have "(of_char (b64_char n) :: int) = 46" by simp
  with n b64_char_code [OF n] show False by (auto split: if_splits)
qed

lemma set_rstrip: "set (rstrip_char c s) \<subseteq> set s"
  using set_dropWhileD [of _ _ "rev s"] by (auto simp: rstrip_char_def)

lemma b64u_no_dot:
  assumes "is_bytes bs"
  shows "CHR ''.'' \<notin> set (b64u_encode bs)"
proof -
  obtain ns k where "sextets bs ns k" using sextets_exist [OF assms] by blast
  then have "CHR ''.'' \<notin> set (b64_encode bs)"
    by (auto simp: sextets_def list_all_iff) (metis b64_char_not_dot)
  then show ?thesis using set_rstrip by (auto simp: b64u_encode_def)
qed

lemma digits_plain:
  assumes "list_all is_digit s" "s \<noteq> []"
  shows "py_strip s = s" "without_underscores s = s" "underscores_ok p s" "parse_sign s = (False, s)"
proof -
  have d: "is_digit c \<Longrightarrow> \<not> is_space c \<and> c \<noteq> CHR ''_'' \<and> c \<noteq> CHR ''-'' \<and> c \<noteq> CHR ''+''" for c
    by (auto simp: is_digit_def is_space_def Let_def)
  obtain c r where s: "s = c # r" using assms(2) by (cases s) auto
  have "dropWhile is_space xs = xs" if "list_all is_digit xs" for xs
    using that d by (cases xs) auto
  moreover have "list_all is_digit (rev s)" using assms(1) by (simp add: list_all_iff)
  ultimately show "py_strip s = s" using assms(1) by (simp add: py_strip_def)
  show "without_underscores s = s"
    using assms(1) d by (auto simp: without_underscores_def list_all_iff filter_id_conv)
  show "underscores_ok p s" using assms(1) d by (induction s arbitrary: p) auto
  show "parse_sign s = (False, s)" using assms(1) d [of c] by (auto simp: parse_sign_def s)
qed

lemma int_of_str_of_nat: "0 \<le> n \<Longrightarrow> length (str_of_nat n) \<le> 4300 \<Longrightarrow> int_of_str (str_of_nat n) = Inr n"
  using digits_plain [OF str_of_nat_digits str_of_nat_nonempty, of n] str_of_nat_digits [of n]
  by (simp add: int_of_str_def)

lemma key_roundtrip:
  assumes "3 \<le> key_n k" "2 \<le> key_e k" "length (str_of_nat (key_e k)) \<le> 4300"
  shows "key_from_str (pubkey_str k) = Inr k"
proof -
  have "CHR ''.'' \<notin> set (int_to_b64u (key_n k))" by (simp add: int_to_b64u_def b64u_no_dot)
  then have p: "partition_char CHR ''.'' (int_to_b64u (key_n k) @ CHR ''.'' # str_of_int (key_e k)) =
      (int_to_b64u (key_n k), True, str_of_int (key_e k))"
    by (rule partition_char_found)
  have "int_of_str (str_of_int (key_e k)) = Inr (key_e k)"
    using assms int_of_str_of_nat by (simp add: str_of_int_def)
  with p assms show ?thesis
    by (simp add: key_from_str_def pubkey_str_def b64u_int_roundtrip)
qed

lemma denomination_bytes_inj:
  assumes "denomination_bytes a u = denomination_bytes a' u'"
    and "length (utf8 a) < 2 ^ 32" "length (utf8 a') < 2 ^ 32"
  shows "a = a' \<and> u = u'"
proof -
  have h: "be_bytes 4 (int (length (utf8 a))) = be_bytes 4 (int (length (utf8 a')))"
    "utf8 a @ be_bytes 4 (int (length (utf8 u))) @ utf8 u = utf8 a' @ be_bytes 4 (int (length (utf8 u'))) @ utf8 u'"
    using assms(1) by (simp_all add: denomination_bytes_def Let_def append_eq_append_conv)
  have "int_of_bytes (be_bytes 4 (int (length (utf8 x)))) = int (length (utf8 x))" if "length (utf8 x) < 2 ^ 32" for x
    using that by (intro int_of_be_bytes) auto
  with assms(2,3) h(1) have "length (utf8 a) = length (utf8 a')" by (metis of_nat_eq_iff)
  with h(2) have "utf8 a = utf8 a'" "utf8 u = utf8 u'" by (simp_all add: append_eq_append_conv)
  then show ?thesis by (auto dest: utf8_inj)
qed

subsection \<open>Blinding is correct and hides the message\<close>

lemma fdh_range: "0 < key_n k \<Longrightarrow> 0 \<le> fdh P t a u k \<and> fdh P t a u k < key_n k"
  by (simp add: fdh_def Let_def)

lemma random_unit_unit:
  assumes "random_unit n rng i = Some (r, j)"
  shows "1 < r \<and> gcd r n = 1"
proof -
  have "1 < fst (r, j) \<and> gcd (fst (r, j)) n = 1"
    by (rule random_unit.raw_induct [where P = "\<lambda>n rng i rj. 1 < fst rj \<and> gcd (fst rj) n = 1", OF _ assms])
      (auto simp: Let_def split: if_splits)
  then show ?thesis by simp
qed

lemma rsa_key_gt1: "rsa_key n e d p q \<Longrightarrow> 1 < n"
  by (auto simp: rsa_key_def prime_number_def intro: less_1_mult)

lemma unblinded_signature:
  fixes m r x n :: int
  assumes key: "rsa_key n e d p q" and m: "0 \<le> m" "m < n" and r: "0 \<le> r" "x * r mod n = 1"
  shows "(((m * (r ^ nat e mod n) mod n) ^ nat d mod n) * x mod n) ^ nat e mod n = m"
proof -
  have n: "1 < n" "0 \<le> e" "0 \<le> d" using rsa_key_gt1 [OF key] key by (auto simp: rsa_key_def)
  have "(((m * (r ^ nat e mod n) mod n) ^ nat d mod n) * x mod n) ^ nat e mod n =
      ((m * r ^ nat e) ^ nat d * x) ^ nat e mod n"
    by (simp add: power_mod mod_mult_left_eq mod_mult_right_eq)
  also have "((m * r ^ nat e) ^ nat d * x) ^ nat e = (m * r ^ nat e) ^ nat (e * d) * x ^ nat e"
    using n by (simp add: power_mult_distrib nat_mult_distrib flip: power_mult) (simp add: mult.commute)
  also have "\<dots> mod n = (m * r ^ nat e) * x ^ nat e mod n"
    using rsa_identity [OF key, of "m * r ^ nat e"] m r by (metis mod_mult_left_eq mult_nonneg_nonneg zero_le_power)
  also have "(m * r ^ nat e) * x ^ nat e = m * (x * r) ^ nat e"
    by (simp add: power_mult_distrib)
  also have "\<dots> mod n = m * 1 ^ nat e mod n"
    using r(2) n by (metis mod_mult_right_eq power_mod power_one)
  also have "\<dots> = m" using m by simp
  finally show ?thesis .
qed

text \<open>What a request hides, spelled out.\<close>

lemma blind_credit_request_cases:
  assumes "blind_credit_request P k unit amount rng = Some (request, secret)"
  obtains r j where "random_unit (key_n k) rng 1 = Some (r, j)"
    "req_blinded request = fdh P (rng 0 32) amount unit k * pow_mod r (key_e k) (key_n k) mod key_n k"
    "secret = \<lparr>sec_token = rng 0 32, sec_r = r, sec_unit = unit, sec_amount = amount, sec_key = k\<rparr>"
proof (cases "random_unit (key_n k) rng 1")
  case None
  with assms show ?thesis by (simp add: blind_credit_request_def blind_def Let_def)
next
  case (Some rj)
  with assms that [of "fst rj" "snd rj"] show ?thesis
    by (cases rj) (auto simp: blind_credit_request_def blind_def Let_def)
qed

lemma finalized_credit:
  assumes "mod_inverse r (key_n k) = Inr x"
  shows "finalize_blind_credit s \<lparr>sec_token = t, sec_r = r, sec_unit = u, sec_amount = a, sec_key = k\<rparr> =
    Inr \<lparr>cr_unit = u, cr_amount = a, cr_issuer = pubkey_str k, cr_token = b64u_encode t,
      cr_signature = int_to_b64u (s * x mod key_n k)\<rparr>"
  using assms by (simp add: finalize_blind_credit_def unblind_def)

lemma verify_well_formed:
  assumes "key_from_str (pubkey_str k) = Inr k" "is_bytes t" "0 \<le> sg"
  shows "verify_blind_credit P \<lparr>cr_unit = u, cr_amount = a, cr_issuer = pubkey_str k, cr_token = b64u_encode t,
      cr_signature = int_to_b64u sg\<rparr> = verify_blind_token P t a u sg k"
  using assms by (simp add: verify_blind_credit_def b64u_roundtrip b64u_int_roundtrip)

lemma blind_credit_verifies:
  assumes key: "rsa_key n e d p q" "3 \<le> n" "2 \<le> e" "length (str_of_nat e) \<le> 4300"
    and rng: "is_bytes (rng 0 32)"
    and request: "blind_credit_request P \<lparr>key_n = n, key_e = e\<rparr> unit amount rng = Some (request, secret)"
    and signed: "sign_blinded \<lparr>iss_n = n, iss_e = e, iss_d = d\<rparr> (req_blinded request) = Inr s"
  shows "\<exists>credit. finalize_blind_credit s secret = Inr credit \<and> verify_blind_credit P credit \<and>
    cr_unit credit = unit \<and> cr_amount credit = amount"
proof -
  define k where "k = \<lparr>key_n = n, key_e = e\<rparr>"
  have k: "key_n k = n" "key_e k = e" by (simp_all add: k_def)
  define m where "m = fdh P (rng 0 32) amount unit k"
  obtain r j where r: "random_unit n rng 1 = Some (r, j)"
    and req: "req_blinded request = m * pow_mod r e n mod n"
    and sec: "secret = \<lparr>sec_token = rng 0 32, sec_r = r, sec_unit = unit, sec_amount = amount, sec_key = k\<rparr>"
    using blind_credit_request_cases [OF request] unfolding k_def m_def by auto
  have e: "0 \<le> e" "0 \<le> d" "1 < n" using key by (auto simp: rsa_key_def)
  have r1: "1 < r" "gcd r n = 1" using random_unit_unit [OF r] by auto
  have "coprime r n" using r1(2) by (simp only: coprime_iff_gcd_eq_1)
  from mod_inverse_ok [OF e(3) this] obtain x where x: "mod_inverse r n = Inr x" "x * r mod n = 1" by blast
  have "s = pow_mod (req_blinded request) d n"
    using signed by (simp add: sign_blinded_def split: if_splits)
  then have s: "s = (m * (r ^ nat e mod n) mod n) ^ nat d mod n"
    by (simp only: req pow_mod_power [OF e(1)] pow_mod_power [OF e(2)])
  define sg where "sg = s * x mod n"
  have "0 \<le> m" "m < n" using fdh_range [of k] e by (simp_all add: m_def k)
  from unblinded_signature [OF key(1) this _ x(2)] r1 have "sg ^ nat e mod n = m"
    by (simp add: sg_def s)
  then have tok: "verify_blind_token P (rng 0 32) amount unit sg k"
    using e by (simp add: verify_blind_token_def pow_mod_power m_def k)
  have "key_from_str (pubkey_str k) = Inr k" using key by (intro key_roundtrip) (simp_all add: k)
  from verify_well_formed [OF this rng, of sg P unit amount] tok
    finalized_credit [of r k x s "rng 0 32" unit amount] x e
  show ?thesis by (simp add: sec k sg_def)
qed

lemma coprime_power_factor:
  assumes "rsa_key n e d p q" "coprime a n" "0 \<le> a"
  shows "\<exists>r. coprime r n \<and> 0 \<le> r \<and> r ^ nat e mod n = a mod n"
proof (intro exI [of _ "a ^ nat d"] conjI)
  show "coprime (a ^ nat d) n" using assms(2) by simp
  have "(a ^ nat d) ^ nat e = a ^ nat (e * d)"
    using assms(1) by (simp add: rsa_key_def nat_mult_distrib mult.commute flip: power_mult)
  then show "(a ^ nat d) ^ nat e mod n = a mod n" using rsa_identity [OF assms(1,3)] by simp
qed (use assms in auto)

lemma blinding_factor_exists:
  assumes key: "rsa_key n e d p q" and m: "0 \<le> m" "coprime m' n" "coprime m n" "coprime r n" "0 \<le> r"
  shows "\<exists>r'. 0 < r' \<and> r' < n \<and> coprime r' n \<and> m * (r ^ nat e mod n) mod n = m' * (r' ^ nat e mod n) mod n"
proof -
  have n: "1 < n" by (rule rsa_key_gt1 [OF key])
  obtain x where x: "mod_inverse m' n = Inr x" "x * m' mod n = 1" using mod_inverse_ok [OF n m(2)] by blast
  have "coprime (x * m') n" using x(2) n by (metis coprime_1_left coprime_mod_left_iff less_le_not_le zero_less_one order_less_trans less_irrefl)
  then have "coprime (m * (x mod n)) n" "0 \<le> m * (x mod n)"
    using m n by (simp_all add: coprime_mod_left_iff less_imp_neq [THEN not_sym])
  from coprime_power_factor [OF key this] obtain t where
    t: "coprime t n" "0 \<le> t" "t ^ nat e mod n = m * (x mod n) mod n" by blast
  define r' where "r' = r * t mod n"
  have c: "coprime r' n" using m t n by (simp add: r'_def coprime_mod_left_iff)
  moreover have "0 \<le> r'" "r' < n" using n by (simp_all add: r'_def)
  moreover have "r' \<noteq> 0" using c n by auto
  moreover have "m' * (r' ^ nat e mod n) mod n = m' * (r ^ nat e * (m * x)) mod n"
  proof -
    have "r' ^ nat e mod n = (r ^ nat e * t ^ nat e) mod n" by (simp add: r'_def power_mod power_mult_distrib)
    also have "\<dots> = (r ^ nat e * (m * x)) mod n" using t(3) by (metis mod_mult_right_eq)
    finally show ?thesis by (metis mod_mult_right_eq)
  qed
  moreover have "m' * (r ^ nat e * (m * x)) mod n = (m * r ^ nat e) * (x * m' mod n) mod n"
    unfolding mod_mult_right_eq by (simp add: ac_simps)
  ultimately show ?thesis by (intro exI [of _ r']) (simp add: x(2) mod_mult_right_eq)
qed

lemma redeem_blind_accepts:
  assumes "cr_issuer credit \<in> set issuers" "verify_blind_credit P credit" "cr_unit credit = unit"
    "cr_amount credit = price" "blind_spend_key credit \<notin> S"
  shows "redeem_blind_credit P credit price unit issuers S =
    (\<lparr>ok = True, scheme = ''blind'', total_amount = price, reason = []\<rparr>, insert (blind_spend_key credit) S)"
  using assms by (simp add: redeem_blind_credit_def is_spent_def spend_def)

lemma blind_spend_key_token: "cr_token c \<noteq> cr_token c' \<Longrightarrow> cr_issuer c = cr_issuer c' \<Longrightarrow> blind_spend_key c \<noteq> blind_spend_key c'"
  by (simp add: blind_spend_key_def)

lemma redeem_blind_refuses_marked:
  assumes "blind_spend_key credit \<in> S"
  shows "\<exists>why. redeem_blind_credit P credit price unit issuers S = (rejected ''blind'' why, S)"
  using assms by (auto simp: redeem_blind_credit_def is_spent_def)

text \<open>The random source can hand out any number, so every unit above 1 can be drawn.\<close>

lemma draws_unit:
  assumes "1 < r" "r < n" "gcd r n = 1"
  shows "\<exists>rng. random_unit n rng i = Some (r, Suc i)"
proof -
  define k where "k = nat ((bit_length n + 7) div 8)"
  have "nbits n \<le> 8 * k" by (simp add: k_def bit_length_def)
  then have "(2::int) ^ nbits n \<le> 256 ^ k"
    using power_increasing [of "nbits n" "8 * k" "2::int"] by (simp add: power_mult)
  then have "r < 256 ^ k" using nbits_upper [of n] assms(2) by linarith
  then have "int_of_bytes (be_bytes k r) mod n = r" using assms(1,2) by (simp add: int_of_be_bytes)
  then have "random_unit n (\<lambda>_ _. be_bytes k r) i = Some (r, Suc i)"
    using assms by (subst random_unit.simps) (simp add: Let_def)
  then show ?thesis by blast
qed

lemma random_unit_range: "random_unit n rng i = Some (r, j) \<Longrightarrow> 0 < n \<Longrightarrow> r < n"
proof -
  assume r: "random_unit n rng i = Some (r, j)" and n: "0 < n"
  have "0 < n \<longrightarrow> fst (r, j) < n"
    by (rule random_unit.raw_induct [where P = "\<lambda>n rng i rj. 0 < n \<longrightarrow> fst rj < n", OF _ r])
      (auto simp: Let_def split: if_splits)
  then show ?thesis using n by simp
qed

text \<open>What a call of \<^verbatim>\<open>blind\<close> can show the issuer, with the factor it hides behind: one pair for every
  outcome of the random source.\<close>

definition blindings :: "platform \<Rightarrow> bytes \<Rightarrow> string \<Rightarrow> string \<Rightarrow> blind_key \<Rightarrow> (int \<times> int) set" where
  "blindings P token amount unit k = {(b, r). \<exists>rng i. blind P token amount unit k rng i = Some (b, r)}"

definition unit_residues :: "int \<Rightarrow> int set" where
  "unit_residues n = {x. 0 < x \<and> x < n \<and> coprime x n}"

lemma blindings_eq:
  assumes "0 \<le> key_e k" "1 < key_n k"
  shows "blindings P token amount unit k =
    (\<lambda>r. (fdh P token amount unit k * r ^ nat (key_e k) mod key_n k, r)) ` (unit_residues (key_n k) - {1})"
proof -
  have "(\<exists>rng i j. random_unit (key_n k) rng i = Some (r, j)) \<longleftrightarrow> r \<in> unit_residues (key_n k) - {1}" (is "?drawn \<longleftrightarrow> ?unit") for r
  proof
    assume ?drawn
    then obtain rng i j where "random_unit (key_n k) rng i = Some (r, j)" by blast
    then have "1 < r \<and> gcd r (key_n k) = 1" "r < key_n k" using random_unit_unit random_unit_range assms(2) by auto
    then show ?unit by (simp add: unit_residues_def coprime_iff_gcd_eq_1)
  next
    assume ?unit
    then have "1 < r" "r < key_n k" "gcd r (key_n k) = 1" by (auto simp: unit_residues_def coprime_iff_gcd_eq_1)
    from draws_unit [OF this] show ?drawn by blast
  qed
  moreover have "(b, r) \<in> blindings P token amount unit k \<longleftrightarrow>
      b = fdh P token amount unit k * pow_mod r (key_e k) (key_n k) mod key_n k \<and> (\<exists>rng i j. random_unit (key_n k) rng i = Some (r, j))" for b r
  proof -
    have "blind P token amount unit k rng i = Some (b, r) \<longleftrightarrow> (\<exists>j. random_unit (key_n k) rng i = Some (r, j)) \<and>
        b = fdh P token amount unit k * pow_mod r (key_e k) (key_n k) mod key_n k" for rng i
      by (cases "random_unit (key_n k) rng i") (auto simp: blind_def Let_def)
    then show ?thesis by (auto simp: blindings_def)
  qed
  ultimately have "(b, r) \<in> blindings P token amount unit k \<longleftrightarrow>
      b = fdh P token amount unit k * r ^ nat (key_e k) mod key_n k \<and> r \<in> unit_residues (key_n k) - {1}" for b r
    by (simp only: pow_mod_power [OF assms(1)] mod_mult_right_eq)
  then show ?thesis by auto
qed

lemma unit_mod: "1 < n \<Longrightarrow> coprime a n \<Longrightarrow> a mod n \<in> unit_residues n"
proof -
  assume n: "1 < n" and a: "coprime a n"
  have c: "coprime (a mod n) n" using a n by (simp add: coprime_mod_left_iff)
  then have "a mod n \<noteq> 0" using n by auto
  moreover have "0 \<le> a mod n" "a mod n < n" using n by simp_all
  ultimately show ?thesis using c by (simp add: unit_residues_def)
qed

text \<open>Raising to the public exponent permutes the unit_residues: the private exponent undoes it.\<close>

lemma raise_inj:
  assumes "rsa_key n e d p q" "r \<in> unit_residues n" "r' \<in> unit_residues n" "r ^ nat e mod n = r' ^ nat e mod n"
  shows "r = r'"
proof -
  have undone: "(x ^ nat e mod n) ^ nat d mod n = x" if "x \<in> unit_residues n" for x
  proof -
    have ed: "0 \<le> e" "0 \<le> d" using assms(1) by (auto simp: rsa_key_def)
    have "(x ^ nat e mod n) ^ nat d mod n = (x ^ nat e) ^ nat d mod n" by (rule power_mod)
    also have "(x ^ nat e) ^ nat d = x ^ nat (e * d)" unfolding nat_mult_distrib [OF ed(1)] power_mult ..
    also have "\<dots> mod n = x mod n" by (rule rsa_identity [OF assms(1)]) (use that in \<open>simp add: unit_residues_def\<close>)
    also have "\<dots> = x" using that by (simp add: unit_residues_def)
    finally show ?thesis .
  qed
  show ?thesis using undone [OF assms(2)] undone [OF assms(3)] unfolding assms(4) by (rule trans [OF sym])
qed

lemma unit_cancel:
  assumes "1 < n" "coprime m n" "0 \<le> x" "x < n" "0 \<le> y" "y < n" "m * x mod n = m * y mod (n :: int)"
  shows "x = y"
proof -
  have "n dvd m * x - m * y" using assms(7) unfolding mod_eq_dvd_iff .
  then have d: "n dvd m * (x - y)" unfolding right_diff_distrib .
  have "coprime n m" by (rule coprime_imp_coprime [OF assms(2)])
  then have "n dvd x - y" using d by (rule coprime_dvd_mult_right_iff [THEN iffD1])
  then have "x mod n = y mod n" unfolding mod_eq_dvd_iff .
  then show ?thesis unfolding mod_pos_pos_trivial [OF assms(3,4)] mod_pos_pos_trivial [OF assms(5,6)] .
qed

text \<open>Blinding a unit with every factor above 1 reaches every unit but the one blinded, each once.\<close>

lemma blinding_bijection:
  assumes key: "rsa_key n e d p q" and m: "coprime m n" "0 \<le> m" "m < n"
  shows "bij_betw (\<lambda>r. m * r ^ nat e mod n) (unit_residues n - {1}) (unit_residues n - {m})"
proof -
  have n: "1 < n" by (rule rsa_key_gt1 [OF key])
  let ?f = "\<lambda>r. m * r ^ nat e mod n"
  have inj: "r = r'" if "r \<in> unit_residues n" "r' \<in> unit_residues n" "?f r = ?f r'" for r r'
  proof -
    have "m * (r ^ nat e mod n) mod n = m * (r' ^ nat e mod n) mod n" using that(3) by (simp only: mod_mult_right_eq)
    from unit_cancel [OF n m(1) _ _ _ _ this] n have "r ^ nat e mod n = r' ^ nat e mod n" by simp
    then show ?thesis by (rule raise_inj [OF key that(1,2)])
  qed
  have one: "1 \<in> unit_residues n" "?f 1 = m" using n m by (simp_all add: unit_residues_def)
  have into: "?f r \<in> unit_residues n - {m}" if r: "r \<in> unit_residues n - {1}" for r
  proof -
    have "coprime (m * r ^ nat e) n" using m(1) r by (simp add: unit_residues_def)
    then have "?f r \<in> unit_residues n" by (rule unit_mod [OF n])
    moreover have "?f r \<noteq> m"
    proof
      assume "?f r = m"
      then have "?f r = ?f 1" using one(2) by simp
      then have "r = 1" using inj [OF _ one(1)] r by blast
      then show False using r by simp
    qed
    ultimately show ?thesis by simp
  qed
  have onto: "\<exists>r\<in>unit_residues n - {1}. ?f r = b" if b: "b \<in> unit_residues n - {m}" for b
  proof -
    have c: "0 \<le> b" "b < n" "coprime b n" using b by (auto simp: unit_residues_def)
    obtain r where r: "0 < r" "r < n" "coprime r n" "b * (1 ^ nat e mod n) mod n = m * (r ^ nat e mod n) mod n"
      using blinding_factor_exists [OF key c(1) m(1) c(3), of 1] by auto
    have "b * (1 ^ nat e mod n) mod n = b" using c n by simp
    then have "b = ?f r" using r(4) by (simp only: mod_mult_right_eq)
    moreover have "r \<noteq> 1" using calculation one(2) b by auto
    ultimately show ?thesis using r(1-3) by (auto simp: unit_residues_def)
  qed
  show ?thesis unfolding bij_betw_def
  proof
    show "inj_on ?f (unit_residues n - {1})" by (rule inj_onI) (rule inj, simp_all)
    show "?f ` (unit_residues n - {1}) = unit_residues n - {m}"
    proof (rule subset_antisym)
      show "?f ` (unit_residues n - {1}) \<subseteq> unit_residues n - {m}" by (rule image_subsetI) (rule into)
      show "unit_residues n - {m} \<subseteq> ?f ` (unit_residues n - {1})"
      proof
        fix b assume "b \<in> unit_residues n - {m}"
        from onto [OF this] obtain r where "r \<in> unit_residues n - {1}" "?f r = b" ..
        then show "b \<in> ?f ` (unit_residues n - {1})" by (intro image_eqI [of b ?f r]) simp_all
      qed
    qed
  qed
qed

lemma finalized_issuer:
  assumes "blind_credit_request P k unit amount rng = Some (request, secret)" "finalize_blind_credit s secret = Inr credit"
  shows "cr_issuer credit = pubkey_str k"
proof -
  have "sec_key secret = k" using blind_credit_request_cases [OF assms(1)] by (metis blinding_secret.select_convs(5))
  then show ?thesis using assms(2) by (auto simp: finalize_blind_credit_def rbind_eq_Inr)
qed

subsection \<open>Inputs\<close>

definition demo_blind_key :: blind_key where
  "demo_blind_key = \<lparr>key_n = 3233, key_e = 17\<rparr>"

definition demo_blind_issuer :: blind_issuer where
  "demo_blind_issuer = \<lparr>iss_n = 3233, iss_e = 17, iss_d = 2753\<rparr>"

definition demo_rng :: rng where
  "demo_rng i nbytes = (if i = 0 then [1, 2, 3] else [5, 7])"

lemma demo_prime: "prime_number 61" "prime_number 53"
proof -
  have "\<forall>k\<in>set [2..<61]. \<not> k dvd (61::nat)" "\<forall>k\<in>set [2..<53]. \<not> k dvd (53::nat)" by code_simp+
  then show "prime_number 61" "prime_number 53" by (simp_all only: prime_number_def set_upt) simp_all
qed

lemma demo_rsa: "rsa_key 3233 17 2753 61 53"
  using demo_prime by (simp add: rsa_key_def)

definition demo_secret :: blinding_secret where
  "demo_secret = \<lparr>sec_token = [1, 2, 3], sec_r = 1287, sec_unit = ''pic'', sec_amount = ''5'', sec_key = demo_blind_key\<rparr>"

definition demo_request :: credit_request where
  "demo_request = \<lparr>req_blinded = 804, req_unit = ''pic'', req_amount = ''5'', req_issuer = pubkey_str demo_blind_key\<rparr>"

definition demo_credit :: blind_credit where
  "demo_credit = \<lparr>cr_unit = ''pic'', cr_amount = ''5'', cr_issuer = pubkey_str demo_blind_key,
     cr_token = ''AQID'', cr_signature = ''C3w''\<rparr>"

lemma demo_requested:
  "blind_credit_request demo \<lparr>key_n = 3233, key_e = 17\<rparr> ''pic'' ''5'' demo_rng = Some (demo_request, demo_secret)"
  by code_simp

lemma demo_signed: "sign_blinded \<lparr>iss_n = 3233, iss_e = 17, iss_d = 2753\<rparr> (req_blinded demo_request) = Inr 1170"
  by code_simp

lemma demo_finalized: "finalize_blind_credit 1170 demo_secret = Inr demo_credit"
  by code_simp

lemma demo_credit_verifies: "verify_blind_credit demo demo_credit"
  by code_simp

lemma demo_e_text: "length (str_of_nat 17) \<le> 4300"
  by code_simp

subsection \<open>Properties\<close>

text \<open>C11. The credit flow works, once: a credit requested, blind-signed and finalised under an RSA key of two primes
  verifies; the first redemption at its own amount and unit, at any provider that trusts the key, accepts it and
  marks its spend key; once the key is marked the same credit is refused as a double spend, and whatever price,
  unit and issuers it is offered at, it is refused and nothing changes. (Another spelling of the serial is another
  key: \<open>blind_respelled_double_spend\<close>.)\<close>

theorem blind_flow_redeems:
  assumes "rsa_key n e d p q" "3 \<le> n" "2 \<le> e" "length (str_of_nat e) \<le> 4300" "is_bytes (rng 0 32)"
    and "blind_credit_request P \<lparr>key_n = n, key_e = e\<rparr> unit amount rng = Some (request, secret)"
    and "sign_blinded \<lparr>iss_n = n, iss_e = e, iss_d = d\<rparr> (req_blinded request) = Inr s"
    and "pubkey_str \<lparr>key_n = n, key_e = e\<rparr> \<in> set issuers"
  shows "\<exists>credit. finalize_blind_credit s secret = Inr credit \<and> verify_blind_credit P credit \<and>
    (\<forall>S. blind_spend_key credit \<notin> S \<longrightarrow> redeem_blind_credit P credit amount unit issuers S =
        (\<lparr>ok = True, scheme = ''blind'', total_amount = amount, reason = []\<rparr>, insert (blind_spend_key credit) S)) \<and>
    (\<forall>S. blind_spend_key credit \<in> S \<longrightarrow>
        redeem_blind_credit P credit amount unit issuers S = (rejected ''blind'' ''double_spend'', S)) \<and>
    (\<forall>S price unit' issuers'. blind_spend_key credit \<in> S \<longrightarrow>
        (\<exists>why. redeem_blind_credit P credit price unit' issuers' S = (rejected ''blind'' why, S)))"
proof -
  obtain credit where c: "finalize_blind_credit s secret = Inr credit" "verify_blind_credit P credit"
    "cr_unit credit = unit" "cr_amount credit = amount" "cr_issuer credit = pubkey_str \<lparr>key_n = n, key_e = e\<rparr>"
    using blind_credit_verifies [OF assms(1-7)] by (metis finalized_issuer [OF assms(6)])
  have "redeem_blind_credit P credit amount unit issuers S = (rejected ''blind'' ''double_spend'', S)"
    if "blind_spend_key credit \<in> S" for S
    using c assms(8) that by (simp add: redeem_blind_credit_def is_spent_def)
  then show ?thesis
    using c(1,2) redeem_blind_accepts [OF _ c(2-4), of issuers] redeem_blind_refuses_marked assms(8) c(5) by metis
qed

lemma blind_flow_redeems_witness:
  "\<exists>credit. finalize_blind_credit 1170 demo_secret = Inr credit \<and>
     redeem_blind_credit demo credit ''5'' ''pic'' [pubkey_str demo_blind_key] {blind_spend_key credit} =
       (rejected ''blind'' ''double_spend'', {blind_spend_key credit})"
proof -
  have "is_bytes (demo_rng 0 32)" by (simp add: demo_rng_def)
  from blind_flow_redeems [OF demo_rsa _ _ demo_e_text this demo_requested demo_signed, of "[pubkey_str demo_blind_key]"]
  show ?thesis by (fastforce simp: demo_blind_key_def)
qed

text \<open>C12. The issuer learns nothing from what it signs. For a message that is invertible modulo the key, what a call of
  \<^verbatim>\<open>blind\<close> can show and the factor it hides behind determine each other: the factors are the units above 1, one
  shown value each, and the values shown are all units but the message's own hash, each by exactly one factor. So
  any value seen fits every other message, and equally often when the factor is drawn uniformly.\<close>

theorem blinding_hides:
  assumes "rsa_key (key_n k) (key_e k) d p q" "coprime (fdh P token amount unit k) (key_n k)"
  shows "bij_betw snd (blindings P token amount unit k) (unit_residues (key_n k) - {1}) \<and>
    bij_betw fst (blindings P token amount unit k) (unit_residues (key_n k) - {fdh P token amount unit k})"
proof -
  have n: "0 \<le> key_e k" "1 < key_n k" using assms(1) rsa_key_gt1 [OF assms(1)] by (auto simp: rsa_key_def)
  let ?m = "fdh P token amount unit k"
  let ?g = "\<lambda>r. (?m * r ^ nat (key_e k) mod key_n k, r)"
  have range: "0 \<le> ?m" "?m < key_n k" using fdh_range [of k] n by simp_all
  have g: "bij_betw ?g (unit_residues (key_n k) - {1}) (blindings P token amount unit k)"
    unfolding blindings_eq [OF n] by (rule bij_betw_imageI) (auto simp: inj_on_def)
  have s: "bij_betw (snd \<circ> ?g) (unit_residues (key_n k) - {1}) (unit_residues (key_n k) - {1})"
    by (simp add: comp_def bij_betw_def)
  have f: "bij_betw (fst \<circ> ?g) (unit_residues (key_n k) - {1}) (unit_residues (key_n k) - {?m})"
    using blinding_bijection [OF assms range] by (simp add: comp_def)
  show ?thesis using s f unfolding bij_betw_comp_iff [OF g, symmetric] by (rule conjI)
qed

lemma blinding_hides_witness:
  "\<exists>!r. (804, r) \<in> blindings demo [9] ''7'' ''eur'' demo_blind_key"
proof -
  let ?b = "blindings demo [9] ''7'' ''eur'' demo_blind_key" and ?m = "fdh demo [9] ''7'' ''eur'' demo_blind_key"
  have c: "gcd ?m 3233 = 1" "?m \<noteq> 804" "gcd (804 :: int) 3233 = 1" by code_simp+
  have k: "key_n demo_blind_key = 3233" "key_e demo_blind_key = 17" by (simp_all add: demo_blind_key_def)
  have "rsa_key (key_n demo_blind_key) (key_e demo_blind_key) 2753 61 53" unfolding k by (rule demo_rsa)
  moreover have "coprime ?m (key_n demo_blind_key)" unfolding k coprime_iff_gcd_eq_1 by (rule c(1))
  ultimately have "bij_betw fst ?b (unit_residues (key_n demo_blind_key) - {?m})" by (rule blinding_hides [THEN conjunct2])
  then have bij: "inj_on fst ?b" "fst ` ?b = unit_residues 3233 - {?m}" unfolding bij_betw_def k by blast+
  have "804 \<in> unit_residues 3233" unfolding unit_residues_def coprime_iff_gcd_eq_1 using c(3) by simp
  then have "804 \<in> fst ` ?b" unfolding bij(2) using c(2) [THEN not_sym] by (simp only: Diff_iff singleton_iff simp_thms)
  then obtain p where p: "804 = fst p" "p \<in> ?b" by (rule imageE)
  show ?thesis
  proof (rule ex1I [of _ "snd p"])
    show "(804, snd p) \<in> ?b" unfolding p(1) prod.collapse by (rule p(2))
    show "r = snd p" if "(804, r) \<in> ?b" for r
      using inj_onD [OF bij(1) _ that p(2)] p(1) by (metis fst_conv snd_conv)
  qed
qed

text \<open>A key string reads back: \<open>key_from_str\<close> of \<open>pubkey_str\<close> is the key, for every modulus and exponent
  the parser admits.\<close>

theorem issuer_key_roundtrip:
  assumes "3 \<le> key_n k" "2 \<le> key_e k" "length (str_of_nat (key_e k)) \<le> 4300"
  shows "key_from_str (pubkey_str k) = Inr k"
  using assms by (rule key_roundtrip)

lemma issuer_key_roundtrip_witness: "key_from_str (pubkey_str demo_blind_key) = Inr demo_blind_key"
  by (rule issuer_key_roundtrip) (use demo_e_text in \<open>simp_all add: demo_blind_key_def\<close>)

text \<open>The denomination encoding is unambiguous: equal encodings have equal amount and equal unit.\<close>

theorem denomination_unambiguous:
  assumes "denomination_bytes a u = denomination_bytes a' u'"
    and "length (utf8 a) < 2 ^ 32" "length (utf8 a') < 2 ^ 32"
  shows "a = a' \<and> u = u'"
  using assms by (rule denomination_bytes_inj)

lemma denomination_unambiguous_witness: "''10'' = ''10'' \<and> ''PIC'' = ''PIC''"
  by (rule denomination_unambiguous) (simp_all add: utf8_char_def)

text \<open>The issuer's signature does not bind the denomination the issuer was told: a request relabelled with
  any other amount is signed all the same, and the credit redeems at the amount the client chose.\<close>

theorem blind_amount_unchecked:
  assumes "rsa_key n e d p q" "3 \<le> n" "2 \<le> e" "length (str_of_nat e) \<le> 4300" "is_bytes (rng 0 32)"
    and "blind_credit_request P \<lparr>key_n = n, key_e = e\<rparr> unit amount rng = Some (request, secret)"
    and "sign_blinded \<lparr>iss_n = n, iss_e = e, iss_d = d\<rparr> (req_blinded (request\<lparr>req_amount := told\<rparr>)) = Inr s"
  shows "\<exists>credit. finalize_blind_credit s secret = Inr credit \<and> cr_amount credit = amount \<and>
    (cr_issuer credit \<in> set issuers \<longrightarrow> ok (fst (redeem_blind_credit P credit amount unit issuers {})))"
proof -
  have "sign_blinded \<lparr>iss_n = n, iss_e = e, iss_d = d\<rparr> (req_blinded request) = Inr s" using assms(7) by simp
  from blind_credit_verifies [OF assms(1-6) this] obtain credit where
    c: "finalize_blind_credit s secret = Inr credit" "verify_blind_credit P credit"
    "cr_unit credit = unit" "cr_amount credit = amount" by blast
  then show ?thesis using redeem_blind_accepts [OF _ c(2-4), of issuers "{}"] by auto
qed

lemma blind_amount_unchecked_witness:
  "\<exists>credit. finalize_blind_credit 1170 demo_secret = Inr credit \<and> cr_amount credit = ''5''"
proof -
  have "is_bytes (demo_rng 0 32)" by (simp add: demo_rng_def)
  moreover have "sign_blinded \<lparr>iss_n = 3233, iss_e = 17, iss_d = 2753\<rparr>
      (req_blinded (demo_request\<lparr>req_amount := ''0.01''\<rparr>)) = Inr 1170"
    using demo_signed by simp
  ultimately show ?thesis
    using blind_amount_unchecked [OF demo_rsa _ _ demo_e_text _ demo_requested, of "''0.01''" 1170 "[]"] by auto
qed

text \<open>A blind credit can be redeemed again under another spelling of its serial: the spend key is the token's
  text, but the signature is checked on the bytes it decodes to.\<close>

theorem blind_respelled_double_spend:
  assumes "verify_blind_credit P credit" "cr_issuer credit \<in> set issuers"
    and "b64u_decode respelled = b64u_decode (cr_token credit)" "respelled \<noteq> cr_token credit"
    and "blind_spend_key credit \<notin> S" "blind_spend_key (credit\<lparr>cr_token := respelled\<rparr>) \<notin> S"
  shows "\<exists>S'. redeem_blind_credit P credit (cr_amount credit) (cr_unit credit) issuers S =
      (\<lparr>ok = True, scheme = ''blind'', total_amount = cr_amount credit, reason = []\<rparr>, S') \<and>
    ok (fst (redeem_blind_credit P (credit\<lparr>cr_token := respelled\<rparr>) (cr_amount credit) (cr_unit credit) issuers S'))"
proof -
  let ?c = "credit\<lparr>cr_token := respelled\<rparr>"
  have "cr_amount ?c = cr_amount credit" "cr_unit ?c = cr_unit credit" by simp_all
  then have "verify_blind_credit P ?c" using assms(1,3) by (auto simp: verify_blind_credit_def split: sum.splits prod.splits)
  moreover have "blind_spend_key ?c \<noteq> blind_spend_key credit"
    using assms(4) by (intro blind_spend_key_token) simp_all
  ultimately have "ok (fst (redeem_blind_credit P ?c (cr_amount credit) (cr_unit credit) issuers
      (insert (blind_spend_key credit) S)))"
    using assms(2,6) by (subst redeem_blind_accepts) simp_all
  then show ?thesis using redeem_blind_accepts [OF assms(2,1) refl refl assms(5)] by simp
qed

lemma blind_respelled_double_spend_witness:
  "\<exists>S'. redeem_blind_credit demo demo_credit ''5'' ''pic'' [pubkey_str demo_blind_key] {} =
      (\<lparr>ok = True, scheme = ''blind'', total_amount = ''5'', reason = []\<rparr>, S') \<and>
    ok (fst (redeem_blind_credit demo (demo_credit\<lparr>cr_token := ''AQID=''\<rparr>) ''5'' ''pic'' [pubkey_str demo_blind_key] S'))"
proof -
  have "b64u_decode ''AQID='' = b64u_decode (cr_token demo_credit)" by code_simp
  then show ?thesis
    using blind_respelled_double_spend [OF demo_credit_verifies, of "[pubkey_str demo_blind_key]" "''AQID=''" "{}"]
    by (simp add: demo_credit_def)
qed

text \<open>What an accepted blind credit proves: a trusted issuer's good signature over its serial and
  denomination, the unit and the exact price, and a spend key not marked before, which is marked now;
  a refused one marks nothing.\<close>

theorem redeem_blind_sound:
  "\<exists>why. redeem_blind_credit P credit price unit issuers S =
     (if cr_issuer credit \<in> set issuers \<and> verify_blind_credit P credit \<and> cr_unit credit = unit \<and>
         cr_amount credit = price \<and> blind_spend_key credit \<notin> S
      then (\<lparr>ok = True, scheme = ''blind'', total_amount = price, reason = []\<rparr>, S \<union> {blind_spend_key credit})
      else (rejected ''blind'' why, S))"
  by (auto simp: redeem_blind_credit_def is_spent_def spend_def)

end
