(* ===== verification/Race.thy ===== *)
theory Race
  imports Blind
begin

text \<open>
  Redemptions that run at the same time, on threads or processes that share one spent set. One statement
  on the table is one step: the reads of the checking loop, the inserts of the marking loop, and the
  deletes that roll a lost batch back. \<open>batch a\<close> lists the keys agent \<open>a\<close> redeems; \<open>heeds a\<close> says
  whether it looks at the result of \<^verbatim>\<open>spend\<close> (\<^verbatim>\<open>_redeem_pic\<close> and the x402 branch do,
  \<^verbatim>\<open>redeem_blind_credit\<close> does not). What the steps of all agents must come to is the abstract payment
  \<open>atomic_pay\<close>: an agent is accepted with all its keys at once, or refused with none of them spent.
\<close>

datatype phase =
    Checking "string list"
  | Marking "string list" "string list"
  | Undoing "string list"
  | Accepted
  | Refused

type_synonym 'a system = "spent_set \<times> ('a \<Rightarrow> phase)"

inductive race_step :: "('a \<Rightarrow> string list) \<Rightarrow> ('a \<Rightarrow> bool) \<Rightarrow> 'a system \<Rightarrow> 'a system \<Rightarrow> bool"
  for batch :: "'a \<Rightarrow> string list" and heeds :: "'a \<Rightarrow> bool" where
  check: "st a = Checking (k # ks) \<Longrightarrow>
     race_step batch heeds (S, st) (S, st(a := if is_spent k S then Refused else Checking ks))"
| checked: "st a = Checking [] \<Longrightarrow> race_step batch heeds (S, st) (S, st(a := Marking (batch a) []))"
| win: "st a = Marking (k # ks) marked \<Longrightarrow> spend k S = (True, S') \<Longrightarrow>
     race_step batch heeds (S, st) (S', st(a := Marking ks (marked @ [k])))"
| lose: "st a = Marking (k # ks) marked \<Longrightarrow> spend k S = (False, S') \<Longrightarrow> heeds a \<Longrightarrow>
     race_step batch heeds (S, st) (S', st(a := Undoing marked))"
| ignored: "st a = Marking (k # ks) marked \<Longrightarrow> spend k S = (False, S') \<Longrightarrow> \<not> heeds a \<Longrightarrow>
     race_step batch heeds (S, st) (S', st(a := Marking ks marked))"
| marked: "st a = Marking [] marked \<Longrightarrow> race_step batch heeds (S, st) (S, st(a := Accepted))"
| undo: "st a = Undoing (k # ks) \<Longrightarrow> race_step batch heeds (S, st) (unspend k S, st(a := Undoing ks))"
| undone: "st a = Undoing [] \<Longrightarrow> race_step batch heeds (S, st) (S, st(a := Refused))"

inductive_cases race_stepE: "race_step batch heeds (S, st) (S', st')"

definition race_run :: "('a \<Rightarrow> string list) \<Rightarrow> ('a \<Rightarrow> bool) \<Rightarrow> 'a system \<Rightarrow> 'a system \<Rightarrow> bool" where
  "race_run batch heeds = (race_step batch heeds)\<^sup>*\<^sup>*"

definition race_start :: "('a \<Rightarrow> string list) \<Rightarrow> spent_set \<Rightarrow> 'a system" where
  "race_start batch S = (S, \<lambda>a. Checking (batch a))"

text \<open>The keys an agent holds: those its batch has marked so far and not undone.\<close>

definition owned :: "('a \<Rightarrow> string list) \<Rightarrow> phase \<Rightarrow> 'a \<Rightarrow> string set" where
  "owned batch ph a = (case ph of Checking _ \<Rightarrow> {} | Marking _ marked \<Rightarrow> set marked | Undoing ks \<Rightarrow> set ks
     | Accepted \<Rightarrow> set (batch a) | Refused \<Rightarrow> {})"

text \<open>
  The invariant: what is owned is marked, nothing is owned twice, nothing owned was marked at the start,
  the marks of the start stay, and a marking agent has split its own batch.
\<close>

definition race_inv :: "('a \<Rightarrow> string list) \<Rightarrow> spent_set \<Rightarrow> 'a system \<Rightarrow> bool" where
  "race_inv batch S0 sys \<longleftrightarrow> (case sys of (S, st) \<Rightarrow>
     S0 \<subseteq> S \<and>
     (\<forall>a. owned batch (st a) a \<subseteq> S - S0) \<and>
     (\<forall>a b. a \<noteq> b \<longrightarrow> owned batch (st a) a \<inter> owned batch (st b) b = {}) \<and>
     (\<forall>a. case st a of Marking ks marked \<Rightarrow> marked @ ks = batch a
        | Undoing ks \<Rightarrow> distinct ks | _ \<Rightarrow> True))"

lemma owned_simps [simp]:
  "owned batch (Checking ks) a = {}" "owned batch (Marking ks m) a = set m" "owned batch (Undoing ks) a = set ks"
  "owned batch Accepted a = set (batch a)" "owned batch Refused a = {}"
  by (simp_all add: owned_def)

lemma race_inv_update:
  assumes "race_inv batch S0 (S, st)" "S0 \<subseteq> S'" "owned batch ph a \<subseteq> S' - S0"
    and "\<And>b. b \<noteq> a \<Longrightarrow> owned batch (st b) b \<subseteq> S'" "\<And>b. b \<noteq> a \<Longrightarrow> owned batch ph a \<inter> owned batch (st b) b = {}"
    and "case ph of Marking ks marked \<Rightarrow> marked @ ks = batch a | Undoing ks \<Rightarrow> distinct ks | _ \<Rightarrow> True"
  shows "race_inv batch S0 (S', st(a := ph))"
  using assms unfolding race_inv_def by (simp add: Int_commute) blast

lemma race_inv_step:
  assumes "race_step batch heeds (S, st) (S', st')" "race_inv batch S0 (S, st)"
    and "\<forall>a. distinct (batch a)" "\<forall>a. heeds a"
  shows "race_inv batch S0 (S', st')"
proof -
  have inv: "S0 \<subseteq> S" "\<forall>a x. x \<in> owned batch (st a) a \<longrightarrow> x \<in> S \<and> x \<notin> S0"
    "\<forall>a b x. a \<noteq> b \<longrightarrow> x \<in> owned batch (st a) a \<longrightarrow> x \<notin> owned batch (st b) b"
    and shape: "case st a of Marking ks marked \<Rightarrow> marked @ ks = batch a | Undoing ks \<Rightarrow> distinct ks | _ \<Rightarrow> True" for a
  proof -
    have i: "S0 \<subseteq> S" "\<forall>a. owned batch (st a) a \<subseteq> S - S0"
      "\<forall>a b. a \<noteq> b \<longrightarrow> owned batch (st a) a \<inter> owned batch (st b) b = {}"
      "\<forall>a. case st a of Marking ks marked \<Rightarrow> marked @ ks = batch a | Undoing ks \<Rightarrow> distinct ks | _ \<Rightarrow> True"
      using assms(2) by (simp_all add: race_inv_def)
    from i(1) show "S0 \<subseteq> S" .
    from i(2) show "\<forall>a x. x \<in> owned batch (st a) a \<longrightarrow> x \<in> S \<and> x \<notin> S0" by blast
    from i(3) show "\<forall>a b x. a \<noteq> b \<longrightarrow> x \<in> owned batch (st a) a \<longrightarrow> x \<notin> owned batch (st b) b" by blast
    from i(4) show "case st a of Marking ks marked \<Rightarrow> marked @ ks = batch a | Undoing ks \<Rightarrow> distinct ks | _ \<Rightarrow> True" for a
      by blast
  qed
  have stay: "b \<noteq> a \<Longrightarrow> owned batch (st b) b \<subseteq> S" "b \<noteq> a \<Longrightarrow> owned batch (st a) a \<inter> owned batch (st b) b = {}" for a b
    using inv by blast+
  from assms(1) show ?thesis
  proof (cases rule: race_step.cases)
    case (win a k ks marked)
    then have w: "st a = Marking (k # ks) marked" "st' = st(a := Marking ks (marked @ [k]))" "k \<notin> S" "S' = insert k S"
      by (auto simp: spend_def split: if_splits)
    have o: "owned batch (Marking ks (marked @ [k])) a = insert k (owned batch (st a) a)" using w(1) by simp
    have new: "k \<notin> owned batch (st b) b" for b using inv(2) w(3) by blast
    have k: "k \<notin> S0" "owned batch (st a) a \<subseteq> S - S0" using inv(1,2) w(3) by blast+
    have split: "marked @ k # ks = batch a" using shape [of a] w(1) by simp
    show ?thesis unfolding w(2,4)
    proof (rule race_inv_update [OF assms(2)])
      show "S0 \<subseteq> insert k S" using inv(1) by blast
      show "owned batch (Marking ks (marked @ [k])) a \<subseteq> insert k S - S0" unfolding o using k by blast
      show "owned batch (st b) b \<subseteq> insert k S" if "b \<noteq> a" for b using stay(1) [OF that] by blast
      show "owned batch (Marking ks (marked @ [k])) a \<inter> owned batch (st b) b = {}" if "b \<noteq> a" for b
        unfolding o using stay(2) [OF that] new [of b] by blast
    qed (use split in simp)
  next
    case (lose a k ks marked)
    then have l: "st a = Marking (k # ks) marked" "st' = st(a := Undoing marked)" "S' = S"
      by (auto simp: spend_def split: if_splits)
    have "distinct (batch a)" using assms(3) by simp
    moreover have "marked @ k # ks = batch a" using shape [of a] l(1) by simp
    ultimately have "distinct marked" by (metis distinct_append)
    moreover have "owned batch (Undoing marked) a = owned batch (st a) a" using l(1) by simp
    moreover have "owned batch (st a) a \<subseteq> S - S0" using inv(2) by blast
    ultimately show ?thesis unfolding l(2,3) using inv(1) stay
      by (intro race_inv_update [OF assms(2)]) simp_all
  next
    case (undo a k ks)
    then have u: "st a = Undoing (k # ks)" "st' = st(a := Undoing ks)" "S' = S - {k}"
      by (auto simp: unspend_def)
    have d: "distinct (k # ks)" using shape [of a] u(1) by simp
    have o: "owned batch (st a) a = insert k (set ks)" using u(1) by simp
    have k: "k \<notin> S0" "set ks \<subseteq> S - S0" using inv(2) o by blast+
    have b: "k \<notin> owned batch (st b) b" "set ks \<inter> owned batch (st b) b = {}" if "b \<noteq> a" for b
      using inv(3) that o by blast+
    show ?thesis unfolding u(2,3)
    proof (rule race_inv_update [OF assms(2)])
      show "S0 \<subseteq> S - {k}" using inv(1) k by blast
      show "owned batch (Undoing ks) a \<subseteq> S - {k} - S0" using k d by auto
      show "owned batch (st b) b \<subseteq> S - {k}" if "b \<noteq> a" for b using stay(1) [OF that] b(1) [OF that] by blast
      show "owned batch (Undoing ks) a \<inter> owned batch (st b) b = {}" if "b \<noteq> a" for b using b(2) [OF that] by simp
    qed (use d in simp)
  next
    case (marked a m)
    have "owned batch (st a) a = set (batch a)" using shape [of a] marked by simp
    then have o: "owned batch Accepted a = owned batch (st a) a" by simp
    have "owned batch (st a) a \<subseteq> S - S0" using inv(2) by blast
    then show ?thesis unfolding marked(1,2)
      by (intro race_inv_update [OF assms(2)]) (use inv(1) stay in \<open>simp_all only: o phase.case\<close>)
  next
    case (ignored a k ks marked)
    then show ?thesis using assms(4) by simp
  next
    case (checked a)
    then show ?thesis using inv(1) stay by (simp add: race_inv_update [OF assms(2)])
  next
    case (check a k ks)
    then show ?thesis using inv(1) stay by (simp add: race_inv_update [OF assms(2)])
  next
    case (undone a)
    then show ?thesis using inv(1) stay by (simp add: race_inv_update [OF assms(2)])
  qed
qed

lemma race_inv_start: "race_inv batch S (race_start batch S)"
  by (simp add: race_inv_def race_start_def)

lemma race_inv_run:
  assumes "race_run batch heeds (race_start batch S) sys" "\<forall>a. distinct (batch a)" "\<forall>a. heeds a"
  shows "race_inv batch S sys"
  using assms(1) unfolding race_run_def
proof (induction rule: rtranclp_induct)
  case (step y z)
  then show ?case using race_inv_step [OF _ _ assms(2,3)] by (cases y; cases z) auto
qed (rule race_inv_start)

subsection \<open>The promise: payments are atomic\<close>

text \<open>
  What the protocol promises, without its steps: a payment is atomic. It goes through when none of its keys
  is taken and takes all of them.
\<close>

inductive atomic_pay :: "('a \<Rightarrow> string list) \<Rightarrow> spent_set \<times> 'a set \<Rightarrow> spent_set \<times> 'a set \<Rightarrow> bool"
  for batch :: "'a \<Rightarrow> string list" where
  pay: "a \<notin> paid \<Longrightarrow> set (batch a) \<inter> taken = {} \<Longrightarrow>
     atomic_pay batch (taken, paid) (taken \<union> set (batch a), insert a paid)"

definition accepted_agents :: "('a \<Rightarrow> phase) \<Rightarrow> 'a set" where
  "accepted_agents st = {a. st a = Accepted}"

definition paid_keys :: "('a \<Rightarrow> string list) \<Rightarrow> spent_set \<Rightarrow> ('a \<Rightarrow> phase) \<Rightarrow> spent_set" where
  "paid_keys batch S st = S \<union> (\<Union>a\<in>accepted_agents st. set (batch a))"

lemma accepted_agents_update: "accepted_agents (st(a := ph)) = (if ph = Accepted then insert a (accepted_agents st) else accepted_agents st - {a})"
  by (auto simp: accepted_agents_def)

text \<open>Nothing is marked but what was there and what someone holds.\<close>

definition accounted :: "('a \<Rightarrow> string list) \<Rightarrow> spent_set \<Rightarrow> 'a system \<Rightarrow> bool" where
  "accounted batch S0 sys \<longleftrightarrow> (case sys of (S, st) \<Rightarrow> \<forall>x\<in>S. x \<in> S0 \<or> (\<exists>a. x \<in> owned batch (st a) a))"

lemma accounted_update:
  assumes "accounted batch S0 (S, st)"
    and "\<And>x. x \<in> S' \<Longrightarrow> x \<notin> owned batch ph a \<Longrightarrow> x \<in> S \<and> x \<notin> owned batch (st a) a"
  shows "accounted batch S0 (S', st(a := ph))"
proof -
  have "\<exists>b. x \<in> owned batch ((st(a := ph)) b) b" if x: "x \<in> S'" "x \<notin> S0" for x
  proof (cases "x \<in> owned batch ph a")
    case False
    then have "x \<in> S" "x \<notin> owned batch (st a) a" using assms(2) x(1) by blast+
    then obtain b where "x \<in> owned batch (st b) b" using assms(1) x(2) by (auto simp: accounted_def)
    moreover have "b \<noteq> a" using calculation \<open>x \<notin> owned batch (st a) a\<close> by blast
    ultimately show ?thesis by (intro exI [of _ b]) simp
  qed (auto intro: exI [of _ a])
  then show ?thesis by (auto simp: accounted_def simp del: fun_upd_apply)
qed

lemma accounted_step:
  assumes "race_step batch heeds (S, st) (S', st')" "race_inv batch S0 (S, st)" "accounted batch S0 (S, st)" "\<forall>a. heeds a"
  shows "accounted batch S0 (S', st')"
proof -
  have shape: "case st a of Marking ks marked \<Rightarrow> marked @ ks = batch a | Undoing ks \<Rightarrow> distinct ks | _ \<Rightarrow> True" for a
    using assms(2) by (simp add: race_inv_def)
  from assms(1) show ?thesis
  proof (cases rule: race_step.cases)
    case (win a k ks marked)
    then show ?thesis using accounted_update [OF assms(3), of S' "Marking ks (marked @ [k])" a]
      by (auto simp: spend_def split: if_splits)
  next
    case (lose a k ks marked)
    then show ?thesis using accounted_update [OF assms(3), of S' "Undoing marked" a]
      by (auto simp: spend_def split: if_splits)
  next
    case (undo a k ks)
    then show ?thesis using accounted_update [OF assms(3), of S' "Undoing ks" a] by (auto simp: unspend_def)
  next
    case (marked a m)
    then show ?thesis using shape [of a] accounted_update [OF assms(3), of S' Accepted a] by auto
  next
    case (ignored a k ks marked)
    then show ?thesis using assms(4) by simp
  qed (use accounted_update [OF assms(3)] in auto)
qed

lemma atomic_step:
  assumes "race_step batch heeds (S, st) (S', st')" "race_inv batch S0 (S, st)" "\<forall>a. heeds a"
    and run: "(atomic_pay batch)\<^sup>*\<^sup>* (S0, {}) (paid_keys batch S0 st, accepted_agents st)"
  shows "(atomic_pay batch)\<^sup>*\<^sup>* (S0, {}) (paid_keys batch S0 st', accepted_agents st')"
proof -
  have same: ?thesis if "accepted_agents st' = accepted_agents st" using run that by (simp add: paid_keys_def)
  from assms(1) show ?thesis
  proof (cases rule: race_step.cases)
    case (marked a m)
    have i: "owned batch (st a) a \<subseteq> S - S0" "\<forall>a b. a \<noteq> b \<longrightarrow> owned batch (st a) a \<inter> owned batch (st b) b = {}"
      "case st a of Marking ks marked \<Rightarrow> marked @ ks = batch a | Undoing ks \<Rightarrow> distinct ks | _ \<Rightarrow> True"
      using assms(2) by (simp_all add: race_inv_def)
    have inv: "owned batch (st a) a = set (batch a)" "owned batch (st a) a \<inter> S0 = {}" using i(1,3) marked by auto
    have inv3: "owned batch (st a) a \<inter> owned batch (st b) b = {}" if "b \<noteq> a" for b using i(2) that by blast
    have a: "a \<notin> accepted_agents st" using marked by (simp add: accepted_agents_def)
    moreover have "set (batch a) \<inter> paid_keys batch S0 st = {}"
    proof -
      have "set (batch a) \<inter> set (batch b) = {}" if "b \<in> accepted_agents st" for b
        using that a inv(1) inv3 [of b] by (auto simp: accepted_agents_def)
      then show ?thesis using inv(1,2) by (auto simp: paid_keys_def)
    qed
    ultimately have "atomic_pay batch (paid_keys batch S0 st, accepted_agents st)
        (paid_keys batch S0 st \<union> set (batch a), insert a (accepted_agents st))" by (rule pay)
    moreover have "accepted_agents st' = insert a (accepted_agents st)" using marked by (simp add: accepted_agents_update)
    moreover have "paid_keys batch S0 st' = paid_keys batch S0 st \<union> set (batch a)"
      using calculation(2) by (auto simp: paid_keys_def)
    ultimately show ?thesis using run by simp
  next
    case (ignored a k ks marked)
    then show ?thesis using assms(3) by simp
  qed (rule same; auto simp: accepted_agents_def)+
qed

lemma race_atomic_run:
  assumes "race_run batch heeds (race_start batch S) (S', st)" "\<forall>a. distinct (batch a)" "\<forall>a. heeds a"
  shows "accounted batch S (S', st) \<and> (atomic_pay batch)\<^sup>*\<^sup>* (S, {}) (paid_keys batch S st, accepted_agents st)"
proof -
  have "accounted batch S sys \<and> (atomic_pay batch)\<^sup>*\<^sup>* (S, {}) (paid_keys batch S (snd sys), accepted_agents (snd sys))"
    if "(race_step batch heeds)\<^sup>*\<^sup>* (race_start batch S) sys" for sys
    using that
  proof (induction rule: rtranclp_induct)
    case base
    show ?case by (simp add: accounted_def race_start_def paid_keys_def accepted_agents_def)
  next
    case (step y z)
    obtain T u T' u' where yz: "y = (T, u)" "z = (T', u')" by (cases y; cases z) auto
    have "race_inv batch S (T, u)" using race_inv_run [of batch heeds S y] step.hyps(1) assms(2,3) by (simp add: race_run_def yz)
    then show ?case using step.IH step.hyps(2) accounted_step atomic_step assms(3) unfolding yz snd_conv by blast
  qed
  then show ?thesis using assms(1) unfolding race_run_def by fastforce
qed

subsection \<open>Runs\<close>

text \<open>One agent that runs alone performs exactly the sequential batch of the redemption model.\<close>

lemma undo_alone:
  "st a = Undoing ks \<Longrightarrow> race_run batch heeds (S, st) (fold unspend ks S, st(a := Refused))"
proof (induction ks arbitrary: S st)
  case Nil
  then have "race_step batch heeds (S, st) (S, st(a := Refused))" by (rule undone)
  then show ?case unfolding race_run_def by (simp add: r_into_rtranclp del: fun_upd_apply)
next
  case (Cons k ks)
  have "race_step batch heeds (S, st) (unspend k S, st(a := Undoing ks))" using Cons.prems by (rule undo)
  moreover have "race_run batch heeds (unspend k S, st(a := Undoing ks)) (fold unspend ks (unspend k S), st(a := Refused))"
    using Cons.IH [of "st(a := Undoing ks)" "unspend k S", OF fun_upd_same] by (simp only: fun_upd_upd)
  ultimately show ?case unfolding race_run_def fold_simps by (rule converse_rtranclp_into_rtranclp)
qed

lemma marking_alone:
  "st a = Marking ks m \<Longrightarrow> heeds a \<Longrightarrow> race_run batch heeds (S, st)
     (snd (spend_batch spend unspend ks m S),
      st(a := if fst (spend_batch spend unspend ks m S) then Accepted else Refused))"
proof (induction ks arbitrary: S st m)
  case Nil
  then have "race_step batch heeds (S, st) (S, st(a := Accepted))" by (intro marked) simp
  then show ?case unfolding race_run_def by (simp add: r_into_rtranclp del: fun_upd_apply)
next
  case (Cons k ks)
  obtain won S' where sp: "spend k S = (won, S')" by fastforce
  show ?case
  proof (cases won)
    case True
    have "race_step batch heeds (S, st) (S', st(a := Marking ks (m @ [k])))"
      using Cons.prems(1) sp True by (intro win) auto
    moreover have "race_run batch heeds (S', st(a := Marking ks (m @ [k]))) (snd (spend_batch spend unspend ks (m @ [k]) S'),
        st(a := if fst (spend_batch spend unspend ks (m @ [k]) S') then Accepted else Refused))"
      using Cons.IH [of "st(a := Marking ks (m @ [k]))" "m @ [k]" S', OF fun_upd_same Cons.prems(2)] by (simp only: fun_upd_upd)
    moreover have "spend_batch spend unspend (k # ks) m S = spend_batch spend unspend ks (m @ [k]) S'"
      using sp True by simp
    ultimately show ?thesis unfolding race_run_def by (simp only: converse_rtranclp_into_rtranclp)
  next
    case False
    have "race_step batch heeds (S, st) (S', st(a := Undoing m))"
      using Cons.prems sp False by (intro lose) auto
    moreover have "race_run batch heeds (S', st(a := Undoing m)) (fold unspend m S', st(a := Refused))"
      using undo_alone [of "st(a := Undoing m)" a m batch heeds S', OF fun_upd_same] by (simp only: fun_upd_upd)
    moreover have "spend_batch spend unspend (k # ks) m S = (False, fold unspend m S')"
      using sp False by simp
    ultimately show ?thesis unfolding race_run_def by (simp only: fst_conv snd_conv if_False converse_rtranclp_into_rtranclp)
  qed
qed

text \<open>Two agents, by the truth value that names them.\<close>

definition both :: "phase \<Rightarrow> phase \<Rightarrow> bool \<Rightarrow> phase" where
  "both x y = (\<lambda>b. if b then x else y)"

lemma both_simps [simp]:
  "both x y True = x" "both x y False = y"
  "(both x y)(True := z) = both z y" "(both x y)(False := z) = both x z"
  by (auto simp: both_def)

lemma both_accepted:
  "(race_step (\<lambda>_. [k]) (\<lambda>_. False))\<^sup>*\<^sup>* (race_start (\<lambda>_. [k]) {}) ({k}, both Accepted Accepted)"
proof -
  let ?s = "race_step (\<lambda>_::bool. [k]) (\<lambda>_. False)"
  have "race_start (\<lambda>_. [k]) {} = ({}, both (Checking [k]) (Checking [k]))" by (auto simp: race_start_def both_def)
  moreover have "?s ({}, both (Checking [k]) (Checking [k])) ({}, both (Checking []) (Checking [k]))"
    using check [of "both (Checking [k]) (Checking [k])" True k "[]" "\<lambda>_. [k]" "\<lambda>_. False" "{}"] by (simp add: is_spent_def)
  moreover have "?s ({}, both (Checking []) (Checking [k])) ({}, both (Checking []) (Checking []))"
    using check [of "both (Checking []) (Checking [k])" False k "[]" "\<lambda>_. [k]" "\<lambda>_. False" "{}"] by (simp add: is_spent_def)
  moreover have "?s ({}, both (Checking []) (Checking [])) ({}, both (Marking [k] []) (Checking []))"
    using checked [of "both (Checking []) (Checking [])" True "\<lambda>_. [k]" "\<lambda>_. False" "{}"] by simp
  moreover have "?s ({}, both (Marking [k] []) (Checking [])) ({}, both (Marking [k] []) (Marking [k] []))"
    using checked [of "both (Marking [k] []) (Checking [])" False "\<lambda>_. [k]" "\<lambda>_. False" "{}"] by simp
  moreover have "?s ({}, both (Marking [k] []) (Marking [k] [])) ({k}, both (Marking [] [k]) (Marking [k] []))"
    using win [of "both (Marking [k] []) (Marking [k] [])" True k "[]" "[]" "{}" "{k}" "\<lambda>_. [k]" "\<lambda>_. False"]
    by (simp add: spend_def)
  moreover have "?s ({k}, both (Marking [] [k]) (Marking [k] [])) ({k}, both Accepted (Marking [k] []))"
    using marked [of "both (Marking [] [k]) (Marking [k] [])" True "[k]" "\<lambda>_. [k]" "\<lambda>_. False" "{k}"] by simp
  moreover have "?s ({k}, both Accepted (Marking [k] [])) ({k}, both Accepted (Marking [] []))"
    using ignored [of "both Accepted (Marking [k] [])" False k "[]" "[]" "{k}" "{k}" "\<lambda>_. False" "\<lambda>_. [k]"]
    by (simp add: spend_def)
  moreover have "?s ({k}, both Accepted (Marking [] [])) ({k}, both Accepted Accepted)"
    using marked [of "both Accepted (Marking [] [])" False "[]" "\<lambda>_. [k]" "\<lambda>_. False" "{k}"] by simp
  ultimately show ?thesis by (simp only: converse_rtranclp_into_rtranclp rtranclp.rtrancl_refl)
qed

lemma disjoint_accepted:
  assumes "j \<noteq> k"
  shows "(race_step (\<lambda>b. if b then [j] else [k]) (\<lambda>_. True))\<^sup>*\<^sup>* (race_start (\<lambda>b. if b then [j] else [k]) {})
    ({k, j}, both Accepted Accepted)"
proof -
  let ?b = "\<lambda>b. if b then [j] else [k]"
  let ?s = "race_step ?b (\<lambda>_. True)"
  have "race_start ?b {} = ({}, both (Checking [j]) (Checking [k]))" by (auto simp: race_start_def both_def)
  moreover have "?s ({}, both (Checking [j]) (Checking [k])) ({}, both (Checking []) (Checking [k]))"
    using check [of "both (Checking [j]) (Checking [k])" True j "[]" ?b "\<lambda>_. True" "{}"] by (simp add: is_spent_def)
  moreover have "?s ({}, both (Checking []) (Checking [k])) ({}, both (Checking []) (Checking []))"
    using check [of "both (Checking []) (Checking [k])" False k "[]" ?b "\<lambda>_. True" "{}"] by (simp add: is_spent_def)
  moreover have "?s ({}, both (Checking []) (Checking [])) ({}, both (Marking [j] []) (Checking []))"
    using checked [of "both (Checking []) (Checking [])" True ?b "\<lambda>_. True" "{}"] by simp
  moreover have "?s ({}, both (Marking [j] []) (Checking [])) ({}, both (Marking [j] []) (Marking [k] []))"
    using checked [of "both (Marking [j] []) (Checking [])" False ?b "\<lambda>_. True" "{}"] by simp
  moreover have "?s ({}, both (Marking [j] []) (Marking [k] [])) ({j}, both (Marking [] [j]) (Marking [k] []))"
    using win [of "both (Marking [j] []) (Marking [k] [])" True j "[]" "[]" "{}" "{j}" ?b "\<lambda>_. True"]
    by (simp add: spend_def)
  moreover have "?s ({j}, both (Marking [] [j]) (Marking [k] [])) ({k, j}, both (Marking [] [j]) (Marking [] [k]))"
    using win [of "both (Marking [] [j]) (Marking [k] [])" False k "[]" "[]" "{j}" "{k, j}" ?b "\<lambda>_. True"] assms
    by (simp add: spend_def)
  moreover have "?s ({k, j}, both (Marking [] [j]) (Marking [] [k])) ({k, j}, both Accepted (Marking [] [k]))"
    using marked [of "both (Marking [] [j]) (Marking [] [k])" True "[j]" ?b "\<lambda>_. True" "{k, j}"] by simp
  moreover have "?s ({k, j}, both Accepted (Marking [] [k])) ({k, j}, both Accepted Accepted)"
    using marked [of "both Accepted (Marking [] [k])" False "[k]" ?b "\<lambda>_. True" "{k, j}"] by simp
  ultimately show ?thesis by (simp only: converse_rtranclp_into_rtranclp rtranclp.rtrancl_refl)
qed

subsection \<open>Properties\<close>

text \<open>C7. However many redemptions run at once, in whatever interleaving of their statements on the spent set, no
  key is accepted twice: two accepted batches are disjoint, and none contains a key marked before the start.\<close>

theorem no_concurrent_double_spend:
  assumes "race_run batch heeds (race_start batch S) (S', st)" "\<forall>a. distinct (batch a)" "\<forall>a. heeds a"
    and "st a = Accepted" "st b = Accepted" "a \<noteq> b"
  shows "set (batch a) \<inter> set (batch b) = {} \<and> set (batch a) \<subseteq> S' - S"
proof -
  have inv: "race_inv batch S (S', st)" by (rule race_inv_run [OF assms(1-3)])
  then have "owned batch (st a) a \<inter> owned batch (st b) b = {}" "owned batch (st a) a \<subseteq> S' - S"
    using assms(6) by (auto simp: race_inv_def)
  then show ?thesis using assms(4,5) by simp
qed

lemma no_concurrent_double_spend_witness:
  "set [''a''] \<inter> set [''b''] = ({} :: string set)"
proof -
  let ?batch = "\<lambda>i::bool. if i then [''a''] else [''b'']"
  have "race_run ?batch (\<lambda>_. True) (race_start ?batch {}) ({''b'', ''a''}, both Accepted Accepted)"
    unfolding race_run_def by (rule disjoint_accepted) simp
  from no_concurrent_double_spend [OF this, of True False] show ?thesis by simp
qed

text \<open>C8. Concurrent redemptions implement atomic payments: in every interleaving, the batches accepted so far are
  those of a sequence of atomic payments, each of which found none of its keys taken; their keys are marked;
  and once every batch is decided the spent set is exactly the one those payments leave, so that nothing a
  refused batch marked on the way is left behind.\<close>

theorem concurrent_refines_atomic:
  assumes "race_run batch heeds (race_start batch S) (S', st)" "\<forall>a. distinct (batch a)" "\<forall>a. heeds a"
  shows "\<exists>taken. (atomic_pay batch)\<^sup>*\<^sup>* (S, {}) (taken, {a. st a = Accepted}) \<and> taken \<subseteq> S' \<and>
    ((\<forall>a. st a = Accepted \<or> st a = Refused) \<longrightarrow> S' = taken)"
proof (intro exI conjI impI)
  note run = race_atomic_run [OF assms]
  show "(atomic_pay batch)\<^sup>*\<^sup>* (S, {}) (paid_keys batch S st, {a. st a = Accepted})"
    using run by (simp add: accepted_agents_def)
  have inv: "S \<subseteq> S'" "\<And>a. owned batch (st a) a \<subseteq> S'" using race_inv_run [OF assms] by (auto simp: race_inv_def)
  have "set (batch a) \<subseteq> S'" if "st a = Accepted" for a using inv(2) [of a] that by simp
  then show sub: "paid_keys batch S st \<subseteq> S'" using inv(1) by (auto simp: paid_keys_def accepted_agents_def)
  assume decided: "\<forall>a. st a = Accepted \<or> st a = Refused"
  have "owned batch (st a) a \<subseteq> paid_keys batch S st" for a
    using decided [rule_format, of a] by (auto simp: paid_keys_def accepted_agents_def)
  moreover have "S \<subseteq> paid_keys batch S st" by (simp add: paid_keys_def)
  ultimately have "S' \<subseteq> paid_keys batch S st" using run by (simp add: accounted_def) blast
  then show "S' = paid_keys batch S st" using sub by blast
qed

lemma concurrent_refines_atomic_witness:
  "(atomic_pay (\<lambda>b. if b then [''a''] else [''b'']))\<^sup>*\<^sup>* ({}, {}) ({''b'', ''a''}, UNIV)"
proof -
  let ?batch = "\<lambda>i::bool. if i then [''a''] else [''b'']"
  have run: "race_run ?batch (\<lambda>_. True) (race_start ?batch {}) ({''b'', ''a''}, both Accepted Accepted)"
    unfolding race_run_def by (rule disjoint_accepted) simp
  have all: "both Accepted Accepted b = Accepted" for b by (cases b) simp_all
  from concurrent_refines_atomic [OF run] show ?thesis by (simp add: all)
qed

text \<open>A batch that runs alone does what the sequential model of redemption computes for it, on both outcomes.\<close>

theorem batch_refines:
  assumes "st a = Marking ks []" "heeds a" "spend_batch spend unspend ks [] S = (won, S')"
  shows "race_run batch heeds (S, st) (S', st(a := if won then Accepted else Refused))"
  using marking_alone [of st a ks "[]" heeds batch S] assms by simp

lemma batch_refines_witness:
  "race_run (\<lambda>_. [''a'', ''b'']) (\<lambda>_. True) ({''b''}, \<lambda>_::nat. Marking [''a'', ''b''] [])
     ({''b''}, (\<lambda>_. Marking [''a'', ''b''] [])(0 := if False then Accepted else Refused))"
proof (rule batch_refines)
  show "spend_batch spend unspend [''a'', ''b''] [] {''b''} = (False, {''b''})"
    by (rule spend_batch_collision) simp_all
qed simp_all

text \<open>A redemption that does not look at the result of \<^verbatim>\<open>spend\<close>, as the blind-credit path, can be accepted
  twice for one key: both agents read it unspent before either marks it.\<close>

theorem unheeded_race:
  "\<exists>S' st. race_run (\<lambda>_. [blind_spend_key credit]) (\<lambda>_. False) (race_start (\<lambda>_. [blind_spend_key credit]) {}) (S', st) \<and>
     st True = Accepted \<and> st False = Accepted"
  using both_accepted unfolding race_run_def by fastforce

end
