(* ===== verification/Gateway.thy ===== *)
theory Gateway
  imports Race
begin

text \<open>
  \<^verbatim>\<open>packages/provider-gateway\<close>: the provider's HTTP handlers as functions of the configuration, the
  parsed request and the state they keep (spent set, ledger, rate limiter). A handler returns a response
  or the exception it lets escape, and the state in either case. The spent set may be shared with other
  processes: \<open>others\<close> is what they do to it while the runtime serves the request. Clock readings, the
  runtime adapter and the parsed body are arguments.
\<close>

record chat_result =
  content :: string
  input_tokens :: int
  output_tokens :: int
  chat_model :: string

record adapter =
  adapter_name :: string
  adapter_chat :: "string \<Rightarrow> json list \<Rightarrow> int \<Rightarrow> chat_result res"

record response =
  status_code :: int
  reply :: json

record request =
  headers :: "(string \<times> string) list"
  body :: "json option"

record gateway_config =
  gw_keypair :: keypair
  gw_adapter :: adapter
  allowed_models :: "string list"
  token :: "string option"
  max_output_tokens :: int
  max_input_chars :: int
  rate_limit :: "int option"
  manifest_hash :: string
  price_units :: string
  input_per_1m :: string
  output_per_1m :: string
  gw_manifest :: dict
  require_payment :: bool
  pic_issuers :: "string list"
  accept_schemes :: "string list"

record gateway_state =
  spent_keys :: spent_set
  gw_ledger :: "ledger option"
  hits :: "pyfloat list"

text \<open>The readings of \<^verbatim>\<open>now()\<close> and \<^verbatim>\<open>clock()\<close> during one request.\<close>

record moments =
  at_clock :: pyfloat
  at_check :: int
  at_started :: int
  at_completed :: int
  at_commit :: int

definition error_reply :: "int \<Rightarrow> string \<Rightarrow> response" where
  "error_reply code text = \<lparr>status_code = code, reply = JObj [(''error'', JStr text)]\<rparr>"

subsection \<open>Prices and the rate limiter\<close>

definition format_amount :: "pyfloat \<Rightarrow> string" where
  "format_amount v = (let s = rstrip_char CHR ''.'' (rstrip_char CHR ''0'' (fmt6 (fround 6 v)))
     in if s = [] then ''0'' else s)"

definition per_million :: "int \<Rightarrow> string \<Rightarrow> pyfloat res" where
  "per_million tokens rate =
     rbind (float_of_int tokens) (\<lambda>t. rbind (fdiv t (Fin 1000000)) (\<lambda>q.
     rbind (float_of_str rate) (\<lambda>r. Inr (fmul q r))))"

definition price_amount :: "gateway_config \<Rightarrow> int \<Rightarrow> int \<Rightarrow> string res" where
  "price_amount c n_in n_out =
     rbind (per_million n_in (input_per_1m c)) (\<lambda>a.
     rbind (per_million n_out (output_per_1m c)) (\<lambda>b. Inr (format_amount (fadd a b))))"

text \<open>\<^verbatim>\<open>_RateLimiter.allow\<close>: forget hits older than a minute, then count.\<close>

definition limiter_allow :: "int \<Rightarrow> pyfloat \<Rightarrow> pyfloat list \<Rightarrow> bool \<times> pyfloat list" where
  "limiter_allow limit now seen_hits =
     (let window_start = fsub now (Fin 60);
          live = dropWhile (\<lambda>h. fle h window_start) seen_hits
      in if limit \<le> int (length live) then (False, live) else (True, live @ [now]))"

subsection \<open>Building the app\<close>

definition synthesize_manifest ::
  "platform \<Rightarrow> keypair \<Rightarrow> string list \<Rightarrow> string \<Rightarrow> string \<Rightarrow> string \<Rightarrow> string \<Rightarrow> int \<Rightarrow> string \<Rightarrow> int \<Rightarrow> dict res" where
  "synthesize_manifest P kp allowed adapter units in_rate out_rate max_context logging_policy now =
     rbind (float_of_str in_rate) (\<lambda>i. rbind (float_of_str out_rate) (\<lambda>out.
       sign_provider_manifest P
         [(''schema'', JStr ''sip-ai.provider_manifest.v1''),
          (''provider_pubkey'', JStr (public_key_str P kp)),
          (''node_type'', JStr ''sovereign-node''),
          (''models'', jstrs allowed),
          (''runtime_adapters'', jstrs [adapter]),
          (''pricing'', JObj [(''unit'', JStr units), (''input_per_1m'', JFloat i), (''output_per_1m'', JFloat out)]),
          (''max_context'', JInt max_context),
          (''logging_policy'', JStr logging_policy),
          (''privacy_modes'', jstrs [''direct'']),
          (''published_at'', JStr (utc_iso now))] kp))"

text \<open>
  \<^verbatim>\<open>create_app\<close>: the configuration with its manifest (the caller's, unless none or an empty one is given)
  and the initial state.
\<close>

definition create_app ::
  "platform \<Rightarrow> gateway_config \<Rightarrow> dict option \<Rightarrow> string \<Rightarrow> int \<Rightarrow> spent_set option \<Rightarrow> ledger option \<Rightarrow>
   (gateway_config \<times> gateway_state) res" where
  "create_app P c given logging_policy now shared ledger =
     rbind (case given of
        Some m \<Rightarrow> if m = [] then Inr None else Inr (Some m)
      | None \<Rightarrow> Inr None) (\<lambda>chosen.
     rbind (case chosen of Some m \<Rightarrow> Inr m
        | None \<Rightarrow> synthesize_manifest P (gw_keypair c) (allowed_models c) (adapter_name (gw_adapter c))
            (price_units c) (input_per_1m c) (output_per_1m c) (max_input_chars c) logging_policy now) (\<lambda>m.
       Inr (c\<lparr>gw_manifest := m\<rparr>,
            \<lparr>spent_keys = (case shared of None \<Rightarrow> {} | Some S \<Rightarrow> S), gw_ledger = ledger, hits = []\<rparr>)))"

definition header_or :: "request \<Rightarrow> string \<Rightarrow> string \<Rightarrow> string" where
  "header_or r name fallback = (case map_of (headers r) name of None \<Rightarrow> fallback | Some v \<Rightarrow> v)"

definition auth_ok :: "gateway_config \<Rightarrow> request \<Rightarrow> bool" where
  "auth_ok c r = (case token c of
     None \<Rightarrow> True
   | Some t \<Rightarrow> (case partition_char CHR '' '' (header_or r ''authorization'' []) of (sch, _, presented) \<Rightarrow>
       py_lower sch = ''bearer'' \<and> utf8 presented = utf8 t))"

definition health :: "platform \<Rightarrow> gateway_config \<Rightarrow> response" where
  "health P c = \<lparr>status_code = 200, reply = JObj [(''status'', JStr ''ok''),
     (''provider_pubkey'', JStr (public_key_str P (gw_keypair c))), (''models'', jstrs (allowed_models c))]\<rparr>"

definition manifest_endpoint :: "gateway_config \<Rightarrow> response" where
  "manifest_endpoint c = \<lparr>status_code = 200, reply = JObj (gw_manifest c)\<rparr>"

subsection \<open>The quote handler\<close>

fun positive_int :: "json \<Rightarrow> int option" where
  "positive_int (JInt n) = (if n < 1 then None else Some n)"
| "positive_int v = None"

definition quote_handler :: "platform \<Rightarrow> gateway_config \<Rightarrow> request \<Rightarrow> int \<Rightarrow> response res" where
  "quote_handler P c r now =
     (if \<not> auth_ok c r then Inr (error_reply 401 ''unauthorized'')
      else case body r of
        None \<Rightarrow> Inr (error_reply 400 ''malformed JSON'')
      | Some b \<Rightarrow> (case the_obj b of
          None \<Rightarrow> Inr (error_reply 400 ''body must be an object'')
        | Some d \<Rightarrow>
            (case (the_str (getn d ''request_id''), the_str (getn d ''model''), positive_int (getn d ''max_output_tokens'')) of
               (Some request_id, Some model, Some max_out) \<Rightarrow>
                 if model \<notin> set (allowed_models c) then Inr (error_reply 404 ''unknown model'')
                 else rbind (price_amount c (max_input_chars c) max_out) (\<lambda>max_price.
                      rbind (instant_plus now (300 * second)) (\<lambda>expires_at.
                      rbind (sign_quote P (build_quote
                        \<lparr>q_request_id = request_id, q_provider_pubkey = public_key_str P (gw_keypair c),
                         q_model_alias = model, q_price_units = price_units c,
                         q_input_per_1m = input_per_1m c, q_output_per_1m = output_per_1m c,
                         q_max_output_tokens = max_out, q_max_price = max_price,
                         q_issued_at = now, q_expires_at = expires_at,
                         q_privacy_mode = the_str (getn d ''privacy_mode'')\<rparr>) (gw_keypair c)) (\<lambda>signed.
                        Inr \<lparr>status_code = 200, reply = JObj signed\<rparr>)))
             | _ \<Rightarrow> Inr (error_reply 400 ''missing or invalid fields''))))"

subsection \<open>The chat handler\<close>

definition valid_message :: "json \<Rightarrow> bool" where
  "valid_message m = (case the_obj m of None \<Rightarrow> False
     | Some d \<Rightarrow> the_str (getn d ''role'') \<noteq> None \<and> the_str (getn d ''content'') \<noteq> None)"

definition valid_messages :: "json \<Rightarrow> bool" where
  "valid_messages v = (case the_arr v of None \<Rightarrow> False | Some ms \<Rightarrow> ms \<noteq> [] \<and> list_all valid_message ms)"

text \<open>\<^verbatim>\<open>m["content"]\<close> of a valid message.\<close>

definition content_of :: "json \<Rightarrow> string" where
  "content_of m = (case the_obj m of None \<Rightarrow> []
     | Some d \<Rightarrow> (case the_str (getn d ''content'') of None \<Rightarrow> [] | Some s \<Rightarrow> s))"

definition total_chars :: "json list \<Rightarrow> int" where
  "total_chars ms = sum_list (map (\<lambda>m. int (length (content_of m))) ms)"

definition billed_input :: "json list \<Rightarrow> int" where
  "billed_input ms = sum_list (map (\<lambda>m. int (length (py_split (content_of m)))) ms)"

definition payment_refs :: "dict \<Rightarrow> string list" where
  "payment_refs payment =
     (let sch = getn payment ''scheme'' in
      if sch = JStr ''pic'' then
        (case the_arr (getn payment ''vouchers'') of None \<Rightarrow> []
         | Some vs \<Rightarrow> List.map_filter (\<lambda>d. the_str (getn d ''voucher_id'')) (List.map_filter the_obj vs))
      else if sch = JStr ''x402'' then
        (case the_obj (getn payment ''payment'') of None \<Rightarrow> []
         | Some inner \<Rightarrow> (case the_str (getn inner ''payer_pubkey'') of None \<Rightarrow> [] | Some k \<Rightarrow> [k]))
      else [])"

definition payment_required_response :: "gateway_config \<Rightarrow> string \<Rightarrow> response" where
  "payment_required_response c price = \<lparr>status_code = 402, reply = JObj
     [(''error'', JStr ''payment required''),
      (''sip_payment_required'', JObj (payment_required price (price_units c) (pic_issuers c) (accept_schemes c)))]\<rparr>"

text \<open>The parsed request of the chat endpoint, or the early reply (guards 1 to 4).\<close>

definition chat_request :: "gateway_config \<Rightarrow> request \<Rightarrow> response + (dict \<times> string \<times> json list \<times> int)" where
  "chat_request c r =
     (if \<not> auth_ok c r then Inl (error_reply 401 ''unauthorized'')
      else case body r of
        None \<Rightarrow> Inl (error_reply 400 ''malformed JSON'')
      | Some b \<Rightarrow> (case the_obj b of
          None \<Rightarrow> Inl (error_reply 400 ''body must be an object'')
        | Some d \<Rightarrow> (case (the_str (getn d ''model''), the_arr (getn d ''messages'')) of
            (Some model, Some messages) \<Rightarrow>
              if \<not> valid_messages (JArr messages) then Inl (error_reply 400 ''missing or invalid fields'')
              else (case positive_int (get_or d ''max_tokens'' (JInt 256)) of
                None \<Rightarrow> Inl (error_reply 400 ''invalid max_tokens'')
              | Some max_tokens \<Rightarrow>
                  if model \<notin> set (allowed_models c) then Inl (error_reply 404 ''unknown model'')
                  else if max_output_tokens c < max_tokens then Inl (error_reply 413 ''max_tokens exceeds gateway cap'')
                  else if max_input_chars c < total_chars messages then Inl (error_reply 413 ''input too large'')
                  else Inr (d, model, messages, max_tokens))
          | _ \<Rightarrow> Inl (error_reply 400 ''missing or invalid fields''))))"

definition rate_limited :: "gateway_config \<Rightarrow> pyfloat \<Rightarrow> gateway_state \<Rightarrow> bool \<times> gateway_state" where
  "rate_limited c now s = (case rate_limit c of
     None \<Rightarrow> (False, s)
   | Some limit \<Rightarrow> (case limiter_allow limit now (hits s) of (allowed, hs) \<Rightarrow> (\<not> allowed, s\<lparr>hits := hs\<rparr>)))"

definition gateway_redeem ::
  "platform \<Rightarrow> gateway_config \<Rightarrow> dict \<Rightarrow> string \<Rightarrow> int \<Rightarrow> bool \<Rightarrow> string \<Rightarrow> spent_set \<Rightarrow> (redeem_result \<times> spent_set) res" where
  "gateway_redeem P c payment price now commit request_id S =
     redeem_payment P payment price (price_units c) (pic_issuers c) now commit
       (Some (public_key_str P (gw_keypair c))) (Some request_id) S"

text \<open>Step 6: the price to charge and the verified payment, or the 402 challenge.\<close>

definition check_payment ::
  "platform \<Rightarrow> gateway_config \<Rightarrow> dict \<Rightarrow> json list \<Rightarrow> int \<Rightarrow> int \<Rightarrow> string \<Rightarrow> spent_set \<Rightarrow> (response + string option) res" where
  "check_payment P c payment messages max_tokens now request_id S =
     (if \<not> require_payment c then Inr (Inr None)
      else rbind (price_amount c (billed_input messages) max_tokens) (\<lambda>required.
           rbind (gateway_redeem P c payment required now False request_id S) (\<lambda>(check, _).
             if \<not> ok check then Inr (Inl (payment_required_response c required))
             else Inr (Inr (Some required)))))"

text \<open>Step 8: commit the payment and credit the ledger.\<close>

definition commit_payment ::
  "platform \<Rightarrow> gateway_config \<Rightarrow> dict \<Rightarrow> string option \<Rightarrow> int \<Rightarrow> string \<Rightarrow> gateway_state \<Rightarrow>
   (response option) res \<times> gateway_state" where
  "commit_payment P c payment required now request_id s =
     (case required of None \<Rightarrow> (Inr None, s)
      | Some price \<Rightarrow> (case gateway_redeem P c payment price now True request_id (spent_keys s) of
          Inl e \<Rightarrow> (Inl e, s)
        | Inr (committed, S') \<Rightarrow>
            let s' = s\<lparr>spent_keys := S'\<rparr> in
            if \<not> ok committed then (Inr (Some (payment_required_response c price)), s')
            else (Inr None, s'\<lparr>gw_ledger := map_option (ledger_record (public_key_str P (gw_keypair c)) price
                    (price_units c) (payment_refs payment)) (gw_ledger s')\<rparr>)))"

definition chat_receipt ::
  "platform \<Rightarrow> gateway_config \<Rightarrow> string \<Rightarrow> string \<Rightarrow> string \<Rightarrow> json list \<Rightarrow> chat_result \<Rightarrow> string option \<Rightarrow> moments \<Rightarrow> dict res" where
  "chat_receipt P c request_id privacy_mode model messages result required m =
     rbind (case required of Some price \<Rightarrow> Inr price
        | None \<Rightarrow> price_amount c (input_tokens result) (output_tokens result)) (\<lambda>receipt_price.
     rbind (hash_request P (JStr model) (JArr messages)) (\<lambda>request_hash.
       sign_receipt P (build_receipt
         \<lparr>r_request_id = request_id, r_provider_pubkey = public_key_str P (gw_keypair c),
          r_model_manifest_hash = manifest_hash c, r_model_alias = model, r_runtime = adapter_name (gw_adapter c),
          r_input_tokens = input_tokens result, r_output_tokens = output_tokens result,
          r_price_units = price_units c, r_price_amount = receipt_price, r_privacy_mode = privacy_mode,
          r_started_at = at_started m, r_completed_at = at_completed m,
          r_response_hash = hash_response_body P (content result),
          r_runtime_version = None, r_request_hash = Some request_hash\<rparr>) (gw_keypair c)))"

definition chat_reply :: "string \<Rightarrow> string \<Rightarrow> chat_result \<Rightarrow> dict \<Rightarrow> response" where
  "chat_reply request_id model result receipt = \<lparr>status_code = 200, reply = JObj
     [(''id'', JStr (''chatcmpl-'' @ request_id)), (''object'', JStr ''chat.completion''), (''model'', JStr model),
      (''choices'', JArr [JObj [(''index'', JInt 0),
         (''message'', JObj [(''role'', JStr ''assistant''), (''content'', JStr (content result))]),
         (''finish_reason'', JStr ''stop'')]]),
      (''usage'', JObj [(''prompt_tokens'', JInt (input_tokens result)),
         (''completion_tokens'', JInt (output_tokens result)),
         (''total_tokens'', JInt (input_tokens result + output_tokens result))]),
      (''sip_receipt'', JObj receipt)]\<rparr>"

text \<open>Step 8 to the reply: charge, then sign the receipt of what was served.\<close>

definition chat_finish ::
  "platform \<Rightarrow> gateway_config \<Rightarrow> string \<Rightarrow> string \<Rightarrow> dict \<Rightarrow> string \<Rightarrow> json list \<Rightarrow> chat_result \<Rightarrow> string option \<Rightarrow> moments \<Rightarrow>
   gateway_state \<Rightarrow> response res \<times> gateway_state" where
  "chat_finish P c request_id privacy_mode payment model messages result required m s =
     (case commit_payment P c payment required (at_commit m) request_id s of
        (Inl e, s') \<Rightarrow> (Inl e, s')
      | (Inr (Some challenge), s') \<Rightarrow> (Inr challenge, s')
      | (Inr None, s') \<Rightarrow>
          (rbind (chat_receipt P c request_id privacy_mode model messages result required m)
             (\<lambda>receipt. Inr (chat_reply request_id model result receipt)), s'))"

text \<open>Steps 6 and 7: verify the payment, then call the runtime; only then finish.\<close>

definition chat_serve ::
  "platform \<Rightarrow> gateway_config \<Rightarrow> string \<Rightarrow> string \<Rightarrow> dict \<Rightarrow> string \<Rightarrow> json list \<Rightarrow> int \<Rightarrow> moments \<Rightarrow>
   (spent_set \<Rightarrow> spent_set) \<Rightarrow> gateway_state \<Rightarrow> response res \<times> gateway_state" where
  "chat_serve P c request_id privacy_mode payment model messages max_tokens m others s =
     (case check_payment P c payment messages max_tokens (at_check m) request_id (spent_keys s) of
        Inl e \<Rightarrow> (Inl e, s)
      | Inr (Inl challenge) \<Rightarrow> (Inr challenge, s)
      | Inr (Inr required) \<Rightarrow>
          let s2 = s\<lparr>spent_keys := others (spent_keys s)\<rparr> in
          (case adapter_chat (gw_adapter c) model messages max_tokens of
             Inl e \<Rightarrow> (Inr (error_reply 502 ''runtime error serving the model''), s2)
           | Inr result \<Rightarrow> chat_finish P c request_id privacy_mode payment model messages result required m s2))"

definition sip_payment :: "dict \<Rightarrow> dict" where
  "sip_payment d = (case the_obj (getn d ''sip_payment'') of None \<Rightarrow> [] | Some p \<Rightarrow> p)"

definition chat_completions ::
  "platform \<Rightarrow> gateway_config \<Rightarrow> request \<Rightarrow> moments \<Rightarrow> (spent_set \<Rightarrow> spent_set) \<Rightarrow> gateway_state \<Rightarrow>
   response res \<times> gateway_state" where
  "chat_completions P c r m others s0 =
     (case chat_request c r of
        Inl early \<Rightarrow> (Inr early, s0)
      | Inr (d, model, messages, max_tokens) \<Rightarrow>
          (case rate_limited c (at_clock m) s0 of (limited, s1) \<Rightarrow>
            if limited then (Inr (error_reply 429 ''rate limited''), s1)
            else chat_serve P c (header_or r ''x-sip-request-id'' ''anon'') (header_or r ''x-sip-privacy-mode'' ''direct'')
                   (sip_payment d) model messages max_tokens m others s1))"

subsection \<open>mock.py\<close>

definition word_count :: "string \<Rightarrow> int" where
  "word_count text = int (length (py_split text))"

definition last_user :: "json list \<Rightarrow> string" where
  "last_user ms = foldl (\<lambda>u m. case the_obj m of None \<Rightarrow> u
     | Some d \<Rightarrow> if getn d ''role'' = JStr ''user'' then content_of m else u) [] ms"

definition mock_chat :: "string \<Rightarrow> json list \<Rightarrow> int \<Rightarrow> chat_result res" where
  "mock_chat model messages max_tokens =
     (let answer = ''echo: '' @ last_user messages in
      Inr \<lparr>content = answer, input_tokens = sum_list (map (\<lambda>m. word_count (content_of m)) messages),
           output_tokens = word_count answer, chat_model = model\<rparr>)"

definition mock_adapter :: adapter where
  "mock_adapter = \<lparr>adapter_name = ''llama.cpp'', adapter_chat = mock_chat\<rparr>"

subsection \<open>What a chat request does to the state\<close>

lemma chat_request_refused: "chat_request c r = Inl early \<Longrightarrow> status_code early \<noteq> 200"
  by (auto simp: chat_request_def error_reply_def split: if_splits option.splits)

lemma chat_request_accepted:
  assumes "chat_request c r = Inr (d, model, messages, max_tokens)"
  shows "body r = Some (JObj d)" "model \<in> set (allowed_models c)" "valid_messages (JArr messages)"
    "1 \<le> max_tokens" "max_tokens \<le> max_output_tokens c" "total_chars messages \<le> max_input_chars c"
    "getn d ''messages'' = JArr messages"
proof -
  have "positive_int v = Some n \<Longrightarrow> 1 \<le> n" for v n by (cases v) (auto split: if_splits)
  then show "body r = Some (JObj d)" "model \<in> set (allowed_models c)" "valid_messages (JArr messages)"
    "1 \<le> max_tokens" "max_tokens \<le> max_output_tokens c" "total_chars messages \<le> max_input_chars c"
    "getn d ''messages'' = JArr messages"
    using assms by (auto simp: chat_request_def split: if_splits option.splits)
qed

lemma check_payment_challenge: "check_payment P c p ms n t rid S = Inr (Inl ch) \<Longrightarrow> status_code ch = 402"
  by (auto simp: check_payment_def payment_required_response_def rbind_eq_Inr split: if_splits prod.splits)

lemma check_payment_required:
  "check_payment P c p ms n t rid S = Inr (Inr req) \<Longrightarrow>
     (case req of None \<Rightarrow> \<not> require_payment c
      | Some price \<Rightarrow> require_payment c \<and> price_amount c (billed_input ms) n = Inr price \<and>
          (\<exists>r S1. gateway_redeem P c p price t False rid S = Inr (r, S1) \<and> ok r))"
  by (auto simp: check_payment_def rbind_eq_Inr split: if_splits prod.splits)

text \<open>The two outcomes of committing: nothing marked, or the payment's keys marked and one ledger line more.\<close>

lemma commit_payment_cases:
  assumes "commit_payment P c p req t rid s = (out, s')"
  obtains (free) "req = None" "out = Inr None" "s' = s"
  | (refused) "s' = s" "\<And>x. out = Inr x \<Longrightarrow> \<exists>ch. x = Some ch \<and> status_code ch = 402"
  | (charged) price where "req = Some price" "out = Inr None" "spend_keys p \<noteq> {}" "spend_keys p \<inter> spent_keys s = {}"
      "s' = s\<lparr>spent_keys := spent_keys s \<union> spend_keys p,
              gw_ledger := map_option (ledger_record (public_key_str P (gw_keypair c)) price (price_units c) (payment_refs p)) (gw_ledger s)\<rparr>"
proof (cases req)
  case None
  with assms free show ?thesis by (simp add: commit_payment_def)
next
  case (Some price)
  show ?thesis
  proof (cases "gateway_redeem P c p price t True rid (spent_keys s)")
    case (Inl e)
    with assms Some refused show ?thesis by (auto simp: commit_payment_def)
  next
    case (Inr x)
    obtain r S' where x: "x = (r, S')" by (cases x)
    have run: "redeem_payment P p price (price_units c) (pic_issuers c) t True
        (Some (public_key_str P (gw_keypair c))) (Some rid) (spent_keys s) = Inr (r, S')"
      using Inr x by (simp add: gateway_redeem_def)
    from run show ?thesis
    proof (cases rule: redeem_payment_cases)
      case refused': refused
      have "s\<lparr>spent_keys := spent_keys s\<rparr> = s" by simp
      with refused' assms Some Inr x refused show ?thesis
        by (auto simp: commit_payment_def payment_required_response_def Let_def)
    next
      case accepted
      with assms Some Inr x charged [of price] show ?thesis by (auto simp: commit_payment_def Let_def)
    qed
  qed
qed

lemma rate_limited_state: "rate_limited c t s = (b, s') \<Longrightarrow> spent_keys s' = spent_keys s \<and> gw_ledger s' = gw_ledger s"
  by (auto simp: rate_limited_def split: option.splits prod.splits)

text \<open>The outcomes of each stage.\<close>

lemma chat_finish_cases:
  assumes "chat_finish P c rid mode p model messages result req m s = (Inr resp, s')"
  obtains (unpaid) "status_code resp = 402" "s' = s"
  | (served) receipt where "commit_payment P c p req (at_commit m) rid s = (Inr None, s')"
      "chat_receipt P c rid mode model messages result req m = Inr receipt" "resp = chat_reply rid model result receipt"
proof -
  obtain out s3 where com: "commit_payment P c p req (at_commit m) rid s = (out, s3)" by fastforce
  show ?thesis
  proof (cases out)
    case (Inl e)
    with assms com show ?thesis by (simp add: chat_finish_def)
  next
    case o: (Inr answer)
    show ?thesis
    proof (cases answer)
      case None
      with o com assms served show ?thesis by (auto simp: chat_finish_def rbind_eq_Inr)
    next
      case (Some ch)
      then have "resp = ch" "s' = s3" using o com assms by (simp_all add: chat_finish_def)
      with com o Some unpaid show ?thesis by (elim commit_payment_cases) auto
    qed
  qed
qed

lemma chat_serve_cases:
  assumes "chat_serve P c rid mode p model messages n m others s = (Inr resp, s')"
  obtains (unpaid) "status_code resp \<noteq> 200" "s' = s \<or> s' = s\<lparr>spent_keys := others (spent_keys s)\<rparr>"
  | (served) required result receipt where
      "check_payment P c p messages n (at_check m) rid (spent_keys s) = Inr (Inr required)"
      "adapter_chat (gw_adapter c) model messages n = Inr result"
      "commit_payment P c p required (at_commit m) rid (s\<lparr>spent_keys := others (spent_keys s)\<rparr>) = (Inr None, s')"
      "chat_receipt P c rid mode model messages result required m = Inr receipt"
      "resp = chat_reply rid model result receipt"
proof (cases "check_payment P c p messages n (at_check m) rid (spent_keys s)")
  case (Inl e)
  with assms show ?thesis by (simp add: chat_serve_def)
next
  case chk: (Inr y)
  show ?thesis
  proof (cases y)
    case (Inl ch)
    with chk have "status_code ch = 402" by (simp add: check_payment_challenge)
    with assms chk Inl unpaid show ?thesis by (simp add: chat_serve_def)
  next
    case y: (Inr required)
    show ?thesis
    proof (cases "adapter_chat (gw_adapter c) model messages n")
      case (Inl e)
      with assms chk y unpaid show ?thesis by (auto simp: chat_serve_def Let_def error_reply_def)
    next
      case res: (Inr result)
      have "chat_finish P c rid mode p model messages result required m (s\<lparr>spent_keys := others (spent_keys s)\<rparr>) = (Inr resp, s')"
        using assms chk y res by (simp add: chat_serve_def Let_def)
      then show ?thesis
      proof (cases rule: chat_finish_cases)
        case unpaid': unpaid
        then show ?thesis using unpaid by simp
      next
        case served': (served receipt)
        then show ?thesis using served chk y res by simp
      qed
    qed
  qed
qed

lemma chat_cases:
  assumes "chat_completions P c r m others s0 = (Inr resp, s')"
  obtains (unserved) "status_code resp \<noteq> 200" "spent_keys s' = spent_keys s0 \<or> spent_keys s' = others (spent_keys s0)"
      "gw_ledger s' = gw_ledger s0"
  | (served) d model messages n s1 required result receipt where
      "chat_request c r = Inr (d, model, messages, n)" "spent_keys s1 = spent_keys s0" "gw_ledger s1 = gw_ledger s0"
      "check_payment P c (sip_payment d) messages n (at_check m) (header_or r ''x-sip-request-id'' ''anon'') (spent_keys s1) =
         Inr (Inr required)"
      "adapter_chat (gw_adapter c) model messages n = Inr result"
      "commit_payment P c (sip_payment d) required (at_commit m) (header_or r ''x-sip-request-id'' ''anon'')
         (s1\<lparr>spent_keys := others (spent_keys s1)\<rparr>) = (Inr None, s')"
      "chat_receipt P c (header_or r ''x-sip-request-id'' ''anon'') (header_or r ''x-sip-privacy-mode'' ''direct'')
         model messages result required m = Inr receipt"
      "resp = chat_reply (header_or r ''x-sip-request-id'' ''anon'') model result receipt"
proof (cases "chat_request c r")
  case (Inl early)
  with chat_request_refused [OF Inl] assms unserved show ?thesis by (simp add: chat_completions_def)
next
  case (Inr x)
  obtain d model messages n where x: "x = (d, model, messages, n)" by (cases x)
  obtain limited s1 where lim: "rate_limited c (at_clock m) s0 = (limited, s1)" by fastforce
  note keep = rate_limited_state [OF lim]
  show ?thesis
  proof (cases limited)
    case True
    with assms Inr x lim keep unserved show ?thesis by (auto simp: chat_completions_def error_reply_def)
  next
    case False
    then have "chat_serve P c (header_or r ''x-sip-request-id'' ''anon'') (header_or r ''x-sip-privacy-mode'' ''direct'')
        (sip_payment d) model messages n m others s1 = (Inr resp, s')"
      using assms Inr x lim by (simp add: chat_completions_def)
    then show ?thesis
    proof (cases rule: chat_serve_cases)
      case unpaid
      then show ?thesis using unserved keep by auto
    next
      case served': (served required result receipt)
      then show ?thesis using served Inr x keep by blast
    qed
  qed
qed

lemma chat_receipt_fields:
  assumes "chat_receipt P c rid mode model messages result required m = Inr receipt"
  obtains price rh where "case required of Some p \<Rightarrow> price = p | None \<Rightarrow> price_amount c (input_tokens result) (output_tokens result) = Inr price"
    "hash_request P (JStr model) (JArr messages) = Inr rh"
    "getn receipt ''price_amount'' = JStr price" "getn receipt ''price_units'' = JStr (price_units c)"
    "getn receipt ''provider_pubkey'' = JStr (public_key_str P (gw_keypair c))"
    "getn receipt ''request_hash'' = JStr rh" "getn receipt ''response_hash'' = JStr (hash_response_body P (content result))"
    "getn receipt ''model_alias'' = JStr model" "getn receipt ''request_id'' = JStr rid"
    "\<And>d. schema_accepts P ''receipt'' receipt \<Longrightarrow> ed25519_laws P \<Longrightarrow> \<exists>v. verify_receipt P receipt = Inr v \<and> valid v"
proof -
  obtain price rh args where a: "case required of Some p \<Rightarrow> price = p | None \<Rightarrow> price_amount c (input_tokens result) (output_tokens result) = Inr price"
    "hash_request P (JStr model) (JArr messages) = Inr rh"
    and s: "sign_receipt P (build_receipt args) (gw_keypair c) = Inr receipt"
    and args: "args = \<lparr>r_request_id = rid, r_provider_pubkey = public_key_str P (gw_keypair c),
          r_model_manifest_hash = manifest_hash c, r_model_alias = model, r_runtime = adapter_name (gw_adapter c),
          r_input_tokens = input_tokens result, r_output_tokens = output_tokens result,
          r_price_units = price_units c, r_price_amount = price, r_privacy_mode = mode,
          r_started_at = at_started m, r_completed_at = at_completed m,
          r_response_hash = hash_response_body P (content result),
          r_runtime_version = None, r_request_hash = Some rh\<rparr>"
    using assms by (auto simp: chat_receipt_def rbind_eq_Inr split: option.splits)
  have get: "k \<noteq> ''signature'' \<Longrightarrow> getn receipt k = getn (build_receipt args) k" for k
    by (rule receipt.sign_keeps_fields [OF s])
  have f: "getn (build_receipt args) ''price_amount'' = JStr price" "getn (build_receipt args) ''price_units'' = JStr (price_units c)"
    "getn (build_receipt args) ''provider_pubkey'' = JStr (public_key_str P (gw_keypair c))"
    "getn (build_receipt args) ''request_hash'' = JStr rh"
    "getn (build_receipt args) ''response_hash'' = JStr (hash_response_body P (content result))"
    "getn (build_receipt args) ''model_alias'' = JStr model" "getn (build_receipt args) ''request_id'' = JStr rid"
    by (simp_all add: args build_receipt_def dict_simps) (simp_all add: getn_def)
  show ?thesis
    by (rule that [OF a]) (use get f receipt.signed_is_valid [OF _ s f(3)] in simp_all)
qed

subsection \<open>Printed prices keep their order\<close>

lemma rstrip_char_snoc [simp]:
  "rstrip_char c (s @ [d]) = (if d = c then rstrip_char c s else s @ [d])"
  by (simp add: rstrip_char_def)

lemma rstrip_char_Nil [simp]: "rstrip_char c [] = []"
  by (simp add: rstrip_char_def)

text \<open>The text of a price: digits, and a fraction unless it is zero; the value is unchanged.\<close>

lemma parse_digits:
  assumes "list_all is_digit i" "i \<noteq> []"
  shows "parse_literal i = Some (False, nat_of_digits i, 0)"
proof -
  obtain c r where i: "i = c # r" using assms by (cases i) auto
  have "parse_sign i = (False, i)" using digits_plain(4) [OF assms] .
  moreover have "takeWhile is_digit i = i" "dropWhile is_digit i = []"
    using assms(1) by (simp_all add: list_all_iff takeWhile_eq_all_conv dropWhile_eq_Nil_conv)
  ultimately show ?thesis using assms
    by (simp add: parse_literal_def Let_def parse_exponent_def del: takeWhile_eq_all_conv dropWhile_eq_Nil_conv)
qed

lemma parse_fraction:
  assumes "list_all is_digit i" "i \<noteq> []" "list_all is_digit f"
  shows "parse_literal (i @ CHR ''.'' # f) = Some (False, nat_of_digits (i @ f), - int (length f))"
proof -
  have "\<not> is_digit CHR ''.''" by (simp add: is_digit_def)
  then have t: "takeWhile is_digit (i @ CHR ''.'' # f) = i" "dropWhile is_digit (i @ CHR ''.'' # f) = CHR ''.'' # f"
    using assms(1) by (simp_all add: list_all_iff takeWhile_append dropWhile_append)
  have d: "takeWhile is_digit f = f" "dropWhile is_digit f = []"
    using assms(3) by (simp_all add: list_all_iff takeWhile_eq_all_conv dropWhile_eq_Nil_conv)
  obtain c r where i: "i = c # r" using assms(2) by (cases i) auto
  have "parse_sign (i @ CHR ''.'' # f) = (False, i @ CHR ''.'' # f)"
    using digits_plain(4) [OF assms(1,2)] by (simp add: parse_sign_def i split: if_splits)
  with t d assms(2) show ?thesis
    by (simp add: parse_literal_def Let_def parse_exponent_def del: takeWhile_eq_all_conv dropWhile_eq_Nil_conv)
qed

definition literal_val :: "string \<Rightarrow> rat option" where
  "literal_val s = (case parse_literal s of None \<Rightarrow> None
     | Some (n, m, e) \<Rightarrow> Some ((if n then - 1 else 1) * of_int m * pow10 e))"

lemma nat_of_digits_zero: "nat_of_digits (s @ [CHR ''0'']) = 10 * nat_of_digits s"
  by (simp add: nat_of_digits_snoc digit_val_def)

lemma pow10_Suc_neg: "pow10 (- int (Suc k)) * 10 = pow10 (- int k)"
  using pow10_add [of "- int (Suc k)" 1] by (simp add: pow10_def [of 1])

lemma literal_strip:
  assumes "list_all is_digit i" "i \<noteq> []" "list_all is_digit f" "i @ f \<noteq> []"
  shows "literal_val (rstrip_char CHR ''.'' (rstrip_char CHR ''0'' (i @ CHR ''.'' # f))) =
    Some (of_int (nat_of_digits (i @ f)) * pow10 (- int (length f))) \<and>
    (\<exists>i' f'. rstrip_char CHR ''.'' (rstrip_char CHR ''0'' (i @ CHR ''.'' # f)) = i' @ f' \<and> i' = i \<and>
       (f' = [] \<or> (\<exists>g. f' = CHR ''.'' # g \<and> list_all is_digit g)))"
  using assms(3)
proof (induction f rule: rev_induct)
  case Nil
  obtain c r where i: "i = r @ [c]" using assms(2) by (metis rev_exhaust)
  have "is_digit c" using assms(1) by (simp add: i)
  then have c: "c \<noteq> CHR ''.''" by (auto simp: is_digit_def)
  have "rstrip_char CHR ''0'' (i @ [CHR ''.'']) = i @ [CHR ''.'']" by simp
  moreover have "rstrip_char CHR ''.'' i = i" using c by (simp add: i)
  ultimately show ?case using parse_digits [OF assms(1,2)]
    by (simp add: literal_val_def pow10_def)
next
  case (snoc c f)
  show ?case
  proof (cases "c = CHR ''0''")
    case True
    have "rstrip_char CHR ''0'' (i @ CHR ''.'' # f @ [c]) = rstrip_char CHR ''0'' (i @ CHR ''.'' # f)"
      using rstrip_char_snoc [of "CHR ''0''" "i @ CHR ''.'' # f" c] True by simp
    moreover have "of_int (nat_of_digits (i @ f @ [c])) * pow10 (- int (length (f @ [c]))) =
        of_int (nat_of_digits (i @ f)) * pow10 (- int (length f))"
      using nat_of_digits_zero [of "i @ f"] pow10_Suc_neg [of "length f"] True by simp
    ultimately show ?thesis using snoc by simp
  next
    case False
    have c: "is_digit c" using snoc.prems by simp
    then have "c \<noteq> CHR ''.''" by (auto simp: is_digit_def)
    then have "rstrip_char CHR ''.'' (rstrip_char CHR ''0'' (i @ CHR ''.'' # f @ [c])) = i @ CHR ''.'' # f @ [c]"
      using rstrip_char_snoc [of "CHR ''0''" "i @ CHR ''.'' # f" c] rstrip_char_snoc [of "CHR ''.''" "i @ CHR ''.'' # f" c] False
      by simp
    with parse_fraction [OF assms(1,2) snoc.prems] snoc.prems show ?thesis
      by (auto simp: literal_val_def)
  qed
qed

end
