(* ===== verification/Repr.thy ===== *)
theory Repr
  imports Gateway
begin

text \<open>
  Printing a float and reading it back: \<^verbatim>\<open>float(repr(x)) == x\<close> for every finite double. Seventeen
  significant digits pin a double down, the shorter texts that \<^verbatim>\<open>repr\<close> prefers are checked to, and each of
  the layouts it uses is read as the same decimal.
\<close>

subsection \<open>A decimal close enough\<close>

lemma rne_unique: "\<bar>y - of_int n\<bar> < 1 / 2 \<Longrightarrow> rne y = n"
proof -
  assume y: "\<bar>y - of_int n\<bar> < 1 / 2"
  have "\<bar>of_int (rne y) - y\<bar> \<le> 1 / 2" by (rule rne_near)
  with y have "\<bar>of_int (rne y) - of_int n :: rat\<bar> < 1" by linarith
  then have "\<bar>rne y - n\<bar> < 1" by (metis of_int_diff of_int_abs of_int_1 of_int_less_iff)
  then show ?thesis by simp
qed

lemma pow2_double: "pow2 (k + 1) = 2 * pow2 k"
  by (simp add: pow2_add pow2_def [of 1])

lemma round_pos_near:
  assumes e: "ulp_exp d = e" and x: "x = of_int n * pow2 e" and near: "\<bar>d - x\<bar> < pow2 e / 2"
  shows "round_pos d = x"
proof -
  have "d / pow2 e - of_int n = (d - x) / pow2 e" by (simp add: x diff_divide_distrib)
  then have "\<bar>d / pow2 e - of_int n\<bar> = \<bar>d - x\<bar> / pow2 e" using less_imp_le [OF pow2_pos [of e]] by (simp add: abs_divide)
  also have "\<dots> < 1 / 2" using near pow2_pos [of e] by (simp add: divide_less_eq)
  finally have "rne (d / pow2 e) = n" by (rule rne_unique)
  then show ?thesis by (simp add: round_pos_def e x)
qed

text \<open>Two multiples of a power of two that are less than one step apart are equal.\<close>

lemma grid_step:
  assumes "of_int a * pow2 e < of_int b * pow2 e"
  shows "of_int a * pow2 e + pow2 e \<le> of_int b * pow2 e"
proof -
  have "(of_int a :: rat) < of_int b" using assms pow2_pos [of e] by (simp add: mult_less_cancel_right)
  then have "(of_int (a + 1) :: rat) \<le> of_int b" by (simp only: of_int_le_iff of_int_less_iff)
  then have "of_int (a + 1) * pow2 e \<le> of_int b * pow2 e" by (intro mult_right_mono) (simp_all add: less_imp_le)
  then show ?thesis by (simp add: algebra_simps)
qed

lemma pow2_multiple: "e \<le> k \<Longrightarrow> \<exists>n. pow2 k = of_int n * pow2 e"
  using pow2_add [of "k - e" e] by (intro exI [of _ "2 ^ nat (k - e)"]) (simp add: pow2_def [of "k - e"])

text \<open>A positive double, and a number within \<open>2 ^ (-54)\<close> of it, relatively.\<close>

lemma near_rounds:
  assumes x: "0 < x" "round_pos x = x" and near: "\<bar>d - x\<bar> * 2 ^ 54 < x"
  shows "round_pos d = x"
proof -
  define k e where "k = ilog2 x" and "e = ulp_exp x"
  have k: "pow2 k \<le> x" "x < pow2 (k + 1)" using ilog2_bounds [OF x(1)] by (simp_all add: k_def)
  have e: "k - 52 \<le> e" "- 1074 \<le> e" "e = k - 52 \<or> e = - 1074" by (auto simp: e_def k_def ulp_exp_def)
  define n where "n = rne (x / pow2 e)"
  have n: "x = of_int n * pow2 e" using x(2) by (simp add: round_pos_def n_def e_def)
  have scale: "pow2 54 = 2 ^ 54" by (simp add: pow2_def)
  have gap: "\<bar>d - x\<bar> < pow2 (k - 53)"
  proof -
    have "\<bar>d - x\<bar> * pow2 54 < pow2 (k + 1)" using near k(2) by (simp add: scale)
    also have "\<dots> = pow2 (k - 53) * pow2 54" by (simp add: pow2_add [symmetric] add.commute)
    finally show ?thesis using pow2_pos [of 54] by (simp only: mult_less_cancel_right_pos)
  qed
  have half: "pow2 (k - 53) \<le> pow2 e / 2"
    using pow2_mono [of "k - 52" e] e pow2_double [of "k - 53"] by simp
  have small: "\<bar>d - x\<bar> < pow2 e / 2" using gap half by linarith
  have d: "0 < d"
  proof -
    have "\<bar>d - x\<bar> < x" using near x(1) by simp
    then show ?thesis by linarith
  qed
  show ?thesis
  proof (cases "x \<le> d")
    case True
    have "ulp_exp d = e"
    proof (cases "ilog2 d = k")
      case True then show ?thesis by (simp add: e_def ulp_exp_def k_def)
    next
      case False
      have up: "k < ilog2 d" using ilog2_mono [OF x(1) True] False by (simp add: k_def)
      then have "pow2 (k + 1) \<le> d" using pow2_mono [of "k + 1" "ilog2 d"] ilog2_bounds [OF d] by linarith
      moreover have "pow2 e \<le> pow2 (k + 1)" if "e = k - 52" using that by (intro pow2_mono) simp
      moreover have "d < pow2 (k + 1)" if "e = k - 52"
      proof -
        have "e \<le> k + 1" using that by simp
        then obtain b where b: "pow2 (k + 1) = of_int b * pow2 e" using pow2_multiple by blast
        have "x + pow2 e \<le> pow2 (k + 1)" using grid_step [of n e b] k(2) n b by simp
        then show ?thesis using small pow2_pos [of e] by linarith
      qed
      ultimately have sub: "e \<noteq> k - 52" by fastforce
      with e have "e = - 1074" "k + 1 \<le> - 1022" by auto
      have "d < pow2 (k + 1) + pow2 (k + 1)"
        using gap k(2) pow2_mono [of "k - 53" "k + 1"] by linarith
      then have "d < pow2 (k + 2)" using pow2_double [of "k + 1"] by (simp add: add.commute)
      then have "ilog2 d = k + 1" using \<open>pow2 (k + 1) \<le> d\<close> by (intro ilog2_unique) (simp_all add: add.commute)
      then show ?thesis using \<open>e = - 1074\<close> \<open>k + 1 \<le> - 1022\<close> by (simp add: ulp_exp_def)
    qed
    then show ?thesis by (rule round_pos_near [OF _ n small])
  next
    case False
    then have less: "d < x" by simp
    show ?thesis
    proof (cases "ulp_exp d = e")
      case True
      then show ?thesis by (rule round_pos_near [OF _ n small])
    next
      case ulp: False
      have low: "ilog2 d \<le> k" using ilog2_mono [OF d] less by (simp add: k_def)
      have ek: "e = k - 52" "ilog2 d < k" "- 1074 < e"
        using ulp low e by (auto simp: e_def ulp_exp_def k_def)
      have below: "d < pow2 k" using pow2_mono [of "ilog2 d + 1" k] ek(2) ilog2_bounds [OF d] by linarith
      obtain b where b: "pow2 k = of_int b * pow2 e" using pow2_multiple [of e k] ek(1) by auto
      have xk: "x = pow2 k"
      proof (rule ccontr)
        assume "x \<noteq> pow2 k"
        then have "pow2 k + pow2 e \<le> x" using grid_step [of b e n] k(1) n b by simp
        then show False using small below pow2_pos [of e] by linarith
      qed
      have close: "\<bar>d - x\<bar> < pow2 (k - 54)"
      proof -
        have "\<bar>d - x\<bar> * pow2 54 < pow2 k" using near by (simp add: scale xk)
        also have "\<dots> = pow2 (k - 54) * pow2 54" by (simp add: pow2_add [symmetric])
        finally show ?thesis using pow2_pos [of 54] by (simp only: mult_less_cancel_right_pos)
      qed
      have "pow2 (k - 1) \<le> d"
        using close xk less pow2_mono [of "k - 54" "k - 1"] pow2_double [of "k - 1"] by simp
      then have "ilog2 d = k - 1" using below by (intro ilog2_unique) simp_all
      then have u: "ulp_exp d = k - 53" using ek by (simp add: ulp_exp_def)
      have "x = of_int (2 ^ 53) * pow2 (k - 53)" using pow2_add [of 53 "k - 53"] by (simp add: xk pow2_def [of 53])
      moreover have "\<bar>d - x\<bar> < pow2 (k - 53) / 2" using close pow2_double [of "k - 54"] by simp
      ultimately show ?thesis by (rule round_pos_near [OF u])
    qed
  qed
qed

subsection \<open>Seventeen digits\<close>

lemma pow10_powi: "pow10 e = 10 powi e"
  by (simp add: pow10_def power_int_def field_simps)

lemma pow10_mono: "a \<le> b \<Longrightarrow> pow10 a \<le> pow10 b"
  by (simp add: pow10_powi power_int_increasing)

lemma ilog10_up_bounds:
  "pow10 k \<le> x \<Longrightarrow> x < pow10 (k + 1 + int n) \<Longrightarrow> pow10 (ilog10_up x n k) \<le> x \<and> x < pow10 (ilog10_up x n k + 1)"
proof (induction x n k rule: ilog10_up.induct)
  case (2 x n k)
  show ?case
  proof (cases "pow10 (k + 1) \<le> x")
    case True
    then show ?thesis using 2 by (simp add: add.assoc add.commute add.left_commute)
  qed (use 2 in simp)
qed simp

text \<open>The doubles lie between \<open>10 ^ (-330)\<close> and \<open>10 ^ 310\<close>.\<close>

definition double_range :: "rat \<Rightarrow> bool" where
  "double_range x \<longleftrightarrow> pow2 (- 1074) \<le> x \<and> x < pow2 1024"

lemma ilog10_bounds:
  assumes "double_range x"
  shows "pow10 (ilog10 x) \<le> x \<and> x < pow10 (ilog10 x + 1)"
proof -
  have "pow10 (- 330) \<le> pow2 (- 1074)"
  proof -
    have "(2 ^ 1074 :: rat) \<le> 10 ^ 330" by simp
    then show ?thesis by (simp add: pow10_def pow2_def divide_le_cancel)
  qed
  moreover have "pow2 1024 \<le> pow10 (- 330 + 1 + int 640)" by (simp add: pow10_def pow2_def)
  ultimately show ?thesis
    using ilog10_up_bounds [of "- 330" x 640] assms unfolding ilog10_def double_range_def by fastforce
qed

lemma digits_of_props:
  assumes "double_range x" "0 < n" "digits_of x n = (m, k)"
  shows "10 ^ (n - 1) \<le> m" "m < 10 ^ n" "\<bar>of_int m * pow10 (k - int n + 1) - x\<bar> * (2 * 10 ^ (n - 1)) \<le> x"
proof -
  define j where "j = ilog10 x"
  define s where "s = pow10 (j - int n + 1)"
  define r where "r = rne (x / s)"
  have j: "pow10 j \<le> x" "x < pow10 (j + 1)" using ilog10_bounds [OF assms(1)] by (simp_all add: j_def)
  have pw: "pow10 (int i) = 10 ^ i" for i by (simp add: pow10_def)
  have "s * pow10 (int (n - 1)) = pow10 j" "s * pow10 (int n) = pow10 (j + 1)"
    using assms(2) by (simp_all add: s_def pow10_add [symmetric] of_nat_diff add.commute)
  then have s: "0 < s" "s * 10 ^ (n - 1) = pow10 j" "s * 10 ^ n = pow10 (j + 1)"
    unfolding pw by (simp_all add: s_def)
  have q: "10 ^ (n - 1) \<le> x / s" "x / s \<le> 10 ^ n"
    using j s by (simp_all add: le_divide_eq divide_le_eq mult.commute less_imp_le)
  have "rne (of_int (10 ^ (n - 1))) \<le> r" "r \<le> rne (of_int (10 ^ n))"
    unfolding r_def using q by (intro rne_mono, simp)+
  then have r: "10 ^ (n - 1) \<le> r" "r \<le> 10 ^ n" by (simp_all only: rne_of_int)
  have mk: "(m, k) = (if r = 10 ^ n then (10 ^ (n - 1), j + 1) else (r, j))"
    using assms(3) unfolding digits_of_def Let_def r_def j_def s_def by (rule sym)
  have lt: "(10 :: int) ^ (n - 1) < 10 ^ n" using assms(2) by (intro power_strict_increasing) simp_all
  show "10 ^ (n - 1) \<le> m" using mk r by (auto split: if_splits)
  show "m < 10 ^ n" using mk r lt by (auto split: if_splits)
  have val: "of_int m * pow10 (k - int n + 1) = of_int r * s"
  proof (cases "r = 10 ^ n")
    case True
    then have "m = 10 ^ (n - 1)" "k = j + 1" using mk by auto
    moreover have "pow10 (j + 1 - int n + 1) = 10 * s"
      using pow10_add [of 1 "j - int n + 1"] by (simp add: s_def pow10_def [of 1] algebra_simps)
    moreover have "(10 :: rat) ^ (n - 1) * 10 = 10 ^ n" using assms(2) by (cases n) simp_all
    ultimately show ?thesis using True by (simp add: mult.assoc [symmetric])
  next
    case False
    then show ?thesis using mk by (simp add: s_def)
  qed
  have "of_int r * s - x = (of_int r - x / s) * s" using s(1) by (simp add: left_diff_distrib)
  then have "\<bar>of_int r * s - x\<bar> = \<bar>of_int r - x / s\<bar> * s" using s(1) by (simp add: abs_mult)
  also have "\<dots> \<le> 1 / 2 * s" using rne_near [of "x / s"] s(1) by (intro mult_right_mono) (simp_all add: r_def)
  finally have "\<bar>of_int r * s - x\<bar> * (2 * 10 ^ (n - 1)) \<le> (1 / 2 * s) * (2 * 10 ^ (n - 1))"
    by (rule mult_right_mono) simp
  also have "\<dots> = pow10 j" using s(2) by simp
  finally show "\<bar>of_int m * pow10 (k - int n + 1) - x\<bar> * (2 * 10 ^ (n - 1)) \<le> x"
    using j(1) unfolding val by linarith
qed

text \<open>What the search for the shortest text returns: digits of the asked length whose decimal rounds to the double.\<close>

definition short_digits :: "rat \<Rightarrow> nat \<times> int \<times> int \<Rightarrow> bool" where
  "short_digits x r \<longleftrightarrow> (case r of (n, m, k) \<Rightarrow> 0 < n \<and> 10 ^ (n - 1) \<le> m \<and> m < 10 ^ n \<and>
     round_rat (of_int m * pow10 (k - int n + 1)) = x)"

lemma seventeen_digits:
  assumes "double_range x" "round_rat x = x"
  shows "short_digits x (case digits_of x 17 of (m, k) \<Rightarrow> (17, m, k))"
proof -
  obtain m k where mk: "digits_of x 17 = (m, k)" by fastforce
  define d where "d = of_int m * pow10 (k - int 17 + 1)"
  have b: "10 ^ 16 \<le> m" "m < 10 ^ 17" "\<bar>d - x\<bar> * (2 * 10 ^ 16) \<le> x"
    using digits_of_props [OF assms(1) _ mk] by (simp_all add: d_def)
  have x: "0 < x" using assms(1) pow2_pos [of "- 1074"] unfolding double_range_def by linarith
  then have rx: "round_pos x = x" using assms(2) by (simp add: round_rat_def)
  have "\<bar>d - x\<bar> * 2 ^ 54 < x"
  proof (cases "d = x")
    case False
    then have "\<bar>d - x\<bar> * 2 ^ 54 < \<bar>d - x\<bar> * (2 * 10 ^ 16)" by (intro mult_strict_left_mono) simp_all
    then show ?thesis using b(3) by linarith
  qed (use x in simp)
  then have "round_pos d = x" by (rule near_rounds [OF x rx])
  moreover have "0 < d" using b(1) by (simp add: d_def)
  ultimately have "round_rat d = x" by (simp add: round_rat_def)
  then show ?thesis using b(1,2) by (simp add: short_digits_def mk d_def)
qed

lemma shortest_digits:
  assumes "double_range x" "round_rat x = x" "0 < n"
  shows "short_digits x (shortest x fuel n)"
  using assms(3)
proof (induction fuel arbitrary: n)
  case 0
  then show ?case using seventeen_digits [OF assms(1,2)] by simp
next
  case (Suc fuel)
  obtain m k where mk: "digits_of x n = (m, k)" by fastforce
  then show ?case using Suc digits_of_props [OF assms(1) Suc.prems mk] by (simp add: short_digits_def)
qed

subsection \<open>The layouts\<close>

lemma zeros_digits: "list_all is_digit (replicate n CHR ''0'')"
  by (simp add: list_all_iff is_digit_def)

lemma nat_of_digits_pad: "nat_of_digits (s @ replicate n CHR ''0'') = nat_of_digits s * 10 ^ n"
proof (induction n)
  case (Suc n)
  have "s @ replicate (Suc n) CHR ''0'' = (s @ replicate n CHR ''0'') @ [CHR ''0'']" by (simp add: replicate_append_same)
  then show ?case using Suc nat_of_digits_zero [of "s @ replicate n CHR ''0''"] by simp
qed simp

lemma nat_of_digits_zeros: "nat_of_digits (replicate n CHR ''0'' @ s) = nat_of_digits s"
proof (induction n)
  case (Suc n)
  have "nat_of_digits (CHR ''0'' # t) = nat_of_digits t" for t
    by (simp add: nat_of_digits_def digit_val_def)
  then show ?case using Suc by simp
qed simp

lemma tenth: "10 * a \<le> m \<Longrightarrow> a \<le> m div (10 :: int)"
  by presburger

lemma tenth_less: "m < 10 * b \<Longrightarrow> m div (10 :: int) < b"
  by presburger

lemma str_of_nat_length: "0 < n \<Longrightarrow> 10 ^ (n - 1) \<le> m \<Longrightarrow> m < 10 ^ n \<Longrightarrow> length (str_of_nat m) = n"
proof (induction n arbitrary: m)
  case (Suc n)
  show ?case
  proof (cases "n = 0")
    case True
    then show ?thesis using Suc.prems by (simp add: str_of_nat.simps [of m])
  next
    case False
    then have p: "(10 :: int) ^ n = 10 * 10 ^ (n - 1)" by (cases n) simp_all
    have one: "(1 :: int) \<le> 10 ^ (n - 1)" by simp
    have "10 ^ n \<le> m" using Suc.prems by simp
    then have "10 \<le> m" using p one by linarith
    moreover have "10 ^ (n - 1) \<le> m div 10" "m div 10 < 10 ^ n"
      using Suc.prems p tenth [of "10 ^ (n - 1)" m] tenth_less [of m "10 ^ n"] by simp_all
    ultimately have "10 \<le> m" "10 ^ (n - 1) \<le> m div 10" "m div 10 < 10 ^ n" by simp_all
    then show ?thesis using Suc.IH [of "m div 10"] False by (simp add: str_of_nat.simps [of m])
  qed
qed simp

text \<open>A digit text with an exponent.\<close>

lemma parse_tail:
  assumes "list_all is_digit i" "i \<noteq> []" "f = [] \<and> dot = [] \<or> dot = CHR ''.'' # f \<and> list_all is_digit f"
    and "list_all is_digit ds" "ds \<noteq> []" "sg \<in> {CHR ''-'', CHR ''+''}"
  shows "parse_literal (i @ dot @ CHR ''e'' # sg # ds) =
    Some (False, nat_of_digits (i @ f), (if sg = CHR ''-'' then - nat_of_digits ds else nat_of_digits ds) - int (length f))"
proof -
  have nd: "\<not> is_digit CHR ''.''" "\<not> is_digit CHR ''e''" by (simp_all add: is_digit_def)
  have rest: "\<not> is_digit (hd (dot @ CHR ''e'' # sg # ds))" using assms(3) nd by auto
  obtain a r where i: "i = a # r" using assms(2) by (cases i) auto
  have sign: "parse_sign (i @ t) = (False, i @ t)" for t
    using digits_plain(4) [OF assms(1,2)] by (simp add: parse_sign_def i split: if_splits)
  have t: "takeWhile is_digit (i @ dot @ CHR ''e'' # sg # ds) = i" "dropWhile is_digit (i @ dot @ CHR ''e'' # sg # ds) = dot @ CHR ''e'' # sg # ds"
    using assms(1) rest by (cases dot; simp add: list_all_iff takeWhile_append dropWhile_append)+
  have e: "parse_exponent (CHR ''e'' # sg # ds) = Some (if sg = CHR ''-'' then - nat_of_digits ds else nat_of_digits ds)"
    using assms(4-6) by (auto simp: parse_exponent_def parse_sign_def lower_char_def)
  have f: "takeWhile is_digit (f @ CHR ''e'' # sg # ds) = f" "dropWhile is_digit (f @ CHR ''e'' # sg # ds) = CHR ''e'' # sg # ds"
    if "list_all is_digit f"
    using that nd by (simp_all add: list_all_iff takeWhile_append dropWhile_append)
  show ?thesis
    using assms(2,3) t f e by (auto simp: parse_literal_def sign Let_def)
qed

definition number_char :: "char \<Rightarrow> bool" where
  "number_char c \<longleftrightarrow> is_digit c \<or> c \<in> set ''.e+-''"

lemma number_char_plain: "number_char c \<Longrightarrow> \<not> is_space c \<and> c \<noteq> CHR ''_'' \<and> lower_char c = c"
  by (auto simp: number_char_def is_digit_def is_space_def lower_char_def Let_def)

lemma number_text_plain:
  assumes "list_all number_char s"
  shows "py_strip s = s" "without_underscores s = s" "underscores_ok p s" "py_lower s = s"
proof -
  have drop: "dropWhile is_space xs = xs" if "list_all number_char xs" for xs
    using that number_char_plain by (cases xs) auto
  have "list_all number_char (rev s)" using assms by (simp add: list_all_iff)
  then show "py_strip s = s" using drop assms by (simp add: py_strip_def)
  show "without_underscores s = s" using assms number_char_plain
    by (auto simp: without_underscores_def list_all_iff filter_id_conv)
  show "py_lower s = s" using assms number_char_plain by (auto simp: py_lower_def list_all_iff intro: map_idI)
  show "underscores_ok p s" using assms number_char_plain by (induction s arbitrary: p) auto
qed

text \<open>The text of a positive double: number characters, a digit first, and the value of the digits.\<close>

lemma repr_pos_text:
  assumes "short_digits x (shortest x 16 1)" "shortest x 16 1 = (n, m, k)"
  shows "\<exists>c r v e. repr_pos x = c # r \<and> is_digit c \<and> list_all number_char r \<and>
    parse_literal (repr_pos x) = Some (False, v, e) \<and> of_int v * pow10 e = of_int m * pow10 (k - int n + 1)"
proof -
  define ds p where "ds = str_of_nat m" and "p = k + 1"
  have n: "0 < n" "10 ^ (n - 1) \<le> m" "m < 10 ^ n" using assms by (simp_all add: short_digits_def)
  have "(0 :: int) < 10 ^ (n - 1)" by simp
  then have m: "0 < m" using n(2) by linarith
  have len: "length ds = n" using str_of_nat_length [OF n] by (simp add: ds_def)
  have dig: "list_all is_digit ds" "ds \<noteq> []" "nat_of_digits ds = m" using m str_of_nat_digits [of m] by (simp_all add: ds_def)
  have nc: "is_digit c \<Longrightarrow> number_char c" for c by (simp add: number_char_def)
  have ncs: "list_all is_digit t \<Longrightarrow> list_all number_char t" for t using nc by (auto simp: list_all_iff)
  have dot: "number_char CHR ''.''" "number_char CHR ''0''" "is_digit CHR ''0''" by (simp_all add: number_char_def is_digit_def)
  have pw: "pow10 (int i) = 10 ^ i" for i by (simp add: pow10_def)
  consider (frac) "- 4 < p" "p \<le> 0" | (whole) "0 < p" "p \<le> 16" "int n \<le> p" | (mid) "0 < p" "p \<le> 16" "p < int n"
    | (sci) "\<not> (- 4 < p \<and> p \<le> 16)" by linarith
  then show ?thesis
  proof cases
    case frac
    let ?f = "replicate (nat (- p)) CHR ''0'' @ ds"
    have t: "repr_pos x = ''0'' @ CHR ''.'' # ?f" using frac
      unfolding repr_pos_def assms(2) prod.case Let_def ds_def [symmetric] p_def [symmetric] by simp
    have f: "list_all is_digit ?f" using dig(1) zeros_digits by simp
    have "parse_literal (repr_pos x) = Some (False, nat_of_digits (''0'' @ ?f), - int (length ?f))"
      unfolding t using f dot(3) by (intro parse_fraction) simp_all
    moreover have "nat_of_digits (''0'' @ ?f) = m"
      using nat_of_digits_zeros [of "Suc (nat (- p))" ds] dig(3) by simp
    moreover have "- int (length ?f) = k - int n + 1" using frac by (simp add: len p_def)
    ultimately show ?thesis using t ncs [OF f] dot by auto
  next
    case whole
    let ?i = "ds @ replicate (nat p - n) CHR ''0''"
    have t: "repr_pos x = ?i @ CHR ''.'' # ''0''" using whole len
      unfolding repr_pos_def assms(2) prod.case Let_def ds_def [symmetric] p_def [symmetric] by simp
    have i: "list_all is_digit ?i" "?i \<noteq> []" using dig zeros_digits by simp_all
    have "parse_literal (repr_pos x) = Some (False, nat_of_digits (?i @ ''0''), - int (length ''0''))"
      unfolding t using i dot(3) by (intro parse_fraction) simp_all
    moreover have "nat_of_digits (?i @ ''0'') = 10 * (m * 10 ^ (nat p - n))"
      using nat_of_digits_zero [of ?i] by (simp add: nat_of_digits_pad dig(3))
    ultimately have lit: "parse_literal (repr_pos x) = Some (False, 10 * (m * 10 ^ (nat p - n)), - int (length ''0''))" by simp
    have "of_int (10 * (m * 10 ^ (nat p - n))) * pow10 (- int (length ''0'')) = of_int m * pow10 (k - int n + 1)"
      using whole pw [of "nat p - n"] by (simp add: pow10_def [of "- 1"] p_def of_nat_diff algebra_simps)
    moreover obtain c r where cr: "?i = c # r" using i(2) by (cases ?i) auto
    moreover have "repr_pos x = c # (r @ ''.0'')" using t cr by simp
    moreover have "is_digit c" "list_all number_char (r @ ''.0'')" using i(1) ncs [of r] dot by (simp_all add: cr)
    ultimately show ?thesis using lit by blast
  next
    case mid
    let ?i = "take (nat p) ds" and ?f = "drop (nat p) ds"
    have t: "repr_pos x = ?i @ CHR ''.'' # ?f" using mid len
      unfolding repr_pos_def assms(2) prod.case Let_def ds_def [symmetric] p_def [symmetric] by simp
    have i: "list_all is_digit ?i" "?i \<noteq> []" "list_all is_digit ?f"
      using dig mid by (auto simp: list_all_iff dest: in_set_takeD in_set_dropD)
    have "parse_literal (repr_pos x) = Some (False, nat_of_digits (?i @ ?f), - int (length ?f))"
      unfolding t using i by (intro parse_fraction)
    moreover have "nat_of_digits (?i @ ?f) = m" using dig(3) by simp
    moreover have "- int (length ?f) = k - int n + 1" using mid len by (simp add: p_def of_nat_diff)
    moreover obtain c r where cr: "?i = c # r" using i(2) by (cases ?i) auto
    moreover have "repr_pos x = c # (r @ CHR ''.'' # ?f)" using t cr by simp
    moreover have "is_digit c" "list_all number_char (r @ CHR ''.'' # ?f)" using i ncs dot by (simp_all add: cr)
    ultimately show ?thesis by auto
  next
    case sci
    obtain c r where cr: "ds = c # r" using dig(2) by (cases ds) auto
    define es where "es = pad_left 2 CHR ''0'' (str_of_nat \<bar>k\<bar>)"
    define sg where "sg = (if k < 0 then CHR ''-'' else CHR ''+'')"
    define dotted where "dotted = (if r = [] then [] else CHR ''.'' # r)"
    have t: "repr_pos x = [c] @ dotted @ CHR ''e'' # sg # es"
    proof -
      have "(- 4 < p \<and> p \<le> 16) = False" using sci by simp
      then show ?thesis unfolding repr_pos_def assms(2) prod.case Let_def ds_def [symmetric] p_def [symmetric]
        by (simp only: if_False) (simp add: cr es_def sg_def dotted_def)
    qed
    have es: "list_all is_digit es" "es \<noteq> []" "nat_of_digits es = \<bar>k\<bar>"
      using str_of_nat_digits [of "\<bar>k\<bar>"] zeros_digits by (simp_all add: es_def pad_left_def nat_of_digits_zeros)
    have c: "is_digit c" "list_all is_digit r" using dig(1) by (simp_all add: cr)
    have "parse_literal (repr_pos x) =
        Some (False, nat_of_digits ([c] @ r), (if sg = CHR ''-'' then - nat_of_digits es else nat_of_digits es) - int (length r))"
      unfolding t using c es by (intro parse_tail) (auto simp: dotted_def sg_def)
    moreover have "(if sg = CHR ''-'' then - nat_of_digits es else nat_of_digits es) = k" by (simp add: sg_def es(3))
    moreover have "nat_of_digits ([c] @ r) = m" using dig(3) by (simp add: cr)
    moreover have "k - int (length r) = k - int n + 1" using len by (simp add: cr flip: len)
    moreover have "list_all number_char (dotted @ CHR ''e'' # sg # es)"
      using ncs [OF c(2)] ncs [OF es(1)] by (simp add: dotted_def sg_def number_char_def)
    ultimately show ?thesis using t c by auto
  qed
qed

text \<open>A double, and the sign.\<close>

lemma positive_double_range:
  assumes "to_float x = Fin x" "0 < x"
  shows "double_range x \<and> round_rat x = x"
proof -
  have r: "round_rat x = x" and up: "x < pow2 1024"
    using assms by (auto simp: to_float_def Let_def not_le split: if_splits)
  have rp: "round_pos x = x" using r assms(2) by (simp add: round_rat_def)
  define n where "n = rne (x / pow2 (ulp_exp x))"
  have n: "x = of_int n * pow2 (ulp_exp x)" using rp by (simp add: round_pos_def n_def)
  then have "0 < n" using assms(2) by (metis mult_pos_pos pow2_pos zero_less_mult_pos2 of_int_0_less_iff)
  then have "1 * pow2 (ulp_exp x) \<le> of_int n * pow2 (ulp_exp x)" by (intro mult_right_mono) (simp_all add: less_imp_le)
  moreover have "pow2 (- 1074) \<le> pow2 (ulp_exp x)" by (rule pow2_mono) (simp add: ulp_exp_def)
  ultimately show ?thesis using n up r by (simp add: double_range_def)
qed

lemma read_signed:
  assumes "to_float x = Fin x" "0 < x"
  shows "float_of_str (repr_pos x) = Inr (Fin x)" "float_of_str (CHR ''-'' # repr_pos x) = Inr (to_float (- x))"
proof -
  obtain n m k where nmk: "shortest x 16 1 = (n, m, k)" by (cases "shortest x 16 1")
  have sd: "short_digits x (shortest x 16 1)"
    using positive_double_range [OF assms] by (intro shortest_digits) simp_all
  obtain c r v e where t: "repr_pos x = c # r" "is_digit c" "list_all number_char r" "parse_literal (repr_pos x) = Some (False, v, e)"
    and val: "of_int v * pow10 e = of_int m * pow10 (k - int n + 1)"
    using repr_pos_text [OF sd nmk] by blast
  have all: "list_all number_char (repr_pos x)" "list_all number_char (CHR ''-'' # repr_pos x)"
    using t(1-3) by (simp_all add: number_char_def)
  have c: "c \<noteq> CHR ''-''" "c \<noteq> CHR ''+''" "c \<noteq> CHR ''i''" "c \<noteq> CHR ''n''" using t(2) by (auto simp: is_digit_def)
  have round: "round_rat (of_int v * pow10 e) = x" using sd unfolding nmk short_digits_def prod.case val by blast
  have again: "to_float (of_int v * pow10 e) = Fin x"
    using assms(1) positive_double_range [OF assms] round by (simp add: to_float_def Let_def)
  have neg: "to_float (- (of_int v * pow10 e)) = to_float (- x)"
  proof -
    have flip: "round_rat (- y) = - round_rat y" for y by (auto simp: round_rat_def)
    have "round_rat x = x" using positive_double_range [OF assms] by simp
    then show ?thesis by (simp add: to_float_def Let_def flip round)
  qed
  have sign: "parse_sign (repr_pos x) = (False, repr_pos x)" using c by (simp add: parse_sign_def t(1))
  have lit: "parse_literal (CHR ''-'' # repr_pos x) = Some (True, v, e)"
    using t(4) sign by (auto simp: parse_literal_def parse_sign_def Let_def split: if_splits)
  have names: "repr_pos x \<noteq> ''inf''" "repr_pos x \<noteq> ''infinity''" "repr_pos x \<noteq> ''nan''" using c by (auto simp: t(1))
  show "float_of_str (repr_pos x) = Inr (Fin x)"
    using names sign t(4) again by (simp add: float_of_str_def Let_def number_text_plain [OF all(1)])
  show "float_of_str (CHR ''-'' # repr_pos x) = Inr (to_float (- x))"
    using names lit neg by (simp add: float_of_str_def Let_def number_text_plain [OF all(2)] number_text_plain(3) [OF all(1)] parse_sign_def)
qed

theorem float_repr_read_back:
  assumes "to_float x = Fin x"
  shows "float_of_str (float_repr (Fin x)) = Inr (Fin x)"
proof -
  consider "x = 0" | "0 < x" | "x < 0" by linarith
  then show ?thesis
  proof cases
    case 1
    have "float_of_str ''0.0'' = Inr (Fin 0)"
      by (simp add: float_of_str_def py_strip_def is_space_def parse_sign_def py_lower_def lower_char_def without_underscores_def
          is_digit_def parse_literal_def parse_exponent_def nat_of_digits_def digit_val_def Let_def)
    then show ?thesis by (simp add: 1)
  next
    case 2
    then show ?thesis using read_signed(1) [OF assms] by simp
  next
    case 3
    have "to_float (- x) = Fin (- x)"
    proof -
      have "round_rat (- x) = - round_rat x" by (auto simp: round_rat_def)
      then show ?thesis using assms by (auto simp: to_float_def Let_def split: if_splits)
    qed
    from read_signed(2) [OF this] 3 show ?thesis using assms by simp
  qed
qed

end
