(* ===== verification/Charging.thy ===== *)
theory Charging
  imports Repr
begin

text \<open>
  What a request at the gateway costs: printed prices as numbers and their order, the sliding window of
  the rate limiter, and the properties of the handlers of \<^verbatim>\<open>sip_gateway/app.py\<close>.
\<close>

subsection \<open>Prices as numbers\<close>

lemma nat_of_digits_append: "nat_of_digits (s @ t) = nat_of_digits s * 10 ^ length t + nat_of_digits t"
proof (induction t rule: rev_induct)
  case Nil
  then show ?case by (simp add: nat_of_digits_def)
next
  case (snoc c t)
  then show ?case using nat_of_digits_snoc [of "s @ t" c] by (simp add: nat_of_digits_snoc algebra_simps)
qed

lemma length_str_of_nat: "0 \<le> n \<Longrightarrow> n < 10 ^ Suc k \<Longrightarrow> length (str_of_nat n) \<le> Suc k"
proof (induction k arbitrary: n)
  case 0
  then show ?case by (simp add: str_of_nat.simps [of n])
next
  case (Suc k)
  show ?case
  proof (cases "n < 10")
    case True
    then show ?thesis by (simp add: str_of_nat.simps [of n])
  next
    case False
    have "0 \<le> n div 10" "n div 10 < 10 ^ Suc k" using Suc.prems by (auto simp: div_less_iff_less_mult)
    from Suc.IH [OF this] False show ?thesis by (simp add: str_of_nat.simps [of n])
  qed
qed

lemma fixed6_parts:
  assumes "0 \<le> n"
  shows "\<exists>i f. fixed6 n = i @ CHR ''.'' # f \<and> list_all is_digit i \<and> i \<noteq> [] \<and> list_all is_digit f \<and> length f = 6 \<and>
    nat_of_digits (i @ f) = n"
proof -
  define f where "f = pad_left 6 CHR ''0'' (str_of_nat (n mod 10 ^ 6))"
  have "length (str_of_nat (n mod 10 ^ 6)) \<le> Suc 5" by (rule length_str_of_nat) simp_all
  then have len: "length f = 6" by (simp add: f_def pad_left_def)
  have "list_all is_digit f" using str_of_nat_digits [of "n mod 10 ^ 6"] by (auto simp: f_def pad_left_def list_all_iff is_digit_def)
  moreover have "nat_of_digits (str_of_nat (n div 10 ^ 6) @ f) = n"
  proof -
    have "nat_of_digits f = n mod 10 ^ 6" using nat_of_digits_str [of "n mod 10 ^ 6"] by (simp add: f_def pad_left_def nat_of_digits_zeros)
    moreover have "nat_of_digits (str_of_nat (n div 10 ^ 6)) = n div 10 ^ 6" using assms by (intro nat_of_digits_str) simp
    ultimately show ?thesis by (simp add: nat_of_digits_append len)
  qed
  ultimately show ?thesis
    using assms len str_of_nat_digits [of "n div 10 ^ 6"] by (intro exI [of _ "str_of_nat (n div 10 ^ 6)"] exI [of _ f]) (simp add: fixed6_def f_def)
qed

text \<open>The text of a finite nonnegative price, as a literal.\<close>

definition price_text :: "string \<Rightarrow> bool" where
  "price_text s \<longleftrightarrow> (\<exists>i f. s = i @ f \<and> list_all is_digit i \<and> i \<noteq> [] \<and> (f = [] \<or> (\<exists>g. f = CHR ''.'' # g \<and> list_all is_digit g)))"

lemma format_amount_literal:
  assumes "fround 6 v = Fin x" "0 \<le> x"
  shows "literal_val (format_amount v) = Some (of_int (rne (x * 10 ^ 6)) / 10 ^ 6) \<and> price_text (format_amount v)"
proof -
  define n where "n = rne (x * 10 ^ 6)"
  have "0 \<le> n" using assms(2) by (simp add: n_def rne_nonneg)
  then obtain i f where f: "fixed6 n = i @ CHR ''.'' # f" "list_all is_digit i" "i \<noteq> []" "list_all is_digit f" "length f = 6"
    "nat_of_digits (i @ f) = n" using fixed6_parts by blast
  define s where "s = rstrip_char CHR ''.'' (rstrip_char CHR ''0'' (fixed6 n))"
  from literal_strip [OF f(2-4)] f have lit: "literal_val s = Some (of_int n * pow10 (- 6))" "price_text s"
    by (auto simp: s_def price_text_def)
  have "s \<noteq> []" using lit(2) by (auto simp: price_text_def)
  then have "format_amount v = s" using assms by (simp add: format_amount_def s_def n_def)
  moreover have "(of_int n :: rat) * pow10 (- 6) = of_int n / 10 ^ 6" by (simp add: pow10_def)
  ultimately show ?thesis using lit by (simp add: n_def)
qed

lemma price_text_plain:
  assumes "price_text s"
  shows "py_strip s = s" "without_underscores s = s" "underscores_ok p s" "py_lower s = s" "s \<noteq> []"
    "\<exists>r. parse_sign s = (False, s)" "hd s \<noteq> CHR ''i'' \<and> hd s \<noteq> CHR ''n'' \<and> hd s \<noteq> CHR ''s''"
proof -
  obtain i f where s: "s = i @ f" "list_all is_digit i" "i \<noteq> []" "f = [] \<or> (\<exists>g. f = CHR ''.'' # g \<and> list_all is_digit g)"
    using assms by (auto simp: price_text_def)
  define plain where "plain c \<longleftrightarrow> is_digit c \<or> c = CHR ''.''" for c
  have all: "list_all plain s" using s by (auto simp: plain_def list_all_iff)
  have p: "plain c \<Longrightarrow> \<not> is_space c \<and> c \<noteq> CHR ''_'' \<and> lower_char c = c" for c
    by (auto simp: plain_def is_digit_def is_space_def lower_char_def Let_def)
  have drop: "dropWhile is_space xs = xs" if "list_all plain xs" for xs
    using that p by (cases xs) auto
  have "list_all plain (rev s)" using all by (simp add: list_all_iff)
  then show "py_strip s = s" using drop all by (simp add: py_strip_def)
  show "without_underscores s = s" using all p by (auto simp: without_underscores_def list_all_iff filter_id_conv)
  show "py_lower s = s" using all p by (auto simp: py_lower_def list_all_iff intro: map_idI)
  have "underscores_ok q xs" if "list_all plain xs" for q xs
    using that p by (induction xs arbitrary: q) auto
  then show "underscores_ok p s" using all by blast
  show "s \<noteq> []" using s by simp
  obtain c r where i: "i = c # r" using s(3) by (cases i) auto
  have "is_digit c" using s(2) by (simp add: i)
  then show "hd s \<noteq> CHR ''i'' \<and> hd s \<noteq> CHR ''n'' \<and> hd s \<noteq> CHR ''s''" by (auto simp: s(1) i is_digit_def)
  show "\<exists>r. parse_sign s = (False, s)" using \<open>is_digit c\<close> by (auto simp: s(1) i parse_sign_def is_digit_def)
qed

lemma price_text_words:
  assumes "price_text s"
  shows "s \<noteq> ''inf''" "s \<noteq> ''infinity''" "s \<noteq> ''nan''" "\<not> startswith s ''nan''" "\<not> startswith s ''snan''"
  using price_text_plain(5,7) [OF assms] by (cases s; auto simp: startswith_def)+

lemma literal_val_cases:
  assumes "literal_val s = Some u"
  obtains n m e where "parse_literal s = Some (n, m, e)" "u = (if n then - 1 else 1) * of_int m * pow10 e"
  using assms by (auto simp: literal_val_def split: option.splits)

lemma price_text_float:
  assumes "price_text s" "literal_val s = Some u"
  shows "float_of_str s = Inr (to_float u)"
proof -
  obtain n m e where "parse_literal s = Some (n, m, e)" "u = (if n then - 1 else 1) * of_int m * pow10 e"
    using literal_val_cases [OF assms(2)] .
  moreover have "parse_sign s = (False, s)" using price_text_plain(6) [OF assms(1)] by simp
  ultimately show ?thesis
    using price_text_plain(1,2,4) [OF assms(1)] price_text_plain(3) [OF assms(1), of False] price_text_words [OF assms(1)]
    by (simp add: float_of_str_def)
qed

lemma price_text_dec:
  assumes "price_text s" "literal_val s = Some u"
  shows "\<exists>d. dec_of_str s = Inr d \<and> dec_val d = u \<and> \<not> is_nan d \<and> dec_rank d = 0"
proof -
  obtain n m e where "parse_literal s = Some (n, m, e)" "u = (if n then - 1 else 1) * of_int m * pow10 e"
    using literal_val_cases [OF assms(2)] .
  moreover have "parse_sign s = (False, s)" using price_text_plain(6) [OF assms(1)] by simp
  ultimately show ?thesis
    using price_text_plain(1,2,4) [OF assms(1)] price_text_words [OF assms(1)]
    by (simp add: dec_of_str_def nan_word_def)
qed

subsection \<open>Prices are monotone in the token counts\<close>

lemma to_float_finite:
  assumes "0 \<le> z" "z \<le> pow2 1023"
  shows "\<exists>y. to_float z = Fin y \<and> 0 \<le> y"
proof (cases "z = 0")
  case False
  then have z: "0 < z" using assms(1) by simp
  have step: "pow2 1024 = 2 * pow2 1023" using pow2_add [of 1 1023] by (simp add: pow2_def [of 1])
  have "ilog2 z \<le> 1023"
  proof (rule ccontr)
    assume "\<not> ilog2 z \<le> 1023"
    then have "pow2 1024 \<le> pow2 (ilog2 z)" by (intro pow2_mono) simp
    with ilog2_bounds [OF z] assms(2) step pow2_pos [of 1023] show False by linarith
  qed
  then have "round_pos z \<le> pow2 1023"
    by (intro round_pos_grid_upper [OF z assms(2)]) (simp add: ulp_exp_def)
  moreover have "0 < pow2 1023" by (rule pow2_pos)
  ultimately have "round_pos z < pow2 1024" "- pow2 1024 < round_pos z"
    using step round_pos_nonneg [OF z] by linarith+
  then show ?thesis using z round_pos_nonneg [OF z]
    by (simp add: to_float_def round_rat_def Let_def not_le [symmetric] del: not_le)
qed simp

lemma float_of_int_bounds:
  assumes "float_of_int i = Inr f" "0 \<le> i"
  shows "\<exists>x. f = Fin x \<and> 0 \<le> x \<and> x < pow2 1024"
proof -
  have "f = to_float (of_int i)" using assms(1) by (auto simp: float_of_int_def split: pyfloat.splits)
  moreover have "\<exists>x. f = Fin x" using assms(1) by (cases f) (auto simp: float_of_int_def split: pyfloat.splits)
  moreover have "0 \<le> round_rat (of_int i)" using assms(2) by (intro round_rat_nonneg) simp
  ultimately show ?thesis by (auto simp: to_float_def Let_def split: if_splits)
qed

text \<open>A token count over a million, at a finite nonnegative rate.\<close>

lemma per_million_value:
  assumes "per_million n rate = Inr f" "0 \<le> n" "float_of_str rate = Inr (Fin r)"
  shows "\<exists>x q. float_of_int n = Inr (Fin x) \<and> to_float (x / 1000000) = Fin q \<and> 0 \<le> q \<and> f = fmul (Fin q) (Fin r)"
proof -
  obtain g where g: "float_of_int n = Inr g"
    using assms(1) by (auto simp: per_million_def rbind_eq_Inr)
  obtain x where x: "g = Fin x" "0 \<le> x" "x < pow2 1024" using float_of_int_bounds [OF g assms(2)] by blast
  have "pow2 1024 = 2 * pow2 1023" using pow2_add [of 1 1023] by (simp add: pow2_def [of 1])
  then have "x / 1000000 \<le> pow2 1023" using x by simp
  then obtain q where "to_float (x / 1000000) = Fin q" "0 \<le> q" using to_float_finite [of "x / 1000000"] x by auto
  with g x assms show ?thesis by (auto simp: per_million_def)
qed

lemma per_million_nonneg:
  assumes "per_million n rate = Inr f" "0 \<le> n" "float_of_str rate = Inr (Fin r)" "0 \<le> r"
  shows "fle (Fin 0) f"
  using per_million_value [OF assms(1-3)] assms(4) by (auto intro!: to_float_nonneg)

lemma per_million_mono:
  assumes "per_million n rate = Inr f" "per_million n' rate = Inr f'" "0 \<le> n" "n \<le> n'"
    and "float_of_str rate = Inr (Fin r)" "0 \<le> r"
  shows "fle f f'"
proof -
  obtain x q where a: "float_of_int n = Inr (Fin x)" "to_float (x / 1000000) = Fin q" "f = fmul (Fin q) (Fin r)"
    using per_million_value [OF assms(1,3,5)] by blast
  obtain x' q' where b: "float_of_int n' = Inr (Fin x')" "to_float (x' / 1000000) = Fin q'" "f' = fmul (Fin q') (Fin r)"
    using per_million_value [OF assms(2) _ assms(5)] assms(3,4) by fastforce
  have "to_float (of_int n) = Fin x" "to_float (of_int n') = Fin x'"
    using a(1) b(1) by (auto simp: float_of_int_def split: pyfloat.splits)
  then have "x \<le> x'" using to_float_mono [of "of_int n" "of_int n'"] assms(4) by simp
  then have "q \<le> q'" using to_float_mono [of "x / 1000000" "x' / 1000000"] a b by simp
  then show ?thesis using a b assms(6) by (auto intro!: to_float_mono mult_right_mono)
qed

definition finite_rates :: "gateway_config \<Rightarrow> bool" where
  "finite_rates c \<longleftrightarrow> (\<exists>i out. float_of_str (input_per_1m c) = Inr (Fin i) \<and> 0 \<le> i \<and>
     float_of_str (output_per_1m c) = Inr (Fin out) \<and> 0 \<le> out)"

text \<open>
  The bound behind a quote: fewer tokens cost no more, after rounding and printing, whenever the larger
  price prints as a number at all.
\<close>

lemma price_amount_mono:
  assumes "price_amount c a b = Inr s" "price_amount c a' b' = Inr s'" "finite_rates c"
    and "0 \<le> a" "a \<le> a'" "0 \<le> b" "b \<le> b'" "literal_val s' = Some u'"
  shows "\<exists>u. literal_val s = Some u \<and> u \<le> u' \<and> price_text s \<and> price_text s'"
proof -
  obtain i out where r: "float_of_str (input_per_1m c) = Inr (Fin i)" "0 \<le> i"
    "float_of_str (output_per_1m c) = Inr (Fin out)" "0 \<le> out"
    using assms(3) by (auto simp: finite_rates_def)
  obtain f g where f: "per_million a (input_per_1m c) = Inr f" "per_million b (output_per_1m c) = Inr g"
    "s = format_amount (fadd f g)" using assms(1) by (auto simp: price_amount_def rbind_eq_Inr)
  obtain f' g' where f': "per_million a' (input_per_1m c) = Inr f'" "per_million b' (output_per_1m c) = Inr g'"
    "s' = format_amount (fadd f' g')" using assms(2) by (auto simp: price_amount_def rbind_eq_Inr)
  have nn: "fle (Fin 0) f" "fle (Fin 0) g"
    using per_million_nonneg [OF f(1) assms(4) r(1,2)] per_million_nonneg [OF f(2) assms(6) r(3,4)] .
  have le: "fle (fadd f g) (fadd f' g')"
    by (intro fadd_mono_nonneg nn per_million_mono [OF f(1) f'(1) assms(4,5) r(1,2)] per_million_mono [OF f(2) f'(2) assms(6,7) r(3,4)])
  have "fle (Fin 0) (fadd f g)" using fadd_mono_nonneg [of "Fin 0" "Fin 0" f g] nn by simp
  then have pos: "fle (Fin 0) (fround 6 (fadd f g))" by (rule fround_nonneg)
  have ord: "fle (fround 6 (fadd f g)) (fround 6 (fadd f' g'))" using le by (rule fround_mono)
  have "fround 6 (fadd f' g') \<noteq> PInf"
  proof
    assume "fround 6 (fadd f' g') = PInf"
    then have "s' = ''inf''" by (simp add: f'(3) format_amount_def rstrip_char_def)
    then show False using assms(8) by (simp add: literal_val_def parse_literal_def parse_sign_def is_digit_def Let_def)
  qed
  with pos ord obtain x x' where x: "fround 6 (fadd f g) = Fin x" "fround 6 (fadd f' g') = Fin x'" "0 \<le> x" "x \<le> x'"
    by (cases "fround 6 (fadd f g)"; cases "fround 6 (fadd f' g')") auto
  have le: "rne (x * 10 ^ 6) \<le> rne (x' * 10 ^ 6)" using x(4) by (intro rne_mono mult_right_mono) auto
  have x': "0 \<le> x'" using x by simp
  have "u' = of_int (rne (x' * 10 ^ 6)) / 10 ^ 6" "price_text s'"
    using format_amount_literal [OF x(2) x'] assms(8) f'(3) by simp_all
  moreover have "literal_val s = Some (of_int (rne (x * 10 ^ 6)) / 10 ^ 6)" "price_text s"
    using format_amount_literal [OF x(1,3)] f(3) by simp_all
  moreover have "(of_int (rne (x * 10 ^ 6)) :: rat) / 10 ^ 6 \<le> of_int (rne (x' * 10 ^ 6)) / 10 ^ 6"
    using le by (intro divide_right_mono) simp_all
  ultimately show ?thesis by metis
qed

subsection \<open>The rate limiter over time\<close>

fun limiter_run :: "int \<Rightarrow> pyfloat list \<Rightarrow> pyfloat list \<times> pyfloat list \<Rightarrow> pyfloat list \<times> pyfloat list" where
  "limiter_run limit [] st = st"
| "limiter_run limit (t # ts) (acc, hs) = (case limiter_allow limit t hs of (allowed, hs') \<Rightarrow>
     limiter_run limit ts (if allowed then acc @ [t] else acc, hs'))"

definition limiter_inv :: "int \<Rightarrow> pyfloat \<Rightarrow> pyfloat list \<times> pyfloat list \<Rightarrow> bool" where
  "limiter_inv limit t st \<longleftrightarrow> (case st of (acc, hs) \<Rightarrow>
     int (length hs) \<le> max 0 limit \<and> (\<exists>dead. acc = dead @ hs \<and> (\<forall>h\<in>set dead. fle h (fsub t (Fin 60)))))"

lemma fsub_mono: "fle t t' \<Longrightarrow> fle (fsub t (Fin x)) (fsub t' (Fin x))"
  by (cases t; cases t') (auto simp: fsub_def intro!: to_float_mono fle_PInf fle_NInf)

lemma limiter_step:
  assumes "limiter_inv limit t (acc, hs)" "fle t t'" "limiter_allow limit t' hs = (allowed, hs')"
  shows "limiter_inv limit t' (if allowed then acc @ [t'] else acc, hs')"
proof -
  let ?w = "fsub t' (Fin 60)"
  obtain dead where d: "acc = dead @ hs" "\<forall>h\<in>set dead. fle h (fsub t (Fin 60))" "int (length hs) \<le> max 0 limit"
    using assms(1) by (auto simp: limiter_inv_def)
  have "\<forall>h\<in>set (dead @ takeWhile (\<lambda>h. fle h ?w) hs). fle h ?w"
    using d(2) fle_trans [OF _ fsub_mono [OF assms(2)]] by (auto dest: set_takeWhileD)
  moreover have "acc = (dead @ takeWhile (\<lambda>h. fle h ?w) hs) @ dropWhile (\<lambda>h. fle h ?w) hs" using d(1) by simp
  moreover have "length (dropWhile (\<lambda>h. fle h ?w) hs) \<le> length hs" by (rule length_dropWhile_le)
  ultimately show ?thesis using assms(3) d(3)
    by (auto simp: limiter_inv_def limiter_allow_def Let_def split: if_splits
        intro!: exI [of _ "dead @ takeWhile (\<lambda>h. fle h ?w) hs"])
qed

lemma limiter_run_inv:
  assumes "limiter_inv limit t st" "sorted_wrt fle (t # ts)"
  shows "limiter_inv limit (last (t # ts)) (limiter_run limit ts st)"
  using assms
proof (induction ts arbitrary: t st)
  case (Cons t' ts)
  obtain acc hs allowed hs' where s: "st = (acc, hs)" "limiter_allow limit t' hs = (allowed, hs')" by (metis surj_pair)
  have "limiter_inv limit t' (if allowed then acc @ [t'] else acc, hs')"
    using limiter_step Cons.prems s by simp
  from Cons.IH [OF this] Cons.prems s show ?case by simp
qed simp

text \<open>C16. The rate limiter keeps its limit: for clock readings that never go back, at every reading the number of
  requests it has accepted in the last minute is at most the limit.\<close>

theorem rate_limit_window:
  assumes "sorted_wrt fle (ts @ [t])" "t \<noteq> NaN"
  shows "int (length (filter (\<lambda>h. \<not> fle h (fsub t (Fin 60))) (fst (limiter_run limit (ts @ [t]) ([], []))))) \<le> max 0 limit"
proof -
  obtain u us where u: "ts @ [t] = u # us" by (cases "ts @ [t]") auto
  have "limiter_inv limit u ([], [])" by (simp add: limiter_inv_def)
  moreover have "u \<noteq> NaN" using assms u by (cases ts) auto
  then have "fle u u" by (rule fle_refl)
  ultimately have "limiter_inv limit (last (u # u # us)) (limiter_run limit (u # us) ([], []))"
    using assms(1) by (intro limiter_run_inv) (auto simp: u)
  then have "limiter_inv limit t (limiter_run limit (ts @ [t]) ([], []))" by (metis last_ConsR last_snoc list.distinct(1) u)
  then obtain dead hs where d: "fst (limiter_run limit (ts @ [t]) ([], [])) = dead @ hs"
    "int (length hs) \<le> max 0 limit" "\<forall>h\<in>set dead. fle h (fsub t (Fin 60))"
    by (auto simp: limiter_inv_def split: prod.splits)
  have "filter (\<lambda>h. \<not> fle h (fsub t (Fin 60))) dead = []" using d(3) by (simp add: filter_empty_conv)
  moreover have "int (length (filter (\<lambda>h. \<not> fle h (fsub t (Fin 60))) hs)) \<le> int (length hs)"
    by (simp add: length_filter_le)
  ultimately show ?thesis using d(1,2) by (simp only: filter_append append_Nil)
qed

lemma rate_limit_window_witness:
  "int (length (filter (\<lambda>h. \<not> fle h (fsub (Fin 61) (Fin 60)))
     (fst (limiter_run 2 ([Fin 0, Fin 10, Fin 20] @ [Fin 61]) ([], []))))) \<le> max 0 2"
  by (rule rate_limit_window) simp_all

subsection \<open>A paid request is served\<close>

lemma chat_receipt_total:
  assumes "list_all json_ok messages" "required \<noteq> None"
  shows "\<exists>receipt. chat_receipt P c rid mode model messages result required m = Inr receipt"
proof -
  obtain price where "required = Some price" using assms(2) by auto
  moreover obtain h where "hash_request P (JStr model) (JArr messages) = Inr h" using hash_request_total [OF assms(1)] by blast
  ultimately show ?thesis by (simp add: chat_receipt_def sign_receipt_def sign_document_total [OF build_receipt_ok])
qed

text \<open>A payment that covers the price, is bound to this request and has a fresh nonce passes both checks.\<close>

definition covering_payment ::
  "platform \<Rightarrow> gateway_config \<Rightarrow> string \<Rightarrow> string \<Rightarrow> moments \<Rightarrow> spent_set \<Rightarrow> spent_set \<Rightarrow> dict \<Rightarrow> bool" where
  "covering_payment P c price rid m S S' payment \<longleftrightarrow> (\<exists>kp amount t0 fresh nonce a p.
     build_x402_payment P kp amount (price_units c) t0 fresh (Some nonce) (Some (public_key_str P (gw_keypair c))) (Some rid) =
       Inr payment \<and> nonce \<noteq> [] \<and> valid_instant t0 \<and> four_digit_instant t0 \<and>
     at_check m \<le> whole_seconds t0 + 300 * second \<and> at_commit m \<le> whole_seconds t0 + 300 * second \<and>
     dec_of_str amount = Inr a \<and> dec_of_str price = Inr p \<and> dec_lt a p = Inr False \<and>
     x402_key nonce \<notin> S \<and> x402_key nonce \<notin> S')"

lemma covering_payment_redeems:
  assumes "covering_payment P c price rid m S S' payment" "ed25519_laws P" "isoformat_law P"
  shows "\<exists>r. gateway_redeem P c payment price (at_check m) False rid S = Inr (r, S) \<and> ok r"
    and "\<exists>r. gateway_redeem P c payment price (at_commit m) True rid S' = Inr (r, S' \<union> spend_keys payment) \<and> ok r"
proof -
  obtain kp amount t0 fresh nonce a p where b: "build_x402_payment P kp amount (price_units c) t0 fresh (Some nonce)
      (Some (public_key_str P (gw_keypair c))) (Some rid) = Inr payment"
    and r: "nonce \<noteq> []" "valid_instant t0" "four_digit_instant t0" "at_check m \<le> whole_seconds t0 + 300 * second"
      "at_commit m \<le> whole_seconds t0 + 300 * second"
      "dec_of_str amount = Inr a" "dec_of_str price = Inr p" "dec_lt a p = Inr False"
      "x402_key nonce \<notin> S" "x402_key nonce \<notin> S'"
    using assms(1) by (auto simp: covering_payment_def)
  note v1 = built_x402_verifies [OF assms(2,3) b r(1-4,6-8)] and v2 = built_x402_verifies [OF assms(2,3) b r(1-3,5-8)]
  have sch: "getn payment ''scheme'' = JStr ''x402''"
    using v1(1) by (auto simp: verify_x402_payment_def split: if_splits)
  then have keys: "spend_keys payment = {x402_key nonce}" using v1(2) by (simp add: spend_keys_def)
  show "\<exists>r. gateway_redeem P c payment price (at_check m) False rid S = Inr (r, S) \<and> ok r"
    using v1 sch r(9) by (simp add: gateway_redeem_def redeem_payment_def redeem_x402_def is_spent_def Let_def)
  show "\<exists>r. gateway_redeem P c payment price (at_commit m) True rid S' = Inr (r, S' \<union> spend_keys payment) \<and> ok r"
    using v2 sch r(10) by (simp add: gateway_redeem_def redeem_payment_def redeem_x402_def is_spent_def spend_def Let_def keys)
qed

lemma covering_payment_passes:
  assumes "covering_payment P c price rid m (spent_keys s) (spent_keys s') payment" "ed25519_laws P" "isoformat_law P"
    and "require_payment c" "price_amount c (billed_input messages) n = Inr price"
  shows "check_payment P c payment messages n (at_check m) rid (spent_keys s) = Inr (Inr (Some price))"
    and "\<exists>s''. commit_payment P c payment (Some price) (at_commit m) rid s' = (Inr None, s'')"
  using covering_payment_redeems [OF assms(1-3)] assms(4,5) by (auto simp: check_payment_def commit_payment_def Let_def)

lemma covering_request_served:
  assumes "chat_request c r = Inr (d, model, messages, n)" "rate_limited c (at_clock m) s0 = (False, s1)"
    and "require_payment c" "price_amount c (billed_input messages) n = Inr price"
    and "covering_payment P c price (header_or r ''x-sip-request-id'' ''anon'') m (spent_keys s0) (others (spent_keys s0)) (sip_payment d)"
    and "adapter_chat (gw_adapter c) model messages n = Inr result" "list_all json_ok messages"
    and "ed25519_laws P" "isoformat_law P"
  shows "\<exists>receipt s'. chat_completions P c r m others s0 =
    (Inr (chat_reply (header_or r ''x-sip-request-id'' ''anon'') model result receipt), s')"
proof -
  let ?rid = "header_or r ''x-sip-request-id'' ''anon''"
  let ?s2 = "s1\<lparr>spent_keys := others (spent_keys s1)\<rparr>"
  have "spent_keys s1 = spent_keys s0" using rate_limited_state [OF assms(2)] by simp
  then have cov: "covering_payment P c price ?rid m (spent_keys s1) (spent_keys ?s2) (sip_payment d)" using assms(5) by simp
  note pass = covering_payment_passes [OF cov assms(8,9,3,4)]
  obtain s3 where com: "commit_payment P c (sip_payment d) (Some price) (at_commit m) ?rid ?s2 = (Inr None, s3)" using pass(2) ..
  obtain receipt where "chat_receipt P c ?rid (header_or r ''x-sip-privacy-mode'' ''direct'') model messages result (Some price) m = Inr receipt"
    using chat_receipt_total [OF assms(7)] by blast
  then show ?thesis using assms(1,2,6) pass(1) com by (auto simp: chat_completions_def chat_serve_def chat_finish_def Let_def)
qed

subsection \<open>Inputs\<close>

definition demo_gateway :: gateway_config where
  "demo_gateway = \<lparr>gw_keypair = demo_key 3, gw_adapter = mock_adapter, allowed_models = [''m''], token = None,
     max_output_tokens = 1000000, max_input_chars = 1000000, rate_limit = Some 2, manifest_hash = ''sha256:0'', price_units = ''pic'',
     input_per_1m = ''1'', output_per_1m = ''4'', gw_manifest = [], require_payment = True,
     pic_issuers = [], accept_schemes = [''pic'', ''x402'']\<rparr>"

definition demo_message :: "json \<Rightarrow> json" where
  "demo_message extra = JObj [(''role'', JStr ''user''), (''content'', JStr '' ''), (''x'', extra)]"

definition demo_pay :: dict where
  "demo_pay = (case build_x402_payment demo (demo_key 9) ''4'' ''pic'' demo_now [] (Some ''n1'')
     (Some (public_key_str demo (demo_key 3))) (Some ''req'') of Inl e \<Rightarrow> [] | Inr d \<Rightarrow> d)"

definition demo_chat :: "json \<Rightarrow> request" where
  "demo_chat extra = \<lparr>headers = [(''x-sip-request-id'', ''req'')], body = Some (JObj
     [(''model'', JStr ''m''), (''messages'', JArr [demo_message extra]), (''max_tokens'', JInt 1000000),
      (''sip_payment'', JObj demo_pay)])\<rparr>"

definition demo_moments :: moments where
  "demo_moments = \<lparr>at_clock = Fin 0, at_check = demo_now, at_started = demo_now, at_completed = demo_now + second,
     at_commit = demo_now + second\<rparr>"

definition demo_state :: gateway_state where
  "demo_state = \<lparr>spent_keys = {''z''}, gw_ledger = Some (open_ledger False None), hits = []\<rparr>"

lemma demo_paid:
  "build_x402_payment demo (demo_key 9) ''4'' ''pic'' demo_now [] (Some ''n1'')
     (Some (public_key_str demo (demo_key 3))) (Some ''req'') = Inr demo_pay"
  by code_simp

lemma demo_four: "dec_of_str ''4'' = Inr (DFin False 4 0)" "dec_lt (DFin False 4 0) (DFin False 4 0) = Inr False"
  by code_simp+

lemma demo_request:
  "chat_request demo_gateway (demo_chat extra) = Inr ([(''model'', JStr ''m''), (''messages'', JArr [demo_message extra]),
     (''max_tokens'', JInt 1000000), (''sip_payment'', JObj demo_pay)], ''m'', [demo_message extra], 1000000)"
  by (simp add: chat_request_def auth_ok_def demo_gateway_def demo_chat_def getn_def get_or_def valid_messages_def
      valid_message_def demo_message_def total_chars_def content_of_def)

lemmas literal_simps = float_of_str_def dec_of_str_def literal_val_def parse_literal_def parse_sign_def parse_exponent_def
  is_digit_def nat_of_digits_def digit_val_def pow10_def py_strip_def is_space_def py_lower_def lower_char_def
  without_underscores_def startswith_def

lemma demo_rate: "float_of_str ''1'' = Inr (Fin 1)" "float_of_str ''4'' = Inr (Fin 4)"
  by (simp_all add: literal_simps to_float_1 to_float_numeral Let_def)

lemma demo_billed: "billed_input [demo_message extra] = 0"
  by (simp add: billed_input_def demo_message_def content_of_def getn_def py_split_def is_space_def Let_def)

lemma demo_amount: "format_amount (Fin 4) = ''4''" "format_amount (Fin 5) = ''5''"
  by (simp_all add: format_amount_def to_float_numeral rne_of_int [of "4 * 10 ^ 6", simplified] rne_of_int [of "5 * 10 ^ 6", simplified])
    code_simp+

lemma demo_prices: "price_amount demo_gateway 0 1000000 = Inr ''4''" "price_amount demo_gateway 1000000 1000000 = Inr ''5''"
  using demo_rate demo_amount
  by (simp_all add: price_amount_def per_million_def demo_gateway_def float_of_int_def to_float_1 to_float_numeral)

lemma demo_header: "header_or (demo_chat extra) ''x-sip-request-id'' ''anon'' = ''req''"
  by (simp add: header_or_def demo_chat_def)

lemma demo_covers:
  "covering_payment demo demo_gateway ''4'' ''req'' demo_moments {''z''} {''z''} demo_pay"
proof -
  have "build_x402_payment demo (demo_key 9) ''4'' (price_units demo_gateway) demo_now [] (Some ''n1'')
     (Some (public_key_str demo (gw_keypair demo_gateway))) (Some ''req'') = Inr demo_pay"
    using demo_paid by (simp add: demo_gateway_def)
  moreover have "x402_key ''n1'' \<notin> {''z''}" by (simp add: x402_key_def)
  ultimately show ?thesis unfolding covering_payment_def
    by (intro exI [of _ "demo_key 9"] exI [of _ "''4''"] exI [of _ demo_now] exI [of _ "[]"] exI [of _ "''n1''"]
        exI [of _ "DFin False 4 0"]) (simp add: demo_dates demo_four demo_moments_def second_def)
qed

lemma demo_limit: "rate_limited demo_gateway (at_clock demo_moments) demo_state = (False, demo_state\<lparr>hits := [Fin 0]\<rparr>)"
  by (simp add: rate_limited_def demo_gateway_def demo_moments_def demo_state_def limiter_allow_def Let_def)

lemma demo_answers: "\<exists>result. adapter_chat (gw_adapter demo_gateway) ''m'' ms 1000000 = Inr result"
  by (simp add: demo_gateway_def mock_adapter_def mock_chat_def Let_def)

lemma demo_sip_payment:
  "sip_payment [(''model'', JStr ''m''), (''messages'', JArr ms), (''max_tokens'', JInt 1000000), (''sip_payment'', JObj demo_pay)] = demo_pay"
  by (simp add: sip_payment_def getn_def)

lemma demo_premises:
  "require_payment demo_gateway"
  "price_amount demo_gateway (billed_input [demo_message extra]) 1000000 = Inr ''4''"
  "covering_payment demo demo_gateway ''4'' (header_or (demo_chat extra) ''x-sip-request-id'' ''anon'') demo_moments
     (spent_keys demo_state) (id (spent_keys demo_state))
     (sip_payment [(''model'', JStr ''m''), (''messages'', JArr [demo_message extra]), (''max_tokens'', JInt 1000000), (''sip_payment'', JObj demo_pay)])"
  "json_ok extra \<Longrightarrow> list_all json_ok [demo_message extra]"
proof -
  show "require_payment demo_gateway" by (simp add: demo_gateway_def)
  show "price_amount demo_gateway (billed_input [demo_message extra]) 1000000 = Inr ''4''" by (simp only: demo_billed demo_prices)
  show "covering_payment demo demo_gateway ''4'' (header_or (demo_chat extra) ''x-sip-request-id'' ''anon'') demo_moments
     (spent_keys demo_state) (id (spent_keys demo_state))
     (sip_payment [(''model'', JStr ''m''), (''messages'', JArr [demo_message extra]), (''max_tokens'', JInt 1000000), (''sip_payment'', JObj demo_pay)])"
    using demo_covers by (simp only: demo_header demo_sip_payment demo_state_def gateway_state.simps id_apply)
  show "json_ok extra \<Longrightarrow> list_all json_ok [demo_message extra]" by (simp add: demo_message_def)
qed

lemma demo_chat_served:
  "\<exists>result receipt s'. chat_completions demo demo_gateway (demo_chat JNull) demo_moments id demo_state =
     (Inr (chat_reply ''req'' ''m'' result receipt), s')"
proof -
  obtain result where a: "adapter_chat (gw_adapter demo_gateway) ''m'' [demo_message JNull] 1000000 = Inr result" using demo_answers by blast
  have "list_all json_ok [demo_message JNull]" by (rule demo_premises) simp
  from covering_request_served [where others = id, OF demo_request [of JNull] demo_limit demo_premises(1-3) a this demo_laws demo_isoformat]
  show ?thesis by (auto simp: demo_header)
qed

subsection \<open>Properties of the handlers\<close>

text \<open>C13. Charge on success: a request that is answered with anything but 200 leaves the ledger alone and marks no
  key of its own; a served request at a gateway that requires payment marks exactly its payment's keys,
  none of which was marked before, and records one ledger line for the price its receipt states.\<close>

theorem charge_on_success:
  assumes "chat_completions P c r m others s0 = (Inr resp, s')"
  shows "if status_code resp = 200 \<and> require_payment c then
      \<exists>d payment price receipt. body r = Some (JObj d) \<and> payment = sip_payment d \<and>
        spend_keys payment \<noteq> {} \<and> spend_keys payment \<inter> others (spent_keys s0) = {} \<and>
        spent_keys s' = others (spent_keys s0) \<union> spend_keys payment \<and>
        gw_ledger s' = map_option (ledger_record (public_key_str P (gw_keypair c)) price (price_units c)
          (payment_refs payment)) (gw_ledger s0) \<and>
        reply resp = JObj (dict_set ''sip_receipt'' (JObj receipt) (the (the_obj (reply resp)))) \<and>
        getn receipt ''price_amount'' = JStr price
    else gw_ledger s' = gw_ledger s0 \<and> (spent_keys s' = spent_keys s0 \<or> spent_keys s' = others (spent_keys s0))"
  using assms
proof (cases rule: chat_cases)
  case unserved
  then show ?thesis by simp
next
  case (served d model messages n s1 required result receipt)
  have resp: "status_code resp = 200"
    "reply resp = JObj (dict_set ''sip_receipt'' (JObj receipt) (the (the_obj (reply resp))))"
    by (simp_all add: served(8) chat_reply_def)
  obtain p where p: "case required of Some x \<Rightarrow> p = x | None \<Rightarrow> price_amount c (input_tokens result) (output_tokens result) = Inr p"
    "getn receipt ''price_amount'' = JStr p" using chat_receipt_fields [OF served(7)] by metis
  from served(6) show ?thesis
  proof (cases rule: commit_payment_cases)
    case free
    then have "\<not> require_payment c" using check_payment_required [OF served(4)] by simp
    with free served show ?thesis by simp
  next
    case refused
    then show ?thesis by blast
  next
    case (charged price)
    have "require_payment c" using check_payment_required [OF served(4)] charged(1) by simp
    moreover have "p = price" using p(1) charged(1) by simp
    ultimately show ?thesis
      using charged resp p(2) served(2,3) chat_request_accepted(1) [OF served(1)] by auto
  qed
qed

lemma charge_on_success_witness:
  "\<exists>resp s'. chat_completions demo demo_gateway (demo_chat JNull) demo_moments id demo_state = (Inr resp, s') \<and>
     spent_keys s' = {''z''} \<union> spend_keys demo_pay"
proof -
  obtain result receipt s' where o: "chat_completions demo demo_gateway (demo_chat JNull) demo_moments id demo_state =
      (Inr (chat_reply ''req'' ''m'' result receipt), s')" using demo_chat_served by blast
  have "require_payment demo_gateway" "status_code (chat_reply ''req'' ''m'' result receipt) = 200"
    by (simp_all add: demo_gateway_def chat_reply_def)
  then have "spent_keys s' = {''z''} \<union> spend_keys demo_pay"
    using charge_on_success [OF o] by (auto simp: demo_chat_def demo_state_def demo_sip_payment)
  with o show ?thesis by blast
qed

text \<open>C14. Every served answer carries a receipt that binds it: it is signed by the provider's key (and so valid
  wherever the schema accepts it), and its hashes are those of this request and of the content served.\<close>

theorem served_receipt_binds:
  assumes "chat_completions P c r m others s0 = (Inr resp, s')" "status_code resp = 200" "ed25519_laws P"
  shows "\<exists>d model messages n result receipt. chat_request c r = Inr (d, model, messages, n) \<and>
    adapter_chat (gw_adapter c) model messages n = Inr result \<and>
    resp = chat_reply (header_or r ''x-sip-request-id'' ''anon'') model result receipt \<and>
    getn receipt ''provider_pubkey'' = JStr (public_key_str P (gw_keypair c)) \<and>
    hash_request P (JStr model) (JArr messages) = Inr (the (the_str (getn receipt ''request_hash''))) \<and>
    getn receipt ''response_hash'' = JStr (hash_response_body P (content result)) \<and>
    (schema_accepts P ''receipt'' receipt \<longrightarrow> (\<exists>v. verify_receipt P receipt = Inr v \<and> valid v))"
  using assms(1)
proof (cases rule: chat_cases)
  case unserved
  with assms(2) show ?thesis by simp
next
  case (served d model messages n s1 required result receipt)
  from served(7) show ?thesis
  proof (rule chat_receipt_fields)
    fix price rh
    assume "hash_request P (JStr model) (JArr messages) = Inr rh"
      "getn receipt ''provider_pubkey'' = JStr (public_key_str P (gw_keypair c))"
      "getn receipt ''request_hash'' = JStr rh" "getn receipt ''response_hash'' = JStr (hash_response_body P (content result))"
      "\<And>d. schema_accepts P ''receipt'' receipt \<Longrightarrow> ed25519_laws P \<Longrightarrow> \<exists>v. verify_receipt P receipt = Inr v \<and> valid v"
    with served(1,5,8) assms(3) show ?thesis by auto
  qed
qed

lemma served_receipt_binds_witness:
  "\<exists>rid model result receipt s'. chat_completions demo demo_gateway (demo_chat JNull) demo_moments id demo_state =
     (Inr (chat_reply rid model result receipt), s') \<and> getn receipt ''response_hash'' = JStr (hash_response_body demo (content result))"
proof -
  obtain result receipt s' where o: "chat_completions demo demo_gateway (demo_chat JNull) demo_moments id demo_state =
      (Inr (chat_reply ''req'' ''m'' result receipt), s')" using demo_chat_served by blast
  have "status_code (chat_reply ''req'' ''m'' result receipt) = 200" by (simp add: chat_reply_def)
  from served_receipt_binds [OF o this demo_laws] o show ?thesis by metis
qed

text \<open>A request that pays is served: one that passes the guards and the rate limit, whose messages are JSON,
  and that carries an unspent x402 payment covering the price, bound to this provider and request and at
  most five minutes old at both checks, is answered with the runtime's answer and a receipt.\<close>

theorem paid_request_served:
  assumes "chat_request c r = Inr (d, model, messages, n)" "rate_limited c (at_clock m) s0 = (False, s1)"
    and "require_payment c" "price_amount c (billed_input messages) n = Inr price"
    and "covering_payment P c price (header_or r ''x-sip-request-id'' ''anon'') m (spent_keys s0) (others (spent_keys s0)) (sip_payment d)"
    and "adapter_chat (gw_adapter c) model messages n = Inr result" "list_all json_ok messages"
    and "ed25519_laws P" "isoformat_law P"
  shows "\<exists>receipt s'. chat_completions P c r m others s0 =
    (Inr (chat_reply (header_or r ''x-sip-request-id'' ''anon'') model result receipt), s')"
  using assms by (rule covering_request_served)

lemma paid_request_served_witness:
  "\<exists>result receipt s'. chat_completions demo demo_gateway (demo_chat (JInt 1)) demo_moments id demo_state =
     (Inr (chat_reply ''req'' ''m'' result receipt), s')"
proof -
  obtain result where a: "adapter_chat (gw_adapter demo_gateway) ''m'' [demo_message (JInt 1)] 1000000 = Inr result" using demo_answers by blast
  have "list_all json_ok [demo_message (JInt 1)]" by (rule demo_premises) simp
  from paid_request_served [where others = id, OF demo_request [of "JInt 1"] demo_limit demo_premises(1-3) a this demo_laws demo_isoformat]
  show ?thesis by (auto simp: demo_header)
qed

text \<open>A printed price within another: as numbers, as the floats they read back as, and as the decimals the client compares.\<close>

definition within_quote :: "string \<Rightarrow> string \<Rightarrow> bool" where
  "within_quote charged quoted \<longleftrightarrow> (\<exists>u bound. literal_val charged = Some u \<and> literal_val quoted = Some bound \<and> u \<le> bound \<and>
     float_of_str charged = Inr (to_float u) \<and> float_of_str quoted = Inr (to_float bound)) \<and>
   (\<exists>a b. dec_of_str charged = Inr a \<and> dec_of_str quoted = Inr b \<and> dec_le a b = Inr True)"

lemma billed_within:
  assumes "chat_request c r = Inr (d, model, messages, n)" "n \<le> max_out" "finite_rates c"
    and "price_amount c (billed_input messages) n = Inr charged"
    and "price_amount c (max_input_chars c) max_out = Inr max_price" "literal_val max_price = Some bound"
  shows "within_quote charged max_price"
proof -
  have "billed_input messages \<le> total_chars messages"
    by (induction messages) (auto simp: billed_input_def total_chars_def intro!: add_mono simp: py_split_length)
  then have le: "billed_input messages \<le> max_input_chars c" using chat_request_accepted(6) [OF assms(1)] by linarith
  have "0 \<le> billed_input messages" by (induction messages) (simp_all add: billed_input_def)
  from price_amount_mono [OF assms(4,5,3) this le _ assms(2,6)] chat_request_accepted(4) [OF assms(1)]
  obtain u where u: "literal_val charged = Some u" "u \<le> bound" "price_text charged" "price_text max_price" by auto
  obtain a b where "dec_of_str charged = Inr a \<and> dec_val a = u \<and> \<not> is_nan a \<and> dec_rank a = 0"
    "dec_of_str max_price = Inr b \<and> dec_val b = bound \<and> \<not> is_nan b \<and> dec_rank b = 0"
    using price_text_dec [OF u(3,1)] price_text_dec [OF u(4) assms(6)] by blast
  moreover from this have "dec_le a b = Inr True" using u(2) by (simp add: dec_le_def dec_le_val_def dec_less_val_def)
  ultimately show ?thesis
    using u assms(6) price_text_float [OF u(3,1)] price_text_float [OF u(4) assms(6)] by (auto simp: within_quote_def)
qed

lemma quote_handler_price:
  assumes "quote_handler P c r now = Inr \<lparr>status_code = 200, reply = JObj q\<rparr>"
  obtains max_out max_price where "price_amount c (max_input_chars c) max_out = Inr max_price"
    "getn q ''max_output_tokens'' = JInt max_out" "getn q ''max_price'' = JStr max_price"
    "Option.bind (Option.bind (body r) the_obj) (\<lambda>d. positive_int (getn d ''max_output_tokens'')) = Some max_out"
proof -
  obtain a where a: "sign_quote P (build_quote a) (gw_keypair c) = Inr q"
    and p: "price_amount c (max_input_chars c) (q_max_output_tokens a) = Inr (q_max_price a)"
      "Option.bind (Option.bind (body r) the_obj) (\<lambda>d. positive_int (getn d ''max_output_tokens'')) = Some (q_max_output_tokens a)"
  proof -
    obtain request_id model max_out max_price expires_at mode where got:
      "price_amount c (max_input_chars c) max_out = Inr max_price"
      "Option.bind (Option.bind (body r) the_obj) (\<lambda>d. positive_int (getn d ''max_output_tokens'')) = Some max_out"
      "sign_quote P (build_quote \<lparr>q_request_id = request_id, q_provider_pubkey = public_key_str P (gw_keypair c),
         q_model_alias = model, q_price_units = price_units c, q_input_per_1m = input_per_1m c, q_output_per_1m = output_per_1m c,
         q_max_output_tokens = max_out, q_max_price = max_price, q_issued_at = now, q_expires_at = expires_at,
         q_privacy_mode = mode\<rparr>) (gw_keypair c) = Inr q"
      using assms by (auto simp: quote_handler_def error_reply_def rbind_eq_Inr split: if_splits option.splits)
    show thesis by (rule that [OF got(3)]) (use got(1,2) in simp_all)
  qed
  have "k \<noteq> ''signature'' \<Longrightarrow> getn q k = getn (build_quote a) k" for k by (rule quote.sign_keeps_fields [OF a])
  moreover have "getn (build_quote a) ''max_output_tokens'' = JInt (q_max_output_tokens a)"
    "getn (build_quote a) ''max_price'' = JStr (q_max_price a)"
    by (cases "q_privacy_mode a"; simp add: build_quote_def optional_field_def getn_def)+
  ultimately show ?thesis using p by (intro that) simp_all
qed

text \<open>Every 402 is the challenge for the price of the request.\<close>

lemma challenged_price:
  assumes "chat_completions P c r m others s0 = (Inr resp, s')" "status_code resp = 402"
    and "chat_request c r = Inr (d, model, messages, n)"
  shows "\<exists>price. price_amount c (billed_input messages) n = Inr price \<and> resp = payment_required_response c price"
proof -
  have checked: "\<exists>price. price_amount c (billed_input messages) n = Inr price \<and> ch = payment_required_response c price"
    if "check_payment P c p messages n t rid S = Inr (Inl ch)" for p t rid S ch
    using that by (auto simp: check_payment_def rbind_eq_Inr split: if_splits prod.splits)
  have committed: "\<exists>price. req = Some price \<and> ch = payment_required_response c price"
    if "commit_payment P c p req t rid s = (Inr (Some ch), s1)" for p req t rid s ch s1
    using that by (auto simp: commit_payment_def Let_def split: option.splits sum.splits prod.splits if_splits)
  have finished: "\<exists>price. req = Some price \<and> resp = payment_required_response c price"
    if "chat_finish P c rid mode p model messages result req m s = (Inr resp, s1)" for rid mode p result req s s1
  proof -
    obtain out s3 where com: "commit_payment P c p req (at_commit m) rid s = (out, s3)" by fastforce
    then show ?thesis using that assms(2) committed
      by (auto simp: chat_finish_def chat_reply_def rbind_eq_Inr split: sum.splits option.splits)
  qed
  have served: "\<exists>price. price_amount c (billed_input messages) n = Inr price \<and> resp = payment_required_response c price"
    if "chat_serve P c rid mode p model messages n m others s1 = (Inr resp, s')" for rid mode p s1
  proof (cases "check_payment P c p messages n (at_check m) rid (spent_keys s1)")
    case (Inr y)
    then show ?thesis using that assms(2) checked finished check_payment_required
      by (cases y) (fastforce simp: chat_serve_def Let_def error_reply_def split: sum.splits)+
  qed (use that in \<open>simp add: chat_serve_def\<close>)
  show ?thesis using assms served
    by (auto simp: chat_completions_def error_reply_def split: prod.splits if_splits)
qed

lemma served_price:
  assumes "chat_completions P c r m others s0 = (Inr resp, s')" "status_code resp = 200" "require_payment c"
    and "chat_request c r = Inr (d, model, messages, n)"
  obtains result receipt price where "resp = chat_reply (header_or r ''x-sip-request-id'' ''anon'') model result receipt"
    "price_amount c (billed_input messages) n = Inr price" "getn receipt ''price_amount'' = JStr price"
    "gw_ledger s' = map_option (ledger_record (public_key_str P (gw_keypair c)) price (price_units c) (payment_refs (sip_payment d))) (gw_ledger s0)"
  using assms(1)
proof (cases rule: chat_cases)
  case unserved
  then show ?thesis using assms(2) by simp
next
  case (served d' model' messages' n' s1 required result receipt)
  then have same: "d' = d" "model' = model" "messages' = messages" "n' = n" using assms(4) by simp_all
  obtain price where price: "required = Some price" "price_amount c (billed_input messages) n = Inr price"
    using check_payment_required [OF served(4)] assms(3) same by (cases required) simp_all
  obtain p where "case required of Some x \<Rightarrow> p = x | None \<Rightarrow> price_amount c (input_tokens result) (output_tokens result) = Inr p"
    "getn receipt ''price_amount'' = JStr p" using chat_receipt_fields [OF served(7)] by metis
  moreover from served(6) have "gw_ledger s' = map_option (ledger_record (public_key_str P (gw_keypair c)) price (price_units c)
      (payment_refs (sip_payment d))) (gw_ledger s0)"
    by (cases rule: commit_payment_cases) (use price served(3) same in auto)
  ultimately show ?thesis using that price served(8) same by simp
qed

text \<open>C15. A quote bounds what the same gateway asks and takes: at finite nonnegative rates and a quoted price that
  prints as a number, a request for no more output tokens than the quote states is either answered, and then
  the price on its receipt and in the new ledger line is within the signed \<^verbatim>\<open>max_price\<close>, or challenged for a
  price within it; rounding, printing and reading back included.\<close>

theorem quote_bounds_charge:
  assumes "quote_handler P c ask now = Inr \<lparr>status_code = 200, reply = JObj q\<rparr>"
    and "getn q ''max_output_tokens'' = JInt max_out" "getn q ''max_price'' = JStr max_price" "literal_val max_price = Some bound"
    and "finite_rates c" "require_payment c"
    and "chat_request c r = Inr (d, model, messages, n)" "n \<le> max_out"
    and "chat_completions P c r m others s0 = (Inr resp, s')"
  shows "(status_code resp = 200 \<longrightarrow> (\<exists>result receipt charged.
      resp = chat_reply (header_or r ''x-sip-request-id'' ''anon'') model result receipt \<and>
      getn receipt ''price_amount'' = JStr charged \<and> within_quote charged max_price \<and>
      gw_ledger s' = map_option (ledger_record (public_key_str P (gw_keypair c)) charged (price_units c)
        (payment_refs (sip_payment d))) (gw_ledger s0))) \<and>
    (status_code resp = 402 \<longrightarrow> (\<exists>asked. resp = payment_required_response c asked \<and> within_quote asked max_price))"
proof -
  have quoted: "price_amount c (max_input_chars c) max_out = Inr max_price"
    using assms(1) by (rule quote_handler_price) (use assms(2,3) in simp)
  note within = billed_within [OF assms(7,8,5) _ quoted assms(4)]
  show ?thesis
    using served_price [OF assms(9) _ assms(6,7)] challenged_price [OF assms(9) _ assms(7)] within by metis
qed

definition demo_quote_ask :: request where
  "demo_quote_ask = \<lparr>headers = [], body = Some (JObj [(''request_id'', JStr ''req''), (''model'', JStr ''m''),
     (''max_output_tokens'', JInt 1000000)])\<rparr>"

lemma demo_quoted:
  "\<exists>q. quote_handler demo demo_gateway demo_quote_ask demo_now = Inr \<lparr>status_code = 200, reply = JObj q\<rparr>"
proof -
  have ok: "json_ok (JObj (build_quote a))" for a by (cases "q_privacy_mode a") (simp_all add: build_quote_def optional_field_def)
  have "valid_instant (demo_now + 300 * second)" by code_simp
  then have "instant_plus demo_now (300 * second) = Inr (demo_now + 300 * second)" by (simp add: instant_plus_def)
  moreover have "max_input_chars demo_gateway = 1000000" by (simp add: demo_gateway_def)
  moreover have "\<exists>q. sign_quote demo (build_quote a) kp = Inr q" for a kp
    using sign_document_total [OF ok] by (simp add: sign_quote_def)
  ultimately show ?thesis
    by (simp add: quote_handler_def auth_ok_def demo_quote_ask_def getn_def demo_prices) (simp add: demo_gateway_def rbind_eq_Inr)
qed

lemma quote_bounds_charge_witness:
  "\<exists>result receipt s'. chat_completions demo demo_gateway (demo_chat JNull) demo_moments id demo_state =
     (Inr (chat_reply ''req'' ''m'' result receipt), s') \<and> within_quote ''4'' ''5''"
proof -
  obtain q where q: "quote_handler demo demo_gateway demo_quote_ask demo_now = Inr \<lparr>status_code = 200, reply = JObj q\<rparr>"
    using demo_quoted by blast
  obtain max_out mp where f: "price_amount demo_gateway (max_input_chars demo_gateway) max_out = Inr mp"
    "getn q ''max_output_tokens'' = JInt max_out" "getn q ''max_price'' = JStr mp"
    "Option.bind (Option.bind (body demo_quote_ask) the_obj) (\<lambda>d. positive_int (getn d ''max_output_tokens'')) = Some max_out"
    by (rule quote_handler_price [OF q])
  have out: "max_out = 1000000" using f(4) by (simp add: demo_quote_ask_def getn_def)
  have mp: "mp = ''5''" using f(1) demo_prices(2) by (simp add: out demo_gateway_def)
  have rates: "finite_rates demo_gateway" "require_payment demo_gateway" "literal_val ''5'' = Some 5"
    using demo_rate by (simp_all add: finite_rates_def demo_gateway_def literal_simps Let_def)
  obtain result receipt s' where o: "chat_completions demo demo_gateway (demo_chat JNull) demo_moments id demo_state =
      (Inr (chat_reply ''req'' ''m'' result receipt), s')" using demo_chat_served by blast
  have "status_code (chat_reply ''req'' ''m'' result receipt) = 200" by (simp add: chat_reply_def)
  moreover have "charged = ''4''" if "getn receipt ''price_amount'' = JStr charged" for charged
    using served_price [OF o calculation rates(2) demo_request] that demo_prices(1) demo_billed
    by (auto simp: chat_reply_def)
  ultimately show ?thesis
    using quote_bounds_charge [OF q f(2,3)[unfolded out mp] rates(3,1,2) demo_request [of JNull] _ o] o
    by (auto simp: chat_reply_def)
qed

text \<open>A credit can be taken without an answer: when the hash of the request cannot be computed (a message with
  a member that is not a JSON number), the payment is committed and the ledger credited before the
  receipt is built, and the request then fails with an exception.\<close>

theorem charged_then_failed:
  assumes "check_payment P c payment messages n (at_check m) rid (spent_keys s) = Inr (Inr (Some price))"
    and "adapter_chat (gw_adapter c) model messages n = Inr result"
    and "commit_payment P c payment (Some price) (at_commit m) rid (s\<lparr>spent_keys := others (spent_keys s)\<rparr>) = (Inr None, s')"
    and "hash_request P (JStr model) (JArr messages) = Inl e"
  shows "chat_serve P c rid mode payment model messages n m others s = (Inl e, s') \<and>
    spend_keys payment \<noteq> {} \<and> spent_keys s' = others (spent_keys s) \<union> spend_keys payment"
proof -
  have "chat_receipt P c rid mode model messages result (Some price) m = Inl e"
    using assms(4) by (simp add: chat_receipt_def)
  then have "chat_serve P c rid mode payment model messages n m others s = (Inl e, s')"
    using assms by (simp add: chat_serve_def chat_finish_def Let_def)
  moreover have "spend_keys payment \<noteq> {} \<and> spent_keys s' = others (spent_keys s) \<union> spend_keys payment"
    using assms(3) by (cases rule: commit_payment_cases) auto
  ultimately show ?thesis by simp
qed

lemma charged_then_failed_witness:
  "\<exists>e s'. chat_serve demo demo_gateway ''req'' ''direct'' demo_pay ''m'' [demo_message (JFloat NaN)] 1000000 demo_moments id demo_state =
     (Inl e, s') \<and> spend_keys demo_pay \<noteq> {} \<and> spent_keys s' = id (spent_keys demo_state) \<union> spend_keys demo_pay"
proof -
  let ?ms = "[demo_message (JFloat NaN)]"
  let ?s = "demo_state\<lparr>spent_keys := id (spent_keys demo_state)\<rparr>"
  have cov: "covering_payment demo demo_gateway ''4'' ''req'' demo_moments (spent_keys demo_state) (spent_keys ?s) demo_pay"
    using demo_covers by (simp add: demo_state_def)
  have "require_payment demo_gateway" by (simp add: demo_gateway_def)
  note pass = covering_payment_passes [where s = demo_state and s' = ?s, OF cov demo_laws demo_isoformat this, of ?ms 1000000]
  have price: "price_amount demo_gateway (billed_input ?ms) 1000000 = Inr ''4''" by (simp only: demo_billed demo_prices)
  note chk = pass(1) [OF price]
  obtain s' where com: "commit_payment demo demo_gateway demo_pay (Some ''4'') (at_commit demo_moments) ''req'' ?s = (Inr None, s')"
    using pass(2) [OF price] by auto
  obtain result where a: "adapter_chat (gw_adapter demo_gateway) ''m'' ?ms 1000000 = Inr result" using demo_answers by blast
  obtain e where "hash_request demo (JStr ''m'') (JArr ?ms) = Inl e"
    by (simp add: hash_request_def canonical_json_def demo_message_def key_le_def str_le_def)
  with charged_then_failed [where others = id, OF chk a com] show ?thesis by blast
qed

end
