(* ===== verification/Net.thy ===== *)
theory Net
  imports Prelude
begin

text \<open>
  The part of \<^verbatim>\<open>urllib.parse\<close> and \<^verbatim>\<open>ipaddress\<close> (Python 3.12) that the address guards of the relay and of the
  proxy use, and the guards. An address is the integer it denotes. The NFKC check of \<^verbatim>\<open>urlsplit\<close> never
  raises on the strings of this model: no code point below 256 normalises to a URL delimiter.
\<close>

subsection \<open>Text\<close>

definition rpartition_tail :: "char \<Rightarrow> string \<Rightarrow> string" where
  "rpartition_tail c s = rev (takeWhile (\<lambda>x. x \<noteq> c) (rev s))"

fun split_on :: "char \<Rightarrow> string \<Rightarrow> string list" where
  "split_on c [] = [[]]"
| "split_on c (x # xs) = (if x = c then [] # split_on c xs
     else (case split_on c xs of [] \<Rightarrow> [[x]] | y # ys \<Rightarrow> (x # y) # ys))"

definition is_hex :: "char \<Rightarrow> bool" where
  "is_hex c \<longleftrightarrow> is_digit c \<or> c \<in> set ''abcdefABCDEF''"

definition is_letter :: "char \<Rightarrow> bool" where
  "is_letter c = (let n = of_char c :: int in 65 \<le> n \<and> n \<le> 90 \<or> 97 \<le> n \<and> n \<le> 122)"

definition hex_val :: "char \<Rightarrow> int" where
  "hex_val c = (let n = of_char c :: int in if is_digit c then digit_val c else if 97 \<le> n then n - 87 else n - 55)"

definition hex_of_digits :: "string \<Rightarrow> int" where
  "hex_of_digits s = foldl (\<lambda>a c. 16 * a + hex_val c) 0 s"

subsection \<open>Addresses\<close>

datatype address = IPv4 int | IPv6 int

definition parse_octet :: "string \<Rightarrow> int res" where
  "parse_octet s = (if s = [] \<or> \<not> list_all is_digit s \<or> 3 < length s \<or> (s \<noteq> ''0'' \<and> hd s = CHR ''0'') \<or> 255 < nat_of_digits s
     then Inl ValueError else Inr (nat_of_digits s))"

definition parse_ipv4 :: "string \<Rightarrow> int res" where
  "parse_ipv4 s = (let octets = split_on CHR ''.'' s in
     if CHR ''/'' \<in> set s \<or> length octets \<noteq> 4 then Inl ValueError
     else rbind (rmap parse_octet octets) (\<lambda>bs. Inr (foldl (\<lambda>a b. 256 * a + b) 0 bs)))"

definition parse_hextet :: "string \<Rightarrow> int res" where
  "parse_hextet s = (if s = [] \<or> \<not> list_all is_hex s \<or> 4 < length s then Inl ValueError else Inr (hex_of_digits s))"

definition hextets :: "int \<Rightarrow> string list \<Rightarrow> int res" where
  "hextets start ss = rbind (rmap parse_hextet ss) (\<lambda>hs. Inr (foldl (\<lambda>a h. 65536 * a + h) start hs))"

text \<open>The inner empty parts: where \<^verbatim>\<open>::\<close> stands.\<close>

definition skips :: "string list \<Rightarrow> nat list" where
  "skips parts = filter (\<lambda>i. parts ! i = []) [1..<length parts - 1]"

definition ipv6_parts :: "string list \<Rightarrow> int res" where
  "ipv6_parts parts = (case skips parts of
     [] \<Rightarrow> if length parts \<noteq> 8 \<or> hd parts = [] \<or> last parts = [] then Inl ValueError else hextets 0 parts
   | [i] \<Rightarrow>
      (let lo = length parts - i - 1;
           hi' = (if hd parts = [] then i - 1 else i);
           lo' = (if last parts = [] then lo - 1 else lo)
       in if (hd parts = [] \<and> hi' \<noteq> 0) \<or> (last parts = [] \<and> lo' \<noteq> 0) \<or> 7 < hi' + lo' then Inl ValueError
          else rbind (hextets 0 (take hi' parts)) (\<lambda>high.
            hextets (high * 65536 ^ (8 - (hi' + lo'))) (drop (length parts - lo') parts)))
   | _ \<Rightarrow> Inl ValueError)"

text \<open>A dotted tail stands for its two hextets; the integer is the same when they are not printed in between.\<close>

definition hextet_text :: "int \<Rightarrow> string" where
  "hextet_text n = map (\<lambda>i. (''0123456789abcdef'') ! nat (n div 16 ^ i mod 16)) [3, 2, 1, 0]"

definition parse_ipv6 :: "string \<Rightarrow> int res" where
  "parse_ipv6 s = (case partition_char CHR ''%'' s of (addr, scoped, scope) \<Rightarrow>
     let parts = split_on CHR '':'' addr in
     if CHR ''/'' \<in> set s \<or> (scoped \<and> (scope = [] \<or> CHR ''%'' \<in> set scope)) \<or> addr = [] \<or> length parts < 3 then Inl ValueError
     else rbind (if CHR ''.'' \<in> set (last parts)
         then rbind (parse_ipv4 (last parts)) (\<lambda>v. Inr (butlast parts @ [hextet_text (v div 65536), hextet_text (v mod 65536)]))
         else Inr parts) (\<lambda>parts.
       if 9 < length parts then Inl ValueError else ipv6_parts parts))"

definition ip_address :: "string \<Rightarrow> address res" where
  "ip_address s = (case parse_ipv4 s of Inr n \<Rightarrow> Inr (IPv4 n)
     | Inl _ \<Rightarrow> (case parse_ipv6 s of Inr n \<Rightarrow> Inr (IPv6 n) | Inl _ \<Rightarrow> Inl ValueError))"

text \<open>Networks are a base address and a prefix length.\<close>

definition in_net :: "nat \<Rightarrow> int \<Rightarrow> int \<times> nat \<Rightarrow> bool" where
  "in_net w n net = (case net of (base, plen) \<Rightarrow> n div 2 ^ (w - plen) = base div 2 ^ (w - plen))"

definition quad :: "int \<Rightarrow> int \<Rightarrow> int \<Rightarrow> int \<Rightarrow> int" where
  "quad a b c d = ((a * 256 + b) * 256 + c) * 256 + d"

definition private4 :: "(int \<times> nat) list" where
  "private4 = [(quad 0 0 0 0, 8), (quad 10 0 0 0, 8), (quad 127 0 0 0, 8), (quad 169 254 0 0, 16), (quad 172 16 0 0, 12),
     (quad 192 0 0 0, 24), (quad 192 0 0 170, 31), (quad 192 0 2 0, 24), (quad 192 168 0 0, 16), (quad 198 18 0 0, 15),
     (quad 198 51 100 0, 24), (quad 203 0 113 0, 24), (quad 240 0 0 0, 4), (quad 255 255 255 255, 32)]"

definition is_private4 :: "int \<Rightarrow> bool" where
  "is_private4 n \<longleftrightarrow> list_ex (in_net 32 n) private4 \<and> n \<noteq> quad 192 0 0 9 \<and> n \<noteq> quad 192 0 0 10"

definition internal4 :: "int \<Rightarrow> bool" where
  "internal4 n \<longleftrightarrow> is_private4 n \<or> in_net 32 n (quad 127 0 0 0, 8) \<or> in_net 32 n (quad 169 254 0 0, 16) \<or>
     in_net 32 n (quad 240 0 0 0, 4) \<or> in_net 32 n (quad 224 0 0 0, 4) \<or> n = 0"

text \<open>The leading hextets of an IPv6 network.\<close>

definition net6 :: "int list \<Rightarrow> nat \<Rightarrow> int \<times> nat" where
  "net6 hs plen = (foldl (\<lambda>a h. 65536 * a + h) 0 hs * 65536 ^ (8 - length hs), plen)"

definition private6 :: "(int \<times> nat) list" where
  "private6 = [(1, 128), (0, 128), (65535 * 2 ^ 32, 96), net6 [0x64, 0xff9b, 1] 48, net6 [0x100] 64, net6 [0x2001] 23,
     net6 [0x2001, 0xdb8] 32, net6 [0x2002] 16, net6 [0xfc00] 7, net6 [0xfe80] 10]"

definition public6 :: "(int \<times> nat) list" where
  "public6 = [(fst (net6 [0x2001, 1] 0) + 1, 128), (fst (net6 [0x2001, 1] 0) + 2, 128), net6 [0x2001, 3] 32,
     net6 [0x2001, 4, 0x112] 48, net6 [0x2001, 0x20] 28, net6 [0x2001, 0x30] 28]"

definition reserved6 :: "(int \<times> nat) list" where
  "reserved6 = [(0, 8), net6 [0x100] 8, net6 [0x200] 7, net6 [0x400] 6, net6 [0x800] 5, net6 [0x1000] 4, net6 [0x4000] 3,
     net6 [0x6000] 3, net6 [0x8000] 3, net6 [0xa000] 3, net6 [0xc000] 3, net6 [0xe000] 4, net6 [0xf000] 5, net6 [0xf800] 6,
     net6 [0xfe00] 9]"

definition is_private6 :: "int \<Rightarrow> bool" where
  "is_private6 n \<longleftrightarrow> (if n div 2 ^ 32 = 65535 then is_private4 (n mod 2 ^ 32)
     else list_ex (in_net 128 n) private6 \<and> \<not> list_ex (in_net 128 n) public6)"

definition internal6 :: "int \<Rightarrow> bool" where
  "internal6 n \<longleftrightarrow> is_private6 n \<or> n = 1 \<or> in_net 128 n (net6 [0xfe80] 10) \<or> list_ex (in_net 128 n) reserved6 \<or>
     in_net 128 n (net6 [0xff00] 8) \<or> n = 0"

fun internal :: "address \<Rightarrow> bool" where
  "internal (IPv4 n) = internal4 n"
| "internal (IPv6 n) = internal6 n"

subsection \<open>urlsplit\<close>

record url =
  scheme :: string
  netloc :: string

definition scheme_char :: "char \<Rightarrow> bool" where
  "scheme_char c \<longleftrightarrow> is_letter c \<or> is_digit c \<or> c \<in> set ''+-.''"

definition host_part :: "string \<Rightarrow> string" where
  "host_part loc = (let info = rpartition_tail CHR ''@'' loc in
     case partition_char CHR ''['' info of (front, bracket, rest) \<Rightarrow>
       if bracket then fst (partition_char CHR '']'' rest) else fst (partition_char CHR '':'' info))"

definition check_bracketed :: "string \<Rightarrow> unit res" where
  "check_bracketed loc = (let info = rpartition_tail CHR ''@'' loc in
     case partition_char CHR ''['' info of (front, bracket, rest) \<Rightarrow>
     case partition_char CHR '']'' rest of (inner, shut, port) \<Rightarrow>
       if bracket \<and> (front \<noteq> [] \<or> (port \<noteq> [] \<and> hd port \<noteq> CHR '':'')) then Inl ValueError
       else (let host = host_part loc in
         if startswith host ''v'' then
           (case partition_char CHR ''.'' (tl host) of (version, dotted, future) \<Rightarrow>
              if version \<noteq> [] \<and> list_all is_hex version \<and> dotted \<and> future \<noteq> [] \<and> CHR 0x0A \<notin> set future
              then Inr () else Inl ValueError)
         else (case ip_address host of Inr (IPv6 n) \<Rightarrow> Inr () | _ \<Rightarrow> Inl ValueError)))"

definition cleaned :: "string \<Rightarrow> string" where
  "cleaned s = filter (\<lambda>c. c \<notin> set [CHR 0x09, CHR 0x0A, CHR 0x0D]) (dropWhile (\<lambda>c. (of_char c :: int) \<le> 32) s)"

definition urlsplit :: "string \<Rightarrow> url res" where
  "urlsplit s =
     (let s = cleaned s in
      case partition_char CHR '':'' s of (front, colon, after) \<Rightarrow>
      let (sch, rest) = (if colon \<and> front \<noteq> [] \<and> is_letter (hd front) \<and> list_all scheme_char front
                         then (py_lower front, after) else ([], s));
          loc = (if startswith rest ''//'' then takeWhile (\<lambda>c. c \<notin> set ''/?#'') (drop 2 rest) else [])
      in if (CHR ''['' \<in> set loc) \<noteq> (CHR '']'' \<in> set loc) then Inl ValueError
         else rbind (if CHR ''['' \<in> set loc then check_bracketed loc else Inr ()) (\<lambda>_. Inr \<lparr>scheme = sch, netloc = loc\<rparr>))"

definition hostname :: "url \<Rightarrow> string" where
  "hostname u = (case partition_char CHR ''%'' (host_part (netloc u)) of (host, percent, zone) \<Rightarrow>
     py_lower host @ (if percent then CHR ''%'' # zone else []))"

subsection \<open>The guards\<close>

definition blocked_hostnames :: "string list" where
  "blocked_hostnames = [''localhost'', ''metadata'', ''metadata.google.internal'']"

definition safe_host :: "string \<Rightarrow> bool" where
  "safe_host host \<longleftrightarrow> host \<noteq> [] \<and> py_lower host \<notin> set blocked_hostnames \<and> \<not> endswith (py_lower host) ''.localhost'' \<and>
     (case ip_address host of Inl _ \<Rightarrow> True | Inr ip \<Rightarrow> \<not> internal ip)"

definition is_safe_forward_url :: "string \<Rightarrow> bool" where
  "is_safe_forward_url base_url = (case urlsplit base_url of Inl _ \<Rightarrow> False | Inr u \<Rightarrow> safe_host (hostname u))"

definition is_safe_remote_url :: "string \<Rightarrow> bool" where
  "is_safe_remote_url s = (case urlsplit s of Inl _ \<Rightarrow> False
     | Inr u \<Rightarrow> scheme u \<in> {''http'', ''https''} \<and> safe_host (hostname u))"

subsection \<open>Dotted addresses\<close>

definition dotted :: "int \<Rightarrow> int \<Rightarrow> int \<Rightarrow> int \<Rightarrow> string" where
  "dotted a b c d = str_of_nat a @ CHR ''.'' # str_of_nat b @ CHR ''.'' # str_of_nat c @ CHR ''.'' # str_of_nat d"

definition octet :: "int \<Rightarrow> bool" where
  "octet n \<longleftrightarrow> 0 \<le> n \<and> n < 256"

lemma octet_text: "octet n \<Longrightarrow> parse_octet (str_of_nat n) = Inr n"
proof -
  assume "octet n"
  then have "n \<in> set [0..255]" by (simp add: octet_def)
  moreover have "list_all (\<lambda>n. parse_octet (str_of_nat n) = Inr n) [0..255]" by code_simp
  ultimately show ?thesis by (simp add: list_all_iff)
qed

lemma digits_net: "0 \<le> n \<Longrightarrow> c \<in> set (str_of_nat n) \<Longrightarrow> is_digit c"
  using str_of_nat_digits [of n] by (simp add: list_all_iff)

lemma split_on_free: "c \<notin> set s \<Longrightarrow> split_on c s = [s]"
  by (induction s) auto

lemma split_on_append: "c \<notin> set s \<Longrightarrow> split_on c (s @ c # t) = s # split_on c t"
  by (induction s) auto

lemma partition_free: "c \<notin> set s \<Longrightarrow> partition_char c s = (s, False, [])"
  by (induction s) auto

lemma rpartition_free: "c \<notin> set s \<Longrightarrow> rpartition_tail c s = s"
proof -
  assume "c \<notin> set s"
  then have "takeWhile (\<lambda>x. x \<noteq> c) (rev s) = rev s" by (auto simp: takeWhile_eq_all_conv)
  then show ?thesis unfolding rpartition_tail_def by (metis rev_rev_ident)
qed

lemma dotted_chars: "octet a \<Longrightarrow> octet b \<Longrightarrow> octet c \<Longrightarrow> octet d \<Longrightarrow> x \<in> set (dotted a b c d) \<Longrightarrow> is_digit x \<or> x = CHR ''.''"
  by (auto simp: dotted_def octet_def dest: digits_net)

lemma dotted_nonempty [simp]: "dotted a b c d \<noteq> []"
  by (simp add: dotted_def)

lemma ip_dotted:
  assumes "octet a" "octet b" "octet c" "octet d"
  shows "ip_address (dotted a b c d) = Inr (IPv4 (quad a b c d))"
proof -
  have dot: "CHR ''.'' \<notin> set (str_of_nat n)" if "octet n" for n
    using that digits_net [of n "CHR ''.''"] by (auto simp: octet_def is_digit_def)
  have "split_on CHR ''.'' (dotted a b c d) = [str_of_nat a, str_of_nat b, str_of_nat c, str_of_nat d]"
    unfolding dotted_def by (simp add: split_on_append split_on_free dot assms)
  moreover have "CHR ''/'' \<notin> set (dotted a b c d)"
    using dotted_chars [OF assms, of "CHR ''/''"] by (auto simp: is_digit_def)
  ultimately show ?thesis
    by (simp add: ip_address_def parse_ipv4_def Let_def octet_text assms quad_def algebra_simps)
qed

lemma plain_char: "is_digit c \<or> c = CHR ''.'' \<Longrightarrow> lower_char c = c \<and> c \<notin> set ''/?#:@[]%'' \<and> c \<notin> set [CHR 0x09, CHR 0x0A, CHR 0x0D]"
  by (auto simp: is_digit_def lower_char_def Let_def)

text \<open>A port as it may follow the address, and what may follow the network location.\<close>

definition port_text :: "string \<Rightarrow> bool" where
  "port_text p \<longleftrightarrow> p = [] \<or> (\<exists>ds. p = CHR '':'' # ds \<and> list_all is_digit ds)"

definition rest_text :: "string \<Rightarrow> bool" where
  "rest_text r \<longleftrightarrow> r = [] \<or> hd r \<in> set ''/?#''"

lemma host_of_dotted:
  assumes "octet a" "octet b" "octet c" "octet d" "port_text p"
  shows "host_part (dotted a b c d @ p) = dotted a b c d"
    and "CHR ''['' \<notin> set (dotted a b c d @ p)" "CHR '']'' \<notin> set (dotted a b c d @ p)"
    and "x \<in> set (dotted a b c d @ p) \<Longrightarrow> x \<notin> set ''/?#'' \<and> x \<notin> set [CHR 0x09, CHR 0x0A, CHR 0x0D]"
proof -
  have all: "is_digit x \<or> x = CHR ''.'' \<or> x = CHR '':''" if "x \<in> set (dotted a b c d @ p)" for x
    using that dotted_chars [OF assms(1-4), of x] assms(5) by (auto simp: port_text_def list_all_iff)
  then have free: "x \<notin> set ''@[]/?#'' \<and> x \<notin> set [CHR 0x09, CHR 0x0A, CHR 0x0D]" if "x \<in> set (dotted a b c d @ p)" for x
    using that plain_char by (fastforce simp: is_digit_def)
  show "CHR ''['' \<notin> set (dotted a b c d @ p)" "CHR '']'' \<notin> set (dotted a b c d @ p)" using free by fastforce+
  show "x \<in> set (dotted a b c d @ p) \<Longrightarrow> x \<notin> set ''/?#'' \<and> x \<notin> set [CHR 0x09, CHR 0x0A, CHR 0x0D]" using free by auto
  have at: "CHR ''@'' \<notin> set (dotted a b c d @ p)" using free by fastforce
  have "rpartition_tail CHR ''@'' (dotted a b c d @ p) = dotted a b c d @ p"
    by (rule rpartition_free [OF at])
  moreover have "partition_char CHR ''['' (dotted a b c d @ p) = (dotted a b c d @ p, False, [])"
    using free by (intro partition_free) fastforce
  moreover have colon: "CHR '':'' \<notin> set (dotted a b c d)" using dotted_chars [OF assms(1-4), of "CHR '':''"] by (auto simp: is_digit_def)
  have "fst (partition_char CHR '':'' (dotted a b c d @ p)) = dotted a b c d"
    using assms(5) colon by (auto simp: port_text_def partition_char_found partition_free)
  ultimately show "host_part (dotted a b c d @ p) = dotted a b c d" by (simp add: host_part_def)
qed

lemma urlsplit_dotted:
  assumes "octet a" "octet b" "octet c" "octet d" "port_text p" "rest_text r" "sch \<in> {''http'', ''https''}"
  shows "urlsplit (sch @ ''://'' @ dotted a b c d @ p @ r) = Inr \<lparr>scheme = sch, netloc = dotted a b c d @ p\<rparr>"
proof -
  let ?loc = "dotted a b c d @ p"
  let ?keep = "\<lambda>c. c \<notin> set [CHR 0x09, CHR 0x0A, CHR 0x0D]"
  note host = host_of_dotted [OF assms(1-5)]
  have f: "filter ?keep ?loc = ?loc" using host(4) by (intro filter_True) auto
  have cl: "cleaned (sch @ ''://'' @ ?loc @ r) = sch @ ''://'' @ ?loc @ filter ?keep r"
    using assms(7) f by (auto simp: cleaned_def)
  have tw: "takeWhile (\<lambda>c. c \<notin> set ''/?#'') (?loc @ filter ?keep r) = ?loc"
  proof -
    have "takeWhile (\<lambda>c. c \<notin> set ''/?#'') (filter ?keep r) = []" using assms(6) by (cases r) (auto simp: rest_text_def)
    then show ?thesis using host(4) by (subst takeWhile_append2) auto
  qed
  have pc: "partition_char CHR '':'' (sch @ ''://'' @ ?loc @ filter ?keep r) = (sch, True, ''//'' @ ?loc @ filter ?keep r)"
    using assms(7) by auto
  have lower: "py_lower sch = sch" "sch \<noteq> []" "is_letter (hd sch)" "list_all scheme_char sch"
    using assms(7) by (auto simp: py_lower_def lower_char_def is_letter_def scheme_char_def Let_def)
  have eq: "sch @ ''://'' @ dotted a b c d @ p @ r = sch @ ''://'' @ ?loc @ r" by simp
  have rest: "startswith (''//'' @ ?loc @ filter ?keep r) ''//''" "drop 2 (''//'' @ ?loc @ filter ?keep r) = ?loc @ filter ?keep r"
    by (simp_all add: startswith_def)
  show ?thesis
    unfolding eq urlsplit_def Let_def cl pc prod.case
    by (simp only: lower simp_thms if_True prod.case rest tw host(2,3) not_False_eq_True if_False rbind_Inr)
qed

lemma guard_on_dotted:
  assumes "octet a" "octet b" "octet c" "octet d" "port_text p" "rest_text r" "sch \<in> {''http'', ''https''}"
  shows "is_safe_remote_url (sch @ ''://'' @ dotted a b c d @ p @ r) = (\<not> internal4 (quad a b c d))"
    and "is_safe_forward_url (sch @ ''://'' @ dotted a b c d @ p @ r) = (\<not> internal4 (quad a b c d))"
proof -
  let ?h = "dotted a b c d"
  have chars: "x \<in> set ?h \<Longrightarrow> lower_char x = x \<and> x \<noteq> CHR ''%''" for x
    using plain_char dotted_chars [OF assms(1-4), of x] by fastforce
  have low: "py_lower ?h = ?h" using chars by (auto simp: py_lower_def intro: map_idI)
  have host: "hostname \<lparr>scheme = sch, netloc = ?h @ p\<rparr> = ?h"
  proof -
    have "CHR ''%'' \<notin> set ?h" using chars by blast
    then show ?thesis by (simp add: hostname_def host_of_dotted [OF assms(1-5)] low partition_free)
  qed
  have letter: "CHR ''l'' \<notin> set ?h" "CHR ''m'' \<notin> set ?h"
    using dotted_chars [OF assms(1-4), of "CHR ''l''"] dotted_chars [OF assms(1-4), of "CHR ''m''"] by (auto simp: is_digit_def)
  have "?h \<notin> set blocked_hostnames" using letter by (auto simp: blocked_hostnames_def)
  moreover have "\<not> endswith ?h ''.localhost''"
    using letter set_drop_subset [of "length ?h - length ''.localhost''" ?h] by (auto simp: endswith_def)
  ultimately have "safe_host ?h = (\<not> internal4 (quad a b c d))" by (simp add: safe_host_def low ip_dotted assms)
  then show "is_safe_remote_url (sch @ ''://'' @ ?h @ p @ r) = (\<not> internal4 (quad a b c d))"
    "is_safe_forward_url (sch @ ''://'' @ ?h @ p @ r) = (\<not> internal4 (quad a b c d))"
    unfolding is_safe_remote_url_def is_safe_forward_url_def urlsplit_dotted [OF assms] using assms(7) by (simp_all add: host)
qed

end
