(* ===== verification/Effects.thy ===== *)
theory Effects
  imports Pic
begin

text \<open>
  Code that calls out: an action takes the state and returns its value, or the exception it raises, with
  the state it leaves behind (a raise undoes nothing). HTTP is a function of the world: it returns a
  status and the parsed body (\<open>None\<close> where the body is not JSON), or raises. \<open>TransportError n\<close> stands for
  every \<^verbatim>\<open>httpx.HTTPError\<close>, with the name of its class.
\<close>

type_synonym ('s, 'a) act = "'s \<Rightarrow> 'a res \<times> 's"

definition aret :: "'a \<Rightarrow> ('s, 'a) act" where
  "aret x s = (Inr x, s)"

definition alift :: "'a res \<Rightarrow> ('s, 'a) act" where
  "alift r s = (r, s)"

definition abind :: "('s, 'a) act \<Rightarrow> ('a \<Rightarrow> ('s, 'b) act) \<Rightarrow> ('s, 'b) act" where
  "abind f g s = (case f s of (Inl e, s') \<Rightarrow> (Inl e, s') | (Inr x, s') \<Rightarrow> g x s')"

lemma abind_aret [simp]: "abind (aret x) g = g x"
  by (simp add: abind_def aret_def fun_eq_iff)

lemma abind_alift: "abind (alift r) g s = (case r of Inl e \<Rightarrow> (Inl e, s) | Inr x \<Rightarrow> g x s)"
  by (simp add: abind_def alift_def split: sum.split)

lemma abind_eq_Inr:
  "abind f g s = (Inr y, s') \<longleftrightarrow> (\<exists>x t. f s = (Inr x, t) \<and> g x t = (Inr y, s'))"
  by (auto simp: abind_def split: prod.splits sum.splits)

lemma aret_eq [simp]: "aret x s = (r, s') \<longleftrightarrow> r = Inr x \<and> s' = s"
  by (auto simp: aret_def)

lemma alift_eq [simp]: "alift r s = (r', s') \<longleftrightarrow> r = r' \<and> s' = s"
  by (auto simp: alift_def)

text \<open>A property of the state that an action keeps, however it ends.\<close>

definition keeps :: "('s \<Rightarrow> 's \<Rightarrow> bool) \<Rightarrow> ('s, 'a) act \<Rightarrow> bool" where
  "keeps R f \<longleftrightarrow> (\<forall>s. R s (snd (f s)))"

locale state_preorder =
  fixes R :: "'s \<Rightarrow> 's \<Rightarrow> bool"
  assumes R_refl: "R s s"
    and R_trans: "R s t \<Longrightarrow> R t u \<Longrightarrow> R s u"
begin

lemma keeps_aret: "keeps R (aret x)"
  by (simp add: keeps_def aret_def R_refl)

lemma keeps_alift: "keeps R (alift r)"
  by (simp add: keeps_def alift_def R_refl)

lemma keeps_abind:
  assumes "keeps R f" "\<And>x. keeps R (g x)"
  shows "keeps R (abind f g)"
  unfolding keeps_def
proof
  fix s
  obtain r t where f: "f s = (r, t)" by fastforce
  have "R s t" using assms(1) f by (metis keeps_def snd_conv)
  then show "R s (snd (abind f g s))"
    using assms(2) f R_trans by (cases r) (auto simp: abind_def keeps_def)
qed

end

subsection \<open>HTTP\<close>

record http_call =
  verb :: string
  path :: string
  call_headers :: "(string \<times> string) list"
  call_json :: "json option"

record http_reply =
  reply_status :: int
  reply_json :: "json option"

text \<open>The outside world of a client: what a call does to it, its clock, and the random text it hands out.\<close>

record 'w outside =
  network :: "string \<Rightarrow> http_call \<Rightarrow> 'w \<Rightarrow> http_reply res \<times> 'w"
  clock :: "'w \<Rightarrow> int"
  random_text :: "'w \<Rightarrow> string \<times> 'w"

text \<open>\<^verbatim>\<open>_safe_json\<close>: \<^verbatim>\<open>None\<close> where the body does not parse.\<close>

definition safe_json :: "http_reply \<Rightarrow> json" where
  "safe_json r = (case reply_json r of None \<Rightarrow> JNull | Some v \<Rightarrow> v)"

text \<open>A bearer token as request headers.\<close>

definition bearer :: "string option \<Rightarrow> (string \<times> string) list" where
  "bearer token = (case token of None \<Rightarrow> [] | Some t \<Rightarrow> [(''Authorization'', ''Bearer '' @ t)])"

end
