(* ===== verification/Directory.thy ===== *)
theory Directory
  imports Effects Artifacts
begin

text \<open>
  \<^verbatim>\<open>packages/discovery\<close>, \<^verbatim>\<open>apps/directory-service\<close> and the anchors of \<^verbatim>\<open>packages/arweave-anchor\<close>: where
  providers announce their signed manifests and routers find them. The three directories share the
  locale \<open>verified_directory\<close>; each is interpreted on its own state. A JSON file is its parsed content;
  \<^verbatim>\<open>json.loads\<close> of anchored bytes and the Arweave gateway are arguments.
\<close>

record discovered =
  d_base_url :: string
  d_manifest :: dict

subsection \<open>Values read from a manifest\<close>

text \<open>\<^verbatim>\<open>list(v)\<close> and \<^verbatim>\<open>set(v)\<close> of a JSON value; a set needs hashable members.\<close>

fun py_list :: "json \<Rightarrow> json list res" where
  "py_list (JArr xs) = Inr xs"
| "py_list (JObj d) = Inr (map (JStr \<circ> fst) d)"
| "py_list (JStr s) = Inr (map (\<lambda>c. JStr [c]) s)"
| "py_list v = Inl TypeError"

fun hashable :: "json \<Rightarrow> bool" where
  "hashable (JArr xs) = False"
| "hashable (JObj d) = False"
| "hashable v = True"

definition py_set :: "json \<Rightarrow> json list res" where
  "py_set v = rbind (py_list v) (\<lambda>xs. if list_all hashable xs then Inr xs else Inl TypeError)"

definition d_pubkey :: "discovered \<Rightarrow> string res" where
  "d_pubkey p = rbind (getitem (d_manifest p) ''provider_pubkey'') (\<lambda>v. Inr (py_str v))"

definition d_models :: "discovered \<Rightarrow> json list res" where
  "d_models p = py_list (get_or (d_manifest p) ''models'' (JArr []))"

definition d_published_at :: "discovered \<Rightarrow> string" where
  "d_published_at p = py_str (get_or (d_manifest p) ''published_at'' (JStr []))"

definition serves :: "discovered \<Rightarrow> string \<Rightarrow> bool res" where
  "serves p model = rbind (d_models p) (\<lambda>ms. Inr (JStr model \<in> set ms))"

definition signed_endpoint :: "dict \<Rightarrow> string option \<Rightarrow> string res" where
  "signed_endpoint manifest base_url = (case the_str (getn manifest ''manifest_uri'') of
     None \<Rightarrow> Inl DiscoveryError
   | Some uri \<Rightarrow> if uri = [] then Inl DiscoveryError
       else if base_url \<noteq> None \<and> base_url \<noteq> Some uri then Inl DiscoveryError else Inr uri)"

definition require_verified :: "platform \<Rightarrow> dict \<Rightarrow> unit res" where
  "require_verified P manifest = rbind (verify_provider_manifest P manifest) (\<lambda>good.
     if good then Inr () else Inl DiscoveryError)"

text \<open>The guards before every announcement.\<close>

definition announceable :: "platform \<Rightarrow> dict \<Rightarrow> string option \<Rightarrow> string res" where
  "announceable P manifest base_url =
     rbind (require_verified P manifest) (\<lambda>_. signed_endpoint manifest base_url)"

subsection \<open>Deduplication\<close>

definition keep_freshest :: "string option \<Rightarrow> discovered \<Rightarrow> (string \<times> discovered) list \<Rightarrow> (string \<times> discovered) list res" where
  "keep_freshest model p freshest =
     rbind (case model of None \<Rightarrow> Inr True | Some m \<Rightarrow> serves p m) (\<lambda>wanted.
       if \<not> wanted then Inr freshest
       else rbind (d_pubkey p) (\<lambda>key. Inr (case dict_get freshest key of
           None \<Rightarrow> dict_set key p freshest
         | Some existing \<Rightarrow> if str_less (d_published_at existing) (d_published_at p)
             then dict_set key p freshest else freshest)))"

definition filter_and_dedupe :: "string option \<Rightarrow> discovered list \<Rightarrow> discovered list res" where
  "filter_and_dedupe model ps = rbind (rfold (keep_freshest model) ps []) (\<lambda>freshest. Inr (map snd freshest))"

text \<open>One manifest found somewhere: a verified one with a signed endpoint becomes a provider.\<close>

definition admit :: "platform \<Rightarrow> json \<Rightarrow> discovered option res" where
  "admit P v = (case the_obj v of
     None \<Rightarrow> Inr None
   | Some manifest \<Rightarrow> rbind (verify_provider_manifest P manifest) (\<lambda>good.
       if \<not> good then Inr None
       else Inr (case the_str (getn manifest ''manifest_uri'') of
           None \<Rightarrow> None
         | Some uri \<Rightarrow> if uri = [] then None else Some \<lparr>d_base_url = uri, d_manifest = manifest\<rparr>)))"

definition admit_all :: "platform \<Rightarrow> json list \<Rightarrow> discovered list res" where
  "admit_all P vs = rbind (rmap (admit P) vs) (\<lambda>os. Inr (List.map_filter id os))"

definition discover_among :: "platform \<Rightarrow> string option \<Rightarrow> json list \<Rightarrow> discovered list res" where
  "discover_among P model vs = rbind (admit_all P vs) (filter_and_dedupe model)"

subsection \<open>FileDirectory\<close>

text \<open>\<^verbatim>\<open>json.dump(\<dots>, sort_keys=True)\<close>, read back.\<close>

fun sort_keys :: "json \<Rightarrow> json" where
  "sort_keys (JArr xs) = JArr (map sort_keys xs)"
| "sort_keys (JObj d) = JObj (isort_by key_le (map (\<lambda>(k, v). (k, sort_keys v)) d))"
| "sort_keys v = v"

type_synonym json_file = "json option"

definition load_raw :: "json_file \<Rightarrow> dict" where
  "load_raw file = (case file of None \<Rightarrow> [] | Some data \<Rightarrow> (case the_obj data of None \<Rightarrow> [] | Some d \<Rightarrow> d))"

definition write_raw :: "dict \<Rightarrow> json_file" where
  "write_raw rows = Some (sort_keys (JObj rows))"

lemma distinct_sorted: "distinct (map fst (isort_by le d)) \<longleftrightarrow> distinct (map fst d)"
  by (rule mset_eq_imp_distinct_iff) (simp only: mset_map mset_isort_by)

lemma dict_get_sorted: "distinct (map fst d) \<Longrightarrow> dict_get (isort_by le d) k = dict_get d k"
  using map_of_inject_set [of "isort_by le d" d] by (simp add: distinct_sorted)

text \<open>What is written is read back, with the keys of its entries sorted.\<close>

lemma load_write:
  assumes "distinct (map fst d)"
  shows "dict_get (load_raw (write_raw d)) k = map_option sort_keys (dict_get d k)"
    and "distinct (map fst (load_raw (write_raw d)))"
proof -
  let ?srt = "map (\<lambda>(k, v). (k, sort_keys v)) d"
  have fsts: "map fst ?srt = map fst d" by (simp add: split_def)
  have dist: "distinct (map fst ?srt)" unfolding fsts by (rule assms)
  have lw: "load_raw (write_raw d) = isort_by key_le ?srt" by (simp add: load_raw_def write_raw_def)
  show "dict_get (load_raw (write_raw d)) k = map_option sort_keys (dict_get d k)"
    unfolding lw dict_get_sorted [OF dist] by (simp add: map_of_map)
  show "distinct (map fst (load_raw (write_raw d)))" unfolding lw distinct_sorted by (rule dist)
qed

definition file_announce :: "platform \<Rightarrow> dict \<Rightarrow> string option \<Rightarrow> (json_file, string) act" where
  "file_announce P manifest base_url file =
     (case rbind (announceable P manifest base_url) (\<lambda>_. getitem manifest ''provider_pubkey'') of
        Inl e \<Rightarrow> (Inl e, file)
      | Inr v \<Rightarrow> (Inr (py_str v), write_raw (dict_set (py_str v) (JObj [(''manifest'', JObj manifest)]) (load_raw file))))"

text \<open>The manifest of a stored entry, anything else being skipped.\<close>

definition entry_manifest :: "json \<Rightarrow> json" where
  "entry_manifest entry = (case the_obj entry of None \<Rightarrow> JNull | Some d \<Rightarrow> getn d ''manifest'')"

definition file_discover :: "platform \<Rightarrow> string option \<Rightarrow> (json_file, discovered list) act" where
  "file_discover P model file = (discover_among P model (map (entry_manifest \<circ> snd) (load_raw file)), file)"

subsection \<open>Anchors\<close>

definition split_uri :: "string \<Rightarrow> string \<Rightarrow> string res" where
  "split_uri uri expected =
     (if \<not> startswith uri (expected @ ''://'') then Inl AnchorError
      else let rest = drop (length expected + 3) uri in
        if rest = [] then Inl AnchorError else Inr rest)"

text \<open>\<^verbatim>\<open>LocalAnchor\<close>: files named by the digest of their bytes.\<close>

type_synonym store = "(string \<times> bytes) list"

definition local_put :: "platform \<Rightarrow> bytes \<Rightarrow> (store, string) act" where
  "local_put P data st =
     (let digest = hexdigest (sha256 P data) in
      (Inr (''local://'' @ digest), case dict_get st digest of None \<Rightarrow> dict_set digest data st | Some _ \<Rightarrow> st))"

definition local_get :: "string \<Rightarrow> (store, bytes) act" where
  "local_get uri st = (rbind (split_uri uri ''local'') (\<lambda>digest.
     case dict_get st digest of None \<Rightarrow> Inl AnchorError | Some b \<Rightarrow> Inr b), st)"

text \<open>\<^verbatim>\<open>ArweaveAnchor\<close>: the submitter and the gateway are the world's.\<close>

type_synonym 'w submitter = "bytes \<Rightarrow> string \<Rightarrow> (string \<times> string) list \<Rightarrow> ('w, string) act"

definition arweave_put :: "'w submitter option \<Rightarrow> bytes \<Rightarrow> string \<Rightarrow> (string \<times> string) list \<Rightarrow> ('w, string) act" where
  "arweave_put submitter data content_type tags = (case submitter of
     None \<Rightarrow> alift (Inl AnchorError)
   | Some submit \<Rightarrow> abind (submit data content_type tags) (\<lambda>tx. aret (''ar://'' @ tx)))"

definition arweave_get :: "(string \<Rightarrow> ('w, bytes) act) \<Rightarrow> string \<Rightarrow> string \<Rightarrow> ('w, bytes) act" where
  "arweave_get fetch gateway uri = abind (alift (split_uri uri ''ar'')) (\<lambda>tx s.
     case fetch (rstrip_char CHR ''/'' gateway @ ''/'' @ tx) s of
       (Inl (TransportError n), s') \<Rightarrow> (Inl AnchorError, s')
     | other \<Rightarrow> other)"

subsection \<open>helpers.py\<close>

text \<open>An anchor as its two operations; \<^verbatim>\<open>{\<dots>, **tags}\<close> lets the caller's tags win.\<close>

record 's anchor =
  a_put :: "bytes \<Rightarrow> string \<Rightarrow> (string \<times> string) list \<Rightarrow> ('s, string) act"
  a_get :: "string \<Rightarrow> ('s, bytes) act"

definition merge_tags :: "(string \<times> string) list \<Rightarrow> (string \<times> string) list \<Rightarrow> (string \<times> string) list" where
  "merge_tags base tags = foldl (\<lambda>d (k, v). dict_set k v d) base tags"

definition anchor_json :: "'s anchor \<Rightarrow> dict \<Rightarrow> (string \<times> string) list \<Rightarrow> ('s, string) act" where
  "anchor_json A obj tags = abind (alift (canonical_json (JObj obj))) (\<lambda>bs. a_put A bs ''application/json'' tags)"

definition resolve_json :: "(bytes \<Rightarrow> json res) \<Rightarrow> 's anchor \<Rightarrow> string \<Rightarrow> ('s, dict) act" where
  "resolve_json loads A uri = abind (a_get A uri) (\<lambda>raw. alift (case loads raw of
     Inl ValueError \<Rightarrow> Inl AnchorError
   | Inl e \<Rightarrow> Inl e
   | Inr v \<Rightarrow> (case the_obj v of None \<Rightarrow> Inl AnchorError | Some d \<Rightarrow> Inr d)))"

definition anchor_receipt :: "platform \<Rightarrow> 's anchor \<Rightarrow> dict \<Rightarrow> (string \<times> string) list \<Rightarrow> ('s, string) act" where
  "anchor_receipt P A receipt tags = abind (alift (verify_receipt P receipt)) (\<lambda>v.
     if \<not> valid v then alift (Inl AnchorError)
     else anchor_json A receipt
       (merge_tags [(''SIP-AI'', py_str (get_or receipt ''receipt_version'' (JStr ''sip-ai.receipt.v1'')))] tags))"

definition anchor_manifest :: "platform \<Rightarrow> 's anchor \<Rightarrow> dict \<Rightarrow> (string \<times> string) list \<Rightarrow> ('s, string) act" where
  "anchor_manifest P A manifest tags =
     abind (if getn manifest ''schema'' = JStr provider_manifest_schema
            then alift (verify_provider_manifest P manifest) else aret True) (\<lambda>good.
       if \<not> good then alift (Inl AnchorError)
       else anchor_json A manifest
         (merge_tags [(''SIP-AI'', py_str (get_or manifest ''schema'' (JStr ''sip-ai.manifest'')))] tags))"

subsection \<open>ArweaveDirectory\<close>

type_synonym 's query = "(string \<times> string) list \<Rightarrow> ('s, string list) act"

definition arweave_announce :: "platform \<Rightarrow> 's anchor \<Rightarrow> dict \<Rightarrow> string option \<Rightarrow> ('s, string) act" where
  "arweave_announce P A manifest base_url =
     abind (alift (announceable P manifest base_url)) (\<lambda>_.
     abind (alift (getitem manifest ''provider_pubkey'')) (\<lambda>pk.
     abind (alift (py_list (get_or manifest ''models'' (JArr [])))) (\<lambda>ms.
     abind (alift (canonical_json (JObj manifest))) (\<lambda>bs.
       a_put A bs ''application/json''
         [(''App-Name'', ''SIP-AI''), (''Type'', ''provider-manifest''), (''Provider'', py_str pk),
          (''Models'', join '','' (map py_str ms))]))))"

text \<open>\<^verbatim>\<open>_resolve\<close>: an anchor or parse failure is a missing manifest.\<close>

definition arweave_resolve :: "(bytes \<Rightarrow> json res) \<Rightarrow> 's anchor \<Rightarrow> string \<Rightarrow> ('s, json) act" where
  "arweave_resolve loads A uri s = (case abind (a_get A uri) (\<lambda>raw. alift (loads raw)) s of
     (Inl e, s') \<Rightarrow> (if e \<in> {AnchorError, OSError, ValueError} then Inr JNull else Inl e, s')
   | (Inr v, s') \<Rightarrow> (Inr v, s'))"

fun amap :: "('a \<Rightarrow> ('s, 'b) act) \<Rightarrow> 'a list \<Rightarrow> ('s, 'b list) act" where
  "amap f [] = aret []"
| "amap f (x # xs) = abind (f x) (\<lambda>y. abind (amap f xs) (\<lambda>ys. aret (y # ys)))"

definition arweave_discover ::
  "platform \<Rightarrow> (bytes \<Rightarrow> json res) \<Rightarrow> 's anchor \<Rightarrow> 's query option \<Rightarrow> string option \<Rightarrow> ('s, discovered list) act" where
  "arweave_discover P loads A query model = (case query of
     None \<Rightarrow> alift (Inl DiscoveryError)
   | Some q \<Rightarrow> abind (q [(''App-Name'', ''SIP-AI''), (''Type'', ''provider-manifest'')]) (\<lambda>uris.
       abind (amap (\<lambda>uri. abind (arweave_resolve loads A uri) (\<lambda>v. alift (admit P v))) uris) (\<lambda>found.
         alift (filter_and_dedupe model (List.map_filter id found)))))"

subsection \<open>HttpDirectory\<close>

text \<open>\<^verbatim>\<open>raise_for_status\<close> and \<^verbatim>\<open>json\<close> inside the \<^verbatim>\<open>try\<close>: whatever goes wrong with the reply is a discovery error.\<close>

definition checked_reply :: "http_reply res \<Rightarrow> json res" where
  "checked_reply r = (case r of
     Inl (TransportError n) \<Rightarrow> Inl DiscoveryError
   | Inl ValueError \<Rightarrow> Inl DiscoveryError
   | Inl e \<Rightarrow> Inl e
   | Inr h \<Rightarrow> if reply_status h < 200 \<or> 300 \<le> reply_status h then Inl DiscoveryError
       else (case reply_json h of None \<Rightarrow> Inl DiscoveryError | Some v \<Rightarrow> Inr v))"

definition http_request :: "'w outside \<Rightarrow> string \<Rightarrow> http_call \<Rightarrow> ('w, json) act" where
  "http_request E base call w = (case network E (rstrip_char CHR ''/'' base) call w of (r, w') \<Rightarrow> (checked_reply r, w'))"

definition http_announce :: "platform \<Rightarrow> 'w outside \<Rightarrow> string \<Rightarrow> dict \<Rightarrow> string option \<Rightarrow> ('w, string) act" where
  "http_announce P E base manifest base_url =
     abind (alift (announceable P manifest base_url)) (\<lambda>_.
     abind (http_request E base \<lparr>verb = ''POST'', path = ''/directory/announce'', call_headers = [], call_json = Some (JObj manifest)\<rparr>) (\<lambda>data.
       case the_obj data of
         Some d \<Rightarrow> if truthy (getn d ''ref'') then aret (py_str (getn d ''ref''))
           else alift (rbind (getitem manifest ''provider_pubkey'') (\<lambda>v. Inr (py_str v)))
       | None \<Rightarrow> alift (rbind (getitem manifest ''provider_pubkey'') (\<lambda>v. Inr (py_str v)))))"

definition http_discover :: "platform \<Rightarrow> 'w outside \<Rightarrow> string \<Rightarrow> string option \<Rightarrow> ('w, discovered list) act" where
  "http_discover P E base model =
     abind (http_request E base \<lparr>verb = ''GET'', path = ''/directory/providers'' @
        (case model of None \<Rightarrow> [] | Some m \<Rightarrow> if m = [] then [] else ''?model='' @ m), call_headers = [], call_json = None\<rparr>) (\<lambda>payload.
     abind (alift (case the_obj payload of None \<Rightarrow> Inr [] | Some d \<Rightarrow> py_list (get_or d ''providers'' (JArr [])))) (\<lambda>manifests.
       alift (discover_among P model manifests)))"

subsection \<open>arweave_discovery_query\<close>

text \<open>\<^verbatim>\<open>v.get(k, d)\<close> on a value that must be an object.\<close>

definition get_default :: "json \<Rightarrow> string \<Rightarrow> json \<Rightarrow> json res" where
  "get_default v k x = (case the_obj v of None \<Rightarrow> Inl AttributeError | Some d \<Rightarrow> Inr (get_or d k x))"

definition item :: "json \<Rightarrow> string \<Rightarrow> json res" where
  "item v k = (case the_obj v of None \<Rightarrow> Inl TypeError | Some d \<Rightarrow> getitem d k)"

definition graphql_uris :: "json \<Rightarrow> string list res" where
  "graphql_uris edges = rbind (py_list edges) (\<lambda>es.
     rmap (\<lambda>e. rbind (item e ''node'') (\<lambda>n. rbind (item n ''id'') (\<lambda>i. Inr (''ar://'' @ py_str i))))
       (filter (\<lambda>e. the_obj e \<noteq> None) es))"

definition discovery_query :: "'w outside \<Rightarrow> string \<Rightarrow> int \<Rightarrow> 'w query" where
  "discovery_query E gateway page_size tags w =
     (case http_request E gateway \<lparr>verb = ''POST'', path = ''/graphql'', call_headers = [], call_json = Some (JObj
        [(''query'', JStr (''query($tags:[TagFilter!]){transactions(tags:$tags,first:'' @ str_of_int page_size @
            '',sort:HEIGHT_DESC){edges{node{id}}}}'')),
         (''variables'', JObj [(''tags'', JArr (map (\<lambda>(n, v). JObj [(''name'', JStr n), (''values'', JArr [JStr v])]) tags))])])\<rparr> w of
       (Inl DiscoveryError, w') \<Rightarrow> (Inr [], w')
     | (Inl e, w') \<Rightarrow> (Inl e, w')
     | (Inr v, w') \<Rightarrow> (rbind (get_default v ''data'' (JObj [])) (\<lambda>a. rbind (get_default a ''transactions'' (JObj [])) (\<lambda>b.
         rbind (get_default b ''edges'' (JArr [])) graphql_uris)), w'))"

subsection \<open>directory-service\<close>

definition service_announce ::
  "(dict \<Rightarrow> string option \<Rightarrow> ('s, string) act) \<Rightarrow> json option \<Rightarrow> 's \<Rightarrow> (int \<times> json) res \<times> 's" where
  "service_announce announce body s = (case body of
     None \<Rightarrow> (Inr (400, JObj [(''error'', JStr ''body must be a JSON provider manifest'')]), s)
   | Some v \<Rightarrow> (case the_obj v of
       None \<Rightarrow> (Inr (400, JObj [(''error'', JStr ''body must be a JSON object'')]), s)
     | Some manifest \<Rightarrow> (case announce manifest None s of
         (Inl DiscoveryError, s') \<Rightarrow> (Inr (400, JObj [(''error'', JStr ''refused'')]), s')
       | (Inl e, s') \<Rightarrow> (Inl e, s')
       | (Inr ref, s') \<Rightarrow> (Inr (200, JObj [(''ref'', JStr ref)]), s'))))"

definition service_providers ::
  "(string option \<Rightarrow> ('s, discovered list) act) \<Rightarrow> string option \<Rightarrow> 's \<Rightarrow> (int \<times> json) res \<times> 's" where
  "service_providers discover model = abind (discover model) (\<lambda>found.
     aret (200, JObj [(''providers'', JArr (map (JObj \<circ> d_manifest) found))]))"

definition healthz :: "int \<times> json" where
  "healthz = (200, JObj [(''status'', JStr ''ok'')])"

end
