(* ===== verification/Reputation.thy ===== *)
theory Reputation
  imports Directory
begin

text \<open>
  \<^verbatim>\<open>packages/policy\<close> and \<^verbatim>\<open>packages/reputation\<close>: which providers an operator permits, the outcome counters
  behind a provider's score, the health probe, and the ranking of discovered providers.
\<close>

subsection \<open>policy.py\<close>

record decision =
  permitted :: bool
  why :: string

record policy =
  require_attestation :: bool
  accepted_tee_types :: "string list"
  accepted_units :: "string list"
  max_input_per_1m :: "pyfloat option"
  max_output_per_1m :: "pyfloat option"
  required_privacy_modes :: "string list"
  allow_providers :: "string list"
  deny_providers :: "string list"
  min_reputation :: "pyfloat option"

text \<open>\<^verbatim>\<open>TEE_TYPES\<close> of \<^verbatim>\<open>sip_protocol.attestation\<close>.\<close>

definition tee_types :: "string list" where
  "tee_types = [''intel-tdx'', ''amd-sev-snp'', ''nvidia-cc'', ''aws-nitro'', ''none'']"

text \<open>\<^verbatim>\<open>_price\<close>: what does not convert counts as free; an integer too large for a float still raises.\<close>

definition policy_price :: "dict \<Rightarrow> string \<Rightarrow> pyfloat res" where
  "policy_price pricing k = (case py_float (get_or pricing k (JFloat (Fin 0))) of
     Inl TypeError \<Rightarrow> Inr (Fin 0)
   | Inl ValueError \<Rightarrow> Inr (Fin 0)
   | r \<Rightarrow> r)"

text \<open>A check that may reject with a reason; the first rejection decides.\<close>

fun first_reason :: "string option res list \<Rightarrow> decision res" where
  "first_reason [] = Inr \<lparr>permitted = True, why = []\<rparr>"
| "first_reason (r # rs) = rbind r (\<lambda>x. case x of Some reason \<Rightarrow> Inr \<lparr>permitted = False, why = reason\<rparr>
     | None \<Rightarrow> first_reason rs)"

definition reject_if :: "bool res \<Rightarrow> string \<Rightarrow> string option res" where
  "reject_if r reason = rbind r (\<lambda>b. Inr (if b then Some reason else None))"

text \<open>\<^verbatim>\<open>enabled and \<dots>\<close>: the second operand is evaluated only when the first holds.\<close>

definition and_then :: "bool \<Rightarrow> bool res \<Rightarrow> bool res" where
  "and_then b r = (if b then r else Inr False)"

definition negated :: "bool res \<Rightarrow> bool res" where
  "negated r = rbind r (\<lambda>b. Inr (\<not> b))"

definition over_cap :: "pyfloat option \<Rightarrow> dict \<Rightarrow> string \<Rightarrow> bool res" where
  "over_cap cap pricing k = (case cap of None \<Rightarrow> Inr False
     | Some c \<Rightarrow> rbind (policy_price pricing k) (\<lambda>p. Inr (flt c p)))"

definition pricing_of :: "dict \<Rightarrow> dict" where
  "pricing_of manifest = (case the_obj (getn manifest ''pricing'') of None \<Rightarrow> [] | Some d \<Rightarrow> d)"

definition accepted_tees :: "policy \<Rightarrow> string list" where
  "accepted_tees pol = (if accepted_tee_types pol \<noteq> [] then accepted_tee_types pol else filter (\<lambda>t. t \<noteq> ''none'') tee_types)"

definition privacy_unmet :: "policy \<Rightarrow> dict \<Rightarrow> bool res" where
  "privacy_unmet pol manifest =
     (let raw = getn manifest ''privacy_modes'' in
      rbind (py_set (if truthy raw then raw else JArr [])) (\<lambda>advertised.
        Inr (\<not> list_all (\<lambda>m. JStr m \<in> set advertised) (required_privacy_modes pol))))"

definition reputation_low :: "policy \<Rightarrow> pyfloat option \<Rightarrow> bool" where
  "reputation_low pol score = (case min_reputation pol of None \<Rightarrow> False
     | Some low \<Rightarrow> (case score of None \<Rightarrow> True | Some s \<Rightarrow> flt s low))"

definition permits :: "platform \<Rightarrow> policy \<Rightarrow> dict \<Rightarrow> pyfloat option \<Rightarrow> decision res" where
  "permits P pol manifest score =
     (let pubkey = getn manifest ''provider_pubkey''; pricing = pricing_of manifest in
      first_reason
       [reject_if (and_then (deny_providers pol \<noteq> []) (in_str_set pubkey (deny_providers pol))) ''provider_denylisted'',
        reject_if (and_then (allow_providers pol \<noteq> []) (negated (in_str_set pubkey (allow_providers pol)))) ''not_allowlisted'',
        reject_if (and_then (require_attestation pol) (negated (is_attested P manifest (accepted_tees pol) None))) ''attestation_required'',
        reject_if (and_then (accepted_units pol \<noteq> []) (negated (in_str_set (getn pricing ''unit'') (accepted_units pol)))) ''unit_not_accepted'',
        reject_if (over_cap (max_input_per_1m pol) pricing ''input_per_1m'') ''input_price_too_high'',
        reject_if (over_cap (max_output_per_1m pol) pricing ''output_per_1m'') ''output_price_too_high'',
        reject_if (and_then (required_privacy_modes pol \<noteq> []) (privacy_unmet pol manifest)) ''privacy_mode_unmet'',
        reject_if (Inr (reputation_low pol score)) ''reputation_too_low''])"

definition score_for :: "(string \<Rightarrow> pyfloat option) option \<Rightarrow> dict \<Rightarrow> pyfloat option" where
  "score_for get_score m = (case get_score of None \<Rightarrow> None | Some f \<Rightarrow> f (py_str (getn m ''provider_pubkey'')))"

definition filter_entries ::
  "platform \<Rightarrow> policy \<Rightarrow> ('e \<Rightarrow> dict) \<Rightarrow> (string \<Rightarrow> pyfloat option) option \<Rightarrow> 'e list \<Rightarrow> 'e list res" where
  "filter_entries P pol manifest_of get_score es =
     rbind (rmap (\<lambda>e. rbind (permits P pol (manifest_of e) (score_for get_score (manifest_of e))) (\<lambda>d. Inr (permitted d, e))) es)
       (\<lambda>marked. Inr (map snd (filter fst marked)))"

subsection \<open>store.py\<close>

record reputation =
  rep_pubkey :: string
  samples :: int
  success_rate :: pyfloat
  receipt_valid_rate :: pyfloat
  avg_latency_ms :: "pyfloat option"
  rep_score :: pyfloat

text \<open>\<^verbatim>\<open>int(v)\<close>\<close>

fun py_int :: "json \<Rightarrow> int res" where
  "py_int (JInt i) = Inr i"
| "py_int (JBool b) = Inr (if b then 1 else 0)"
| "py_int (JFloat f) = truncate_float f"
| "py_int (JStr s) = int_of_str s"
| "py_int v = Inl TypeError"

text \<open>\<^verbatim>\<open>v + n\<close> for a JSON number and an integer or a float.\<close>

fun add_int :: "json \<Rightarrow> int \<Rightarrow> json res" where
  "add_int (JInt i) n = Inr (JInt (i + n))"
| "add_int (JBool b) n = Inr (JInt ((if b then 1 else 0) + n))"
| "add_int (JFloat f) n = rbind (float_of_int n) (\<lambda>g. Inr (JFloat (fadd f g)))"
| "add_int v n = Inl TypeError"

fun add_float :: "json \<Rightarrow> pyfloat \<Rightarrow> json res" where
  "add_float (JInt i) g = rbind (float_of_int i) (\<lambda>f. Inr (JFloat (fadd f g)))"
| "add_float (JBool b) g = Inr (JFloat (fadd (Fin (if b then 1 else 0)) g))"
| "add_float (JFloat f) g = Inr (JFloat (fadd f g))"
| "add_float v g = Inl TypeError"

text \<open>\<^verbatim>\<open>entry[k] += \<dots>\<close>\<close>

definition bump :: "string \<Rightarrow> (json \<Rightarrow> json res) \<Rightarrow> dict \<Rightarrow> dict res" where
  "bump k f d = rbind (getitem d k) (\<lambda>v. rbind (f v) (\<lambda>w. Inr (dict_set k w d)))"

definition fresh_counters :: dict where
  "fresh_counters = [(''total'', JInt 0), (''success'', JInt 0), (''receipt_valid'', JInt 0),
     (''latency_sum'', JFloat (Fin 0)), (''latency_n'', JInt 0)]"

definition count_outcome :: "bool \<Rightarrow> pyfloat option \<Rightarrow> bool \<Rightarrow> dict \<Rightarrow> dict res" where
  "count_outcome success latency receipt_valid d =
     rbind (bump ''total'' (\<lambda>v. add_int v 1) d) (\<lambda>d.
     rbind (if success then bump ''success'' (\<lambda>v. add_int v 1) d else Inr d) (\<lambda>d.
     rbind (if receipt_valid then bump ''receipt_valid'' (\<lambda>v. add_int v 1) d else Inr d) (\<lambda>d.
     (case latency of None \<Rightarrow> Inr d
      | Some ms \<Rightarrow> rbind (bump ''latency_sum'' (\<lambda>v. add_float v ms) d) (bump ''latency_n'' (\<lambda>v. add_int v 1))))))"

text \<open>An entry that is not an object fails at its first subscript.\<close>

definition rep_record :: "string \<Rightarrow> bool \<Rightarrow> pyfloat option \<Rightarrow> bool \<Rightarrow> (json_file, unit) act" where
  "rep_record pubkey success latency receipt_valid file =
     (let data = load_raw file;
          entry = (case dict_get data pubkey of None \<Rightarrow> JObj fresh_counters | Some v \<Rightarrow> v)
      in case the_obj entry of
        None \<Rightarrow> (Inl TypeError, file)
      | Some d \<Rightarrow> (case count_outcome success latency receipt_valid d of
          Inl e \<Rightarrow> (Inl e, file)
        | Inr d' \<Rightarrow> (Inr (), write_raw (dict_set pubkey (JObj d') data))))"

text \<open>\<^verbatim>\<open>a / b\<close> of integers: correctly rounded.\<close>

definition int_div :: "int \<Rightarrow> int \<Rightarrow> pyfloat res" where
  "int_div a b = (if b = 0 then Inl ZeroDivisionError
     else case to_float (of_int a / of_int b) of Fin x \<Rightarrow> Inr (Fin x) | _ \<Rightarrow> Inl OverflowError)"

definition success_weight :: pyfloat where
  "success_weight = to_float (7/10)"

definition receipt_weight :: pyfloat where
  "receipt_weight = to_float (3/10)"

definition score_of_counters :: "string \<Rightarrow> dict \<Rightarrow> reputation res" where
  "score_of_counters pubkey d =
     rbind (py_int (get_or d ''total'' (JInt 0))) (\<lambda>total.
       if total = 0 then Inr \<lparr>rep_pubkey = pubkey, samples = 0, success_rate = Fin 0, receipt_valid_rate = Fin 0,
         avg_latency_ms = None, rep_score = Fin (1/2)\<rparr>
       else rbind (rbind (py_int (get_or d ''success'' (JInt 0))) (\<lambda>n. int_div n total)) (\<lambda>success.
            rbind (rbind (py_int (get_or d ''receipt_valid'' (JInt 0))) (\<lambda>n. int_div n total)) (\<lambda>receipts.
            rbind (py_int (get_or d ''latency_n'' (JInt 0))) (\<lambda>latency_n.
            rbind (if latency_n = 0 then Inr None
                   else rbind (getitem d ''latency_sum'') (\<lambda>v. rbind (py_float v) (\<lambda>t.
                     rbind (float_of_int latency_n) (\<lambda>n. rbind (fdiv t n) (\<lambda>q. Inr (Some q)))))) (\<lambda>latency.
              Inr \<lparr>rep_pubkey = pubkey, samples = total, success_rate = success, receipt_valid_rate = receipts,
                avg_latency_ms = latency,
                rep_score = fadd (fmul success_weight success) (fmul receipt_weight receipts)\<rparr>)))))"

definition rep_score_of :: "string \<Rightarrow> json_file \<Rightarrow> reputation res" where
  "rep_score_of pubkey file =
     (let entry = getn (load_raw file) pubkey in
      if \<not> truthy entry then score_of_counters pubkey []
      else case the_obj entry of None \<Rightarrow> Inl AttributeError | Some d \<Rightarrow> score_of_counters pubkey d)"

subsection \<open>health.py\<close>

record health =
  reachable :: bool
  pubkey_match :: bool
  model_match :: bool
  latency_ms :: "pyfloat option"

definition health_alive :: "health \<Rightarrow> bool" where
  "health_alive h \<longleftrightarrow> reachable h \<and> pubkey_match h \<and> model_match h"

definition shares_model :: "json list \<Rightarrow> json list \<Rightarrow> bool" where
  "shares_model xs ys = list_ex (\<lambda>x. list_ex (py_eq x) ys) xs"

text \<open>\<open>ticks\<close> is \<^verbatim>\<open>perf_counter\<close> as a function of the world.\<close>

definition read_health :: "discovered \<Rightarrow> json \<Rightarrow> pyfloat \<Rightarrow> health res" where
  "read_health p body latency = (case the_obj body of
     None \<Rightarrow> Inr \<lparr>reachable = True, pubkey_match = False, model_match = False, latency_ms = Some latency\<rparr>
   | Some d \<Rightarrow> rbind (d_pubkey p) (\<lambda>key.
       let live = (let v = getn d ''models'' in if truthy v then v else JArr []) in
       rbind (case the_arr live of
          None \<Rightarrow> Inr False
        | Some ys \<Rightarrow> rbind (d_models p) (\<lambda>xs. rbind (py_set (JArr xs)) (\<lambda>xs. rbind (py_set (JArr ys)) (\<lambda>ys.
            Inr (shares_model xs ys))))) (\<lambda>model.
         Inr \<lparr>reachable = True, pubkey_match = (getn d ''provider_pubkey'' = JStr key), model_match = model,
              latency_ms = Some latency\<rparr>)))"

definition probe_check :: "'w outside \<Rightarrow> ('w \<Rightarrow> pyfloat) \<Rightarrow> discovered \<Rightarrow> ('w, health) act" where
  "probe_check E ticks p w =
     (case network E (d_base_url p) \<lparr>verb = ''GET'', path = ''/sip/v1/health'', call_headers = [], call_json = None\<rparr> w of (r, w') \<Rightarrow>
        (case checked_reply r of
           Inl DiscoveryError \<Rightarrow> Inr \<lparr>reachable = False, pubkey_match = False, model_match = False, latency_ms = None\<rparr>
         | Inl e \<Rightarrow> Inl e
         | Inr body \<Rightarrow> read_health p body (fmul (fsub (ticks w') (ticks w)) (Fin 1000)), w'))"

subsection \<open>rank.py\<close>

record ranked =
  rk_provider :: discovered
  rk_reputation :: reputation
  rk_score :: pyfloat
  rk_health :: "health option"

text \<open>The advertised rate; what does not convert counts as zero.\<close>

definition advertised_tps :: "discovered \<Rightarrow> pyfloat res" where
  "advertised_tps p = (case the_obj (getn (d_manifest p) ''benchmark'') of
     None \<Rightarrow> Inr (Fin 0) | Some b \<Rightarrow> policy_price b ''tokens_per_second'')"

definition latency_for :: "reputation \<Rightarrow> health option \<Rightarrow> pyfloat" where
  "latency_for r h = (case Option.bind h latency_ms of Some l \<Rightarrow> l
     | None \<Rightarrow> (case avg_latency_ms r of Some l \<Rightarrow> l | None \<Rightarrow> PInf))"

text \<open>Tuples compare at their first difference.\<close>

fun floats_less :: "pyfloat list \<Rightarrow> pyfloat list \<Rightarrow> bool" where
  "floats_less (x # xs) (y # ys) = (if feq x y then floats_less xs ys else flt x y)"
| "floats_less [] (y # ys) = True"
| "floats_less xs [] = False"

definition rank_key :: "ranked \<Rightarrow> pyfloat list res" where
  "rank_key r = rbind (advertised_tps (rk_provider r)) (\<lambda>tps.
     Inr [fneg (rk_score r), latency_for (rk_reputation r) (rk_health r), fneg tps])"

definition rank_one :: "json_file \<Rightarrow> (discovered \<Rightarrow> ('w, health) act) option \<Rightarrow> discovered \<Rightarrow> ('w, ranked option) act" where
  "rank_one file probe p =
     abind (alift (rbind (d_pubkey p) (\<lambda>key. rep_score_of key file))) (\<lambda>rep.
     abind (case probe of None \<Rightarrow> aret None | Some check \<Rightarrow> abind (check p) (\<lambda>h. aret (Some h))) (\<lambda>h.
       aret (if h \<noteq> None \<and> \<not> health_alive (the h) then None
             else Some \<lparr>rk_provider = p, rk_reputation = rep, rk_score = rep_score rep, rk_health = h\<rparr>)))"

definition rank_providers ::
  "json_file \<Rightarrow> (discovered \<Rightarrow> ('w, health) act) option \<Rightarrow> discovered list \<Rightarrow> ('w, ranked list) act" where
  "rank_providers file probe ps =
     abind (amap (rank_one file probe) ps) (\<lambda>found.
     abind (alift (rmap (\<lambda>r. rbind (rank_key r) (\<lambda>k. Inr (k, r))) (List.map_filter id found))) (\<lambda>keyed.
       aret (map snd (isort_by (\<lambda>x y. \<not> floats_less (fst y) (fst x)) keyed))))"

subsection \<open>Policy lemmas\<close>

lemma first_reason_permitted:
  "first_reason rs = Inr d \<Longrightarrow> permitted d \<Longrightarrow> list_all (\<lambda>r. r = Inr None) rs"
proof (induction rs)
  case (Cons q qs)
  from Cons.prems(1) obtain x where q: "q = Inr x"
    and rest: "(case x of Some reason \<Rightarrow> Inr \<lparr>permitted = False, why = reason\<rparr> | None \<Rightarrow> first_reason qs) = Inr d"
    by (auto simp: rbind_eq_Inr)
  have x: "x = None" using rest Cons.prems(2) by (cases x) auto
  then show ?case using Cons q rest by auto
qed simp

lemma reject_if_None [simp]: "reject_if r reason = Inr None \<longleftrightarrow> r = Inr False"
  by (auto simp: reject_if_def rbind_eq_Inr)

lemma and_then_False: "and_then b r = Inr False \<longleftrightarrow> (b \<longrightarrow> r = Inr False)"
  by (simp add: and_then_def)

lemma negated_False: "negated r = Inr False \<longleftrightarrow> r = Inr True"
  by (auto simp: negated_def rbind_eq_Inr)

lemma in_str_set_True: "in_str_set v names = Inr True \<longleftrightarrow> (\<exists>s\<in>set names. v = JStr s)"
  by (cases v) (auto simp: in_str_set_def)

lemma in_str_set_False: "in_str_set v names = Inr False \<Longrightarrow> \<forall>s\<in>set names. v \<noteq> JStr s"
  by (cases v) (auto simp: in_str_set_def)

text \<open>What a policy demands of a manifest.\<close>

definition price_within :: "pyfloat option \<Rightarrow> dict \<Rightarrow> string \<Rightarrow> bool" where
  "price_within cap pricing k \<longleftrightarrow> (\<forall>c. cap = Some c \<longrightarrow> (\<exists>p. policy_price pricing k = Inr p \<and> \<not> flt c p))"

definition privacy_met :: "policy \<Rightarrow> dict \<Rightarrow> bool" where
  "privacy_met pol m \<longleftrightarrow> (required_privacy_modes pol \<noteq> [] \<longrightarrow>
     (\<exists>modes. py_list (getn m ''privacy_modes'') = Inr modes \<and> (\<forall>q\<in>set (required_privacy_modes pol). JStr q \<in> set modes)))"

lemma over_cap_False: "over_cap cap pricing k = Inr False \<longleftrightarrow> price_within cap pricing k"
  by (auto simp: over_cap_def price_within_def rbind_eq_Inr split: option.split)

lemma privacy_met_iff: "and_then (required_privacy_modes pol \<noteq> []) (privacy_unmet pol m) = Inr False \<Longrightarrow> privacy_met pol m"
  by (auto simp: and_then_def privacy_unmet_def privacy_met_def py_set_def Let_def rbind_eq_Inr list_all_iff neq_Nil_conv
      split: if_splits)

lemma permits_checks:
  assumes "permits P pol m score = Inr d" "permitted d"
  shows "\<forall>s\<in>set (deny_providers pol). getn m ''provider_pubkey'' \<noteq> JStr s"
    and "allow_providers pol \<noteq> [] \<longrightarrow> (\<exists>s\<in>set (allow_providers pol). getn m ''provider_pubkey'' = JStr s)"
    and "require_attestation pol \<longrightarrow> is_attested P m (accepted_tees pol) None = Inr True"
    and "accepted_units pol \<noteq> [] \<longrightarrow> (\<exists>u\<in>set (accepted_units pol). getn (pricing_of m) ''unit'' = JStr u)"
    and "price_within (max_input_per_1m pol) (pricing_of m) ''input_per_1m''"
    and "price_within (max_output_per_1m pol) (pricing_of m) ''output_per_1m''"
    and "privacy_met pol m" and "\<not> reputation_low pol score"
proof -
  note ok = first_reason_permitted [OF assms(1) [unfolded permits_def Let_def] assms(2)]
  have checks:
    "and_then (deny_providers pol \<noteq> []) (in_str_set (getn m ''provider_pubkey'') (deny_providers pol)) = Inr False"
    "and_then (allow_providers pol \<noteq> []) (negated (in_str_set (getn m ''provider_pubkey'') (allow_providers pol))) = Inr False"
    "and_then (require_attestation pol) (negated (is_attested P m (accepted_tees pol) None)) = Inr False"
    "and_then (accepted_units pol \<noteq> []) (negated (in_str_set (getn (pricing_of m) ''unit'') (accepted_units pol))) = Inr False"
    "over_cap (max_input_per_1m pol) (pricing_of m) ''input_per_1m'' = Inr False"
    "over_cap (max_output_per_1m pol) (pricing_of m) ''output_per_1m'' = Inr False"
    "and_then (required_privacy_modes pol \<noteq> []) (privacy_unmet pol m) = Inr False"
    "(Inr (reputation_low pol score) :: bool res) = Inr False"
    using ok by (simp_all only: list.pred_inject reject_if_None)
  show "\<forall>s\<in>set (deny_providers pol). getn m ''provider_pubkey'' \<noteq> JStr s"
    using checks(1) in_str_set_False by (cases "deny_providers pol = []") (auto simp: and_then_False)
  show "allow_providers pol \<noteq> [] \<longrightarrow> (\<exists>s\<in>set (allow_providers pol). getn m ''provider_pubkey'' = JStr s)"
    "accepted_units pol \<noteq> [] \<longrightarrow> (\<exists>u\<in>set (accepted_units pol). getn (pricing_of m) ''unit'' = JStr u)"
    using checks(2,4) by (simp_all add: and_then_False negated_False in_str_set_True)
  show "require_attestation pol \<longrightarrow> is_attested P m (accepted_tees pol) None = Inr True"
    "price_within (max_input_per_1m pol) (pricing_of m) ''input_per_1m''"
    "price_within (max_output_per_1m pol) (pricing_of m) ''output_per_1m''" "\<not> reputation_low pol score"
    using checks(3,5,6,8) by (simp_all add: and_then_False negated_False over_cap_False)
  show "privacy_met pol m" using checks(7) by (rule privacy_met_iff)
qed

lemma filter_entries_eq:
  assumes "filter_entries P pol manifest_of get_score es = Inr kept"
  shows "kept = filter (\<lambda>e. \<exists>d. permits P pol (manifest_of e) (score_for get_score (manifest_of e)) = Inr d \<and> permitted d) es"
proof -
  let ?mark = "\<lambda>e. rbind (permits P pol (manifest_of e) (score_for get_score (manifest_of e))) (\<lambda>d. Inr (permitted d, e))"
  obtain marked where m: "rmap ?mark es = Inr marked" and k: "kept = map snd (filter fst marked)"
    using assms by (auto simp: filter_entries_def rbind_eq_Inr)
  from m show ?thesis unfolding k
    by (induction es arbitrary: marked) (auto simp: rbind_eq_Inr)
qed

subsection \<open>The score\<close>

lemma weights:
  "success_weight = Fin (6305039478318694 / 2 ^ 53)" "receipt_weight = Fin (5404319552844595 / 2 ^ 54)"
proof -
  have "\<lfloor>31525197391593472 / 5 :: rat\<rfloor> = 6305039478318694" "\<lfloor>27021597764222976 / 5 :: rat\<rfloor> = 5404319552844595"
    by (simp_all add: floor_eq_iff)
  then have "rne (7/10 * 2 ^ 53) = 6305039478318694" "rne (3/10 * 2 ^ 54) = 5404319552844595"
    by (simp_all add: rne_def Let_def)
  then show "success_weight = Fin (6305039478318694 / 2 ^ 53)" "receipt_weight = Fin (5404319552844595 / 2 ^ 54)"
    unfolding success_weight_def receipt_weight_def
    using to_float_in_binade [of "- 1" "7/10"] to_float_in_binade [of "- 2" "3/10"] by (simp_all add: pow2_def)
qed

text \<open>A quotient of counts is a float between zero and one.\<close>

definition unit_float :: "pyfloat \<Rightarrow> bool" where
  "unit_float f \<longleftrightarrow> (\<exists>x. f = Fin x \<and> 0 \<le> x \<and> x \<le> 1)"

lemma unit_half: "unit_float (Fin (1/2))"
  unfolding unit_float_def by (rule exI [of _ "1/2"]) simp

lemma to_float_unit: "0 \<le> x \<Longrightarrow> x \<le> 1 \<Longrightarrow> unit_float (to_float x)"
  using to_float_mono [of 0 x] to_float_mono [of x 1]
  by (cases "to_float x") (auto simp: unit_float_def to_float_1)

lemma int_div_unit:
  assumes "0 \<le> a" "a \<le> b" "0 < b"
  shows "int_div a b = Inr (to_float (of_int a / of_int b)) \<and> unit_float (to_float (of_int a / of_int b))"
proof -
  have "(of_int a :: rat) / of_int b \<le> 1" using assms by (simp add: divide_le_eq)
  moreover have "0 \<le> (of_int a :: rat) / of_int b" using assms by simp
  ultimately have "unit_float (to_float (of_int a / of_int b))" by (intro to_float_unit)
  then show ?thesis using assms(3) by (auto simp: int_div_def unit_float_def)
qed

lemma fmul_weight:
  assumes "unit_float f" "to_float w = Fin w" "0 \<le> w"
  obtains u where "fmul (Fin w) f = Fin u" "0 \<le> u" "u \<le> w"
proof -
  obtain x where x: "f = Fin x" "0 \<le> x" "x \<le> 1" using assms(1) by (auto simp: unit_float_def)
  have "w * x \<le> w" using x assms(3) mult_left_mono [of x 1 w] by simp
  then have "fle (to_float (w * x)) (to_float w)" by (rule to_float_mono)
  moreover have "fle (to_float 0) (to_float (w * x))" using x assms(3) by (intro to_float_mono) simp
  ultimately obtain u where "to_float (w * x) = Fin u" "0 \<le> u" "u \<le> w"
    using assms(2) by (cases "to_float (w * x)") auto
  then show ?thesis using that x(1) by simp
qed

lemma score_bounded:
  assumes "unit_float a" "unit_float b"
  shows "unit_float (fadd (fmul success_weight a) (fmul receipt_weight b))"
proof -
  have w: "to_float (6305039478318694 / 2 ^ 53) = Fin (6305039478318694 / 2 ^ 53)"
    "to_float (5404319552844595 / 2 ^ 54) = Fin (5404319552844595 / 2 ^ 54)"
    using to_float_in_binade [of "- 1" "6305039478318694 / 2 ^ 53"] to_float_in_binade [of "- 2" "5404319552844595 / 2 ^ 54"]
      rne_of_int [of 6305039478318694] rne_of_int [of 5404319552844595]
    by (simp_all add: pow2_def)
  obtain u where u: "fmul success_weight a = Fin u" "0 \<le> u" "u \<le> 6305039478318694 / 2 ^ 53"
    using fmul_weight [OF assms(1) w(1)] weights by auto
  obtain v where v: "fmul receipt_weight b = Fin v" "0 \<le> v" "v \<le> 5404319552844595 / 2 ^ 54"
    using fmul_weight [OF assms(2) w(2)] weights by auto
  have "u + v \<le> 1" using u(3) v(3) by simp
  then show ?thesis using u v by (simp add: to_float_unit)
qed

subsection \<open>Counting\<close>

record outcome =
  o_key :: string
  o_success :: bool
  o_latency :: "pyfloat option"
  o_receipt :: bool

definition record_outcome :: "outcome \<Rightarrow> json_file \<Rightarrow> json_file" where
  "record_outcome x file = snd (rep_record (o_key x) (o_success x) (o_latency x) (o_receipt x) file)"

definition history :: "outcome list \<Rightarrow> json_file" where
  "history xs = fold record_outcome xs None"

definition total_of :: "(outcome \<Rightarrow> bool) \<Rightarrow> outcome list \<Rightarrow> int" where
  "total_of Q xs = int (length (filter Q xs))"

lemma total_of_simps [simp]:
  "total_of Q [] = 0" "total_of Q (xs @ [x]) = total_of Q xs + (if Q x then 1 else 0)"
  by (simp_all add: total_of_def)

definition counts :: "outcome list \<Rightarrow> dict \<Rightarrow> bool" where
  "counts xs d \<longleftrightarrow> distinct (map fst d) \<and> dict_get d ''total'' = Some (JInt (total_of (\<lambda>_. True) xs)) \<and>
     dict_get d ''success'' = Some (JInt (total_of o_success xs)) \<and>
     dict_get d ''receipt_valid'' = Some (JInt (total_of o_receipt xs)) \<and>
     dict_get d ''latency_n'' = Some (JInt (total_of (\<lambda>x. o_latency x \<noteq> None) xs)) \<and>
     (\<exists>f. dict_get d ''latency_sum'' = Some (JFloat f))"

lemma counts_fresh: "counts [] fresh_counters"
  by (simp add: counts_def fresh_counters_def)

lemma bump_int: "dict_get d k = Some (JInt i) \<Longrightarrow> bump k (\<lambda>v. add_int v n) d = Inr (dict_set k (JInt (i + n)) d)"
  by (simp add: bump_def getitem_def)

lemma bump_float: "dict_get d k = Some (JFloat f) \<Longrightarrow> bump k (\<lambda>v. add_float v g) d = Inr (dict_set k (JFloat (fadd f g)) d)"
  by (simp add: bump_def getitem_def)

lemma count_outcome_counts:
  assumes "counts xs d"
  shows "\<exists>d'. count_outcome (o_success x) (o_latency x) (o_receipt x) d = Inr d' \<and> counts (xs @ [x]) d'"
proof -
  let ?t = "dict_set ''total'' (JInt (total_of (\<lambda>_. True) xs + 1)) d"
  let ?s = "if o_success x then dict_set ''success'' (JInt (total_of o_success xs + 1)) ?t else ?t"
  let ?r = "if o_receipt x then dict_set ''receipt_valid'' (JInt (total_of o_receipt xs + 1)) ?s else ?s"
  obtain f where f: "dict_get d ''latency_sum'' = Some (JFloat f)" using assms by (auto simp: counts_def)
  let ?l = "\<lambda>ms. dict_set ''latency_n'' (JInt (total_of (\<lambda>x. o_latency x \<noteq> None) xs + 1)) (dict_set ''latency_sum'' (JFloat (fadd f ms)) ?r)"
  have get: "dict_get d ''total'' = Some (JInt (total_of (\<lambda>_. True) xs))"
    "dict_get d ''success'' = Some (JInt (total_of o_success xs))"
    "dict_get d ''receipt_valid'' = Some (JInt (total_of o_receipt xs))"
    "dict_get d ''latency_n'' = Some (JInt (total_of (\<lambda>x. o_latency x \<noteq> None) xs))" "distinct (map fst d)"
    using assms by (simp_all add: counts_def)
  have "count_outcome (o_success x) (o_latency x) (o_receipt x) d = Inr (case o_latency x of None \<Rightarrow> ?r | Some ms \<Rightarrow> ?l ms)"
    using get f by (cases "o_latency x") (simp_all add: count_outcome_def bump_int bump_float dict_simps del: map_of_eq_Some_iff)
  moreover have "counts (xs @ [x]) (case o_latency x of None \<Rightarrow> ?r | Some ms \<Rightarrow> ?l ms)"
    using get f by (cases "o_latency x") (simp_all add: counts_def dict_simps distinct_update del: map_of_eq_Some_iff)
  ultimately show ?thesis by blast
qed

lemma counts_sorted: "counts xs d \<Longrightarrow> \<exists>d'. sort_keys (JObj d) = JObj d' \<and> counts xs d' \<and> d' \<noteq> []"
proof -
  assume c: "counts xs d"
  let ?srt = "map (\<lambda>(k, v). (k, sort_keys v)) d"
  have fsts: "map fst ?srt = map fst d" by (simp add: split_def)
  have dist: "distinct (map fst ?srt)" unfolding fsts using c by (simp add: counts_def)
  have get: "dict_get (isort_by key_le ?srt) k = map_option sort_keys (dict_get d k)" for k
    unfolding dict_get_sorted [OF dist] by (simp add: map_of_map)
  have "counts xs (isort_by key_le ?srt)"
    using c dist by (auto simp: counts_def get distinct_sorted simp del: map_of_eq_Some_iff)
  moreover from this have "isort_by key_le ?srt \<noteq> []" by (auto simp: counts_def)
  ultimately show ?thesis by simp
qed

text \<open>The file agrees with the recorded outcomes, key by key.\<close>

definition tallies :: "outcome list \<Rightarrow> json_file \<Rightarrow> bool" where
  "tallies xs file \<longleftrightarrow> distinct (map fst (load_raw file)) \<and>
     (\<forall>k. let own = filter (\<lambda>x. o_key x = k) xs in
       case dict_get (load_raw file) k of None \<Rightarrow> own = []
       | Some v \<Rightarrow> \<exists>d. v = JObj d \<and> d \<noteq> [] \<and> counts own d)"

lemma tallies_absent: "tallies xs file \<Longrightarrow> dict_get (load_raw file) k = None \<Longrightarrow> filter (\<lambda>x. o_key x = k) xs = []"
  by (auto simp: tallies_def dest: spec [of _ k])

lemma tallies_present:
  "tallies xs file \<Longrightarrow> dict_get (load_raw file) k = Some v \<Longrightarrow> \<exists>d. v = JObj d \<and> d \<noteq> [] \<and> counts (filter (\<lambda>x. o_key x = k) xs) d"
  by (auto simp: tallies_def dest: spec [of _ k])

lemma record_tallies:
  assumes "tallies xs file"
  shows "tallies (xs @ [x]) (record_outcome x file)"
proof -
  let ?k = "o_key x" and ?data = "load_raw file"
  let ?own = "\<lambda>k. filter (\<lambda>y. o_key y = k) xs"
  obtain d where d: "(case dict_get ?data ?k of None \<Rightarrow> JObj fresh_counters | Some v \<Rightarrow> v) = JObj d" and c: "counts (?own ?k) d"
    using tallies_absent [OF assms, of ?k] tallies_present [OF assms, of ?k] counts_fresh
    by (cases "dict_get ?data ?k") auto
  obtain d' where d': "count_outcome (o_success x) (o_latency x) (o_receipt x) d = Inr d'" and c': "counts (?own ?k @ [x]) d'"
    using count_outcome_counts [OF c] by blast
  have new: "record_outcome x file = write_raw (dict_set ?k (JObj d') ?data)"
    by (simp add: record_outcome_def rep_record_def Let_def d d')
  have dist: "distinct (map fst (dict_set ?k (JObj d') ?data))" using assms by (simp add: tallies_def distinct_update)
  have "case dict_get (load_raw (record_outcome x file)) k of None \<Rightarrow> filter (\<lambda>y. o_key y = k) (xs @ [x]) = []
      | Some v \<Rightarrow> \<exists>d. v = JObj d \<and> d \<noteq> [] \<and> counts (filter (\<lambda>y. o_key y = k) (xs @ [x])) d" for k
  proof (cases "k = ?k")
    case True
    then show ?thesis using counts_sorted [OF c'] unfolding new load_write [OF dist] by (auto simp: dict_simps)
  next
    case False
    then show ?thesis using tallies_absent [OF assms, of k] tallies_present [OF assms, of k] counts_sorted
      unfolding new load_write [OF dist] by (auto simp: dict_simps split: option.split)
  qed
  then show ?thesis using load_write(2) [OF dist] unfolding tallies_def Let_def new by blast
qed

lemma history_tallies: "tallies xs (history xs)"
proof (induction xs rule: rev_induct)
  case Nil
  show ?case by (simp add: history_def tallies_def load_raw_def)
next
  case (snoc x xs)
  then show ?case using record_tallies [of xs "history xs" x] by (simp add: history_def)
qed

lemma float_of_count: "0 \<le> n \<Longrightarrow> n < 2 ^ 53 \<Longrightarrow> float_of_int n = Inr (Fin (of_int n))"
  by (simp add: float_of_int_def to_float_of_int)

lemma fdiv_nonzero: "y \<noteq> 0 \<Longrightarrow> \<exists>q. fdiv a (Fin y) = Inr q"
  by (cases a) auto

lemma total_of_le: "total_of Q xs \<le> total_of (\<lambda>_. True) xs" "0 \<le> total_of Q xs"
  by (simp_all add: total_of_def)

text \<open>What the store reports about a key after some outcomes.\<close>

definition reports :: "outcome list \<Rightarrow> reputation \<Rightarrow> bool" where
  "reports own r \<longleftrightarrow> samples r = total_of (\<lambda>_. True) own \<and> unit_float (rep_score r) \<and>
     (own = [] \<longrightarrow> rep_score r = Fin (1/2)) \<and>
     (own \<noteq> [] \<longrightarrow>
        success_rate r = to_float (of_int (total_of o_success own) / of_int (total_of (\<lambda>_. True) own)) \<and>
        receipt_valid_rate r = to_float (of_int (total_of o_receipt own) / of_int (total_of (\<lambda>_. True) own)) \<and>
        rep_score r = fadd (fmul success_weight (success_rate r)) (fmul receipt_weight (receipt_valid_rate r)))"

lemma score_of_counts:
  assumes "counts own d" "own \<noteq> []" "total_of (\<lambda>_. True) own < 2 ^ 53"
  shows "\<exists>r. score_of_counters k d = Inr r \<and> reports own r"
proof -
  let ?n = "total_of (\<lambda>_. True) own" and ?l = "total_of (\<lambda>x. o_latency x \<noteq> None) own"
  have n: "0 < ?n" using assms(2) by (simp add: total_of_def)
  obtain f where get: "dict_get d ''total'' = Some (JInt ?n)" "dict_get d ''success'' = Some (JInt (total_of o_success own))"
    "dict_get d ''receipt_valid'' = Some (JInt (total_of o_receipt own))" "dict_get d ''latency_n'' = Some (JInt ?l)"
    "dict_get d ''latency_sum'' = Some (JFloat f)"
    using assms(1) by (auto simp: counts_def)
  have s: "int_div (total_of o_success own) ?n = Inr (to_float (of_int (total_of o_success own) / of_int ?n))"
    "unit_float (to_float (of_int (total_of o_success own) / of_int ?n))"
    using int_div_unit [OF total_of_le(2) total_of_le(1) n] by auto
  have r: "int_div (total_of o_receipt own) ?n = Inr (to_float (of_int (total_of o_receipt own) / of_int ?n))"
    "unit_float (to_float (of_int (total_of o_receipt own) / of_int ?n))"
    using int_div_unit [OF total_of_le(2) total_of_le(1) n] by auto
  have l: "float_of_int ?l = Inr (Fin (of_int ?l))"
    using total_of_le [of "\<lambda>x. o_latency x \<noteq> None" own] assms(3) by (intro float_of_count) auto
  obtain q where q: "?l \<noteq> 0 \<Longrightarrow> fdiv f (Fin (of_int ?l)) = Inr q" using fdiv_nonzero [of "of_int ?l" f] by fastforce
  have "score_of_counters k d = Inr \<lparr>rep_pubkey = k, samples = ?n,
      success_rate = to_float (of_int (total_of o_success own) / of_int ?n),
      receipt_valid_rate = to_float (of_int (total_of o_receipt own) / of_int ?n),
      avg_latency_ms = (if ?l = 0 then None else Some q),
      rep_score = fadd (fmul success_weight (to_float (of_int (total_of o_success own) / of_int ?n)))
        (fmul receipt_weight (to_float (of_int (total_of o_receipt own) / of_int ?n)))\<rparr>"
    using n s(1) r(1) l q get by (simp add: score_of_counters_def get_or_def getitem_def del: map_of_eq_Some_iff)
  then show ?thesis using score_bounded [OF s(2) r(2)] assms(2) by (simp add: reports_def)
qed

subsection \<open>Ranking\<close>

fun floats_le :: "pyfloat list \<Rightarrow> pyfloat list \<Rightarrow> bool" where
  "floats_le (x # xs) (y # ys) = (\<not> fle y x \<or> fle x y \<and> floats_le xs ys)"
| "floats_le [] ys = True"
| "floats_le xs [] = False"

definition key_order :: "pyfloat list \<Rightarrow> pyfloat list \<Rightarrow> bool" where
  "key_order xs ys \<longleftrightarrow> NaN \<in> set xs \<or> NaN \<notin> set ys \<and> floats_le xs ys"

lemma floats_le_total: "NaN \<notin> set xs \<Longrightarrow> NaN \<notin> set ys \<Longrightarrow> floats_le xs ys \<or> floats_le ys xs"
proof (induction xs ys rule: floats_le.induct)
  case (1 x xs y ys)
  then show ?case using fle_total [of x y] by auto
qed auto

lemma floats_le_trans:
  "NaN \<notin> set xs \<Longrightarrow> NaN \<notin> set ys \<Longrightarrow> NaN \<notin> set zs \<Longrightarrow> floats_le xs ys \<Longrightarrow> floats_le ys zs \<Longrightarrow> floats_le xs zs"
proof (induction xs ys arbitrary: zs rule: floats_le.induct)
  case (1 x xs y ys)
  obtain z zs' where zs: "zs = z # zs'" using "1.prems"(5) by (cases zs) auto
  have tr: "fle a c" if "fle a b" "fle b c" for a b c using fle_trans that by blast
  have tot: "fle x y \<or> fle y x" "fle y z \<or> fle z y" using fle_total [of x y] fle_total [of y z] "1.prems"(1-3) zs by auto
  have ih: "fle x y \<Longrightarrow> floats_le xs ys \<Longrightarrow> floats_le ys zs' \<Longrightarrow> floats_le xs zs'"
    using "1.IH" [of zs'] "1.prems"(1-3) zs by simp
  have prems: "\<not> fle y x \<or> fle x y \<and> floats_le xs ys" "\<not> fle z y \<or> fle y z \<and> floats_le ys zs'"
    using "1.prems"(4,5) zs by simp_all
  show ?case unfolding zs floats_le.simps using prems tot ih tr by metis
qed auto

interpretation by_key: total_preorder key_order
proof
  show "key_order x y \<or> key_order y x" for x y
    using floats_le_total by (auto simp: key_order_def)
  show "key_order x y \<Longrightarrow> key_order y z \<Longrightarrow> key_order x z" for x y z
    using floats_le_trans [of x y z] by (auto simp: key_order_def)
qed

interpretation by_first: total_preorder "\<lambda>x y. key_order (fst x) (fst y)"
  by (rule total_preorder_key [OF by_key.total_preorder_axioms])

lemma fneg_le: "fle (fneg a) (fneg b) = fle b a"
  by (cases a; cases b) auto

lemma floats_less_le: "length xs = length ys \<Longrightarrow> NaN \<notin> set xs \<Longrightarrow> NaN \<notin> set ys \<Longrightarrow> (\<not> floats_less ys xs) = floats_le xs ys"
proof (induction xs ys rule: floats_le.induct)
  case (1 x xs y ys)
  then show ?case using fle_total [of x y] by (auto simp: feq_def flt_def)
qed auto

lemma rank_key_shape: "rank_key r = Inr k \<Longrightarrow> \<exists>a b. k = [fneg (rk_score r), a, b]"
  by (auto simp: rank_key_def rbind_eq_Inr)

lemma amap_all:
  "amap f xs s = (Inr ys, t) \<Longrightarrow> list_all2 (\<lambda>x y. \<exists>u v. f x u = (Inr y, v)) xs ys"
  by (induction xs arbitrary: s ys) (auto simp: abind_eq_Inr)

text \<open>A ranked entry: a provider with the reputation on file and, where probed, a healthy answer.\<close>

definition well_ranked :: "json_file \<Rightarrow> (discovered \<Rightarrow> ('w, health) act) option \<Rightarrow> ranked \<Rightarrow> bool" where
  "well_ranked file probe r \<longleftrightarrow>
     (\<exists>key. d_pubkey (rk_provider r) = Inr key \<and> rep_score_of key file = Inr (rk_reputation r)) \<and>
     rk_score r = rep_score (rk_reputation r) \<and>
     (case probe of None \<Rightarrow> rk_health r = None
      | Some check \<Rightarrow> \<exists>h u v. rk_health r = Some h \<and> health_alive h \<and> check (rk_provider r) u = (Inr h, v))"

lemma rank_one_Some:
  assumes "rank_one file probe p u = (Inr (Some r), v)"
  shows "rk_provider r = p \<and> well_ranked file probe r"
proof (cases probe)
  case None
  then show ?thesis using assms by (auto simp: rank_one_def abind_eq_Inr well_ranked_def rbind_eq_Inr)
next
  case (Some check)
  then obtain key rep h u' where "d_pubkey p = Inr key" "rep_score_of key file = Inr rep" "check p u' = (Inr h, v)"
    "health_alive h" "r = \<lparr>rk_provider = p, rk_reputation = rep, rk_score = rep_score rep, rk_health = Some h\<rparr>"
    using assms by (auto simp: rank_one_def abind_eq_Inr rbind_eq_Inr split: if_splits)
  then show ?thesis using Some by (auto simp: well_ranked_def)
qed

lemma rank_one_None: "rank_one file None p u \<noteq> (Inr None, v)"
  by (auto simp: rank_one_def abind_eq_Inr)

lemma ranked_providers:
  assumes "list_all2 (\<lambda>p r. \<exists>u v. rank_one file probe p u = (Inr r, v)) ps found"
  shows "mset (map rk_provider (List.map_filter id found)) \<subseteq># mset ps \<and>
    (probe = None \<longrightarrow> map rk_provider (List.map_filter id found) = ps) \<and>
    (\<forall>r\<in>set (List.map_filter id found). well_ranked file probe r)"
  using assms
proof (induction rule: list_all2_induct)
  case (Cons p ps r found)
  then obtain u v where one: "rank_one file probe p u = (Inr r, v)" by blast
  show ?case
  proof (cases r)
    case None
    then have "probe \<noteq> None" using one rank_one_None by (metis (no_types))
    then show ?thesis using None Cons.IH by (auto simp: List.map_filter_simps intro: subset_mset.order_trans)
  next
    case (Some q)
    then have "rk_provider q = p \<and> well_ranked file probe q" using one by (intro rank_one_Some) simp
    then show ?thesis using Some Cons.IH by (simp add: List.map_filter_simps)
  qed
qed (simp add: List.map_filter_simps)

subsection \<open>Properties\<close>

text \<open>C21. Filtering by a policy keeps exactly the permitted entries, in order, and every kept provider satisfies each
  demand of the policy: not denied, allowed, attested by an accepted and never by the self-asserted
  \<^verbatim>\<open>none\<close> type unless it is listed, priced in an accepted unit and within both caps, with the privacy modes,
  and with the reputation asked for.\<close>

theorem policy_enforced:
  assumes "filter_entries P pol manifest_of get_score es = Inr kept" "e \<in> set kept"
  shows "kept = filter (\<lambda>e. \<exists>d. permits P pol (manifest_of e) (score_for get_score (manifest_of e)) = Inr d \<and> permitted d) es \<and>
    (\<forall>s\<in>set (deny_providers pol). getn (manifest_of e) ''provider_pubkey'' \<noteq> JStr s) \<and>
    (allow_providers pol \<noteq> [] \<longrightarrow> (\<exists>s\<in>set (allow_providers pol). getn (manifest_of e) ''provider_pubkey'' = JStr s)) \<and>
    (require_attestation pol \<longrightarrow> is_attested P (manifest_of e) (accepted_tees pol) None = Inr True \<and>
      (accepted_tee_types pol = [] \<longrightarrow> ''none'' \<notin> set (accepted_tees pol))) \<and>
    (accepted_units pol \<noteq> [] \<longrightarrow> (\<exists>u\<in>set (accepted_units pol). getn (pricing_of (manifest_of e)) ''unit'' = JStr u)) \<and>
    price_within (max_input_per_1m pol) (pricing_of (manifest_of e)) ''input_per_1m'' \<and>
    price_within (max_output_per_1m pol) (pricing_of (manifest_of e)) ''output_per_1m'' \<and>
    privacy_met pol (manifest_of e) \<and>
    (\<forall>low. min_reputation pol = Some low \<longrightarrow> (\<exists>s. score_for get_score (manifest_of e) = Some s \<and> \<not> flt s low))"
proof -
  note eq = filter_entries_eq [OF assms(1)]
  obtain d where "permits P pol (manifest_of e) (score_for get_score (manifest_of e)) = Inr d" "permitted d"
    using assms(2) unfolding eq by auto
  note checks = permits_checks [OF this]
  moreover have "\<forall>low. min_reputation pol = Some low \<longrightarrow> (\<exists>s. score_for get_score (manifest_of e) = Some s \<and> \<not> flt s low)"
    using checks(8) by (auto simp: reputation_low_def split: option.splits)
  ultimately show ?thesis using eq by (auto simp: accepted_tees_def)
qed

text \<open>A price left out, or one that does not convert.\<close>

definition price_silent :: "dict \<Rightarrow> string \<Rightarrow> bool" where
  "price_silent pricing k \<longleftrightarrow> dict_get pricing k = None \<or>
     py_float (get_or pricing k (JFloat (Fin 0))) \<in> {Inl TypeError, Inl ValueError, Inr NaN}"

text \<open>The caps fail open: a verified manifest may leave a price out, and then, or where the entry does not
  convert, any cap lets it pass as if it were free.\<close>

theorem caps_fail_open:
  assumes "price_silent (pricing_of m) ''input_per_1m''" "price_silent (pricing_of m) ''output_per_1m''"
    and "\<And>c. max_input_per_1m pol = Some c \<or> max_output_per_1m pol = Some c \<Longrightarrow> fle (Fin 0) c"
  shows "permits P pol m score = permits P (pol\<lparr>max_input_per_1m := None, max_output_per_1m := None\<rparr>) m score"
proof -
  have pass: "over_cap cap (pricing_of m) k = Inr False"
    if "price_silent (pricing_of m) k" "\<And>c. cap = Some c \<Longrightarrow> fle (Fin 0) c" for cap k
  proof (cases cap)
    case (Some c)
    have "\<not> flt c (Fin 0)" "\<not> flt c NaN" using that(2) [OF Some] by (auto simp: flt_def) (cases c; simp)
    moreover have "policy_price (pricing_of m) k = Inr (Fin 0) \<or> policy_price (pricing_of m) k = Inr NaN"
      using that(1) by (auto simp: price_silent_def policy_price_def get_or_def)
    ultimately show ?thesis using Some by (auto simp: over_cap_def)
  qed (simp add: over_cap_def)
  have "over_cap (max_input_per_1m pol) (pricing_of m) ''input_per_1m'' = over_cap None (pricing_of m) ''input_per_1m''"
    "over_cap (max_output_per_1m pol) (pricing_of m) ''output_per_1m'' = over_cap None (pricing_of m) ''output_per_1m''"
    using pass assms by (simp_all add: over_cap_def [of None])
  then show ?thesis
    by (simp add: permits_def Let_def accepted_tees_def privacy_unmet_def reputation_low_def)
qed

text \<open>C22. After any sequence of recorded outcomes (fewer than \<open>2\<^sup>5\<^sup>3\<close> of them) the store reports for every
  provider exactly its share: the number of its outcomes, its success and receipt rates correctly rounded, the neutral
  score where there are none, and a score between zero and one.\<close>

theorem reputation_tracks:
  assumes "int (length xs) < 2 ^ 53"
  shows "\<exists>r. rep_score_of k (history xs) = Inr r \<and> reports (filter (\<lambda>x. o_key x = k) xs) r"
proof -
  let ?own = "filter (\<lambda>x. o_key x = k) xs"
  have t: "tallies xs (history xs)" by (rule history_tallies)
  show ?thesis
  proof (cases "dict_get (load_raw (history xs)) k")
    case None
    then have "?own = []" by (rule tallies_absent [OF t])
    then show ?thesis using None
      by (simp add: rep_score_of_def getn_def score_of_counters_def get_or_def reports_def unit_half)
  next
    case (Some v)
    then obtain d where d: "v = JObj d" "d \<noteq> []" and c: "counts ?own d" using tallies_present [OF t] by blast
    have score: "rep_score_of k (history xs) = score_of_counters k d" using Some d by (simp add: rep_score_of_def getn_def)
    show ?thesis
    proof (cases "?own = []")
      case True
      then have "dict_get d ''total'' = Some (JInt 0)" using c by (simp add: counts_def total_of_def)
      then show ?thesis using True score
        by (simp add: score_of_counters_def get_or_def reports_def unit_half total_of_def)
    next
      case False
      have "total_of (\<lambda>_. True) ?own < 2 ^ 53" using assms by (simp add: total_of_def le_less_trans [OF length_filter_le])
      then show ?thesis using score_of_counts [OF c False] score by simp
    qed
  qed
qed

text \<open>Ranking lists each provider at most once, all of them when no probe is given and only those whose probe
  answered as the signed identity with a shared model otherwise, each with the reputation on file, best first by
  score, then latency, then advertised speed (as long as no key holds a NaN).\<close>

theorem rank_live_sorted:
  assumes "rank_providers file probe ps w = (Inr rs, w')"
    and "\<And>r k. r \<in> set rs \<Longrightarrow> rank_key r = Inr k \<Longrightarrow> NaN \<notin> set k"
  shows "mset (map rk_provider rs) \<subseteq># mset ps \<and> (probe = None \<longrightarrow> mset (map rk_provider rs) = mset ps) \<and>
    (\<forall>r\<in>set rs. well_ranked file probe r) \<and> sorted_wrt (\<lambda>q r. fle (rk_score r) (rk_score q)) rs"
proof -
  obtain found keyed w1 where am: "amap (rank_one file probe) ps w = (Inr found, w1)"
    and km: "rmap (\<lambda>r. rbind (rank_key r) (\<lambda>k. Inr (k, r))) (List.map_filter id found) = Inr keyed"
    and rs: "rs = map snd (isort_by (\<lambda>x y. \<not> floats_less (fst y) (fst x)) keyed)"
    using assms(1) by (auto simp: rank_providers_def abind_eq_Inr)
  note found = ranked_providers [OF amap_all [OF am]]
  note km' = scored_list [OF km]
  have good: "length (fst x) = 3" "NaN \<notin> set (fst x)" if "x \<in> set keyed" for x
  proof -
    have r: "snd x \<in> set rs" using that by (auto simp: rs)
    have k: "rank_key (snd x) = Inr (fst x)" using km' that by (auto split: prod.splits)
    show "NaN \<notin> set (fst x)" by (rule assms(2) [OF r k])
    show "length (fst x) = 3" using rank_key_shape [OF k] by auto
  qed
  let ?srt = "isort_by (\<lambda>x y. key_order (fst x) (fst y)) keyed"
  have "isort_by (\<lambda>x y. \<not> floats_less (fst y) (fst x)) keyed = ?srt"
    by (rule isort_by_cong) (use good floats_less_le in \<open>auto simp: key_order_def\<close>)
  then have rs': "rs = map snd ?srt" using rs by simp
  have "sorted_wrt (\<lambda>x y. fle (rk_score (snd y)) (rk_score (snd x))) ?srt"
  proof (rule sorted_wrt_mono_rel [OF _ by_first.sorted_isort])
    fix x y assume x: "x \<in> set ?srt" and y: "y \<in> set ?srt" and le: "key_order (fst x) (fst y)"
    obtain a b c d where k: "fst x = [fneg (rk_score (snd x)), a, b]" "fst y = [fneg (rk_score (snd y)), c, d]"
      using x y km' rank_key_shape by (metis (mono_tags, lifting) case_prod_beta set_isort_by)
    have "fle (fneg (rk_score (snd x))) (fneg (rk_score (snd y)))"
      using le k good(2) [of x] good(2) [of y] x y fle_total [of "fneg (rk_score (snd x))" "fneg (rk_score (snd y))"]
      by (auto simp: key_order_def)
    then show "fle (rk_score (snd y)) (rk_score (snd x))" by (simp add: fneg_le)
  qed
  then have "sorted_wrt (\<lambda>q r. fle (rk_score r) (rk_score q)) rs" by (simp add: rs' sorted_wrt_map)
  moreover have "mset rs = mset (List.map_filter id found)"
    using km' by (simp only: rs' mset_map mset_isort_by) (simp only: mset_map [symmetric])
  ultimately show ?thesis using found by (metis mset_map mset_eq_setD)
qed

subsection \<open>Inputs\<close>

definition demo_policy :: policy where
  "demo_policy = \<lparr>require_attestation = False, accepted_tee_types = [], accepted_units = [''usdc''],
     max_input_per_1m = Some (Fin 2), max_output_per_1m = Some (Fin 2), required_privacy_modes = [''direct''],
     allow_providers = [], deny_providers = [''evil''], min_reputation = Some (Fin (1/2))\<rparr>"

definition demo_offer :: "string \<Rightarrow> json \<Rightarrow> dict" where
  "demo_offer k price = [(''provider_pubkey'', JStr k), (''privacy_modes'', JArr [JStr ''direct'']),
     (''pricing'', JObj [(''unit'', JStr ''usdc''), (''input_per_1m'', price), (''output_per_1m'', JInt 1)])]"

lemma demo_filtered:
  "filter_entries demo demo_policy id (Some (\<lambda>_. Some (Fin 1)))
     [demo_offer ''evil'' (JInt 1), demo_offer ''dear'' (JInt 3), demo_offer ''good'' (JInt 2)] = Inr [demo_offer ''good'' (JInt 2)]"
proof -
  have f: "float_of_int 1 = Inr (Fin 1)" "float_of_int 2 = Inr (Fin 2)" "float_of_int 3 = Inr (Fin 3)"
    using float_of_count [of 1] float_of_count [of 2] float_of_count [of 3] by simp_all
  show ?thesis
    by (simp add: filter_entries_def permits_def Let_def demo_policy_def demo_offer_def getn_def get_or_def score_for_def reject_if_def
        and_then_def negated_def in_str_set_def pricing_of_def over_cap_def policy_price_def f privacy_unmet_def py_set_def reputation_low_def)
qed

lemma policy_enforced_witness:
  "price_within (Some (Fin 2)) [(''unit'', JStr ''usdc''), (''input_per_1m'', JInt 2), (''output_per_1m'', JInt 1)] ''input_per_1m''"
  using policy_enforced [OF demo_filtered, of "demo_offer ''good'' (JInt 2)"]
  by (simp add: demo_policy_def demo_offer_def pricing_of_def getn_def)

lemma caps_fail_open_witness:
  "permits demo (demo_policy\<lparr>max_input_per_1m := Some (Fin 0), max_output_per_1m := Some (Fin 0)\<rparr>) [(''pricing'', JObj [(''unit'', JStr ''usdc'')])] None =
   permits demo (demo_policy\<lparr>max_input_per_1m := None, max_output_per_1m := None\<rparr>) [(''pricing'', JObj [(''unit'', JStr ''usdc'')])] None"
  by (subst caps_fail_open)
    (auto simp: price_silent_def pricing_of_def getn_def)

lemma reputation_tracks_witness:
  "\<exists>r. rep_score_of ''p'' (history [\<lparr>o_key = ''p'', o_success = True, o_latency = None, o_receipt = False\<rparr>]) = Inr r \<and> samples r = 1"
  using reputation_tracks [of "[\<lparr>o_key = ''p'', o_success = True, o_latency = None, o_receipt = False\<rparr>]" "''p''"]
  by (auto simp: reports_def total_of_def)

definition demo_peer :: "string \<Rightarrow> discovered" where
  "demo_peer k = \<lparr>d_base_url = ''http://u'', d_manifest = [(''provider_pubkey'', JStr k)]\<rparr>"

lemma demo_ranked:
  "rank_providers None None [demo_peer ''a'', demo_peer ''b''] () =
     (Inr (map (\<lambda>k. \<lparr>rk_provider = demo_peer k, rk_reputation = \<lparr>rep_pubkey = k, samples = 0, success_rate = Fin 0,
        receipt_valid_rate = Fin 0, avg_latency_ms = None, rep_score = Fin (1/2)\<rparr>, rk_score = Fin (1/2), rk_health = None\<rparr>) [''a'', ''b'']), ())"
  by (simp add: rank_providers_def rank_one_def abind_def alift_def aret_def d_pubkey_def demo_peer_def getitem_def rep_score_of_def
      load_raw_def getn_def score_of_counters_def get_or_def List.map_filter_simps rank_key_def advertised_tps_def latency_for_def feq_def)

lemma rank_live_sorted_witness:
  "sorted_wrt (\<lambda>q r. fle (rk_score r) (rk_score q)) (map (\<lambda>k. \<lparr>rk_provider = demo_peer k, rk_reputation = \<lparr>rep_pubkey = k, samples = 0, success_rate = Fin 0,
        receipt_valid_rate = Fin 0, avg_latency_ms = None, rep_score = Fin (1/2)\<rparr>, rk_score = Fin (1/2), rk_health = None\<rparr>) [''a'', ''b''])"
proof -
  have "NaN \<notin> set k" if "rank_key \<lparr>rk_provider = demo_peer x, rk_reputation = \<lparr>rep_pubkey = x, samples = 0, success_rate = Fin 0,
        receipt_valid_rate = Fin 0, avg_latency_ms = None, rep_score = Fin (1/2)\<rparr>, rk_score = Fin (1/2), rk_health = None\<rparr> = Inr k" for x k
    using that by (auto simp: rank_key_def advertised_tps_def latency_for_def demo_peer_def getn_def)
  from rank_live_sorted [OF demo_ranked] this show ?thesis by fastforce
qed

end
