(* ===== verification/Router.thy ===== *)
theory Router
  imports Effects Redeem
begin

text \<open>
  \<^verbatim>\<open>packages/router\<close>: the provider registry, scoring and ranking, resolution of a model to candidates,
  and the client: health check, quote, completion, payment of a 402 challenge, checks of the receipt and
  the quote, and failover. The providers are the outside world; an attempt is an action on the world and
  the caller's wallet.
\<close>

record provider_entry =
  base_url :: string
  manifest :: dict

subsection \<open>scoring.py\<close>

text \<open>\<^verbatim>\<open>sum\<close> of floats: Neumaier's compensated summation, as the language has it since 3.12.\<close>

fun fabs :: "pyfloat \<Rightarrow> pyfloat" where
  "fabs (Fin x) = Fin \<bar>x\<bar>"
| "fabs NInf = PInf"
| "fabs f = f"

fun compensated :: "pyfloat list \<Rightarrow> pyfloat \<Rightarrow> pyfloat \<Rightarrow> pyfloat" where
  "compensated [] f c = (case c of Fin x \<Rightarrow> if x = 0 then f else fadd f c | _ \<Rightarrow> f)"
| "compensated (x # xs) f c =
     (let t = fadd f x;
          d = (if fle (fabs x) (fabs f) then fadd (fsub f t) x else fadd (fsub x t) f)
      in compensated xs t (fadd c d))"

definition py_sum :: "pyfloat list \<Rightarrow> pyfloat" where
  "py_sum xs = compensated xs (Fin 0) (Fin 0)"

text \<open>\<^verbatim>\<open>v or {}\<close> and \<^verbatim>\<open>v or []\<close>.\<close>

definition py_or :: "json \<Rightarrow> json \<Rightarrow> json" where
  "py_or v w = (if truthy v then v else w)"

definition default_weights :: "(string \<times> pyfloat) list" where
  "default_weights =
     [(''model_fit'', to_float (1/4)), (''expected_latency'', to_float (1/5)), (''price'', to_float (3/20)),
      (''receipt_trust'', to_float (3/20)), (''uptime'', to_float (1/10)), (''privacy_mode_match'', to_float (1/10))]"

definition model_fit_score :: "provider_entry \<Rightarrow> string option \<Rightarrow> pyfloat res" where
  "model_fit_score e model_id =
     (let models = py_or (getn (manifest e) ''models'') (JArr []) in
      case model_id of
        None \<Rightarrow> Inr (Fin (if truthy models then 1 else 0))
      | Some m \<Rightarrow> rbind (str_in m models) (\<lambda>b. Inr (Fin (if b then 1 else 0))))"

text \<open>\<^verbatim>\<open>float(v.get(k, d))\<close>\<close>

definition float_get :: "json \<Rightarrow> string \<Rightarrow> pyfloat \<Rightarrow> pyfloat res" where
  "float_get v k d = (case the_obj v of None \<Rightarrow> Inl AttributeError | Some o' \<Rightarrow> py_float (get_or o' k (JFloat d)))"

definition effective_ms :: "provider_entry \<Rightarrow> pyfloat option \<Rightarrow> pyfloat res" where
  "effective_ms e measured = (case measured of
     Some m \<Rightarrow> Inr (fmax m (Fin 0))
   | None \<Rightarrow>
       let benchmark = py_or (getn (manifest e) ''benchmark'') (JObj []) in
       rbind (float_get benchmark ''ttft_ms'' (Fin 2000)) (\<lambda>ttft.
       rbind (float_get benchmark ''tokens_per_second'' (Fin 0)) (\<lambda>tps.
       rbind (if flt (Fin 0) tps then fdiv (Fin 1000) tps else Inr (Fin 2000)) (\<lambda>per_token.
         Inr (fadd ttft per_token)))))"

text \<open>An anchor over the anchor plus a nonnegative amount.\<close>

definition anchored :: "rat \<Rightarrow> pyfloat \<Rightarrow> pyfloat res" where
  "anchored a v = fdiv (Fin a) (fadd (Fin a) (fmax v (Fin 0)))"

definition latency_score :: "provider_entry \<Rightarrow> pyfloat option \<Rightarrow> pyfloat res" where
  "latency_score e measured = rbind (effective_ms e measured) (anchored 2000)"

definition price_score :: "provider_entry \<Rightarrow> pyfloat res" where
  "price_score e =
     (let pricing = py_or (getn (manifest e) ''pricing'') (JObj []) in
      rbind (float_get pricing ''input_per_1m'' (Fin 0)) (\<lambda>i.
      rbind (float_get pricing ''output_per_1m'' (Fin 0)) (\<lambda>out.
      rbind (fdiv (fadd i out) (Fin 2)) (anchored 100))))"

definition privacy_score :: "provider_entry \<Rightarrow> string option \<Rightarrow> pyfloat res" where
  "privacy_score e privacy_mode = (case privacy_mode of
     None \<Rightarrow> Inr (Fin 1)
   | Some p \<Rightarrow> rbind (str_in p (py_or (getn (manifest e) ''privacy_modes'') (JArr [])))
       (\<lambda>b. Inr (Fin (if b then 1 else 0))))"

definition score_provider ::
  "pyfloat option \<Rightarrow> string option \<Rightarrow> string option \<Rightarrow> (string \<times> pyfloat) list option \<Rightarrow> provider_entry \<Rightarrow> pyfloat res" where
  "score_provider measured privacy_mode model_id weights e =
     (let active = (case weights of None \<Rightarrow> default_weights | Some w \<Rightarrow> w);
          weight = (\<lambda>k. case map_of active k of None \<Rightarrow> Fin 0 | Some w \<Rightarrow> w) in
      rbind (model_fit_score e model_id) (\<lambda>fit.
      rbind (latency_score e measured) (\<lambda>latency.
      rbind (price_score e) (\<lambda>price.
      rbind (privacy_score e privacy_mode) (\<lambda>privacy.
        let total = py_sum (map snd active) in
        if fle total (Fin 0) then Inr (Fin 0)
        else fdiv (py_sum [fmul (weight ''model_fit'') fit, fmul (weight ''expected_latency'') latency,
               fmul (weight ''price'') price, fmul (weight ''receipt_trust'') (Fin (1/2)),
               fmul (weight ''uptime'') (Fin (1/2)), fmul (weight ''privacy_mode_match'') privacy]) total)))))"

text \<open>
  \<^verbatim>\<open>sorted(\<dots>, reverse=True)\<close>: a higher score first, ties in the given order. A NaN score has no place in
  the order; the model leaves such an entry where insertion puts it.
\<close>

definition score_ge :: "pyfloat \<times> 'e \<Rightarrow> pyfloat \<times> 'e \<Rightarrow> bool" where
  "score_ge x y = (\<not> flt (fst x) (fst y))"

definition rank_candidates :: "('e \<Rightarrow> pyfloat res) \<Rightarrow> 'e list \<Rightarrow> 'e list res" where
  "rank_candidates score es =
     rbind (rmap (\<lambda>e. rbind (score e) (\<lambda>s. Inr (s, e))) es) (\<lambda>scored. Inr (map snd (isort_by score_ge scored)))"

subsection \<open>registry.py and resolver.py\<close>

type_synonym registry = "provider_entry list"

definition registry_add :: "provider_entry \<Rightarrow> registry \<Rightarrow> registry" where
  "registry_add e reg = reg @ [e]"

definition for_model :: "registry \<Rightarrow> string \<Rightarrow> provider_entry list res" where
  "for_model reg model_id =
     rbind (rmap (\<lambda>e. rbind (str_in model_id (get_or (manifest e) ''models'' (JArr []))) (\<lambda>b. Inr (b, e))) reg)
       (\<lambda>marked. Inr (map snd (filter fst marked)))"

definition registry_save :: "registry \<Rightarrow> json" where
  "registry_save reg = JArr (map (\<lambda>e. JObj [(''base_url'', JStr (base_url e)), (''manifest'', JObj (manifest e))]) reg)"

definition registry_item :: "json \<Rightarrow> provider_entry option" where
  "registry_item item = (case the_obj item of
     None \<Rightarrow> None
   | Some d \<Rightarrow> (case (the_str (getn d ''base_url''), the_obj (getn d ''manifest'')) of
       (Some u, Some m) \<Rightarrow> Some \<lparr>base_url = u, manifest = m\<rparr>
     | _ \<Rightarrow> None))"

text \<open>\<open>file\<close> is the parsed file, \<open>None\<close> where it is missing or does not parse.\<close>

definition registry_load :: "json option \<Rightarrow> registry" where
  "registry_load file = (case file of None \<Rightarrow> []
     | Some data \<Rightarrow> (case the_arr data of None \<Rightarrow> [] | Some items \<Rightarrow> List.map_filter registry_item items))"

definition resolve ::
  "platform \<Rightarrow> registry \<Rightarrow> string \<Rightarrow> string option \<Rightarrow> (string \<times> pyfloat) list option \<Rightarrow> bool \<Rightarrow> provider_entry list res" where
  "resolve P reg model_id privacy_mode weights verify_manifests =
     rbind (for_model reg model_id) (\<lambda>candidates.
     rbind (if verify_manifests
        then rbind (rmap (\<lambda>e. rbind (verify_provider_manifest P (manifest e)) (\<lambda>b. Inr (b, e))) candidates)
               (\<lambda>marked. Inr (map snd (filter fst marked)))
        else Inr candidates) (\<lambda>kept.
       rank_candidates (score_provider None privacy_mode (Some model_id) weights) kept))"

subsection \<open>client.py: the requests\<close>

record chat_options =
  c_token :: "string option"
  c_request_id :: string
  c_model :: string
  c_messages :: "json list"
  c_max_tokens :: int
  c_privacy_mode :: string
  verify_receipts :: bool
  get_quote :: bool
  max_providers :: "int option"
  c_weights :: "(string \<times> pyfloat) list option"
  x402_keypair :: "keypair option"

text \<open>The state an attempt works on: the outside world and the caller's wallet.\<close>

record 'w routing =
  world :: 'w
  purse :: "wallet option"

type_synonym ('w, 'a) attempt_act = "('w routing, 'a) act"

definition exchange :: "'w outside \<Rightarrow> string \<Rightarrow> http_call \<Rightarrow> ('w, http_reply) attempt_act" where
  "exchange E url call s = (case network E url call (world s) of (r, w) \<Rightarrow> (r, s\<lparr>world := w\<rparr>))"

definition now_of :: "'w outside \<Rightarrow> ('w, int) attempt_act" where
  "now_of E s = (Inr (clock E (world s)), s)"

definition health_ok :: "'w outside \<Rightarrow> string \<Rightarrow> ('w, bool) attempt_act" where
  "health_ok E url =
     abind (exchange E url \<lparr>verb = ''GET'', path = ''/sip/v1/health'', call_headers = [], call_json = None\<rparr>) (\<lambda>r.
       aret (reply_status r = 200 \<and> (case the_obj (safe_json r) of None \<Rightarrow> False
         | Some d \<Rightarrow> getn d ''status'' = JStr ''ok'')))"

definition fetch_quote :: "platform \<Rightarrow> 'w outside \<Rightarrow> chat_options \<Rightarrow> string \<Rightarrow> ('w, dict option) attempt_act" where
  "fetch_quote P E c url =
     abind (exchange E url \<lparr>verb = ''POST'', path = ''/sip/v1/quote'', call_headers = bearer (c_token c),
        call_json = Some (JObj [(''request_id'', JStr (c_request_id c)), (''model'', JStr (c_model c)),
          (''max_output_tokens'', JInt (c_max_tokens c)), (''privacy_mode'', JStr (c_privacy_mode c))])\<rparr>) (\<lambda>r.
       if reply_status r \<noteq> 200 then aret None
       else case the_obj (safe_json r) of
         None \<Rightarrow> aret None
       | Some q \<Rightarrow> alift (rbind (verify_quote P q) (\<lambda>v. Inr (if valid v then Some q else None))))"

definition completion_headers :: "chat_options \<Rightarrow> (string \<times> string) list" where
  "completion_headers c = [(''X-SIP-Request-Id'', c_request_id c), (''X-SIP-Privacy-Mode'', c_privacy_mode c)] @ bearer (c_token c)"

definition post_completion :: "'w outside \<Rightarrow> chat_options \<Rightarrow> string \<Rightarrow> dict option \<Rightarrow> ('w, http_reply) attempt_act" where
  "post_completion E c url payment =
     exchange E url \<lparr>verb = ''POST'', path = ''/v1/chat/completions'', call_headers = completion_headers c,
       call_json = Some (JObj ([(''model'', JStr (c_model c)), (''messages'', JArr (c_messages c)),
         (''max_tokens'', JInt (c_max_tokens c))] @
         (case payment of None \<Rightarrow> [] | Some p \<Rightarrow> [(''sip_payment'', JObj p)])))\<rparr>"

subsection \<open>client.py: attempts\<close>

datatype attempt =
    Served string json "dict option"
  | Failed string

definition label :: "attempt \<Rightarrow> string" where
  "label a = (case a of Served _ _ _ \<Rightarrow> ''ok'' | Failed l \<Rightarrow> l)"

text \<open>The payer's side of a challenge: the attempt it ends, or the payment and the vouchers reserved for it.\<close>

datatype plan =
    Unpayable string
  | Pay dict "voucher_object list option"

text \<open>
  \<^verbatim>\<open>build_x402_payment\<close> as the client calls it, with whatever the manifest has for a provider key: a value
  that is neither text nor absent is signed as it is.
\<close>

definition client_x402 ::
  "platform \<Rightarrow> keypair \<Rightarrow> string \<Rightarrow> string \<Rightarrow> int \<Rightarrow> string \<Rightarrow> json \<Rightarrow> string \<Rightarrow> dict res" where
  "client_x402 P kp amount unit now fresh provider request_id =
     (case provider of
        JNull \<Rightarrow> build_x402_payment P kp amount unit now fresh None None (Some request_id)
      | JStr p \<Rightarrow> build_x402_payment P kp amount unit now fresh None (Some p) (Some request_id)
      | v \<Rightarrow> rbind (sign_document P (dict_set ''provider_pubkey'' v
               (x402_inner P kp amount unit now fresh None None (Some request_id))) kp)
             (\<lambda>inner. Inr [(''scheme'', JStr ''x402''), (''payment'', JObj inner)]))"

definition reserve_vouchers :: "string \<Rightarrow> string \<Rightarrow> wallet \<Rightarrow> ('w, plan) attempt_act" where
  "reserve_vouchers price unit w s = (case wallet_select w (JStr price) unit of
     Inl InsufficientFunds \<Rightarrow> (Inr (Unpayable ''insufficient_funds''), s)
   | Inl e \<Rightarrow> (Inl e, s)
   | Inr (vouchers, w') \<Rightarrow>
       (Inr (Pay (build_pic_payment (map (JObj \<circ> snd) vouchers)) (Some vouchers)), s\<lparr>purse := Some w'\<rparr>))"

definition sign_x402 :: "platform \<Rightarrow> 'w outside \<Rightarrow> chat_options \<Rightarrow> provider_entry \<Rightarrow> keypair \<Rightarrow> string \<Rightarrow> string \<Rightarrow> ('w, plan) attempt_act" where
  "sign_x402 P E c e kp price unit s =
     (case random_text E (world s) of (fresh, w) \<Rightarrow>
        (rbind (client_x402 P kp price unit (clock E (world s)) fresh (getn (manifest e) ''provider_pubkey'') (c_request_id c))
           (\<lambda>payment. Inr (Pay payment None)), s\<lparr>world := w\<rparr>))"

definition prepare_payment :: "platform \<Rightarrow> 'w outside \<Rightarrow> chat_options \<Rightarrow> provider_entry \<Rightarrow> http_reply \<Rightarrow> ('w, plan) attempt_act" where
  "prepare_payment P E c e r s =
     (case Option.bind (the_obj (safe_json r)) (\<lambda>body. the_obj (getn body ''sip_payment_required'')) of
        None \<Rightarrow> (Inr (Unpayable ''payment_required''), s)
      | Some challenge \<Rightarrow>
          let price = py_str (getn challenge ''price_amount'');
              unit = py_str (getn challenge ''price_units'');
              accepted = (case the_arr (getn challenge ''accepted_schemes'') of None \<Rightarrow> [] | Some xs \<Rightarrow> xs) in
          case if JStr ''pic'' \<in> set accepted then purse s else None of
            Some w \<Rightarrow> reserve_vouchers price unit w s
          | None \<Rightarrow> (case if JStr ''x402'' \<in> set accepted then x402_keypair c else None of
              Some kp \<Rightarrow> sign_x402 P E c e kp price unit s
            | None \<Rightarrow> (Inr (Unpayable ''payment_required''), s)))"

text \<open>Returning reserved vouchers to the wallet.\<close>

definition return_vouchers :: "voucher_object list option \<Rightarrow> 'w routing \<Rightarrow> 'w routing" where
  "return_vouchers reserved s = (case (reserved, purse s) of
     (Some vs, Some w) \<Rightarrow> s\<lparr>purse := Some (wallet_add w vs)\<rparr>
   | _ \<Rightarrow> s)"

definition payment_failover :: "voucher_object list option \<Rightarrow> string \<Rightarrow> ('w, attempt) attempt_act" where
  "payment_failover reserved detail s = (case reserved of
     None \<Rightarrow> (Inr (Failed detail), s)
   | Some _ \<Rightarrow> (Inr (Failed ''payment_rejected''), return_vouchers reserved s))"

subsection \<open>client.py: what a served answer must show\<close>

definition extract_content :: "json \<Rightarrow> string option" where
  "extract_content body =
     Option.bind (the_obj body) (\<lambda>d. Option.bind (the_arr (getn d ''choices'')) (\<lambda>choices.
       case choices of [] \<Rightarrow> None
       | ch # _ \<Rightarrow> Option.bind (the_obj ch) (\<lambda>o'. Option.bind (the_obj (getn o' ''message'')) (\<lambda>m.
           the_str (getn m ''content'')))))"

definition receipt_trusted :: "platform \<Rightarrow> json \<Rightarrow> provider_entry \<Rightarrow> string \<Rightarrow> bool res" where
  "receipt_trusted P receipt e content = (case the_obj receipt of
     None \<Rightarrow> Inr False
   | Some d \<Rightarrow> rbind (verify_receipt P d) (\<lambda>v.
       if \<not> valid v then Inr False
       else if \<not> py_eq (getn d ''provider_pubkey'') (getn (manifest e) ''provider_pubkey'') then Inr False
       else Inr (getn d ''response_hash'' = JStr (hash_response_body P content))))"

text \<open>The \<^verbatim>\<open>try\<close> of \<^verbatim>\<open>_quote_honored\<close> covers the two conversions, not the comparison.\<close>

definition quote_honored :: "platform \<Rightarrow> dict \<Rightarrow> json \<Rightarrow> provider_entry \<Rightarrow> int \<Rightarrow> bool res" where
  "quote_honored P quote receipt e now =
     (if \<not> py_eq (getn quote ''provider_pubkey'') (getn (manifest e) ''provider_pubkey'') then Inr False
      else rbind (quote_is_expired P quote now) (\<lambda>expired.
        if expired then Inr False
        else case the_obj receipt of
          None \<Rightarrow> Inr False
        | Some d \<Rightarrow>
            if \<not> py_eq (getn d ''price_units'') (getn quote ''price_units'') then Inr False
            else (case (dec_of_str (py_str (getn d ''price_amount'')), dec_of_str (py_str (getn quote ''max_price''))) of
                (Inr charged, Inr committed) \<Rightarrow> dec_le charged committed
              | _ \<Rightarrow> Inr False)))"

subsection \<open>client.py: serving and failing over\<close>

text \<open>The checks of a completion reply, from the status to the quote.\<close>

definition judge ::
  "platform \<Rightarrow> 'w outside \<Rightarrow> chat_options \<Rightarrow> provider_entry \<Rightarrow> dict option \<Rightarrow> voucher_object list option \<Rightarrow> http_reply \<Rightarrow>
   ('w, attempt) attempt_act" where
  "judge P E c e quote reserved r =
     (if reply_status r \<noteq> 200 then payment_failover reserved (''http_'' @ str_of_int (reply_status r))
      else case extract_content (safe_json r) of
        None \<Rightarrow> payment_failover reserved ''malformed_response''
      | Some content \<Rightarrow>
          let receipt = (case the_obj (safe_json r) of None \<Rightarrow> JNull | Some d \<Rightarrow> getn d ''sip_receipt'') in
          abind (if verify_receipts c then alift (receipt_trusted P receipt e content) else aret True) (\<lambda>trusted.
          if \<not> trusted then payment_failover reserved ''receipt_unverified''
          else abind (case quote of None \<Rightarrow> aret True
                 | Some q \<Rightarrow> abind (now_of E) (\<lambda>now. alift (quote_honored P q receipt e now))) (\<lambda>honored.
          if \<not> honored then payment_failover reserved ''quote_violated''
          else aret (Served content (py_or receipt (JObj [])) quote))))"

text \<open>The paid retry: a transport fault returns the reserved vouchers, any other exception does not.\<close>

definition paid_retry ::
  "'w outside \<Rightarrow> chat_options \<Rightarrow> string \<Rightarrow> dict \<Rightarrow> voucher_object list option \<Rightarrow> ('w, http_reply) attempt_act" where
  "paid_retry E c url payment reserved s = (case post_completion E c url (Some payment) s of
     (Inl (TransportError n), s') \<Rightarrow> (Inl (TransportError n), return_vouchers reserved s')
   | (Inl e, s') \<Rightarrow> (Inl e, s')
   | (Inr r, s') \<Rightarrow> (Inr r, s'))"

definition complete ::
  "platform \<Rightarrow> 'w outside \<Rightarrow> chat_options \<Rightarrow> provider_entry \<Rightarrow> dict option \<Rightarrow> ('w, attempt) attempt_act" where
  "complete P E c e quote =
     abind (post_completion E c (base_url e) None) (\<lambda>r.
       if reply_status r \<noteq> 402 then judge P E c e quote None r
       else abind (prepare_payment P E c e r) (\<lambda>pl. case pl of
          Unpayable l \<Rightarrow> aret (Failed l)
        | Pay payment reserved \<Rightarrow>
            abind (paid_retry E c (base_url e) payment reserved) (judge P E c e quote reserved)))"

definition serve :: "platform \<Rightarrow> 'w outside \<Rightarrow> chat_options \<Rightarrow> provider_entry \<Rightarrow> ('w, attempt) attempt_act" where
  "serve P E c e =
     abind (health_ok E (base_url e)) (\<lambda>healthy.
       if \<not> healthy then aret (Failed ''unhealthy'')
       else abind (if get_quote c then abind (fetch_quote P E c (base_url e)) (\<lambda>q. aret (map_option Some q)) else aret (Some None))
         (\<lambda>quote. case quote of None \<Rightarrow> aret (Failed ''quote_invalid'') | Some q \<Rightarrow> complete P E c e q))"

definition try_candidate :: "platform \<Rightarrow> 'w outside \<Rightarrow> chat_options \<Rightarrow> provider_entry \<Rightarrow> ('w, attempt) attempt_act" where
  "try_candidate P E c e s = (case serve P E c e s of
     (Inl (TransportError n), s') \<Rightarrow> (Inr (Failed (''transport_error: '' @ n)), s')
   | other \<Rightarrow> other)"

record route_result =
  rr_content :: string
  rr_receipt :: json
  rr_provider_pubkey :: json
  rr_base_url :: string
  rr_quote :: "dict option"
  rr_attempts :: "(string \<times> string) list"

datatype route_error =
    NoProviderAvailable string "(string \<times> string) list"
  | Escaped exn

fun try_all ::
  "platform \<Rightarrow> 'w outside \<Rightarrow> chat_options \<Rightarrow> provider_entry list \<Rightarrow> (string \<times> string) list \<Rightarrow> 'w routing \<Rightarrow>
   (route_error + route_result) \<times> 'w routing" where
  "try_all P E c [] attempts s = (Inl (NoProviderAvailable (c_model c) attempts), s)"
| "try_all P E c (e # es) attempts s = (case try_candidate P E c e s of
     (Inl x, s') \<Rightarrow> (Inl (Escaped x), s')
   | (Inr (Failed l), s') \<Rightarrow> try_all P E c es (attempts @ [(base_url e, l)]) s'
   | (Inr (Served content receipt quote), s') \<Rightarrow>
       (case getitem (manifest e) ''provider_pubkey'' of
          Inl x \<Rightarrow> (Inl (Escaped x), s')
        | Inr pk \<Rightarrow> (Inr \<lparr>rr_content = content, rr_receipt = receipt, rr_provider_pubkey = pk, rr_base_url = base_url e,
            rr_quote = quote, rr_attempts = attempts @ [(base_url e, ''ok'')]\<rparr>, s')))"

text \<open>\<^verbatim>\<open>xs[:n]\<close>\<close>

definition py_take :: "int \<Rightarrow> 'a list \<Rightarrow> 'a list" where
  "py_take n xs = (if 0 \<le> n then take (nat n) xs else take (length xs - nat (- n)) xs)"

definition route_chat ::
  "platform \<Rightarrow> 'w outside \<Rightarrow> registry \<Rightarrow> chat_options \<Rightarrow> 'w routing \<Rightarrow> (route_error + route_result) \<times> 'w routing" where
  "route_chat P E reg c s =
     (case resolve P reg (c_model c) (Some (c_privacy_mode c)) (c_weights c) False of
        Inl x \<Rightarrow> (Inl (Escaped x), s)
      | Inr candidates \<Rightarrow>
          try_all P E c (case max_providers c of None \<Rightarrow> candidates | Some n \<Rightarrow> py_take n candidates) [] s)"

end
