(* ===== verification/Routing.thy ===== *)
theory Routing
  imports Router
begin

text \<open>
  What the router establishes: the order of candidates, what a routed answer proves, and what failing over
  does to the wallet.
\<close>

subsection \<open>Ranking\<close>

definition score_order :: "pyfloat \<times> 'e \<Rightarrow> pyfloat \<times> 'e \<Rightarrow> bool" where
  "score_order x y \<longleftrightarrow> fst y = NaN \<or> fst x \<noteq> NaN \<and> fle (fst y) (fst x)"

lemma not_flt: "a \<noteq> NaN \<Longrightarrow> b \<noteq> NaN \<Longrightarrow> \<not> flt a b \<longleftrightarrow> fle b a"
  by (cases a; cases b) (auto simp: flt_def)

lemma fle_antisym: "fle a b \<Longrightarrow> fle b a \<Longrightarrow> a = b"
  by (cases a; cases b) auto

interpretation score: total_preorder score_order
proof
  show "score_order x y \<or> score_order y x" for x y :: "pyfloat \<times> 'e"
    by (cases "fst x"; cases "fst y") (auto simp: score_order_def)
  show "score_order x y \<Longrightarrow> score_order y z \<Longrightarrow> score_order x z" for x y z :: "pyfloat \<times> 'e"
    by (auto simp: score_order_def intro: fle_trans)
qed

text \<open>Ranking is a stable sort: the ranked candidates are the given ones, no candidate comes before one with a
  higher score, and candidates of equal score keep their order (for scores that are numbers).\<close>

theorem rank_sorted_stable:
  assumes "rank_candidates score es = Inr rs" "\<forall>e\<in>set es. score e \<noteq> Inr NaN"
  shows "mset rs = mset es \<and>
    sorted_wrt (\<lambda>a b. \<exists>s t. score a = Inr s \<and> score b = Inr t \<and> fle t s) rs \<and>
    filter (\<lambda>x. score x = Inr s) rs = filter (\<lambda>x. score x = Inr s) es"
proof -
  obtain ps where ps: "rmap (\<lambda>e. rbind (score e) (\<lambda>s. Inr (s, e))) es = Inr ps" "rs = map snd (isort_by score_ge ps)"
    using assms(1) by (auto simp: rank_candidates_def rbind_eq_Inr)
  have es: "map snd ps = es" and sc: "\<And>s e. (s, e) \<in> set ps \<Longrightarrow> score e = Inr s"
    using scored_list [OF ps(1)] by auto
  have val: "x \<in> set ps \<Longrightarrow> score (snd x) = Inr (fst x)" for x by (rule sc) simp
  have "x \<in> set ps \<Longrightarrow> snd x \<in> set es" for x using es by force
  then have num: "x \<in> set ps \<Longrightarrow> fst x \<noteq> NaN" for x using assms(2) val by fastforce
  have "score_ge x y = score_order x y" if "x \<in> set ps" "y \<in> set ps" for x y
    using that num not_flt [of "fst x" "fst y"] by (simp add: score_ge_def score_order_def)
  then have "isort_by score_ge ps = isort_by score_order ps" by (rule isort_by_cong)
  then have srt: "rs = map snd (isort_by score_order ps)" by (simp only: ps(2))
  have "mset rs = mset (map snd ps)" by (simp add: srt)
  then have "mset rs = mset es" by (simp only: es)
  moreover have "sorted_wrt (\<lambda>a b. \<exists>s t. score a = Inr s \<and> score b = Inr t \<and> fle t s) rs"
  proof -
    have "\<exists>s t. score (snd x) = Inr s \<and> score (snd y) = Inr t \<and> fle t s"
      if "x \<in> set (isort_by score_order ps)" "y \<in> set (isort_by score_order ps)" "score_order x y" for x y
    proof -
      have "fle (fst y) (fst x)" using that num by (simp add: score_order_def)
      with val [of x] val [of y] that show ?thesis by auto
    qed
    from sorted_wrt_mono_rel [OF this score.sorted_isort] show ?thesis unfolding srt sorted_wrt_map .
  qed
  moreover have "filter (\<lambda>x. score x = Inr s) rs = filter (\<lambda>x. score x = Inr s) es"
  proof (cases "s = NaN")
    case True
    then have "\<forall>x\<in>set es. score x \<noteq> Inr s" using assms(2) by simp
    moreover have "set rs = set es" using \<open>mset rs = mset es\<close> by (rule mset_eq_setD)
    ultimately show ?thesis by (simp add: filter_empty_conv)
  next
    case False
    have eq: "score_order y (s, undefined) \<and> score_order (s, undefined) y \<longleftrightarrow> score (snd y) = Inr s" if "y \<in> set ps" for y
      using val [OF that] num [OF that] False fle_antisym [of "fst y" s] by (auto simp: score_order_def fle_refl)
    have "filter (\<lambda>y. score (snd y) = Inr s) (isort_by score_order ps) = filter (\<lambda>y. score (snd y) = Inr s) ps"
    proof -
      have "filter (\<lambda>y. score (snd y) = Inr s) xs = filter (\<lambda>y. score_order y (s, undefined) \<and> score_order (s, undefined) y) xs"
        if "set xs = set ps" for xs using eq that by (intro filter_cong) simp_all
      then show ?thesis using score.isort_stable [of "(s, undefined)" ps] by simp
    qed
    then have "filter (\<lambda>x. score x = Inr s) rs = filter (\<lambda>x. score x = Inr s) (map snd ps)"
      by (simp add: srt filter_map o_def)
    then show ?thesis by (simp only: es)
  qed
  ultimately show ?thesis by blast
qed

subsection \<open>Attempts keep the wallet\<close>

lemma wallet_select_moves:
  assumes "wallet_select w amount unit = Inr (picked, w')" "distinct (map fst (held w))"
  shows "mset (held w) = mset picked + mset (held w')"
proof -
  obtain target where "greedy_prefix target unit (held w) picked"
    and w': "held w' = filter (\<lambda>v. fst v \<notin> fst ` set picked) (held w)"
    using wallet_select_cases [OF assms(1)] .
  moreover have "distinct (held w)" using assms(2) by (simp add: distinct_map)
  ultimately have "set picked \<subseteq> set (held w) \<and> distinct picked" using greedy_prefix_subset by blast
  then show ?thesis unfolding w' by (intro select_partition assms) auto
qed

interpretation same_purse: state_preorder "\<lambda>s t. purse t = purse s"
  by unfold_locales simp_all

lemma exchange_purse: "keeps (\<lambda>s t. purse t = purse s) (exchange E url call)"
  by (simp add: keeps_def exchange_def split: prod.split)

lemma now_of_eq [simp]: "now_of E s = (r, s') \<longleftrightarrow> r = Inr (clock E (world s)) \<and> s' = s"
  by (auto simp: now_of_def)

lemmas purse_rules = same_purse.keeps_abind same_purse.keeps_aret same_purse.keeps_alift exchange_purse

lemma health_ok_purse: "keeps (\<lambda>s t. purse t = purse s) (health_ok E url)"
  unfolding health_ok_def by (intro purse_rules)

lemma fetch_quote_purse: "keeps (\<lambda>s t. purse t = purse s) (fetch_quote P E c url)"
  unfolding fetch_quote_def
  by (intro purse_rules) (auto simp: purse_rules split: option.split)

lemma post_completion_purse: "keeps (\<lambda>s t. purse t = purse s) (post_completion E c url p)"
  unfolding post_completion_def by (rule exchange_purse)

lemma keepsD: "keeps R f \<Longrightarrow> f s = (r, t) \<Longrightarrow> R s t"
  by (metis keeps_def snd_conv)

text \<open>What the caller holds, as a multiset; a wallet's vouchers are distinct objects.\<close>

definition holds :: "'w routing \<Rightarrow> voucher_object multiset option" where
  "holds s = map_option (\<lambda>w. mset (held w)) (purse s)"

definition distinct_objects :: "'w routing \<Rightarrow> bool" where
  "distinct_objects s \<longleftrightarrow> (case purse s of None \<Rightarrow> True | Some w \<Rightarrow> distinct (map fst (held w)))"

lemma holds_distinct: "holds s = holds t \<Longrightarrow> distinct_objects s \<longleftrightarrow> distinct_objects t"
proof -
  assume h: "holds s = holds t"
  have d: "distinct (map fst xs) \<longleftrightarrow> distinct (map fst ys)" if "mset xs = mset ys" for xs ys :: "voucher_object list"
    by (rule mset_eq_imp_distinct_iff) (simp only: mset_map that)
  show ?thesis
  proof (cases "purse s")
    case None
    with h show ?thesis by (cases "purse t") (simp_all add: holds_def distinct_objects_def)
  next
    case (Some w)
    with h obtain u where u: "purse t = Some u" "mset (held w) = mset (held u)" by (cases "purse t") (simp_all add: holds_def)
    from d [OF u(2)] u(1) Some show ?thesis by (simp add: distinct_objects_def)
  qed
qed

lemma purse_holds: "purse t = purse s \<Longrightarrow> holds t = holds s"
  by (simp add: holds_def)

text \<open>The vouchers in the payment of a call.\<close>

definition sent_vouchers :: "dict option \<Rightarrow> json list" where
  "sent_vouchers payment = (case payment of None \<Rightarrow> [] | Some p \<Rightarrow>
     (case the_arr (getn p ''vouchers'') of None \<Rightarrow> [] | Some vs \<Rightarrow> vs))"

lemma sent_pic [simp]: "sent_vouchers None = []" "sent_vouchers (Some (build_pic_payment vs)) = vs"
  by (simp_all add: sent_vouchers_def build_pic_payment_def getn_def)

lemma sent_x402: "client_x402 P kp a u now fresh v rid = Inr payment \<Longrightarrow> sent_vouchers (Some payment) = []"
  by (auto simp: client_x402_def build_x402_payment_def rbind_eq_Inr sent_vouchers_def getn_def split: json.splits)

text \<open>A reservation: the wallet before is the reserved vouchers and the wallet after.\<close>

definition reserved_from :: "'w routing \<Rightarrow> voucher_object list option \<Rightarrow> 'w routing \<Rightarrow> bool" where
  "reserved_from s reserved t \<longleftrightarrow> (case reserved of
     None \<Rightarrow> holds t = holds s
   | Some vs \<Rightarrow> holds s = map_option (\<lambda>m. mset vs + m) (holds t) \<and> purse s \<noteq> None)"

definition vouchers_of :: "voucher_object list option \<Rightarrow> json list" where
  "vouchers_of reserved = (case reserved of None \<Rightarrow> [] | Some vs \<Rightarrow> map (JObj \<circ> snd) vs)"

lemma vouchers_of_None [simp]: "vouchers_of None = []"
  by (simp add: vouchers_of_def)

lemma return_reserved: "reserved_from s reserved t \<Longrightarrow> holds (return_vouchers reserved t) = holds s"
  by (cases reserved; cases "purse t")
    (auto simp: reserved_from_def return_vouchers_def holds_def wallet_add_def union_commute)

lemma prepare_payment_cases:
  assumes "prepare_payment P E c e r s = (Inr pl, s')"
  obtains (unpayable) l where "pl = Unpayable l" "purse s' = purse s"
  | (signed) payment where "pl = Pay payment None" "purse s' = purse s" "sent_vouchers (Some payment) = []"
  | (vouchers) price unit w vs w' where "pl = Pay (build_pic_payment (map (JObj \<circ> snd) vs)) (Some vs)"
      "purse s = Some w" "wallet_select w (JStr price) unit = Inr (vs, w')" "purse s' = Some w'"
proof -
  have signed': "sign_x402 P E c e kp price unit s = (Inr pl, s') \<Longrightarrow> thesis" for kp price unit
    by (auto simp: sign_x402_def rbind_eq_Inr split: prod.splits intro: signed sent_x402)
  have reserve': "purse s = Some w \<Longrightarrow> reserve_vouchers price unit w s = (Inr pl, s') \<Longrightarrow> thesis" for w price unit
    by (auto simp: reserve_vouchers_def split: sum.splits exn.splits prod.splits intro: vouchers unpayable)
  show thesis
    using assms by (auto simp: prepare_payment_def Let_def split: option.splits if_splits intro: unpayable signed' reserve')
qed

lemma prepare_payment_reserves:
  assumes "prepare_payment P E c e r s = (Inr (Pay payment reserved), s')" "distinct_objects s"
  shows "reserved_from s reserved s' \<and> sent_vouchers (Some payment) = vouchers_of reserved"
  using assms(1)
proof (cases rule: prepare_payment_cases)
  case (vouchers price unit w vs w')
  have "distinct (map fst (held w))" using assms(2) vouchers(2) by (simp add: distinct_objects_def)
  from wallet_select_moves [OF vouchers(3) this] vouchers show ?thesis
    by (auto simp: reserved_from_def holds_def vouchers_of_def)
qed (auto simp: reserved_from_def holds_def vouchers_of_def)

lemma judge_state:
  assumes "judge P E c e quote reserved r s = (Inr a, s')"
  shows "case a of Failed _ \<Rightarrow> s' = return_vouchers reserved s
    | Served content _ _ \<Rightarrow> s' = s \<and> reply_status r = 200 \<and> extract_content (safe_json r) = Some content"
proof -
  have fail: "payment_failover reserved d t = (Inr a, s') \<Longrightarrow> (\<exists>l. a = Failed l) \<and> s' = return_vouchers reserved t" for d t
    by (cases reserved) (auto simp: payment_failover_def return_vouchers_def)
  show ?thesis
  proof (cases "reply_status r \<noteq> 200 \<or> extract_content (safe_json r) = None")
    case True
    then have "\<exists>d. payment_failover reserved d s = (Inr a, s')" using assms by (auto simp: judge_def split: if_splits)
    then show ?thesis using fail by fastforce
  next
    case False
    then obtain content where c: "extract_content (safe_json r) = Some content" "reply_status r = 200" by auto
    let ?t = "if verify_receipts c then alift (receipt_trusted P
        (case the_obj (safe_json r) of None \<Rightarrow> JNull | Some d \<Rightarrow> getn d ''sip_receipt'') e content) else aret True"
    have keep1: "?t s = (x, u) \<Longrightarrow> u = s" for x u by (auto split: if_splits)
    let ?h = "case quote of None \<Rightarrow> aret True | Some q \<Rightarrow> abind (now_of E) (\<lambda>now. alift (quote_honored P q
        (case the_obj (safe_json r) of None \<Rightarrow> JNull | Some d \<Rightarrow> getn d ''sip_receipt'') e now))"
    have keep2: "?h s = (Inr x, u) \<Longrightarrow> u = s" for x u by (cases quote) (auto simp: abind_eq_Inr)
    obtain trusted u where u: "?t s = (Inr trusted, u)" "(if \<not> trusted then payment_failover reserved ''receipt_unverified''
        else abind ?h (\<lambda>honored. if \<not> honored then payment_failover reserved ''quote_violated''
          else aret (Served content (py_or (case the_obj (safe_json r) of None \<Rightarrow> JNull | Some d \<Rightarrow> getn d ''sip_receipt'') (JObj [])) quote))) u = (Inr a, s')"
      using assms c by (auto simp: judge_def Let_def abind_eq_Inr)
    have us: "u = s" using keep1 u(1) by blast
    show ?thesis
    proof (cases trusted)
      case False
      with u(2) us fail show ?thesis by fastforce
    next
      case True
      then obtain honored v where v: "?h s = (Inr honored, v)" "(if \<not> honored then payment_failover reserved ''quote_violated''
          else aret (Served content (py_or (case the_obj (safe_json r) of None \<Rightarrow> JNull | Some d \<Rightarrow> getn d ''sip_receipt'') (JObj [])) quote)) v = (Inr a, s')"
        using u(2) us by (auto simp: abind_eq_Inr)
      have "v = s" using keep2 v(1) by blast
      with v(2) c fail show ?thesis by (cases honored) fastforce+
    qed
  qed
qed

subsection \<open>No step but a call raises a transport error\<close>

lemma rmap_Inl: "rmap f xs = Inl e \<Longrightarrow> \<exists>x\<in>set xs. f x = Inl e"
  by (induction xs) (auto simp: rbind_eq_Inl)

lemma json_text_raises: "json_text v = Inl e \<Longrightarrow> e = ValueError"
proof (induction v arbitrary: e rule: json_ok.induct)
  case (1 f)
  then show ?case by (cases f) auto
next
  case (2 xs)
  then show ?case by (auto simp: rbind_eq_Inl dest!: rmap_Inl)
next
  case (3 d)
  from 3(2) obtain k v where "(k, v) \<in> set d" "json_text v = Inl e"
    by (auto simp: rbind_eq_Inl dest!: rmap_Inl)
  with 3(1) show ?case by blast
qed simp_all

definition quiet :: "'a res \<Rightarrow> bool" where
  "quiet r \<longleftrightarrow> (\<forall>n. r \<noteq> Inl (TransportError n))"

lemma quiet_Inr [simp]: "quiet (Inr x)"
  by (simp add: quiet_def)

lemma quiet_Inl [simp]: "quiet (Inl e) \<longleftrightarrow> (\<forall>n. e \<noteq> TransportError n)"
  by (simp add: quiet_def)

lemma quiet_rbind: "quiet r \<Longrightarrow> (\<And>x. quiet (f x)) \<Longrightarrow> quiet (rbind r f)"
  by (cases r) (simp_all add: quiet_def)

definition quiet_reader :: "platform \<Rightarrow> bool" where
  "quiet_reader P \<longleftrightarrow> (\<forall>s. quiet (fromisoformat P s))"

lemma quiet_signing_bytes: "quiet (signing_bytes f d)"
proof -
  have "quiet (json_text v)" for v using json_text_raises [of v] by (cases "json_text v") (auto simp: quiet_def)
  then show ?thesis unfolding signing_bytes_def canonical_json_def by (rule quiet_rbind) (rule quiet_Inr)
qed

lemma quiet_sign_document: "quiet (sign_document P d kp)"
  unfolding sign_document_def Let_def by (intro quiet_rbind quiet_signing_bytes) simp

lemma quiet_verify_document: "quiet (verify_document P pk d)"
  unfolding verify_document_def by (auto intro!: quiet_rbind quiet_signing_bytes split: json.splits)

lemma quiet_verify_receipt: "quiet (verify_receipt P d)"
  unfolding verify_receipt_def verify_signed_def iter_errors_kinds
  by (intro quiet_rbind quiet_verify_document) simp_all

lemma quiet_verify_quote: "quiet (verify_quote P d)"
  unfolding verify_quote_def verify_signed_def iter_errors_kinds
  by (intro quiet_rbind quiet_verify_document) simp_all

lemma quiet_expires: "quiet_reader P \<Longrightarrow> quiet (expires_passed P d now)"
proof -
  assume q: "quiet_reader P"
  have u: "quiet (as_utc P m)" for m by (auto simp: as_utc_def quiet_def Let_def split: prod.split)
  show ?thesis
  proof (cases "the_str (getn d ''expires_at'')")
    case (Some raw)
    have f: "quiet (fromisoformat P (zone_suffix raw))" using q by (simp add: quiet_reader_def)
    show ?thesis
    proof (cases "fromisoformat P (zone_suffix raw)")
      case (Inl e)
      with f Some show ?thesis by (auto simp: expires_passed_def quiet_def split: exn.splits)
    next
      case (Inr m)
      with Some show ?thesis by (auto simp: expires_passed_def intro!: quiet_rbind u)
    qed
  qed (simp add: expires_passed_def)
qed

lemma quiet_receipt_trusted: "quiet (receipt_trusted P r e content)"
  unfolding receipt_trusted_def
  by (auto intro!: quiet_rbind quiet_verify_receipt split: option.splits)

lemma quiet_quote_honored: "quiet_reader P \<Longrightarrow> quiet (quote_honored P q r e now)"
  unfolding quote_honored_def quote_is_expired_def
  by (auto intro!: quiet_rbind quiet_expires simp: dec_le_def split: option.splits sum.splits)

lemma quiet_client_x402: "quiet (client_x402 P kp a u now fresh v rid)"
  unfolding client_x402_def build_x402_payment_def
  by (auto intro!: quiet_rbind quiet_sign_document split: json.splits)

lemma quiet_select: "quiet (wallet_select w (JStr price) unit)"
proof -
  have d: "quiet (dec_of_str s)" for s by (auto simp: dec_of_str_def quiet_def Let_def split: prod.splits option.splits if_splits)
  have p: "quiet (py_decimal v)" for v by (cases v rule: py_decimal.cases) (use d in \<open>auto simp: quiet_def\<close>)
  have a: "quiet (dec_add x y)" for x y by (cases "(x, y)" rule: dec_add.cases) (auto simp: quiet_def Let_def)
  have f: "quiet (add_field k v acc)" for k v acc
    unfolding add_field_def getitem_def by (auto intro!: quiet_rbind p a split: option.splits)
  have fold: "(\<And>x acc. quiet (g x acc)) \<Longrightarrow> quiet (rfold g xs acc)" for g :: "'x \<Rightarrow> 'y \<Rightarrow> 'y res" and xs acc
    by (induction xs arbitrary: acc) (auto intro: quiet_rbind)
  have b: "quiet (wallet_balance w u)" for u
    unfolding wallet_balance_def by (rule fold) (use f in \<open>auto split: prod.split\<close>)
  have pick: "quiet (pick_vouchers t u vs picked acc)" for t u vs picked acc
    by (induction t u vs picked acc rule: pick_vouchers.induct)
      (auto intro!: quiet_rbind f simp: dec_le_def)
  show ?thesis unfolding wallet_select_def
    by (intro quiet_rbind p b) (auto intro!: quiet_rbind pick simp: dec_lt_def Let_def)
qed

subsection \<open>What an attempt does to the wallet\<close>

definition answered_call :: "'w outside \<Rightarrow> chat_options \<Rightarrow> string \<Rightarrow> string \<Rightarrow> json list \<Rightarrow> 'w routing \<Rightarrow> bool" where
  "answered_call E c url content vouchers t \<longleftrightarrow> (\<exists>payment u reply. post_completion E c url payment u = (Inr reply, t) \<and>
     reply_status reply = 200 \<and> extract_content (safe_json reply) = Some content \<and> sent_vouchers payment = vouchers)"

definition attempt_effect :: "'w outside \<Rightarrow> chat_options \<Rightarrow> provider_entry \<Rightarrow> 'w routing \<Rightarrow> attempt \<Rightarrow> 'w routing \<Rightarrow> bool" where
  "attempt_effect E c e s a t \<longleftrightarrow> (case a of
     Failed _ \<Rightarrow> holds t = holds s
   | Served content _ _ \<Rightarrow> \<exists>reserved. reserved_from s reserved t \<and> answered_call E c (base_url e) content (vouchers_of reserved) t)"

lemma holds_reserved: "holds s1 = holds s \<Longrightarrow> reserved_from s1 r t = reserved_from s r t"
proof -
  assume h: "holds s1 = holds s"
  then have "purse s1 = None \<longleftrightarrow> purse s = None" by (cases "purse s1"; cases "purse s") (simp_all add: holds_def)
  with h show ?thesis by (cases r) (simp_all add: reserved_from_def)
qed

lemma judge_effect:
  assumes "judge P E c e quote reserved r t = (Inr a, t')" "reserved_from s reserved t"
    and "post_completion E c (base_url e) payment u = (Inr r, t)" "sent_vouchers payment = vouchers_of reserved"
  shows "attempt_effect E c e s a t'"
  using judge_state [OF assms(1)] assms(2-4) return_reserved [OF assms(2)]
  by (cases a) (auto simp: attempt_effect_def answered_call_def)

lemma paid_retry_call: "paid_retry E c url payment reserved s = (Inr r, t) \<Longrightarrow> post_completion E c url (Some payment) s = (Inr r, t)"
  by (auto simp: paid_retry_def split: prod.splits sum.splits exn.splits)

lemma reserved_from_purse: "reserved_from s reserved t \<Longrightarrow> purse t' = purse t \<Longrightarrow> reserved_from s reserved t'"
  by (auto simp: reserved_from_def holds_def split: option.splits)

lemma reserved_none: "purse t = purse s \<Longrightarrow> reserved_from s None t"
  by (simp add: reserved_from_def holds_def)

lemma reserved_before: "purse s' = purse s \<Longrightarrow> reserved_from s' reserved t \<Longrightarrow> reserved_from s reserved t"
  by (auto simp: reserved_from_def holds_def split: option.splits)

lemma distinct_purse: "purse s' = purse s \<Longrightarrow> distinct_objects s' = distinct_objects s"
  by (simp add: distinct_objects_def)

lemma complete_effect:
  assumes "complete P E c e quote s = (Inr a, t)" "distinct_objects s"
  shows "attempt_effect E c e s a t"
proof -
  obtain r s1 where r: "post_completion E c (base_url e) None s = (Inr r, s1)"
    and cont: "(if reply_status r \<noteq> 402 then judge P E c e quote None r
       else abind (prepare_payment P E c e r) (\<lambda>pl. case pl of
          Unpayable l \<Rightarrow> aret (Failed l)
        | Pay payment reserved \<Rightarrow>
            abind (paid_retry E c (base_url e) payment reserved) (judge P E c e quote reserved))) s1 = (Inr a, t)"
    using assms(1) by (auto simp: complete_def abind_eq_Inr)
  have p1: "purse s1 = purse s" using keepsD [OF post_completion_purse r] .
  show ?thesis
  proof (cases "reply_status r = 402")
    case False
    then show ?thesis using cont judge_effect [OF _ reserved_none [OF p1] r] by simp
  next
    case True
    then obtain pl s2 where pl: "prepare_payment P E c e r s1 = (Inr pl, s2)"
      and rest: "(case pl of Unpayable l \<Rightarrow> aret (Failed l) | Pay payment reserved \<Rightarrow>
            abind (paid_retry E c (base_url e) payment reserved) (judge P E c e quote reserved)) s2 = (Inr a, t)"
      using cont by (auto simp: abind_eq_Inr)
    show ?thesis
    proof (cases pl)
      case (Unpayable l)
      with pl have "purse s2 = purse s1" by (cases rule: prepare_payment_cases) simp_all
      then have "holds s2 = holds s" using p1 purse_holds by metis
      with Unpayable rest show ?thesis by (auto simp: attempt_effect_def)
    next
      case (Pay payment reserved)
      then obtain r2 s3 where r2: "paid_retry E c (base_url e) payment reserved s2 = (Inr r2, s3)"
        "judge P E c e quote reserved r2 s3 = (Inr a, t)" using rest by (auto simp: abind_eq_Inr)
      have "distinct_objects s1" using assms(2) distinct_purse [OF p1] by simp
      then have rs: "reserved_from s1 reserved s2" "sent_vouchers (Some payment) = vouchers_of reserved"
        using prepare_payment_reserves pl Pay by blast+
      note call = paid_retry_call [OF r2(1)]
      have "reserved_from s reserved s3"
        using reserved_before [OF p1] reserved_from_purse [OF rs(1)] keepsD [OF post_completion_purse call] by blast
      then show ?thesis by (rule judge_effect [OF r2(2) _ call rs(2)])
    qed
  qed
qed

lemma attempt_effect_before: "purse s' = purse s \<Longrightarrow> attempt_effect E c e s' a t \<Longrightarrow> attempt_effect E c e s a t"
  using reserved_before [of s' s] purse_holds [of s' s] by (cases a) (auto simp: attempt_effect_def)

lemma serve_effect:
  assumes "serve P E c e s = (Inr a, t)" "distinct_objects s"
  shows "attempt_effect E c e s a t"
proof -
  obtain ok s1 where h: "health_ok E (base_url e) s = (Inr ok, s1)"
    and cont: "(if \<not> ok then aret (Failed ''unhealthy'') else abind (if get_quote c
          then abind (fetch_quote P E c (base_url e)) (\<lambda>q. aret (map_option Some q)) else aret (Some None))
         (\<lambda>quote. case quote of None \<Rightarrow> aret (Failed ''quote_invalid'') | Some q \<Rightarrow> complete P E c e q)) s1 = (Inr a, t)"
    using assms(1) by (auto simp: serve_def abind_eq_Inr)
  have p1: "purse s1 = purse s" using keepsD [OF health_ok_purse h] .
  show ?thesis
  proof (cases ok)
    case False
    with cont purse_holds [OF p1] show ?thesis by (auto simp: attempt_effect_def)
  next
    case True
    then obtain q s2 where q: "(if get_quote c then abind (fetch_quote P E c (base_url e)) (\<lambda>q. aret (map_option Some q))
        else aret (Some None)) s1 = (Inr q, s2)"
      and rest: "(case q of None \<Rightarrow> aret (Failed ''quote_invalid'') | Some q \<Rightarrow> complete P E c e q) s2 = (Inr a, t)"
      using cont by (auto simp: abind_eq_Inr)
    have "purse s2 = purse s1" using q keepsD [OF fetch_quote_purse] by (auto simp: abind_eq_Inr split: if_splits)
    then have p2: "purse s2 = purse s" using p1 by simp
    then have "distinct_objects s2" using assms(2) distinct_purse by blast
    then have "q = Some x \<Longrightarrow> attempt_effect E c e s2 a t" for x using rest complete_effect by fastforce
    moreover have "q = None \<Longrightarrow> attempt_effect E c e s2 a t" using rest by (auto simp: attempt_effect_def)
    ultimately show ?thesis using attempt_effect_before [OF p2] by (cases q) auto
  qed
qed

lemma abind_eq_Inl:
  "abind f g s = (Inl e, t) \<longleftrightarrow> f s = (Inl e, t) \<or> (\<exists>x u. f s = (Inr x, u) \<and> g x u = (Inl e, t))"
  by (auto simp: abind_def split: prod.splits sum.splits)

lemma judge_quiet: "quiet_reader P \<Longrightarrow> judge P E c e quote reserved r s \<noteq> (Inl (TransportError n), t)"
proof
  assume q: "quiet_reader P" and j: "judge P E c e quote reserved r s = (Inl (TransportError n), t)"
  have f: "payment_failover reserved d u \<noteq> (Inl x, t)" for d u x by (cases reserved) (auto simp: payment_failover_def)
  have r: "receipt_trusted P v e content \<noteq> Inl (TransportError n)" for v content
    using quiet_receipt_trusted [of P v e content] by (auto simp: quiet_def)
  have h: "quote_honored P qt v e now \<noteq> Inl (TransportError n)" for qt v now
    using quiet_quote_honored [OF q, of qt v e now] by (auto simp: quiet_def)
  show False using j f r h
    by (auto simp: judge_def Let_def abind_eq_Inl split: if_splits option.splits)
qed

lemma complete_fault:
  fixes s t :: "'w routing"
  assumes "complete P E c e quote s = (Inl (TransportError n), t)" "quiet_reader P" "distinct_objects s"
  shows "holds t = holds s"
proof -
  have sgn: "sign_x402 P E c e kp price unit u \<noteq> (Inl (TransportError n), v)" for kp price unit u v
    using quiet_client_x402 by (auto simp: sign_x402_def rbind_eq_Inl quiet_def split: prod.splits)
  have rsv: "reserve_vouchers price unit w u \<noteq> (Inl (TransportError n), v)" for price unit w and u v :: "'w routing"
    using quiet_select [of w price unit] by (auto simp: reserve_vouchers_def quiet_def split: sum.splits exn.splits)
  have prep: "prepare_payment P E c e r u \<noteq> (Inl (TransportError n), v)" for r and u v :: "'w routing"
    using sgn rsv by (auto simp: prepare_payment_def Let_def split: option.splits if_splits)
  consider "post_completion E c (base_url e) None s = (Inl (TransportError n), t)"
    | r s1 payment reserved s2 where "post_completion E c (base_url e) None s = (Inr r, s1)"
        "prepare_payment P E c e r s1 = (Inr (Pay payment reserved), s2)"
        "paid_retry E c (base_url e) payment reserved s2 = (Inl (TransportError n), t)"
    using assms(1) prep
    by (auto simp: complete_def abind_eq_Inl judge_quiet [OF assms(2)] split: if_splits plan.splits) (metis plan.exhaust)
  then show ?thesis
  proof cases
    case 1
    then show ?thesis using purse_holds [OF keepsD [OF post_completion_purse 1]] by simp
  next
    case (2 r s1 payment reserved s2)
    have p1: "purse s1 = purse s" using keepsD [OF post_completion_purse 2(1)] .
    then have "reserved_from s1 reserved s2" using prepare_payment_reserves [OF 2(2)] assms(3) distinct_purse by blast
    moreover obtain s3 where "t = return_vouchers reserved s3" "purse s3 = purse s2"
      using 2(3) keepsD [OF post_completion_purse [of E c "base_url e" "Some payment"]]
      by (fastforce simp: paid_retry_def split: prod.splits sum.splits exn.splits)
    ultimately show ?thesis using return_reserved reserved_from_purse p1 by (metis purse_holds)
  qed
qed

lemma serve_fault:
  assumes "serve P E c e s = (Inl (TransportError n), t)" "quiet_reader P" "distinct_objects s"
  shows "holds t = holds s"
proof -
  consider "health_ok E (base_url e) s = (Inl (TransportError n), t)"
    | s1 where "health_ok E (base_url e) s = (Inr True, s1)" "fetch_quote P E c (base_url e) s1 = (Inl (TransportError n), t)"
    | s1 s2 q where "health_ok E (base_url e) s = (Inr True, s1)" "s2 = s1 \<or> (\<exists>x. fetch_quote P E c (base_url e) s1 = (Inr x, s2))"
        "complete P E c e q s2 = (Inl (TransportError n), t)"
    using assms(1) by (fastforce simp: serve_def abind_eq_Inl abind_eq_Inr split: if_splits option.splits)
  then show ?thesis
  proof cases
    case 1
    show ?thesis by (rule purse_holds [OF keepsD [OF health_ok_purse 1]])
  next
    case (2 s1)
    have "purse t = purse s" using keepsD [OF health_ok_purse 2(1)] keepsD [OF fetch_quote_purse 2(2)] by simp
    then show ?thesis by (rule purse_holds)
  next
    case (3 s1 s2 q)
    then have p: "purse s2 = purse s" using keepsD [OF health_ok_purse 3(1)] keepsD [OF fetch_quote_purse] by fastforce
    from complete_fault [OF 3(3) assms(2)] assms(3) distinct_purse [OF p] purse_holds [OF p] show ?thesis by simp
  qed
qed

lemma try_candidate_cases:
  assumes "try_candidate P E c e s = (Inr a, t)"
  obtains (replied) "serve P E c e s = (Inr a, t)"
  | (faulted) n where "serve P E c e s = (Inl (TransportError n), t)" "a = Failed (''transport_error: '' @ n)"
  using assms by (auto simp: try_candidate_def split: prod.splits sum.splits exn.splits)

lemma try_candidate_effect:
  assumes "try_candidate P E c e s = (Inr a, t)" "quiet_reader P" "distinct_objects s"
  shows "attempt_effect E c e s a t"
  using assms(1)
proof (cases rule: try_candidate_cases)
  case replied
  then show ?thesis using serve_effect assms(3) by blast
next
  case (faulted n)
  then show ?thesis using serve_fault assms(2,3) by (simp add: attempt_effect_def)
qed

subsection \<open>Failing over\<close>

lemma try_all_effect:
  assumes "try_all P E c es old s = (out, t)" "quiet_reader P" "distinct_objects s"
  shows "(case out of Inl (Escaped x) \<Rightarrow> True
    | Inl (NoProviderAvailable m as) \<Rightarrow> holds t = holds s
    | Inr r \<Rightarrow> \<exists>reserved. reserved_from s reserved t \<and> answered_call E c (rr_base_url r) (rr_content r) (vouchers_of reserved) t)"
  using assms
proof (induction es arbitrary: old s)
  case (Cons e es)
  obtain a s1 where a: "try_candidate P E c e s = (a, s1)" by fastforce
  show ?case
  proof (cases a)
    case (Inl x)
    with Cons.prems a show ?thesis by auto
  next
    case (Inr att)
    have eff: "attempt_effect E c e s att s1" using try_candidate_effect Cons.prems(2,3) a Inr by blast
    show ?thesis
    proof (cases att)
      case (Failed l)
      then have h: "holds s1 = holds s" using eff by (simp add: attempt_effect_def)
      then have "distinct_objects s1" using Cons.prems(3) holds_distinct by blast
      moreover have "try_all P E c es (old @ [(base_url e, l)]) s1 = (out, t)" using Cons.prems(1) a Inr Failed by simp
      ultimately have "case out of Inl (Escaped x) \<Rightarrow> True | Inl (NoProviderAvailable m as) \<Rightarrow> holds t = holds s1
          | Inr r \<Rightarrow> \<exists>reserved. reserved_from s1 reserved t \<and> answered_call E c (rr_base_url r) (rr_content r) (vouchers_of reserved) t" using Cons.IH Cons.prems(2) by blast
      then show ?thesis by (simp add: h holds_reserved [OF h] split: sum.splits route_error.splits)
    next
      case (Served content receipt quote)
      with Cons.prems(1) a Inr eff show ?thesis
        by (auto simp: attempt_effect_def split: sum.splits)
    qed
  qed
qed auto

text \<open>C18. Failing over loses no money: when no provider serves, the wallet holds the vouchers it held before. When one
  does, the last call of the route is the one it answered_call, and the wallet holds what it held before less
  exactly the vouchers that call carried: those sent to providers that failed earlier are all back, and a
  call that carried none (free, or paid by x402) takes none.\<close>

theorem failover_keeps_vouchers:
  assumes "route_chat P E reg c s = (out, t)" "quiet_reader P" "distinct_objects s"
  shows "(\<forall>m as. out = Inl (NoProviderAvailable m as) \<longrightarrow> holds t = holds s) \<and>
    (\<forall>r. out = Inr r \<longrightarrow> (\<exists>payment u reply vs. post_completion E c (rr_base_url r) payment u = (Inr reply, t) \<and>
      reply_status reply = 200 \<and> extract_content (safe_json reply) = Some (rr_content r) \<and>
      sent_vouchers payment = map (JObj \<circ> snd) vs \<and> holds s = map_option (\<lambda>m. mset vs + m) (holds t)))"
proof (cases "resolve P reg (c_model c) (Some (c_privacy_mode c)) (c_weights c) False")
  case (Inl x)
  with assms(1) show ?thesis by (auto simp: route_chat_def)
next
  case (Inr candidates)
  define es where "es = (case max_providers c of None \<Rightarrow> candidates | Some n \<Rightarrow> py_take n candidates)"
  have "try_all P E c es [] s = (out, t)" using assms(1) Inr by (simp add: route_chat_def es_def)
  note eff = try_all_effect [OF this assms(2,3)]
  have paid: "\<exists>vs. vouchers_of reserved = map (JObj \<circ> snd) vs \<and> holds s = map_option (\<lambda>m. mset vs + m) (holds t)"
    if "reserved_from s reserved t" for reserved
  proof -
    have "map_option ((+) {#}) x = x" for x :: "voucher_object multiset option" by (cases x) auto
    then show ?thesis using that by (cases reserved) (auto simp: reserved_from_def vouchers_of_def intro: exI [of _ "[]"])
  qed
  show ?thesis
  proof (intro conjI allI impI)
    fix m as assume "out = Inl (NoProviderAvailable m as)"
    with eff show "holds t = holds s" by simp
  next
    fix r assume "out = Inr r"
    with eff obtain reserved where rs: "reserved_from s reserved t"
      "answered_call E c (rr_base_url r) (rr_content r) (vouchers_of reserved) t" by auto
    from paid [OF rs(1)] rs(2) show "\<exists>payment u reply vs. post_completion E c (rr_base_url r) payment u = (Inr reply, t) \<and>
        reply_status reply = 200 \<and> extract_content (safe_json reply) = Some (rr_content r) \<and>
        sent_vouchers payment = map (JObj \<circ> snd) vs \<and> holds s = map_option (\<lambda>m. mset vs + m) (holds t)"
      unfolding answered_call_def by metis
  qed
qed

subsection \<open>What a routed answer proves\<close>

definition receipt_proves :: "platform \<Rightarrow> provider_entry \<Rightarrow> string \<Rightarrow> json \<Rightarrow> bool" where
  "receipt_proves P e content receipt \<longleftrightarrow> (\<exists>d v. receipt = JObj d \<and> verify_receipt P d = Inr v \<and> valid v \<and>
     py_eq (getn d ''provider_pubkey'') (getn (manifest e) ''provider_pubkey'') \<and>
     getn d ''response_hash'' = JStr (hash_response_body P content))"

definition quote_kept :: "platform \<Rightarrow> int \<Rightarrow> provider_entry \<Rightarrow> json \<Rightarrow> dict \<Rightarrow> bool" where
  "quote_kept P now e receipt q \<longleftrightarrow> (\<exists>d charged committed v. verify_quote P q = Inr v \<and> valid v \<and>
     py_eq (getn q ''provider_pubkey'') (getn (manifest e) ''provider_pubkey'') \<and> quote_is_expired P q now = Inr False \<and>
     receipt = JObj d \<and> py_eq (getn d ''price_units'') (getn q ''price_units'') \<and>
     dec_of_str (py_str (getn d ''price_amount'')) = Inr charged \<and>
     dec_of_str (py_str (getn q ''max_price'')) = Inr committed \<and> dec_le charged committed = Inr True)"

lemma receipt_trusted_True:
  assumes "receipt_trusted P receipt e content = Inr True"
  shows "receipt_proves P e content receipt \<and> py_or receipt (JObj []) = receipt"
proof -
  obtain d v where d: "receipt = JObj d" "verify_receipt P d = Inr v" "valid v"
    "py_eq (getn d ''provider_pubkey'') (getn (manifest e) ''provider_pubkey'')"
    "getn d ''response_hash'' = JStr (hash_response_body P content)"
    using assms by (auto simp: receipt_trusted_def rbind_eq_Inr split: option.splits if_splits)
  then have "d \<noteq> []" by (auto simp: getn_def)
  with d show ?thesis by (auto simp: receipt_proves_def py_or_def)
qed

lemma quote_honored_True:
  assumes "quote_honored P q receipt e now = Inr True" "verify_quote P q = Inr v" "valid v"
  shows "quote_kept P now e receipt q \<and> py_or receipt (JObj []) = receipt"
proof -
  obtain d charged committed where d: "py_eq (getn q ''provider_pubkey'') (getn (manifest e) ''provider_pubkey'')"
    "quote_is_expired P q now = Inr False" "receipt = JObj d" "py_eq (getn d ''price_units'') (getn q ''price_units'')"
    "dec_of_str (py_str (getn d ''price_amount'')) = Inr charged"
    "dec_of_str (py_str (getn q ''max_price'')) = Inr committed" "dec_le charged committed = Inr True"
    using assms(1) by (auto simp: quote_honored_def rbind_eq_Inr split: option.splits if_splits sum.splits)
  have "d \<noteq> []"
  proof
    assume "d = []"
    then have "getn d ''price_amount'' = JNull" by (simp add: getn_def)
    moreover have "dec_of_str (py_str JNull) = Inl InvalidOperation" by code_simp
    ultimately show False using d(5) by simp
  qed
  with d assms show ?thesis by (auto simp: quote_kept_def py_or_def)
qed

lemma judge_served:
  assumes "judge P E c e quote reserved r s = (Inr (Served content receipt q), t)"
  shows "q = quote \<and> (verify_receipts c \<longrightarrow> receipt_proves P e content receipt) \<and>
    (\<forall>qt v. quote = Some qt \<longrightarrow> verify_quote P qt = Inr v \<longrightarrow> valid v \<longrightarrow> quote_kept P (clock E (world t)) e receipt qt)"
proof -
  have f: "payment_failover reserved d u \<noteq> (Inr (Served content receipt q), t)" for d and u :: "'a routing"
    by (cases reserved) (auto simp: payment_failover_def)
  define given where "given = (case the_obj (safe_json r) of None \<Rightarrow> JNull | Some d \<Rightarrow> getn d ''sip_receipt'')"
  have "q = quote" and rc: "receipt = py_or given (JObj [])"
    and tr: "verify_receipts c \<longrightarrow> receipt_trusted P given e content = Inr True"
    and qh: "\<forall>qt. quote = Some qt \<longrightarrow> quote_honored P qt given e (clock E (world t)) = Inr True"
    using assms f by (auto simp: judge_def Let_def abind_eq_Inr given_def split: if_splits option.splits)
  moreover have "verify_receipts c \<longrightarrow> receipt_proves P e content receipt"
    using tr receipt_trusted_True [of P given e content] rc by auto
  moreover have "\<forall>qt v. quote = Some qt \<longrightarrow> verify_quote P qt = Inr v \<longrightarrow> valid v \<longrightarrow> quote_kept P (clock E (world t)) e receipt qt"
    using qh quote_honored_True [of P _ given e] rc by metis
  ultimately show ?thesis by blast
qed

lemma serve_served:
  assumes "serve P E c e s = (Inr (Served content receipt q), t)"
  shows "(verify_receipts c \<longrightarrow> receipt_proves P e content receipt) \<and>
    (get_quote c \<longrightarrow> (\<exists>qt. q = Some qt \<and> quote_kept P (clock E (world t)) e receipt qt))"
proof -
  obtain quote s2 where comp: "complete P E c e quote s2 = (Inr (Served content receipt q), t)"
    and got: "get_quote c \<longrightarrow> (\<exists>qt v. quote = Some qt \<and> verify_quote P qt = Inr v \<and> valid v)"
    using assms by (auto simp: serve_def fetch_quote_def abind_eq_Inr rbind_eq_Inr split: if_splits option.splits)
  obtain reserved r s3 where "judge P E c e quote reserved r s3 = (Inr (Served content receipt q), t)"
    using comp by (auto simp: complete_def abind_eq_Inr split: if_splits plan.splits) (metis plan.exhaust)
  from judge_served [OF this] got show ?thesis by auto
qed

text \<open>The content of a served answer is that of the last call, to the provider's address.\<close>

lemma serve_answered:
  assumes "serve P E c e s = (Inr (Served content receipt q), t)"
  obtains payment u reply where "post_completion E c (base_url e) payment u = (Inr reply, t)" "reply_status reply = 200"
    "extract_content (safe_json reply) = Some content"
proof -
  obtain quote s2 where comp: "complete P E c e quote s2 = (Inr (Served content receipt q), t)"
    using assms by (auto simp: serve_def abind_eq_Inr split: if_splits option.splits)
  have judged: "\<exists>payment u reply. post_completion E c (base_url e) payment u = (Inr reply, t) \<and> reply_status reply = 200 \<and>
      extract_content (safe_json reply) = Some content"
    if "judge P E c e quote reserved r u = (Inr (Served content receipt q), t)"
      "post_completion E c (base_url e) payment w = (Inr r, u)" for reserved r u payment w
    using judge_state [OF that(1)] that(2) by auto
  have "\<exists>payment u reply. post_completion E c (base_url e) payment u = (Inr reply, t) \<and> reply_status reply = 200 \<and>
      extract_content (safe_json reply) = Some content"
    using comp by (auto simp: complete_def abind_eq_Inr split: if_splits plan.splits intro: judged dest!: paid_retry_call)
      (metis judged paid_retry_call plan.exhaust)
  then show thesis using that by blast
qed

text \<open>How a successful walk over the candidates ends: earlier ones failed, one served.\<close>

lemma try_all_served:
  assumes "try_all P E c es old s = (Inr r, t)"
  obtains pre e post labels u where "es = pre @ e # post" "length labels = length pre"
    "rr_attempts r = old @ zip (map base_url pre) labels @ [(base_url e, ''ok'')]"
    "serve P E c e u = (Inr (Served (rr_content r) (rr_receipt r) (rr_quote r)), t)"
    "rr_base_url r = base_url e" "getn (manifest e) ''provider_pubkey'' = rr_provider_pubkey r"
  using assms
proof (induction es arbitrary: old s thesis)
  case (Cons e es)
  obtain a s1 where a: "try_candidate P E c e s = (Inr a, s1)"
    using Cons.prems(2) by (auto split: prod.splits sum.splits)
  show ?case
  proof (cases a)
    case (Failed l)
    then have "try_all P E c es (old @ [(base_url e, l)]) s1 = (Inr r, t)" using Cons.prems(2) a by simp
    from Cons.IH [OF _ this] obtain pre e' post labels u where x: "es = pre @ e' # post" "length labels = length pre"
      "rr_attempts r = (old @ [(base_url e, l)]) @ zip (map base_url pre) labels @ [(base_url e', ''ok'')]"
      "serve P E c e' u = (Inr (Served (rr_content r) (rr_receipt r) (rr_quote r)), t)"
      "rr_base_url r = base_url e'" "getn (manifest e') ''provider_pubkey'' = rr_provider_pubkey r" by blast
    show ?thesis by (rule Cons.prems(1) [of "e # pre" e' post "l # labels" u]) (use x in simp_all)
  next
    case (Served content receipt quote)
    then obtain pk where pk: "getitem (manifest e) ''provider_pubkey'' = Inr pk" "s1 = t"
      "r = \<lparr>rr_content = content, rr_receipt = receipt, rr_provider_pubkey = pk, rr_base_url = base_url e,
            rr_quote = quote, rr_attempts = old @ [(base_url e, ''ok'')]\<rparr>"
      using Cons.prems(2) a by (auto split: sum.splits)
    have "serve P E c e s = (Inr a, s1)" using a Served by (cases rule: try_candidate_cases) simp_all
    then show ?thesis using Cons.prems(1) [of "[]" e es "[]" s] pk Served
      by (simp add: getitem_def getn_def split: option.splits)
  qed
qed simp

lemma rank_members: "rank_candidates sc es = Inr rs \<Longrightarrow> set rs = set es"
proof -
  assume "rank_candidates sc es = Inr rs"
  then obtain ps where ps: "rmap (\<lambda>e. rbind (sc e) (\<lambda>s. Inr (s, e))) es = Inr ps" "rs = map snd (isort_by score_ge ps)"
    by (auto simp: rank_candidates_def rbind_eq_Inr)
  have "set rs = snd ` set ps" by (simp add: ps(2))
  with scored_list [OF ps(1)] show ?thesis by (metis set_map)
qed

lemma for_model_members:
  assumes "for_model reg m = Inr es" "e \<in> set es"
  shows "e \<in> set reg \<and> str_in m (get_or (manifest e) ''models'' (JArr [])) = Inr True"
proof -
  obtain marked where marked: "rmap (\<lambda>e. rbind (str_in m (get_or (manifest e) ''models'' (JArr []))) (\<lambda>b. Inr (b, e))) reg = Inr marked"
    "es = map snd (filter fst marked)" using assms(1) by (auto simp: for_model_def rbind_eq_Inr)
  have "rmap (\<lambda>e. rbind (str_in m (get_or (manifest e) ''models'' (JArr []))) (\<lambda>b. Inr (b, e))) reg = Inr ms \<Longrightarrow>
      (b, e) \<in> set ms \<Longrightarrow> e \<in> set reg \<and> str_in m (get_or (manifest e) ''models'' (JArr [])) = Inr b" for b e ms
    by (induction reg arbitrary: ms) (auto simp: rbind_eq_Inr)
  with marked assms(2) show ?thesis by auto
qed

lemma resolve_members:
  assumes "resolve P reg m mode w False = Inr es" "e \<in> set es"
  shows "e \<in> set reg \<and> str_in m (get_or (manifest e) ''models'' (JArr [])) = Inr True"
proof -
  obtain cs where "for_model reg m = Inr cs" "rank_candidates (score_provider None mode (Some m) w) cs = Inr es"
    using assms(1) by (auto simp: resolve_def rbind_eq_Inr)
  with rank_members for_model_members assms(2) show ?thesis by blast
qed

lemma routed_candidate:
  assumes "route_chat P E reg c s = (Inr r, t)"
  obtains e u where "e \<in> set reg" "str_in (c_model c) (get_or (manifest e) ''models'' (JArr [])) = Inr True"
    "serve P E c e u = (Inr (Served (rr_content r) (rr_receipt r) (rr_quote r)), t)"
    "rr_base_url r = base_url e" "getn (manifest e) ''provider_pubkey'' = rr_provider_pubkey r"
    "last (rr_attempts r) = (base_url e, ''ok'')"
proof -
  obtain candidates where cs: "resolve P reg (c_model c) (Some (c_privacy_mode c)) (c_weights c) False = Inr candidates"
    and run: "try_all P E c (case max_providers c of None \<Rightarrow> candidates | Some n \<Rightarrow> py_take n candidates) [] s = (Inr r, t)"
    using assms by (auto simp: route_chat_def split: sum.splits)
  from run obtain pre e post labels u where e: "(case max_providers c of None \<Rightarrow> candidates | Some n \<Rightarrow> py_take n candidates) = pre @ e # post"
    "rr_attempts r = [] @ zip (map base_url pre) labels @ [(base_url e, ''ok'')]"
    "serve P E c e u = (Inr (Served (rr_content r) (rr_receipt r) (rr_quote r)), t)"
    "rr_base_url r = base_url e" "getn (manifest e) ''provider_pubkey'' = rr_provider_pubkey r"
    by (rule try_all_served)
  have "set (py_take n xs) \<subseteq> set xs" for n and xs :: "provider_entry list"
    by (auto simp: py_take_def dest: in_set_takeD)
  then have "e \<in> set candidates" using e(1) by (cases "max_providers c") (auto, metis in_set_conv_decomp subsetD)
  with resolve_members [OF cs this] e show thesis by (intro that [of e u]) simp_all
qed

text \<open>C17. A routed answer is one the caller can rely on: it comes from a registered provider that lists the model;
  with receipt verification on, its receipt is signed by that provider over the very content returned; with a
  quote asked for, the quote is signed by it, unexpired on the client's clock when the answer is accepted and in
  the receipt's unit, and the receipt's price is at most the quoted maximum. It is the last provider tried.\<close>

theorem routed_answer_trusted:
  assumes "route_chat P E reg c s = (Inr r, t)"
  shows "\<exists>e\<in>set reg. str_in (c_model c) (get_or (manifest e) ''models'' (JArr [])) = Inr True \<and>
    rr_base_url r = base_url e \<and> rr_provider_pubkey r = getn (manifest e) ''provider_pubkey'' \<and>
    last (rr_attempts r) = (base_url e, ''ok'') \<and>
    (verify_receipts c \<longrightarrow> receipt_proves P e (rr_content r) (rr_receipt r)) \<and>
    (get_quote c \<longrightarrow> (\<exists>q. rr_quote r = Some q \<and> quote_kept P (clock E (world t)) e (rr_receipt r) q))"
proof -
  obtain e u where e: "e \<in> set reg" "str_in (c_model c) (get_or (manifest e) ''models'' (JArr [])) = Inr True"
    "serve P E c e u = (Inr (Served (rr_content r) (rr_receipt r) (rr_quote r)), t)"
    "rr_base_url r = base_url e" "getn (manifest e) ''provider_pubkey'' = rr_provider_pubkey r"
    "last (rr_attempts r) = (base_url e, ''ok'')"
    using assms by (rule routed_candidate)
  from serve_served [OF e(3)] e show ?thesis by (intro bexI [of _ e]) auto
qed

text \<open>One provider can end the whole request: a challenge whose price is not a number makes the wallet raise while
  the payment is prepared, and the exception leaves the loop over the candidates.\<close>

theorem bad_price_ends_routing:
  assumes "health_ok E (base_url e) s = (Inr True, s1)" "\<not> get_quote c"
    and "post_completion E c (base_url e) None s1 = (Inr r, s2)" "reply_status r = 402"
    and "safe_json r = JObj body" "getn body ''sip_payment_required'' = JObj challenge"
    and "getn challenge ''accepted_schemes'' = JArr accepted" "JStr ''pic'' \<in> set accepted"
    and "dec_of_str (py_str (getn challenge ''price_amount'')) = Inl x" "\<forall>n. x \<noteq> TransportError n" "x \<noteq> InsufficientFunds"
    and "purse s2 = Some w"
  shows "try_all P E c (e # es) attempts s = (Inl (Escaped x), s2)"
proof -
  have sel: "reserve_vouchers (py_str (getn challenge ''price_amount'')) unit w s2 = (Inl x, s2)" for unit
    using assms(9,11) by (cases x) (simp_all add: reserve_vouchers_def wallet_select_def)
  have "prepare_payment P E c e r s2 = (Inl x, s2)"
    using assms(5-8,12) sel by (simp add: prepare_payment_def Let_def)
  then have "complete P E c e None s1 = (Inl x, s2)"
    using assms(3,4) by (simp add: complete_def abind_def)
  then have "serve P E c e s = (Inl x, s2)"
    using assms(1,2) by (simp add: serve_def abind_def)
  then have "try_candidate P E c e s = (Inl x, s2)"
    using assms(10) by (cases x) (simp_all add: try_candidate_def)
  then show ?thesis by simp
qed

subsection \<open>Inputs\<close>

text \<open>
  Two providers: \<^verbatim>\<open>u1\<close> is down, \<^verbatim>\<open>u2\<close> answers with a signed receipt, but asks for payment first; \<^verbatim>\<open>u3\<close>
  asks for a price that is no number.
\<close>

definition demo_receipt :: dict where
  "demo_receipt = (case sign_receipt demo (build_receipt
      \<lparr>r_request_id = ''r'', r_provider_pubkey = public_key_str demo (demo_key 3), r_model_manifest_hash = ''h'',
       r_model_alias = ''m'', r_runtime = ''mock'', r_input_tokens = 1, r_output_tokens = 1, r_price_units = ''pic'',
       r_price_amount = ''1'', r_privacy_mode = ''direct'', r_started_at = 0, r_completed_at = 0,
       r_response_hash = hash_response_body demo ''hello'', r_runtime_version = None, r_request_hash = None\<rparr>) (demo_key 3) of
     Inl e \<Rightarrow> [] | Inr d \<Rightarrow> d)"

definition demo_body :: dict where
  "demo_body = [(''choices'', JArr [JObj [(''message'', JObj [(''content'', JStr ''hello'')])]]), (''sip_receipt'', JObj demo_receipt)]"

definition demo_402 :: "string \<Rightarrow> http_reply" where
  "demo_402 price = \<lparr>reply_status = 402, reply_json = Some (JObj [(''sip_payment_required'', JObj
     [(''price_amount'', JStr price), (''price_units'', JStr ''pic''), (''accepted_schemes'', JArr [JStr ''pic''])])])\<rparr>"

definition demo_net :: "string \<Rightarrow> http_call \<Rightarrow> nat \<Rightarrow> http_reply res \<times> nat" where
  "demo_net url call n =
     (if url = ''u1'' then Inl (TransportError ''ConnectError'')
      else if path call = ''/sip/v1/health'' then Inr \<lparr>reply_status = 200, reply_json = Some (JObj [(''status'', JStr ''ok'')])\<rparr>
      else if url = ''u3'' then Inr (demo_402 ''abc'')
      else if n < 3 then Inr (demo_402 ''1.5'')
      else Inr \<lparr>reply_status = 200, reply_json = Some (JObj demo_body)\<rparr>, n + 1)"

definition demo_outside :: "nat outside" where
  "demo_outside = \<lparr>network = demo_net, clock = (\<lambda>_. demo_now), random_text = (\<lambda>n. (''n'', n))\<rparr>"

definition demo_entry :: "string \<Rightarrow> provider_entry" where
  "demo_entry url = \<lparr>base_url = url, manifest = [(''provider_pubkey'', JStr (public_key_str demo (demo_key 3))), (''models'', JArr [JStr ''m''])]\<rparr>"

definition demo_options :: chat_options where
  "demo_options = \<lparr>c_token = None, c_request_id = ''r'', c_model = ''m'', c_messages = [], c_max_tokens = 1,
     c_privacy_mode = ''direct'', verify_receipts = True, get_quote = False, max_providers = None,
     c_weights = Some [], x402_keypair = None\<rparr>"

definition demo_routing :: "nat routing" where
  "demo_routing = \<lparr>world = 0, purse = Some demo_wallet\<rparr>"

definition demo_args :: receipt_args where
  "demo_args = \<lparr>r_request_id = ''r'', r_provider_pubkey = public_key_str demo (demo_key 3), r_model_manifest_hash = ''h'',
       r_model_alias = ''m'', r_runtime = ''mock'', r_input_tokens = 1, r_output_tokens = 1, r_price_units = ''pic'',
       r_price_amount = ''1'', r_privacy_mode = ''direct'', r_started_at = 0, r_completed_at = 0,
       r_response_hash = hash_response_body demo ''hello'', r_runtime_version = None, r_request_hash = None\<rparr>"

lemma demo_receipt_signed: "sign_receipt demo (build_receipt demo_args) (demo_key 3) = Inr demo_receipt"
proof -
  obtain d where "sign_receipt demo (build_receipt demo_args) (demo_key 3) = Inr d"
    using sign_document_total [OF build_receipt_ok, of demo demo_args "demo_key 3"] unfolding sign_receipt_def by blast
  then show ?thesis by (simp add: demo_receipt_def demo_args_def)
qed

lemma demo_receipt_fields:
  "getn demo_receipt ''request_id'' = JStr ''r''" "getn demo_receipt ''price_amount'' = JStr ''1''"
  "getn demo_receipt ''provider_pubkey'' = JStr (public_key_str demo (demo_key 3))"
  "getn demo_receipt ''response_hash'' = JStr (hash_response_body demo ''hello'')"
  "getn demo_receipt ''price_units'' = JStr ''pic''" "\<exists>sg. getn demo_receipt ''signature'' = JStr sg"
proof -
  have get: "k \<noteq> ''signature'' \<Longrightarrow> getn demo_receipt k = getn (build_receipt demo_args) k" for k
    by (rule receipt.sign_keeps_fields [OF demo_receipt_signed])
  show "getn demo_receipt ''request_id'' = JStr ''r''" "getn demo_receipt ''price_amount'' = JStr ''1''"
    "getn demo_receipt ''provider_pubkey'' = JStr (public_key_str demo (demo_key 3))"
    "getn demo_receipt ''response_hash'' = JStr (hash_response_body demo ''hello'')"
    "getn demo_receipt ''price_units'' = JStr ''pic''"
    by (simp_all add: get demo_args_def build_receipt_def optional_field_def) (simp_all add: getn_def)
  show "\<exists>sg. getn demo_receipt ''signature'' = JStr sg"
  proof -
    obtain bs where d: "demo_receipt = dict_set ''signature'' (JStr (sign_message demo (demo_key 3) bs))
        (dict_without ''signature'' (build_receipt demo_args))"
      using demo_receipt_signed unfolding sign_receipt_def sign_document_def Let_def rbind_eq_Inr by (metis sum.inject(2))
    have "getn demo_receipt ''signature'' = JStr (sign_message demo (demo_key 3) bs)"
      unfolding d getn_set by (rule if_P) (rule refl)
    then show ?thesis by blast
  qed
qed

lemma demo_receipt_accepted: "schema_accepts demo ''receipt'' demo_receipt"
proof -
  have "getn d k \<noteq> JNull \<Longrightarrow> dict_get d k \<noteq> None" for d k by (cases "dict_get d k") (simp_all add: getn_def)
  from this [of demo_receipt] show ?thesis using demo_receipt_fields
    by (auto simp: schema_accepts_def demo_def demo_validator_def demo_members_def filter_empty_conv)
qed

lemma demo_receipt_trusted: "receipt_trusted demo (JObj demo_receipt) (demo_entry url) ''hello'' = Inr True"
proof -
  have "getn (build_receipt demo_args) ''provider_pubkey'' = JStr (public_key_str demo (demo_key 3))"
    by (simp add: demo_args_def build_receipt_def optional_field_def) (simp add: getn_def)
  from receipt.signed_is_valid [OF demo_laws demo_receipt_signed this demo_receipt_accepted]
  obtain v where "verify_receipt demo demo_receipt = Inr v" "valid v" by blast
  then show ?thesis using demo_receipt_fields by (simp add: receipt_trusted_def demo_entry_def getn_def [of "[_, _]"])
qed

lemma demo_score: "score_provider None (Some ''direct'') (Some ''m'') (Some []) (demo_entry url) = Inr (Fin 0)"
proof -
  have "\<exists>x. anchored 2000 (Fin 4000) = Inr x" "\<exists>x. anchored 100 (Fin 0) = Inr x"
    by (simp_all add: anchored_def fmax_def to_float_numeral)
  then show ?thesis
    by (auto simp: score_provider_def Let_def model_fit_score_def latency_score_def effective_ms_def price_score_def
        privacy_score_def demo_entry_def float_get_def get_or_def getn_def py_or_def py_sum_def to_float_numeral)
qed

lemma demo_resolved:
  "resolve demo [demo_entry ''u1'', demo_entry ''u2''] ''m'' (Some ''direct'') (Some []) False = Inr [demo_entry ''u1'', demo_entry ''u2'']"
proof -
  have "get_or (manifest (demo_entry url)) ''models'' (JArr []) = JArr [JStr ''m'']" for url
    by (simp add: demo_entry_def get_or_def)
  then show ?thesis by (simp add: resolve_def for_model_def rank_candidates_def demo_score score_ge_def)
qed

lemma demo_selected:
  "wallet_select demo_wallet (JStr ''1.5'') ''pic'' = Inr ([(2, demo_voucher ''b'' ''2'' ''pic'')],
     \<lparr>held = [(1, demo_voucher ''a'' ''5'' ''eur''), (3, demo_voucher ''c'' ''1'' ''pic'')]\<rparr>)"
  by code_simp

lemma demo_extract: "extract_content (JObj demo_body) = Some ''hello''"
  by (simp add: extract_content_def demo_body_def getn_def)

lemmas act_simps = abind_def aret_def alift_def exchange_def health_ok_def post_completion_def safe_json_def
  serve_def complete_def try_candidate_def paid_retry_def

lemma demo_try_u1: "try_candidate demo demo_outside demo_options (demo_entry ''u1'') \<lparr>world = 0, purse = p\<rparr> =
  (Inr (Failed ''transport_error: ConnectError''), \<lparr>world = Suc 0, purse = p\<rparr>)"
  by (simp add: act_simps demo_outside_def demo_net_def demo_entry_def)

lemma demo_try_u2: "try_candidate demo demo_outside demo_options (demo_entry ''u2'') \<lparr>world = Suc 0, purse = Some demo_wallet\<rparr> =
  (Inr (Served ''hello'' (JObj demo_receipt) None),
   \<lparr>world = 4, purse = Some \<lparr>held = [(1, demo_voucher ''a'' ''5'' ''eur''), (3, demo_voucher ''c'' ''1'' ''pic'')]\<rparr>\<rparr>)"
proof -
  have plan: "prepare_payment demo demo_outside demo_options (demo_entry ''u2'') (demo_402 ''1.5'') \<lparr>world = 3, purse = Some demo_wallet\<rparr> =
    (Inr (Pay (build_pic_payment [JObj (demo_voucher ''b'' ''2'' ''pic'')]) (Some [(2, demo_voucher ''b'' ''2'' ''pic'')])),
     \<lparr>world = 3, purse = Some \<lparr>held = [(1, demo_voucher ''a'' ''5'' ''eur''), (3, demo_voucher ''c'' ''1'' ''pic'')]\<rparr>\<rparr>)"
    by (simp add: prepare_payment_def demo_402_def safe_json_def getn_def Let_def reserve_vouchers_def demo_selected)
  have "demo_receipt \<noteq> []" using demo_receipt_fields(1) by (auto simp: getn_def)
  then have jd: "judge demo demo_outside demo_options (demo_entry ''u2'') None reserved
      \<lparr>reply_status = 200, reply_json = Some (JObj demo_body)\<rparr> st = (Inr (Served ''hello'' (JObj demo_receipt) None), st)" for reserved st
    using demo_receipt_trusted [of "''u2''"] demo_extract
    by (simp add: judge_def safe_json_def Let_def demo_options_def abind_def alift_def py_or_def demo_body_def getn_def [of "[_, _]"])
  have net: "exchange demo_outside ''u2'' \<lparr>verb = v, path = ''/v1/chat/completions'', call_headers = h, call_json = j\<rparr> st =
      (Inr (if world st < 3 then demo_402 ''1.5'' else \<lparr>reply_status = 200, reply_json = Some (JObj demo_body)\<rparr>), st\<lparr>world := world st + 1\<rparr>)"
    for v h j st by (simp add: exchange_def demo_outside_def demo_net_def)
  have health: "health_ok demo_outside ''u2'' \<lparr>world = Suc 0, purse = p\<rparr> = (Inr True, \<lparr>world = 2, purse = p\<rparr>)" for p
    by (simp add: health_ok_def exchange_def demo_outside_def demo_net_def abind_def aret_def safe_json_def getn_def)
  have url: "base_url (demo_entry ''u2'') = ''u2''" "\<not> get_quote demo_options" "reply_status (demo_402 x) = 402" for x
    by (simp_all add: demo_entry_def demo_options_def demo_402_def)
  show ?thesis
    by (simp add: try_candidate_def serve_def complete_def abind_def aret_def health url post_completion_def net plan paid_retry_def jd)
qed

lemma demo_routed:
  "route_chat demo demo_outside [demo_entry ''u1'', demo_entry ''u2''] demo_options demo_routing =
     (Inr \<lparr>rr_content = ''hello'', rr_receipt = JObj demo_receipt, rr_provider_pubkey = JStr (public_key_str demo (demo_key 3)),
        rr_base_url = ''u2'', rr_quote = None,
        rr_attempts = [(''u1'', ''transport_error: ConnectError''), (''u2'', ''ok'')]\<rparr>,
      \<lparr>world = 4, purse = Some \<lparr>held = [(1, demo_voucher ''a'' ''5'' ''eur''), (3, demo_voucher ''c'' ''1'' ''pic'')]\<rparr>\<rparr>)"
proof -
  have o': "c_model demo_options = ''m''" "c_privacy_mode demo_options = ''direct''" "c_weights demo_options = Some []" "max_providers demo_options = None"
    by (simp_all add: demo_options_def)
  have e: "base_url (demo_entry u) = u" "getitem (manifest (demo_entry u)) ''provider_pubkey'' = Inr (JStr (public_key_str demo (demo_key 3)))" for u
    by (simp_all add: demo_entry_def getitem_def)
  show ?thesis
    by (simp add: route_chat_def o' demo_resolved demo_routing_def demo_try_u1 demo_try_u2 e)
qed

lemma demo_quiet: "quiet_reader demo"
  by (auto simp: quiet_reader_def demo_def iso_reader_def Let_def)

lemma demo_objects: "distinct_objects demo_routing"
  by (simp add: distinct_objects_def demo_routing_def demo_wallet_def)

lemma failover_keeps_vouchers_witness:
  "\<exists>r t payment vs. route_chat demo demo_outside [demo_entry ''u1'', demo_entry ''u2''] demo_options demo_routing = (Inr r, t) \<and>
     sent_vouchers payment = map (JObj \<circ> snd) vs \<and> holds demo_routing = map_option (\<lambda>m. mset vs + m) (holds t)"
  using failover_keeps_vouchers [OF demo_routed demo_quiet demo_objects] demo_routed by blast

lemma routed_answer_trusted_witness:
  "\<exists>e. receipt_proves demo e ''hello'' (JObj demo_receipt)"
  using routed_answer_trusted [OF demo_routed] by (auto simp: demo_options_def)

lemma rank_sorted_stable_witness:
  "\<exists>rs. rank_candidates (\<lambda>n. Inr (Fin (of_nat (n mod 2)))) [2, 1, 4, 3 :: nat] = Inr rs \<and> mset rs = mset [2, 1, 4, 3] \<and>
     filter (\<lambda>x. Inr (Fin (of_nat (x mod 2))) = Inr (Fin 0)) rs = [2, 4]"
proof -
  have run: "rank_candidates (\<lambda>n. Inr (Fin (of_nat (n mod 2)))) [2, 1, 4, 3 :: nat] = Inr [1, 3, 2, 4]" by code_simp
  from rank_sorted_stable [OF run, of "Fin 0"] run show ?thesis by auto
qed

lemma bad_price_ends_routing_witness:
  "try_all demo demo_outside demo_options (demo_entry ''u3'' # [demo_entry ''u2'']) [] demo_routing =
     (Inl (Escaped InvalidOperation), demo_routing\<lparr>world := 2\<rparr>)"
proof (rule bad_price_ends_routing)
  show "health_ok demo_outside (base_url (demo_entry ''u3'')) demo_routing = (Inr True, demo_routing\<lparr>world := 1\<rparr>)"
    by (simp add: health_ok_def exchange_def demo_outside_def demo_net_def demo_entry_def demo_routing_def abind_def aret_def safe_json_def getn_def)
  show "post_completion demo_outside demo_options (base_url (demo_entry ''u3'')) None (demo_routing\<lparr>world := 1\<rparr>) =
      (Inr (demo_402 ''abc''), demo_routing\<lparr>world := 2\<rparr>)"
    by (simp add: post_completion_def exchange_def demo_outside_def demo_net_def demo_entry_def demo_routing_def)
  show "safe_json (demo_402 ''abc'') = JObj [(''sip_payment_required'', JObj
     [(''price_amount'', JStr ''abc''), (''price_units'', JStr ''pic''), (''accepted_schemes'', JArr [JStr ''pic''])])]"
    by (simp add: safe_json_def demo_402_def)
  show "dec_of_str (py_str (getn [(''price_amount'', JStr ''abc''), (''price_units'', JStr ''pic''),
      (''accepted_schemes'', JArr [JStr ''pic''])] ''price_amount'')) = Inl InvalidOperation" by code_simp
  show "getn [(''price_amount'', JStr ''abc''), (''price_units'', JStr ''pic''),
      (''accepted_schemes'', JArr [JStr ''pic''])] ''accepted_schemes'' = JArr [JStr ''pic'']" by (simp add: getn_def)
  show "JStr ''pic'' \<in> set [JStr ''pic'']" by simp
  show "purse (demo_routing\<lparr>world := 2\<rparr>) = Some demo_wallet" by (simp add: demo_routing_def)
qed (simp_all add: demo_options_def demo_402_def getn_def)

end
