(* ===== verification/Discovery.thy ===== *)
theory Discovery
  imports Directory
begin

text \<open>
  What discovery guarantees, once for every directory: the locale \<open>verified_directory\<close>, its three
  interpretations, deduplication, and the round trip through the file directory.
\<close>

subsection \<open>Deduplication keeps the freshest\<close>

definition wanted :: "string option \<Rightarrow> discovered \<Rightarrow> bool" where
  "wanted model p \<longleftrightarrow> (case model of None \<Rightarrow> True | Some m \<Rightarrow> serves p m = Inr True)"

definition dedupe_inv :: "string option \<Rightarrow> discovered list \<Rightarrow> (string \<times> discovered) list \<Rightarrow> bool" where
  "dedupe_inv model seen fr \<longleftrightarrow> distinct (map fst fr) \<and>
     (\<forall>k p. dict_get fr k = Some p \<longrightarrow> p \<in> set seen \<and> d_pubkey p = Inr k \<and> wanted model p) \<and>
     (\<forall>q\<in>set seen. wanted model q \<longrightarrow>
        (\<exists>k p. d_pubkey q = Inr k \<and> dict_get fr k = Some p \<and> str_le (d_published_at q) (d_published_at p)))"

lemma dedupe_step:
  assumes "dedupe_inv model seen fr" "keep_freshest model p fr = Inr fr'"
  shows "dedupe_inv model (seen @ [p]) fr'"
proof -
  obtain w where w: "(case model of None \<Rightarrow> Inr True | Some m \<Rightarrow> serves p m) = Inr w"
    using assms(2) by (auto simp: keep_freshest_def rbind_eq_Inr)
  show ?thesis
  proof (cases w)
    case False
    then have "\<not> wanted model p" using w by (auto simp: wanted_def split: option.splits)
    moreover have "fr' = fr" using assms(2) w False by (simp add: keep_freshest_def)
    ultimately show ?thesis using assms(1) by (auto simp: dedupe_inv_def)
  next
    case True
    then have want: "wanted model p" using w by (auto simp: wanted_def split: option.splits)
    obtain key where key: "d_pubkey p = Inr key" using assms(2) w True by (auto simp: keep_freshest_def rbind_eq_Inr)
    have dist: "distinct (map fst (dict_set key p fr))" using assms(1) by (simp add: dedupe_inv_def distinct_update)
    have put: "dedupe_inv model (seen @ [p]) (dict_set key p fr)"
      if old: "\<And>e. dict_get fr key = Some e \<Longrightarrow> str_le (d_published_at e) (d_published_at p)"
      unfolding dedupe_inv_def
    proof (intro conjI allI impI ballI)
      show "distinct (map fst (dict_set key p fr))" by (rule dist)
      fix k e assume "dict_get (dict_set key p fr) k = Some e"
      then show "e \<in> set (seen @ [p])" "d_pubkey e = Inr k" "wanted model e"
        using assms(1) key want by (auto simp: dedupe_inv_def dict_simps split: if_splits)
    next
      fix q assume q: "q \<in> set (seen @ [p])" "wanted model q"
      show "\<exists>k e. d_pubkey q = Inr k \<and> dict_get (dict_set key p fr) k = Some e \<and> str_le (d_published_at q) (d_published_at e)"
      proof (cases "q \<in> set seen")
        case True
        then obtain k e where k: "d_pubkey q = Inr k" "dict_get fr k = Some e" "str_le (d_published_at q) (d_published_at e)"
          using assms(1) q(2) by (auto simp: dedupe_inv_def)
        then have "k = key \<Longrightarrow> str_le (d_published_at q) (d_published_at p)"
          using old str_order.le_trans by blast
        with k show ?thesis by (cases "k = key") (auto simp: dict_simps)
      next
        case False
        then show ?thesis using q key str_order.le_refl by (auto simp: dict_simps)
      qed
    qed
    show ?thesis
    proof (cases "dict_get fr key")
      case None
      then have "fr' = dict_set key p fr" using assms(2) w True key by (simp add: keep_freshest_def)
      then show ?thesis using put None by simp
    next
      case (Some e)
      show ?thesis
      proof (cases "str_less (d_published_at e) (d_published_at p)")
        case True
        then have "str_le (d_published_at e) (d_published_at p)" using str_order.le_total by (auto simp: str_less_def)
        moreover have "fr' = dict_set key p fr" using assms(2) w \<open>w\<close> key Some True by (simp add: keep_freshest_def)
        ultimately show ?thesis using put Some by simp
      next
        case False
        then have "str_le (d_published_at p) (d_published_at e)" by (simp add: str_less_def)
        moreover have "fr' = fr" using assms(2) w \<open>w\<close> key Some False by (simp add: keep_freshest_def)
        ultimately show ?thesis using assms(1) key Some by (auto simp: dedupe_inv_def)
      qed
    qed
  qed
qed

lemma dedupe_fold:
  "dedupe_inv model seen fr \<Longrightarrow> rfold (keep_freshest model) ps fr = Inr fr' \<Longrightarrow> dedupe_inv model (seen @ ps) fr'"
proof (induction ps arbitrary: seen fr)
  case (Cons p ps)
  then obtain fr1 where "keep_freshest model p fr = Inr fr1" "rfold (keep_freshest model) ps fr1 = Inr fr'"
    by (auto simp: rbind_eq_Inr)
  with Cons.IH [OF dedupe_step [OF Cons.prems(1)]] show ?case by fastforce
qed simp

lemma dedupe_result:
  assumes "filter_and_dedupe model ps = Inr out"
  shows "set out \<subseteq> set ps" "\<forall>p\<in>set out. wanted model p" "\<exists>keys. map d_pubkey out = map Inr keys \<and> distinct keys"
    and "\<forall>q\<in>set ps. wanted model q \<longrightarrow>
      (\<exists>p\<in>set out. d_pubkey p = d_pubkey q \<and> str_le (d_published_at q) (d_published_at p))"
proof -
  obtain fr where fr: "rfold (keep_freshest model) ps [] = Inr fr" "out = map snd fr"
    using assms by (auto simp: filter_and_dedupe_def rbind_eq_Inr)
  have "dedupe_inv model [] []" by (simp add: dedupe_inv_def)
  from dedupe_fold [OF this fr(1)] have inv: "dedupe_inv model ps fr" by simp
  then have d: "distinct (map fst fr)" by (simp add: dedupe_inv_def)
  have mem: "dict_get fr (fst x) = Some (snd x)" if "x \<in> set fr" for x
    using d that by (cases x) (simp add: map_of_eq_Some_iff)
  have all: "snd x \<in> set ps \<and> d_pubkey (snd x) = Inr (fst x) \<and> wanted model (snd x)" if "x \<in> set fr" for x
    using inv mem [OF that] unfolding dedupe_inv_def by blast
  show "set out \<subseteq> set ps" "\<forall>p\<in>set out. wanted model p" using all by (auto simp: fr(2))
  show "\<exists>keys. map d_pubkey out = map Inr keys \<and> distinct keys"
    using all d by (intro exI [of _ "map fst fr"]) (simp add: fr(2))
  show "\<forall>q\<in>set ps. wanted model q \<longrightarrow>
      (\<exists>p\<in>set out. d_pubkey p = d_pubkey q \<and> str_le (d_published_at q) (d_published_at p))"
  proof (intro ballI impI)
    fix q assume "q \<in> set ps" "wanted model q"
    then obtain k p where k: "d_pubkey q = Inr k" "dict_get fr k = Some p" "str_le (d_published_at q) (d_published_at p)"
      using inv by (auto simp: dedupe_inv_def)
    then have "(k, p) \<in> set fr" by (simp add: map_of_SomeD)
    with all [of "(k, p)"] k show "\<exists>p\<in>set out. d_pubkey p = d_pubkey q \<and> str_le (d_published_at q) (d_published_at p)"
      by (force simp: fr(2))
  qed
qed

subsection \<open>The contract of a directory\<close>

definition trusted :: "platform \<Rightarrow> discovered \<Rightarrow> bool" where
  "trusted P p \<longleftrightarrow> verify_provider_manifest P (d_manifest p) = Inr True \<and>
     getn (d_manifest p) ''manifest_uri'' = JStr (d_base_url p) \<and> d_base_url p \<noteq> []"

lemma admit_trusted: "admit P v = Inr (Some p) \<Longrightarrow> trusted P p \<and> v = JObj (d_manifest p)"
  by (auto simp: admit_def trusted_def rbind_eq_Inr split: option.splits if_splits)

lemma admit_all_trusted: "admit_all P vs = Inr ps \<Longrightarrow> \<forall>p\<in>set ps. trusted P p \<and> JObj (d_manifest p) \<in> set vs"
proof (induction vs arbitrary: ps)
  case Nil
  then show ?case by (simp add: admit_all_def List.map_filter_def)
next
  case (Cons v vs)
  then obtain o' ps' where a: "admit P v = Inr o'" "admit_all P vs = Inr ps'" "ps = List.map_filter id (o' # [])  @ ps'"
    by (auto simp: admit_all_def rbind_eq_Inr List.map_filter_def)
  with Cons.IH [OF a(2)] admit_trusted [of P v] show ?case by (cases o') (auto simp: List.map_filter_def)
qed

locale verified_directory =
  fixes P :: platform
    and announce :: "dict \<Rightarrow> string option \<Rightarrow> ('s, string) act"
    and discover :: "string option \<Rightarrow> ('s, discovered list) act"
  assumes announce_refused: "announceable P m url = Inl e \<Longrightarrow> announce m url s = (Inl e, s)"
    and discover_admits: "discover model s = (Inr ps, t) \<Longrightarrow> \<exists>found. (\<forall>p\<in>set found. trusted P p) \<and> filter_and_dedupe model found = Inr ps"
begin

lemma announce_guarded:
  assumes "announce m url s = (Inr ref, t)"
  shows "verify_provider_manifest P m = Inr True \<and> (\<exists>uri. getn m ''manifest_uri'' = JStr uri \<and> uri \<noteq> [] \<and> (url = None \<or> url = Some uri))"
proof -
  obtain uri where "announceable P m url = Inr uri"
    using announce_refused [of m url _ s] assms by (cases "announceable P m url") auto
  then show ?thesis
    by (auto simp: announceable_def require_verified_def signed_endpoint_def rbind_eq_Inr split: if_splits option.splits)
qed

lemma discover_sound:
  assumes "discover model s = (Inr ps, t)"
  shows "(\<forall>p\<in>set ps. trusted P p \<and> wanted model p) \<and> (\<exists>keys. map d_pubkey ps = map Inr keys \<and> distinct keys)"
proof -
  obtain found where f: "\<forall>p\<in>set found. trusted P p" "filter_and_dedupe model found = Inr ps"
    using discover_admits [OF assms] by blast
  from dedupe_result [OF f(2)] f(1) show ?thesis by blast
qed

end

lemma discover_among_found: "discover_among P model vs = Inr ps \<Longrightarrow>
  \<exists>found. (\<forall>p\<in>set found. trusted P p) \<and> filter_and_dedupe model found = Inr ps"
  using admit_all_trusted by (fastforce simp: discover_among_def rbind_eq_Inr)

interpretation file_dir: verified_directory P "file_announce P" "file_discover P" for P
proof
  show "announceable P m url = Inl e \<Longrightarrow> file_announce P m url s = (Inl e, s)" for m url e s
    by (simp add: file_announce_def)
  show "\<exists>found. (\<forall>p\<in>set found. trusted P p) \<and> filter_and_dedupe model found = Inr ps"
    if "file_discover P model s = (Inr ps, t)" for model s ps t
    using that by (intro discover_among_found) (auto simp: file_discover_def)
qed

interpretation http_dir: verified_directory P "http_announce P E base" "http_discover P E base" for P E base
proof
  show "announceable P m url = Inl e \<Longrightarrow> http_announce P E base m url s = (Inl e, s)" for m url e s
    by (simp add: http_announce_def abind_alift)
  show "\<exists>found. (\<forall>p\<in>set found. trusted P p) \<and> filter_and_dedupe model found = Inr ps"
    if "http_discover P E base model s = (Inr ps, t)" for model s ps t
    using that discover_among_found by (auto simp: http_discover_def abind_eq_Inr)
qed

lemma amap_admits:
  "amap (\<lambda>uri. abind (arweave_resolve loads A uri) (\<lambda>v. alift (admit P v))) uris s = (Inr found, t) \<Longrightarrow>
     \<forall>p\<in>set (List.map_filter id found). trusted P p"
proof (induction uris arbitrary: s found)
  case (Cons uri uris)
  then obtain v o' s1 found' where "admit P v = Inr o'" "found = o' # found'"
    "amap (\<lambda>uri. abind (arweave_resolve loads A uri) (\<lambda>v. alift (admit P v))) uris s1 = (Inr found', t)"
    by (auto simp: abind_eq_Inr)
  with Cons.IH admit_trusted [of P v] show ?case by (cases o') (auto simp: List.map_filter_def)
qed (simp add: List.map_filter_def)

interpretation arweave_dir: verified_directory P "arweave_announce P A" "arweave_discover P loads A query" for P A loads query
proof
  show "announceable P m url = Inl e \<Longrightarrow> arweave_announce P A m url s = (Inl e, s)" for m url e s
    by (simp add: arweave_announce_def abind_alift)
  show "\<exists>found. (\<forall>p\<in>set found. trusted P p) \<and> filter_and_dedupe model found = Inr ps"
    if "arweave_discover P loads A query model s = (Inr ps, t)" for model s ps t
    using that amap_admits by (fastforce simp: arweave_discover_def abind_eq_Inr split: option.splits)
qed

lemma rmap_stuck: "x \<in> set xs \<Longrightarrow> f x = Inl e \<Longrightarrow> \<exists>e'. rmap f xs = Inl e'"
proof (induction xs)
  case (Cons y ys)
  then show ?case by (cases "f y"; cases "x = y") auto
qed simp

subsection \<open>Properties\<close>

text \<open>C19. A hosted directory is not trusted: whatever the network answers, every provider a client discovers has a
  manifest with a valid schema and a valid signature by its own key, is reached at the signed
  \<^verbatim>\<open>manifest_uri\<close>, serves the model asked for, and is listed once per key.\<close>

theorem http_discover_verified:
  assumes "http_discover P E base model w = (Inr ps, w')"
  shows "(\<forall>p\<in>set ps. schema_accepts P ''provider_manifest'' (d_manifest p) \<and>
      verify_document P ''provider_pubkey'' (d_manifest p) = Inr True \<and>
      getn (d_manifest p) ''manifest_uri'' = JStr (d_base_url p) \<and> d_base_url p \<noteq> [] \<and>
      (\<forall>m. model = Some m \<longrightarrow> serves p m = Inr True)) \<and>
    (\<exists>keys. map d_pubkey ps = map Inr keys \<and> distinct keys)"
  using http_dir.discover_sound [OF assms]
  by (auto simp: trusted_def wanted_def verify_provider_manifest_def verify_checked_True)

text \<open>Deduplication keeps the freshest: what is kept was found, serves the model, and for every found provider
  that serves it an at least as fresh one with the same key is kept, one per key.\<close>

theorem dedupe_keeps_freshest:
  assumes "filter_and_dedupe model ps = Inr out"
  shows "set out \<subseteq> set ps \<and> (\<forall>p\<in>set out. wanted model p) \<and> (\<exists>keys. map d_pubkey out = map Inr keys \<and> distinct keys) \<and>
    (\<forall>q\<in>set ps. wanted model q \<longrightarrow>
      (\<exists>p\<in>set out. d_pubkey p = d_pubkey q \<and> str_le (d_published_at q) (d_published_at p)))"
  using dedupe_result [OF assms] by blast

text \<open>One manifest can stop discovery: if the answer contains a manifest that the schema accepts but that cannot
  be canonicalised (a NaN in a number field, which JSON parsers here let through), checking its signature
  raises and no provider is returned at all.\<close>

theorem hostile_manifest_stops_discovery:
  assumes "network E (rstrip_char CHR ''/'' base) \<lparr>verb = ''GET'', path = ''/directory/providers'', call_headers = [], call_json = None\<rparr> w =
      (Inr \<lparr>reply_status = 200, reply_json = Some (JObj [(''providers'', JArr vs)])\<rparr>, w')"
    and "JObj d \<in> set vs" "schema_accepts P ''provider_manifest'' d"
    and "getn d ''provider_pubkey'' = JStr key" "getn d ''signature'' = JStr sg"
    and "signing_bytes ''signature'' d = Inl ValueError"
  shows "\<exists>e. http_discover P E base None w = (Inl e, w')"
proof -
  have "verify_provider_manifest P d = Inl ValueError"
    using assms(3-6) by (simp add: verify_provider_manifest_def verify_checked_def schema_accepts_def verify_document_def)
  then have "admit P (JObj d) = Inl ValueError" by (simp add: admit_def)
  then obtain e where "rmap (admit P) vs = Inl e" using rmap_stuck [OF assms(2)] by blast
  then have "discover_among P None vs = Inl e" by (simp add: discover_among_def admit_all_def)
  then show ?thesis using assms(1)
    by (simp add: http_discover_def http_request_def abind_def checked_reply_def alift_def get_or_def)
qed

text \<open>The file directory keeps the last announcement, not the freshest manifest: announcing again an older
  manifest of a provider, which anyone who has seen it can do, replaces the newer one.\<close>

theorem stale_announcement_wins:
  assumes "file_announce P old url file = (Inr key, file')" "distinct (map fst (load_raw file))"
    and "dict_get (load_raw file) key = Some (JObj [(''manifest'', JObj new)])"
    and "str_less (d_published_at \<lparr>d_base_url = u, d_manifest = old\<rparr>) (d_published_at \<lparr>d_base_url = u, d_manifest = new\<rparr>)"
  shows "dict_get (load_raw file') key = Some (sort_keys (JObj [(''manifest'', JObj old)])) \<and> distinct (map fst (load_raw file'))"
proof -
  let ?rows = "dict_set key (JObj [(''manifest'', JObj old)]) (load_raw file)"
  have file': "file' = write_raw ?rows"
    using assms(1) by (auto simp: file_announce_def split: sum.splits)
  have "distinct (map fst ?rows)" by (rule distinct_update [OF assms(2)])
  from load_write [OF this] show ?thesis unfolding file' by (simp add: dict_simps)
qed

subsection \<open>Inputs\<close>

definition demo_draft :: "string \<Rightarrow> dict" where
  "demo_draft t = [(''provider_pubkey'', JStr (public_key_str demo (demo_key 3))), (''models'', JArr [JStr ''m'']),
     (''manifest_uri'', JStr ''http://u''), (''published_at'', JStr t)]"

definition demo_manifest :: "string \<Rightarrow> dict" where
  "demo_manifest t = (case sign_provider_manifest demo (demo_draft t) (demo_key 3) of Inl e \<Rightarrow> [] | Inr d \<Rightarrow> d)"

lemma demo_manifest_signed: "sign_document demo (demo_draft t) (demo_key 3) = Inr (demo_manifest t)"
proof -
  have "json_ok (JObj (demo_draft t))" by (simp add: demo_draft_def)
  then obtain d where "sign_document demo (demo_draft t) (demo_key 3) = Inr d" using sign_document_total by blast
  then show ?thesis by (simp add: demo_manifest_def sign_provider_manifest_def)
qed

lemma demo_manifest_get:
  "k \<noteq> ''signature'' \<Longrightarrow> dict_get (demo_manifest t) k = dict_get (demo_draft t) k"
  "\<exists>sg. dict_get (demo_manifest t) ''signature'' = Some (JStr sg)"
proof -
  obtain bs where d: "demo_manifest t = dict_set ''signature'' (JStr (sign_message demo (demo_key 3) bs)) (dict_without ''signature'' (demo_draft t))"
    using demo_manifest_signed unfolding sign_document_def Let_def rbind_eq_Inr by (metis sum.inject(2))
  show "\<exists>sg. dict_get (demo_manifest t) ''signature'' = Some (JStr sg)" unfolding d dict_get_set by simp
  show "k \<noteq> ''signature'' \<Longrightarrow> dict_get (demo_manifest t) k = dict_get (demo_draft t) k"
    by (rule sign_document_fields [OF demo_manifest_signed])
qed

lemma demo_manifest_verified: "verify_provider_manifest demo (demo_manifest t) = Inr True"
proof -
  have "getn (demo_draft t) ''provider_pubkey'' = JStr (public_key_str demo (demo_key 3))" by (simp add: demo_draft_def getn_def)
  then have "verify_document demo ''provider_pubkey'' (demo_manifest t) = Inr True"
    using sign_verify_document [OF demo_laws demo_manifest_signed] by simp
  moreover have "schema_accepts demo ''provider_manifest'' (demo_manifest t)"
  proof -
    obtain sg where sg: "dict_get (demo_manifest t) ''signature'' = Some (JStr sg)" using demo_manifest_get(2) by blast
    have "validator demo = demo_validator" by (simp add: demo_def)
    then show ?thesis by (simp add: schema_accepts_def demo_validator_def demo_members_def sg demo_manifest_get(1))
      (simp add: demo_draft_def)
  qed
  ultimately show ?thesis by (simp add: verify_provider_manifest_def verify_checked_True)
qed

lemma demo_manifest_fields:
  "getn (demo_manifest t) ''manifest_uri'' = JStr ''http://u''" "getn (demo_manifest t) ''published_at'' = JStr t"
  "getitem (demo_manifest t) ''provider_pubkey'' = Inr (JStr (public_key_str demo (demo_key 3)))"
  "get_or (demo_manifest t) ''published_at'' (JStr []) = JStr t"
  by (simp_all add: getn_def getitem_def get_or_def demo_manifest_get demo_draft_def)

definition demo_relay :: "json list \<Rightarrow> unit outside" where
  "demo_relay vs = \<lparr>network = (\<lambda>u c w. (Inr \<lparr>reply_status = 200, reply_json = Some (JObj [(''providers'', JArr vs)])\<rparr>, w)),
     clock = (\<lambda>_. 0), random_text = (\<lambda>w. ([], w))\<rparr>"

lemma demo_admit: "admit demo (JObj (demo_manifest t)) = Inr (Some \<lparr>d_base_url = ''http://u'', d_manifest = demo_manifest t\<rparr>)"
  by (simp add: admit_def demo_manifest_verified demo_manifest_fields)

lemma demo_admit_null: "admit demo JNull = Inr None"
  by (simp add: admit_def)

lemma demo_discovered:
  "http_discover demo (demo_relay [JObj (demo_manifest ''1''), JObj (demo_manifest ''2''), JNull]) ''r'' None () =
     (Inr [\<lparr>d_base_url = ''http://u'', d_manifest = demo_manifest ''2''\<rparr>], ())"
  by (simp add: http_discover_def http_request_def demo_relay_def checked_reply_def abind_def alift_def get_or_def discover_among_def
      admit_all_def demo_admit demo_admit_null List.map_filter_def filter_and_dedupe_def keep_freshest_def d_pubkey_def d_published_at_def
      demo_manifest_fields [unfolded get_or_def] demo_manifest_fields str_less_def str_le_def)

lemma http_discover_verified_witness:
  "verify_document demo ''provider_pubkey'' (demo_manifest ''2'') = Inr True"
  using http_discover_verified [OF demo_discovered] by simp

lemma dedupe_keeps_freshest_witness:
  "str_le ''1'' ''2''"
proof -
  let ?p = "\<lambda>t. \<lparr>d_base_url = ''u'', d_manifest = [(''provider_pubkey'', JStr ''k''), (''published_at'', JStr t)]\<rparr>"
  have "filter_and_dedupe None [?p ''1'', ?p ''2''] = Inr [?p ''2'']"
    by (simp add: filter_and_dedupe_def keep_freshest_def d_pubkey_def d_published_at_def getitem_def get_or_def str_less_def str_le_def)
  from dedupe_keeps_freshest [OF this] show ?thesis by (auto simp: wanted_def d_published_at_def get_or_def)
qed

definition demo_hostile :: dict where
  "demo_hostile = [(''provider_pubkey'', JStr ''k''), (''models'', JArr []), (''signature'', JStr ''s''), (''rate'', JFloat NaN)]"

lemma hostile_manifest_stops_discovery_witness:
  "\<exists>e. http_discover demo (demo_relay [JObj (demo_manifest ''1''), JObj demo_hostile]) ''r'' None () = (Inl e, ())"
proof (rule hostile_manifest_stops_discovery)
  show "network (demo_relay [JObj (demo_manifest ''1''), JObj demo_hostile]) (rstrip_char CHR ''/'' ''r'')
      \<lparr>verb = ''GET'', path = ''/directory/providers'', call_headers = [], call_json = None\<rparr> () =
      (Inr \<lparr>reply_status = 200, reply_json = Some (JObj [(''providers'', JArr [JObj (demo_manifest ''1''), JObj demo_hostile])])\<rparr>, ())"
    by (simp add: demo_relay_def)
  show "schema_accepts demo ''provider_manifest'' demo_hostile"
    by (simp add: schema_accepts_def demo_def demo_validator_def demo_members_def demo_hostile_def)
  show "signing_bytes ''signature'' demo_hostile = Inl ValueError"
    by (simp add: signing_bytes_def canonical_json_def demo_hostile_def dict_without_def key_le_def str_le_def)
  show "getn demo_hostile ''provider_pubkey'' = JStr ''k''" "getn demo_hostile ''signature'' = JStr ''s''"
    by (simp_all add: demo_hostile_def getn_def)
qed simp

lemma stale_announcement_wins_witness:
  "dict_get (load_raw (snd (file_announce demo (demo_manifest ''1'') None
      (Some (JObj [(public_key_str demo (demo_key 3), JObj [(''manifest'', JObj (demo_manifest ''2''))])])))))
     (public_key_str demo (demo_key 3)) = Some (sort_keys (JObj [(''manifest'', JObj (demo_manifest ''1''))]))"
proof -
  let ?file = "Some (JObj [(public_key_str demo (demo_key 3), JObj [(''manifest'', JObj (demo_manifest ''2''))])])"
  obtain file' where ann: "file_announce demo (demo_manifest ''1'') None ?file = (Inr (public_key_str demo (demo_key 3)), file')"
    by (simp add: file_announce_def announceable_def require_verified_def demo_manifest_verified signed_endpoint_def demo_manifest_fields)
  have d: "distinct (map fst (load_raw ?file))" and
    g: "dict_get (load_raw ?file) (public_key_str demo (demo_key 3)) = Some (JObj [(''manifest'', JObj (demo_manifest ''2''))])"
    by (simp_all add: load_raw_def)
  have "str_less (d_published_at \<lparr>d_base_url = [], d_manifest = demo_manifest ''1''\<rparr>) (d_published_at \<lparr>d_base_url = [], d_manifest = demo_manifest ''2''\<rparr>)"
    by (simp add: d_published_at_def demo_manifest_fields str_less_def str_le_def)
  from stale_announcement_wins [OF ann d g this] ann show ?thesis by simp
qed

end
