(* ===== verification/Proxy.thy ===== *)
theory Proxy
  imports Net Reputation Gateway Routing Discovery
begin

text \<open>
  \<^verbatim>\<open>apps/openai-proxy\<close>: the trust boundary that turns provider input into routing entries, the persisted
  configuration, the policy-filtered backend, and the OpenAI-compatible handlers over the router. The
  text of the warnings and errors that embeds another exception's message is left out.
\<close>

subsection \<open>sources.py\<close>

definition trusted_provider_entry :: "platform \<Rightarrow> dict \<Rightarrow> string option \<Rightarrow> bool \<Rightarrow> provider_entry res" where
  "trusted_provider_entry P m asserted require_safe_url =
     rbind (verify_provider_manifest P m) (\<lambda>good.
       if \<not> good then Inl (UntrustedProvider ''provider manifest signature is invalid'')
       else (case the_str (getn m ''manifest_uri'') of
          None \<Rightarrow> Inl (UntrustedProvider ''provider manifest has no manifest_uri to route to'')
        | Some uri \<Rightarrow>
            if uri = [] then Inl (UntrustedProvider ''provider manifest has no manifest_uri to route to'')
            else if asserted \<noteq> None \<and> asserted \<noteq> Some uri
            then Inl (UntrustedProvider (''base_url '' @ repr_str (the asserted) @ '' does not match the signed manifest_uri '' @
              repr_str uri @ ''; refusing to route''))
            else if require_safe_url \<and> \<not> is_safe_remote_url uri
            then Inl (UntrustedProvider (''manifest_uri '' @ repr_str uri @ '' is not a safe public endpoint''))
            else Inr \<lparr>base_url = uri, manifest = m\<rparr>))"

definition pubkey_of :: "provider_entry \<Rightarrow> string res" where
  "pubkey_of e = rbind (getitem (manifest e) ''provider_pubkey'') (\<lambda>v. Inr (py_str v))"

definition check_pinned :: "string \<Rightarrow> provider_entry \<Rightarrow> provider_entry \<Rightarrow> unit \<Rightarrow> unit res" where
  "check_pinned new_key new e _ =
     (if base_url e \<noteq> base_url new then Inr ()
      else rbind (pubkey_of e) (\<lambda>key. if key = new_key then Inr ()
        else Inl (UntrustedProvider (''endpoint '' @ repr_str (base_url new) @
          '' is already pinned to a different provider key; refusing to replace it''))))"

definition merge_provider :: "provider_entry list \<Rightarrow> provider_entry \<Rightarrow> provider_entry list res" where
  "merge_provider existing new =
     rbind (pubkey_of new) (\<lambda>new_key.
     rbind (rfold (check_pinned new_key new) existing ()) (\<lambda>_.
     rbind (rmap (\<lambda>e. rbind (pubkey_of e) (\<lambda>key. Inr (key \<noteq> new_key, e))) existing) (\<lambda>marked.
       Inr (map snd (filter fst marked) @ [new]))))"

text \<open>\<^verbatim>\<open>_try_add\<close> works on what is pinned so far and on the warnings.\<close>

record intake =
  pinned :: "provider_entry list"
  warnings :: "string list"

definition try_add :: "platform \<Rightarrow> bool \<Rightarrow> string \<Rightarrow> dict \<times> string option \<Rightarrow> intake \<Rightarrow> intake res" where
  "try_add P require_safe_url name source st =
     (case rbind (trusted_provider_entry P (fst source) (snd source) require_safe_url) (merge_provider (pinned st)) of
        Inr kept \<Rightarrow> Inr (st\<lparr>pinned := kept\<rparr>)
      | Inl (UntrustedProvider msg) \<Rightarrow> Inr (st\<lparr>warnings := warnings st @ [''dropped '' @ name @ '': '' @ msg]\<rparr>)
      | Inl e \<Rightarrow> Inl e)"

text \<open>A directory as what \<^verbatim>\<open>discover()\<close> does; any exception becomes a warning.\<close>

fun add_directories ::
  "platform \<Rightarrow> (string \<Rightarrow> ('w, discovered list) act) \<Rightarrow> string list \<Rightarrow> intake \<Rightarrow> ('w, intake) act" where
  "add_directories P discover [] st = aret st"
| "add_directories P discover (spec # specs) st = (\<lambda>w. case discover spec w of
     (Inl e, w') \<Rightarrow> add_directories P discover specs
       (st\<lparr>warnings := warnings st @ [''directory '' @ repr_str spec @ '' unreachable'']\<rparr>) w'
   | (Inr found, w') \<Rightarrow>
       abind (alift (rfold (\<lambda>p. try_add P True (''directory provider '' @ d_base_url p) (d_manifest p, Some (d_base_url p))) found st))
         (add_directories P discover specs) w')"

subsection \<open>config.py\<close>

record local_use =
  lu_runtime :: string
  lu_model :: string

record app_config =
  providers :: "provider_entry list"
  directories :: "string list"
  api_key :: json
  cfg_token :: json
  onboarding_complete :: bool
  use_local :: "local_use option"

definition empty_config :: app_config where
  "empty_config = \<lparr>providers = [], directories = [], api_key = JNull, cfg_token = JNull, onboarding_complete = False, use_local = None\<rparr>"

definition local_use_to_json :: "local_use \<Rightarrow> json" where
  "local_use_to_json u = JObj [(''runtime'', JStr (lu_runtime u)), (''model'', JStr (lu_model u))]"

definition local_use_from_json :: "json \<Rightarrow> local_use res" where
  "local_use_from_json v = rbind (item v ''runtime'') (\<lambda>r. rbind (item v ''model'') (\<lambda>m.
     Inr \<lparr>lu_runtime = py_str r, lu_model = py_str m\<rparr>))"

definition config_to_json :: "app_config \<Rightarrow> dict" where
  "config_to_json c =
     [(''version'', JInt 1),
      (''providers'', JArr (map (\<lambda>e. JObj [(''base_url'', JStr (base_url e)), (''manifest'', JObj (manifest e))]) (providers c))),
      (''directories'', JArr (map JStr (directories c))), (''api_key'', api_key c), (''token'', cfg_token c),
      (''onboarding_complete'', JBool (onboarding_complete c)),
      (''local_use'', case use_local c of None \<Rightarrow> JNull | Some u \<Rightarrow> local_use_to_json u)]"

text \<open>\<^verbatim>\<open>dict(v)\<close> of a JSON value: an object is copied, an empty sequence gives the empty dictionary, and the pairs of a
  longer one are out of the model (no valid configuration has them) and fail like any other value.\<close>

definition py_dict :: "json \<Rightarrow> dict res" where
  "py_dict v = (case v of JObj d \<Rightarrow> Inr d | JArr [] \<Rightarrow> Inr [] | JStr [] \<Rightarrow> Inr [] | JArr _ \<Rightarrow> Inl TypeError | JStr _ \<Rightarrow> Inl ValueError
     | _ \<Rightarrow> Inl TypeError)"

definition provider_from_json :: "json \<Rightarrow> provider_entry res" where
  "provider_from_json p = rbind (item p ''base_url'') (\<lambda>u. rbind (item p ''manifest'') (\<lambda>m. rbind (py_dict m) (\<lambda>d.
     Inr \<lparr>base_url = py_str u, manifest = d\<rparr>)))"

definition config_from_json :: "dict \<Rightarrow> app_config res" where
  "config_from_json data =
     rbind (rbind (py_list (get_or data ''providers'' (JArr []))) (rmap provider_from_json)) (\<lambda>ps.
     rbind (py_list (get_or data ''directories'' (JArr []))) (\<lambda>dirs.
     rbind (let v = getn data ''local_use'' in if truthy v then rbind (local_use_from_json v) (\<lambda>u. Inr (Some u)) else Inr None) (\<lambda>use.
       Inr \<lparr>providers = ps, directories = map py_str dirs, api_key = getn data ''api_key'', cfg_token = getn data ''token'',
            onboarding_complete = truthy (get_or data ''onboarding_complete'' (JBool False)), use_local = use\<rparr>)))"

text \<open>The file: absent, unparseable, or its parsed content.\<close>

datatype config_file = Absent | Unparseable | Parsed json

definition load_config :: "config_file \<Rightarrow> app_config res" where
  "load_config file = (case file of Absent \<Rightarrow> Inr empty_config
     | Unparseable \<Rightarrow> Inl ValueError
     | Parsed v \<Rightarrow> (case the_obj v of None \<Rightarrow> Inl ValueError
         | Some data \<Rightarrow> (case config_from_json data of
             Inl e \<Rightarrow> Inl (if e \<in> {KeyError, TypeError} then ValueError else e)
           | Inr c \<Rightarrow> Inr c)))"

text \<open>
  \<^verbatim>\<open>save_config\<close> makes the directory and a temporary file in it, writes and syncs that, and puts it in place of
  the configuration. The disk may refuse each step: \<open>fails\<close> gives the exception it raises then. A refused save
  removes the temporary file, raises and leaves the configuration as it was. Nothing reads a temporary file, and
  whether one is there is not part of the state.
\<close>

definition rendered_config :: "app_config \<Rightarrow> config_file" where
  "rendered_config c = Parsed (sort_keys (JObj (config_to_json c)))"

datatype save_step = Make_directory | Make_temporary | Write_temporary | Replace_config | Remove_temporary

definition abandon_temporary :: "(save_step \<Rightarrow> exn option) \<Rightarrow> exn \<Rightarrow> exn" where
  "abandon_temporary fails e = (case fails Remove_temporary of None \<Rightarrow> e | Some e' \<Rightarrow> e')"

definition save_config :: "(save_step \<Rightarrow> exn option) \<Rightarrow> app_config \<Rightarrow> config_file \<Rightarrow> unit res \<times> config_file" where
  "save_config fails c file =
     (case fails Make_directory of Some e \<Rightarrow> (Inl e, file)
      | None \<Rightarrow> (case fails Make_temporary of Some e \<Rightarrow> (Inl e, file)
      | None \<Rightarrow> (case fails Write_temporary of Some e \<Rightarrow> (Inl (abandon_temporary fails e), file)
      | None \<Rightarrow> (case fails Replace_config of Some e \<Rightarrow> (Inl (abandon_temporary fails e), file)
      | None \<Rightarrow> (Inr (), rendered_config c)))))"

lemma save_config_cases:
  assumes "save_config fails c file = (r, file')"
  obtains (saved) "r = Inr ()" "file' = rendered_config c"
  | (failed) x e where "fails x = Some e" "r = Inl e" "file' = file"
  using assms by (auto simp: save_config_def abandon_temporary_def split: option.splits)

definition build_registry ::
  "platform \<Rightarrow> (string \<Rightarrow> ('w, discovered list) act) \<Rightarrow> app_config \<Rightarrow> ('w, registry \<times> string list) act" where
  "build_registry P discover c =
     abind (alift (rfold (\<lambda>e. try_add P True (''provider '' @ base_url e) (manifest e, Some (base_url e))) (providers c)
        \<lparr>pinned = [], warnings = []\<rparr>)) (\<lambda>st.
     abind (add_directories P discover (directories c) st) (\<lambda>st.
       aret (foldl (\<lambda>reg e. registry_add e reg) [] (pinned st), warnings st)))"

text \<open>\<^verbatim>\<open>_default_directory_for\<close>: an address with an HTTP scheme is a hosted directory, anything else a file.\<close>

definition default_directory_for ::
  "platform \<Rightarrow> 'w outside \<Rightarrow> (string \<Rightarrow> 'w \<Rightarrow> json_file) \<Rightarrow> string \<Rightarrow> ('w, discovered list) act" where
  "default_directory_for P E read_file spec =
     (if startswith spec ''http://'' \<or> startswith spec ''https://'' then http_discover P E spec None
      else (\<lambda>w. (fst (file_discover P None (read_file spec w)), w)))"

subsection \<open>local_use.py\<close>

record runtime_status =
  rs_name :: string
  rs_available :: bool
  rs_models :: "string list"

text \<open>An adapter's name, its probe and its model list.\<close>

record 'w detectable =
  da_name :: string
  da_available :: "('w, bool) act"
  da_models :: "('w, string list) act"

definition detect_one :: "'w detectable \<Rightarrow> ('w, runtime_status) act" where
  "detect_one a w =
     (case abind (da_available a) (\<lambda>up. abind (if up then da_models a else aret []) (\<lambda>ms. aret (up, ms))) w of
        (Inl e, w') \<Rightarrow> (Inr \<lparr>rs_name = da_name a, rs_available = False, rs_models = []\<rparr>, w')
      | (Inr (up, ms), w') \<Rightarrow> (Inr \<lparr>rs_name = da_name a, rs_available = up, rs_models = ms\<rparr>, w'))"

definition detect_runtimes :: "'w detectable list \<Rightarrow> ('w, runtime_status list) act" where
  "detect_runtimes adapters = amap detect_one adapters"

definition local_manifest :: "platform \<Rightarrow> string \<Rightarrow> string \<Rightarrow> keypair \<Rightarrow> string \<Rightarrow> int \<Rightarrow> int \<Rightarrow> dict res" where
  "local_manifest P model adapter kp host port now =
     sign_provider_manifest P (build_provider_manifest
       ((manifest_defaults (public_key_str P kp) [model] [adapter] ''test'' (utc_iso now))
         \<lparr>m_manifest_uri := Some (''http://'' @ host @ '':'' @ str_of_int port)\<rparr>)) kp"

record local_provider =
  lp_entry :: provider_entry
  lp_app :: "gateway_config \<times> gateway_state"
  lp_runtime :: string
  lp_model :: string

definition default_manifest_hash :: string where
  "default_manifest_hash = ''sha256:'' @ replicate 64 CHR ''0''"

text \<open>\<^verbatim>\<open>create_app\<close> with its defaults, for one model.\<close>

definition local_gateway :: "keypair \<Rightarrow> adapter \<Rightarrow> string \<Rightarrow> gateway_config" where
  "local_gateway kp adapter model =
     \<lparr>gw_keypair = kp, gw_adapter = adapter, allowed_models = [model], token = None, max_output_tokens = 512,
      max_input_chars = 100000, rate_limit = None, manifest_hash = default_manifest_hash, price_units = ''test'',
      input_per_1m = ''0'', output_per_1m = ''0'', gw_manifest = [], require_payment = False, pic_issuers = [],
      accept_schemes = [''pic'', ''x402'']\<rparr>"

definition front_local_model :: "platform \<Rightarrow> string \<Rightarrow> adapter \<Rightarrow> keypair \<Rightarrow> string \<Rightarrow> int \<Rightarrow> int \<Rightarrow> local_provider res" where
  "front_local_model P model adapter kp host port now =
     rbind (local_manifest P model (adapter_name adapter) kp host port now) (\<lambda>m.
     rbind (create_app P (local_gateway kp adapter model) (Some m) ''no_prompt_logging'' now None None) (\<lambda>app.
     rbind (trusted_provider_entry P m None False) (\<lambda>e.
       Inr \<lparr>lp_entry = e, lp_app = app, lp_runtime = adapter_name adapter, lp_model = model\<rparr>)))"

subsection \<open>app.py\<close>

record backend =
  be_registry :: registry
  be_token :: "string option"
  be_models :: "json list"

text \<open>\<^verbatim>\<open>sorted\<close> of a set of JSON values: text, or numbers; values of different kinds do not compare.\<close>

definition distinct_values :: "json list \<Rightarrow> json list" where
  "distinct_values vs = foldl (\<lambda>kept v. if list_ex (\<lambda>w. py_eq w v) kept then kept else kept @ [v]) [] vs"

definition sorted_values :: "json list \<Rightarrow> json list res" where
  "sorted_values vs = (let kept = distinct_values vs in
     if length kept \<le> 1 then Inr kept
     else if list_all (\<lambda>v. the_str v \<noteq> None) kept
     then Inr (isort_by (\<lambda>v w. str_le (the (the_str v)) (the (the_str w))) kept)
     else if list_all (\<lambda>v. num_of v \<noteq> None) kept
     then Inr (isort_by (\<lambda>v w. \<not> flt (the (num_of w)) (the (num_of v))) kept)
     else Inl TypeError)"

definition build_backend ::
  "platform \<Rightarrow> policy option \<Rightarrow> (string \<Rightarrow> pyfloat option) option \<Rightarrow> string option \<Rightarrow> registry \<Rightarrow> backend res" where
  "build_backend P pol get_score tok reg =
     rbind (case pol of None \<Rightarrow> Inr reg | Some p \<Rightarrow> filter_entries P p manifest get_score reg) (\<lambda>es.
     rbind (rmap (\<lambda>e. rbind (py_list (get_or (manifest e) ''models'' (JArr []))) (\<lambda>ms.
         if list_all hashable ms then Inr ms else Inl TypeError)) es) (\<lambda>mss.
     rbind (sorted_values (concat mss)) (\<lambda>models.
       Inr \<lparr>be_registry = foldl (\<lambda>reg e. registry_add e reg) [] es, be_token = tok, be_models = models\<rparr>)))"

text \<open>A request as the schema hands it over.\<close>

record proxy_message =
  pm_role :: string
  pm_content :: json

record proxy_request =
  pr_model :: string
  pr_messages :: "proxy_message list"
  pr_max_tokens :: "int option"
  pr_stream :: bool

definition text_of :: "json \<Rightarrow> string" where
  "text_of v = (case v of JNull \<Rightarrow> [] | JStr s \<Rightarrow> s
     | JArr parts \<Rightarrow> concat (map (\<lambda>p. case the_obj p of None \<Rightarrow> []
         | Some d \<Rightarrow> if getn d ''type'' = JStr ''text'' then py_str (get_or d ''text'' (JStr [])) else []) parts)
     | _ \<Rightarrow> [])"

definition usage :: "dict \<Rightarrow> json res" where
  "usage receipt = rbind (py_int (get_or receipt ''input_tokens'' (JInt 0))) (\<lambda>i.
     rbind (py_int (get_or receipt ''output_tokens'' (JInt 0))) (\<lambda>out.
       Inr (JObj [(''prompt_tokens'', JInt i), (''completion_tokens'', JInt out), (''total_tokens'', JInt (i + out))])))"

datatype answer =
    Reply int json
  | Stream "json option list"

definition openai_error :: "string \<Rightarrow> string \<Rightarrow> int \<Rightarrow> answer" where
  "openai_error message kind code = Reply code (JObj [(''error'', JObj [(''message'', JStr message), (''type'', JStr kind)])])"

definition authorized :: "string option \<Rightarrow> string option \<Rightarrow> bool" where
  "authorized key header = (case key of None \<Rightarrow> True
     | Some k \<Rightarrow> (case partition_char CHR '' '' (case header of None \<Rightarrow> [] | Some h \<Rightarrow> h) of (sch, _, presented) \<Rightarrow>
         py_lower sch = ''bearer'' \<and> utf8 presented = utf8 k))"

definition proxy_healthz :: "backend \<Rightarrow> answer" where
  "proxy_healthz be = Reply 200 (JObj [(''status'', JStr ''ok''), (''models'', JArr (be_models be))])"

definition list_models :: "string option \<Rightarrow> backend \<Rightarrow> string option \<Rightarrow> answer" where
  "list_models key be header =
     (if \<not> authorized key header then openai_error ''missing or invalid API key'' ''unauthorized'' 401
      else Reply 200 (JObj [(''object'', JStr ''list''), (''data'', JArr (map (\<lambda>m. JObj
        [(''id'', m), (''object'', JStr ''model''), (''created'', JInt 0), (''owned_by'', JStr ''sovereign-inference'')]) (be_models be)))]))"

definition chunk :: "string \<Rightarrow> int \<Rightarrow> string \<Rightarrow> dict \<Rightarrow> json \<Rightarrow> json" where
  "chunk cid created model delta finish = JObj
     [(''id'', JStr cid), (''object'', JStr ''chat.completion.chunk''), (''created'', JInt created), (''model'', JStr model),
      (''choices'', JArr [JObj [(''index'', JInt 0), (''delta'', JObj delta), (''finish_reason'', finish)]])]"

text \<open>The events of the stream, the last one being \<^verbatim>\<open>[DONE]\<close>.\<close>

definition sse :: "string \<Rightarrow> int \<Rightarrow> string \<Rightarrow> string \<Rightarrow> json option list" where
  "sse cid created model text =
     [Some (chunk cid created model [(''role'', JStr ''assistant'')] JNull),
      Some (chunk cid created model [(''content'', JStr text)] JNull),
      Some (chunk cid created model [] (JStr ''stop'')), None]"

definition completion :: "string \<Rightarrow> int \<Rightarrow> string \<Rightarrow> route_result \<Rightarrow> dict \<Rightarrow> json \<Rightarrow> json" where
  "completion cid created model r receipt use = JObj
     [(''id'', JStr cid), (''object'', JStr ''chat.completion''), (''created'', JInt created), (''model'', JStr model),
      (''choices'', JArr [JObj [(''index'', JInt 0),
         (''message'', JObj [(''role'', JStr ''assistant''), (''content'', JStr (rr_content r))]), (''finish_reason'', JStr ''stop'')]]),
      (''usage'', use),
      (''sip'', JObj [(''provider_pubkey'', rr_provider_pubkey r), (''base_url'', JStr (rr_base_url r)),
         (''receipt_verified'', JBool True), (''receipt'', JObj receipt)])]"

definition options_for :: "backend \<Rightarrow> int \<Rightarrow> string \<Rightarrow> proxy_request \<Rightarrow> chat_options" where
  "options_for be default_max request_id r =
     \<lparr>c_token = be_token be, c_request_id = request_id, c_model = pr_model r,
      c_messages = map (\<lambda>m. JObj [(''role'', JStr (pm_role m)), (''content'', JStr (text_of (pm_content m)))]) (pr_messages r),
      c_max_tokens = (case pr_max_tokens r of None \<Rightarrow> default_max | Some n \<Rightarrow> if n = 0 then default_max else n),
      c_privacy_mode = ''direct'', verify_receipts = True, get_quote = False, max_providers = None, c_weights = None,
      x402_keypair = None\<rparr>"

text \<open>The handler, given the random ids and the time it reads.\<close>

definition proxy_chat ::
  "platform \<Rightarrow> 'w outside \<Rightarrow> string option \<Rightarrow> int \<Rightarrow> backend \<Rightarrow> string \<Rightarrow> string \<Rightarrow> int \<Rightarrow> string option \<Rightarrow> proxy_request \<Rightarrow>
   ('w routing, answer) act" where
  "proxy_chat P E key default_max be request_id fresh created header r s =
     (if \<not> authorized key header then (Inr (openai_error ''missing or invalid API key'' ''unauthorized'' 401), s)
      else case route_chat P E (be_registry be) (options_for be default_max request_id r) s of
        (Inl (NoProviderAvailable _ _), s') \<Rightarrow>
          (Inr (openai_error (''no provider available for model '' @ repr_str (pr_model r)) ''no_provider'' 502), s')
      | (Inl (Escaped e), s') \<Rightarrow> (Inl e, s')
      | (Inr result, s') \<Rightarrow>
          (if pr_stream r then Inr (Stream (sse (''chatcmpl-'' @ fresh) created (pr_model r) (rr_content result)))
           else (case the_obj (rr_receipt result) of None \<Rightarrow> Inl AttributeError
             | Some receipt \<Rightarrow> rbind (usage receipt) (\<lambda>u.
                 Inr (Reply 200 (completion (''chatcmpl-'' @ fresh) created (pr_model r) result receipt u)))), s'))"

subsection \<open>The registry\<close>

text \<open>An entry that may be routed to: verified, at its signed address, which is public.\<close>

definition routable :: "platform \<Rightarrow> provider_entry \<Rightarrow> bool" where
  "routable P e \<longleftrightarrow> schema_accepts P ''provider_manifest'' (manifest e) \<and>
     verify_document P ''provider_pubkey'' (manifest e) = Inr True \<and>
     getn (manifest e) ''manifest_uri'' = JStr (base_url e) \<and> is_safe_remote_url (base_url e)"

definition pins :: "platform \<Rightarrow> provider_entry list \<Rightarrow> bool" where
  "pins P es \<longleftrightarrow> (\<forall>e\<in>set es. routable P e) \<and> distinct (map pubkey_of es) \<and> distinct (map base_url es)"

lemma trusted_entry_routable: "trusted_provider_entry P m a True = Inr e \<Longrightarrow> routable P e"
  by (auto simp: trusted_provider_entry_def rbind_eq_Inr routable_def verify_provider_manifest_def verify_checked_True
      split: if_splits option.splits)

lemma check_all: "rfold (check_pinned k new) es () = Inr u \<Longrightarrow> \<forall>e\<in>set es. base_url e = base_url new \<longrightarrow> pubkey_of e = Inr k"
  by (induction es) (auto simp: rbind_eq_Inr check_pinned_def split: if_splits)

lemma merge_pins:
  assumes "merge_provider es new = Inr es'" "pins P es" "routable P new"
  shows "pins P es'"
proof -
  obtain k marked where k: "pubkey_of new = Inr k"
    and chk: "rfold (check_pinned k new) es () = Inr ()"
    and m: "rmap (\<lambda>e. rbind (pubkey_of e) (\<lambda>key. Inr (key \<noteq> k, e))) es = Inr marked"
    and es': "es' = map snd (filter fst marked) @ [new]"
    using assms(1) by (auto simp: merge_provider_def rbind_eq_Inr)
  have kept: "map snd (filter fst marked) = filter (\<lambda>e. pubkey_of e \<noteq> Inr k) es"
    using m by (induction es arbitrary: marked) (auto simp: rbind_eq_Inr)
  have es': "es' = filter (\<lambda>e. pubkey_of e \<noteq> Inr k) es @ [new]" using es' kept by simp
  show ?thesis using assms(2,3) k check_all [OF chk] unfolding es' pins_def by (auto intro: distinct_map_filter)
qed

lemma try_add_pins:
  assumes "try_add P True name source st = Inr st'" "pins P (pinned st)"
  shows "pins P (pinned st')"
proof (cases "rbind (trusted_provider_entry P (fst source) (snd source) True) (merge_provider (pinned st))")
  case (Inr kept)
  then obtain e where "trusted_provider_entry P (fst source) (snd source) True = Inr e" "merge_provider (pinned st) e = Inr kept"
    by (auto simp: rbind_eq_Inr)
  then have "pins P kept" using merge_pins assms(2) trusted_entry_routable by blast
  then show ?thesis using assms(1) Inr by (auto simp: try_add_def)
next
  case (Inl x)
  then show ?thesis using assms by (cases x) (auto simp: try_add_def)
qed

lemma rfold_pins:
  "rfold (\<lambda>p. try_add P True (name p) (source p)) ps st = Inr st' \<Longrightarrow> pins P (pinned st) \<Longrightarrow> pins P (pinned st')"
  by (induction ps arbitrary: st) (auto simp: rbind_eq_Inr intro: try_add_pins)

lemma add_directories_pins:
  "add_directories P discover specs st w = (Inr st', w') \<Longrightarrow> pins P (pinned st) \<Longrightarrow> pins P (pinned st')"
proof (induction specs arbitrary: st w)
  case (Cons spec specs)
  obtain r w1 where d: "discover spec w = (r, w1)" by fastforce
  show ?case
  proof (cases r)
    case (Inl e)
    then show ?thesis using Cons d by simp
  next
    case (Inr found)
    then obtain st1 where st1: "rfold (\<lambda>p. try_add P True (''directory provider '' @ d_base_url p) (d_manifest p, Some (d_base_url p))) found st = Inr st1"
      and go: "add_directories P discover specs st1 w1 = (Inr st', w')"
      using Cons.prems(1) d by (auto simp: abind_alift split: sum.splits)
    show ?thesis by (rule Cons.IH [OF go rfold_pins [OF st1 Cons.prems(2)]])
  qed
qed simp

lemma registry_adds: "foldl (\<lambda>reg e. registry_add e reg) reg es = reg @ es"
  by (induction es arbitrary: reg) (simp_all add: registry_add_def)

subsection \<open>What a plain reply proves\<close>

definition shown_receipt :: "json \<Rightarrow> json" where
  "shown_receipt v = (case v of JObj d \<Rightarrow> (case getn d ''sip'' of JObj sip \<Rightarrow> getn sip ''receipt'' | _ \<Rightarrow> JNull) | _ \<Rightarrow> JNull)"

lemma proxied_served:
  assumes "proxy_chat P E key n be rid fresh created header r s = (Inr (Reply 200 v), t)"
  obtains e said receipt q w where "authorized key header" "e \<in> set (be_registry be)"
    "str_in (pr_model r) (get_or (manifest e) ''models'' (JArr [])) = Inr True"
    "extract_content v = Some said" "receipt_proves P e said (JObj receipt)" "shown_receipt v = JObj receipt"
    "serve P E (options_for be n rid r) e w = (Inr (Served said (JObj receipt) q), t)"
proof -
  obtain result where auth: "authorized key header"
    and run: "route_chat P E (be_registry be) (options_for be n rid r) s = (Inr result, t)"
    and out: "(if pr_stream r then Inr (Stream (sse (''chatcmpl-'' @ fresh) created (pr_model r) (rr_content result)))
           else (case the_obj (rr_receipt result) of None \<Rightarrow> Inl AttributeError
             | Some receipt \<Rightarrow> rbind (usage receipt) (\<lambda>u.
                 Inr (Reply 200 (completion (''chatcmpl-'' @ fresh) created (pr_model r) result receipt u))))) = Inr (Reply 200 v)"
    using assms by (auto simp: proxy_chat_def openai_error_def split: if_splits prod.splits sum.splits route_error.splits)
  obtain receipt u where rec: "rr_receipt result = JObj receipt" and v: "v = completion (''chatcmpl-'' @ fresh) created (pr_model r) result receipt u"
    using out by (auto simp: rbind_eq_Inr split: if_splits option.splits)
  obtain e w where e: "e \<in> set (be_registry be)" "str_in (pr_model r) (get_or (manifest e) ''models'' (JArr [])) = Inr True"
    "serve P E (options_for be n rid r) e w = (Inr (Served (rr_content result) (rr_receipt result) (rr_quote result)), t)"
    using run by (auto simp: options_for_def elim: routed_candidate)
  have "receipt_proves P e (rr_content result) (JObj receipt)"
    using serve_served [OF e(3)] rec by (simp add: options_for_def)
  moreover have "extract_content v = Some (rr_content result)" "shown_receipt v = JObj receipt"
    by (simp_all add: v completion_def extract_content_def shown_receipt_def getn_def)
  ultimately show ?thesis using auth e unfolding rec by (intro that)
qed

lemma proxied_receipt:
  assumes "proxy_chat P E key n be rid fresh created header r s = (Inr (Reply 200 v), t)"
  obtains e said receipt where "authorized key header" "e \<in> set (be_registry be)"
    "str_in (pr_model r) (get_or (manifest e) ''models'' (JArr [])) = Inr True"
    "extract_content v = Some said" "receipt_proves P e said (JObj receipt)"
    "case v of JObj o' \<Rightarrow> (case getn o' ''sip'' of JObj sip \<Rightarrow> getn sip ''receipt'' = JObj receipt | _ \<Rightarrow> False) | _ \<Rightarrow> False"
proof -
  obtain e said receipt q w where e: "authorized key header" "e \<in> set (be_registry be)"
    "str_in (pr_model r) (get_or (manifest e) ''models'' (JArr [])) = Inr True"
    "extract_content v = Some said" "receipt_proves P e said (JObj receipt)" "shown_receipt v = JObj receipt"
    by (rule proxied_served [OF assms])
  then show ?thesis by (intro that) (auto simp: shown_receipt_def split: json.splits)
qed

subsection \<open>Properties\<close>


text \<open>A manifest as the file holds it.\<close>

definition filed :: "dict \<Rightarrow> dict" where
  "filed d = isort_by key_le (map (\<lambda>(k, v). (k, sort_keys v)) d)"

text \<open>The configuration as a file gives it back.\<close>

definition refiled :: "app_config \<Rightarrow> app_config" where
  "refiled c = c\<lparr>providers := map (\<lambda>e. e\<lparr>manifest := filed (manifest e)\<rparr>) (providers c),
     api_key := sort_keys (api_key c), cfg_token := sort_keys (cfg_token c)\<rparr>"

text \<open>Saving the configuration and loading it again gives the same configuration, up to the order of the keys inside
  the manifests.\<close>

theorem config_roundtrip: "load_config (rendered_config c) = Inr (refiled c)"
proof -
  define ps where "ps = JArr (map (\<lambda>e. JObj [(''base_url'', JStr (base_url e)), (''manifest'', JObj (filed (manifest e)))]) (providers c))"
  have stored: "sort_keys (JObj (config_to_json c)) = JObj
      [(''api_key'', sort_keys (api_key c)), (''directories'', JArr (map JStr (directories c))),
       (''local_use'', case use_local c of None \<Rightarrow> JNull | Some u \<Rightarrow> JObj [(''model'', JStr (lu_model u)), (''runtime'', JStr (lu_runtime u))]),
       (''onboarding_complete'', JBool (onboarding_complete c)), (''providers'', ps), (''token'', sort_keys (cfg_token c)), (''version'', JInt 1)]"
    by (simp add: config_to_json_def ps_def filed_def key_le_def str_le_def local_use_to_json_def o_def split: option.split)
  have "rmap provider_from_json (map (\<lambda>e. JObj [(''base_url'', JStr (base_url e)), (''manifest'', JObj (filed (manifest e)))]) es) =
      Inr (map (\<lambda>e. e\<lparr>manifest := filed (manifest e)\<rparr>) es)" for es :: "provider_entry list"
    by (induction es) (simp_all add: provider_from_json_def item_def getitem_def py_dict_def)
  then show ?thesis unfolding load_config_def rendered_config_def stored
    by (simp add: refiled_def config_from_json_def get_or_def getn_def ps_def local_use_from_json_def item_def getitem_def o_def split: option.split)
qed

text \<open>The text a client reads from an event of a stream.\<close>

definition delta_text :: "json option \<Rightarrow> string" where
  "delta_text event = (case Option.bind event the_obj of None \<Rightarrow> []
     | Some d \<Rightarrow> (case getn d ''choices'' of JArr (c # _) \<Rightarrow>
         (case attr_get c ''delta'' of Inr (JObj delta) \<Rightarrow> (case getn delta ''content'' of JStr s \<Rightarrow> s | _ \<Rightarrow> []) | _ \<Rightarrow> []) | _ \<Rightarrow> []))"

text \<open>Streaming changes only the framing: for the same request in the same state, the streamed deltas add up to the
  content of the plain reply, the stream ends with \<^verbatim>\<open>[DONE]\<close>, and the state left behind is the same.\<close>

theorem stream_same_content:
  assumes "proxy_chat P E key n be rid fresh created header (r\<lparr>pr_stream := True\<rparr>) s = (Inr (Stream events), t)"
    and "proxy_chat P E key n be rid fresh created header (r\<lparr>pr_stream := False\<rparr>) s = (Inr (Reply 200 v), t')"
  shows "extract_content v = Some (concat (map delta_text events)) \<and> last events = None \<and> t' = t"
proof -
  have same: "options_for be n rid (r\<lparr>pr_stream := b\<rparr>) = options_for be n rid r" for b
    by (simp add: options_for_def)
  obtain result where run: "route_chat P E (be_registry be) (options_for be n rid r) s = (Inr result, t)"
    and ev: "events = sse (''chatcmpl-'' @ fresh) created (pr_model r) (rr_content result)"
    using assms(1) by (auto simp: proxy_chat_def same openai_error_def split: if_splits prod.splits sum.splits route_error.splits)
  obtain receipt u where "v = completion (''chatcmpl-'' @ fresh) created (pr_model r) result receipt u" "t' = t"
    using assms(2) run by (auto simp: proxy_chat_def same openai_error_def rbind_eq_Inr split: if_splits option.splits sum.splits)
  then show ?thesis
    by (simp add: ev sse_def chunk_def delta_text_def completion_def extract_content_def getn_def attr_get_def)
qed

text \<open>C23. From the policy to the answer: a plain reply with content was authorised and comes from a registered provider that
  the policy permits and that lists the model, with a receipt signed by that provider's key over exactly the
  content the client reads. Without the API key nothing is routed and the state is unchanged.\<close>

theorem proxied_answer_permitted:
  assumes "build_backend P (Some pol) get_score tok reg = Inr be"
    and "proxy_chat P E key n be rid fresh created header r s = (Inr (Reply 200 v), t)"
  shows "authorized key header \<and> (\<exists>e\<in>set reg. \<exists>d text receipt.
    permits P pol (manifest e) (score_for get_score (manifest e)) = Inr d \<and> permitted d \<and>
    str_in (pr_model r) (get_or (manifest e) ''models'' (JArr [])) = Inr True \<and>
    extract_content v = Some text \<and> receipt_proves P e text (JObj receipt) \<and>
    (case v of JObj o' \<Rightarrow> (case getn o' ''sip'' of JObj sip \<Rightarrow> getn sip ''receipt'' = JObj receipt | _ \<Rightarrow> False) | _ \<Rightarrow> False))"
proof -
  obtain es where es: "filter_entries P pol manifest get_score reg = Inr es" and be: "be_registry be = es"
    using assms(1) by (auto simp: build_backend_def rbind_eq_Inr registry_adds)
  obtain e said receipt where e: "authorized key header" "e \<in> set es"
    "str_in (pr_model r) (get_or (manifest e) ''models'' (JArr [])) = Inr True"
    "extract_content v = Some said" "receipt_proves P e said (JObj receipt)"
    "case v of JObj o' \<Rightarrow> (case getn o' ''sip'' of JObj sip \<Rightarrow> getn sip ''receipt'' = JObj receipt | _ \<Rightarrow> False) | _ \<Rightarrow> False"
    using assms(2) unfolding be [symmetric] by (rule proxied_receipt)
  moreover obtain d where "e \<in> set reg" "permits P pol (manifest e) (score_for get_score (manifest e)) = Inr d" "permitted d"
    using e(2) unfolding filter_entries_eq [OF es] by auto
  ultimately show ?thesis by blast
qed

text \<open>The guard decides on the spelling: it admits names of the loopback interface that resolvers accept (a trailing
  dot, short, decimal and hexadecimal IPv4 forms) and the metadata address \<^verbatim>\<open>100.100.100.200\<close>, which the standard
  library does not count as private.\<close>

theorem guard_gaps:
  "list_all is_safe_remote_url [''http://localhost./'', ''http://127.1/'', ''http://2130706433/'', ''http://0x7f000001/'',
     ''http://100.100.100.200/''] \<and> \<not> is_safe_remote_url ''http://localhost/'' \<and> \<not> is_safe_remote_url ''http://127.0.0.1/''"
  by code_simp

text \<open>On dotted addresses both guards are exact: with an optional port, path, query or fragment, an HTTP address is
  admitted if and only if it is outside the private, loopback, link-local, reserved, multicast and unspecified ranges.\<close>

theorem guard_exact_on_dotted:
  assumes "octet a" "octet b" "octet c" "octet d" "port_text p" "rest_text r" "sch \<in> {''http'', ''https''}"
  shows "is_safe_remote_url (sch @ ''://'' @ dotted a b c d @ p @ r) = (\<not> internal4 (quad a b c d)) \<and>
    is_safe_forward_url (sch @ ''://'' @ dotted a b c d @ p @ r) = (\<not> internal4 (quad a b c d))"
  using guard_on_dotted [OF assms] by blast

subsection \<open>Inputs\<close>

definition open_policy :: policy where
  "open_policy = \<lparr>require_attestation = False, accepted_tee_types = [], accepted_units = [], max_input_per_1m = None,
     max_output_per_1m = None, required_privacy_modes = [], allow_providers = [], deny_providers = [''evil''], min_reputation = None\<rparr>"

definition demo_backend :: backend where
  "demo_backend = \<lparr>be_registry = [demo_entry ''u2''], be_token = None, be_models = [JStr ''m'']\<rparr>"

lemma demo_key_allowed: "public_key_str demo (demo_key 3) \<noteq> ''evil''"
  by code_simp

lemma demo_backend_built: "build_backend demo (Some open_policy) None None [demo_entry ''u2''] = Inr demo_backend"
  by (simp add: build_backend_def filter_entries_def permits_def Let_def open_policy_def demo_entry_def getn_def get_or_def reject_if_def
      and_then_def in_str_set_def over_cap_def reputation_low_def sorted_values_def distinct_values_def demo_backend_def registry_add_def demo_key_allowed)

definition demo_ask :: proxy_request where
  "demo_ask = \<lparr>pr_model = ''m'', pr_messages = [], pr_max_tokens = None, pr_stream = False\<rparr>"

lemma fdiv_total: "\<not> fle t (Fin 0) \<Longrightarrow> \<exists>q. fdiv a t = Inr q"
  by (cases t; cases a) auto

lemma demo_default_score: "\<exists>x. score_provider None (Some ''direct'') (Some ''m'') None (demo_entry url) = Inr x"
proof -
  have "\<exists>x. anchored 2000 (Fin 4000) = Inr x" "\<exists>x. anchored 100 (Fin 0) = Inr x"
    by (simp_all add: anchored_def fmax_def to_float_numeral)
  then show ?thesis using fdiv_total
    by (auto simp: score_provider_def Let_def model_fit_score_def latency_score_def effective_ms_def price_score_def
        privacy_score_def demo_entry_def float_get_def get_or_def getn_def py_or_def to_float_numeral)
qed

text \<open>A provider with one model that answers both calls of a routed request.\<close>

lemma served_by:
  assumes c: "c_model c = ''m''" "c_privacy_mode c = ''direct''" "c_weights c = None" "max_providers c = None" "verify_receipts c" "\<not> get_quote c"
    and score: "score_provider None (Some ''direct'') (Some ''m'') None e = Inr x"
    and models: "get_or (manifest e) ''models'' (JArr []) = JArr [JStr ''m'']"
    and key: "getitem (manifest e) ''provider_pubkey'' = Inr (JStr (public_key_str demo (demo_key 3)))"
    and rec: "receipt_trusted demo (JObj demo_receipt) e ''hello'' = Inr True"
    and health: "\<And>call w. path call = ''/sip/v1/health'' \<Longrightarrow>
      network E (base_url e) call w = (Inr \<lparr>reply_status = 200, reply_json = Some (JObj [(''status'', JStr ''ok'')])\<rparr>, w + 1)"
    and chat: "\<And>call. path call \<noteq> ''/sip/v1/health'' \<Longrightarrow>
      network E (base_url e) call (n + 1) = (Inr \<lparr>reply_status = 200, reply_json = Some (JObj demo_body)\<rparr>, n + 2)"
  shows "route_chat demo E [e] c \<lparr>world = n, purse = None\<rparr> =
    (Inr \<lparr>rr_content = ''hello'', rr_receipt = JObj demo_receipt, rr_provider_pubkey = JStr (public_key_str demo (demo_key 3)),
        rr_base_url = base_url e, rr_quote = None, rr_attempts = [(base_url e, ''ok'')]\<rparr>, \<lparr>world = n + 2, purse = None\<rparr>)"
proof -
  have res: "resolve demo [e] ''m'' (Some ''direct'') None False = Inr [e]"
    using score models by (simp add: resolve_def for_model_def rank_candidates_def)
  have "demo_receipt \<noteq> []" using demo_receipt_fields(1) by (auto simp: getn_def)
  then have jd: "judge demo E c e None None
      \<lparr>reply_status = 200, reply_json = Some (JObj demo_body)\<rparr> st = (Inr (Served ''hello'' (JObj demo_receipt) None), st)" for st
    using rec demo_extract c(5)
    by (simp add: judge_def safe_json_def Let_def abind_def alift_def py_or_def demo_body_def getn_def [of "[_, _]"])
  have "try_candidate demo E c e \<lparr>world = n, purse = None\<rparr> =
      (Inr (Served ''hello'' (JObj demo_receipt) None), \<lparr>world = n + 2, purse = None\<rparr>)"
    using c(6) jd health chat
    by (simp add: try_candidate_def serve_def complete_def post_completion_def health_ok_def exchange_def
        abind_def aret_def safe_json_def getn_def)
  then show ?thesis using c(1-4) res key by (simp add: route_chat_def)
qed

lemma demo_served:
  assumes "c_model c = ''m''" "c_privacy_mode c = ''direct''" "c_weights c = None" "max_providers c = None" "verify_receipts c" "\<not> get_quote c"
  shows "route_chat demo demo_outside [demo_entry ''u2''] c \<lparr>world = 3, purse = None\<rparr> =
    (Inr \<lparr>rr_content = ''hello'', rr_receipt = JObj demo_receipt, rr_provider_pubkey = JStr (public_key_str demo (demo_key 3)),
        rr_base_url = ''u2'', rr_quote = None, rr_attempts = [(''u2'', ''ok'')]\<rparr>, \<lparr>world = 5, purse = None\<rparr>)"
proof -
  obtain x where x: "score_provider None (Some ''direct'') (Some ''m'') None (demo_entry ''u2'') = Inr x" using demo_default_score by blast
  have "route_chat demo demo_outside [demo_entry ''u2''] c \<lparr>world = 3, purse = None\<rparr> =
    (Inr \<lparr>rr_content = ''hello'', rr_receipt = JObj demo_receipt, rr_provider_pubkey = JStr (public_key_str demo (demo_key 3)),
        rr_base_url = base_url (demo_entry ''u2''), rr_quote = None, rr_attempts = [(base_url (demo_entry ''u2''), ''ok'')]\<rparr>,
      \<lparr>world = 3 + 2, purse = None\<rparr>)"
    by (rule served_by [OF assms x _ _ demo_receipt_trusted])
      (simp_all add: demo_entry_def get_or_def getitem_def demo_outside_def demo_net_def)
  then show ?thesis by (simp add: demo_entry_def)
qed

lemma demo_usage: "usage demo_receipt = Inr (JObj [(''prompt_tokens'', JInt 1), (''completion_tokens'', JInt 1), (''total_tokens'', JInt 2)])"
proof -
  have "dict_get demo_receipt k = dict_get (build_receipt demo_args) k" if "k \<noteq> ''signature''" for k
    using sign_document_fields [OF demo_receipt_signed [unfolded sign_receipt_def] that] .
  then have "get_or demo_receipt ''input_tokens'' (JInt 0) = JInt 1" "get_or demo_receipt ''output_tokens'' (JInt 0) = JInt 1"
    by (simp_all add: get_or_def build_receipt_def demo_args_def optional_field_def)
  then show ?thesis by (simp add: usage_def)
qed

definition demo_result :: route_result where
  "demo_result = \<lparr>rr_content = ''hello'', rr_receipt = JObj demo_receipt, rr_provider_pubkey = JStr (public_key_str demo (demo_key 3)),
     rr_base_url = ''u2'', rr_quote = None, rr_attempts = [(''u2'', ''ok'')]\<rparr>"

lemma demo_asked:
  "proxy_chat demo demo_outside None 512 demo_backend ''r'' ''f'' 0 None demo_ask \<lparr>world = 3, purse = None\<rparr> =
     (Inr (Reply 200 (completion ''chatcmpl-f'' 0 ''m'' demo_result demo_receipt
        (JObj [(''prompt_tokens'', JInt 1), (''completion_tokens'', JInt 1), (''total_tokens'', JInt 2)]))), \<lparr>world = 5, purse = None\<rparr>)"
  "proxy_chat demo demo_outside None 512 demo_backend ''r'' ''f'' 0 None (demo_ask\<lparr>pr_stream := True\<rparr>) \<lparr>world = 3, purse = None\<rparr> =
     (Inr (Stream (sse ''chatcmpl-f'' 0 ''m'' ''hello'')), \<lparr>world = 5, purse = None\<rparr>)"
proof -
  have "be_registry demo_backend = [demo_entry ''u2'']" by (simp add: demo_backend_def)
  moreover have "route_chat demo demo_outside [demo_entry ''u2''] (options_for demo_backend 512 ''r'' (demo_ask\<lparr>pr_stream := b\<rparr>))
      \<lparr>world = 3, purse = None\<rparr> = (Inr demo_result, \<lparr>world = 5, purse = None\<rparr>)" for b
    unfolding demo_result_def by (rule demo_served) (simp_all add: options_for_def demo_ask_def)
  from this [of True] this [of False]
  have "route_chat demo demo_outside [demo_entry ''u2''] (options_for demo_backend 512 ''r'' demo_ask)
      \<lparr>world = 3, purse = None\<rparr> = (Inr demo_result, \<lparr>world = 5, purse = None\<rparr>)"
    "route_chat demo demo_outside [demo_entry ''u2''] (options_for demo_backend 512 ''r'' (demo_ask\<lparr>pr_stream := True\<rparr>))
      \<lparr>world = 3, purse = None\<rparr> = (Inr demo_result, \<lparr>world = 5, purse = None\<rparr>)"
    by (simp_all add: demo_ask_def)
  ultimately show
    "proxy_chat demo demo_outside None 512 demo_backend ''r'' ''f'' 0 None demo_ask \<lparr>world = 3, purse = None\<rparr> =
     (Inr (Reply 200 (completion ''chatcmpl-f'' 0 ''m'' demo_result demo_receipt
        (JObj [(''prompt_tokens'', JInt 1), (''completion_tokens'', JInt 1), (''total_tokens'', JInt 2)]))), \<lparr>world = 5, purse = None\<rparr>)"
    "proxy_chat demo demo_outside None 512 demo_backend ''r'' ''f'' 0 None (demo_ask\<lparr>pr_stream := True\<rparr>) \<lparr>world = 3, purse = None\<rparr> =
     (Inr (Stream (sse ''chatcmpl-f'' 0 ''m'' ''hello'')), \<lparr>world = 5, purse = None\<rparr>)"
    by (simp_all add: proxy_chat_def authorized_def demo_usage) (simp_all add: demo_ask_def demo_result_def demo_usage)
qed

lemma proxied_answer_permitted_witness:
  "\<exists>e\<in>set [demo_entry ''u2'']. receipt_proves demo e ''hello'' (JObj demo_receipt)"
  using proxied_answer_permitted [OF demo_backend_built demo_asked(1)]
  by (auto simp: completion_def extract_content_def getn_def demo_result_def)

lemma stream_same_content_witness:
  "concat (map delta_text (sse ''chatcmpl-f'' 0 ''m'' ''hello'')) = ''hello''"
proof -
  have "demo_ask\<lparr>pr_stream := False\<rparr> = demo_ask" by (simp add: demo_ask_def)
  then have "proxy_chat demo demo_outside None 512 demo_backend ''r'' ''f'' 0 None (demo_ask\<lparr>pr_stream := False\<rparr>) \<lparr>world = 3, purse = None\<rparr> =
     (Inr (Reply 200 (completion ''chatcmpl-f'' 0 ''m'' demo_result demo_receipt
        (JObj [(''prompt_tokens'', JInt 1), (''completion_tokens'', JInt 1), (''total_tokens'', JInt 2)]))), \<lparr>world = 5, purse = None\<rparr>)"
    using demo_asked(1) by simp
  from stream_same_content [OF demo_asked(2) this] show ?thesis
    by (simp add: completion_def extract_content_def getn_def demo_result_def)
qed

definition demo_config :: app_config where
  "demo_config = empty_config\<lparr>providers := [\<lparr>base_url = ''http://u'', manifest = demo_manifest ''1''\<rparr>,
     \<lparr>base_url = ''http://v'', manifest = demo_manifest ''1''\<rparr>], directories := [''d'']\<rparr>"

lemma demo_remote_safe: "is_safe_remote_url ''http://u''"
  by code_simp

lemma demo_registry_built:
  "\<exists>warned. build_registry demo (\<lambda>spec w. (Inl OSError, w)) demo_config () =
     (Inr ([\<lparr>base_url = ''http://u'', manifest = demo_manifest ''1''\<rparr>], warned), ())"
  by (simp add: build_registry_def demo_config_def empty_config_def try_add_def trusted_provider_entry_def demo_manifest_verified
      demo_manifest_fields demo_remote_safe merge_provider_def pubkey_of_def abind_def alift_def aret_def registry_add_def)


lemma guard_exact_on_dotted_witness:
  "\<not> is_safe_remote_url (''http'' @ ''://'' @ dotted 10 0 0 7 @ '':80'' @ ''/v1'')"
proof -
  have "internal4 (quad 10 0 0 7)" by code_simp
  then show ?thesis
    using guard_exact_on_dotted [of 10 0 0 7 "'':80''" "''/v1''" "''http''"] by (simp add: octet_def port_text_def rest_text_def is_digit_def)
qed

end
