(* ===== verification/Server.thy ===== *)
theory Server
  imports Proxy
begin

text \<open>
  \<^verbatim>\<open>apps/openai-proxy/server.py\<close>: the desktop app server. One state holds the configuration, the file it is saved in,
  the model fronted locally and the routing backend; the admin requests change the configuration, save it and
  rebuild the backend, and the OpenAI surface answers from the backend of the moment. A save may fail
  (\<open>svc_disk\<close>), and then the request raises with the new configuration in memory and the old one in the file. The services the server is
  given (the hardware scan, the recommender, the catalog, the runtime detection, the start of a local model, the
  directories) are functions; so is the in-process transport to the local gateway. Validation of the request
  bodies is their type, and the messages that quote another exception leave its text out.
\<close>

subsection \<open>Starting a local model\<close>

record 'w node_runtime = "'w detectable" +
  nr_chat :: "string \<Rightarrow> json list \<Rightarrow> int \<Rightarrow> chat_result res"

record 'w machine =
  installed :: "'w node_runtime list"
  generate_key :: "'w \<Rightarrow> keypair \<times> 'w"
  wall_clock :: "'w \<Rightarrow> int"

definition local_host :: string where
  "local_host = ''127.0.0.1''"

definition local_port :: int where
  "local_port = 11434"

definition default_start_local :: "platform \<Rightarrow> 'w machine \<Rightarrow> string \<Rightarrow> string \<Rightarrow> ('w, local_provider) act" where
  "default_start_local P M runtime model =
     (case find (\<lambda>a. da_name a = runtime) (installed M) of
        None \<Rightarrow> alift (Inl (NodeError (''no installed runtime named '' @ repr_str runtime)))
      | Some a \<Rightarrow> abind (da_available a) (\<lambda>up.
          if \<not> up then alift (Inl (NodeError (''runtime '' @ repr_str runtime @ '' is not available'')))
          else (\<lambda>w. case generate_key M w of (kp, w') \<Rightarrow>
            (front_local_model P model \<lparr>adapter_name = da_name a, adapter_chat = nr_chat a\<rparr> kp local_host local_port (wall_clock M w'), w'))))"

subsection \<open>The state\<close>

record 'w services =
  svc_start_local :: "string \<Rightarrow> string \<Rightarrow> ('w, local_provider) act"
  svc_directory_for :: "string \<Rightarrow> ('w, discovered list) act"
  svc_admin_token :: "string option"
  svc_detect :: "('w, runtime_status list) act"
  svc_scan :: "('w, json) act"
  svc_catalog :: "json list res"
  svc_recommend :: "json \<Rightarrow> string \<Rightarrow> bool \<Rightarrow> int \<Rightarrow> json list res"
  svc_version :: string
  svc_adapters :: "string list"
  svc_disk :: "'w \<Rightarrow> save_step \<Rightarrow> exn option"

record 'w server =
  sv_config :: app_config
  sv_local :: "local_provider option"
  restore_warning :: "string option"
  build_warnings :: "string list"
  sv_backend :: backend
  saved_file :: config_file
  sv_world :: 'w

definition on_world :: "('w, 'a) act \<Rightarrow> ('w server, 'a) act" where
  "on_world f s = (case f (sv_world s) of (r, w) \<Rightarrow> (r, s\<lparr>sv_world := w\<rparr>))"

text \<open>\<^verbatim>\<open>_client_factory\<close>: the local provider's address is served in the process, every other over HTTP.\<close>

datatype connection = In_process "gateway_config \<times> gateway_state" | Over_http string

definition client_factory :: "local_provider option \<Rightarrow> string \<Rightarrow> connection" where
  "client_factory fronted url = (case fronted of
     Some l \<Rightarrow> if url = base_url (lp_entry l) then In_process (lp_app l) else Over_http url
   | None \<Rightarrow> Over_http url)"

definition restore_local :: "'w services \<Rightarrow> 'w server \<Rightarrow> 'w server" where
  "restore_local V s = (case use_local (sv_config s) of
     None \<Rightarrow> s\<lparr>restore_warning := None, sv_local := None\<rparr>
   | Some u \<Rightarrow> (case svc_start_local V (lu_runtime u) (lu_model u) (sv_world s) of
       (Inl e, w) \<Rightarrow> s\<lparr>sv_local := None, sv_world := w,
          restore_warning := Some (''local model '' @ repr_str (lu_model u) @ '' could not be restored'')\<rparr>
     | (Inr l, w) \<Rightarrow> s\<lparr>sv_local := Some l, sv_world := w, restore_warning := None\<rparr>))"

definition token_of :: "json \<Rightarrow> string option" where
  "token_of v = (if truthy v then Some (py_str v) else None)"

definition rebuild :: "platform \<Rightarrow> 'w services \<Rightarrow> ('w server, unit) act" where
  "rebuild P V s =
     abind (on_world (build_registry P (svc_directory_for V) (sv_config s))) (\<lambda>(reg, warned) s.
       case build_backend P None None (token_of (cfg_token (sv_config s)))
              (case sv_local s of None \<Rightarrow> reg | Some l \<Rightarrow> registry_add (lp_entry l) reg) of
         Inl e \<Rightarrow> (Inl e, s)
       | Inr be \<Rightarrow> (Inr (), s\<lparr>sv_backend := be, build_warnings := warned\<rparr>)) s"

text \<open>\<^verbatim>\<open>__init__\<close>\<close>

definition boot :: "platform \<Rightarrow> 'w services \<Rightarrow> config_file \<Rightarrow> 'w \<Rightarrow> 'w server res" where
  "boot P V file w = rbind (load_config file) (\<lambda>c.
     case rebuild P V (restore_local V \<lparr>sv_config = c, sv_local = None, restore_warning = None, build_warnings = [],
         sv_backend = \<lparr>be_registry = [], be_token = None, be_models = []\<rparr>, saved_file = file, sv_world = w\<rparr>) of
       (Inl e, _) \<Rightarrow> Inl e
     | (Inr _, s) \<Rightarrow> Inr s)"

definition server_warnings :: "'w server \<Rightarrow> string list" where
  "server_warnings s = (case restore_warning s of None \<Rightarrow> [] | Some m \<Rightarrow> [m]) @ build_warnings s"

definition persist :: "'w services \<Rightarrow> ('w server, unit) act" where
  "persist V s = (case save_config (svc_disk V (sv_world s)) (sv_config s) (saved_file s) of (r, file) \<Rightarrow> (r, s\<lparr>saved_file := file\<rparr>))"

definition snapshot_provider :: "provider_entry \<Rightarrow> json res" where
  "snapshot_provider e = rbind (getitem (manifest e) ''provider_pubkey'') (\<lambda>k.
     Inr (JObj [(''provider_pubkey'', k), (''base_url'', JStr (base_url e)), (''models'', get_or (manifest e) ''models'' (JArr []))]))"

definition snapshot :: "'w server \<Rightarrow> json res" where
  "snapshot s = rbind (rmap snapshot_provider (providers (sv_config s))) (\<lambda>ps.
     Inr (JObj [(''onboarding_complete'', JBool (onboarding_complete (sv_config s))), (''providers'', JArr ps),
       (''directories'', JArr (map JStr (directories (sv_config s)))), (''models'', JArr (be_models (sv_backend s))),
       (''local_use'', case use_local (sv_config s) of None \<Rightarrow> JNull | Some u \<Rightarrow> local_use_to_json u),
       (''warnings'', JArr (map JStr (server_warnings s)))]))"

subsection \<open>The admin requests\<close>

definition http_error :: "int \<Rightarrow> string \<Rightarrow> answer" where
  "http_error code message = Reply code (JObj [(''detail'', JStr message)])"

definition ok_json :: "json res \<Rightarrow> ('w server, answer) act" where
  "ok_json r s = (rbind r (\<lambda>v. Inr (Reply 200 v)), s)"

definition show_state :: "('w server, answer) act" where
  "show_state s = ok_json (snapshot s) s"

text \<open>
  The tail of every mutation: the new configuration, saved, the backend rebuilt, the new state shown. A save that
  fails raises; the new configuration stays in memory, the file and the backend are the old ones.
\<close>

definition commit_config :: "platform \<Rightarrow> 'w services \<Rightarrow> app_config \<Rightarrow> ('w server, answer) act" where
  "commit_config P V c s = abind (persist V) (\<lambda>_. abind (rebuild P V) (\<lambda>_. show_state)) (s\<lparr>sv_config := c\<rparr>)"

definition complete_onboarding :: "platform \<Rightarrow> 'w services \<Rightarrow> ('w server, answer) act" where
  "complete_onboarding P V s = commit_config P V ((sv_config s)\<lparr>onboarding_complete := True\<rparr>) s"

definition add_provider :: "platform \<Rightarrow> 'w services \<Rightarrow> dict \<Rightarrow> string option \<Rightarrow> ('w server, answer) act" where
  "add_provider P V m url s =
     (case rbind (trusted_provider_entry P m url True) (merge_provider (providers (sv_config s))) of
        Inl (UntrustedProvider msg) \<Rightarrow> (Inr (http_error 400 msg), s)
      | Inl e \<Rightarrow> (Inl e, s)
      | Inr merged \<Rightarrow> commit_config P V ((sv_config s)\<lparr>providers := merged\<rparr>) s)"

definition remove_provider :: "platform \<Rightarrow> 'w services \<Rightarrow> string \<Rightarrow> ('w server, answer) act" where
  "remove_provider P V key s = commit_config P V
     ((sv_config s)\<lparr>providers := filter (\<lambda>e. getn (manifest e) ''provider_pubkey'' \<noteq> JStr key) (providers (sv_config s))\<rparr>) s"

definition add_directory :: "platform \<Rightarrow> 'w services \<Rightarrow> string \<Rightarrow> ('w server, answer) act" where
  "add_directory P V spec s =
     (if (startswith spec ''http://'' \<or> startswith spec ''https://'') \<and> \<not> is_safe_remote_url spec
      then (Inr (http_error 400 (''directory URL '' @ repr_str spec @ '' is not a safe public endpoint'')), s)
      else if spec \<notin> set (directories (sv_config s))
      then commit_config P V ((sv_config s)\<lparr>directories := directories (sv_config s) @ [spec]\<rparr>) s
      else show_state s)"

definition remove_directory :: "platform \<Rightarrow> 'w services \<Rightarrow> string \<Rightarrow> ('w server, answer) act" where
  "remove_directory P V spec s =
     (if spec \<in> set (directories (sv_config s))
      then commit_config P V ((sv_config s)\<lparr>directories := filter (\<lambda>d. d \<noteq> spec) (directories (sv_config s))\<rparr>) s
      else show_state s)"

definition start_local_use :: "platform \<Rightarrow> 'w services \<Rightarrow> string \<Rightarrow> string \<Rightarrow> ('w server, answer) act" where
  "start_local_use P V runtime model s =
     (case svc_start_local V runtime model (sv_world s) of
        (Inl e, w) \<Rightarrow> (Inr (http_error 400 ''could not start local model''), s\<lparr>sv_world := w\<rparr>)
      | (Inr l, w) \<Rightarrow> commit_config P V ((sv_config s)\<lparr>use_local := Some \<lparr>lu_runtime = runtime, lu_model = model\<rparr>\<rparr>)
          (s\<lparr>sv_local := Some l, sv_world := w\<rparr>))"

definition stop_local_use :: "platform \<Rightarrow> 'w services \<Rightarrow> ('w server, answer) act" where
  "stop_local_use P V s = commit_config P V ((sv_config s)\<lparr>use_local := None\<rparr>) (s\<lparr>sv_local := None\<rparr>)"

datatype admin_request =
    Health | Status | Scan | Catalog | Recommend string bool int | Runtimes | Get_config | Complete_onboarding
  | Add_provider dict "string option" | Remove_provider string
  | Add_directory string | Remove_directory string
  | Start_local string string | Stop_local

definition recommend_query :: "'w services \<Rightarrow> string \<Rightarrow> bool \<Rightarrow> int \<Rightarrow> ('w server, answer) act" where
  "recommend_query V task commercial top_k =
     (if top_k < 1 \<or> 50 < top_k then aret (http_error 422 ''top'')
      else abind (on_world (svc_scan V)) (\<lambda>profile.
        ok_json (rbind (svc_recommend V profile task commercial top_k) (\<lambda>recs. Inr (JArr recs)))))"

definition runtimes_query :: "'w services \<Rightarrow> ('w server, answer) act" where
  "runtimes_query V = abind (on_world (svc_detect V)) (\<lambda>found. ok_json (Inr (JArr (map (\<lambda>st.
     JObj [(''name'', JStr (rs_name st)), (''available'', JBool (rs_available st)), (''models'', jstrs (rs_models st))]) found))))"

text \<open>The router, with the token that every route but the health check requires.\<close>

definition token_ok :: "string option \<Rightarrow> string option \<Rightarrow> bool" where
  "token_ok required header = (case required of None \<Rightarrow> True
     | Some t \<Rightarrow> utf8 (case header of None \<Rightarrow> [] | Some h \<Rightarrow> h) = utf8 t)"

definition dispatch :: "platform \<Rightarrow> 'w services \<Rightarrow> admin_request \<Rightarrow> ('w server, answer) act" where
  "dispatch P V req = (case req of
     Health \<Rightarrow> aret (Reply 200 (JObj [(''status'', JStr ''ok''), (''version'', JStr (svc_version V))]))
   | Status \<Rightarrow> aret (Reply 200 (JObj [(''version'', JStr (svc_version V)), (''adapters'', jstrs (svc_adapters V))]))
   | Scan \<Rightarrow> abind (on_world (svc_scan V)) (\<lambda>profile. ok_json (Inr profile))
   | Catalog \<Rightarrow> ok_json (rbind (svc_catalog V) (\<lambda>ms. Inr (JArr ms)))
   | Recommend task commercial top_k \<Rightarrow> recommend_query V task commercial top_k
   | Runtimes \<Rightarrow> runtimes_query V
   | Get_config \<Rightarrow> show_state
   | Complete_onboarding \<Rightarrow> complete_onboarding P V
   | Add_provider m url \<Rightarrow> add_provider P V m url
   | Remove_provider key \<Rightarrow> remove_provider P V key
   | Add_directory spec \<Rightarrow> add_directory P V spec
   | Remove_directory spec \<Rightarrow> remove_directory P V spec
   | Start_local runtime model \<Rightarrow> start_local_use P V runtime model
   | Stop_local \<Rightarrow> stop_local_use P V)"

definition admin :: "platform \<Rightarrow> 'w services \<Rightarrow> string option \<Rightarrow> admin_request \<Rightarrow> ('w server, answer) act" where
  "admin P V header req =
     (if req \<noteq> Health \<and> \<not> token_ok (svc_admin_token V) header then aret (http_error 401 ''missing or invalid admin token'')
      else dispatch P V req)"

text \<open>The OpenAI surface: requests to the local address reach the gateway in the process.\<close>

definition server_outside ::
  "'w outside \<Rightarrow> (gateway_config \<times> gateway_state \<Rightarrow> http_call \<Rightarrow> 'w \<Rightarrow> http_reply res \<times> 'w) \<Rightarrow> 'w server \<Rightarrow> 'w outside" where
  "server_outside E in_process s = E\<lparr>network := (\<lambda>url. case client_factory (sv_local s) url of
     In_process app \<Rightarrow> in_process app | Over_http u \<Rightarrow> network E u)\<rparr>"

definition server_chat ::
  "platform \<Rightarrow> 'w outside \<Rightarrow> (gateway_config \<times> gateway_state \<Rightarrow> http_call \<Rightarrow> 'w \<Rightarrow> http_reply res \<times> 'w) \<Rightarrow> string option \<Rightarrow>
   string \<Rightarrow> string \<Rightarrow> int \<Rightarrow> string option \<Rightarrow> proxy_request \<Rightarrow> ('w server, answer) act" where
  "server_chat P E in_process key request_id fresh created header r s =
     (case proxy_chat P (server_outside E in_process s) key 512 (sv_backend s) request_id fresh created header r
         \<lparr>world = sv_world s, purse = None\<rparr> of
       (res, t) \<Rightarrow> (res, s\<lparr>sv_world := world t\<rparr>))"

definition watch_parent_once :: "(int \<Rightarrow> bool) \<Rightarrow> ('w \<Rightarrow> 'w) \<Rightarrow> int \<Rightarrow> 'w \<Rightarrow> bool \<times> 'w" where
  "watch_parent_once is_alive on_dead pid w = (if is_alive pid then (True, w) else (False, on_dead w))"

subsection \<open>What a step may change\<close>

definition local_address :: string where
  "local_address = ''http://127.0.0.1:11434''"

lemma local_address_unsafe: "\<not> is_safe_remote_url local_address"
  by code_simp

lemma default_start_address:
  fixes M :: "'w machine"
  assumes "default_start_local P M runtime model w = (Inr l, w')"
  shows "base_url (lp_entry l) = local_address"
proof -
  have port: "''http://'' @ local_host @ '':'' @ str_of_int local_port = local_address"
    by code_simp
  obtain a kp n where "front_local_model P model a kp local_host local_port n = Inr l"
  proof -
    obtain a :: "'w node_runtime" and u where "(case generate_key M u of (kp, w') \<Rightarrow> (front_local_model P model
        \<lparr>adapter_name = da_name a, adapter_chat = nr_chat a\<rparr> kp local_host local_port (wall_clock M w'), w')) = (Inr l, w')"
      using assms by (auto simp: default_start_local_def abind_eq_Inr split: option.splits if_splits)
    then show thesis by (cases "generate_key M u") (auto intro: that)
  qed
  then obtain m where m: "local_manifest P model (adapter_name a) kp local_host local_port n = Inr m"
    and e: "trusted_provider_entry P m None False = Inr (lp_entry l)"
    by (auto simp: front_local_model_def rbind_eq_Inr)
  have "getn m ''manifest_uri'' = JStr (''http://'' @ local_host @ '':'' @ str_of_int local_port)"
    using sign_document_fields [OF m [unfolded local_manifest_def sign_provider_manifest_def], of "''manifest_uri''"]
    by (simp add: getn_def build_provider_manifest_def optional_field_def dict_simps)
  moreover have "getn m ''manifest_uri'' = JStr (base_url (lp_entry l))"
    using e by (auto simp: trusted_provider_entry_def rbind_eq_Inr split: option.splits if_splits) (metis provider_entry.select_convs(1))
  ultimately show ?thesis using port by simp
qed

text \<open>
  What a step keeps: the pinned configuration, the warning of the start, and the address of the model fronted in the
  process. What an action leaves of the backend: the old one, or one whose entries are verified or the fronted model.
\<close>

definition evolves :: "platform \<Rightarrow> 'w server \<Rightarrow> 'w server \<Rightarrow> bool" where
  "evolves P s t \<longleftrightarrow> (pins P (providers (sv_config s)) \<longrightarrow> pins P (providers (sv_config t))) \<and>
     restore_warning t = restore_warning s"

definition local_at_home :: "'w server \<Rightarrow> bool" where
  "local_at_home s \<longleftrightarrow> (\<forall>l. sv_local s = Some l \<longrightarrow> base_url (lp_entry l) = local_address)"

definition starts_at_home :: "'w services \<Rightarrow> bool" where
  "starts_at_home V \<longleftrightarrow> (\<forall>runtime model w l w'. svc_start_local V runtime model w = (Inr l, w') \<longrightarrow> base_url (lp_entry l) = local_address)"

definition known_entry :: "platform \<Rightarrow> 'w server \<Rightarrow> provider_entry \<Rightarrow> bool" where
  "known_entry P s e \<longleftrightarrow> routable P e \<or> (\<exists>l. sv_local s = Some l \<and> e = lp_entry l)"

definition backend_known :: "platform \<Rightarrow> 'w server \<Rightarrow> bool" where
  "backend_known P s \<longleftrightarrow> (\<forall>e\<in>set (be_registry (sv_backend s)). known_entry P s e)"

lemma backend_known_same: "sv_backend t = sv_backend s \<Longrightarrow> sv_local t = sv_local s \<Longrightarrow> backend_known P t = backend_known P s"
  by (simp add: backend_known_def known_entry_def)

definition rebuilds :: "platform \<Rightarrow> 'w server \<Rightarrow> 'w server \<Rightarrow> bool" where
  "rebuilds P s t \<longleftrightarrow> sv_local t = sv_local s \<and> (sv_backend t = sv_backend s \<or> backend_known P t)"

text \<open>What an action does to the file: nothing changes, or the new configuration is in it, or the disk failed.\<close>

definition file_effect :: "'w services \<Rightarrow> 'w server \<Rightarrow> 'a res \<Rightarrow> 'w server \<Rightarrow> bool" where
  "file_effect V s r t \<longleftrightarrow> sv_config t = sv_config s \<and> saved_file t = saved_file s \<or>
     saved_file t = rendered_config (sv_config t) \<or>
     saved_file t = saved_file s \<and> (\<exists>x e. svc_disk V (sv_world t) x = Some e \<and> r = Inl e)"

definition same_config :: "'w server \<Rightarrow> 'w server \<Rightarrow> bool" where
  "same_config s t \<longleftrightarrow> sv_config t = sv_config s \<and> saved_file t = saved_file s"

interpretation evolution: state_preorder "evolves P" for P
  by unfold_locales (auto simp: evolves_def)

interpretation rebuilding: state_preorder "rebuilds P" for P
  by unfold_locales (auto simp: rebuilds_def dest: backend_known_same)

interpretation configured: state_preorder same_config
  by unfold_locales (auto simp: same_config_def)

text \<open>All three at once, for the actions that change neither the configuration nor the fronted model.\<close>

definition settles :: "platform \<Rightarrow> 'w server \<Rightarrow> 'w server \<Rightarrow> bool" where
  "settles P s t \<longleftrightarrow> evolves P s t \<and> rebuilds P s t \<and> same_config s t"

interpretation settling: state_preorder "settles P" for P
  by unfold_locales (auto simp: settles_def evolution.R_refl rebuilding.R_refl configured.R_refl
      intro: evolution.R_trans rebuilding.R_trans configured.R_trans)

lemma registry_pins:
  assumes "build_registry P discover c w = (Inr (reg, warned), w')"
  shows "pins P reg"
proof -
  obtain st st' where st: "rfold (\<lambda>e. try_add P True (''provider '' @ base_url e) (manifest e, Some (base_url e))) (providers c)
      \<lparr>pinned = [], warnings = []\<rparr> = Inr st"
    and dirs: "add_directories P discover (directories c) st w = (Inr st', w')" and reg: "reg = pinned st'"
    using assms by (auto simp: build_registry_def abind_alift abind_eq_Inr registry_adds split: sum.splits)
  have "pins P (pinned st)" using rfold_pins [OF st] by (simp add: pins_def)
  then show ?thesis using add_directories_pins [OF dirs] reg by simp
qed

lemma built_registry: "build_backend P None g tok reg = Inr be \<Longrightarrow> be_registry be = reg"
  by (auto simp: build_backend_def rbind_eq_Inr registry_adds)

lemma settles_world: "settles P s (s\<lparr>sv_world := w\<rparr>)"
  by (simp add: settles_def evolves_def rebuilds_def same_config_def)

lemma keeps_on_world: "keeps (settles P) (on_world f)"
  by (simp add: keeps_def on_world_def settles_world split: prod.split)

lemma keeps_ok_json: "keeps (settles P) (ok_json r)"
  by (simp add: keeps_def ok_json_def settling.R_refl)

lemma keeps_show_state: "keeps (settles P) show_state"
  by (simp add: keeps_def show_state_def ok_json_def settling.R_refl)

lemma settles_rebuilt:
  assumes "build_registry P d c w = (Inr (reg, warned), w')" "build_backend P None g tok reg' = Inr be"
    and "reg' = (case sv_local s of None \<Rightarrow> reg | Some l \<Rightarrow> registry_add (lp_entry l) reg)"
  shows "settles P s (s\<lparr>sv_backend := be, build_warnings := ws\<rparr>)"
  using registry_pins [OF assms(1)] built_registry [OF assms(2)] assms(3)
  by (auto simp: settles_def evolves_def rebuilds_def same_config_def backend_known_def known_entry_def pins_def registry_add_def
      split: option.splits)

lemma keeps_rebuild: "keeps (settles P) (rebuild P V)"
  unfolding keeps_def
proof
  fix s :: "'a server"
  obtain r w where b: "build_registry P (svc_directory_for V) (sv_config s) (sv_world s) = (r, w)" by fastforce
  define s1 where "s1 = s\<lparr>sv_world := w\<rparr>"
  have s1: "settles P s s1" by (simp add: s1_def settles_world)
  show "settles P s (snd (rebuild P V s))"
  proof (cases r)
    case (Inl e)
    then show ?thesis using b s1 by (simp add: rebuild_def abind_def on_world_def s1_def)
  next
    case (Inr x)
    obtain reg warned where x: "x = (reg, warned)" by fastforce
    define reg' where "reg' = (case sv_local s1 of None \<Rightarrow> reg | Some l \<Rightarrow> registry_add (lp_entry l) reg)"
    have go: "rebuild P V s = (case build_backend P None None (token_of (cfg_token (sv_config s1))) reg' of
        Inl e \<Rightarrow> (Inl e, s1) | Inr be \<Rightarrow> (Inr (), s1\<lparr>sv_backend := be, build_warnings := warned\<rparr>))"
      using b by (simp add: rebuild_def abind_def on_world_def s1_def reg'_def Inr x split: sum.split)
    show ?thesis
    proof (cases "build_backend P None None (token_of (cfg_token (sv_config s1))) reg'")
      case (Inl e)
      then show ?thesis using s1 go by simp
    next
      case be: (Inr be)
      have "settles P s1 (s1\<lparr>sv_backend := be, build_warnings := warned\<rparr>)"
        using b by (intro settles_rebuilt [OF _ be reg'_def]) (simp add: Inr x)
      then show ?thesis using s1 go be settling.R_trans by fastforce
    qed
  qed
qed

text \<open>A step as a whole: it may change the fronted model, and then the backend is the old one or knows the new.\<close>

definition advances :: "platform \<Rightarrow> 'w services \<Rightarrow> 'w server \<Rightarrow> 'a res \<Rightarrow> 'w server \<Rightarrow> bool" where
  "advances P V s r t \<longleftrightarrow> evolves P s t \<and> file_effect V s r t \<and> (sv_backend t = sv_backend s \<or> backend_known P t) \<and>
     (starts_at_home V \<longrightarrow> local_at_home s \<longrightarrow> local_at_home t)"

lemma settles_advances: "settles P s t \<Longrightarrow> advances P V s r t"
  by (auto simp: settles_def advances_def file_effect_def same_config_def rebuilds_def local_at_home_def)

lemma advances_refl [simp]: "advances P V s r s"
  by (rule settles_advances) (rule settling.R_refl)

lemma settled_act: "keeps (settles P) f \<Longrightarrow> f s = (r, t) \<Longrightarrow> advances P V s r t"
  unfolding keeps_def by (metis settles_advances snd_conv)

lemma committed:
  assumes "commit_config P V c s = (r, t)" "pins P (providers (sv_config s)) \<Longrightarrow> pins P (providers c)"
  shows "advances P V s r t \<and> sv_local t = sv_local s"
proof -
  define s1 where "s1 = s\<lparr>sv_config := c\<rparr>"
  obtain r1 out where sv: "save_config (svc_disk V (sv_world s1)) (sv_config s1) (saved_file s1) = (r1, out)" by fastforce
  have ev: "evolves P s (s1\<lparr>saved_file := f\<rparr>)" for f using assms(2) by (simp add: evolves_def s1_def)
  from sv show ?thesis
  proof (cases rule: save_config_cases)
    case saved
    then have "abind (rebuild P V) (\<lambda>_. show_state) (s1\<lparr>saved_file := rendered_config c\<rparr>) = (r, t)"
      using assms(1) sv by (simp add: commit_config_def abind_def [of "persist V"] persist_def s1_def)
    moreover have "keeps (settles P) (abind (rebuild P V) (\<lambda>_. show_state))"
      by (intro settling.keeps_abind keeps_rebuild keeps_show_state)
    ultimately have st: "settles P (s1\<lparr>saved_file := rendered_config c\<rparr>) t" unfolding keeps_def by (metis snd_conv)
    have "evolves P s t" using evolution.R_trans [OF ev [of "rendered_config c"], of t] st by (simp add: settles_def)
    then show ?thesis using st
      by (auto simp: settles_def advances_def file_effect_def same_config_def rebuilds_def local_at_home_def s1_def)
  next
    case (failed x e)
    then have "r = Inl e" "t = s1" using assms(1) sv by (simp_all add: commit_config_def abind_def persist_def s1_def)
    then show ?thesis using ev [of "saved_file s1"] failed(1)
      by (auto simp: advances_def file_effect_def local_at_home_def s1_def)
  qed
qed

lemma pins_filter: "pins P es \<Longrightarrow> pins P (filter f es)"
  by (auto simp: pins_def intro: distinct_map_filter)

lemma add_provider_advances: "add_provider P V m url s = (r, t) \<Longrightarrow> advances P V s r t"
proof (cases "rbind (trusted_provider_entry P m url True) (merge_provider (providers (sv_config s)))")
  case (Inl e)
  assume "add_provider P V m url s = (r, t)"
  then have "t = s" using Inl by (cases e) (auto simp: add_provider_def)
  then show ?thesis by simp
next
  case (Inr merged)
  assume "add_provider P V m url s = (r, t)"
  then have "commit_config P V ((sv_config s)\<lparr>providers := merged\<rparr>) s = (r, t)" using Inr by (simp add: add_provider_def)
  moreover have "pins P (providers (sv_config s)) \<Longrightarrow> pins P merged"
    using Inr by (auto simp: rbind_eq_Inr intro: merge_pins trusted_entry_routable)
  ultimately show ?thesis using committed by fastforce
qed

lemma mutation_advances:
  "complete_onboarding P V s = (r, t) \<Longrightarrow> advances P V s r t" "remove_provider P V key s = (r, t) \<Longrightarrow> advances P V s r t"
  "add_directory P V spec s = (r, t) \<Longrightarrow> advances P V s r t" "remove_directory P V spec s = (r, t) \<Longrightarrow> advances P V s r t"
  by (auto simp: complete_onboarding_def remove_provider_def add_directory_def remove_directory_def pins_filter
      settles_advances settling.R_refl split: if_splits dest!: committed settled_act [OF keeps_show_state])

lemma stop_advances: "stop_local_use P V s = (r, t) \<Longrightarrow> advances P V s r t"
proof -
  assume "stop_local_use P V s = (r, t)"
  then have "advances P V (s\<lparr>sv_local := None\<rparr>) r t" unfolding stop_local_use_def by (rule committed [THEN conjunct1]) simp
  then show "advances P V s r t" unfolding advances_def evolves_def file_effect_def local_at_home_def by simp
qed

lemma start_advances: "start_local_use P V runtime model s = (r, t) \<Longrightarrow> advances P V s r t"
proof -
  assume a: "start_local_use P V runtime model s = (r, t)"
  obtain x w where x: "svc_start_local V runtime model (sv_world s) = (x, w)" by fastforce
  show "advances P V s r t"
  proof (cases x)
    case (Inl e)
    then have "t = s\<lparr>sv_world := w\<rparr>" using a x by (simp add: start_local_use_def)
    then show ?thesis using settles_advances [OF settles_world] by simp
  next
    case (Inr l)
    define s1 where "s1 = s\<lparr>sv_local := Some l, sv_world := w\<rparr>"
    have "commit_config P V ((sv_config s)\<lparr>use_local := Some \<lparr>lu_runtime = runtime, lu_model = model\<rparr>\<rparr>) s1 = (r, t)"
      using a x Inr by (simp add: start_local_use_def s1_def)
    then have "advances P V s1 r t" by (rule committed [THEN conjunct1]) (simp add: s1_def)
    moreover have "svc_start_local V runtime model (sv_world s) = (Inr l, w)" using x Inr by simp
    then have "base_url (lp_entry l) = local_address" if "starts_at_home V" using that unfolding starts_at_home_def by blast
    then have "starts_at_home V \<longrightarrow> local_at_home s1" by (simp add: local_at_home_def s1_def)
    moreover have "sv_config s1 = sv_config s" "saved_file s1 = saved_file s" "restore_warning s1 = restore_warning s"
      "sv_backend s1 = sv_backend s" by (simp_all add: s1_def)
    ultimately show ?thesis unfolding advances_def evolves_def file_effect_def by simp
  qed
qed

lemma admin_advances:
  assumes "admin P V header req s = (r, t)"
  shows "advances P V s r t"
proof (cases "req \<noteq> Health \<and> \<not> token_ok (svc_admin_token V) header")
  case True
  then have "t = s" using assms by (simp add: admin_def)
  then show ?thesis by simp
next
  case False
  then have d: "dispatch P V req s = (r, t)" using assms by (auto simp: admin_def)
  note quiet = settling.keeps_aret settling.keeps_abind keeps_on_world keeps_ok_json keeps_show_state
  have queries: "keeps (settles P) (recommend_query V task c n)" "keeps (settles P) (runtimes_query V)" for task c n
    by (simp_all add: recommend_query_def runtimes_query_def quiet)
  show ?thesis
  proof (cases req)
    case (Recommend task c n)
    then show ?thesis using d settled_act [OF queries(1)] by (simp add: dispatch_def)
  next
    case Runtimes
    then show ?thesis using d settled_act [OF queries(2)] by (simp add: dispatch_def)
  next
    case Scan
    have "keeps (settles P) (abind (on_world (svc_scan V)) (\<lambda>profile. ok_json (Inr profile)))" by (intro quiet)
    then show ?thesis using d Scan settled_act by (simp add: dispatch_def)
  qed (use d settled_act [OF quiet(4)] settled_act [OF quiet(5)] add_provider_advances
      mutation_advances start_advances stop_advances in \<open>simp_all add: dispatch_def\<close>)
qed

lemma server_chat_world: "server_chat P E ip key rid fresh created header r s = (a, t) \<Longrightarrow> \<exists>w. t = s\<lparr>sv_world := w\<rparr>"
  by (auto simp: server_chat_def split: prod.splits)

subsection \<open>Histories\<close>

text \<open>A step: an admin request under any header, a chat, or something else in the world.\<close>

inductive server_step :: "platform \<Rightarrow> 'w services \<Rightarrow> 'w server \<Rightarrow> 'w server \<Rightarrow> bool" for P V where
  by_admin: "admin P V header req s = (a, t) \<Longrightarrow> server_step P V s t"
| by_chat: "server_chat P E in_process key rid fresh created header r s = (a, t) \<Longrightarrow> server_step P V s t"
| elsewhere: "server_step P V s (s\<lparr>sv_world := w\<rparr>)"

inductive server_run :: "platform \<Rightarrow> 'w services \<Rightarrow> config_file \<Rightarrow> 'w server \<Rightarrow> bool" for P V start where
  started: "boot P V start w = Inr s \<Longrightarrow> server_run P V start s"
| stepped: "server_run P V start s \<Longrightarrow> server_step P V s t \<Longrightarrow> server_run P V start t"


lemma step_advances:
  assumes "server_step P V s t"
  obtains (request) header req r where "admin P V header req s = (r, t)" "advances P V s r t"
  | (outside) w where "t = s\<lparr>sv_world := w\<rparr>"
  using assms
proof cases
  case (by_admin header req a)
  then show ?thesis using admin_advances request by blast
next
  case by_chat
  then show ?thesis using server_chat_world outside by blast
qed (rule outside)

lemma step_evolves: "server_step P V s t \<Longrightarrow> evolves P s t"
  by (erule step_advances) (auto simp: advances_def evolves_def)

text \<open>A step after which the file is as before: the configuration too, or the disk failed a request, which raised.\<close>

definition unsaved_step :: "platform \<Rightarrow> 'w services \<Rightarrow> 'w server \<Rightarrow> 'w server \<Rightarrow> bool" where
  "unsaved_step P V s t \<longleftrightarrow> server_step P V s t \<and> saved_file t = saved_file s \<and> (sv_config t = sv_config s \<or>
     (\<exists>header req x e. admin P V header req s = (Inl e, t) \<and> svc_disk V (sv_world t) x = Some e))"

lemma step_files:
  assumes "server_step P V s t"
  shows "unsaved_step P V s t \<or> saved_file t = rendered_config (sv_config t)"
  using assms
proof (cases rule: step_advances)
  case (request header req r)
  then have "file_effect V s r t" by (simp add: advances_def)
  then show ?thesis using request(1) assms by (auto simp: file_effect_def unsaved_step_def)
qed (use assms in \<open>auto simp: unsaved_step_def\<close>)

lemma rebuild_config: "rebuild P V s = (r, t) \<Longrightarrow> sv_config t = sv_config s \<and> saved_file t = saved_file s"
  using keeps_rebuild unfolding keeps_def settles_def same_config_def by (metis snd_conv)

lemma boot_started:
  assumes "boot P V start w = Inr s"
  shows "load_config start = Inr (sv_config s) \<and> saved_file s = start \<and> backend_known P s \<and> (starts_at_home V \<longrightarrow> local_at_home s)"
proof -
  obtain c where c: "load_config start = Inr c"
    using assms by (auto simp: boot_def rbind_eq_Inr)
  define s1 where s1: "s1 = restore_local V \<lparr>sv_config = c, sv_local = None, restore_warning = None,
      build_warnings = [], sv_backend = \<lparr>be_registry = [], be_token = None, be_models = []\<rparr>, saved_file = start, sv_world = w\<rparr>"
  obtain r t where "rebuild P V s1 = (r, t)" by fastforce
  then have go: "rebuild P V s1 = (Inr (), s)"
    using assms c by (cases r) (simp_all add: boot_def s1)
  have d: "sv_config s1 = c" "saved_file s1 = start" "be_registry (sv_backend s1) = []"
    using s1 by (auto simp: restore_local_def split: option.splits prod.splits sum.splits)
  have "\<exists>runtime model u w'. svc_start_local V runtime model u = (Inr l, w')" if "sv_local s1 = Some l" for l
    using that s1 by (auto simp: restore_local_def split: option.splits prod.splits sum.splits)
  then have home: "starts_at_home V \<longrightarrow> local_at_home s1" unfolding starts_at_home_def local_at_home_def by blast
  have "settles P s1 s" using keeps_rebuild go unfolding keeps_def by (metis snd_conv)
  moreover have "backend_known P s" if "sv_backend s = sv_backend s1" using d(3) that by (simp add: backend_known_def)
  ultimately show ?thesis using c d(1,2) home by (auto simp: settles_def rebuilds_def same_config_def local_at_home_def)
qed

text \<open>A model the server has fronted in its history, as the provider it stands for.\<close>

definition has_fronted :: "platform \<Rightarrow> 'w services \<Rightarrow> config_file \<Rightarrow> 'w server \<Rightarrow> provider_entry \<Rightarrow> bool" where
  "has_fronted P V start s e \<longleftrightarrow> (\<exists>s1 l. server_run P V start s1 \<and> (server_step P V)\<^sup>*\<^sup>* s1 s \<and> sv_local s1 = Some l \<and> e = lp_entry l)"

lemma known_fronted: "server_run P V start s \<Longrightarrow> known_entry P s e \<Longrightarrow> routable P e \<or> has_fronted P V start s e"
  unfolding known_entry_def has_fronted_def by blast

lemma fronted_step: "has_fronted P V start s e \<Longrightarrow> server_step P V s t \<Longrightarrow> has_fronted P V start t e"
  unfolding has_fronted_def by (elim exE conjE) (intro exI conjI, assumption, erule (1) rtranclp.rtrancl_into_rtrancl, assumption+)

lemma run_known:
  assumes "server_run P V start s"
  shows "\<forall>e\<in>set (be_registry (sv_backend s)). routable P e \<or> has_fronted P V start s e"
  using assms
proof induction
  case (started w s)
  then show ?case using boot_started [OF started] known_fronted [OF server_run.started [OF started]]
    by (auto simp: backend_known_def)
next
  case (stepped s t)
  have run: "server_run P V start t" by (rule server_run.stepped [OF stepped.hyps])
  have old: "\<forall>e\<in>set (be_registry (sv_backend s)). routable P e \<or> has_fronted P V start t e"
    using stepped.IH fronted_step [OF _ stepped.hyps(2)] by blast
  from stepped.hyps(2) show ?case
  proof (cases rule: step_advances)
    case (request header req r)
    then have "sv_backend t = sv_backend s \<or> backend_known P t" by (simp add: advances_def)
    then show ?thesis using old known_fronted [OF run] by (auto simp: backend_known_def)
  qed (use old in auto)
qed

lemma run_at_home:
  assumes "server_run P V start s" "starts_at_home V"
  shows "local_at_home s"
  using assms(1)
proof induction
  case (stepped s t)
  from stepped.hyps(2) show ?case
  proof (cases rule: step_advances)
    case (request header req r)
    then show ?thesis using stepped.IH assms(2) by (simp add: advances_def)
  qed (use stepped.IH in \<open>simp add: local_at_home_def\<close>)
next
  case (started w s)
  then show ?case using boot_started [OF started] assms(2) by simp
qed

lemma run_files:
  assumes "server_run P V start s"
  shows "\<exists>s0. server_run P V start s0 \<and> (unsaved_step P V)\<^sup>*\<^sup>* s0 s \<and> saved_file s0 = saved_file s \<and>
    (saved_file s0 = rendered_config (sv_config s0) \<or> load_config (saved_file s0) = Inr (sv_config s0))"
  using assms
proof induction
  case (started w s)
  then show ?case using boot_started [OF started] server_run.started [OF started] by (intro exI [of _ s]) simp
next
  case (stepped s t)
  obtain s0 where s0: "server_run P V start s0" "(unsaved_step P V)\<^sup>*\<^sup>* s0 s" "saved_file s0 = saved_file s"
    "saved_file s0 = rendered_config (sv_config s0) \<or> load_config (saved_file s0) = Inr (sv_config s0)"
    using stepped.IH by blast
  from step_files [OF stepped.hyps(2)] show ?case
  proof
    assume u: "unsaved_step P V s t"
    then have "saved_file t = saved_file s" by (simp add: unsaved_step_def)
    then show ?case using s0 rtranclp.rtrancl_into_rtrancl [OF s0(2) u] by (intro exI [of _ s0]) simp
  next
    assume "saved_file t = rendered_config (sv_config t)"
    then show ?case using server_run.stepped [OF stepped.hyps] by (intro exI [of _ t]) simp
  qed
qed

subsection \<open>Properties\<close>

text \<open>C26. What a restart brings back, after any history of admin requests, chats and failures, with a disk that may refuse
  any step of any save: the configuration of some moment of the history (up to the order of keys inside
  manifests) since which no request changed the configuration but such as failed with the error of the disk. A
  change that was answered is never lost, the file is never half written, and on a disk that does not fail the
  new server has the configuration of the old.\<close>

theorem restart_keeps_config:
  assumes "server_run P V start s" "boot P V (saved_file s) w = Inr s'"
  shows "(\<exists>s0. server_run P V start s0 \<and> (unsaved_step P V)\<^sup>*\<^sup>* s0 s \<and>
      (sv_config s' = sv_config s0 \<or> sv_config s' = refiled (sv_config s0))) \<and>
    ((\<forall>u step. svc_disk V u step = None) \<longrightarrow> sv_config s' = sv_config s \<or> sv_config s' = refiled (sv_config s))"
proof -
  obtain s0 where s0: "server_run P V start s0" "(unsaved_step P V)\<^sup>*\<^sup>* s0 s" "saved_file s0 = saved_file s"
    "saved_file s0 = rendered_config (sv_config s0) \<or> load_config (saved_file s0) = Inr (sv_config s0)"
    using run_files [OF assms(1)] by blast
  have c: "sv_config s' = sv_config s0 \<or> sv_config s' = refiled (sv_config s0)"
    using boot_started [OF assms(2)] s0(3,4) by (auto simp: config_roundtrip)
  moreover have "sv_config s = sv_config s0" if "\<forall>u step. svc_disk V u step = None"
    using s0(2) by (induction rule: rtranclp_induct) (use that in \<open>auto simp: unsaved_step_def\<close>)
  ultimately show ?thesis using s0(1,2) by metis
qed

text \<open>C25. A plain answer of the desktop server, after any history, is authorised, and it comes from an entry of the backend's
  registry that lists the model: the content is that of the last call, made to the entry's address, and the
  receipt shown is signed over it by the entry's key. That entry is either verified, at its signed address,
  which is not an internal one and is reached over HTTP, or it stands for a model the server has fronted itself,
  at the local address.\<close>

theorem server_answer_trusted:
  assumes "server_run P V start s" "svc_start_local V = default_start_local P M"
    and "server_chat P E in_process key rid fresh created header r s = (Inr (Reply 200 v), t)"
  shows "authorized key header \<and> (\<exists>e\<in>set (be_registry (sv_backend s)). \<exists>said receipt payment u answer w.
    str_in (pr_model r) (get_or (manifest e) ''models'' (JArr [])) = Inr True \<and>
    extract_content v = Some said \<and> shown_receipt v = JObj receipt \<and> receipt_proves P e said (JObj receipt) \<and>
    post_completion (server_outside E in_process s) (options_for (sv_backend s) 512 rid r) (base_url e) payment u = (Inr answer, w) \<and>
    extract_content (safe_json answer) = Some said \<and> sv_world t = world w \<and>
    (routable P e \<and> client_factory (sv_local s) (base_url e) = Over_http (base_url e) \<or>
     has_fronted P V start s e \<and> base_url e = ''http://127.0.0.1:11434''))"
proof -
  obtain t' where run: "proxy_chat P (server_outside E in_process s) key 512 (sv_backend s) rid fresh created header r
      \<lparr>world = sv_world s, purse = None\<rparr> = (Inr (Reply 200 v), t')" and w: "sv_world t = world t'"
    using assms(3) by (auto simp: server_chat_def split: prod.splits)
  obtain e said receipt q u where e: "authorized key header" "e \<in> set (be_registry (sv_backend s))"
    "str_in (pr_model r) (get_or (manifest e) ''models'' (JArr [])) = Inr True"
    "extract_content v = Some said" "receipt_proves P e said (JObj receipt)" "shown_receipt v = JObj receipt"
    "serve P (server_outside E in_process s) (options_for (sv_backend s) 512 rid r) e u = (Inr (Served said (JObj receipt) q), t')"
    by (rule proxied_served [OF run])
  obtain payment u' answer where a: "post_completion (server_outside E in_process s) (options_for (sv_backend s) 512 rid r) (base_url e)
      payment u' = (Inr answer, t')" "extract_content (safe_json answer) = Some said"
    by (rule serve_answered [OF e(7)])
  have home: "starts_at_home V" by (simp add: starts_at_home_def assms(2) default_start_address)
  have "base_url e = local_address" if "has_fronted P V start s e"
    using that run_at_home [OF _ home] by (auto simp: has_fronted_def local_at_home_def)
  moreover have "client_factory (sv_local s) (base_url e) = Over_http (base_url e)" if "routable P e"
    using run_at_home [OF assms(1) home] that local_address_unsafe
    by (auto simp: local_at_home_def routable_def client_factory_def split: option.split)
  moreover have "routable P e \<or> has_fronted P V start s e" using run_known [OF assms(1)] e(2) by blast
  ultimately show ?thesis using e(1-6) a w unfolding local_address_def by blast
qed

text \<open>A change whose save fails is refused and kept: the request raises, but the configuration in memory is the new one,
  which every later answer shows and the next save that succeeds writes.\<close>

theorem failed_save_kept:
  assumes "save_config (svc_disk V (sv_world s)) c (saved_file s) = (Inl e, out)"
  shows "commit_config P V c s = (Inl e, s\<lparr>sv_config := c\<rparr>)"
proof -
  have "out = saved_file s" using assms by (cases rule: save_config_cases) simp_all
  then show ?thesis using assms by (simp add: commit_config_def persist_def abind_def)
qed

text \<open>Only the holder of the admin token changes the server: every step that changes more than the world outside was
  an admin request that presented the token, and a request without it is answered 401.\<close>

theorem only_admin_changes:
  assumes "server_step P V s t"
  shows "t = s\<lparr>sv_world := sv_world t\<rparr> \<or>
    (\<exists>header req a. token_ok (svc_admin_token V) header \<and> admin P V header req s = (a, t))"
  using assms
proof cases
  case (by_admin header req a)
  then show ?thesis
  proof (cases "req \<noteq> Health \<and> \<not> token_ok (svc_admin_token V) header")
    case False
    then have "req = Health \<or> token_ok (svc_admin_token V) header" by simp
    then show ?thesis
    proof
      assume "req = Health"
      then show ?thesis using by_admin by (simp add: admin_def dispatch_def)
    qed (use by_admin in blast)
  qed (use by_admin in \<open>simp add: admin_def\<close>)
next
  case by_chat
  then show ?thesis using server_chat_world by fastforce
qed simp

text \<open>The warning of a failed start never goes away: whatever is done later, a successful start of a local model
  included, the state still shows it.\<close>

theorem restore_warning_sticks:
  assumes "server_run P V start s" "server_step P V s t" "restore_warning s = Some msg"
  shows "msg \<in> set (server_warnings t)"
  using step_evolves [OF assms(2)] assms(3) by (simp add: evolves_def server_warnings_def)

subsection \<open>Inputs\<close>

text \<open>
  A machine without runtimes, unreachable directories, a disk that cannot replace a file while the world is at 7, and a
  provider at \<^verbatim>\<open>http://u\<close> that answers.
\<close>

definition demo_machine :: "nat machine" where
  "demo_machine = \<lparr>installed = [], generate_key = (\<lambda>w. (demo_key 3, w)), wall_clock = (\<lambda>_. 0)\<rparr>"

definition demo_services :: "nat services" where
  "demo_services = \<lparr>svc_start_local = default_start_local demo demo_machine, svc_directory_for = (\<lambda>spec w. (Inl OSError, w)),
     svc_admin_token = Some ''t'', svc_detect = (\<lambda>w. (Inr [], w)), svc_scan = (\<lambda>w. (Inr JNull, w)), svc_catalog = Inr [],
     svc_recommend = (\<lambda>p task c n. Inr []), svc_version = ''0'', svc_adapters = [],
     svc_disk = (\<lambda>w step. if w = 7 \<and> step = Replace_config then Some OSError else None)\<rparr>"

definition demo_idle :: "nat server" where
  "demo_idle = \<lparr>sv_config = empty_config, sv_local = None, restore_warning = None, build_warnings = [],
     sv_backend = \<lparr>be_registry = [], be_token = None, be_models = []\<rparr>, saved_file = Absent, sv_world = 0\<rparr>"

lemmas demo_rebuild_simps = rebuild_def build_registry_def on_world_def abind_def alift_def aret_def build_backend_def token_of_def
  sorted_values_def distinct_values_def demo_services_def empty_config_def

lemma demo_starts:
  "svc_start_local demo_services = default_start_local demo demo_machine"
  "boot demo demo_services Absent 0 = Inr demo_idle"
  by (simp_all add: boot_def load_config_def demo_idle_def restore_local_def demo_rebuild_simps)

definition demo_done :: "nat server" where
  "demo_done = demo_idle\<lparr>sv_config := empty_config\<lparr>onboarding_complete := True\<rparr>,
     saved_file := rendered_config (empty_config\<lparr>onboarding_complete := True\<rparr>)\<rparr>"

lemma demo_completed:
  "\<exists>a. admin demo demo_services (Some ''t'') Complete_onboarding demo_idle = (Inr a, demo_done)"
  by (simp add: admin_def token_ok_def dispatch_def complete_onboarding_def commit_config_def persist_def save_config_def demo_done_def demo_idle_def
      show_state_def ok_json_def snapshot_def demo_rebuild_simps)

lemma demo_run: "server_run demo demo_services Absent demo_idle"
  by (rule server_run.started [OF demo_starts(2)])

lemma demo_run_done: "server_run demo demo_services Absent demo_done"
  using demo_completed server_run.stepped [OF demo_run server_step.by_admin] by blast

lemma demo_restart: "boot demo demo_services (saved_file demo_done) 5 = Inr (demo_done\<lparr>sv_world := 5\<rparr>)"
proof -
  have "load_config (saved_file demo_done) = Inr (empty_config\<lparr>onboarding_complete := True\<rparr>)"
    by (simp add: demo_done_def config_roundtrip) (simp add: refiled_def empty_config_def)
  then show ?thesis
    by (simp add: boot_def restore_local_def demo_done_def demo_idle_def demo_rebuild_simps)
qed

lemma restart_keeps_config_witness:
  "\<exists>s0. server_run demo demo_services Absent s0 \<and> (unsaved_step demo demo_services)\<^sup>*\<^sup>* s0 demo_done \<and> onboarding_complete (sv_config s0)"
proof -
  have "onboarding_complete (sv_config (demo_done\<lparr>sv_world := 5\<rparr>))" by (simp add: demo_done_def)
  then show ?thesis using restart_keeps_config [OF demo_run_done demo_restart, THEN conjunct1] by (auto simp: refiled_def)
qed

lemma failed_save_kept_witness:
  "admin demo demo_services (Some ''t'') Complete_onboarding (demo_idle\<lparr>sv_world := 7\<rparr>) =
     (Inl OSError, demo_idle\<lparr>sv_world := 7, sv_config := empty_config\<lparr>onboarding_complete := True\<rparr>\<rparr>)"
proof -
  have "save_config (svc_disk demo_services (sv_world (demo_idle\<lparr>sv_world := 7\<rparr>))) (empty_config\<lparr>onboarding_complete := True\<rparr>)
      (saved_file (demo_idle\<lparr>sv_world := 7\<rparr>)) = (Inl OSError, Absent)"
    by (simp add: save_config_def abandon_temporary_def demo_services_def demo_idle_def)
  from failed_save_kept [OF this] show ?thesis
    by (simp add: admin_def token_ok_def dispatch_def complete_onboarding_def) (simp add: demo_services_def demo_idle_def)
qed

lemma only_admin_changes_witness:
  "\<exists>a. admin demo demo_services (Some ''t'') Complete_onboarding demo_idle = (a, demo_done) \<and>
    token_ok (svc_admin_token demo_services) (Some ''t'')"
proof -
  obtain a where a: "admin demo demo_services (Some ''t'') Complete_onboarding demo_idle = (Inr a, demo_done)"
    using demo_completed by blast
  have "sv_config demo_done \<noteq> sv_config (demo_idle\<lparr>sv_world := sv_world demo_done\<rparr>)"
    by (simp add: demo_done_def demo_idle_def empty_config_def)
  then have "\<exists>header req a. token_ok (svc_admin_token demo_services) header"
    using only_admin_changes [OF server_step.by_admin [OF a]] by metis
  then show ?thesis using a by (auto simp: token_ok_def demo_services_def)
qed

definition demo_warning :: string where
  "demo_warning = ''local model '' @ repr_str ''m'' @ '' could not be restored''"

definition demo_lost :: "nat server" where
  "demo_lost = (let c = empty_config\<lparr>use_local := Some \<lparr>lu_runtime = ''ollama'', lu_model = ''m''\<rparr>\<rparr> in
     demo_idle\<lparr>sv_config := c, saved_file := rendered_config c, restore_warning := Some demo_warning\<rparr>)"

lemma demo_boot_lost: "boot demo demo_services (saved_file demo_lost) 0 = Inr demo_lost"
proof -
  have "load_config (saved_file demo_lost) = Inr (sv_config demo_lost)"
    by (simp add: demo_lost_def Let_def config_roundtrip) (simp add: refiled_def empty_config_def)
  then show ?thesis
    by (simp add: boot_def restore_local_def demo_lost_def Let_def demo_idle_def demo_rebuild_simps default_start_local_def
        demo_machine_def demo_warning_def)
qed

lemma restore_warning_sticks_witness:
  "demo_warning \<in> set (server_warnings (snd (admin demo demo_services (Some ''t'') Stop_local demo_lost)))"
proof -
  have "server_step demo demo_services demo_lost (snd (admin demo demo_services (Some ''t'') Stop_local demo_lost))"
    by (rule server_step.by_admin) (rule prod.collapse [symmetric])
  from restore_warning_sticks [OF server_run.started [OF demo_boot_lost] this] show ?thesis
    by (simp add: demo_lost_def Let_def)
qed

definition demo_remote :: provider_entry where
  "demo_remote = \<lparr>base_url = ''http://u'', manifest = demo_manifest ''1''\<rparr>"

definition demo_added :: "nat server" where
  "demo_added = demo_idle\<lparr>sv_config := empty_config\<lparr>providers := [demo_remote]\<rparr>,
     saved_file := rendered_config (empty_config\<lparr>providers := [demo_remote]\<rparr>),
     sv_backend := \<lparr>be_registry = [demo_remote], be_token = None, be_models = [JStr ''m'']\<rparr>\<rparr>"

lemma demo_remote_get: "k \<noteq> ''signature'' \<Longrightarrow> dict_get (manifest demo_remote) k = dict_get (demo_draft ''1'') k"
  by (simp add: demo_remote_def demo_manifest_get)

lemma demo_remote_trusted:
  "trusted_provider_entry demo (demo_manifest ''1'') None True = Inr demo_remote"
  "trusted_provider_entry demo (manifest demo_remote) (Some (base_url demo_remote)) True = Inr demo_remote"
  by (simp_all add: trusted_provider_entry_def demo_remote_def demo_manifest_verified demo_manifest_fields demo_remote_safe)

lemma demo_remote_fields:
  "get_or (manifest demo_remote) ''models'' (JArr []) = JArr [JStr ''m'']"
  "getitem (manifest demo_remote) ''provider_pubkey'' = Inr (JStr (public_key_str demo (demo_key 3)))"
  "getn (manifest demo_remote) ''provider_pubkey'' = JStr (public_key_str demo (demo_key 3))"
  by (simp_all add: get_or_def getitem_def getn_def demo_remote_get) (simp_all add: demo_draft_def)

lemma demo_provider_added:
  "\<exists>a. admin demo demo_services (Some ''t'') (Add_provider (demo_manifest ''1'') None) demo_idle = (Inr a, demo_added)"
  by (simp add: admin_def token_ok_def dispatch_def add_provider_def demo_remote_trusted merge_provider_def pubkey_of_def
      demo_remote_fields commit_config_def persist_def save_config_def demo_added_def demo_idle_def show_state_def ok_json_def snapshot_def
      snapshot_provider_def try_add_def registry_add_def demo_rebuild_simps)

lemma demo_run_added: "server_run demo demo_services Absent demo_added"
  using demo_provider_added server_run.stepped [OF demo_run server_step.by_admin] by blast

definition demo_serving :: "nat outside" where
  "demo_serving = \<lparr>network = (\<lambda>url call n. (Inr \<lparr>reply_status = 200, reply_json = Some (JObj
      (if path call = ''/sip/v1/health'' then [(''status'', JStr ''ok'')] else demo_body))\<rparr>, n + 1)),
     clock = (\<lambda>_. 0), random_text = (\<lambda>w. ([], w))\<rparr>"

lemma demo_remote_score: "\<exists>x. score_provider None (Some ''direct'') (Some ''m'') None demo_remote = Inr x"
proof -
  have "\<exists>x. anchored 2000 (Fin 4000) = Inr x" "\<exists>x. anchored 100 (Fin 0) = Inr x"
    by (simp_all add: anchored_def fmax_def to_float_numeral)
  moreover have "k \<noteq> ''signature'' \<Longrightarrow> getn (manifest demo_remote) k = getn (demo_draft ''1'') k"
    "k \<noteq> ''signature'' \<Longrightarrow> get_or (manifest demo_remote) k d = get_or (demo_draft ''1'') k d" for k d
    by (simp_all add: getn_def get_or_def demo_remote_get)
  ultimately show ?thesis using fdiv_total
    by (auto simp: score_provider_def Let_def model_fit_score_def latency_score_def effective_ms_def price_score_def
        privacy_score_def float_get_def py_or_def to_float_numeral) (auto simp: demo_draft_def getn_def get_or_def to_float_numeral)
qed

lemma demo_remote_receipt: "receipt_trusted demo (JObj demo_receipt) demo_remote ''hello'' = Inr True"
proof -
  have same: "getn (manifest (demo_entry ''u'')) ''provider_pubkey'' = JStr (public_key_str demo (demo_key 3))"
    by (simp add: demo_entry_def getn_def)
  show ?thesis
    using demo_receipt_trusted [of "''u''"] unfolding receipt_trusted_def demo_remote_fields(3) same .
qed

lemma demo_server_answers:
  "\<exists>v t. server_chat demo demo_serving (\<lambda>app call w. (Inl OSError, w)) None ''r'' ''f'' 0 None demo_ask demo_added = (Inr (Reply 200 v), t)"
proof -
  let ?E = "server_outside demo_serving (\<lambda>app call w. (Inl OSError, w)) demo_added"
  obtain x where x: "score_provider None (Some ''direct'') (Some ''m'') None demo_remote = Inr x" using demo_remote_score by blast
  have net: "network ?E url call w = (Inr \<lparr>reply_status = 200, reply_json = Some (JObj
      (if path call = ''/sip/v1/health'' then [(''status'', JStr ''ok'')] else demo_body))\<rparr>, w + 1)" for url call w
    by (simp add: server_outside_def client_factory_def demo_added_def demo_idle_def demo_serving_def)
  have "route_chat demo ?E [demo_remote] (options_for (sv_backend demo_added) 512 ''r'' demo_ask) \<lparr>world = 0, purse = None\<rparr> =
    (Inr \<lparr>rr_content = ''hello'', rr_receipt = JObj demo_receipt, rr_provider_pubkey = JStr (public_key_str demo (demo_key 3)),
        rr_base_url = base_url demo_remote, rr_quote = None, rr_attempts = [(base_url demo_remote, ''ok'')]\<rparr>, \<lparr>world = 0 + 2, purse = None\<rparr>)"
    by (rule served_by [OF _ _ _ _ _ _ x demo_remote_fields(1,2) demo_remote_receipt])
      (simp_all add: options_for_def demo_ask_def net)
  moreover have "be_registry (sv_backend demo_added) = [demo_remote]" "sv_world demo_added = 0"
    by (simp_all add: demo_added_def demo_idle_def)
  ultimately show ?thesis
    by (simp add: server_chat_def proxy_chat_def authorized_def demo_usage) (simp add: demo_ask_def demo_usage)
qed

lemma server_answer_trusted_witness: "\<exists>e said receipt. receipt_proves demo e said (JObj receipt)"
proof -
  obtain v t where "server_chat demo demo_serving (\<lambda>app call w. (Inl OSError, w)) None ''r'' ''f'' 0 None demo_ask demo_added = (Inr (Reply 200 v), t)"
    using demo_server_answers by blast
  from server_answer_trusted [OF demo_run_added demo_starts(1) this] show ?thesis by blast
qed

end
