(* ===== verification/Compute.thy ===== *)
theory Compute
  imports Directory
begin

text \<open>
  \<^verbatim>\<open>packages/compute\<close>: what to run, the handle of a deployment, its signed manifest, the registry of providers,
  the polling loop both adapters run, and the interface they promise. The shell of an adapter is the command
  runner and the pause between polls, as functions of the state; a runner returns the parsed output (\<open>None\<close> where
  it is not JSON) or raises.
\<close>

subsection \<open>spec.py\<close>

datatype deployment_status = Pending | Deploying | Running | Failed_status | Closed_status

fun is_terminal :: "deployment_status \<Rightarrow> bool" where
  "is_terminal Failed_status = True"
| "is_terminal Closed_status = True"
| "is_terminal st = False"

record inference_spec =
  sp_model :: string
  sp_image :: string
  sp_port :: int
  sp_gpu :: bool
  sp_gpu_model :: "string option"
  sp_cpu :: string
  sp_memory :: string
  sp_command :: "string list option"
  sp_env :: "(string \<times> string) list"
  sp_input_per_1m :: pyfloat
  sp_output_per_1m :: pyfloat
  sp_unit :: string

text \<open>\<^verbatim>\<open>__post_init__\<close>\<close>

definition check_spec :: "inference_spec \<Rightarrow> inference_spec res" where
  "check_spec s = (if py_strip (sp_model s) = [] \<or> py_strip (sp_image s) = [] \<or> \<not> (1 \<le> sp_port s \<and> sp_port s \<le> 65535)
     then Inl ComputeError else Inr s)"

record deployment =
  dp_provider :: string
  dp_id :: string
  dp_model :: string
  dp_status :: deployment_status
  dp_endpoint :: "string option"
  dp_unit :: "string option"
  dp_input :: "pyfloat option"
  dp_output :: "pyfloat option"
  dp_raw :: dict

definition is_ready :: "deployment \<Rightarrow> bool" where
  "is_ready d \<longleftrightarrow> dp_status d = Running \<and> dp_endpoint d \<noteq> None \<and> dp_endpoint d \<noteq> Some []"

subsection \<open>manifest.py\<close>

record manifest_options =
  mo_models :: "string list option"
  mo_input :: "pyfloat option"
  mo_output :: "pyfloat option"
  mo_unit :: "string option"
  mo_max_context :: int
  mo_max_concurrency :: "int option"
  mo_logging :: string
  mo_privacy :: "string list option"
  mo_published :: "string option"

definition default_options :: manifest_options where
  "default_options = \<lparr>mo_models = None, mo_input = None, mo_output = None, mo_unit = None, mo_max_context = 4096,
     mo_max_concurrency = None, mo_logging = ''no_prompt_logging'', mo_privacy = None, mo_published = None\<rparr>"

text \<open>\<^verbatim>\<open>a if a is not None else (b or c)\<close>\<close>

definition pick :: "'a option \<Rightarrow> 'a option \<Rightarrow> ('a \<Rightarrow> bool) \<Rightarrow> 'a \<Rightarrow> 'a" where
  "pick a b true c = (case a of Some x \<Rightarrow> x | None \<Rightarrow> (case b of Some y \<Rightarrow> if true y then y else c | None \<Rightarrow> c))"

definition external_manifest :: "platform \<Rightarrow> deployment \<Rightarrow> string \<Rightarrow> keypair \<Rightarrow> manifest_options \<Rightarrow> int \<Rightarrow> dict" where
  "external_manifest P d endpoint kp o' now = optional_field ''max_concurrency'' (map_option JInt (mo_max_concurrency o'))
     [(''schema'', JStr provider_manifest_schema), (''provider_pubkey'', JStr (public_key_str P kp)),
      (''node_type'', JStr ''external-adapter''),
      (''models'', jstrs (case mo_models o' of None \<Rightarrow> [dp_model d] | Some ms \<Rightarrow> ms)),
      (''runtime_adapters'', jstrs [dp_provider d]),
      (''pricing'', JObj [(''unit'', JStr (pick (mo_unit o') (dp_unit d) (\<lambda>u. u \<noteq> []) ''usdc'')),
         (''input_per_1m'', JFloat (pick (mo_input o') (dp_input d) (\<lambda>x. x \<noteq> Fin 0) (Fin 0))),
         (''output_per_1m'', JFloat (pick (mo_output o') (dp_output d) (\<lambda>x. x \<noteq> Fin 0) (Fin 0)))]),
      (''max_context'', JInt (mo_max_context o')), (''logging_policy'', JStr (mo_logging o')),
      (''privacy_modes'', jstrs (case mo_privacy o' of None \<Rightarrow> [''direct''] | Some ms \<Rightarrow> ms)),
      (''manifest_uri'', JStr endpoint),
      (''published_at'', JStr (case mo_published o' of None \<Rightarrow> utc_iso now | Some t \<Rightarrow> if t = [] then utc_iso now else t))]"

definition provider_manifest_for :: "platform \<Rightarrow> deployment \<Rightarrow> keypair \<Rightarrow> manifest_options \<Rightarrow> int \<Rightarrow> dict res" where
  "provider_manifest_for P d kp o' now = (case dp_endpoint d of
     None \<Rightarrow> Inl ComputeError
   | Some endpoint \<Rightarrow> if endpoint = [] then Inl ComputeError
       else sign_provider_manifest P (external_manifest P d endpoint kp o' now) kp)"

subsection \<open>provider.py: the registry\<close>

type_synonym 'f factories = "(string \<times> 'f) list"

definition register_provider :: "string \<Rightarrow> 'f \<Rightarrow> 'f factories \<Rightarrow> 'f factories" where
  "register_provider name factory reg = dict_set name factory reg"

definition get_provider_factory :: "'f factories \<Rightarrow> string \<Rightarrow> 'f res" where
  "get_provider_factory reg name = (case dict_get reg name of None \<Rightarrow> Inl ComputeError | Some f \<Rightarrow> Inr f)"

definition available_providers :: "'f factories \<Rightarrow> string list" where
  "available_providers reg = isort_by str_le (map fst reg)"

definition build_provider :: "('a \<Rightarrow> 'p res) factories \<Rightarrow> string \<Rightarrow> 'a \<Rightarrow> 'p res" where
  "build_provider reg name args = rbind (get_provider_factory reg name) (\<lambda>f. f args)"

lemma register_then_get:
  "get_provider_factory (register_provider name f reg) other = (if other = name then Inr f else get_provider_factory reg other)"
  by (simp add: get_provider_factory_def register_provider_def dict_simps)

subsection \<open>Running commands\<close>

record 's shell =
  run :: "string list \<Rightarrow> ('s, json option) act"
  pause :: "'s \<Rightarrow> 's"

text \<open>The state of an adapter: the world its commands act on, and the temporary files.\<close>

record 'w host =
  outer :: 'w
  temp_files :: "(string \<times> json) list"

definition run_on :: "'w shell \<Rightarrow> string list \<Rightarrow> ('w host, json option) act" where
  "run_on S argv h = (case run S argv (outer h) of (r, w) \<Rightarrow> (r, h\<lparr>outer := w\<rparr>))"

text \<open>\<^verbatim>\<open>mkstemp\<close>, the body, and the \<^verbatim>\<open>finally\<close> that unlinks the file.\<close>

definition with_temp :: "string \<Rightarrow> json \<Rightarrow> ('w host, 'a) act \<Rightarrow> ('w host, 'a) act" where
  "with_temp name content body h =
     (case body (h\<lparr>temp_files := dict_set name content (temp_files h)\<rparr>) of
        (r, h') \<Rightarrow> (r, h'\<lparr>temp_files := dict_without name (temp_files h')\<rparr>))"

text \<open>\<^verbatim>\<open>await_ready\<close>: \<open>n\<close> polls are left. Both adapters have this loop.\<close>

fun poll :: "(deployment \<Rightarrow> ('s, deployment) act) \<Rightarrow> ('s \<Rightarrow> 's) \<Rightarrow> nat \<Rightarrow> deployment \<Rightarrow> ('s, deployment) act" where
  "poll refresh rest 0 d = aret d"
| "poll refresh rest (Suc n) d = (if is_ready d \<or> is_terminal (dp_status d) then aret d
     else (\<lambda>s. abind (refresh d) (poll refresh rest n) (rest s)))"

definition await_ready ::
  "(deployment \<Rightarrow> ('s, deployment) act) \<Rightarrow> ('s \<Rightarrow> 's) \<Rightarrow> int \<Rightarrow> deployment \<Rightarrow> ('s, deployment) act" where
  "await_ready refresh rest max_polls d = abind (refresh d) (poll refresh rest (nat max_polls))"

subsection \<open>The contract of a provider\<close>

text \<open>What is fixed when a node is deployed.\<close>

definition deal :: "deployment \<Rightarrow> string \<times> string \<times> string \<times> string option \<times> pyfloat option \<times> pyfloat option" where
  "deal d = (dp_provider d, dp_id d, dp_model d, dp_unit d, dp_input d, dp_output d)"

definition stamped :: "inference_spec \<Rightarrow> deployment \<Rightarrow> bool" where
  "stamped s d \<longleftrightarrow> dp_model d = sp_model s \<and> dp_unit d = Some (sp_unit s) \<and> dp_input d = Some (sp_input_per_1m s) \<and>
     dp_output d = Some (sp_output_per_1m s)"

text \<open>One refresh after another, with the pause in between.\<close>

fun refreshes :: "(deployment \<Rightarrow> ('s, deployment) act) \<Rightarrow> ('s \<Rightarrow> 's) \<Rightarrow> nat \<Rightarrow> deployment \<Rightarrow> ('s, deployment) act" where
  "refreshes refresh rest 0 d = refresh d"
| "refreshes refresh rest (Suc k) d = abind (refreshes refresh rest k d) (\<lambda>d s. refresh d (rest s))"

locale compute_provider =
  fixes deploy :: "inference_spec \<Rightarrow> ('s, deployment) act"
    and refresh :: "deployment \<Rightarrow> ('s, deployment) act"
  assumes deploy_stamps: "deploy sp s = (Inr d, t) \<Longrightarrow> stamped sp d"
    and refresh_keeps: "refresh d s = (Inr d', t) \<Longrightarrow> deal d' = deal d"
begin

lemma poll_keeps: "poll refresh rest n d s = (Inr d', t) \<Longrightarrow> deal d' = deal d"
proof (induction n arbitrary: d s)
  case (Suc n)
  then show ?case by (auto simp: abind_eq_Inr split: if_splits dest: refresh_keeps)
qed simp

lemma await_keeps: "await_ready refresh rest m d s = (Inr d', t) \<Longrightarrow> deal d' = deal d"
  unfolding await_ready_def abind_eq_Inr by (metis refresh_keeps poll_keeps)

lemma deploy_await_stamped:
  "deploy sp s = (Inr d, t) \<Longrightarrow> await_ready refresh rest m d t' = (Inr d', u) \<Longrightarrow> stamped sp d'"
  using deploy_stamps await_keeps by (fastforce simp: deal_def stamped_def)

end

text \<open>The loop as an unrolled sequence of refreshes: at most one more than the cap, stopping at the first that is ready or
  terminal.\<close>

definition stops :: "deployment \<Rightarrow> bool" where
  "stops d \<longleftrightarrow> is_ready d \<or> is_terminal (dp_status d)"

lemma poll_unrolled:
  assumes "refreshes refresh rest k d s = (Inr d1, s1)" "poll refresh rest n d1 s1 = (r, t)"
  shows "\<exists>j\<le>n. refreshes refresh rest (k + j) d s = (r, t) \<and> (\<forall>d'. r = Inr d' \<longrightarrow> stops d' \<or> j = n) \<and>
    (\<forall>i<j. \<exists>d' u. refreshes refresh rest (k + i) d s = (Inr d', u) \<and> \<not> stops d')"
  using assms
proof (induction n arbitrary: k d1 s1)
  case 0
  then show ?case by (auto simp: aret_def)
next
  case (Suc n)
  show ?case
  proof (cases "stops d1")
    case True
    then have "r = Inr d1" "t = s1" using Suc.prems(2) by (auto simp: stops_def aret_def split: if_splits)
    then show ?thesis using True Suc.prems(1) by (intro exI [of _ 0]) auto
  next
    case False
    then have go: "abind (refresh d1) (poll refresh rest n) (rest s1) = (r, t)" using Suc.prems(2) by (simp add: stops_def)
    have next': "refreshes refresh rest (Suc k) d s = refresh d1 (rest s1)"
      using Suc.prems(1) by (simp add: abind_def)
    obtain q u where q: "refresh d1 (rest s1) = (q, u)" by fastforce
    show ?thesis
    proof (cases q)
      case (Inl e)
      then have "refreshes refresh rest (k + 1) d s = (r, t)" "r = Inl e" using go next' q by (auto simp: abind_def)
      then show ?thesis using False Suc.prems(1) by (intro exI [of _ 1]) auto
    next
      case (Inr d2)
      have "refreshes refresh rest (Suc k) d s = (Inr d2, u)" using next' q Inr by simp
      moreover have "poll refresh rest n d2 u = (r, t)" using go q Inr by (simp add: abind_def)
      ultimately obtain j where j: "j \<le> n" "refreshes refresh rest (Suc k + j) d s = (r, t)" "\<forall>d'. r = Inr d' \<longrightarrow> stops d' \<or> j = n"
        "\<forall>i<j. \<exists>d' u. refreshes refresh rest (Suc k + i) d s = (Inr d', u) \<and> \<not> stops d'"
        using Suc.IH by meson
      have "\<exists>d' u. refreshes refresh rest (k + i) d s = (Inr d', u) \<and> \<not> stops d'" if "i < Suc j" for i
        using that j(4) False Suc.prems(1) by (cases i) auto
      then show ?thesis using j(1-3) by (intro exI [of _ "Suc j"]) auto
    qed
  qed
qed

lemma await_unrolled:
  assumes "await_ready refresh rest m d s = (r, t)"
  shows "\<exists>k\<le>nat m. refreshes refresh rest k d s = (r, t) \<and> (\<forall>d'. r = Inr d' \<longrightarrow> stops d' \<or> k = nat m) \<and>
    (\<forall>i<k. \<exists>d' u. refreshes refresh rest i d s = (Inr d', u) \<and> \<not> stops d')"
proof -
  obtain q u where q: "refresh d s = (q, u)" by fastforce
  show ?thesis
  proof (cases q)
    case (Inl e)
    then show ?thesis using assms q by (intro exI [of _ 0]) (auto simp: await_ready_def abind_def)
  next
    case (Inr d1)
    then show ?thesis using poll_unrolled [of refresh rest 0 d s d1 u "nat m" r t] assms q by (simp add: await_ready_def abind_def)
  qed
qed

lemma pick_stamped: "pick None (Some x) true c = (if true x then x else c)"
  by (simp add: pick_def)

end
