(* ===== verification/Akash.thy ===== *)
theory Akash
  imports Compute Router
begin

text \<open>
  \<^verbatim>\<open>adapters/provider-akash\<close>: the deployment description, the lifecycle commands, and what is read back from their
  output.
\<close>

subsection \<open>sdl.py\<close>

definition sdl_service :: "inference_spec \<Rightarrow> json" where
  "sdl_service s = JObj (optional_field ''command'' (case sp_command s of None \<Rightarrow> None | Some c \<Rightarrow> if c = [] then None else Some (jstrs c))
     (optional_field ''env'' (if sp_env s = [] then None else Some (jstrs (map (\<lambda>(k, v). k @ ''='' @ v) (sp_env s))))
       [(''image'', JStr (sp_image s)),
        (''expose'', JArr [JObj [(''port'', JInt (sp_port s)), (''as'', JInt 80), (''to'', JArr [JObj [(''global'', JBool True)]])]])]))"

definition sdl_resources :: "inference_spec \<Rightarrow> json" where
  "sdl_resources s = JObj ([(''cpu'', JObj [(''units'', JStr (sp_cpu s))]), (''memory'', JObj [(''size'', JStr (sp_memory s))]),
      (''storage'', JObj [(''size'', JStr ''16Gi'')])] @
     (if sp_gpu s then [(''gpu'', JObj ([(''units'', JInt 1)] @
        (case sp_gpu_model s of None \<Rightarrow> [] | Some m \<Rightarrow> if m = [] then []
          else [(''attributes'', JObj [(''vendor'', JObj [(''nvidia'', JArr [JObj [(''model'', JStr m)]])])])])))] else []))"

definition build_sdl :: "inference_spec \<Rightarrow> int \<Rightarrow> string \<Rightarrow> json" where
  "build_sdl s price denom = JObj
     [(''version'', JStr ''2.0''), (''services'', JObj [(''sip-gateway'', sdl_service s)]),
      (''profiles'', JObj
         [(''compute'', JObj [(''sip-gateway'', JObj [(''resources'', sdl_resources s)])]),
          (''placement'', JObj [(''sovereign'', JObj [(''pricing'', JObj [(''sip-gateway'', JObj
             [(''denom'', JStr denom), (''amount'', JInt price)])])])])]),
      (''deployment'', JObj [(''sip-gateway'', JObj [(''sovereign'', JObj
         [(''profile'', JStr ''sip-gateway''), (''count'', JInt 1)])])])]"

subsection \<open>Reading the output\<close>

definition cli_object :: "json option \<Rightarrow> dict res" where
  "cli_object out = (case Option.bind out the_obj of None \<Rightarrow> Inl ComputeError | Some d \<Rightarrow> Inr d)"

definition as_int :: "json \<Rightarrow> int res" where
  "as_int v = (case v of JInt i \<Rightarrow> Inr i | JBool b \<Rightarrow> Inr (if b then 1 else 0) | JFloat f \<Rightarrow> truncate_float f
     | JStr s \<Rightarrow> (case int_of_str s of Inl _ \<Rightarrow> Inr 0 | Inr n \<Rightarrow> Inr n) | _ \<Rightarrow> Inr 0)"

definition require_tx_ok :: "dict \<Rightarrow> unit res" where
  "require_tx_ok parsed = rbind (as_int (get_or parsed ''code'' (JInt 0))) (\<lambda>code. if code \<noteq> 0 then Inl ComputeError else Inr ())"

text \<open>\<^verbatim>\<open>for x in (v or [])\<close>\<close>

definition items_of :: "json \<Rightarrow> json list res" where
  "items_of v = py_list (py_or v (JArr []))"

definition objects_in :: "json list \<Rightarrow> dict list" where
  "objects_in vs = List.map_filter the_obj vs"

definition iter_attributes :: "dict \<Rightarrow> dict list res" where
  "iter_attributes data =
     rbind (items_of (getn data ''logs'')) (\<lambda>logs.
     rbind (rmap (\<lambda>l. items_of (getn l ''events'')) (objects_in logs)) (\<lambda>groups.
     rbind (items_of (getn data ''events'')) (\<lambda>own.
     rbind (rmap (\<lambda>e. items_of (getn e ''attributes'')) (objects_in (concat groups @ own))) (\<lambda>attrs.
       Inr (objects_in (concat attrs))))))"

definition extract_dseq :: "dict \<Rightarrow> string option res" where
  "extract_dseq data = (case getn data ''dseq'' of
       JStr s \<Rightarrow> Inr (Some s) | JInt i \<Rightarrow> Inr (Some (str_of_int i)) | JBool b \<Rightarrow> Inr (Some (py_str (JBool b)))
     | _ \<Rightarrow> rbind (iter_attributes data) (\<lambda>attrs.
         Inr (case find (\<lambda>a. getn a ''key'' = JStr ''dseq'' \<and> truthy (getn a ''value'')) attrs of
           None \<Rightarrow> None | Some a \<Rightarrow> Some (py_str (getn a ''value'')))))"

text \<open>\<^verbatim>\<open>(v.get(k) or {}).get(l)\<close>\<close>

definition nested_get :: "dict \<Rightarrow> string \<Rightarrow> string \<Rightarrow> json res" where
  "nested_get d k l = attr_get (py_or (getn d k) (JObj [])) l"

definition offer_of :: "json \<Rightarrow> (json \<times> json) res" where
  "offer_of entry = (case Option.bind (the_obj entry) (\<lambda>d. the_obj (get_or d ''bid'' entry)) of
     None \<Rightarrow> Inr (JNull, JNull)
   | Some bid \<Rightarrow> rbind (nested_get bid ''bid_id'' ''provider'') (\<lambda>p. rbind (nested_get bid ''price'' ''amount'') (\<lambda>a. Inr (p, a))))"

definition bid_price :: "json \<Rightarrow> pyfloat res" where
  "bid_price raw = (if raw = JNull then Inr PInf else (case py_float raw of
     Inl TypeError \<Rightarrow> Inr PInf | Inl ValueError \<Rightarrow> Inr PInf | r \<Rightarrow> r))"

definition consider_bid :: "json \<Rightarrow> (pyfloat \<times> string) option \<Rightarrow> (pyfloat \<times> string) option res" where
  "consider_bid entry best = rbind (offer_of entry) (\<lambda>(provider, raw).
     if \<not> truthy provider then Inr best
     else rbind (bid_price raw) (\<lambda>price. Inr (case best of
         None \<Rightarrow> Some (price, py_str provider)
       | Some (low, p) \<Rightarrow> if flt price low then Some (price, py_str provider) else Some (low, p))))"

definition pick_cheapest_bid :: "dict \<Rightarrow> string option res" where
  "pick_cheapest_bid data = (case the_arr (getn data ''bids'') of
     None \<Rightarrow> Inr None
   | Some bids \<Rightarrow> rbind (rfold consider_bid bids None) (\<lambda>best. Inr (map_option snd best)))"

definition https_uri :: "string \<Rightarrow> string" where
  "https_uri uri = (if contains_text ''://'' uri then uri else ''https://'' @ uri)"

fun first_uri :: "json list \<Rightarrow> string option" where
  "first_uri [] = None"
| "first_uri (JStr s # vs) = (if s = [] then first_uri vs else Some (https_uri s))"
| "first_uri (v # vs) = first_uri vs"

fun services_uri :: "json list \<Rightarrow> string option res" where
  "services_uri [] = Inr None"
| "services_uri (v # vs) = (case the_obj v of None \<Rightarrow> services_uri vs
     | Some service \<Rightarrow> rbind (items_of (getn service ''uris'')) (\<lambda>uris.
         case first_uri uris of Some u \<Rightarrow> Inr (Some u) | None \<Rightarrow> services_uri vs))"

definition extract_uri :: "dict \<Rightarrow> string option res" where
  "extract_uri data = (case the_obj (getn data ''services'') of None \<Rightarrow> Inr None | Some d \<Rightarrow> services_uri (map snd d))"

fun any_available :: "json list \<Rightarrow> bool res" where
  "any_available [] = Inr False"
| "any_available (v # vs) = (case the_obj v of None \<Rightarrow> any_available vs
     | Some service \<Rightarrow> rbind (as_int (getn service ''available'')) (\<lambda>n. if 1 \<le> n then Inr True else any_available vs))"

definition service_available :: "dict \<Rightarrow> bool res" where
  "service_available data = (case the_obj (getn data ''services'') of None \<Rightarrow> Inr False | Some d \<Rightarrow> any_available (map snd d))"

subsection \<open>AkashProvider\<close>

record akash =
  ak_wallet :: string
  ak_owner :: string
  ak_cli :: string
  ak_gseq :: int
  ak_oseq :: int
  ak_chain :: "string list"
  ak_max_polls :: int

definition tx_args :: "akash \<Rightarrow> string list" where
  "tx_args c = [''-o'', ''json'', ''-y''] @ ak_chain c"

definition query_args :: "akash \<Rightarrow> string list" where
  "query_args c = [''-o'', ''json''] @ ak_chain c"

definition lease_id_args :: "akash \<Rightarrow> string \<Rightarrow> string \<Rightarrow> string list" where
  "lease_id_args c dseq provider =
     [''--owner'', ak_owner c, ''--dseq'', dseq, ''--gseq'', str_of_int (ak_gseq c), ''--oseq'', str_of_int (ak_oseq c),
      ''--provider'', provider]"

definition create_argv :: "akash \<Rightarrow> string \<Rightarrow> string list" where
  "create_argv c sdl_path = [ak_cli c, ''tx'', ''deployment'', ''create'', sdl_path, ''--from'', ak_wallet c] @ tx_args c"

definition bids_argv :: "akash \<Rightarrow> string \<Rightarrow> string list" where
  "bids_argv c dseq = [ak_cli c, ''query'', ''market'', ''bid'', ''list'', ''--owner'', ak_owner c, ''--dseq'', dseq] @ query_args c"

definition lease_argv :: "akash \<Rightarrow> string \<Rightarrow> string \<Rightarrow> string list" where
  "lease_argv c dseq provider =
     [ak_cli c, ''tx'', ''market'', ''lease'', ''create''] @ lease_id_args c dseq provider @ [''--from'', ak_wallet c] @ tx_args c"

definition manifest_argv :: "akash \<Rightarrow> string \<Rightarrow> string \<Rightarrow> string \<Rightarrow> string list" where
  "manifest_argv c sdl_path dseq provider =
     [ak_cli c, ''send-manifest'', sdl_path, ''--dseq'', dseq, ''--provider'', provider, ''--from'', ak_wallet c] @ ak_chain c"

definition status_argv :: "akash \<Rightarrow> string \<Rightarrow> string \<Rightarrow> string \<Rightarrow> string list" where
  "status_argv c owner dseq provider =
     [ak_cli c, ''lease-status'', ''--owner'', owner, ''--dseq'', dseq, ''--gseq'', str_of_int (ak_gseq c),
      ''--oseq'', str_of_int (ak_oseq c), ''--provider'', provider] @ query_args c"

definition close_argv :: "akash \<Rightarrow> string \<Rightarrow> string \<Rightarrow> string list" where
  "close_argv c owner dseq =
     [ak_cli c, ''tx'', ''deployment'', ''close'', ''--owner'', owner, ''--dseq'', dseq, ''--from'', ak_wallet c] @ tx_args c"

text \<open>A command whose output must be an object.\<close>

definition run_json :: "'w shell \<Rightarrow> string list \<Rightarrow> ('w host, dict) act" where
  "run_json S argv = abind (run_on S argv) (\<lambda>out. alift (cli_object out))"

definition create_deployment :: "'w shell \<Rightarrow> akash \<Rightarrow> string \<Rightarrow> ('w host, string) act" where
  "create_deployment S c sdl_path = abind (run_json S (create_argv c sdl_path)) (\<lambda>created.
     abind (alift (require_tx_ok created)) (\<lambda>_.
     abind (alift (extract_dseq created)) (\<lambda>dseq. case dseq of None \<Rightarrow> alift (Inl ComputeError) | Some d \<Rightarrow> aret d)))"

definition choose_bid :: "'w shell \<Rightarrow> akash \<Rightarrow> string \<Rightarrow> ('w host, string) act" where
  "choose_bid S c dseq = abind (run_json S (bids_argv c dseq)) (\<lambda>bids.
     abind (alift (pick_cheapest_bid bids)) (\<lambda>best. case best of None \<Rightarrow> alift (Inl ComputeError) | Some p \<Rightarrow> aret p))"

definition take_lease :: "'w shell \<Rightarrow> akash \<Rightarrow> string \<Rightarrow> string \<Rightarrow> string \<Rightarrow> ('w host, json option) act" where
  "take_lease S c sdl_path dseq provider = abind (run_json S (lease_argv c dseq provider)) (\<lambda>lease.
     abind (alift (require_tx_ok lease)) (\<lambda>_. run_on S (manifest_argv c sdl_path dseq provider)))"

definition akash_handle :: "akash \<Rightarrow> inference_spec \<Rightarrow> string \<Rightarrow> string \<Rightarrow> deployment" where
  "akash_handle c s dseq provider =
     \<lparr>dp_provider = ''akash'', dp_id = dseq, dp_model = sp_model s, dp_status = Deploying, dp_endpoint = None,
      dp_unit = Some (sp_unit s), dp_input = Some (sp_input_per_1m s), dp_output = Some (sp_output_per_1m s),
      dp_raw = [(''owner'', JStr (ak_owner c)), (''dseq'', JStr dseq), (''provider'', JStr provider),
        (''gseq'', JInt (ak_gseq c)), (''oseq'', JInt (ak_oseq c))]\<rparr>"

definition akash_deploy :: "'w shell \<Rightarrow> akash \<Rightarrow> string \<Rightarrow> inference_spec \<Rightarrow> ('w host, deployment) act" where
  "akash_deploy S c sdl_path s =
     abind (with_temp sdl_path (build_sdl s 10000 ''uakt'')
       (abind (create_deployment S c sdl_path) (\<lambda>dseq.
        abind (choose_bid S c dseq) (\<lambda>provider.
        abind (take_lease S c sdl_path dseq provider) (\<lambda>_. aret (dseq, provider))))))
       (\<lambda>(dseq, provider). aret (akash_handle c s dseq provider))"

definition lease_coordinates :: "deployment \<Rightarrow> (string \<times> string \<times> string) res" where
  "lease_coordinates d = (let owner = getn (dp_raw d) ''owner''; dseq = getn (dp_raw d) ''dseq''; provider = getn (dp_raw d) ''provider'' in
     if truthy owner \<and> truthy dseq \<and> truthy provider then Inr (py_str owner, py_str dseq, py_str provider) else Inl ComputeError)"

definition akash_refreshed :: "deployment \<Rightarrow> dict \<Rightarrow> deployment res" where
  "akash_refreshed d data =
     rbind (extract_uri data) (\<lambda>uri.
     rbind (if uri \<noteq> None \<and> uri \<noteq> Some [] then service_available data else Inr False) (\<lambda>ready.
       Inr (d\<lparr>dp_status := (if ready then Running else Deploying), dp_endpoint := (if ready then uri else dp_endpoint d),
              dp_raw := dict_set ''lease_status'' (JObj data) (dp_raw d)\<rparr>)))"

definition akash_status :: "'w shell \<Rightarrow> akash \<Rightarrow> deployment \<Rightarrow> ('w host, deployment) act" where
  "akash_status S c d = abind (alift (lease_coordinates d)) (\<lambda>(owner, dseq, provider).
     abind (run_json S (status_argv c owner dseq provider)) (\<lambda>data. alift (akash_refreshed d data)))"

definition rest_on :: "'w shell \<Rightarrow> 'w host \<Rightarrow> 'w host" where
  "rest_on S h = h\<lparr>outer := pause S (outer h)\<rparr>"

definition akash_await :: "'w shell \<Rightarrow> akash \<Rightarrow> deployment \<Rightarrow> ('w host, deployment) act" where
  "akash_await S c = await_ready (akash_status S c) (rest_on S) (ak_max_polls c)"

definition akash_teardown :: "'w shell \<Rightarrow> akash \<Rightarrow> deployment \<Rightarrow> ('w host, unit) act" where
  "akash_teardown S c d = abind (alift (lease_coordinates d)) (\<lambda>(owner, dseq, provider) h.
     case run_on S (close_argv c owner dseq) h of
       (Inl e, h') \<Rightarrow> (Inl (if e = ProcessError \<or> e = OSError then ComputeError else e), h')
     | (Inr _, h') \<Rightarrow> (Inr (), h'))"

subsection \<open>The contract\<close>

lemma akash_deploy_handle:
  "akash_deploy S c p s h = (Inr d, h') \<Longrightarrow> \<exists>dseq provider. d = akash_handle c s dseq provider"
  by (auto simp: akash_deploy_def abind_eq_Inr)

interpretation akash_net: compute_provider "akash_deploy S c p" "akash_status S c" for S c p
proof
  show "stamped s d" if "akash_deploy S c p s h = (Inr d, t)" for s h d t
    using akash_deploy_handle [OF that] by (auto simp: stamped_def akash_handle_def)
  show "deal d' = deal d" if "akash_status S c d h = (Inr d', t)" for d h d' t
    using that by (auto simp: akash_status_def abind_eq_Inr akash_refreshed_def rbind_eq_Inr deal_def)
qed

subsection \<open>Bids\<close>

definition offers :: "json list \<Rightarrow> pyfloat \<Rightarrow> string \<Rightarrow> bool" where
  "offers bids price provider \<longleftrightarrow> (\<exists>b\<in>set bids. \<exists>p raw. offer_of b = Inr (p, raw) \<and> truthy p \<and> provider = py_str p \<and> bid_price raw = Inr price)"

lemma offers_snoc: "offers (bids @ [b]) price p \<longleftrightarrow> offers bids price p \<or>
    (\<exists>v raw. offer_of b = Inr (v, raw) \<and> truthy v \<and> p = py_str v \<and> bid_price raw = Inr price)"
  by (auto simp: offers_def)

text \<open>The price of the first bid that names a provider.\<close>

definition offered_price :: "json \<Rightarrow> pyfloat option res" where
  "offered_price b = rbind (offer_of b) (\<lambda>(p, raw). if truthy p then rbind (bid_price raw) (\<lambda>x. Inr (Some x)) else Inr None)"

fun leading_price :: "json list \<Rightarrow> pyfloat option" where
  "leading_price [] = None"
| "leading_price (b # bids) = (case offered_price b of Inr (Some x) \<Rightarrow> Some x | _ \<Rightarrow> leading_price bids)"

definition best_of :: "json list \<Rightarrow> (pyfloat \<times> string) option \<Rightarrow> bool" where
  "best_of bids best \<longleftrightarrow> (case best of None \<Rightarrow> \<forall>price p. \<not> offers bids price p
     | Some (low, p) \<Rightarrow> low \<noteq> NaN \<and> offers bids low p \<and> (\<forall>price q. offers bids price q \<longrightarrow> price = NaN \<or> fle low price))"

lemma leading_offer: "leading_price bids = None \<Longrightarrow> \<not> offers bids price p"
  by (induction bids) (auto simp: offers_def offered_price_def split: sum.splits option.splits)

lemma leading_snoc: "leading_price (bids @ [b]) = (case leading_price bids of Some x \<Rightarrow> Some x | None \<Rightarrow> leading_price [b])"
  by (induction bids) (auto split: sum.splits option.splits)

lemma offers_cons: "offers (b # bids) price p \<longleftrightarrow> (\<exists>v raw. offer_of b = Inr (v, raw) \<and> truthy v \<and> p = py_str v \<and> bid_price raw = Inr price) \<or>
    offers bids price p"
  by (auto simp: offers_def)

lemma leading_exists: "leading_price bids = Some x \<Longrightarrow> \<exists>p. offers bids x p"
  by (induction bids) (auto simp: offers_cons offered_price_def rbind_eq_Inr split: sum.splits option.splits if_splits)

lemma consider_best:
  assumes "consider_bid b best = Inr best'" "best_of bids best" "leading_price (bids @ [b]) \<noteq> Some NaN"
  shows "best_of (bids @ [b]) best'"
proof -
  obtain v raw where o': "offer_of b = Inr (v, raw)"
    and c: "(if \<not> truthy v then Inr best else rbind (bid_price raw) (\<lambda>price. Inr (case best of
         None \<Rightarrow> Some (price, py_str v)
       | Some (low, p) \<Rightarrow> if flt price low then Some (price, py_str v) else Some (low, p)))) = Inr best'"
    using assms(1) by (auto simp: consider_bid_def rbind_eq_Inr)
  show ?thesis
  proof (cases "truthy v")
    case False
    then show ?thesis using c assms(2) o' by (auto simp: best_of_def offers_snoc split: option.splits)
  next
    case True
    then obtain price where price: "bid_price raw = Inr price"
      and b': "best' = (case best of None \<Rightarrow> Some (price, py_str v)
         | Some (low, p) \<Rightarrow> if flt price low then Some (price, py_str v) else Some (low, p))"
      using c by (auto simp: rbind_eq_Inr)
    have new: "offers (bids @ [b]) q p \<longleftrightarrow> offers bids q p \<or> q = price \<and> p = py_str v" for q p
      using o' True price by (auto simp: offers_snoc)
    show ?thesis
    proof (cases best)
      case None
      then have "leading_price bids = None" using assms(2) leading_exists [of bids] by (cases "leading_price bids") (auto simp: best_of_def)
      then have "price \<noteq> NaN" using assms(3) o' True price by (simp add: leading_snoc offered_price_def)
      then show ?thesis using None assms(2) b' by (auto simp: best_of_def new fle_refl)
    next
      case (Some lp)
      obtain low p where lp: "lp = (low, p)" by fastforce
      have low: "low \<noteq> NaN" "offers bids low p" "\<And>q r. offers bids q r \<Longrightarrow> q = NaN \<or> fle low q"
        using assms(2) Some lp by (auto simp: best_of_def)
      show ?thesis
      proof (cases "flt price low")
        case True
        then have num: "price \<noteq> NaN" and "fle price low" by (auto simp: flt_def)
        then have "q = NaN \<or> fle price q" if "offers bids q r" for q r using low(3) [OF that] fle_trans by blast
        then show ?thesis using True Some lp b' num by (auto simp: best_of_def new fle_refl)
      next
        case False
        then have "price = NaN \<or> fle low price" using fle_total [of price low] low(1) by (auto simp: flt_def)
        then show ?thesis using False Some lp b' low by (auto simp: best_of_def new)
      qed
    qed
  qed
qed

lemma best_bid:
  assumes "rfold consider_bid bids None = Inr best" "leading_price bids \<noteq> Some NaN"
  shows "best_of bids best"
  using assms
proof (induction bids arbitrary: best rule: rev_induct)
  case Nil
  then show ?case by (simp add: best_of_def offers_def)
next
  case (snoc b bids)
  obtain mid where "rfold consider_bid bids None = Inr mid" "consider_bid b mid = Inr best"
    using snoc.prems(1) by (auto simp: rfold_append rbind_eq_Inr)
  moreover have "leading_price bids \<noteq> Some NaN" using snoc.prems(2) by (auto simp: leading_snoc)
  ultimately show ?case using snoc.IH consider_best snoc.prems(2) by blast
qed

subsection \<open>Properties\<close>

text \<open>C31. The chosen bid is the cheapest of all that are listed: as long as the first bid that names a provider has a price
  that is not a NaN, the provider chosen offers a price no other undercuts, whatever NaN comes later, an
  unreadable price counting as infinite; without a bid that names a provider none is chosen. The bids are all
  those of the list: their state is not read.\<close>

theorem cheapest_bid_chosen:
  assumes "pick_cheapest_bid data = Inr best" "getn data ''bids'' = JArr bids" "leading_price bids \<noteq> Some NaN"
  shows "case best of None \<Rightarrow> \<forall>price p. \<not> offers bids price p
    | Some p \<Rightarrow> \<exists>low. low \<noteq> NaN \<and> offers bids low p \<and> (\<forall>price q. offers bids price q \<longrightarrow> price = NaN \<or> fle low price)"
proof -
  obtain b where b: "rfold consider_bid bids None = Inr b" "best = map_option snd b"
    using assms(1,2) by (auto simp: pick_cheapest_bid_def rbind_eq_Inr)
  have "best_of bids b" by (rule best_bid [OF b(1) assms(3)])
  then show ?thesis using b(2) by (cases b) (auto simp: best_of_def)
qed

text \<open>The docstring promises the cheapest open bid. The state of a bid has no influence: the choice is the same under any
  assignment of states, so a closed bid wins if it is the cheapest.\<close>

definition listed_bid :: "dict \<Rightarrow> json" where
  "listed_bid d = JObj [(''bid'', JObj d)]"

lemma state_unread: "consider_bid (listed_bid (dict_set ''state'' v d)) = consider_bid (listed_bid d)"
  by (simp add: fun_eq_iff consider_bid_def offer_of_def listed_bid_def get_or_def nested_get_def dict_simps)

theorem bid_state_ignored:
  "pick_cheapest_bid [(''bids'', JArr (map (\<lambda>d. listed_bid (dict_set ''state'' (state d) d)) ds))] =
   pick_cheapest_bid [(''bids'', JArr (map listed_bid ds))]"
proof -
  have "rfold consider_bid (map (\<lambda>d. listed_bid (dict_set ''state'' (state d) d)) ds) = rfold consider_bid (map listed_bid ds)"
    by (induction ds) (simp_all add: fun_eq_iff [of "rfold consider_bid (_ # _)"] fun_eq_iff [of "rfold consider_bid []"] state_unread)
  then show ?thesis by (simp add: pick_cheapest_bid_def getn_def)
qed

text \<open>A first bid whose price reads as a NaN wins against every other, because nothing compares less than it.\<close>

theorem nan_bid_wins:
  assumes "offer_of b = Inr (p, raw)" "truthy p" "bid_price raw = Inr NaN"
    and "rfold consider_bid (b # bids) None = Inr best"
  shows "best = Some (NaN, py_str p)"
proof -
  have "rfold consider_bid bids (Some (NaN, py_str p)) = Inr best"
    using assms by (simp add: consider_bid_def)
  moreover have "\<not> fle a NaN" for a by (cases a) auto
  ultimately show ?thesis by (induction bids) (auto simp: consider_bid_def rbind_eq_Inr flt_def split: if_splits)
qed

text \<open>A deployment that fails after it was created is left running: when no bid can be chosen, \<^verbatim>\<open>deploy\<close> raises and the
  last command it ran is the bid list. No command closes the deployment, whose identifier is lost with the
  exception; only the temporary file is removed.\<close>

theorem failed_deploy_leaks:
  assumes "run S (create_argv c name) (outer h) = (Inr (Some (JObj created)), w1)"
    and "require_tx_ok created = Inr ()" "extract_dseq created = Inr (Some dseq)"
    and "run S (bids_argv c dseq) w1 = (Inr (Some (JObj bids)), w2)" "pick_cheapest_bid bids = Inr None"
    and "dict_get (temp_files h) name = None"
  shows "akash_deploy S c name s h = (Inl ComputeError, h\<lparr>outer := w2\<rparr>)"
proof -
  have tf: "dict_without name (dict_set name v (temp_files h)) = temp_files h" for v
    using assms(6) by (simp add: dict_without_set dict_without_absent)
  have "create_deployment S c name h1 = (Inr dseq, h1\<lparr>outer := w1\<rparr>)" if "outer h1 = outer h" for h1
    using that assms(1-3) by (simp add: create_deployment_def run_json_def run_on_def abind_def alift_def aret_def cli_object_def)
  moreover have "choose_bid S c dseq h1 = (Inl ComputeError, h1\<lparr>outer := w2\<rparr>)" if "outer h1 = w1" for h1
    using that assms(4,5) by (simp add: choose_bid_def run_json_def run_on_def abind_def alift_def aret_def cli_object_def)
  ultimately show ?thesis by (simp add: akash_deploy_def with_temp_def abind_def tf)
qed

end
