(* ===== verification/Nosana.thy ===== *)
theory Nosana
  imports Akash
begin

text \<open>
  \<^verbatim>\<open>adapters/provider-nosana\<close>: the job definition and the lifecycle, and what both adapters have in common.
\<close>

subsection \<open>job.py\<close>

definition job_args :: "inference_spec \<Rightarrow> json" where
  "job_args s = JObj (optional_field ''env'' (if sp_env s = [] then None else Some (JObj (map (\<lambda>(k, v). (k, JStr v)) (sp_env s))))
     (optional_field ''cmd'' (case sp_command s of None \<Rightarrow> None | Some c \<Rightarrow> if c = [] then None else Some (jstrs c))
       [(''image'', JStr (sp_image s)), (''gpu'', JBool (sp_gpu s)), (''expose'', JInt (sp_port s))]))"

definition build_job_definition :: "inference_spec \<Rightarrow> json" where
  "build_job_definition s = JObj
     [(''version'', JStr ''0.1''), (''type'', JStr ''container''), (''meta'', JObj [(''trigger'', JStr ''cli'')]),
      (''ops'', JArr [JObj [(''type'', JStr ''container/run''), (''id'', JStr ''sip-inference''), (''args'', job_args s)]])]"

subsection \<open>provider.py\<close>

definition state_map :: "(string \<times> deployment_status) list" where
  "state_map = [(''queued'', Pending), (''pending'', Pending), (''starting'', Deploying), (''running'', Running),
     (''completed'', Closed_status), (''stopped'', Closed_status), (''failed'', Failed_status)]"

definition job_id_keys :: "string list" where
  "job_id_keys = [''job'', ''address'', ''id'', ''job_address'']"

definition service_url_keys :: "string list" where
  "service_url_keys = [''serviceUrl'', ''service_url'', ''url'', ''exposed'']"

text \<open>A list stands for its first member.\<close>

definition nosana_object :: "json option \<Rightarrow> dict res" where
  "nosana_object out = (case out of None \<Rightarrow> Inl ComputeError
     | Some v \<Rightarrow> (case the_obj (case v of JArr [] \<Rightarrow> JObj [] | JArr (x # _) \<Rightarrow> x | _ \<Rightarrow> v) of
         None \<Rightarrow> Inl ComputeError | Some d \<Rightarrow> Inr d))"

definition first_text :: "dict \<Rightarrow> string list \<Rightarrow> string option" where
  "first_text data ks = (case List.map_filter (\<lambda>k. case the_str (getn data k) of Some s \<Rightarrow> if s = [] then None else Some s | None \<Rightarrow> None) ks of
     [] \<Rightarrow> None | s # _ \<Rightarrow> Some s)"

definition map_state :: "json \<Rightarrow> deployment_status option" where
  "map_state raw = (case the_str raw of None \<Rightarrow> None | Some s \<Rightarrow> map_of state_map (py_lower (py_strip s)))"

record nosana =
  ns_market :: string
  ns_cli :: string
  ns_timeout :: int
  ns_max_polls :: int

definition post_argv :: "nosana \<Rightarrow> string \<Rightarrow> string list" where
  "post_argv c job_path = [ns_cli c, ''job'', ''post'', ''--file'', job_path, ''--market'', ns_market c,
     ''--timeout'', str_of_int (ns_timeout c), ''--format'', ''json'']"

definition get_argv :: "nosana \<Rightarrow> string \<Rightarrow> string list" where
  "get_argv c job = [ns_cli c, ''job'', ''get'', job, ''--format'', ''json'']"

definition stop_argv :: "nosana \<Rightarrow> string \<Rightarrow> string list" where
  "stop_argv c job = [ns_cli c, ''job'', ''stop'', job]"

definition nosana_handle :: "inference_spec \<Rightarrow> dict \<Rightarrow> deployment res" where
  "nosana_handle s data = (case first_text data job_id_keys of
     None \<Rightarrow> Inl ComputeError
   | Some job \<Rightarrow> Inr \<lparr>dp_provider = ''nosana'', dp_id = job, dp_model = sp_model s,
       dp_status = (case map_state (getn data ''state'') of None \<Rightarrow> Pending | Some st \<Rightarrow> st),
       dp_endpoint = first_text data service_url_keys, dp_unit = Some (sp_unit s), dp_input = Some (sp_input_per_1m s),
       dp_output = Some (sp_output_per_1m s), dp_raw = data\<rparr>)"

definition nosana_deploy :: "'w shell \<Rightarrow> nosana \<Rightarrow> string \<Rightarrow> inference_spec \<Rightarrow> ('w host, deployment) act" where
  "nosana_deploy S c job_path s =
     abind (with_temp job_path (build_job_definition s) (run_on S (post_argv c job_path))) (\<lambda>out.
       alift (rbind (nosana_object out) (nosana_handle s)))"

definition nosana_refreshed :: "deployment \<Rightarrow> dict \<Rightarrow> deployment" where
  "nosana_refreshed d data =
     d\<lparr>dp_status := (case map_state (getn data ''state'') of None \<Rightarrow> dp_status d | Some st \<Rightarrow> st),
       dp_endpoint := (case first_text data service_url_keys of None \<Rightarrow> dp_endpoint d | Some u \<Rightarrow> Some u), dp_raw := data\<rparr>"

definition nosana_status :: "'w shell \<Rightarrow> nosana \<Rightarrow> deployment \<Rightarrow> ('w host, deployment) act" where
  "nosana_status S c d = abind (run_on S (get_argv c (dp_id d))) (\<lambda>out.
     alift (rbind (nosana_object out) (\<lambda>data. Inr (nosana_refreshed d data))))"

definition nosana_await :: "'w shell \<Rightarrow> nosana \<Rightarrow> deployment \<Rightarrow> ('w host, deployment) act" where
  "nosana_await S c = await_ready (nosana_status S c) (rest_on S) (ns_max_polls c)"

definition nosana_teardown :: "'w shell \<Rightarrow> nosana \<Rightarrow> deployment \<Rightarrow> ('w host, unit) act" where
  "nosana_teardown S c d h = (case run_on S (stop_argv c (dp_id d)) h of
     (Inl e, h') \<Rightarrow> (Inl (if e = ProcessError \<or> e = OSError then ComputeError else e), h')
   | (Inr _, h') \<Rightarrow> (Inr (), h'))"

interpretation nosana_net: compute_provider "nosana_deploy S c p" "nosana_status S c" for S c p
proof
  show "stamped s d" if "nosana_deploy S c p s h = (Inr d, t)" for s h d t
    using that by (auto simp: nosana_deploy_def abind_eq_Inr rbind_eq_Inr nosana_handle_def stamped_def split: option.splits)
  show "deal d' = deal d" if "nosana_status S c d h = (Inr d', t)" for d h d' t
    using that by (auto simp: nosana_status_def abind_eq_Inr rbind_eq_Inr nosana_refreshed_def deal_def)
qed

subsection \<open>Properties\<close>

text \<open>C30. Waiting ends: \<^verbatim>\<open>await_ready\<close> of either adapter is a finite sequence of refreshes, at most one more than the
  poll cap, with a pause before each but the first. It stops at the first that raises or is ready or terminal,
  and returns another state only when the cap is used up.\<close>

theorem waiting_ends:
  assumes "nosana_await S c d h = (r, t)" "akash_await S c' d' h' = (r', t')"
  shows "(\<exists>k\<le>nat (ns_max_polls c). refreshes (nosana_status S c) (rest_on S) k d h = (r, t) \<and>
      (\<forall>x. r = Inr x \<longrightarrow> stops x \<or> k = nat (ns_max_polls c)) \<and>
      (\<forall>i<k. \<exists>x u. refreshes (nosana_status S c) (rest_on S) i d h = (Inr x, u) \<and> \<not> stops x)) \<and>
    (\<exists>k\<le>nat (ak_max_polls c'). refreshes (akash_status S c') (rest_on S) k d' h' = (r', t') \<and>
      (\<forall>x. r' = Inr x \<longrightarrow> stops x \<or> k = nat (ak_max_polls c')) \<and>
      (\<forall>i<k. \<exists>x u. refreshes (akash_status S c') (rest_on S) i d' h' = (Inr x, u) \<and> \<not> stops x))"
  using await_unrolled [OF assms(1) [unfolded nosana_await_def]] await_unrolled [OF assms(2) [unfolded akash_await_def]] by blast

text \<open>C29. The advertised price is the provisioned one: a node deployed for a specification through either adapter, after
  any wait, is advertised with exactly the unit and the rates of the specification, its model, and the endpoint it
  was reached at.\<close>

theorem advertised_price_tied:
  assumes "akash_deploy S c p spec h = (Inr d, h1) \<and> akash_await S c d h2 = (Inr d', h3) \<or>
     nosana_deploy S c' p spec h = (Inr d, h1) \<and> nosana_await S c' d h2 = (Inr d', h3)"
    and "provider_manifest_for P d' kp default_options now = Inr m" "sp_unit spec \<noteq> []"
  shows "getn m ''pricing'' = JObj [(''unit'', JStr (sp_unit spec)), (''input_per_1m'', JFloat (sp_input_per_1m spec)),
      (''output_per_1m'', JFloat (sp_output_per_1m spec))] \<and> getn m ''models'' = jstrs [sp_model spec] \<and>
    (\<exists>u. dp_endpoint d' = Some u \<and> u \<noteq> [] \<and> getn m ''manifest_uri'' = JStr u)"
proof -
  have st: "stamped spec d'"
    using assms(1)
  proof (elim disjE conjE)
    assume "akash_deploy S c p spec h = (Inr d, h1)" "akash_await S c d h2 = (Inr d', h3)"
    then show ?thesis unfolding akash_await_def by (rule akash_net.deploy_await_stamped)
  next
    assume "nosana_deploy S c' p spec h = (Inr d, h1)" "nosana_await S c' d h2 = (Inr d', h3)"
    then show ?thesis unfolding nosana_await_def by (rule nosana_net.deploy_await_stamped)
  qed
  obtain u where u: "dp_endpoint d' = Some u" "u \<noteq> []"
    and s: "sign_document P (external_manifest P d' u kp default_options now) kp = Inr m"
    using assms(2) by (auto simp: provider_manifest_for_def sign_provider_manifest_def split: option.splits if_splits)
  have get: "k \<noteq> ''signature'' \<Longrightarrow> dict_get m k = dict_get (external_manifest P d' u kp default_options now) k" for k
    by (rule sign_document_fields [OF s])
  have zero: "(if x \<noteq> Fin 0 then x else Fin 0) = x" for x by simp
  show ?thesis using st u assms(3)
    by (simp add: getn_def get external_manifest_def default_options_def optional_field_def stamped_def pick_stamped zero)
qed

subsection \<open>Inputs\<close>

text \<open>A command line that answers from a list of outputs and counts what it ran.\<close>

definition scripted :: "(json option list \<times> string list list) shell" where
  "scripted = \<lparr>run = (\<lambda>argv (outs, ran). case outs of [] \<Rightarrow> (Inl ProcessError, ([], ran @ [argv])) | v # vs \<Rightarrow> (Inr v, (vs, ran @ [argv]))),
     pause = id\<rparr>"

definition demo_spec :: inference_spec where
  "demo_spec = \<lparr>sp_model = ''m'', sp_image = ''i'', sp_port = 8080, sp_gpu = True, sp_gpu_model = None, sp_cpu = ''1'',
     sp_memory = ''8Gi'', sp_command = None, sp_env = [], sp_input_per_1m = Fin 2, sp_output_per_1m = Fin 3, sp_unit = ''usdc''\<rparr>"

definition demo_nosana :: nosana where
  "demo_nosana = \<lparr>ns_market = ''k'', ns_cli = ''nosana'', ns_timeout = 60, ns_max_polls = 1\<rparr>"

definition demo_akash :: akash where
  "demo_akash = \<lparr>ak_wallet = ''w'', ak_owner = ''o'', ak_cli = ''ps'', ak_gseq = 1, ak_oseq = 1, ak_chain = [], ak_max_polls = 0\<rparr>"

definition demo_job :: "string \<Rightarrow> json option" where
  "demo_job state = Some (JObj [(''job'', JStr ''j''), (''state'', JStr state), (''url'', JStr ''http://n'')])"

definition demo_node :: "deployment_status \<Rightarrow> string \<Rightarrow> deployment" where
  "demo_node st state = \<lparr>dp_provider = ''nosana'', dp_id = ''j'', dp_model = ''m'', dp_status = st, dp_endpoint = Some ''http://n'',
     dp_unit = Some ''usdc'', dp_input = Some (Fin 2), dp_output = Some (Fin 3),
     dp_raw = [(''job'', JStr ''j''), (''state'', JStr state), (''url'', JStr ''http://n'')]\<rparr>"

lemma demo_nosana_deployed:
  "\<exists>h1. nosana_deploy scripted demo_nosana ''p'' demo_spec \<lparr>outer = ([demo_job ''Queued''], []), temp_files = []\<rparr> = (Inr (demo_node Pending ''Queued''), h1)"
  by (simp add: nosana_deploy_def with_temp_def run_on_def scripted_def abind_def alift_def demo_job_def nosana_object_def nosana_handle_def
      first_text_def job_id_keys_def service_url_keys_def getn_def map_state_def state_map_def py_strip_def is_space_def py_lower_def lower_char_def
      List.map_filter_simps demo_spec_def demo_node_def Let_def)

lemma demo_nosana_awaited:
  "\<exists>h3. nosana_await scripted demo_nosana (demo_node Pending ''Queued'') \<lparr>outer = ([demo_job ''starting'', demo_job ''running''], []), temp_files = []\<rparr> =
     (Inr (demo_node Running ''running''), h3)"
  by (simp add: nosana_await_def await_ready_def demo_nosana_def is_ready_def rest_on_def nosana_status_def nosana_refreshed_def run_on_def scripted_def
      abind_def alift_def aret_def demo_job_def nosana_object_def
      first_text_def job_id_keys_def service_url_keys_def getn_def map_state_def state_map_def py_strip_def is_space_def py_lower_def lower_char_def
      List.map_filter_simps demo_spec_def demo_node_def Let_def)

lemma advertised_price_tied_witness:
  "\<exists>m. provider_manifest_for demo (demo_node Running ''running'') (demo_key 3) default_options 0 = Inr m \<and>
     getn m ''pricing'' = JObj [(''unit'', JStr ''usdc''), (''input_per_1m'', JFloat (Fin 2)), (''output_per_1m'', JFloat (Fin 3))]"
proof -
  obtain h1 where d: "nosana_deploy scripted demo_nosana ''p'' demo_spec \<lparr>outer = ([demo_job ''Queued''], []), temp_files = []\<rparr> = (Inr (demo_node Pending ''Queued''), h1)"
    using demo_nosana_deployed by blast
  obtain h3 where a: "nosana_await scripted demo_nosana (demo_node Pending ''Queued'') \<lparr>outer = ([demo_job ''starting'', demo_job ''running''], []), temp_files = []\<rparr> =
     (Inr (demo_node Running ''running''), h3)"
    using demo_nosana_awaited by blast
  have "json_ok (JObj (external_manifest demo (demo_node Running ''running'') ''http://n'' (demo_key 3) default_options 0))"
    by (simp add: external_manifest_def optional_field_def default_options_def jstrs_def pick_def demo_node_def)
  then obtain m where m: "provider_manifest_for demo (demo_node Running ''running'') (demo_key 3) default_options 0 = Inr m"
    using sign_document_total by (fastforce simp: provider_manifest_for_def sign_provider_manifest_def demo_node_def)
  have "sp_unit demo_spec \<noteq> []" by (simp add: demo_spec_def)
  from advertised_price_tied [OF disjI2 [OF conjI [OF d a]] m this] m show ?thesis by (auto simp: demo_spec_def)
qed

lemma waiting_ends_witness:
  "\<exists>k\<le>1. \<exists>t. refreshes (nosana_status scripted demo_nosana) (rest_on scripted) k (demo_node Pending ''Queued'')
     \<lparr>outer = ([demo_job ''starting'', demo_job ''running''], []), temp_files = []\<rparr> = (Inr (demo_node Running ''running''), t)"
proof -
  obtain h3 where a: "nosana_await scripted demo_nosana (demo_node Pending ''Queued'') \<lparr>outer = ([demo_job ''starting'', demo_job ''running''], []), temp_files = []\<rparr> =
     (Inr (demo_node Running ''running''), h3)"
    using demo_nosana_awaited by blast
  obtain r t where b: "akash_await scripted demo_akash (demo_node Pending ''Queued'') \<lparr>outer = ([], []), temp_files = []\<rparr> = (r, t)"
    by fastforce
  from waiting_ends [OF a b] show ?thesis by (auto simp: demo_nosana_def)
qed

definition demo_created :: dict where
  "demo_created = [(''code'', JInt 0), (''dseq'', JStr ''7'')]"

lemma failed_deploy_leaks_witness:
  "akash_deploy scripted demo_akash ''p'' demo_spec \<lparr>outer = ([Some (JObj demo_created), Some (JObj [(''bids'', JArr [])])], []), temp_files = []\<rparr> =
     (Inl ComputeError, \<lparr>outer = ([], [create_argv demo_akash ''p'', bids_argv demo_akash ''7'']), temp_files = []\<rparr>)"
proof -
  have "run scripted (create_argv demo_akash ''p'') ([Some (JObj demo_created), Some (JObj [(''bids'', JArr [])])], []) =
      (Inr (Some (JObj demo_created)), ([Some (JObj [(''bids'', JArr [])])], [create_argv demo_akash ''p'']))"
    "run scripted (bids_argv demo_akash ''7'') ([Some (JObj [(''bids'', JArr [])])], [create_argv demo_akash ''p'']) =
      (Inr (Some (JObj [(''bids'', JArr [])])), ([], [create_argv demo_akash ''p'', bids_argv demo_akash ''7'']))"
    by (simp_all add: scripted_def)
  moreover have "require_tx_ok demo_created = Inr ()" "extract_dseq demo_created = Inr (Some ''7'')"
    "pick_cheapest_bid [(''bids'', JArr [])] = Inr None"
    by (simp_all add: require_tx_ok_def demo_created_def get_or_def as_int_def extract_dseq_def getn_def pick_cheapest_bid_def)
  ultimately show ?thesis
    using failed_deploy_leaks [of scripted demo_akash "''p''" "\<lparr>outer = ([Some (JObj demo_created), Some (JObj [(''bids'', JArr [])])], []), temp_files = []\<rparr>"
        demo_created "([Some (JObj [(''bids'', JArr [])])], [create_argv demo_akash ''p''])" "''7''" "[(''bids'', JArr [])]"
        "([], [create_argv demo_akash ''p'', bids_argv demo_akash ''7''])" demo_spec]
    by simp
qed

definition demo_bid :: "string \<Rightarrow> int \<Rightarrow> json" where
  "demo_bid p n = JObj [(''bid'', JObj [(''bid_id'', JObj [(''provider'', JStr p)]), (''price'', JObj [(''amount'', JFloat (Fin (of_int n)))])])]"

lemma demo_offer_of: "offer_of (demo_bid p n) = Inr (JStr p, JFloat (Fin (of_int n)))"
  by (simp add: offer_of_def demo_bid_def get_or_def nested_get_def getn_def py_or_def attr_get_def)

lemma cheapest_bid_chosen_witness:
  "\<exists>low. offers [demo_bid ''a'' 5, demo_bid ''b'' 2, demo_bid ''c'' 2] low ''b'' \<and> fle low (Fin 5)"
proof -
  let ?bids = "[demo_bid ''a'' 5, demo_bid ''b'' 2, demo_bid ''c'' 2]"
  have run: "pick_cheapest_bid [(''bids'', JArr ?bids)] = Inr (Some ''b'')"
    by (simp add: pick_cheapest_bid_def getn_def consider_bid_def demo_offer_of bid_price_def)
  have five: "offers ?bids (Fin 5) ''a''"
    by (auto simp: offers_def demo_offer_of bid_price_def)
  have "leading_price ?bids \<noteq> Some NaN" by (simp add: offered_price_def demo_offer_of bid_price_def)
  from cheapest_bid_chosen [OF run _ this] five show ?thesis by (fastforce simp: getn_def)
qed

end
