(* ===== verification/Advisor.thy ===== *)
theory Advisor
  imports Gateway Net Routing
begin

text \<open>
  \<^verbatim>\<open>packages/sin-node\<close>: \<^verbatim>\<open>models.py\<close>, \<^verbatim>\<open>memory.py\<close> and \<^verbatim>\<open>recommend.py\<close>. The hardware profile and the model catalog
  as data, the estimate of the memory a model needs, and the engine that ranks model, runtime and quantisation
  for a task. All numbers are Python floats; integers in their formulas are converted the way Python converts
  them, and an integer too large for a float is the exception it raises.
\<close>

subsection \<open>models.py\<close>

datatype gpu_vendor = Nvidia | Amd | Apple | Intel | Unknown_vendor

datatype accelerator = Cuda | Rocm | Metal | Vulkan | Cpu

record cpu_info =
  cpu_arch :: string
  cpu_model :: "string option"
  physical_cores :: "int option"
  logical_cores :: "int option"
  cpu_flags :: "string list"

record gpu_info =
  gpu_maker :: gpu_vendor
  gpu_name :: string
  vram_total_gb :: "pyfloat option"
  vram_free_gb :: "pyfloat option"
  gpu_driver :: "string option"

record runtime_info =
  ri_name :: string
  ri_available :: bool
  ri_version :: "string option"
  ri_endpoint :: "string option"

record hardware_profile =
  hw_os :: string
  hw_os_version :: string
  hw_arch :: string
  hw_cpu :: cpu_info
  ram_total_gb :: pyfloat
  ram_available_gb :: pyfloat
  disk_free_gb :: pyfloat
  hw_gpus :: "gpu_info list"
  hw_accelerator :: accelerator
  unified_memory :: bool
  hw_runtimes :: "runtime_info list"
  on_battery :: "bool option"

definition or_zero :: "pyfloat option \<Rightarrow> pyfloat" where
  "or_zero x = (case x of None \<Rightarrow> Fin 0 | Some v \<Rightarrow> v)"

text \<open>\<^verbatim>\<open>max(gpus, key=...)\<close>: the first one that no later one exceeds.\<close>

definition primary_gpu :: "hardware_profile \<Rightarrow> gpu_info option" where
  "primary_gpu p = (case hw_gpus p of [] \<Rightarrow> None
     | g # gs \<Rightarrow> Some (foldl (\<lambda>best h. if flt (or_zero (vram_total_gb best)) (or_zero (vram_total_gb h)) then h else best) g gs))"

definition usable_memory_gb :: "hardware_profile \<Rightarrow> pyfloat" where
  "usable_memory_gb p =
     (if unified_memory p then fround 1 (fmul (ram_total_gb p) (to_float (7 / 10)))
      else case (hw_accelerator p \<in> {Cuda, Rocm}, map_option vram_total_gb (primary_gpu p)) of
        (True, Some (Some v)) \<Rightarrow> if feq v (Fin 0) then fround 1 (ram_available_gb p) else v
      | _ \<Rightarrow> fround 1 (ram_available_gb p))"

record memory_estimate =
  weights_gb :: pyfloat
  kv_cache_gb :: pyfloat
  overhead_gb :: pyfloat
  total_gb :: pyfloat

record quant_option =
  quant_name :: string
  quant_bits :: pyfloat

record catalog_model =
  model_id :: string
  display_name :: string
  params_b :: pyfloat
  quants :: "quant_option list"
  tasks :: "string list"
  license :: string
  recommended_runtimes :: "string list"
  context_options :: "int list"
  default_context :: int
  n_layers :: "int option"
  hidden_size :: "int option"
  n_heads :: "int option"
  n_kv_heads :: "int option"
  commercial_use :: bool
  quality_score :: pyfloat
  source_repo :: "string option"

record recommendation =
  rc_model :: catalog_model
  rc_runtime :: string
  rc_quant :: string
  rc_context :: int
  rc_estimate :: memory_estimate
  rc_fits :: bool
  headroom_ratio :: pyfloat
  predicted_tps :: pyfloat
  rc_score :: pyfloat
  rc_why :: string
  rc_tradeoffs :: "string list"

subsection \<open>memory.py\<close>

text \<open>\<^verbatim>\<open>a / b\<close> of two integers, and \<^verbatim>\<open>i * x\<close> of an integer and a float.\<close>

definition int_div :: "int \<Rightarrow> int \<Rightarrow> pyfloat res" where
  "int_div a b = (if b = 0 then Inl ZeroDivisionError
     else case to_float (of_int a / of_int b) of Fin x \<Rightarrow> Inr (Fin x) | _ \<Rightarrow> Inl OverflowError)"

definition int_times :: "int \<Rightarrow> pyfloat \<Rightarrow> pyfloat res" where
  "int_times i x = rbind (float_of_int i) (\<lambda>y. Inr (fmul y x))"

definition nonzero :: "int option \<Rightarrow> bool" where
  "nonzero x \<longleftrightarrow> x \<noteq> None \<and> x \<noteq> Some 0"

definition kv_cache :: "pyfloat \<Rightarrow> int \<Rightarrow> int option \<Rightarrow> int option \<Rightarrow> int option \<Rightarrow> int option \<Rightarrow> int \<Rightarrow> pyfloat res" where
  "kv_cache params context layers hidden kv_heads heads kv_bytes =
     (if nonzero layers \<and> nonzero hidden then
        rbind (if nonzero kv_heads \<and> nonzero heads then int_div (the kv_heads) (the heads) else Inr (Fin 1)) (\<lambda>gqa.
        rbind (int_times (2 * the layers * the hidden) gqa) (\<lambda>a.
        rbind (float_of_int context) (\<lambda>c. rbind (float_of_int kv_bytes) (\<lambda>b.
          fdiv (fmul (fmul a c) b) (Fin 1000000000)))))
      else rbind (int_div context 4096) (\<lambda>c. Inr (fmul (fmul params c) (Fin (1 / 4)))))"

definition estimate_memory ::
  "pyfloat \<Rightarrow> pyfloat \<Rightarrow> int \<Rightarrow> int option \<Rightarrow> int option \<Rightarrow> int option \<Rightarrow> int option \<Rightarrow> int \<Rightarrow> pyfloat \<Rightarrow> memory_estimate res" where
  "estimate_memory params bits context layers hidden kv_heads heads kv_bytes overhead =
     rbind (fdiv (fmul params bits) (Fin 8)) (\<lambda>w.
     rbind (kv_cache params context layers hidden kv_heads heads kv_bytes) (\<lambda>kv.
       Inr \<lparr>weights_gb = w, kv_cache_gb = kv, overhead_gb = overhead, total_gb = fadd (fadd w kv) overhead\<rparr>))"

subsection \<open>recommend.py\<close>

definition non_commercial_markers :: "string list" where
  "non_commercial_markers = [''-nc'', ''noncommercial'', ''non-commercial'', ''cc-by-nc'']"

definition latency_speed_weight :: "(string \<times> pyfloat) list" where
  "latency_speed_weight = [(''low'', to_float (45 / 100)), (''balanced'', Fin (1 / 4)), (''quality'', to_float (1 / 10))]"

fun accel_base_tps :: "accelerator \<Rightarrow> pyfloat" where
  "accel_base_tps Cuda = Fin 220"
| "accel_base_tps Rocm = Fin 170"
| "accel_base_tps Metal = Fin 130"
| "accel_base_tps Vulkan = Fin 90"
| "accel_base_tps Cpu = Fin 28"

definition predict_tps :: "pyfloat \<Rightarrow> accelerator \<Rightarrow> pyfloat \<Rightarrow> pyfloat res" where
  "predict_tps params acc bits =
     (if fle params (Fin 0) then Inr (Fin 0)
      else rbind (fdiv (Fin 1) params) (\<lambda>size_factor. rbind (fdiv (Fin (9 / 2)) (fmax bits (Fin 1))) (\<lambda>quant_factor.
        Inr (fround 1 (fmul (fmul (accel_base_tps acc) size_factor) quant_factor)))))"

definition is_non_commercial :: "catalog_model \<Rightarrow> bool" where
  "is_non_commercial m \<longleftrightarrow> \<not> commercial_use m \<or> list_ex (\<lambda>t. contains_text t (py_lower (license m))) non_commercial_markers"

definition estimate_for :: "catalog_model \<Rightarrow> quant_option \<Rightarrow> int \<Rightarrow> memory_estimate res" where
  "estimate_for m q context = estimate_memory (params_b m) (quant_bits q) context (n_layers m) (hidden_size m)
     (n_kv_heads m) (n_heads m) 2 (to_float (7 / 10))"

definition quality_saturation_bits :: pyfloat where
  "quality_saturation_bits = Fin (17 / 2)"

text \<open>\<^verbatim>\<open>sorted(quants, key=bits)\<close>, the quants considered, and the climb to the largest that fits.\<close>

definition by_bits :: "catalog_model \<Rightarrow> quant_option list" where
  "by_bits m = isort_by (\<lambda>q r. \<not> flt (quant_bits r) (quant_bits q)) (quants m)"

definition considered :: "catalog_model \<Rightarrow> quant_option list" where
  "considered m = (let qs = filter (\<lambda>q. fle (quant_bits q) quality_saturation_bits) (by_bits m) in
     if qs = [] then by_bits m else qs)"

fun climb ::
  "(quant_option \<Rightarrow> memory_estimate res) \<Rightarrow> pyfloat \<Rightarrow> quant_option list \<Rightarrow> (quant_option \<times> memory_estimate) option \<Rightarrow>
   (quant_option \<times> memory_estimate) option res" where
  "climb est usable [] best = Inr best"
| "climb est usable (q # qs) best = rbind (est q) (\<lambda>e. climb est usable qs (if fle (total_gb e) usable then Some (q, e) else best))"

definition select_quant :: "catalog_model \<Rightarrow> pyfloat \<Rightarrow> int \<Rightarrow> (quant_option \<times> memory_estimate \<times> bool) res" where
  "select_quant m usable context =
     rbind (climb (\<lambda>q. estimate_for m q context) usable (considered m) None) (\<lambda>best. case best of
       Some (q, e) \<Rightarrow> Inr (q, e, True)
     | None \<Rightarrow> (case by_bits m of [] \<Rightarrow> Inl IndexError
         | smallest # _ \<Rightarrow> rbind (estimate_for m smallest context) (\<lambda>e. Inr (smallest, e, False))))"

definition score_fit :: "bool \<Rightarrow> pyfloat \<Rightarrow> pyfloat \<Rightarrow> pyfloat \<Rightarrow> pyfloat \<Rightarrow> pyfloat res" where
  "score_fit fits headroom quality tps weight =
     rbind (fdiv headroom (Fin 2)) (\<lambda>h. rbind (fdiv tps (Fin 200)) (\<lambda>s.
       let fit_component = fmin h (Fin 1); speed_component = fmin s (Fin 1);
           quality_weight = fmax (Fin 0) (fsub (Fin (3 / 4)) weight);
           fit_weight = fsub (fsub (Fin 1) weight) quality_weight;
           blended = fadd (fadd (fmul fit_weight fit_component) (fmul quality_weight quality)) (fmul weight speed_component)
       in Inr (fround 4 (fadd (if fits then Fin 1 else Fin 0) blended))))"

text \<open>\<^verbatim>\<open>f"{x:.{n}f}"\<close>\<close>

definition fixed_digits :: "nat \<Rightarrow> int \<Rightarrow> string" where
  "fixed_digits n i = (if n = 0 then str_of_nat i
     else str_of_nat (i div 10 ^ n) @ CHR ''.'' # pad_left n (CHR ''0'') (str_of_nat (i mod 10 ^ n)))"

fun fmt_fixed :: "nat \<Rightarrow> pyfloat \<Rightarrow> string" where
  "fmt_fixed n (Fin x) = (if x < 0 then CHR ''-'' # fixed_digits n (rne (- x * 10 ^ n)) else fixed_digits n (rne (x * 10 ^ n)))"
| "fmt_fixed n PInf = ''inf''"
| "fmt_fixed n NInf = ''-inf''"
| "fmt_fixed n NaN = ''nan''"

definition build_why :: "catalog_model \<Rightarrow> quant_option \<Rightarrow> int \<Rightarrow> bool \<Rightarrow> pyfloat \<Rightarrow> string" where
  "build_why m q context fits usable =
     (if fits then display_name m @ '' at '' @ quant_name q @ '' fits in '' @ fmt_fixed 1 usable @ '' GB usable memory with a '' @
        str_of_int context @ '' token context; strong '' @ join ''/'' (tasks m) @ '' quality (score '' @ fmt_fixed 2 (quality_score m) @ '').''
      else display_name m @ '' is a strong '' @ join ''/'' (tasks m) @ '' option but its smallest quant ('' @ quant_name q @
        '') does not fit in '' @ fmt_fixed 1 usable @ '' GB at '' @ str_of_int context @ '' tokens.'')"

definition build_tradeoffs :: "catalog_model \<Rightarrow> quant_option \<Rightarrow> memory_estimate \<Rightarrow> bool \<Rightarrow> pyfloat \<Rightarrow> string list" where
  "build_tradeoffs m q e fits usable =
     (if fits then [] else [''Does not fit: needs ~'' @ fmt_fixed 1 (total_gb e) @ '' GB but only '' @ fmt_fixed 1 usable @
        '' GB is usable (reduce context, pick a smaller model, or add memory).'']) @
     (if fle (quant_bits q) (Fin (9 / 2)) then [quant_name q @
        '' is aggressively quantized; expect some quality loss versus higher-bit quants.''] else []) @
     (if fle (Fin 7) (params_b m) then [''Larger model: higher quality but slower tokens/sec and more memory.''] else []) @
     (if is_non_commercial m then [''License restricts commercial use; verify terms before deploying.''] else [])"

text \<open>The ratio shown, never at least one for a model that does not fit.\<close>

definition headroom :: "pyfloat \<Rightarrow> memory_estimate \<Rightarrow> bool \<Rightarrow> pyfloat res" where
  "headroom usable e fits =
     (if flt (Fin 0) (total_gb e) then rbind (fdiv usable (total_gb e)) (\<lambda>r.
        let shown = fround 3 r in Inr (if \<not> fits \<and> fle (Fin 1) shown then to_float (999 / 1000) else shown))
      else Inr (Fin 0))"

definition recommend_model :: "hardware_profile \<Rightarrow> pyfloat \<Rightarrow> catalog_model \<Rightarrow> recommendation res" where
  "recommend_model p weight m =
     (let usable = usable_memory_gb p; context = default_context m in
      rbind (select_quant m usable context) (\<lambda>(q, e, fits).
      rbind (headroom usable e fits) (\<lambda>ratio.
      rbind (predict_tps (params_b m) (hw_accelerator p) (quant_bits q)) (\<lambda>tps.
      rbind (score_fit fits ratio (quality_score m) tps weight) (\<lambda>score.
        Inr \<lparr>rc_model = m, rc_runtime = (case recommended_runtimes m of [] \<Rightarrow> ''llama.cpp'' | r # _ \<Rightarrow> r), rc_quant = quant_name q,
             rc_context = context, rc_estimate = e, rc_fits = fits, headroom_ratio = ratio, predicted_tps = tps,
             rc_score = score, rc_why = build_why m q context fits usable, rc_tradeoffs = build_tradeoffs m q e fits usable\<rparr>)))))"

text \<open>The order of \<^verbatim>\<open>sort(key=(fits, score), reverse=True)\<close>: \<open>r\<close> may stand before \<open>s\<close> unless its key is less.\<close>

definition rec_before :: "recommendation \<Rightarrow> recommendation \<Rightarrow> bool" where
  "rec_before r s \<longleftrightarrow> \<not> (if rc_fits r = rc_fits s then flt (rc_score r) (rc_score s) else \<not> rc_fits r)"

definition speed_weight :: "string \<Rightarrow> pyfloat" where
  "speed_weight latency = (case dict_get latency_speed_weight latency of None \<Rightarrow> Fin (1 / 4) | Some w \<Rightarrow> w)"

definition recommend :: "catalog_model list \<Rightarrow> hardware_profile \<Rightarrow> string \<Rightarrow> bool \<Rightarrow> string \<Rightarrow> int \<Rightarrow> recommendation list res" where
  "recommend models p task commercial_required latency top_k =
     (if top_k < 1 then Inl ValueError
      else let candidates = filter (\<lambda>m. task \<in> set (tasks m) \<and> \<not> (commercial_required \<and> is_non_commercial m)) models
           in rbind (rmap (recommend_model p (speed_weight latency)) candidates) (\<lambda>recs.
                Inr (take (nat top_k) (isort_by rec_before recs))))"

subsection \<open>Ranking\<close>

text \<open>The stable sort yields an order with NaN scores last among models that fit alike.\<close>

definition best_first :: "pyfloat \<Rightarrow> pyfloat \<Rightarrow> bool" where
  "best_first a b \<longleftrightarrow> b = NaN \<or> a \<noteq> NaN \<and> fle b a"

interpretation best_first: total_preorder best_first
proof
  show "best_first a b \<or> best_first b a" for a b
    using fle_total by (auto simp: best_first_def)
  show "best_first a b \<Longrightarrow> best_first b c \<Longrightarrow> best_first a c" for a b c
    by (auto simp: best_first_def intro: fle_trans)
qed

definition rec_order :: "recommendation \<Rightarrow> recommendation \<Rightarrow> bool" where
  "rec_order r s \<longleftrightarrow> (if rc_fits r = rc_fits s then best_first (rc_score r) (rc_score s) else rc_fits r)"

interpretation rec_order: total_preorder rec_order
proof
  show "rec_order r s \<or> rec_order s r" for r s
    using best_first.le_total by (auto simp: rec_order_def)
  show "rec_order r s \<Longrightarrow> rec_order s t \<Longrightarrow> rec_order r t" for r s t
    using best_first.le_trans by (auto simp: rec_order_def split: if_splits)
qed

lemma rec_before_order:
  "rc_score r \<noteq> NaN \<Longrightarrow> rc_score s \<noteq> NaN \<Longrightarrow> rec_before r s = rec_order r s"
  by (auto simp: rec_before_def rec_order_def best_first_def not_flt)

lemma recs_sorted:
  assumes "\<And>r. r \<in> set rs \<Longrightarrow> rc_score r \<noteq> NaN"
  shows "sorted_wrt rec_order (isort_by rec_before rs)"
proof -
  have "isort_by rec_before rs = isort_by rec_order rs"
    using assms by (intro isort_by_cong) (simp add: rec_before_order)
  then show ?thesis by (simp add: rec_order.sorted_isort)
qed

subsection \<open>Choosing the quantisation\<close>

definition none_fits :: "(quant_option \<Rightarrow> memory_estimate res) \<Rightarrow> pyfloat \<Rightarrow> quant_option list \<Rightarrow> bool" where
  "none_fits est usable qs \<longleftrightarrow> (\<forall>q\<in>set qs. \<forall>e. est q = Inr e \<longrightarrow> \<not> fle (total_gb e) usable)"

definition last_fit :: "(quant_option \<Rightarrow> memory_estimate res) \<Rightarrow> pyfloat \<Rightarrow> quant_option list \<Rightarrow> quant_option \<Rightarrow> memory_estimate \<Rightarrow> bool" where
  "last_fit est usable qs q e \<longleftrightarrow> (\<exists>pre post. qs = pre @ q # post \<and> est q = Inr e \<and> fle (total_gb e) usable \<and> none_fits est usable post)"

lemma last_fit_here: "est q = Inr e \<Longrightarrow> fle (total_gb e) usable \<Longrightarrow> none_fits est usable qs \<Longrightarrow> last_fit est usable (q # qs) q e"
  unfolding last_fit_def by (metis append_Nil)

lemma last_fit_later: "last_fit est usable qs q e \<Longrightarrow> last_fit est usable (a # qs) q e"
  unfolding last_fit_def by (metis append_Cons)

text \<open>The climb keeps the last quant that fits, and gives \<open>None\<close> only if none does.\<close>

lemma climb_None: "climb est usable qs best = Inr None \<Longrightarrow> best = None \<and> none_fits est usable qs"
proof (induction qs arbitrary: best)
  case (Cons a qs)
  then obtain e where e: "est a = Inr e" and go: "climb est usable qs (if fle (total_gb e) usable then Some (a, e) else best) = Inr None"
    by (auto simp: rbind_eq_Inr)
  show ?case using Cons.IH [OF go] e by (auto simp: none_fits_def split: if_splits)
qed (simp add: none_fits_def)

lemma climb_Some:
  "climb est usable qs best = Inr (Some (q, e)) \<Longrightarrow> best = Some (q, e) \<and> none_fits est usable qs \<or> last_fit est usable qs q e"
proof (induction qs arbitrary: best)
  case (Cons a qs)
  then obtain e0 where e0: "est a = Inr e0"
    and go: "climb est usable qs (if fle (total_gb e0) usable then Some (a, e0) else best) = Inr (Some (q, e))"
    by (auto simp: rbind_eq_Inr)
  from Cons.IH [OF go] show ?case
  proof
    assume "(if fle (total_gb e0) usable then Some (a, e0) else best) = Some (q, e) \<and> none_fits est usable qs"
    then show ?thesis using e0 last_fit_here [of est q e usable qs]
      by (cases "fle (total_gb e0) usable") (simp_all add: none_fits_def)
  qed (simp add: last_fit_later)
qed (simp add: none_fits_def)

definition num_order :: "pyfloat \<Rightarrow> pyfloat \<Rightarrow> bool" where
  "num_order a b \<longleftrightarrow> b = NaN \<or> a \<noteq> NaN \<and> fle a b"

interpretation num: total_preorder num_order
proof
  show "num_order a b \<or> num_order b a" for a b
    using fle_total by (auto simp: num_order_def)
  show "num_order a b \<Longrightarrow> num_order b c \<Longrightarrow> num_order a c" for a b c
    by (auto simp: num_order_def intro: fle_trans)
qed

lemma bits_sorted:
  assumes "\<And>q. q \<in> set (quants m) \<Longrightarrow> quant_bits q \<noteq> NaN"
  shows "sorted_wrt (\<lambda>q r. fle (quant_bits q) (quant_bits r)) (by_bits m)"
proof -
  have "by_bits m = isort_by (\<lambda>q r. num_order (quant_bits q) (quant_bits r)) (quants m)"
    unfolding by_bits_def using assms by (intro isort_by_cong) (simp add: num_order_def not_flt)
  then have "sorted_wrt (\<lambda>q r. num_order (quant_bits q) (quant_bits r)) (by_bits m)"
    using total_preorder.sorted_isort [OF total_preorder_key [OF num.total_preorder_axioms]] by metis
  then show ?thesis
    by (rule sorted_wrt_mono_rel [rotated]) (use assms in \<open>auto simp: num_order_def by_bits_def\<close>)
qed

lemma considered_sorted:
  assumes "\<And>q. q \<in> set (quants m) \<Longrightarrow> quant_bits q \<noteq> NaN"
  shows "sorted_wrt (\<lambda>q r. fle (quant_bits q) (quant_bits r)) (considered m)"
  using bits_sorted [OF assms] by (auto simp: considered_def Let_def intro: sorted_wrt_filter)

lemma considered_quants: "q \<in> set (considered m) \<Longrightarrow> q \<in> set (quants m)"
  by (auto simp: considered_def by_bits_def Let_def split: if_splits)

text \<open>The chosen quant is a considered one that fits, and no wider one does; or none fits.\<close>

lemma select_quant_unfit:
  assumes "select_quant m usable context = Inr (q, e, False)"
  shows "none_fits (\<lambda>q. estimate_for m q context) usable (considered m)"
proof -
  obtain best where "climb (\<lambda>q. estimate_for m q context) usable (considered m) None = Inr best"
    "(case best of Some (q, e) \<Rightarrow> Inr (q, e, True)
     | None \<Rightarrow> (case by_bits m of [] \<Rightarrow> Inl IndexError
         | smallest # _ \<Rightarrow> rbind (estimate_for m smallest context) (\<lambda>e. Inr (smallest, e, False)))) = Inr (q, e, False)"
    using assms by (auto simp: select_quant_def rbind_eq_Inr)
  then have "climb (\<lambda>q. estimate_for m q context) usable (considered m) None = Inr None"
    by (cases best) auto
  then show ?thesis using climb_None by blast
qed

lemma select_quant_fit:
  assumes "select_quant m usable context = Inr (q, e, True)"
  shows "last_fit (\<lambda>q. estimate_for m q context) usable (considered m) q e"
proof -
  have "climb (\<lambda>q. estimate_for m q context) usable (considered m) None = Inr (Some (q, e))"
    using assms by (auto simp: select_quant_def rbind_eq_Inr split: option.splits list.splits)
  then show ?thesis using climb_Some by blast
qed

lemma last_fit_widest:
  assumes "last_fit est usable (considered m) q e" "\<And>q. q \<in> set (quants m) \<Longrightarrow> quant_bits q \<noteq> NaN"
    and "q' \<in> set (considered m)" "est q' = Inr e'" "fle (total_gb e') usable"
  shows "fle (quant_bits q') (quant_bits q)"
proof -
  obtain pre post where p: "considered m = pre @ q # post" "none_fits est usable post"
    using assms(1) by (auto simp: last_fit_def)
  have "sorted_wrt (\<lambda>q r. fle (quant_bits q) (quant_bits r)) (pre @ q # post)"
    using considered_sorted [of m] assms(2) p(1) by auto
  moreover have "q' \<notin> set post" using p(2) assms(4,5) by (auto simp: none_fits_def)
  moreover have "fle (quant_bits q) (quant_bits q)"
    using assms(2) considered_quants [of q m] p(1) by (simp add: fle_refl)
  ultimately show ?thesis using assms(3) p(1) by (auto simp: sorted_wrt_append)
qed


subsection \<open>The numbers shown\<close>

lemma fround_1: "fround n (Fin 1) = Fin 1"
  using to_float_1 rne_of_int [of "10 ^ n"] by simp

lemma headroom_tells:
  assumes "headroom usable e fits = Inr h" "fits = fle (total_gb e) usable" "flt (Fin 0) (total_gb e)" "total_gb e \<noteq> PInf"
  shows "fle (Fin 1) h = fits"
proof -
  obtain t where t: "total_gb e = Fin t" "0 < t" using assms(3,4) by (cases "total_gb e") (auto simp: flt_def)
  define r where "r = (case usable of Fin x \<Rightarrow> to_float (x / t) | NaN \<Rightarrow> NaN | i \<Rightarrow> finf t i)"
  have r: "fdiv usable (total_gb e) = Inr r" using t by (cases usable) (auto simp: r_def)
  have h: "h = (if \<not> fits \<and> fle (Fin 1) (fround 3 r) then to_float (999 / 1000) else fround 3 r)"
    using assms(1,3) r by (auto simp: headroom_def Let_def)
  show ?thesis
  proof (cases fits)
    case True
    then have "fle (Fin 1) r"
      using assms(2) t to_float_mono [of 1] by (cases usable) (auto simp: r_def finf_def to_float_1)
    then have "fle (Fin 1) (fround 3 r)" using fround_mono [of "Fin 1" r 3] by (simp only: fround_1)
    then show ?thesis using h True by simp
  next
    case False
    have "\<not> fle (Fin 1) (to_float (999 / 1000))"
      using to_float_in_binade [of "- 1" "999 / 1000"] rne_bounds [of "1124774006935781376 / 125"]
        floor_divide_of_int_eq [of 1124774006935781376 125, where 'a = rat] by (simp add: pow2_def)
    then show ?thesis using h False by auto
  qed
qed


lemma smallest_considered:
  assumes "by_bits m = q # qs" "\<And>q. q \<in> set (quants m) \<Longrightarrow> quant_bits q \<noteq> NaN"
  shows "q \<in> set (considered m)"
proof (cases "fle (quant_bits q) quality_saturation_bits")
  case True
  then show ?thesis using assms(1) by (simp add: considered_def Let_def)
next
  case False
  have "\<forall>q'\<in>set (by_bits m). \<not> fle (quant_bits q') quality_saturation_bits"
    using bits_sorted [of m] assms False by (auto intro: fle_trans)
  then have "filter (\<lambda>q. fle (quant_bits q) quality_saturation_bits) (by_bits m) = []" by (simp add: filter_empty_conv)
  then have "considered m = by_bits m" by (simp add: considered_def Let_def)
  then show ?thesis using assms(1) by simp
qed

lemma select_quant_tells:
  assumes "select_quant m usable context = Inr (q, e, fits)" "\<And>q. q \<in> set (quants m) \<Longrightarrow> quant_bits q \<noteq> NaN"
  shows "fits = fle (total_gb e) usable"
proof (cases fits)
  case True
  then show ?thesis using select_quant_fit [of m usable "context" q e] assms(1) by (auto simp: last_fit_def)
next
  case False
  obtain best where c: "climb (\<lambda>q. estimate_for m q context) usable (considered m) None = Inr best"
    "(case best of Some (q, e) \<Rightarrow> Inr (q, e, True)
     | None \<Rightarrow> (case by_bits m of [] \<Rightarrow> Inl IndexError
         | smallest # _ \<Rightarrow> rbind (estimate_for m smallest context) (\<lambda>e. Inr (smallest, e, False)))) = Inr (q, e, fits)"
    using assms(1) by (auto simp: select_quant_def rbind_eq_Inr)
  then obtain qs where "by_bits m = q # qs" "estimate_for m q context = Inr e"
    using False by (cases best) (auto simp: rbind_eq_Inr split: list.splits)
  then show ?thesis
    using select_quant_unfit [of m usable "context" q e] assms(1) smallest_considered [of m q qs] assms(2) False
    by (auto simp: none_fits_def)
qed

definition candidate_models :: "catalog_model list \<Rightarrow> string \<Rightarrow> bool \<Rightarrow> catalog_model list" where
  "candidate_models models task commercial = filter (\<lambda>m. task \<in> set (tasks m) \<and> \<not> (commercial \<and> is_non_commercial m)) models"

text \<open>Widths are numbers.\<close>

definition numbered :: "catalog_model list \<Rightarrow> bool" where
  "numbered models \<longleftrightarrow> (\<forall>m\<in>set models. \<forall>q\<in>set (quants m). quant_bits q \<noteq> NaN)"

lemma rmap_members: "rmap f xs = Inr ys \<Longrightarrow> y \<in> set ys \<Longrightarrow> \<exists>x\<in>set xs. f x = Inr y"
  by (induction xs arbitrary: ys) (auto simp: rbind_eq_Inr)

lemma rmap_Inr_map: "rmap f xs = Inr ys \<Longrightarrow> map Inr ys = map f xs"
  by (induction xs arbitrary: ys) (auto simp: rbind_eq_Inr)

lemma recommend_cases:
  assumes "recommend models p task commercial latency k = Inr recs"
  obtains all where "1 \<le> k" "rmap (recommend_model p (speed_weight latency)) (candidate_models models task commercial) = Inr all"
    "recs = take (nat k) (isort_by rec_before all)"
  using assms by (auto simp: recommend_def Let_def rbind_eq_Inr candidate_models_def split: if_splits)

lemma recommend_from:
  assumes "recommend models p task commercial latency k = Inr recs" "r \<in> set recs"
  obtains "rc_model r \<in> set (candidate_models models task commercial)" "recommend_model p (speed_weight latency) (rc_model r) = Inr r"
proof -
  obtain all where a: "rmap (recommend_model p (speed_weight latency)) (candidate_models models task commercial) = Inr all"
    "recs = take (nat k) (isort_by rec_before all)"
    using recommend_cases [OF assms(1)] by blast
  then have "r \<in> set all" using assms(2) by (metis in_set_takeD set_isort_by)
  then obtain m where m: "m \<in> set (candidate_models models task commercial)" "recommend_model p (speed_weight latency) m = Inr r"
    using rmap_members [OF a(1)] by blast
  then have "rc_model r = m" by (auto simp: recommend_model_def Let_def rbind_eq_Inr)
  then show thesis using m that by blast
qed

lemma recommend_model_parts:
  assumes "recommend_model p w m = Inr r"
  obtains q where "select_quant m (usable_memory_gb p) (default_context m) = Inr (q, rc_estimate r, rc_fits r)"
    "headroom (usable_memory_gb p) (rc_estimate r) (rc_fits r) = Inr (headroom_ratio r)" "rc_quant r = quant_name q"
    "predict_tps (params_b m) (hw_accelerator p) (quant_bits q) = Inr (predicted_tps r)"
  using assms by (auto simp: recommend_model_def Let_def rbind_eq_Inr)

subsection \<open>Properties\<close>

text \<open>C32. Recommendations are honest: each is a catalog model that serves the task under a permitted license; one shown as
  fitting has an estimate within the usable memory, at the widest quantisation (of those considered) that fits,
  and one shown as not fitting has none that fits.\<close>

theorem recommend_sound:
  assumes "recommend models p task commercial latency k = Inr recs" "r \<in> set recs"
    and "numbered models"
  shows "rc_model r \<in> set models \<and> task \<in> set (tasks (rc_model r)) \<and> (commercial \<longrightarrow> \<not> is_non_commercial (rc_model r)) \<and>
    (if rc_fits r then \<exists>q\<in>set (quants (rc_model r)). rc_quant r = quant_name q \<and>
        estimate_for (rc_model r) q (default_context (rc_model r)) = Inr (rc_estimate r) \<and>
        fle (total_gb (rc_estimate r)) (usable_memory_gb p) \<and>
        (\<forall>q'\<in>set (considered (rc_model r)). \<forall>e'. estimate_for (rc_model r) q' (default_context (rc_model r)) = Inr e' \<longrightarrow>
          fle (total_gb e') (usable_memory_gb p) \<longrightarrow> fle (quant_bits q') (quant_bits q))
     else \<forall>q'\<in>set (considered (rc_model r)). \<forall>e'. estimate_for (rc_model r) q' (default_context (rc_model r)) = Inr e' \<longrightarrow>
          \<not> fle (total_gb e') (usable_memory_gb p))"
proof -
  have m: "rc_model r \<in> set (candidate_models models task commercial)" "recommend_model p (speed_weight latency) (rc_model r) = Inr r"
    using recommend_from [OF assms(1,2)] by auto
  have bits: "q \<in> set (quants (rc_model r)) \<Longrightarrow> quant_bits q \<noteq> NaN" for q
    using m(1) assms(3) by (auto simp: candidate_models_def numbered_def)
  obtain q where q: "select_quant (rc_model r) (usable_memory_gb p) (default_context (rc_model r)) = Inr (q, rc_estimate r, rc_fits r)"
    "rc_quant r = quant_name q"
    by (rule recommend_model_parts [OF m(2)])
  show ?thesis
  proof (cases "rc_fits r")
    case True
    then have lf: "last_fit (\<lambda>q. estimate_for (rc_model r) q (default_context (rc_model r))) (usable_memory_gb p) (considered (rc_model r)) q (rc_estimate r)"
      using q(1) select_quant_fit by simp
    then have "q \<in> set (quants (rc_model r))" by (auto simp: last_fit_def intro!: considered_quants)
    then show ?thesis using True m(1) q(2) lf last_fit_widest [OF lf bits]
      by (auto simp: candidate_models_def last_fit_def)
  next
    case False
    then show ?thesis using q(1) select_quant_unfit m(1) by (auto simp: candidate_models_def none_fits_def)
  qed
qed

text \<open>C33. The ranking: the recommendations are the first \<open>k\<close> candidates of an order that puts every fitting model before every
  other and sorts by score within; no candidate left out ranks before one shown. (Scores must be numbers.)\<close>

theorem recommend_ranked:
  assumes "recommend models p task commercial latency k = Inr recs"
    and "\<And>m r. m \<in> set models \<Longrightarrow> recommend_model p (speed_weight latency) m = Inr r \<Longrightarrow> rc_score r \<noteq> NaN"
  shows "length recs = min (nat k) (length (candidate_models models task commercial)) \<and>
    sorted_wrt (\<lambda>r s. (rc_fits s \<longrightarrow> rc_fits r) \<and> (rc_fits r = rc_fits s \<longrightarrow> fle (rc_score s) (rc_score r))) recs \<and>
    (\<exists>rest. mset (map Inr (recs @ rest)) = mset (map (recommend_model p (speed_weight latency)) (candidate_models models task commercial)) \<and>
      (\<forall>r\<in>set recs. \<forall>s\<in>set rest. (rc_fits s \<longrightarrow> rc_fits r) \<and> (rc_fits r = rc_fits s \<longrightarrow> fle (rc_score s) (rc_score r))))"
proof -
  obtain all where a: "rmap (recommend_model p (speed_weight latency)) (candidate_models models task commercial) = Inr all"
    "recs = take (nat k) (isort_by rec_before all)"
    using recommend_cases [OF assms(1)] by blast
  define rest where "rest = drop (nat k) (isort_by rec_before all)"
  have num: "rc_score r \<noteq> NaN" if "r \<in> set all" for r
    using rmap_members [OF a(1) that] assms(2) by (auto simp: candidate_models_def)
  have all: "isort_by rec_before all = recs @ rest" by (simp add: a(2) rest_def)
  have nums: "\<forall>r\<in>set (recs @ rest). rc_score r \<noteq> NaN" using num unfolding all [symmetric] by simp
  have "sorted_wrt rec_order (recs @ rest)" using recs_sorted [of all] num all by simp
  then have s: "sorted_wrt (\<lambda>r s. (rc_fits s \<longrightarrow> rc_fits r) \<and> (rc_fits r = rc_fits s \<longrightarrow> fle (rc_score s) (rc_score r))) (recs @ rest)"
    by (rule sorted_wrt_mono_rel [rotated]) (use nums in \<open>auto simp: rec_order_def best_first_def split: if_splits\<close>)
  have "map Inr all = map (recommend_model p (speed_weight latency)) (candidate_models models task commercial)"
    by (rule rmap_Inr_map [OF a(1)])
  moreover have "mset (recs @ rest) = mset all" unfolding all [symmetric] by simp
  ultimately have "mset (map Inr (recs @ rest)) = mset (map (recommend_model p (speed_weight latency)) (candidate_models models task commercial))"
    by (metis mset_map)
  moreover have "length recs = min (nat k) (length (candidate_models models task commercial))"
    using rmap_length [OF a(1)] a(2) by simp
  ultimately show ?thesis using s unfolding sorted_wrt_append by blast
qed

text \<open>The headroom shown agrees with the verdict: for a positive, finite estimate it is at least one exactly for the models
  that fit, whatever the rounding to three digits does.\<close>

theorem headroom_truthful:
  assumes "recommend models p task commercial latency k = Inr recs" "r \<in> set recs"
    and "numbered models"
    and "flt (Fin 0) (total_gb (rc_estimate r))" "total_gb (rc_estimate r) \<noteq> PInf"
  shows "fle (Fin 1) (headroom_ratio r) = rc_fits r"
proof -
  have m: "rc_model r \<in> set (candidate_models models task commercial)" "recommend_model p (speed_weight latency) (rc_model r) = Inr r"
    using recommend_from [OF assms(1,2)] by auto
  have bits: "q \<in> set (quants (rc_model r)) \<Longrightarrow> quant_bits q \<noteq> NaN" for q
    using m(1) assms(3) by (auto simp: candidate_models_def numbered_def)
  obtain q where q: "select_quant (rc_model r) (usable_memory_gb p) (default_context (rc_model r)) = Inr (q, rc_estimate r, rc_fits r)"
    "headroom (usable_memory_gb p) (rc_estimate r) (rc_fits r) = Inr (headroom_ratio r)"
    by (rule recommend_model_parts [OF m(2)])
  show ?thesis by (rule headroom_tells [OF q(2) select_quant_tells [OF q(1) bits] assms(4,5)])
qed


subsection \<open>Inputs\<close>

definition demo_small :: catalog_model where
  "demo_small = \<lparr>model_id = ''s'', display_name = ''Small'', params_b = Fin 1,
     quants = [\<lparr>quant_name = ''Q8_0'', quant_bits = Fin 8\<rparr>], tasks = [''chat''], license = ''apache-2.0'', recommended_runtimes = [],
     context_options = [], default_context = 16384, n_layers = None, hidden_size = None, n_heads = None, n_kv_heads = None,
     commercial_use = True, quality_score = Fin 1, source_repo = None\<rparr>"

definition demo_laptop :: hardware_profile where
  "demo_laptop = \<lparr>hw_os = ''Linux'', hw_os_version = ''6'', hw_arch = ''x86_64'', hw_cpu = \<lparr>cpu_arch = ''x86_64'', cpu_model = None,
     physical_cores = None, logical_cores = None, cpu_flags = []\<rparr>, ram_total_gb = Fin 32, ram_available_gb = Fin 16,
     disk_free_gb = Fin 100, hw_gpus = [], hw_accelerator = Cpu, unified_memory = False, hw_runtimes = [], on_battery = None\<rparr>"

definition demo_estimate :: memory_estimate where
  "demo_estimate = \<lparr>weights_gb = Fin 1, kv_cache_gb = Fin 1, overhead_gb = to_float (7 / 10),
     total_gb = fadd (Fin 2) (to_float (7 / 10))\<rparr>"

lemma demo_estimated: "estimate_for demo_small q 16384 = Inr demo_estimate" if "quant_bits q = Fin 8"
  using that by (simp add: estimate_for_def demo_small_def estimate_memory_def kv_cache_def nonzero_def int_div_def
      to_float_numeral to_float_1 demo_estimate_def)

lemma demo_total: "\<exists>t. total_gb demo_estimate = Fin t \<and> 2 \<le> t \<and> t \<le> 3"
proof -
  have "fle (Fin 0) (to_float (7 / 10))" "fle (to_float (7 / 10)) (Fin 1)"
    using to_float_nonneg [of "7 / 10"] to_float_mono [of "7 / 10" 1] by (simp_all add: to_float_1)
  then obtain x where x: "to_float (7 / 10) = Fin x" "0 \<le> x" "x \<le> 1"
    by (cases "to_float (7 / 10)") auto
  then have "fle (Fin 2) (to_float (2 + x))" "fle (to_float (2 + x)) (Fin 3)"
    using to_float_mono [of 2 "2 + x"] to_float_mono [of "2 + x" 3] by (simp_all add: to_float_numeral)
  then show ?thesis using x by (cases "to_float (2 + x)") (auto simp: demo_estimate_def)
qed

lemma demo_usable: "usable_memory_gb demo_laptop = Fin 16"
  using rne_of_int [of 160] by (simp add: usable_memory_gb_def demo_laptop_def primary_gpu_def to_float_numeral)

lemma demo_by_bits: "by_bits demo_small = quants demo_small" "considered demo_small = quants demo_small"
  by (simp_all add: by_bits_def considered_def quality_saturation_bits_def Let_def demo_small_def)

lemma demo_selected_quant:
  "select_quant demo_small (Fin 16) 16384 = Inr (\<lparr>quant_name = ''Q8_0'', quant_bits = Fin 8\<rparr>, demo_estimate, True)"
proof -
  obtain t where "total_gb demo_estimate = Fin t" "t \<le> 3" using demo_total by blast
  moreover have "quants demo_small = [\<lparr>quant_name = ''Q8_0'', quant_bits = Fin 8\<rparr>]" by (simp add: demo_small_def)
  ultimately show ?thesis by (simp add: select_quant_def demo_by_bits demo_estimated)
qed

lemma demo_headroom: "\<exists>h. headroom (Fin 16) demo_estimate True = Inr h \<and> fle (Fin 0) h"
proof -
  obtain t where "total_gb demo_estimate = Fin t" "2 \<le> t" using demo_total by blast
  then show ?thesis using fround_nonneg [OF to_float_nonneg [of "16 / t"]] by (simp add: headroom_def)
qed

lemma demo_tps: "\<exists>v. predict_tps (Fin 1) Cpu (Fin 8) = Inr v \<and> fle (Fin 0) v"
proof -
  have "fle (Fin 0) (to_float (9 / 16))" "fle (to_float (9 / 16)) (Fin 1)"
    using to_float_nonneg [of "9 / 16"] to_float_mono [of "9 / 16" 1] by (simp_all add: to_float_1)
  then obtain x where "to_float (9 / 16) = Fin x" "0 \<le> x" by (cases "to_float (9 / 16)") auto
  then show ?thesis using fround_nonneg [OF to_float_nonneg [of "28 * x"]]
    by (simp add: predict_tps_def fmax_def to_float_1 to_float_numeral)
qed

lemma capped: "fle (Fin 0) h \<Longrightarrow> \<exists>x\<ge>0. fmin h (Fin 1) = Fin x"
  by (cases h) (auto simp: fmin_def flt_def)

lemma fdiv_nonneg: "fle (Fin 0) a \<Longrightarrow> 0 < y \<Longrightarrow> \<exists>q. fdiv a (Fin y) = Inr q \<and> fle (Fin 0) q"
  by (cases a) (auto simp: finf_def intro: to_float_nonneg)

lemma fadd_nonneg: "fle (Fin 0) a \<Longrightarrow> fle (Fin 0) b \<Longrightarrow> fle (Fin 0) (fadd a b)"
  by (cases a; cases b) (auto intro: to_float_nonneg)

lemma balanced_weights:
  "fmax (Fin 0) (fsub (Fin (3 / 4)) (Fin (1 / 4))) = Fin (1 / 2)" "fsub (fsub (Fin 1) (Fin (1 / 4))) (Fin (1 / 2)) = Fin (1 / 4)"
proof -
  have "to_float (1 / 2) = Fin (1 / 2)" "to_float (1 / 4) = Fin (1 / 4)" "to_float (3 / 4) = Fin (3 / 4)"
    using to_float_in_binade [of "- 1" "1 / 2"] to_float_in_binade [of "- 2" "1 / 4"] to_float_in_binade [of "- 1" "3 / 4"]
      rne_of_int [of "2 ^ 52"] rne_of_int [of "3 * 2 ^ 51"]
    by (simp_all add: pow2_def)
  then show "fmax (Fin 0) (fsub (Fin (3 / 4)) (Fin (1 / 4))) = Fin (1 / 2)"
    "fsub (fsub (Fin 1) (Fin (1 / 4))) (Fin (1 / 2)) = Fin (1 / 4)"
    by (simp_all add: fsub_def fmax_def)
qed

lemma score_is_number:
  assumes "fle (Fin 0) h" "fle (Fin 0) v" "0 \<le> y"
  shows "\<exists>z. score_fit fits h (Fin y) v (Fin (1 / 4)) = Inr z \<and> z \<noteq> NaN"
proof -
  obtain a b where a: "fdiv h (Fin 2) = Inr a" "fle (Fin 0) a" and b: "fdiv v (Fin 200) = Inr b" "fle (Fin 0) b"
    using fdiv_nonneg [OF assms(1), of 2] fdiv_nonneg [OF assms(2), of 200] by auto
  obtain x x' where x: "fmin a (Fin 1) = Fin x" "0 \<le> x" and x': "fmin b (Fin 1) = Fin x'" "0 \<le> x'"
    using capped [OF a(2)] capped [OF b(2)] by auto
  have "fle (Fin 0) (fround 4 (fadd (if fits then Fin 1 else Fin 0)
      (fadd (fadd (fmul (Fin (1 / 4)) (Fin x)) (fmul (Fin (1 / 2)) (Fin y))) (fmul (Fin (1 / 4)) (Fin x')))))"
    using x(2) x'(2) assms(3) by (intro fround_nonneg fadd_nonneg) (auto intro: to_float_nonneg)
  then show ?thesis unfolding score_fit_def Let_def
    by (simp only: a(1) b(1) rbind_Inr balanced_weights x(1) x'(1)) (auto simp del: fround.simps fmul.simps)
qed

lemma demo_recommended:
  "\<exists>r. recommend_model demo_laptop (Fin (1 / 4)) demo_small = Inr r \<and> rc_score r \<noteq> NaN \<and> rc_fits r \<and> rc_estimate r = demo_estimate"
proof -
  obtain h v where h: "headroom (Fin 16) demo_estimate True = Inr h" "fle (Fin 0) h"
    and v: "predict_tps (Fin 1) Cpu (Fin 8) = Inr v" "fle (Fin 0) v" using demo_headroom demo_tps by blast
  obtain z where z: "score_fit True h (Fin 1) v (Fin (1 / 4)) = Inr z" "z \<noteq> NaN"
    using score_is_number [OF h(2) v(2), of 1 True] by auto
  have m: "default_context demo_small = 16384" "params_b demo_small = Fin 1" "quality_score demo_small = Fin 1"
    "hw_accelerator demo_laptop = Cpu" "quant_bits \<lparr>quant_name = ''Q8_0'', quant_bits = Fin 8\<rparr> = Fin 8"
    by (simp_all add: demo_small_def demo_laptop_def)
  show ?thesis unfolding recommend_model_def Let_def
    by (simp only: m demo_usable demo_selected_quant h(1) v(1) z(1) rbind_Inr prod.case) (simp add: z(2))
qed

lemma demo_recs_ranked:
  "\<exists>r. recommend [demo_small] demo_laptop ''chat'' False ''balanced'' 3 = Inr [r] \<and> recommend_model demo_laptop (Fin (1 / 4)) demo_small = Inr r \<and>
    rc_score r \<noteq> NaN \<and> rc_fits r \<and> rc_estimate r = demo_estimate"
proof -
  have "tasks demo_small = [''chat'']" by (simp add: demo_small_def)
  then show ?thesis using demo_recommended
    by (auto simp: recommend_def speed_weight_def latency_speed_weight_def)
qed

lemma demo_small_bits: "numbered [demo_small]"
  by (simp add: numbered_def demo_small_def)

lemma recommend_sound_witness:
  "\<exists>r. recommend [demo_small] demo_laptop ''chat'' False ''balanced'' 3 = Inr [r] \<and> rc_quant r = ''Q8_0''"
proof -
  obtain r where r: "recommend [demo_small] demo_laptop ''chat'' False ''balanced'' 3 = Inr [r]" "rc_fits r" using demo_recs_ranked by blast
  note sound = recommend_sound [OF r(1) list.set_intros(1) demo_small_bits]
  then have "rc_model r = demo_small" by simp
  then obtain q where "q \<in> set (quants demo_small)" "rc_quant r = quant_name q" using sound r(2) by auto
  then show ?thesis using r(1) by (auto simp: demo_small_def)
qed

lemma recommend_ranked_witness:
  "\<exists>recs. recommend [demo_small] demo_laptop ''chat'' False ''balanced'' 3 = Inr recs \<and> length recs = 1"
proof -
  obtain r where r: "recommend [demo_small] demo_laptop ''chat'' False ''balanced'' 3 = Inr [r]"
    "recommend_model demo_laptop (Fin (1 / 4)) demo_small = Inr r" "rc_score r \<noteq> NaN" using demo_recs_ranked by blast
  have "m \<in> set [demo_small] \<Longrightarrow> recommend_model demo_laptop (speed_weight ''balanced'') m = Inr s \<Longrightarrow> rc_score s \<noteq> NaN" for m s
    using r(2,3) by (simp add: speed_weight_def latency_speed_weight_def)
  from recommend_ranked [OF r(1) this] show ?thesis using r(1) by (simp add: candidate_models_def demo_small_def)
qed

lemma headroom_truthful_witness:
  "\<exists>r. recommend [demo_small] demo_laptop ''chat'' False ''balanced'' 3 = Inr [r] \<and> fle (Fin 1) (headroom_ratio r)"
proof -
  obtain r where r: "recommend [demo_small] demo_laptop ''chat'' False ''balanced'' 3 = Inr [r]" "rc_fits r" "rc_estimate r = demo_estimate"
    using demo_recs_ranked by blast
  obtain t where "total_gb (rc_estimate r) = Fin t" "2 \<le> t" using demo_total r(3) by auto
  then have "fle (Fin 1) (headroom_ratio r) = rc_fits r"
    by (intro headroom_truthful [OF r(1) _ demo_small_bits]) simp_all
  then show ?thesis using r by blast
qed

end
