(* ===== verification/Hardware.thy ===== *)
theory Hardware
  imports Advisor Net Blind
begin

text \<open>
  \<^verbatim>\<open>hardware.py\<close> of \<^verbatim>\<open>packages/sin-node\<close>: what \<^verbatim>\<open>sin scan\<close> reads from the vendor tools and from the
  machine, and the text it renders. The machine (the \<^verbatim>\<open>platform\<close> and \<^verbatim>\<open>psutil\<close> calls, the file
  \<^verbatim>\<open>/proc/cpuinfo\<close>) is a record of answers; the command runner, the search path, the HTTP probe and
  \<^verbatim>\<open>json.loads\<close> are functions. Upper case is taken of ASCII letters only, which is all the comparison
  it serves can see. The lemmas show that rows printed the way nvidia-smi prints them are read back, and that a
  scan's GPUs, its accelerator and its memory model agree.
\<close>

subsection \<open>Text\<close>

text \<open>\<^verbatim>\<open>str.splitlines\<close>: a carriage return and the line feed after it end one line.\<close>

definition is_break :: "char \<Rightarrow> bool" where
  "is_break c = (let n = of_char c :: int in (10 \<le> n \<and> n \<le> 13) \<or> (28 \<le> n \<and> n \<le> 30) \<or> n = 133)"

definition in_line :: "char \<Rightarrow> bool" where
  "in_line c = (\<not> is_break c)"

definition after_break :: "string \<Rightarrow> string" where
  "after_break s = (case s of [] \<Rightarrow> []
     | c # r \<Rightarrow> if c = CHR 0x0D \<and> r \<noteq> [] \<and> hd r = CHR 0x0A then tl r else r)"

function split_lines :: "string \<Rightarrow> string list" where
  "split_lines [] = []"
| "split_lines (c # cs) = takeWhile in_line (c # cs) # split_lines (after_break (dropWhile in_line (c # cs)))"
  by pat_completeness auto

lemma after_break_shorter: "length (after_break s) \<le> length s - 1"
  by (cases s) (auto simp: after_break_def)

termination split_lines
proof (relation "measure length")
  show "(after_break (dropWhile in_line (c # cs)), c # cs) \<in> measure length" for c cs
    using after_break_shorter [of "dropWhile in_line (c # cs)"] length_dropWhile_le [of in_line "c # cs"] by auto
qed simp

definition upper_ascii :: "char \<Rightarrow> char" where
  "upper_ascii c = (let n = of_char c :: int in if 97 \<le> n \<and> n \<le> 122 then char_of (n - 32) else c)"

definition strip_chars :: "string \<Rightarrow> string \<Rightarrow> string" where
  "strip_chars cs s = rev (dropWhile (\<lambda>c. c \<in> set cs) (rev (dropWhile (\<lambda>c. c \<in> set cs) s)))"

definition filled_lines :: "string \<Rightarrow> string list" where
  "filled_lines s = filter (\<lambda>l. py_strip l \<noteq> []) (split_lines s)"

definition csv_cells :: "string \<Rightarrow> string list" where
  "csv_cells l = map py_strip (split_on CHR '','' l)"

subsection \<open>The vendor tools\<close>

text \<open>\<^verbatim>\<open>x / k\<close> for a constant \<open>k\<close> that is not zero: no exception is raised.\<close>

definition over :: "pyfloat \<Rightarrow> rat \<Rightarrow> pyfloat" where
  "over x k = (case fdiv x (Fin k) of Inr y \<Rightarrow> y | Inl _ \<Rightarrow> NaN)"

definition parsed_size :: "rat \<Rightarrow> string \<Rightarrow> pyfloat option" where
  "parsed_size k s = (case float_of_str s of Inl _ \<Rightarrow> None | Inr x \<Rightarrow> Some (fround 2 (over x k)))"

definition to_gb_from_mib :: "string \<Rightarrow> pyfloat option" where
  "to_gb_from_mib raw = (let t = py_strip raw in
     if t = [] \<or> strip_chars ''[]'' (map upper_ascii t) \<in> {''N/A'', ''NA'', ''NOTSUPPORTED''} then None
     else parsed_size 1024 t)"

definition bytes_to_gb :: "string \<Rightarrow> pyfloat option" where
  "bytes_to_gb raw = (let t = py_strip raw in if t = [] then None else parsed_size (1024 ^ 3) t)"

definition nonempty_text :: "string \<Rightarrow> string option" where
  "nonempty_text s = (if s = [] then None else Some s)"

fun nvidia_row :: "string list \<Rightarrow> gpu_info list" where
  "nvidia_row (name # tot # free # driver # _) = (if name = [] then []
     else [\<lparr>gpu_maker = Nvidia, gpu_name = name, vram_total_gb = to_gb_from_mib tot,
            vram_free_gb = to_gb_from_mib free, gpu_driver = nonempty_text driver\<rparr>])"
| "nvidia_row _ = []"

definition parse_nvidia_smi :: "string \<Rightarrow> gpu_info list" where
  "parse_nvidia_smi csv = concat (map (nvidia_row \<circ> csv_cells) (filled_lines csv))"

text \<open>The first column whose header passes a test, and \<^verbatim>\<open>a or b\<close> of two such columns: column 0 is false.\<close>

fun column :: "(string \<Rightarrow> bool) \<Rightarrow> string list \<Rightarrow> nat \<Rightarrow> nat option" where
  "column p [] i = None"
| "column p (h # hs) i = (if p h then Some i else column p hs (Suc i))"

definition has_all :: "string list \<Rightarrow> string \<Rightarrow> bool" where
  "has_all needles h \<longleftrightarrow> list_all (\<lambda>n. contains_text n h) needles"

definition column_or :: "nat option \<Rightarrow> nat option \<Rightarrow> nat option" where
  "column_or a b = (if a = None \<or> a = Some 0 then b else a)"

definition cell :: "string list \<Rightarrow> nat option \<Rightarrow> string" where
  "cell cells i = (case i of None \<Rightarrow> [] | Some k \<Rightarrow> if k < length cells then cells ! k else [])"

definition rocm_card :: "nat option \<Rightarrow> nat option \<Rightarrow> nat option \<Rightarrow> string list \<Rightarrow> gpu_info" where
  "rocm_card name_idx total_idx used_idx cells =
     (let tot = bytes_to_gb (cell cells total_idx); used = bytes_to_gb (cell cells used_idx) in
      \<lparr>gpu_maker = Amd, gpu_name = (if cell cells name_idx = [] then ''AMD GPU'' else cell cells name_idx),
       vram_total_gb = tot,
       vram_free_gb = (case (tot, used) of (Some t, Some u) \<Rightarrow> Some (fround 2 (fmax (fsub t u) (Fin 0))) | _ \<Rightarrow> None),
       gpu_driver = None\<rparr>)"

definition parse_rocm_smi :: "string \<Rightarrow> gpu_info list" where
  "parse_rocm_smi csv = (case filled_lines csv of
     header # row # rows \<Rightarrow>
       (let hs = map py_lower (csv_cells header);
            name_idx = column_or (column (has_all [''card'', ''series'']) hs 0) (column (has_all [''series'']) hs 0);
            used_idx = column (has_all [''vram'', ''used'']) hs 0;
            total_idx = column (\<lambda>h. \<not> contains_text ''used'' h \<and> has_all [''vram'', ''total'', ''memory''] h) hs 0
        in map (rocm_card name_idx total_idx used_idx \<circ> csv_cells) (row # rows))
   | _ \<Rightarrow> [])"

subsection \<open>The machine\<close>

record machine =
  m_system :: string
  m_arch :: string
  m_processor :: string
  m_release :: string
  m_mac_version :: string
  m_cpuinfo :: "string option"
  m_physical :: "int option"
  m_logical :: "int option"
  m_ram_total :: int
  m_ram_available :: int
  m_home_free :: "int option"
  m_battery :: "bool option option"

type_synonym runner = "string list \<Rightarrow> string res"
type_synonym which = "string \<Rightarrow> string option"

text \<open>The default runner and probe over the raw process call and the raw GET.\<close>

definition default_runner :: "(string list \<Rightarrow> (int \<times> string) res) \<Rightarrow> runner" where
  "default_runner run cmd = (case run cmd of
     Inl e \<Rightarrow> if e \<in> {OSError, ProcessError} then Inr [] else Inl e
   | Inr (code, out) \<Rightarrow> Inr (if code \<noteq> 0 then [] else out))"

definition default_http_probe :: "(string \<Rightarrow> (int \<times> string) res) \<Rightarrow> string \<Rightarrow> string option res" where
  "default_http_probe fetch url = (case fetch url of
     Inl (TransportError _) \<Rightarrow> Inr None
   | Inl e \<Rightarrow> Inl e
   | Inr (status, answer) \<Rightarrow> Inr (if 400 \<le> status then None else Some answer))"

definition is_apple_silicon :: "machine \<Rightarrow> bool" where
  "is_apple_silicon m \<longleftrightarrow> m_system m = ''Darwin'' \<and> py_lower (m_arch m) \<in> {''arm64'', ''aarch64''}"

definition cpu_features :: "machine \<Rightarrow> string \<Rightarrow> string list" where
  "cpu_features m arch = (let a = py_lower arch in
     (if a \<in> {''arm64'', ''aarch64''} then [''neon''] else []) @
     (if a \<in> {''x86_64'', ''amd64''} then
        (case m_cpuinfo m of Some t \<Rightarrow> if contains_text ''avx2'' t then [''avx2''] else [] | None \<Rightarrow> []) else []))"

fun first_model_name :: "string list \<Rightarrow> string option" where
  "first_model_name [] = None"
| "first_model_name (l # ls) =
     (let v = (case partition_char CHR '':'' l of (_, _, t) \<Rightarrow> py_strip t) in
      if startswith (py_lower l) ''model name'' \<and> v \<noteq> [] then Some v else first_model_name ls)"

definition parse_cpu_model_name :: "string \<Rightarrow> string option" where
  "parse_cpu_model_name t = first_model_name (split_lines t)"

definition linux_cpu_model :: "machine \<Rightarrow> string option" where
  "linux_cpu_model m = Option.bind (m_cpuinfo m) parse_cpu_model_name"

definition falsy_text :: "string option \<Rightarrow> bool" where
  "falsy_text s \<longleftrightarrow> s = None \<or> s = Some []"

definition detect_cpu :: "machine \<Rightarrow> cpu_info" where
  "detect_cpu m =
     (let a = (if m_system m = ''Linux'' then linux_cpu_model m else None);
          b = (if falsy_text a then nonempty_text (m_processor m) else a);
          c = (if falsy_text b \<and> is_apple_silicon m then Some ''Apple Silicon'' else b)
      in \<lparr>cpu_arch = m_arch m, cpu_model = c, physical_cores = m_physical m, logical_cores = m_logical m,
          cpu_flags = cpu_features m (m_arch m)\<rparr>)"

definition nvidia_query :: "string list" where
  "nvidia_query = [''nvidia-smi'', ''--query-gpu=name,memory.total,memory.free,driver_version'', ''--format=csv,noheader,nounits'']"

definition rocm_query :: "string list" where
  "rocm_query = [''rocm-smi'', ''--showproductname'', ''--showmeminfo'', ''vram'', ''--csv'']"

definition detect_gpus :: "machine \<Rightarrow> runner \<Rightarrow> which \<Rightarrow> bool \<Rightarrow> gpu_info list res" where
  "detect_gpus m run which apple =
     (if apple then
        Inr [\<lparr>gpu_maker = Apple, gpu_name = (if m_processor m = [] then ''Apple Silicon'' else m_processor m) @ '' GPU'',
              vram_total_gb = None, vram_free_gb = None, gpu_driver = None\<rparr>]
      else
        rbind (if falsy_text (which ''nvidia-smi'') then Inr [] else rbind (run nvidia_query) (\<lambda>out. Inr (parse_nvidia_smi out))) (\<lambda>nv.
        rbind (if falsy_text (which ''rocm-smi'') then Inr [] else rbind (run rocm_query) (\<lambda>out. Inr (parse_rocm_smi out))) (\<lambda>am.
          Inr (nv @ am))))"

definition resolve_accelerator :: "gpu_info list \<Rightarrow> bool \<Rightarrow> accelerator" where
  "resolve_accelerator gpus apple = (let vendors = gpu_maker ` set gpus in
     if Nvidia \<in> vendors then Cuda
     else if Amd \<in> vendors then Rocm
     else if apple \<or> Apple \<in> vendors then Metal
     else Cpu)"

definition parse_ollama_version :: "(string \<Rightarrow> json option) \<Rightarrow> string option \<Rightarrow> string option" where
  "parse_ollama_version loads answer = (case answer of None \<Rightarrow> None
     | Some b \<Rightarrow> if b = [] then None else (case loads b of
         Some (JObj d) \<Rightarrow> (if getn d ''version'' = JNull then None else Some (py_str (getn d ''version'')))
       | _ \<Rightarrow> None))"

definition detect_ollama :: "which \<Rightarrow> (string \<Rightarrow> string option res) \<Rightarrow> (string \<Rightarrow> json option) \<Rightarrow> runtime_info res" where
  "detect_ollama which probe loads = rbind (probe ''http://localhost:11434/api/version'') (\<lambda>answer.
     Inr \<lparr>ri_name = ''ollama'', ri_available = (which ''ollama'' \<noteq> None \<or> answer \<noteq> None),
          ri_version = (if answer = None then None else parse_ollama_version loads answer),
          ri_endpoint = (if answer = None then None else Some ''http://localhost:11434'')\<rparr>)"

definition detect_llamacpp :: "which \<Rightarrow> runtime_info" where
  "detect_llamacpp which = \<lparr>ri_name = ''llama.cpp'', ri_available = (which ''llama-server'' \<noteq> None \<or> which ''llama-cli'' \<noteq> None),
     ri_version = None, ri_endpoint = None\<rparr>"

definition detect_lmstudio :: "which \<Rightarrow> runtime_info" where
  "detect_lmstudio which = \<lparr>ri_name = ''lmstudio'', ri_available = (which ''lms'' \<noteq> None), ri_version = None, ri_endpoint = None\<rparr>"

definition hw_detect_runtimes :: "which \<Rightarrow> (string \<Rightarrow> string option res) \<Rightarrow> (string \<Rightarrow> json option) \<Rightarrow> runtime_info list res" where
  "hw_detect_runtimes which probe loads = rbind (detect_ollama which probe loads) (\<lambda>ollama.
     Inr [ollama, detect_llamacpp which, detect_lmstudio which])"

text \<open>\<^verbatim>\<open>not battery.power_plugged\<close>: a charger whose state is unknown counts as unplugged.\<close>

definition battery_state :: "machine \<Rightarrow> bool option" where
  "battery_state m = map_option (\<lambda>plugged. plugged \<noteq> Some True) (m_battery m)"

definition size_gb :: "int \<Rightarrow> pyfloat res" where
  "size_gb n = rbind (float_of_int n) (\<lambda>x. Inr (fround 2 (over x (1024 ^ 3))))"

definition home_disk_free_gb :: "machine \<Rightarrow> pyfloat res" where
  "home_disk_free_gb m = (case m_home_free m of None \<Rightarrow> Inr (Fin 0) | Some n \<Rightarrow> size_gb n)"

definition text_or :: "string \<Rightarrow> string \<Rightarrow> string" where
  "text_or s d = (if s = [] then d else s)"

definition scan ::
  "machine \<Rightarrow> runner \<Rightarrow> which \<Rightarrow> (string \<Rightarrow> string option res) \<Rightarrow> (string \<Rightarrow> json option) \<Rightarrow> bool option \<Rightarrow> hardware_profile res" where
  "scan m run which probe loads forced =
     (let os_name = text_or (m_system m) ''unknown'';
          version = (if os_name = ''Darwin'' then text_or (m_mac_version m) (m_release m) else m_release m);
          apple = (case forced of None \<Rightarrow> is_apple_silicon m | Some b \<Rightarrow> b)
      in rbind (size_gb (m_ram_total m)) (\<lambda>tot. rbind (size_gb (m_ram_available m)) (\<lambda>available.
         rbind (home_disk_free_gb m) (\<lambda>disk. rbind (detect_gpus m run which apple) (\<lambda>gpus.
         rbind (hw_detect_runtimes which probe loads) (\<lambda>runtimes.
           Inr \<lparr>hw_os = os_name, hw_os_version = text_or version ''unknown'', hw_arch = text_or (m_arch m) ''unknown'',
                hw_cpu = detect_cpu m, ram_total_gb = tot, ram_available_gb = available, disk_free_gb = disk,
                hw_gpus = gpus, hw_accelerator = resolve_accelerator gpus apple, unified_memory = apple,
                hw_runtimes = runtimes, on_battery = battery_state m\<rparr>))))))"

subsection \<open>Rendering\<close>

fun vendor_text :: "gpu_vendor \<Rightarrow> string" where
  "vendor_text Nvidia = ''nvidia''"
| "vendor_text Amd = ''amd''"
| "vendor_text Apple = ''apple''"
| "vendor_text Intel = ''intel''"
| "vendor_text Unknown_vendor = ''unknown''"

fun accelerator_text :: "accelerator \<Rightarrow> string" where
  "accelerator_text Cuda = ''cuda''"
| "accelerator_text Rocm = ''rocm''"
| "accelerator_text Metal = ''metal''"
| "accelerator_text Vulkan = ''vulkan''"
| "accelerator_text Cpu = ''cpu''"

definition format_cores :: "int option \<Rightarrow> int option \<Rightarrow> string" where
  "format_cores physical logical =
     (if nonzero physical \<and> nonzero logical then str_of_int (the physical) @ '' cores / '' @ str_of_int (the logical) @ '' threads''
      else if nonzero logical then str_of_int (the logical) @ '' threads''
      else if nonzero physical then str_of_int (the physical) @ '' cores''
      else ''unknown cores'')"

text \<open>The em dash before the VRAM is beyond the modelled code points: it is the argument \<open>dash\<close>.\<close>

definition gpu_line :: "string \<Rightarrow> gpu_info \<Rightarrow> string" where
  "gpu_line dash g = ''GPU:     '' @ gpu_name g @ '' ['' @ vendor_text (gpu_maker g) @ '']'' @
     (if feq (or_zero (vram_total_gb g)) (Fin 0) then [] else '' '' @ dash @ '' '' @ fmt_fixed 1 (or_zero (vram_total_gb g)) @ '' GB VRAM'')"

definition render :: "string \<Rightarrow> hardware_profile \<Rightarrow> string" where
  "render dash p =
     (let cpu = hw_cpu p; available = map ri_name (filter ri_available (hw_runtimes p)) in
      join [CHR 0x0A]
       ([''System:  '' @ hw_os p @ '' '' @ hw_os_version p @ '' ('' @ hw_arch p @ '')'',
         ''CPU:     '' @ (if falsy_text (cpu_model cpu) then ''unknown CPU'' else the (cpu_model cpu)) @
           '' ('' @ format_cores (physical_cores cpu) (logical_cores cpu) @ '')'' @
           (if cpu_flags cpu = [] then [] else '' ['' @ join '', '' (cpu_flags cpu) @ '']''),
         ''Memory:  '' @ fmt_fixed 1 (ram_available_gb p) @ '' GB free of '' @ fmt_fixed 1 (ram_total_gb p) @ '' GB'' @
           (if unified_memory p then '' (unified)'' else []),
         ''Disk:    '' @ fmt_fixed 1 (disk_free_gb p) @ '' GB free'',
         ''Compute: '' @ accelerator_text (hw_accelerator p)] @
        (if hw_gpus p = [] then [''GPU:     none detected''] else map (gpu_line dash) (hw_gpus p)) @
        [''Runtimes: '' @ (if available = [] then ''none detected'' else join '', '' available)] @
        (case on_battery p of None \<Rightarrow> [] | Some b \<Rightarrow> [''Power:   '' @ (if b then ''on battery'' else ''plugged in'')])))"

subsection \<open>Reading back what nvidia-smi prints\<close>

lemma py_strip_empty:
  assumes "py_strip s = []" "c \<in> set s"
  shows "is_space c"
proof -
  have "\<forall>x\<in>set (dropWhile is_space s). is_space x" using assms(1) by (simp add: py_strip_def)
  then show ?thesis using assms(2)
    by (metis dropWhile_eq_Nil_conv hd_dropWhile hd_in_set)
qed

lemma py_strip_blank: "py_strip (CHR '' '' # s) = py_strip s"
  by (simp add: py_strip_def is_space_def)

lemma split_lines_line:
  assumes "list_all in_line l"
  shows "split_lines (l @ CHR 0x0A # rest) = l # split_lines rest"
proof -
  have nl: "\<not> in_line CHR 0x0A" by (simp add: in_line_def is_break_def)
  have all: "\<And>c. c \<in> set l \<Longrightarrow> in_line c" using assms by (simp add: list_all_iff)
  then have t: "takeWhile in_line (l @ CHR 0x0A # rest) = l" "dropWhile in_line (l @ CHR 0x0A # rest) = CHR 0x0A # rest"
    using nl by (simp_all add: takeWhile_append2 dropWhile_append2)
  obtain c cs where "l @ CHR 0x0A # rest = c # cs" by (cases l) auto
  then show ?thesis using t by (simp add: after_break_def del: takeWhile.simps dropWhile.simps)
qed

text \<open>A printed row, or a line of something else with fewer than four columns.\<close>

type_synonym nvidia_data = "string \<times> int \<times> int \<times> string"

fun nvidia_line :: "string + nvidia_data \<Rightarrow> string" where
  "nvidia_line (Inl junk) = junk"
| "nvidia_line (Inr (name, tot, free, driver)) =
     name @ '', '' @ str_of_nat tot @ '', '' @ str_of_nat free @ '', '' @ driver"

definition plain_cell :: "string \<Rightarrow> bool" where
  "plain_cell s \<longleftrightarrow> py_strip s = s \<and> list_all in_line s \<and> CHR '','' \<notin> set s"

fun printable_row :: "string + nvidia_data \<Rightarrow> bool" where
  "printable_row (Inl junk) \<longleftrightarrow> list_all in_line junk \<and> length (split_on CHR '','' junk) < 4"
| "printable_row (Inr (name, tot, free, driver)) \<longleftrightarrow> plain_cell name \<and> name \<noteq> [] \<and> 0 \<le> tot \<and> 0 \<le> free \<and> plain_cell driver"

definition mib_gb :: "int \<Rightarrow> pyfloat" where
  "mib_gb n = fround 2 (over (to_float (of_int n)) 1024)"

fun nvidia_gpus :: "string + nvidia_data \<Rightarrow> gpu_info list" where
  "nvidia_gpus (Inl junk) = []"
| "nvidia_gpus (Inr (name, tot, free, driver)) =
     [\<lparr>gpu_maker = Nvidia, gpu_name = name, vram_total_gb = Some (mib_gb tot), vram_free_gb = Some (mib_gb free),
       gpu_driver = nonempty_text driver\<rparr>]"

definition nvidia_output :: "(string + nvidia_data) list \<Rightarrow> string" where
  "nvidia_output rows = concat (map (\<lambda>r. nvidia_line r @ [CHR 0x0A]) rows)"

lemma digit_kinds:
  "is_digit c \<Longrightarrow> \<not> is_space c \<and> in_line c \<and> c \<noteq> CHR '','' \<and> upper_ascii c = c \<and> lower_char c = c \<and> c \<notin> set ''_+-inN[]''"
  by (auto simp: is_digit_def is_space_def in_line_def is_break_def upper_ascii_def lower_char_def Let_def)

lemma number_cell:
  assumes "0 \<le> n"
  shows "plain_cell (str_of_nat n)" "to_gb_from_mib (str_of_nat n) = Some (mib_gb n)" "py_strip (str_of_nat n) = str_of_nat n"
proof -
  define s where "s = str_of_nat n"
  have d: "\<And>c. c \<in> set s \<Longrightarrow> is_digit c" using str_of_nat_digits [OF assms] by (simp add: s_def list_all_iff)
  have dd: "list_all is_digit s" and s_ne: "s \<noteq> []" using str_of_nat_digits [OF assms] by (simp_all add: s_def)
  show strip: "py_strip (str_of_nat n) = str_of_nat n"
    using digits_plain(1) [OF dd s_ne] by (simp add: s_def)
  then show "plain_cell (str_of_nat n)" using d digit_kinds by (auto simp: plain_cell_def list_all_iff s_def)
  obtain a r where s: "s = a # r" using str_of_nat_nonempty [of n] by (cases s) (auto simp: s_def)
  have "py_strip s = s" using strip by (simp add: s_def)
  have up: "map upper_ascii s = s" using d digit_kinds by (simp add: map_idI)
  have brackets: "strip_chars ''[]'' s = s"
  proof -
    have "\<And>c. c \<in> set s \<Longrightarrow> c \<notin> set ''[]''" using d digit_kinds by fastforce
    then have "dropWhile (\<lambda>c. c \<in> set ''[]'') s = s" "dropWhile (\<lambda>c. c \<in> set ''[]'') (rev s) = rev s"
      using hd_in_set [of "rev s"] by (auto simp: dropWhile_eq_self_iff)
    then show ?thesis by (simp only: strip_chars_def rev_rev_ident)
  qed
  have "a \<noteq> CHR ''N''" using d [of a] digit_kinds [of a] by (auto simp: s)
  then have "s \<notin> {''N/A'', ''NA'', ''NOTSUPPORTED''}" by (auto simp: s)
  moreover have "float_of_str s = Inr (to_float (of_int n))"
  proof -
    have "py_lower s = s" using d digit_kinds by (simp add: py_lower_def map_idI)
    moreover have "s \<noteq> ''inf''" "s \<noteq> ''infinity''" "s \<noteq> ''nan''"
      using d [of a] digit_kinds [of a] by (auto simp: s)
    moreover have "parse_literal s = Some (False, n, 0)"
      using parse_digits [of s] d assms by (simp add: s_def list_all_iff)
    ultimately show ?thesis using digits_plain [OF dd s_ne]
      by (simp add: float_of_str_def Let_def pow10_def)
  qed
  ultimately show "to_gb_from_mib (str_of_nat n) = Some (mib_gb n)"
    using \<open>py_strip s = s\<close> up brackets s
    by (simp add: to_gb_from_mib_def Let_def parsed_size_def mib_gb_def s_def [symmetric])
qed

lemma nvidia_cells:
  assumes "printable_row (Inr (name, tot, free, driver))"
  shows "csv_cells (nvidia_line (Inr (name, tot, free, driver))) = [name, str_of_nat tot, str_of_nat free, driver]"
proof -
  have c: "CHR '','' \<notin> set name" "CHR '','' \<notin> set ('' '' @ str_of_nat tot)" "CHR '','' \<notin> set ('' '' @ str_of_nat free)"
    "CHR '','' \<notin> set ('' '' @ driver)" and nn: "0 \<le> tot" "0 \<le> free"
    using assms number_cell(1) by (auto simp: plain_cell_def)
  have "split_on CHR '','' (nvidia_line (Inr (name, tot, free, driver))) =
      [name, '' '' @ str_of_nat tot, '' '' @ str_of_nat free, '' '' @ driver]"
    using split_on_append [OF c(1)] split_on_append [OF c(2)] split_on_append [OF c(3)] split_on_free [OF c(4)] by simp
  then show ?thesis using assms nn by (simp add: csv_cells_def py_strip_blank plain_cell_def number_cell(3))
qed

lemma nvidia_row_read:
  assumes "printable_row r"
  shows "list_all in_line (nvidia_line r)" and "nvidia_row (csv_cells (nvidia_line r)) = nvidia_gpus r"
    and "py_strip (nvidia_line r) = [] \<Longrightarrow> nvidia_gpus r = []"
proof -
  have blank: "in_line CHR '' ''" "in_line CHR '',''" by (simp_all add: in_line_def is_break_def)
  show "list_all in_line (nvidia_line r)"
    using assms number_cell(1) blank by (cases r rule: nvidia_line.cases) (auto simp: plain_cell_def)
  show "nvidia_row (csv_cells (nvidia_line r)) = nvidia_gpus r"
  proof (cases r rule: nvidia_line.cases)
    case (1 junk)
    then have "length (csv_cells junk) < 4" using assms by (simp add: csv_cells_def)
    then show ?thesis using 1 by (cases "csv_cells junk" rule: nvidia_row.cases) auto
  next
    case (2 name tot free driver)
    then show ?thesis using assms nvidia_cells [of name tot free driver] number_cell(2)
      by (simp del: nvidia_line.simps)
  qed
  show "nvidia_gpus r = []" if "py_strip (nvidia_line r) = []"
  proof (cases r rule: nvidia_line.cases)
    case (2 name tot free driver)
    have "\<And>c. c \<in> set (nvidia_line r) \<Longrightarrow> is_space c"
      using py_strip_empty [OF that] .
    then have "is_space (hd (str_of_nat tot))"
      using 2 by (simp add: hd_in_set)
    moreover have "is_digit (hd (str_of_nat tot))"
      using str_of_nat_digits [of tot] assms 2 hd_in_set [OF str_of_nat_nonempty] by (auto simp: list_all_iff)
    ultimately show ?thesis using digit_kinds by blast
  qed simp
qed

lemma nvidia_output_read:
  assumes "list_all printable_row rows"
  shows "parse_nvidia_smi (nvidia_output rows) = concat (map nvidia_gpus rows)"
proof -
  have lines: "split_lines (nvidia_output rows) = map nvidia_line rows"
    using assms by (induction rows) (simp_all add: nvidia_output_def split_lines_line nvidia_row_read(1))
  have "concat (map (nvidia_row \<circ> csv_cells) (filter (\<lambda>l. py_strip l \<noteq> []) (map nvidia_line rows))) = concat (map nvidia_gpus rows)"
    using assms by (induction rows) (auto simp: nvidia_row_read(2,3))
  then show ?thesis by (simp add: parse_nvidia_smi_def filled_lines_def lines)
qed

text \<open>What nvidia-smi prints is read back: for any rows of a name, two sizes in MiB and a driver, with lines of fewer than
  four columns in between, exactly the rows yield a GPU, in order, with their names, drivers and the sizes in GB.\<close>

theorem nvidia_rows_read_back:
  assumes "list_all printable_row rows"
  shows "parse_nvidia_smi (nvidia_output rows) = concat (map nvidia_gpus rows)"
  using nvidia_output_read [OF assms] .

subsection \<open>A scan is consistent\<close>

lemma nvidia_row_maker: "g \<in> set (nvidia_row cells) \<Longrightarrow> gpu_maker g = Nvidia \<and> gpu_name g \<noteq> []"
  by (cases cells rule: nvidia_row.cases) (auto split: if_splits)

lemma rocm_card_maker [simp]: "gpu_maker (rocm_card n t u cells) = Amd" "gpu_name (rocm_card n t u cells) \<noteq> []"
  by (simp_all add: rocm_card_def Let_def)

lemma parsed_makers:
  "g \<in> set (parse_nvidia_smi t) \<Longrightarrow> gpu_maker g = Nvidia \<and> gpu_name g \<noteq> []"
  "g \<in> set (parse_rocm_smi t) \<Longrightarrow> gpu_maker g = Amd \<and> gpu_name g \<noteq> []"
  by (auto simp: parse_nvidia_smi_def parse_rocm_smi_def Let_def dest: nvidia_row_maker split: list.splits)

definition consistent_profile :: "hardware_profile \<Rightarrow> bool" where
  "consistent_profile p \<longleftrightarrow>
     (if unified_memory p then map gpu_maker (hw_gpus p) = [Apple] \<and> hw_accelerator p = Metal
      else gpu_maker ` set (hw_gpus p) \<subseteq> {Nvidia, Amd} \<and>
        (hw_accelerator p = (if Nvidia \<in> gpu_maker ` set (hw_gpus p) then Cuda else if hw_gpus p \<noteq> [] then Rocm else Cpu))) \<and>
     list_all (\<lambda>g. gpu_name g \<noteq> []) (hw_gpus p) \<and>
     map ri_name (hw_runtimes p) = [''ollama'', ''llama.cpp'', ''lmstudio''] \<and>
     list_all (\<lambda>r. ri_endpoint r \<noteq> None \<or> ri_version r \<noteq> None \<longrightarrow> ri_available r) (hw_runtimes p) \<and>
     hw_os p \<noteq> [] \<and> hw_os_version p \<noteq> [] \<and> hw_arch p \<noteq> []"

lemma detected_gpus:
  assumes "detect_gpus m run which False = Inr gpus" "g \<in> set gpus"
  shows "gpu_maker g \<in> {Nvidia, Amd}" "gpu_name g \<noteq> []"
  using assms parsed_makers by (auto simp: detect_gpus_def rbind_eq_Inr split: if_splits)

lemma accelerator_of_detected:
  assumes "gpu_maker ` set gpus \<subseteq> {Nvidia, Amd}"
  shows "resolve_accelerator gpus False = (if Nvidia \<in> gpu_maker ` set gpus then Cuda else if gpus \<noteq> [] then Rocm else Cpu)"
  using assms by (cases gpus) (auto simp: resolve_accelerator_def)

lemma runtimes_found:
  "hw_detect_runtimes which probe loads = Inr rs \<Longrightarrow> map ri_name rs = [''ollama'', ''llama.cpp'', ''lmstudio''] \<and>
     list_all (\<lambda>r. ri_endpoint r \<noteq> None \<or> ri_version r \<noteq> None \<longrightarrow> ri_available r) rs"
  by (auto simp: hw_detect_runtimes_def detect_ollama_def detect_llamacpp_def detect_lmstudio_def rbind_eq_Inr split: if_splits)

text \<open>C40. A profile that \<^verbatim>\<open>scan\<close> returns is well-formed, whatever the tools printed: unified memory means one Apple GPU and
  Metal; otherwise every GPU is NVIDIA's or AMD's and the accelerator is CUDA if there is an NVIDIA GPU, ROCm if there are
  only AMD ones, CPU if there is none. GPUs and the system have names, the three runtimes are listed in order, and one with
  a version or an endpoint is available.\<close>

theorem scan_consistent:
  assumes "scan m run which probe loads forced = Inr p"
  shows "consistent_profile p"
proof -
  define apple where "apple = (case forced of None \<Rightarrow> is_apple_silicon m | Some b \<Rightarrow> b)"
  obtain gpus rs where g: "detect_gpus m run which apple = Inr gpus" and r: "hw_detect_runtimes which probe loads = Inr rs"
    and p: "hw_gpus p = gpus" "hw_runtimes p = rs" "unified_memory p = apple" "hw_accelerator p = resolve_accelerator gpus apple"
      "hw_os p \<noteq> []" "hw_os_version p \<noteq> []" "hw_arch p \<noteq> []"
    using assms by (auto simp: scan_def Let_def rbind_eq_Inr apple_def text_or_def)
  show ?thesis
  proof (cases apple)
    case True
    then show ?thesis using g p runtimes_found [OF r]
      by (auto simp: consistent_profile_def detect_gpus_def resolve_accelerator_def)
  next
    case False
    then have "gpu_maker ` set gpus \<subseteq> {Nvidia, Amd}" "list_all (\<lambda>g. gpu_name g \<noteq> []) gpus"
      using detected_gpus [of m run which gpus] g by (auto simp: list_all_iff)
    then show ?thesis using False p runtimes_found [OF r] accelerator_of_detected [of gpus]
      by (simp add: consistent_profile_def)
  qed
qed

definition demo_machine :: machine where
  "demo_machine = \<lparr>m_system = ''Linux'', m_arch = ''x86_64'', m_processor = [], m_release = ''6.1'', m_mac_version = [],
     m_cpuinfo = None, m_physical = Some 4, m_logical = None, m_ram_total = 0, m_ram_available = 0, m_home_free = None,
     m_battery = None\<rparr>"

theorem nvidia_rows_read_back_witness:
  "parse_nvidia_smi (nvidia_output [Inr (''RTX'', 24564, 1024, ''550.1''), Inl ''junk'', Inr (''T4'', 15360, 0, [])]) =
   concat (map nvidia_gpus [Inr (''RTX'', 24564, 1024, ''550.1''), Inl ''junk'', Inr (''T4'', 15360, 0, [])])"
  by (rule nvidia_rows_read_back) (simp add: plain_cell_def py_strip_def is_space_def in_line_def is_break_def)

definition demo_runner :: runner where
  "demo_runner argv = Inr (nvidia_output [Inr (''T4'', 15360, 0, [])])"

lemma demo_gpus: "parse_nvidia_smi (nvidia_output [Inr (''T4'', 15360, 0, [])]) = nvidia_gpus (Inr (''T4'', 15360, 0, []))"
  by (subst nvidia_output_read) (simp_all add: plain_cell_def py_strip_def is_space_def in_line_def is_break_def)

theorem scan_consistent_witness:
  "\<exists>p. scan demo_machine demo_runner (\<lambda>name. if name = ''nvidia-smi'' then Some name else None) (\<lambda>url. Inr None) (\<lambda>t. None) None = Inr p \<and>
     consistent_profile p \<and> hw_accelerator p = Cuda"
proof -
  let ?which = "\<lambda>name. if name = ''nvidia-smi'' then Some name else None"
  obtain p where p: "scan demo_machine demo_runner ?which (\<lambda>url. Inr None) (\<lambda>t. None) None = Inr p" "hw_accelerator p = Cuda"
  proof -
    have g: "detect_gpus demo_machine demo_runner ?which False = Inr (nvidia_gpus (Inr (''T4'', 15360, 0, [])))"
      by (simp add: detect_gpus_def demo_runner_def falsy_text_def demo_gpus)
    have r: "resolve_accelerator (nvidia_gpus (Inr (''T4'', 15360, 0, []))) False = Cuda"
      by (simp add: resolve_accelerator_def)
    have "m_system demo_machine \<noteq> ''Darwin''" "m_ram_total demo_machine = 0" "m_ram_available demo_machine = 0" "m_home_free demo_machine = None"
      by (simp_all add: demo_machine_def)
    then show ?thesis using that r
      by (simp add: scan_def Let_def is_apple_silicon_def size_gb_def float_of_int_def home_disk_free_gb_def g
        hw_detect_runtimes_def detect_ollama_def)
  qed
  then show ?thesis using scan_consistent [OF p(1)] by blast
qed

text \<open>A battery whose charger cannot be told is reported as discharging.\<close>

theorem unknown_charger_reads_as_battery: "m_battery m = Some None \<Longrightarrow> battery_state m = Some True"
  by (simp add: battery_state_def)

end
