(* ===== verification/Node.thy ===== *)
theory Node
  imports Hardware Reputation Compute
begin

text \<open>
  The rest of \<^verbatim>\<open>packages/sin-node\<close>: \<^verbatim>\<open>http.py\<close> (the client of an OpenAI-compatible endpoint, blocking and
  streaming), \<^verbatim>\<open>adapter.py\<close> (the base adapter and the registry of adapters) and \<^verbatim>\<open>benchmark.py\<close>. A stream is
  what the server sent: a status and its lines, each with the reading of the clock when it is handled, any of
  which may raise instead. \<^verbatim>\<open>json.loads\<close> on a line is an argument. The lemmas show what the stream loop computes,
  that it reads from the proxy's event stream the content of the plain reply, and that a benchmark's manifest verifies.
\<close>

subsection \<open>http.py\<close>

definition request_headers :: "string option \<Rightarrow> (string \<times> string) list" where
  "request_headers api_key = (''content-type'', ''application/json'') #
     (if falsy_text api_key then [] else [(''authorization'', ''Bearer '' @ the api_key)])"

definition chat_call :: "string \<Rightarrow> json list \<Rightarrow> string option \<Rightarrow> int \<Rightarrow> pyfloat \<Rightarrow> bool \<Rightarrow> http_call" where
  "chat_call model messages api_key max_tokens temperature streamed =
     \<lparr>verb = ''POST'', path = ''/v1/chat/completions'', call_headers = request_headers api_key,
      call_json = Some (JObj ([(''model'', JStr model), (''messages'', JArr messages), (''max_tokens'', JInt max_tokens),
        (''temperature'', JFloat temperature), (''stream'', JBool streamed)] @
        (if streamed then [(''stream_options'', JObj [(''include_usage'', JBool True)])] else [])))\<rparr>"

definition raise_for_status :: "int \<Rightarrow> unit res" where
  "raise_for_status code = (if code < 200 \<or> 300 \<le> code then Inl (TransportError ''HTTPStatusError'') else Inr ())"

text \<open>\<^verbatim>\<open>v["k"]\<close> and \<^verbatim>\<open>v[0]\<close> on any JSON value.\<close>

fun json_item :: "json \<Rightarrow> string \<Rightarrow> json res" where
  "json_item (JObj d) k = getitem d k"
| "json_item v k = Inl TypeError"

fun json_first :: "json \<Rightarrow> json res" where
  "json_first (JArr []) = Inl IndexError"
| "json_first (JArr (x # xs)) = Inr x"
| "json_first (JStr []) = Inl IndexError"
| "json_first (JStr (c # cs)) = Inr (JStr [c])"
| "json_first (JObj d) = Inl KeyError"
| "json_first v = Inl TypeError"

text \<open>\<^verbatim>\<open>v.get(k, d)\<close> and \<^verbatim>\<open>v or w\<close>\<close>

definition attr_get_or :: "json \<Rightarrow> string \<Rightarrow> json \<Rightarrow> json res" where
  "attr_get_or v k d = (case the_obj v of None \<Rightarrow> Inl AttributeError | Some o' \<Rightarrow> Inr (get_or o' k d))"

definition or_json :: "json \<Rightarrow> json \<Rightarrow> json" where
  "or_json v w = (if truthy v then v else w)"

definition parse_chat :: "string \<Rightarrow> json \<Rightarrow> chat_result res" where
  "parse_chat model data =
     rbind (json_item data ''choices'') (\<lambda>choices. rbind (json_first choices) (\<lambda>c.
     rbind (json_item c ''message'') (\<lambda>message. rbind (json_item message ''content'') (\<lambda>text.
     rbind (attr_get data ''usage'') (\<lambda>u0. let u = or_json u0 (JObj []) in
     rbind (rbind (attr_get_or u ''prompt_tokens'' (JInt 0)) py_int) (\<lambda>n_in.
     rbind (rbind (attr_get_or u ''completion_tokens'' (JInt 0)) py_int) (\<lambda>n_out.
       case the_str text of None \<Rightarrow> Inl ValueError
       | Some s \<Rightarrow> Inr \<lparr>content = s, input_tokens = n_in, output_tokens = n_out, chat_model = model\<rparr>)))))))"

definition http_chat ::
  "'w outside \<Rightarrow> string \<Rightarrow> string \<Rightarrow> json list \<Rightarrow> string option \<Rightarrow> int \<Rightarrow> pyfloat \<Rightarrow> ('w, chat_result) act" where
  "http_chat E base model messages api_key max_tokens temperature w =
     (case network E base (chat_call model messages api_key max_tokens temperature False) w of
        (Inl e, w') \<Rightarrow> (Inl e, w')
      | (Inr r, w') \<Rightarrow> (rbind (raise_for_status (reply_status r)) (\<lambda>_.
          case reply_json r of None \<Rightarrow> Inl ValueError | Some data \<Rightarrow> parse_chat model data), w'))"

record stream_stats =
  ss_content :: string
  ttft_s :: pyfloat
  total_s :: pyfloat
  generation_s :: pyfloat
  ss_output_tokens :: int
  tokens_per_second :: pyfloat

text \<open>The variables of the loop.\<close>

record stream_state =
  first_token :: "pyfloat option"
  content_parts :: "json list"
  usage_tokens :: "int option"
  chunk_count :: int

definition fresh_stream :: stream_state where
  "fresh_stream = \<lparr>first_token = None, content_parts = [], usage_tokens = None, chunk_count = 0\<rparr>"

definition take_piece :: "pyfloat \<Rightarrow> json \<Rightarrow> stream_state \<Rightarrow> stream_state" where
  "take_piece waited piece st =
     (if truthy piece then
        st\<lparr>first_token := (if first_token st = None then Some waited else first_token st),
           content_parts := content_parts st @ [piece], chunk_count := chunk_count st + 1\<rparr>
      else st)"

definition take_usage :: "json \<Rightarrow> stream_state \<Rightarrow> stream_state res" where
  "take_usage u st =
     (if truthy u then rbind (attr_get u ''completion_tokens'') (\<lambda>n.
        if n = JNull then Inr st else rbind (py_int n) (\<lambda>i. Inr (st\<lparr>usage_tokens := Some i\<rparr>)))
      else Inr st)"

definition read_event :: "pyfloat \<Rightarrow> json \<Rightarrow> stream_state \<Rightarrow> stream_state res" where
  "read_event waited v st =
     rbind (attr_get v ''choices'') (\<lambda>c0. let choices = or_json c0 (JArr []) in
     rbind (if truthy choices then rbind (json_first choices) (\<lambda>c. attr_get_or c ''delta'' (JObj [])) else Inr (JObj [])) (\<lambda>delta.
     rbind (attr_get delta ''content'') (\<lambda>piece.
     rbind (attr_get v ''usage'') (\<lambda>u. take_usage u (take_piece waited piece st)))))"

definition event_text :: "string \<Rightarrow> string" where
  "event_text raw = (if startswith raw ''data: '' then drop 6 raw else raw)"

definition read_line :: "(string \<Rightarrow> json option) \<Rightarrow> pyfloat \<Rightarrow> (pyfloat \<times> string) res \<Rightarrow> stream_state \<Rightarrow> stream_state res" where
  "read_line loads t_start got st = rbind got (\<lambda>(now, raw).
     if raw = [] \<or> py_strip (event_text raw) = ''[DONE]'' then Inr st
     else case loads (event_text raw) of None \<Rightarrow> Inr st | Some v \<Rightarrow> read_event (fsub now t_start) v st)"

definition join_parts :: "json list \<Rightarrow> string res" where
  "join_parts vs = rbind (rmap (\<lambda>v. case the_str v of None \<Rightarrow> Inl TypeError | Some s \<Rightarrow> Inr s) vs) (\<lambda>ss. Inr (concat ss))"

text \<open>The readings of the clock at the start, after the stream, and once more if no content came.\<close>

record stop_watch =
  at_start :: pyfloat
  at_end :: pyfloat
  at_last :: pyfloat

definition finish_stream :: "stop_watch \<Rightarrow> stream_state \<Rightarrow> stream_stats res" where
  "finish_stream W st =
     (let ttft = (case first_token st of Some t \<Rightarrow> t | None \<Rightarrow> fsub (at_last W) (at_start W));
          out = (case usage_tokens st of Some n \<Rightarrow> n | None \<Rightarrow> chunk_count st);
          total_time = fsub (at_end W) (at_start W);
          generation = fmax (fsub total_time ttft) (Fin 0)
      in rbind (if flt (Fin 0) generation then rbind (float_of_int out) (\<lambda>x. fdiv x generation) else Inr (Fin 0)) (\<lambda>tps.
         rbind (join_parts (content_parts st)) (\<lambda>text.
           Inr \<lparr>ss_content = text, ttft_s = ttft, total_s = total_time, generation_s = generation,
                ss_output_tokens = out, tokens_per_second = tps\<rparr>)))"

record streamed =
  st_status :: int
  st_lines :: "(pyfloat \<times> string) res list"

definition stream_chat ::
  "(string \<Rightarrow> json option) \<Rightarrow> (string \<Rightarrow> http_call \<Rightarrow> streamed res) \<Rightarrow> stop_watch \<Rightarrow> string \<Rightarrow> string \<Rightarrow> json list \<Rightarrow>
   string option \<Rightarrow> int \<Rightarrow> pyfloat \<Rightarrow> stream_stats res" where
  "stream_chat loads open_stream W base model messages api_key max_tokens temperature =
     rbind (open_stream base (chat_call model messages api_key max_tokens temperature True)) (\<lambda>r.
     rbind (raise_for_status (st_status r)) (\<lambda>_.
     rbind (rfold (read_line loads (at_start W)) (st_lines r) fresh_stream) (finish_stream W)))"

subsection \<open>adapter.py\<close>

record server_handle =
  sh_base_url :: string
  sh_runtime :: string
  sh_pid :: "int option"

text \<open>The base URL an adapter keeps, and its probe: anything below 500 is alive.\<close>

definition adapter_base :: "string \<Rightarrow> string" where
  "adapter_base url = rstrip_char CHR ''/'' url"

definition adapter_health :: "'w outside \<Rightarrow> string \<Rightarrow> ('w, bool) act" where
  "adapter_health E base w =
     (case network E base \<lparr>verb = ''GET'', path = ''/v1/models'', call_headers = [], call_json = None\<rparr> w of
        (Inl (TransportError n), w') \<Rightarrow> (Inr False, w')
      | (Inl e, w') \<Rightarrow> (Inl e, w')
      | (Inr r, w') \<Rightarrow> (Inr (reply_status r < 500), w'))"

definition register_adapter :: "string \<Rightarrow> 'f \<Rightarrow> 'f factories \<Rightarrow> 'f factories" where
  "register_adapter name factory reg = dict_set name factory reg"

definition get_adapter :: "('a \<Rightarrow> 'p res) factories \<Rightarrow> string \<Rightarrow> 'a \<Rightarrow> 'p res" where
  "get_adapter reg name args = (case dict_get reg name of None \<Rightarrow> Inl KeyError | Some factory \<Rightarrow> factory args)"

definition adapter_names :: "'f factories \<Rightarrow> string list" where
  "adapter_names reg = isort_by str_le (map fst reg)"

subsection \<open>benchmark.py\<close>

record benchmark_result =
  model_alias :: string
  bm_runtime :: string
  ttft_ms :: pyfloat
  bm_tps :: pyfloat
  bm_output_tokens :: int
  bm_input_tokens :: int
  bm_peak_mb :: "pyfloat option"
  max_stable_context :: "int option"
  measured_at :: "string option"

definition benchmark_endpoint ::
  "(string \<Rightarrow> json option) \<Rightarrow> (string \<Rightarrow> http_call \<Rightarrow> streamed res) \<Rightarrow> stop_watch \<Rightarrow> string \<Rightarrow>
   string \<Rightarrow> string \<Rightarrow> string \<Rightarrow> string \<Rightarrow> int \<Rightarrow> benchmark_result res" where
  "benchmark_endpoint loads open_stream W now base model runtime prompt max_tokens =
     rbind (stream_chat loads open_stream W base model [JObj [(''role'', JStr ''user''), (''content'', JStr prompt)]] None max_tokens (Fin 0))
       (\<lambda>stats. Inr \<lparr>model_alias = model, bm_runtime = runtime, ttft_ms = fmul (ttft_s stats) (Fin 1000),
          bm_tps = tokens_per_second stats, bm_output_tokens = ss_output_tokens stats, bm_input_tokens = 0,
          bm_peak_mb = None, max_stable_context = None, measured_at = Some now\<rparr>)"

text \<open>The largest context before the first one that fails.\<close>

fun probe_contexts :: "(int \<Rightarrow> bool res) \<Rightarrow> int list \<Rightarrow> int option \<Rightarrow> int option res" where
  "probe_contexts prober [] best = Inr best"
| "probe_contexts prober (c # cs) best = rbind (prober c) (\<lambda>up. if up then probe_contexts prober cs (Some c) else Inr best)"

definition probe_max_stable_context :: "int list \<Rightarrow> (int \<Rightarrow> bool res) \<Rightarrow> int option res" where
  "probe_max_stable_context contexts prober = probe_contexts prober contexts None"

text \<open>The resident set size in bytes, \<open>None\<close> where \<^verbatim>\<open>psutil\<close> is missing or cannot read it.\<close>

definition peak_memory_mb :: "int option \<Rightarrow> pyfloat option res" where
  "peak_memory_mb rss = (case rss of None \<Rightarrow> Inr None
     | Some n \<Rightarrow> rbind (Advisor.int_div n (1024 * 1024)) (\<lambda>x. Inr (Some (fround 1 x))))"

definition advertised_adapters :: "hardware_profile \<Rightarrow> benchmark_result \<Rightarrow> string list" where
  "advertised_adapters p r = (let available = map ri_name (filter ri_available (hw_runtimes p)) in
     if available \<noteq> [] then available else [bm_runtime r])"

text \<open>\<^verbatim>\<open>round(x)\<close> to an integer\<close>

fun round_int :: "pyfloat \<Rightarrow> int res" where
  "round_int (Fin x) = Inr (rne x)"
| "round_int NaN = Inl ValueError"
| "round_int PInf = Inl OverflowError"
| "round_int NInf = Inl OverflowError"

definition bench_manifest ::
  "hardware_profile \<Rightarrow> string list \<Rightarrow> benchmark_result \<Rightarrow> dict \<Rightarrow> string list \<Rightarrow> string \<Rightarrow> string \<Rightarrow> string \<Rightarrow> string \<Rightarrow> int \<Rightarrow> dict" where
  "bench_manifest p models r pricing modes pubkey node_type published logging ttft =
     [(''schema'', JStr ''sip-ai.provider_manifest.v1''), (''provider_pubkey'', JStr pubkey), (''node_type'', JStr node_type),
      (''models'', jstrs models), (''runtime_adapters'', jstrs (advertised_adapters p r)), (''pricing'', JObj pricing),
      (''max_context'', JInt (case max_stable_context r of None \<Rightarrow> 4096 | Some c \<Rightarrow> c)),
      (''logging_policy'', JStr logging), (''privacy_modes'', jstrs modes),
      (''benchmark'', JObj [(''tokens_per_second'', JFloat (fround 1 (bm_tps r))), (''ttft_ms'', JInt ttft)]),
      (''published_at'', JStr published)]"

definition to_provider_manifest ::
  "platform \<Rightarrow> hardware_profile \<Rightarrow> string list \<Rightarrow> benchmark_result \<Rightarrow> dict \<Rightarrow> string list \<Rightarrow> keypair \<Rightarrow> string \<Rightarrow> string \<Rightarrow> string \<Rightarrow> dict res" where
  "to_provider_manifest P p models r pricing modes kp node_type published logging =
     rbind (round_int (ttft_ms r)) (\<lambda>ttft.
       sign_provider_manifest P (bench_manifest p models r pricing modes (public_key_str P kp) node_type published logging ttft) kp)"

subsection \<open>What the stream loop computes\<close>

text \<open>The invariant of the loop, and the readings it saw.\<close>

definition readings :: "(pyfloat \<times> string) res list \<Rightarrow> pyfloat list" where
  "readings lines = List.map_filter (\<lambda>got. case got of Inl e \<Rightarrow> None | Inr (now, raw) \<Rightarrow> Some now) lines"

definition stream_inv :: "pyfloat \<Rightarrow> pyfloat list \<Rightarrow> stream_state \<Rightarrow> bool" where
  "stream_inv t0 ts st \<longleftrightarrow> (first_token st = None \<longleftrightarrow> content_parts st = []) \<and>
     (\<forall>w. first_token st = Some w \<longrightarrow> (\<exists>t\<in>set ts. w = fsub t t0)) \<and>
     chunk_count st = int (length (content_parts st)) \<and> list_all truthy (content_parts st)"

lemma take_usage_keeps:
  "take_usage u st = Inr st' \<Longrightarrow> first_token st' = first_token st \<and> content_parts st' = content_parts st \<and> chunk_count st' = chunk_count st"
  by (auto simp: take_usage_def rbind_eq_Inr split: if_splits)

lemma read_event_run:
  assumes "read_event waited v st = Inr st'"
  obtains piece u where "take_usage u (take_piece waited piece st) = Inr st'"
  using assms unfolding read_event_def Let_def rbind_eq_Inr by blast

lemma take_piece_keeps_inv:
  "stream_inv t0 (ts @ [now]) st \<Longrightarrow> stream_inv t0 (ts @ [now]) (take_piece (fsub now t0) piece st)"
  by (auto simp: stream_inv_def take_piece_def)

lemma read_line_run:
  assumes "read_line loads t0 (Inr (now, raw)) st = Inr st'"
  shows "st' = st \<or> (\<exists>v. read_event (fsub now t0) v st = Inr st')"
proof (cases "raw = [] \<or> py_strip (event_text raw) = ''[DONE]''")
  case False
  then show ?thesis using assms unfolding read_line_def rbind_Inr prod.case by (cases "loads (event_text raw)") auto
qed (use assms in \<open>simp add: read_line_def\<close>)

lemma read_line_keeps_inv:
  assumes "read_line loads t0 got st = Inr st'" "stream_inv t0 ts st"
  shows "stream_inv t0 (ts @ readings [got]) st'"
proof -
  obtain now raw where got: "got = Inr (now, raw)" using assms(1) by (auto simp: read_line_def rbind_eq_Inr)
  have more: "stream_inv t0 (ts @ [now]) st" using assms(2) by (auto simp: stream_inv_def)
  have r: "readings [got] = [now]" by (simp add: readings_def map_filter_simps got)
  consider "st' = st" | v where "read_event (fsub now t0) v st = Inr st'"
    using read_line_run [OF assms(1) [unfolded got]] by blast
  then show ?thesis
  proof cases
    case 2
    then obtain piece u where "take_usage u (take_piece (fsub now t0) piece st) = Inr st'"
      by (rule read_event_run)
    then have k: "first_token st' = first_token (take_piece (fsub now t0) piece st)"
      "content_parts st' = content_parts (take_piece (fsub now t0) piece st)"
      "chunk_count st' = chunk_count (take_piece (fsub now t0) piece st)"
      using take_usage_keeps by blast+
    show ?thesis using take_piece_keeps_inv [OF more, of piece] unfolding r stream_inv_def k .
  qed (use more r in simp)
qed

lemma stream_inv_run:
  "rfold (read_line loads t0) lines st = Inr st' \<Longrightarrow> stream_inv t0 ts st \<Longrightarrow> stream_inv t0 (ts @ readings lines) st'"
proof (induction lines arbitrary: st ts)
  case (Cons got lines)
  then obtain m where m: "read_line loads t0 got st = Inr m" "rfold (read_line loads t0) lines m = Inr st'"
    by (auto simp: rbind_eq_Inr)
  have "readings (got # lines) = readings [got] @ readings lines"
    by (simp add: readings_def map_filter_simps split: sum.splits)
  then show ?case using Cons.IH [OF m(2) read_line_keeps_inv [OF m(1) Cons.prems(2)]] by simp
qed (simp add: readings_def map_filter_simps)

text \<open>A clock that runs forward, in seconds below \<open>2 ^ 50\<close>.\<close>

definition clock_reading :: "pyfloat \<Rightarrow> bool" where
  "clock_reading t \<longleftrightarrow> (\<exists>x. t = Fin x \<and> 0 \<le> x \<and> x \<le> 2 ^ 50)"

definition steady :: "stop_watch \<Rightarrow> (pyfloat \<times> string) res list \<Rightarrow> bool" where
  "steady W lines \<longleftrightarrow> (let ts = at_start W # readings lines @ [at_end W, at_last W] in
     list_all clock_reading ts \<and> sorted_wrt fle ts)"

lemma elapsed:
  assumes "clock_reading s" "clock_reading t" "fle s t"
  obtains d where "fsub t s = Fin d" "0 \<le> d"
proof -
  obtain a b where ab: "s = Fin a" "t = Fin b" "0 \<le> a" "a \<le> b" "b \<le> 2 ^ 50"
    using assms by (auto simp: clock_reading_def)
  have "to_float (1125899906842624 :: rat) = Fin 1125899906842624" by (rule to_float_numeral) simp
  then have "fle (to_float (b - a)) (Fin 1125899906842624)"
    using ab to_float_mono [of "b - a" 1125899906842624] by simp
  moreover have "fle (Fin 0) (to_float (b - a))" using ab by (intro to_float_nonneg) simp
  ultimately show ?thesis
    using that ab(1,2) by (cases "to_float (b - a)") (auto simp: fsub_def)
qed

lemma fsub_mono_first:
  assumes "clock_reading s" "clock_reading t" "clock_reading u" "fle s t" "fle t u"
  obtains d e where "fsub t s = Fin d" "fsub u s = Fin e" "0 \<le> d" "d \<le> e"
proof -
  obtain d where d: "fsub t s = Fin d" "0 \<le> d" using elapsed [OF assms(1,2,4)] .
  obtain e where e: "fsub u s = Fin e" using elapsed [OF assms(1,3) fle_trans [OF assms(4,5)]] .
  have "fle (fsub t s) (fsub u s)"
    using assms by (auto simp: clock_reading_def fsub_def intro!: to_float_mono)
  then show ?thesis using that d e by simp
qed

lemma join_empty:
  assumes "join_parts vs = Inr []" "list_all truthy vs"
  shows "vs = []"
proof (cases vs)
  case (Cons v ws)
  then obtain s where "v = JStr s" "s = []"
    using assms(1) by (auto simp: join_parts_def rbind_eq_Inr split: option.splits)
  then show ?thesis using assms(2) Cons by simp
qed simp

lemma generation_bounds:
  assumes "fsub e s = Fin x" "w = Fin y"
  shows "fle (Fin 0) (fmax (fsub (fsub e s) w) (Fin 0)) \<and> (x \<le> y \<longrightarrow> \<not> flt (Fin 0) (fmax (fsub (fsub e s) w) (Fin 0)))"
proof -
  have "fsub (fsub e s) w = to_float (x - y)" using assms by (simp add: fsub_def)
  moreover have "x \<le> y \<Longrightarrow> fle (to_float (x - y)) (Fin 0)"
    using to_float_mono [of "x - y" 0] by simp
  ultimately show ?thesis
    using to_float_not_NaN [of "x - y"] by (cases "to_float (x - y)") (auto simp: fmax_def flt_def)
qed

lemma rates_of_stream:
  assumes "finish_stream W st = Inr s" "stream_inv (at_start W) (readings lines) st" "steady W lines"
  shows "fle (Fin 0) (ttft_s s) \<and> fle (Fin 0) (generation_s s) \<and> (ss_content s = [] \<longrightarrow> tokens_per_second s = Fin 0) \<and>
    ss_output_tokens s = (case usage_tokens st of Some n \<Rightarrow> n | None \<Rightarrow> int (length (content_parts st)))"
proof -
  define w where "w = (case first_token st of Some t \<Rightarrow> t | None \<Rightarrow> fsub (at_last W) (at_start W))"
  have cl: "clock_reading (at_start W)" "clock_reading (at_end W)" "clock_reading (at_last W)"
    and order: "fle (at_start W) (at_end W)" "fle (at_start W) (at_last W)" "fle (at_end W) (at_last W)"
    and seen: "\<And>t. t \<in> set (readings lines) \<Longrightarrow> clock_reading t \<and> fle (at_start W) t"
    using assms(3) by (auto simp: steady_def Let_def sorted_wrt_append list_all_iff)
  obtain x where x: "fsub (at_end W) (at_start W) = Fin x" using elapsed [OF cl(1,2) order(1)] .
  obtain y where y: "w = Fin y" "0 \<le> y" and late: "first_token st = None \<Longrightarrow> x \<le> y"
  proof (cases "first_token st")
    case None
    obtain d e where de: "fsub (at_end W) (at_start W) = Fin d" "fsub (at_last W) (at_start W) = Fin e" "0 \<le> d" "d \<le> e"
      using fsub_mono_first [OF cl(1,2,3) order(1,3)] .
    then show ?thesis using that [of e] x None by (simp add: w_def)
  next
    case (Some t)
    then obtain r where r: "r \<in> set (readings lines)" "t = fsub r (at_start W)"
      using assms(2) by (auto simp: stream_inv_def)
    obtain d where "fsub r (at_start W) = Fin d" "0 \<le> d" using elapsed [OF cl(1)] seen [OF r(1)] by blast
    then show ?thesis using that [of d] Some r by (simp add: w_def)
  qed
  obtain tps joined where run: "(if flt (Fin 0) (fmax (fsub (fsub (at_end W) (at_start W)) w) (Fin 0))
        then rbind (float_of_int (case usage_tokens st of Some n \<Rightarrow> n | None \<Rightarrow> chunk_count st))
          (\<lambda>x. fdiv x (fmax (fsub (fsub (at_end W) (at_start W)) w) (Fin 0))) else Inr (Fin 0)) = Inr tps"
      "join_parts (content_parts st) = Inr joined"
    and s: "s = \<lparr>ss_content = joined, ttft_s = w, total_s = fsub (at_end W) (at_start W),
      generation_s = fmax (fsub (fsub (at_end W) (at_start W)) w) (Fin 0),
      ss_output_tokens = (case usage_tokens st of Some n \<Rightarrow> n | None \<Rightarrow> chunk_count st), tokens_per_second = tps\<rparr>"
    using assms(1) unfolding finish_stream_def Let_def rbind_eq_Inr w_def [symmetric] by (metis sum.inject(2))
  have gen: "fle (Fin 0) (generation_s s)" using generation_bounds [OF x y(1)] by (simp add: s)
  have "tokens_per_second s = Fin 0" if "ss_content s = []"
  proof -
    have "content_parts st = []" using that join_empty run(2) assms(2) by (simp add: s stream_inv_def)
    then have "x \<le> y" using assms(2) late by (simp add: stream_inv_def)
    then show ?thesis using generation_bounds [OF x y(1)] run(1) by (simp add: s)
  qed
  moreover have "chunk_count st = int (length (content_parts st))" using assms(2) by (simp add: stream_inv_def)
  ultimately show ?thesis using gen y by (simp add: s split: option.split)
qed

lemma stream_chat_run:
  assumes "stream_chat loads op W base model messages key n temp = Inr s"
  obtains r st where "op base (chat_call model messages key n temp True) = Inr r"
    "rfold (read_line loads (at_start W)) (st_lines r) fresh_stream = Inr st" "finish_stream W st = Inr s"
    "stream_inv (at_start W) (readings (st_lines r)) st"
proof -
  obtain r st where r: "op base (chat_call model messages key n temp True) = Inr r"
    "rfold (read_line loads (at_start W)) (st_lines r) fresh_stream = Inr st" "finish_stream W st = Inr s"
    using assms by (auto simp: stream_chat_def rbind_eq_Inr)
  have "stream_inv (at_start W) [] fresh_stream" by (simp add: stream_inv_def fresh_stream_def)
  then have "stream_inv (at_start W) (readings (st_lines r)) st" using stream_inv_run [OF r(2)] by (metis append_Nil)
  then show ?thesis by (rule that [OF r])
qed

text \<open>Over a clock that runs forward the times measured are not negative, and a stream without content has rate zero.\<close>

theorem stream_timing:
  assumes "stream_chat loads op W base model messages key n temp = Inr s"
    and "\<And>r. op base (chat_call model messages key n temp True) = Inr r \<Longrightarrow> steady W (st_lines r)"
  shows "fle (Fin 0) (ttft_s s) \<and> fle (Fin 0) (generation_s s) \<and> (ss_content s = [] \<longrightarrow> tokens_per_second s = Fin 0)"
  using stream_chat_run [OF assms(1)] rates_of_stream assms(2) by metis

subsection \<open>Probing and publishing\<close>

lemma probe_contexts_prefix:
  "(\<And>c. prober c = Inr (good c)) \<Longrightarrow> probe_contexts prober cs best =
     Inr (if takeWhile good cs = [] then best else Some (last (takeWhile good cs)))"
  by (induction cs arbitrary: best) auto

lemma probe_finds_last:
  "(\<And>c. prober c = Inr (good c)) \<Longrightarrow> probe_max_stable_context cs prober =
     Inr (if takeWhile good cs = [] then None else Some (last (takeWhile good cs)))"
  by (simp add: probe_max_stable_context_def probe_contexts_prefix)

lemma bench_manifest_run:
  assumes "to_provider_manifest P p models r pricing modes kp node_type published logging = Inr m"
  obtains ttft where "sign_document P (bench_manifest p models r pricing modes (public_key_str P kp) node_type published logging ttft) kp = Inr m"
  using assms by (auto simp: to_provider_manifest_def sign_provider_manifest_def rbind_eq_Inr)

lemma bench_manifest_signed:
  assumes "ed25519_laws P" "to_provider_manifest P p models r pricing modes kp node_type published logging = Inr m"
  shows "verify_document P ''provider_pubkey'' m = Inr True"
proof -
  obtain ttft where s: "sign_document P (bench_manifest p models r pricing modes (public_key_str P kp) node_type published logging ttft) kp = Inr m"
    using bench_manifest_run [OF assms(2)] .
  show ?thesis
    by (rule sign_verify_document [OF assms(1) s]) (simp_all add: bench_manifest_def getn_def)
qed

text \<open>A benchmark's manifest carries no address, so no directory announces it.\<close>

lemma bench_manifest_no_address:
  assumes "to_provider_manifest P p models r pricing modes kp node_type published logging = Inr m"
  shows "getn m ''manifest_uri'' = JNull"
proof -
  obtain ttft where s: "sign_document P (bench_manifest p models r pricing modes (public_key_str P kp) node_type published logging ttft) kp = Inr m"
    using bench_manifest_run [OF assms] .
  have "dict_get m ''manifest_uri'' = dict_get (bench_manifest p models r pricing modes (public_key_str P kp) node_type published logging ttft) ''manifest_uri''"
    by (rule sign_document_fields [OF s]) simp
  then show ?thesis by (simp add: getn_def bench_manifest_def)
qed

text \<open>A benchmark's manifest is signed and carries the rounded measurements, and no directory accepts it, having no address.\<close>

theorem benchmark_manifest:
  assumes "ed25519_laws P" "to_provider_manifest P p models r pricing modes kp node_type published logging = Inr m"
  shows "verify_document P ''provider_pubkey'' m = Inr True \<and> getn m ''models'' = jstrs models \<and>
    (\<exists>ttft. round_int (ttft_ms r) = Inr ttft \<and>
       getn m ''benchmark'' = JObj [(''tokens_per_second'', JFloat (fround 1 (bm_tps r))), (''ttft_ms'', JInt ttft)]) \<and>
    signed_endpoint m url = Inl DiscoveryError"
proof -
  obtain ttft where t: "round_int (ttft_ms r) = Inr ttft"
    and s: "sign_document P (bench_manifest p models r pricing modes (public_key_str P kp) node_type published logging ttft) kp = Inr m"
    using assms(2) by (auto simp: to_provider_manifest_def sign_provider_manifest_def rbind_eq_Inr)
  have get: "k \<noteq> ''signature'' \<Longrightarrow> dict_get m k =
      dict_get (bench_manifest p models r pricing modes (public_key_str P kp) node_type published logging ttft) k" for k
    by (rule sign_document_fields [OF s])
  show ?thesis
    using bench_manifest_signed [OF assms] bench_manifest_no_address [OF assms(2)] t
    by (simp add: signed_endpoint_def getn_def get bench_manifest_def)
qed

subsection \<open>Inputs\<close>

definition demo_bench :: benchmark_result where
  "demo_bench = \<lparr>model_alias = ''m'', bm_runtime = ''ollama'', ttft_ms = Fin 12, bm_tps = Fin 3, bm_output_tokens = 5, bm_input_tokens = 0,
     bm_peak_mb = None, max_stable_context = None, measured_at = None\<rparr>"

theorem benchmark_manifest_witness:
  "\<exists>m. to_provider_manifest demo demo_laptop [''m''] demo_bench [(''unit'', JStr ''test'')] [''direct''] (demo_key 3) ''sovereign-node'' ''t'' ''no_prompt_logging'' = Inr m \<and>
     verify_document demo ''provider_pubkey'' m = Inr True"
proof -
  let ?d = "bench_manifest demo_laptop [''m''] demo_bench [(''unit'', JStr ''test'')] [''direct''] (public_key_str demo (demo_key 3)) ''sovereign-node'' ''t'' ''no_prompt_logging'' 12"
  have ttft: "round_int (ttft_ms demo_bench) = Inr 12" using rne_of_int [of 12] by (simp add: demo_bench_def)
  have "fround 1 (Fin 3) = Fin 3" using rne_of_int [of 30] by (simp add: to_float_numeral)
  then have "json_ok (JObj ?d)" by (simp add: bench_manifest_def demo_bench_def jstrs_def list_all_iff)
  then obtain m where "sign_document demo ?d (demo_key 3) = Inr m" using sign_document_total by blast
  then have m: "to_provider_manifest demo demo_laptop [''m''] demo_bench [(''unit'', JStr ''test'')] [''direct''] (demo_key 3) ''sovereign-node'' ''t''
      ''no_prompt_logging'' = Inr m"
    by (simp only: to_provider_manifest_def sign_provider_manifest_def ttft rbind_Inr)
  then show ?thesis using benchmark_manifest [OF demo_laws m] by blast
qed

definition demo_watch :: stop_watch where
  "demo_watch = \<lparr>at_start = Fin 0, at_end = Fin 2, at_last = Fin 2\<rparr>"

theorem stream_timing_witness:
  "\<exists>s. stream_chat (\<lambda>t. None) (\<lambda>base call. Inr \<lparr>st_status = 200, st_lines = [Inr (Fin 1, ''junk'')]\<rparr>) demo_watch ''u'' ''m'' [] None 1 (Fin 0) = Inr s \<and>
     tokens_per_second s = Fin 0"
proof -
  let ?op = "\<lambda>base call. Inr \<lparr>st_status = 200, st_lines = [Inr (Fin 1, ''junk'')]\<rparr>"
  have n: "to_float 2 = Fin 2" by (simp add: to_float_numeral)
  obtain s where s: "stream_chat (\<lambda>t. None) ?op demo_watch ''u'' ''m'' [] None 1 (Fin 0) = Inr s" "ss_content s = []"
    by (simp add: stream_chat_def raise_for_status_def read_line_def event_text_def startswith_def py_strip_def is_space_def
        finish_stream_def fresh_stream_def demo_watch_def Let_def join_parts_def fsub_def fmax_def flt_def n)
  have steady: "steady demo_watch [Inr (Fin 1, ''junk'')]"
    by (simp add: steady_def demo_watch_def readings_def map_filter_simps clock_reading_def)
  show ?thesis using stream_timing [OF s(1)] steady s by auto
qed

end
