(* ===== verification/Runtimes.thy ===== *)
theory Runtimes
  imports Node Proxy
begin

text \<open>
  The two runtime adapters, \<^verbatim>\<open>adapters/runtime-llamacpp\<close> and \<^verbatim>\<open>adapters/runtime-ollama\<close>, and what the
  streaming client of \<^verbatim>\<open>sin-node\<close> reads from the stream of \<^verbatim>\<open>openai-proxy\<close>. A child process is the three
  calls Python makes on it, over the world it runs in; \<^verbatim>\<open>spawn\<close>, the health check, the pause and the search
  path are arguments. The lemmas show that a server that does not come up is reaped, even one that ignores
  the polite signal, and that the streamed content is the content of the plain reply.
\<close>

subsection \<open>runtime-llamacpp: processes\<close>

record 'w child =
  ch_pid :: "int option"
  ch_terminate :: "('w, unit) act option"
  ch_wait :: "('w, unit) act option"
  ch_kill :: "('w, unit) act option"

text \<open>\<^verbatim>\<open>with contextlib.suppress(...)\<close>, around a call that may be missing. A wait that times out raises a
  \<^verbatim>\<open>TimeoutExpired\<close>, which is a \<open>ProcessError\<close>.\<close>

definition suppressed :: "exn set \<Rightarrow> ('w, unit) act option \<Rightarrow> ('w, unit) act" where
  "suppressed es f w = (case f of None \<Rightarrow> (Inr (), w)
     | Some g \<Rightarrow> (case g w of (Inl e, w') \<Rightarrow> (if e \<in> es then Inr () else Inl e, w') | (Inr x, w') \<Rightarrow> (Inr (), w')))"

definition escalate :: "'w child \<Rightarrow> ('w, unit) act" where
  "escalate p = abind (suppressed {OSError} (ch_kill p)) (\<lambda>_. suppressed {ProcessError, OSError} (ch_wait p))"

definition terminate_child :: "'w child \<Rightarrow> ('w, unit) act" where
  "terminate_child p = abind (suppressed {OSError} (ch_terminate p)) (\<lambda>_ w.
     case ch_wait p of None \<Rightarrow> escalate p w
     | Some wait \<Rightarrow> (case wait w of
         (Inr _, w') \<Rightarrow> (Inr (), w')
       | (Inl e, w') \<Rightarrow> if e = ProcessError then escalate p w' else if e = OSError then (Inr (), w') else (Inl e, w')))"

subsection \<open>runtime-llamacpp: the adapter\<close>

record 'w llama =
  ll_base :: string
  ll_process :: "'w child option"
  ll_served :: "string option"
  ll_world :: 'w

definition on_llama :: "('w, 'a) act \<Rightarrow> ('w llama, 'a) act" where
  "on_llama f s = (case f (ll_world s) of (r, w) \<Rightarrow> (r, s\<lparr>ll_world := w\<rparr>))"

definition llama_available :: "(string \<Rightarrow> string option res) \<Rightarrow> bool res" where
  "llama_available which = (case which ''llama-server'' of
     Inl OSError \<Rightarrow> Inr False | Inl e \<Rightarrow> Inl e | Inr found \<Rightarrow> Inr (found \<noteq> None))"

definition llama_detect :: "(string \<Rightarrow> string option res) \<Rightarrow> 'w llama \<Rightarrow> runtime_info res" where
  "llama_detect which s = rbind (llama_available which) (\<lambda>up.
     Inr \<lparr>ri_name = ''llama.cpp'', ri_available = up, ri_version = None, ri_endpoint = Some (ll_base s)\<rparr>)"

definition build_command :: "string \<Rightarrow> int \<Rightarrow> int \<Rightarrow> int option \<Rightarrow> string list \<Rightarrow> string list" where
  "build_command model port ctx layers extra =
     [''llama-server'', ''-m'', model, ''--port'', str_of_int port, ''-c'', str_of_int ctx] @
     (case layers of None \<Rightarrow> [] | Some n \<Rightarrow> [''--n-gpu-layers'', str_of_int n]) @ extra"

text \<open>\<^verbatim>\<open>_default_health_check\<close> and \<^verbatim>\<open>health\<close>: only a 200 is ready.\<close>

definition health_check :: "'w outside \<Rightarrow> string \<Rightarrow> ('w, bool) act" where
  "health_check E base w =
     (case network E base \<lparr>verb = ''GET'', path = ''/health'', call_headers = [], call_json = None\<rparr> w of
        (Inl (TransportError n), w') \<Rightarrow> (Inr False, w')
      | (Inl e, w') \<Rightarrow> (Inl e, w')
      | (Inr r, w') \<Rightarrow> (Inr (reply_status r = 200), w'))"

definition llama_health :: "'w outside \<Rightarrow> ('w llama, bool) act" where
  "llama_health E s = on_llama (health_check E (ll_base s)) s"

text \<open>The polls of \<^verbatim>\<open>serve\<close>: no pause after the last.\<close>

fun await_healthy :: "('w, bool) act \<Rightarrow> ('w \<Rightarrow> 'w) \<Rightarrow> nat \<Rightarrow> ('w, bool) act" where
  "await_healthy probe rest 0 = aret False"
| "await_healthy probe rest (Suc n) = abind probe (\<lambda>up.
     if up then aret True else (\<lambda>w. await_healthy probe rest n (if 0 < n then rest w else w)))"

definition llama_url :: "int \<Rightarrow> string" where
  "llama_url port = ''http://localhost:'' @ str_of_int port"

definition llama_serve ::
  "(string list \<Rightarrow> ('w, 'w child) act) \<Rightarrow> (string \<Rightarrow> ('w, bool) act) \<Rightarrow> ('w \<Rightarrow> 'w) \<Rightarrow> int \<Rightarrow>
   string \<Rightarrow> int \<Rightarrow> int \<Rightarrow> int option \<Rightarrow> string list \<Rightarrow> ('w llama, server_handle) act" where
  "llama_serve spawn probe rest retries model port ctx layers extra =
     abind (on_llama (spawn (build_command model port ctx layers extra))) (\<lambda>p.
     abind (on_llama (await_healthy (probe (llama_url port)) rest (nat retries))) (\<lambda>up.
       if \<not> up then abind (on_llama (terminate_child p)) (\<lambda>_. alift (Inl TimeoutError))
       else (\<lambda>s. (Inr \<lparr>sh_base_url = llama_url port, sh_runtime = ''llama.cpp'', sh_pid = ch_pid p\<rparr>,
                  s\<lparr>ll_process := Some p, ll_served := Some model, ll_base := llama_url port\<rparr>))))"

definition llama_models :: "'w llama \<Rightarrow> string list" where
  "llama_models s = (if falsy_text (ll_served s) then [] else [the (ll_served s)])"

definition llama_pull :: "string \<Rightarrow> unit res" where
  "llama_pull model = Inl NotImplementedError"

definition llama_stop :: "('w llama, unit) act" where
  "llama_stop s = (case ll_process s of None \<Rightarrow> (Inr (), s)
     | Some p \<Rightarrow> abind (on_llama (terminate_child p)) (\<lambda>_ t. (Inr (), t\<lparr>ll_process := None, ll_served := None\<rparr>)) s)"

subsection \<open>runtime-ollama\<close>

definition ollama_get :: "'w outside \<Rightarrow> string \<Rightarrow> string \<Rightarrow> 'w \<Rightarrow> json res \<times> 'w" where
  "ollama_get E base where_to w =
     (case network E base \<lparr>verb = ''GET'', path = where_to, call_headers = [], call_json = None\<rparr> w of
        (r, w') \<Rightarrow> (rbind r (\<lambda>h. rbind (raise_for_status (reply_status h)) (\<lambda>_.
          case reply_json h of None \<Rightarrow> Inl ValueError | Some v \<Rightarrow> Inr v)), w'))"

definition ollama_version :: "'w outside \<Rightarrow> string \<Rightarrow> ('w, string option) act" where
  "ollama_version E base w = (case ollama_get E base ''/api/version'' w of (r, w') \<Rightarrow>
     (case rbind r (\<lambda>v. attr_get v ''version'') of
        Inr x \<Rightarrow> Inr (if x = JNull then None else Some (py_str x))
      | Inl (TransportError n) \<Rightarrow> Inr None
      | Inl e \<Rightarrow> if e = ValueError then Inr None else Inl e, w'))"

definition ollama_detect :: "'w outside \<Rightarrow> which \<Rightarrow> string \<Rightarrow> ('w, runtime_info) act" where
  "ollama_detect E which base = abind (ollama_version E base) (\<lambda>version.
     aret \<lparr>ri_name = ''ollama'', ri_available = (which ''ollama'' \<noteq> None \<or> version \<noteq> None), ri_version = version,
           ri_endpoint = Some base\<rparr>)"

definition ollama_available :: "'w outside \<Rightarrow> which \<Rightarrow> string \<Rightarrow> ('w, bool) act" where
  "ollama_available E which base = abind (ollama_detect E which base) (\<lambda>i. aret (ri_available i))"

text \<open>The names in the tag list: iterating a dictionary or a text finds no dictionaries, a number or a truth value raises.\<close>

definition tag_name :: "json \<Rightarrow> string option" where
  "tag_name m = Option.bind (the_obj m) (\<lambda>d. map_option py_str (dict_get d ''name''))"

definition tag_names :: "json \<Rightarrow> string list res" where
  "tag_names v = rbind (attr_get v ''models'') (\<lambda>ms. case or_json ms (JArr []) of
     JArr xs \<Rightarrow> Inr (List.map_filter tag_name xs)
   | JObj d \<Rightarrow> Inr []
   | JStr s \<Rightarrow> Inr []
   | _ \<Rightarrow> Inl TypeError)"

definition ollama_models :: "'w outside \<Rightarrow> string \<Rightarrow> ('w, string list) act" where
  "ollama_models E base w = (case ollama_get E base ''/api/tags'' w of (r, w') \<Rightarrow>
     (case rbind r tag_names of
        Inr names \<Rightarrow> Inr names
      | Inl (TransportError n) \<Rightarrow> Inr []
      | Inl e \<Rightarrow> if e \<in> {ValueError, KeyError, TypeError} then Inr [] else Inl e, w'))"

definition ollama_pull :: "(string \<Rightarrow> http_call \<Rightarrow> streamed res) \<Rightarrow> string \<Rightarrow> string \<Rightarrow> unit res" where
  "ollama_pull open_stream base model =
     (case rbind (open_stream base \<lparr>verb = ''POST'', path = ''/api/pull'', call_headers = [],
          call_json = Some (JObj [(''name'', JStr model), (''stream'', JBool True)])\<rparr>) (\<lambda>r.
        rbind (raise_for_status (st_status r)) (\<lambda>_. rfold (\<lambda>got _. rbind got (\<lambda>_. Inr ())) (st_lines r) ())) of
        Inl (TransportError n) \<Rightarrow> Inr ()
      | other \<Rightarrow> other)"

definition ollama_serve :: "'w outside \<Rightarrow> string \<Rightarrow> ('w, server_handle) act" where
  "ollama_serve E base = abind (ollama_version E base) (\<lambda>version.
     if version = None then alift (Inl RuntimeError)
     else aret \<lparr>sh_base_url = base, sh_runtime = ''ollama'', sh_pid = None\<rparr>)"

text \<open>The adapters as \<^verbatim>\<open>default_adapters\<close> hands them to the detection of \<^verbatim>\<open>openai-proxy\<close>.\<close>

definition ollama_detectable :: "'w outside \<Rightarrow> which \<Rightarrow> string \<Rightarrow> 'w detectable" where
  "ollama_detectable E which base =
     \<lparr>da_name = ''ollama'', da_available = ollama_available E which base, da_models = ollama_models E base\<rparr>"

definition llama_detectable :: "(string \<Rightarrow> string option res) \<Rightarrow> 'w llama \<Rightarrow> 'w detectable" where
  "llama_detectable which s =
     \<lparr>da_name = ''llama.cpp'', da_available = (\<lambda>w. (llama_available which, w)), da_models = aret (llama_models s)\<rparr>"

text \<open>\<open>load\<close> imports the module, takes the class from it and calls it; any exception there leaves the adapter out.\<close>

definition default_runtimes :: "(string \<times> string) list" where
  "default_runtimes = [(''sip_runtime_ollama'', ''OllamaAdapter''), (''sip_runtime_llamacpp'', ''LlamaCppAdapter'')]"

definition default_adapters :: "(string \<Rightarrow> string \<Rightarrow> 'a res) \<Rightarrow> 'a list" where
  "default_adapters load = concat (map (\<lambda>(m, c). case load m c of Inl _ \<Rightarrow> [] | Inr a \<Rightarrow> [a]) default_runtimes)"

lemma only_installed_runtimes:
  "set (default_adapters load) = {a. \<exists>(m, c)\<in>set default_runtimes. load m c = Inr a}"
  by (auto simp: default_adapters_def default_runtimes_def split: sum.splits)

subsection \<open>No orphans\<close>

text \<open>
  What the operating system promises of a child: no call but \<^verbatim>\<open>wait\<close> raises anything other than an \<^verbatim>\<open>OSError\<close>,
  a \<^verbatim>\<open>wait\<close> that returns or finds nothing to wait for leaves no running process, and a \<^verbatim>\<open>wait\<close> after a \<^verbatim>\<open>kill\<close>
  does not time out. Nothing is promised of \<^verbatim>\<open>terminate\<close>.
\<close>

definition reapable :: "('w \<Rightarrow> bool) \<Rightarrow> 'w child \<Rightarrow> bool" where
  "reapable alive p \<longleftrightarrow> (\<exists>tm wait kill. ch_terminate p = Some tm \<and> ch_wait p = Some wait \<and> ch_kill p = Some kill \<and>
     (\<forall>w. fst (tm w) \<in> {Inr (), Inl OSError} \<and> fst (kill w) \<in> {Inr (), Inl OSError} \<and>
          fst (wait w) \<in> {Inr (), Inl ProcessError, Inl OSError} \<and>
          (fst (wait w) \<noteq> Inl ProcessError \<longrightarrow> \<not> alive (snd (wait w))) \<and>
          fst (wait (snd (kill w))) \<noteq> Inl ProcessError))"

lemma suppressed_ok:
  "f = Some g \<Longrightarrow> fst (g w) \<in> insert (Inr ()) (Inl ` es) \<Longrightarrow> suppressed es f w = (Inr (), snd (g w))"
  by (cases "g w") (auto simp: suppressed_def)

lemma terminate_reaps:
  assumes "reapable alive p"
  shows "fst (terminate_child p w) = Inr () \<and> \<not> alive (snd (terminate_child p w))"
proof -
  obtain tm wait kill where c: "ch_terminate p = Some tm" "ch_wait p = Some wait" "ch_kill p = Some kill"
    and t: "\<And>w. fst (tm w) \<in> {Inr (), Inl OSError}" and k: "\<And>w. fst (kill w) \<in> {Inr (), Inl OSError}"
    and w: "\<And>w. fst (wait w) \<in> {Inr (), Inl ProcessError, Inl OSError}"
    and gone: "\<And>w. fst (wait w) \<noteq> Inl ProcessError \<Longrightarrow> \<not> alive (snd (wait w))"
    and killed: "\<And>w. fst (wait (snd (kill w))) \<noteq> Inl ProcessError"
    using assms unfolding reapable_def by blast
  have esc: "fst (escalate p v) = Inr () \<and> \<not> alive (snd (escalate p v))" for v
  proof -
    have "escalate p v = (Inr (), snd (wait (snd (kill v))))"
      using suppressed_ok [OF c(3), of v "{OSError}"] k suppressed_ok [OF c(2), of "snd (kill v)" "{ProcessError, OSError}"] w
      by (simp add: escalate_def abind_def)
    then show ?thesis using gone [OF killed] by simp
  qed
  obtain r v where v: "wait (snd (tm w)) = (r, v)" by fastforce
  have "terminate_child p w = (case (r, v) of
         (Inr _, w') \<Rightarrow> (Inr (), w')
       | (Inl e, w') \<Rightarrow> if e = ProcessError then escalate p w' else if e = OSError then (Inr (), w') else (Inl e, w'))"
    using suppressed_ok [OF c(1), of w "{OSError}"] t by (simp add: terminate_child_def abind_def c(2) v)
  moreover have "r \<in> {Inr (), Inl ProcessError, Inl OSError}" using w [of "snd (tm w)"] by (simp add: v)
  moreover have "r \<noteq> Inl ProcessError \<Longrightarrow> \<not> alive v" using gone [of "snd (tm w)"] by (simp add: v)
  ultimately show ?thesis using esc by auto
qed

lemma await_healthy_total:
  assumes "\<And>w. \<exists>b w'. probe w = (Inr b, w')"
  shows "\<exists>b w'. await_healthy probe rest n w = (Inr b, w')"
proof (induction n arbitrary: w)
  case (Suc n)
  obtain b w' where "probe w = (Inr b, w')" using assms by blast
  then show ?case using Suc by (cases b) (auto simp: abind_def aret_def)
qed (simp add: aret_def, blast)

lemma stop_reaps:
  assumes "ll_process s = Some p" "reapable alive p"
  shows "fst (llama_stop s) = Inr () \<and> \<not> alive (ll_world (snd (llama_stop s))) \<and> ll_process (snd (llama_stop s)) = None"
  using terminate_reaps [OF assms(2), of "ll_world s"] assms(1)
  by (cases "terminate_child p (ll_world s)") (auto simp: llama_stop_def abind_def on_llama_def)

definition good_spawner :: "('w child \<Rightarrow> 'w \<Rightarrow> bool) \<Rightarrow> ('w, 'w child) act \<Rightarrow> bool" where
  "good_spawner alive spawn \<longleftrightarrow> (\<forall>w p w'. spawn w = (Inr p, w') \<longrightarrow> reapable (alive p) p) \<and> (\<forall>w. fst (spawn w) \<noteq> Inl TimeoutError)"

definition total_probe :: "('w, bool) act \<Rightarrow> bool" where
  "total_probe probe \<longleftrightarrow> (\<forall>w. \<exists>b w'. probe w = (Inr b, w'))"

lemma serve_outcome:
  assumes "llama_serve spawn probe rest retries model port ctx layers extra s = (r, t)"
    and "good_spawner alive (spawn (build_command model port ctx layers extra))" "total_probe (probe (llama_url port))"
  shows "(\<exists>e. r = Inl e \<and> e \<noteq> TimeoutError \<and> spawn (build_command model port ctx layers extra) (ll_world s) = (Inl e, ll_world t)) \<or>
    (\<exists>p w. spawn (build_command model port ctx layers extra) (ll_world s) = (Inr p, w) \<and> reapable (alive p) p \<and>
      (r = Inl TimeoutError \<and> \<not> alive p (ll_world t) \<and> t = s\<lparr>ll_world := ll_world t\<rparr> \<or>
       r = Inr \<lparr>sh_base_url = ll_base t, sh_runtime = ''llama.cpp'', sh_pid = ch_pid p\<rparr> \<and> ll_process t = Some p \<and>
         ll_served t = Some model \<and> ll_base t = llama_url port))"
proof -
  obtain q w where sp: "spawn (build_command model port ctx layers extra) (ll_world s) = (q, w)" by fastforce
  show ?thesis
  proof (cases q)
    case (Inl e)
    then have "r = Inl e" "t = s\<lparr>ll_world := w\<rparr>" "e \<noteq> TimeoutError"
      using assms(1,2) sp by (auto simp: llama_serve_def abind_def on_llama_def good_spawner_def dest!: spec [of _ "ll_world s"])
    then show ?thesis using sp Inl by auto
  next
    case (Inr p)
    have reap: "reapable (alive p) p" using assms(2) sp Inr by (auto simp: good_spawner_def)
    obtain up v where up: "await_healthy (probe (llama_url port)) rest (nat retries) w = (Inr up, v)"
      using await_healthy_total assms(3) unfolding total_probe_def by metis
    obtain x u where x: "terminate_child p v = (x, u)" by fastforce
    have gone: "x = Inr ()" "\<not> alive p u" using terminate_reaps [OF reap, of v] by (simp_all add: x)
    show ?thesis
      using assms(1) sp Inr reap up x gone
      by (cases up) (auto simp: llama_serve_def abind_def on_llama_def)
  qed
qed

subsection \<open>The proxy's stream\<close>

text \<open>An event as the lines of the stream, \<^verbatim>\<open>json.dumps\<close> being an argument.\<close>

definition event_lines :: "(json \<Rightarrow> string) \<Rightarrow> json option \<Rightarrow> string list" where
  "event_lines dumps e = [''data: '' @ (case e of None \<Rightarrow> ''[DONE]'' | Some v \<Rightarrow> dumps v), []]"

definition printed_back :: "(string \<Rightarrow> json option) \<Rightarrow> (json \<Rightarrow> string) \<Rightarrow> json option \<Rightarrow> bool" where
  "printed_back loads dumps e \<longleftrightarrow> (\<forall>v. e = Some v \<longrightarrow> loads (dumps v) = Some v \<and> py_strip (dumps v) \<noteq> ''[DONE]'')"

definition received :: "pyfloat list \<Rightarrow> string list \<Rightarrow> streamed" where
  "received ts ls = \<lparr>st_status = 200, st_lines = map Inr (zip ts ls)\<rparr>"

lemma read_blank: "read_line loads t0 (Inr (now, [])) st = Inr st"
  by (simp add: read_line_def)

lemma read_done: "read_line loads t0 (Inr (now, ''data: [DONE]'')) st = Inr st"
  by (simp add: read_line_def event_text_def startswith_def py_strip_def is_space_def)

lemma read_chunk:
  assumes "printed_back loads dumps (Some (chunk cid created model delta finish))"
  shows "read_line loads t0 (Inr (now, ''data: '' @ dumps (chunk cid created model delta finish))) st =
    Inr (take_piece (fsub now t0) (getn delta ''content'') st)"
proof -
  have "event_text (''data: '' @ x) = x" for x by (simp add: event_text_def startswith_def)
  then show ?thesis using assms
    by (simp add: read_line_def printed_back_def read_event_def Let_def chunk_def attr_get_def attr_get_or_def getn_def get_or_def
        or_json_def take_usage_def)
qed

lemma read_sse:
  assumes "list_all (printed_back loads dumps) (sse cid created model text)" "length ts = 8"
  shows "rfold (read_line loads t0) (map Inr (zip ts (concat (map (event_lines dumps) (sse cid created model text))))) fresh_stream =
    Inr (take_piece (fsub (ts ! 2) t0) (JStr text) fresh_stream)"
proof -
  obtain a b c d e f g h where ts: "ts = [a, b, c, d, e, f, g, h]"
    using assms(2) by (auto simp: numeral_eq_Suc length_Suc_conv)
  have p: "printed_back loads dumps (Some (chunk cid created model [(''role'', JStr ''assistant'')] JNull))"
    "printed_back loads dumps (Some (chunk cid created model [(''content'', JStr text)] JNull))"
    "printed_back loads dumps (Some (chunk cid created model [] (JStr ''stop'')))"
    using assms(1) by (simp_all add: sse_def)
  show ?thesis
    unfolding ts sse_def event_lines_def
    by (simp add: read_chunk [OF p(1), simplified] read_chunk [OF p(2), simplified] read_chunk [OF p(3), simplified] read_blank
        read_done [simplified] getn_def) (simp add: take_piece_def)
qed

lemma finish_one:
  "\<exists>s. finish_stream W (take_piece w (JStr text) fresh_stream) = Inr s \<and> ss_content s = text \<and>
     ss_output_tokens s = (if text = [] then 0 else 1)"
proof -
  have none: "\<exists>x. rbind (float_of_int 0) (\<lambda>x. fdiv x g) = Inr x"
    and one: "\<exists>x. rbind (float_of_int 1) (\<lambda>x. fdiv x g) = Inr x" if "flt (Fin 0) g" for g
    using that to_float_1 by (cases g; auto simp: float_of_int_def flt_def)+
  note defs = finish_stream_def Let_def take_piece_def fresh_stream_def join_parts_def
  show ?thesis
  proof (cases "text = []")
    case True
    then show ?thesis by (auto simp: defs dest!: none)
  next
    case False
    then show ?thesis by (auto simp: defs dest!: one)
  qed
qed

lemma proxied_stream:
  assumes "proxy_chat P E key n be rid fresh created header (r\<lparr>pr_stream := True\<rparr>) s = (Inr (Stream events), t)"
  obtains cid model said where "events = sse cid created model said"
  using assms by (auto simp: proxy_chat_def openai_error_def split: if_splits prod.splits sum.splits route_error.splits)

text \<open>C34. The streaming client and the proxy agree: from the lines that the proxy streams, whatever the clock says, the client
  assembles exactly the content of the plain reply to the same request, and counts one chunk, or none for an empty
  answer; it never raises.\<close>

theorem client_reads_proxy:
  assumes "proxy_chat P E key n be rid fresh created header (r\<lparr>pr_stream := True\<rparr>) s = (Inr (Stream events), t)"
    and "proxy_chat P E key n be rid fresh created header (r\<lparr>pr_stream := False\<rparr>) s = (Inr (Reply 200 v), t')"
    and "list_all (printed_back loads dumps) events" "length ts = 8"
    and "\<And>base call. op base call = Inr (received ts (concat (map (event_lines dumps) events)))"
  shows "\<exists>st. stream_chat loads op W base model messages k m temp = Inr st \<and>
    extract_content v = Some (ss_content st) \<and> ss_output_tokens st = (if ss_content st = [] then 0 else 1)"
proof -
  obtain cid name said where ev: "events = sse cid created name said" using proxied_stream [OF assms(1)] .
  have "concat (map delta_text events) = said"
    by (simp add: ev sse_def chunk_def delta_text_def getn_def attr_get_def)
  then have plain: "extract_content v = Some said" using stream_same_content [OF assms(1,2)] by simp
  have "rfold (read_line loads (at_start W)) (map Inr (zip ts (concat (map (event_lines dumps) events)))) fresh_stream =
      Inr (take_piece (fsub (ts ! 2) (at_start W)) (JStr said) fresh_stream)"
    using read_sse assms(3,4) unfolding ev by blast
  then show ?thesis using finish_one [of W "fsub (ts ! 2) (at_start W)" said] plain
    by (auto simp: stream_chat_def assms(5) received_def raise_for_status_def)
qed

text \<open>C38. No orphan: a llama-server that is spawned either comes up, and is then the process that \<^verbatim>\<open>stop\<close> ends, or \<^verbatim>\<open>serve\<close>
  raises the time-out with the process no longer running and the adapter as it was, even if it ignores SIGTERM.\<close>

theorem llama_no_orphan:
  assumes "llama_serve spawn probe rest retries model port ctx layers extra s = (r, t)"
    and "good_spawner alive (spawn (build_command model port ctx layers extra))" "total_probe (probe (llama_url port))"
    and "spawn (build_command model port ctx layers extra) (ll_world s) = (Inr p, w)"
  shows "r = Inl TimeoutError \<and> \<not> alive p (ll_world t) \<and> ll_process t = ll_process s \<and> ll_base t = ll_base s \<or>
    r = Inr \<lparr>sh_base_url = llama_url port, sh_runtime = ''llama.cpp'', sh_pid = ch_pid p\<rparr> \<and> llama_models t = (if model = [] then [] else [model]) \<and>
      fst (llama_stop t) = Inr () \<and> \<not> alive p (ll_world (snd (llama_stop t))) \<and> llama_models (snd (llama_stop t)) = []"
proof -
  have reap: "reapable (alive p) p" using assms(2,4) by (auto simp: good_spawner_def)
  consider "r = Inl TimeoutError" "\<not> alive p (ll_world t)" "t = s\<lparr>ll_world := ll_world t\<rparr>"
    | "r = Inr \<lparr>sh_base_url = ll_base t, sh_runtime = ''llama.cpp'', sh_pid = ch_pid p\<rparr>" "ll_process t = Some p"
      "ll_served t = Some model" "ll_base t = llama_url port"
    using serve_outcome [OF assms(1-3)] assms(4) by auto
  then show ?thesis
  proof cases
    case 1
    have "ll_process t = ll_process s" "ll_base t = ll_base s" by (subst 1(3), simp)+
    then show ?thesis using 1(1,2) by simp
  next
    case 2
    obtain x u where x: "terminate_child p (ll_world t) = (x, u)" by fastforce
    have "x = Inr ()" "\<not> alive p u" using terminate_reaps [OF reap, of "ll_world t"] by (simp_all add: x)
    then show ?thesis using 2 x by (simp add: llama_stop_def on_llama_def abind_def llama_models_def falsy_text_def)
  qed
qed

subsection \<open>Inputs\<close>

text \<open>A world that is the list of running processes: a child is its number, and one child ignores \<^verbatim>\<open>SIGTERM\<close>.\<close>

definition demo_wait :: "int \<Rightarrow> (int list, unit) act" where
  "demo_wait pid w = (if pid \<in> set w then (Inl ProcessError, w) else (Inr (), w))"

definition demo_child :: "bool \<Rightarrow> int \<Rightarrow> int list child" where
  "demo_child stubborn pid = \<lparr>ch_pid = Some pid,
     ch_terminate = Some (\<lambda>w. (Inr (), if stubborn then w else filter (\<lambda>q. q \<noteq> pid) w)),
     ch_wait = Some (demo_wait pid), ch_kill = Some (\<lambda>w. (Inr (), filter (\<lambda>q. q \<noteq> pid) w))\<rparr>"

definition demo_spawn :: "string list \<Rightarrow> (int list, int list child) act" where
  "demo_spawn argv w = (let pid = int (length w) + 1 in (Inr (demo_child True pid), pid # w))"

definition demo_alive :: "int list child \<Rightarrow> int list \<Rightarrow> bool" where
  "demo_alive p w = (case ch_pid p of None \<Rightarrow> False | Some pid \<Rightarrow> pid \<in> set w)"

definition demo_llama :: "int list llama" where
  "demo_llama = \<lparr>ll_base = ''http://localhost:8080'', ll_process = None, ll_served = None, ll_world = []\<rparr>"

lemma demo_reapable: "reapable (demo_alive (demo_child b pid)) (demo_child b pid)"
  by (simp add: reapable_def demo_child_def demo_alive_def demo_wait_def)

theorem llama_no_orphan_witness:
  "fst (llama_serve demo_spawn (\<lambda>base w. (Inr False, w)) id 2 ''m'' 80 4096 None [] demo_llama) = Inl TimeoutError \<and>
   \<not> demo_alive (demo_child True 1) (ll_world (snd (llama_serve demo_spawn (\<lambda>base w. (Inr False, w)) id 2 ''m'' 80 4096 None [] demo_llama)))"
proof -
  obtain r t where run: "llama_serve demo_spawn (\<lambda>base w. (Inr False, w)) id 2 ''m'' 80 4096 None [] demo_llama = (r, t)" by fastforce
  have gs: "good_spawner demo_alive (demo_spawn (build_command ''m'' 80 4096 None []))"
    using demo_reapable by (auto simp: good_spawner_def demo_spawn_def Let_def)
  have tp: "total_probe (\<lambda>w :: int list. (Inr False, w))" by (auto simp: total_probe_def)
  have sp: "demo_spawn (build_command ''m'' 80 4096 None []) (ll_world demo_llama) = (Inr (demo_child True 1), [1])"
    by (simp add: demo_spawn_def demo_llama_def)
  have "r = Inl TimeoutError"
    using run by (auto simp: llama_serve_def demo_spawn_def abind_def on_llama_def numeral_eq_Suc aret_def
      terminate_child_def suppressed_def demo_child_def demo_wait_def escalate_def demo_llama_def alift_def)
  then show ?thesis
    using llama_no_orphan [OF run gs tp sp] by (simp add: run)
qed

text \<open>A second \<^verbatim>\<open>serve\<close> forgets the first child: stopping the adapter leaves it running.\<close>

theorem second_serve_leaks_first:
  "let up = (\<lambda>base w. (Inr True, w));
       s1 = snd (llama_serve demo_spawn up id 2 ''a'' 80 4096 None [] demo_llama);
       s2 = snd (llama_serve demo_spawn up id 2 ''b'' 81 4096 None [] s1);
       s3 = snd (llama_stop s2)
   in ll_process s3 = None \<and> demo_alive (demo_child True 1) (ll_world s3)"
  by (simp add: Let_def llama_serve_def demo_spawn_def abind_def on_llama_def numeral_eq_Suc aret_def llama_stop_def
      terminate_child_def suppressed_def demo_child_def demo_wait_def escalate_def demo_llama_def demo_alive_def)

text \<open>A version endpoint that answers a list makes the detection raise.\<close>

theorem ollama_detect_raises:
  assumes "network E base \<lparr>verb = ''GET'', path = ''/api/version'', call_headers = [], call_json = None\<rparr> w =
      (Inr \<lparr>reply_status = 200, reply_json = Some (JArr xs)\<rparr>, w')"
  shows "ollama_detect E which base w = (Inl AttributeError, w')"
  by (simp add: ollama_detect_def ollama_version_def ollama_get_def assms raise_for_status_def attr_get_def abind_def)

text \<open>A printer of the three chunks of one stream, and the parser that reads them back.\<close>

definition demo_chunk :: "int \<Rightarrow> json" where
  "demo_chunk i = (if i = 0 then chunk ''chatcmpl-f'' 0 ''m'' [(''role'', JStr ''assistant'')] JNull
     else if i = 1 then chunk ''chatcmpl-f'' 0 ''m'' [(''content'', JStr ''hello'')] JNull
     else chunk ''chatcmpl-f'' 0 ''m'' [] (JStr ''stop''))"

definition demo_dumps :: "json \<Rightarrow> string" where
  "demo_dumps v = (if v = demo_chunk 0 then ''0'' else if v = demo_chunk 1 then ''1'' else ''2'')"

definition demo_loads :: "string \<Rightarrow> json option" where
  "demo_loads s = Some (demo_chunk (if s = ''0'' then 0 else if s = ''1'' then 1 else 2))"

theorem client_reads_proxy_witness:
  "\<exists>st. stream_chat demo_loads (\<lambda>base call. Inr (received (replicate 8 (Fin 1)) (concat (map (event_lines demo_dumps) (sse ''chatcmpl-f'' 0 ''m'' ''hello'')))))
     demo_watch ''u'' ''m'' [] None 1 (Fin 0) = Inr st \<and> ss_content st = ''hello''"
proof -
  have "demo_ask\<lparr>pr_stream := False\<rparr> = demo_ask" by (simp add: demo_ask_def)
  then have plain: "proxy_chat demo demo_outside None 512 demo_backend ''r'' ''f'' 0 None (demo_ask\<lparr>pr_stream := False\<rparr>) \<lparr>world = 3, purse = None\<rparr> =
     (Inr (Reply 200 (completion ''chatcmpl-f'' 0 ''m'' demo_result demo_receipt
        (JObj [(''prompt_tokens'', JInt 1), (''completion_tokens'', JInt 1), (''total_tokens'', JInt 2)]))), \<lparr>world = 5, purse = None\<rparr>)"
    using demo_asked(1) by simp
  have strip: "py_strip ''0'' \<noteq> ''[DONE]''" "py_strip ''1'' \<noteq> ''[DONE]''" "py_strip ''2'' \<noteq> ''[DONE]''"
    by (simp_all add: py_strip_def is_space_def)
  have again: "demo_loads (demo_dumps (demo_chunk i)) = Some (demo_chunk i) \<and> py_strip (demo_dumps (demo_chunk i)) \<noteq> ''[DONE]''" if "i \<in> {0, 1, 2}" for i
    using that strip by (auto simp: demo_loads_def demo_dumps_def)
  have "sse ''chatcmpl-f'' 0 ''m'' ''hello'' = [Some (demo_chunk 0), Some (demo_chunk 1), Some (demo_chunk 2), None]"
    by (simp add: sse_def demo_chunk_def)
  then have printed: "list_all (printed_back demo_loads demo_dumps) (sse ''chatcmpl-f'' 0 ''m'' ''hello'')"
    using again by (simp add: printed_back_def)
  show ?thesis
    using client_reads_proxy [OF demo_asked(2) plain printed, of "replicate 8 (Fin 1)", OF _ refl]
    by (simp add: completion_def extract_content_def getn_def demo_result_def) metis
qed

end
