(* ===== verification/Share.thy ===== *)
theory Share
  imports Runtimes Repr Charging
begin

text \<open>
  \<^verbatim>\<open>packages/sin-cli\<close>: \<^verbatim>\<open>share.py\<close> and the commands of \<^verbatim>\<open>cli.py\<close> that decide something (\<^verbatim>\<open>serve\<close>, \<^verbatim>\<open>install\<close>,
  \<^verbatim>\<open>share\<close>, \<^verbatim>\<open>benchmark\<close>); the endpoints of \<^verbatim>\<open>sin_node/api.py\<close>; \<^verbatim>\<open>packages/plugins\<close>; and
  \<^verbatim>\<open>packages/receipt-verifier\<close>. A command yields its exit code and what it prints or starts; the parsed arguments
  are a record. The disk is what reading a JSON file gives at each path, and the directory files, kept apart. The lemmas
  show that a shared node is advertised at the prices it charges, that re-announcing replaces exactly its own entry, that
  broken plugins change nothing, and that a receipt signed on the command line verifies there.
\<close>

subsection \<open>share.py\<close>

record share_config =
  sc_model :: string
  sc_runtime :: string
  sc_host :: string
  sc_port :: int
  sc_advertised :: "string option"
  sc_token :: "string option"
  sc_max_output :: int
  sc_max_chars :: int
  sc_rate :: "int option"
  sc_logging :: string
  sc_max_context :: int
  sc_unit :: string
  sc_input :: pyfloat
  sc_output :: pyfloat
  sc_require :: bool
  sc_issuers :: "string list"
  sc_spent_path :: "string option"
  sc_benchmark :: "dict option"

text \<open>The defaults of the fields.\<close>

definition share_defaults :: "string \<Rightarrow> share_config" where
  "share_defaults model =
     \<lparr>sc_model = model, sc_runtime = ''ollama'', sc_host = ''127.0.0.1'', sc_port = 8090, sc_advertised = None, sc_token = None,
      sc_max_output = 512, sc_max_chars = 100000, sc_rate = Some 60, sc_logging = ''no_prompt_logging'', sc_max_context = 4096,
      sc_unit = ''usdc'', sc_input = Fin 0, sc_output = Fin 0, sc_require = False, sc_issuers = [], sc_spent_path = None,
      sc_benchmark = None\<rparr>"

record share_result =
  sr_app :: "gateway_config \<times> gateway_state"
  sr_manifest :: dict
  sr_url :: string

definition public_url :: "share_config \<Rightarrow> string" where
  "public_url c = (if falsy_text (sc_advertised c) then ''http://'' @ sc_host c @ '':'' @ str_of_int (sc_port c)
     else the (sc_advertised c))"

definition share_draft :: "share_config \<Rightarrow> string \<Rightarrow> string \<Rightarrow> int \<Rightarrow> dict" where
  "share_draft c pubkey runtime_name now = build_provider_manifest
     ((manifest_defaults pubkey [sc_model c] [runtime_name] (sc_unit c) (utc_iso now))
       \<lparr>m_input_per_1m := sc_input c, m_output_per_1m := sc_output c, m_node_type := ''sovereign-node'',
        m_max_context := sc_max_context c, m_logging_policy := sc_logging c, m_benchmark := sc_benchmark c,
        m_manifest_uri := Some (public_url c)\<rparr>)"

definition build_share_manifest :: "platform \<Rightarrow> share_config \<Rightarrow> keypair \<Rightarrow> string \<Rightarrow> int \<Rightarrow> dict res" where
  "build_share_manifest P c kp runtime_name now =
     sign_provider_manifest P (share_draft c (public_key_str P kp) runtime_name now) kp"

definition share_gateway :: "share_config \<Rightarrow> keypair \<Rightarrow> adapter \<Rightarrow> gateway_config" where
  "share_gateway c kp adapter =
     \<lparr>gw_keypair = kp, gw_adapter = adapter, allowed_models = [sc_model c], token = sc_token c, max_output_tokens = sc_max_output c,
      max_input_chars = sc_max_chars c, rate_limit = sc_rate c, manifest_hash = default_manifest_hash, price_units = sc_unit c,
      input_per_1m = float_repr (sc_input c), output_per_1m = float_repr (sc_output c), gw_manifest = [],
      require_payment = sc_require c, pic_issuers = sc_issuers c, accept_schemes = [''pic'', ''x402'']\<rparr>"

text \<open>\<open>spent_file\<close> is what the spend log at a path already holds.\<close>

definition build_share :: "platform \<Rightarrow> (string \<Rightarrow> spent_set) \<Rightarrow> share_config \<Rightarrow> keypair \<Rightarrow> adapter \<Rightarrow> int \<Rightarrow> share_result res" where
  "build_share P spent_file c kp adapter now =
     rbind (build_share_manifest P c kp (adapter_name adapter) now) (\<lambda>m.
     rbind (create_app P (share_gateway c kp adapter) (Some m) (sc_logging c) now
        (if falsy_text (sc_spent_path c) then None else Some (spent_file (the (sc_spent_path c)))) None) (\<lambda>app.
       Inr \<lparr>sr_app = app, sr_manifest = m, sr_url = public_url c\<rparr>))"

definition announce_to_directory :: "(dict \<Rightarrow> string option \<Rightarrow> ('s, string) act) \<Rightarrow> share_result \<Rightarrow> ('s, string) act" where
  "announce_to_directory announce r = announce (sr_manifest r) (Some (sr_url r))"

definition reannounce ::
  "platform \<Rightarrow> (dict \<Rightarrow> string option \<Rightarrow> ('s, string) act) \<Rightarrow> share_config \<Rightarrow> keypair \<Rightarrow> string \<Rightarrow> int \<Rightarrow> ('s, string) act" where
  "reannounce P announce c kp runtime_name now =
     abind (alift (build_share_manifest P c kp runtime_name now)) (\<lambda>m. announce m (Some (public_url c)))"

subsection \<open>cli.py\<close>

record disk =
  disk_json :: "string \<Rightarrow> json res"
  disk_dirs :: "string \<Rightarrow> json_file"

datatype cli_output = Silent | Url string | Measured benchmark_result | Document dict | Announced string | Serving share_result

text \<open>\<^verbatim>\<open>_positive_int\<close>\<close>

definition cli_positive_int :: "string \<Rightarrow> int res" where
  "cli_positive_int s = rbind (int_of_str s) (\<lambda>n. if n < 1 then Inl ValueError else Inr n)"

definition load_keypair :: "(string \<Rightarrow> json res) \<Rightarrow> string \<Rightarrow> keypair res" where
  "load_keypair read_json file = rbind (read_json file) (\<lambda>v. case the_obj v of
     None \<Rightarrow> Inl ValueError
   | Some d \<Rightarrow> (case dict_get d ''private_key'' of None \<Rightarrow> Inl ValueError
       | Some k \<Rightarrow> (case the_str k of None \<Rightarrow> Inl AttributeError | Some s \<Rightarrow> from_private_str s)))"

text \<open>\<^verbatim>\<open>except Exception\<close>: whatever is raised ends the command with 1.\<close>

definition or_exit_1 :: "cli_output res \<Rightarrow> int \<times> cli_output" where
  "or_exit_1 r = (case r of Inl e \<Rightarrow> (1, Silent) | Inr out \<Rightarrow> (0, out))"

definition cmd_serve :: "server_handle res \<Rightarrow> int \<times> cli_output" where
  "cmd_serve started = or_exit_1 (rbind started (\<lambda>h. Inr (Url (sh_base_url h))))"

definition cmd_install :: "unit res \<Rightarrow> int \<times> cli_output" where
  "cmd_install pulled = or_exit_1 (rbind pulled (\<lambda>_. Inr Silent))"

record share_args =
  sa_config :: share_config
  sa_key_file :: "string option"
  sa_manifest_out :: "string option"
  sa_directory :: "string option"
  sa_no_serve :: bool

text \<open>The identity: the key file's, or a generated one. Only an \<^verbatim>\<open>OSError\<close> and a \<^verbatim>\<open>ValueError\<close> are caught.\<close>

definition share_key :: "disk \<Rightarrow> keypair \<Rightarrow> share_args \<Rightarrow> keypair option res" where
  "share_key D generated a =
     (if falsy_text (sa_key_file a) then Inr (Some generated)
      else case load_keypair (disk_json D) (the (sa_key_file a)) of
        Inr kp \<Rightarrow> Inr (Some kp)
      | Inl e \<Rightarrow> if e \<in> {OSError, ValueError} then Inr None else Inl e)"

definition write_manifest :: "string option \<Rightarrow> dict \<Rightarrow> disk \<Rightarrow> disk" where
  "write_manifest file m D = (if falsy_text file then D else D\<lparr>disk_json := (disk_json D)(the file := Inr (JObj m))\<rparr>)"

definition announce_on :: "platform \<Rightarrow> string \<Rightarrow> dict \<Rightarrow> string option \<Rightarrow> (disk, string) act" where
  "announce_on P file m url D = (case file_announce P m url (disk_dirs D file) of
     (r, jf) \<Rightarrow> (r, D\<lparr>disk_dirs := (disk_dirs D)(file := jf)\<rparr>))"

definition publish_share :: "platform \<Rightarrow> share_args \<Rightarrow> share_result \<Rightarrow> (disk, int \<times> cli_output) act" where
  "publish_share P a r D =
     abind (if falsy_text (sa_directory a) then aret [] else announce_to_directory (announce_on P (the (sa_directory a))) r)
       (\<lambda>_. aret (0, if sa_no_serve a then Silent else Serving r)) (write_manifest (sa_manifest_out a) (sr_manifest r) D)"

definition cmd_share ::
  "platform \<Rightarrow> (string \<Rightarrow> adapter res) \<Rightarrow> (string \<Rightarrow> spent_set) \<Rightarrow> keypair \<Rightarrow> share_args \<Rightarrow> int \<Rightarrow> (disk, int \<times> cli_output) act" where
  "cmd_share P adapters spent_file generated a now D =
     (case adapters (sc_runtime (sa_config a)) of Inl e \<Rightarrow> (Inr (1, Silent), D)
      | Inr adapter \<Rightarrow> abind (alift (share_key D generated a)) (\<lambda>key. case key of None \<Rightarrow> aret (1, Silent)
          | Some kp \<Rightarrow> abind (alift (build_share P spent_file (sa_config a) kp adapter now)) (publish_share P a)) D)"

record bench_args =
  ba_model :: string
  ba_runtime :: string
  ba_publish :: "string option"
  ba_announce :: "string option"
  ba_advertised :: "string option"

definition measured_metrics :: "benchmark_result \<Rightarrow> dict" where
  "measured_metrics r = [(''tokens_per_second'', JFloat (bm_tps r)), (''ttft_ms'', JFloat (ttft_ms r))]"

definition benchmark_announce :: "platform \<Rightarrow> bench_args \<Rightarrow> benchmark_result \<Rightarrow> int \<Rightarrow> disk \<Rightarrow> (int \<times> cli_output) \<times> disk" where
  "benchmark_announce P a r now D =
     (if falsy_text (ba_publish a) \<or> falsy_text (ba_advertised a) then ((1, Silent), D)
      else case abind (alift (load_keypair (disk_json D) (the (ba_publish a)))) (\<lambda>kp.
          reannounce P (announce_on P (the (ba_announce a)))
            ((share_defaults (ba_model a))\<lparr>sc_runtime := ba_runtime a, sc_advertised := ba_advertised a,
               sc_benchmark := Some (measured_metrics r)\<rparr>) kp (ba_runtime a) now) D of
        (ref, D') \<Rightarrow> (or_exit_1 (rbind ref (\<lambda>s. Inr (Announced s))), D'))"

definition cmd_benchmark ::
  "platform \<Rightarrow> benchmark_result res \<Rightarrow> hardware_profile res \<Rightarrow> bench_args \<Rightarrow> string \<Rightarrow> int \<Rightarrow> disk \<Rightarrow> (int \<times> cli_output) \<times> disk" where
  "cmd_benchmark P measured profile a now_iso now D =
     (case measured of Inl e \<Rightarrow> ((1, Silent), D)
      | Inr r \<Rightarrow>
          if \<not> falsy_text (ba_announce a) then benchmark_announce P a r now D
          else if falsy_text (ba_publish a) then ((0, Measured r), D)
          else (or_exit_1 (rbind (load_keypair (disk_json D) (the (ba_publish a))) (\<lambda>kp. rbind profile (\<lambda>p.
             rbind (to_provider_manifest P p [ba_model a] r [(''unit'', JStr ''test'')] [''direct''] kp ''sovereign-node''
               (if falsy_text (measured_at r) then now_iso else the (measured_at r)) ''no_prompt_logging'') (\<lambda>m. Inr (Document m))))), D))"

subsection \<open>api.py\<close>

text \<open>The endpoints over any scan, catalog and recommender; a request that the declared bounds refuse is answered 422.\<close>

datatype api_reply = Healthy string | Status string "string list" | Profile hardware_profile | Models "catalog_model list"
  | Recommendations "recommendation list" | Unprocessable

definition api_status :: "string \<Rightarrow> 'f factories \<Rightarrow> api_reply" where
  "api_status version reg = Status version (adapter_names reg)"

definition api_recommend ::
  "hardware_profile res \<Rightarrow> (hardware_profile \<Rightarrow> string \<Rightarrow> bool \<Rightarrow> int \<Rightarrow> recommendation list res) \<Rightarrow> string option \<Rightarrow> bool \<Rightarrow> int \<Rightarrow> api_reply res" where
  "api_recommend scanned recommender task commercial n =
     (case task of None \<Rightarrow> Inr Unprocessable
      | Some t \<Rightarrow> if n < 1 \<or> 50 < n then Inr Unprocessable
          else rbind scanned (\<lambda>p. rbind (recommender p t commercial n) (\<lambda>rs. Inr (Recommendations rs))))"

subsection \<open>plugins\<close>

record 'o plugin =
  pl_name :: string
  pl_group :: string
  pl_obj :: 'o

text \<open>An entry point is its name and what loading it gives.\<close>

definition discover_plugins :: "string \<Rightarrow> (string \<times> 'o res) list \<Rightarrow> 'o plugin list" where
  "discover_plugins grp eps = List.map_filter (\<lambda>(name, loaded). case loaded of
     Inl e \<Rightarrow> None | Inr x \<Rightarrow> Some \<lparr>pl_name = name, pl_group = grp, pl_obj = x\<rparr>) eps"

definition load_plugins :: "(string \<Rightarrow> 'o \<Rightarrow> 's \<Rightarrow> 's) \<Rightarrow> string \<Rightarrow> (string \<times> 'o res) list \<Rightarrow> 's \<Rightarrow> string list \<times> 's" where
  "load_plugins register grp eps s =
     (map pl_name (discover_plugins grp eps), fold (\<lambda>p. register (pl_name p) (pl_obj p)) (discover_plugins grp eps) s)"

definition load_runtime_adapters :: "(string \<times> 'f res) list \<Rightarrow> 'f factories \<Rightarrow> string list \<times> 'f factories" where
  "load_runtime_adapters eps reg = load_plugins register_adapter ''sip_ai.runtime_adapters'' eps reg"

definition load_compute_providers :: "(string \<times> 'f res) list \<Rightarrow> 'f factories \<Rightarrow> string list \<times> 'f factories" where
  "load_compute_providers eps reg = load_plugins register_provider ''sip_ai.compute_providers'' eps reg"

definition load_all ::
  "(string \<Rightarrow> (string \<times> 'f res) list) \<Rightarrow> 'f factories \<Rightarrow> 'f factories \<Rightarrow> (string list \<times> 'f factories) \<times> (string list \<times> 'f factories)" where
  "load_all entry_points adapters computes =
     (load_runtime_adapters (entry_points ''sip_ai.runtime_adapters'') adapters,
      load_compute_providers (entry_points ''sip_ai.compute_providers'') computes)"

subsection \<open>receipt-verifier\<close>

text \<open>\<^verbatim>\<open>raise SystemExit(message)\<close> is exit code 1.\<close>

datatype 'a cli_step = Go 'a | Abort int

definition resolve_private_key :: "(string \<Rightarrow> json res) \<Rightarrow> string \<Rightarrow> keypair cli_step res" where
  "resolve_private_key read_json arg =
     (if startswith arg ''ed25519:'' then rbind (from_private_str arg) (\<lambda>kp. Inr (Go kp))
      else rbind (read_json arg) (\<lambda>v. case the_obj v of None \<Rightarrow> Inr (Abort 1)
        | Some d \<Rightarrow> (case dict_get d ''private_key'' of None \<Rightarrow> Inr (Abort 1)
            | Some k \<Rightarrow> (case the_str k of None \<Rightarrow> Inl AttributeError
                | Some s \<Rightarrow> rbind (from_private_str s) (\<lambda>kp. Inr (Go kp))))))"

definition write_or_print :: "string option \<Rightarrow> dict \<Rightarrow> (disk, int \<times> cli_output) act" where
  "write_or_print out d D = (if falsy_text out then (Inr (0, Document d), D)
     else (Inr (0, Silent), D\<lparr>disk_json := (disk_json D)(the out := Inr (JObj d))\<rparr>))"

definition cmd_keygen :: "platform \<Rightarrow> keypair \<Rightarrow> string option \<Rightarrow> (disk, int \<times> cli_output) act" where
  "cmd_keygen P kp out =
     write_or_print out [(''public_key'', JStr (public_key_str P kp)), (''private_key'', JStr (private_key_str kp))]"

definition demo_receipt_args :: "platform \<Rightarrow> keypair \<Rightarrow> int \<Rightarrow> receipt_args" where
  "demo_receipt_args P kp now =
     \<lparr>r_request_id = ''demo-request-0001'', r_provider_pubkey = public_key_str P kp,
      r_model_manifest_hash = ''sha256:'' @ replicate 64 CHR ''0'', r_model_alias = ''qwen-coder-7b-instruct-gguf-q4_k_m'',
      r_runtime = ''llama.cpp'', r_input_tokens = 817, r_output_tokens = 242, r_price_units = ''pic'', r_price_amount = ''0.0042'',
      r_privacy_mode = ''direct'', r_started_at = now, r_completed_at = now,
      r_response_hash = hash_response_body P ''Here is a small parser...'', r_runtime_version = Some ''b3000'', r_request_hash = None\<rparr>"

definition cmd_demo :: "platform \<Rightarrow> keypair \<Rightarrow> int \<Rightarrow> (int \<times> cli_output) res" where
  "cmd_demo P kp now = rbind (sign_receipt P (build_receipt (demo_receipt_args P kp now)) kp) (\<lambda>d. Inr (0, Document d))"

text \<open>A receipt that is not an object has no \<^verbatim>\<open>items\<close> and no \<^verbatim>\<open>get\<close>.\<close>

definition load_object :: "disk \<Rightarrow> string \<Rightarrow> dict res" where
  "load_object D file = rbind (disk_json D file) (\<lambda>v. case the_obj v of None \<Rightarrow> Inl AttributeError | Some d \<Rightarrow> Inr d)"

definition cmd_sign :: "platform \<Rightarrow> string \<Rightarrow> string \<Rightarrow> string option \<Rightarrow> (disk, int \<times> cli_output) act" where
  "cmd_sign P receipt_file key out D =
     (case rbind (disk_json D receipt_file) (\<lambda>_. resolve_private_key (disk_json D) key) of
        Inl e \<Rightarrow> (Inl e, D)
      | Inr (Abort n) \<Rightarrow> (Inr (n, Silent), D)
      | Inr (Go kp) \<Rightarrow> abind (alift (rbind (load_object D receipt_file) (\<lambda>d. sign_receipt P d kp))) (write_or_print out) D)"

definition cmd_verify :: "platform \<Rightarrow> string \<Rightarrow> disk \<Rightarrow> (int \<times> string list) res" where
  "cmd_verify P receipt_file D = rbind (load_object D receipt_file) (\<lambda>d. rbind (verify_receipt P d) (\<lambda>v.
     Inr (if valid v then (0, []) else (1, map (\<lambda>err. ''  - '' @ err) (errors v)))))"

subsection \<open>The price charged is the price advertised\<close>

lemma signed_nonempty: "sign_document P d kp = Inr m \<Longrightarrow> m \<noteq> []"
  by (auto simp: sign_document_def Let_def rbind_eq_Inr)

lemma share_run:
  assumes "build_share P spent_file c kp adapter now = Inr r"
  shows "sign_document P (share_draft c (public_key_str P kp) (adapter_name adapter) now) kp = Inr (sr_manifest r)"
    and "fst (sr_app r) = (share_gateway c kp adapter)\<lparr>gw_manifest := sr_manifest r\<rparr>" and "sr_url r = public_url c"
proof -
  obtain m app where m: "build_share_manifest P c kp (adapter_name adapter) now = Inr m"
    and app: "create_app P (share_gateway c kp adapter) (Some m) (sc_logging c) now
        (if falsy_text (sc_spent_path c) then None else Some (spent_file (the (sc_spent_path c)))) None = Inr app"
    and r: "r = \<lparr>sr_app = app, sr_manifest = m, sr_url = public_url c\<rparr>"
    using assms by (auto simp: build_share_def rbind_eq_Inr)
  show s: "sign_document P (share_draft c (public_key_str P kp) (adapter_name adapter) now) kp = Inr (sr_manifest r)"
    using m by (simp add: build_share_manifest_def sign_provider_manifest_def r)
  show "fst (sr_app r) = (share_gateway c kp adapter)\<lparr>gw_manifest := sr_manifest r\<rparr>"
    using app signed_nonempty [OF s] by (auto simp: create_app_def r)
  show "sr_url r = public_url c" by (simp add: r)
qed

lemma share_fields:
  assumes "sign_document P (share_draft c key name now) kp = Inr m"
  shows "getn m ''pricing'' = JObj [(''unit'', JStr (sc_unit c)), (''input_per_1m'', JFloat (sc_input c)), (''output_per_1m'', JFloat (sc_output c))]"
    and "getn m ''models'' = jstrs [sc_model c]" and "getn m ''manifest_uri'' = JStr (public_url c)"
    and "getn m ''provider_pubkey'' = JStr key" and "getitem m ''provider_pubkey'' = Inr (JStr key)"
    and "getn m ''published_at'' = JStr (utc_iso now)" and "sc_benchmark c = Some b \<Longrightarrow> getn m ''benchmark'' = JObj b"
proof -
  have get: "k \<noteq> ''signature'' \<Longrightarrow> dict_get m k = dict_get (share_draft c key name now) k" for k
    by (rule sign_document_fields [OF assms])
  note defs = getn_def getitem_def get share_draft_def build_provider_manifest_def manifest_defaults_def optional_field_def dict_simps
  show "getn m ''pricing'' = JObj [(''unit'', JStr (sc_unit c)), (''input_per_1m'', JFloat (sc_input c)), (''output_per_1m'', JFloat (sc_output c))]"
    "getn m ''models'' = jstrs [sc_model c]" "getn m ''manifest_uri'' = JStr (public_url c)" "getn m ''provider_pubkey'' = JStr key"
    "getitem m ''provider_pubkey'' = Inr (JStr key)" "getn m ''published_at'' = JStr (utc_iso now)"
    by (simp_all add: defs split: option.split)
  show "sc_benchmark c = Some b \<Longrightarrow> getn m ''benchmark'' = JObj b"
    by (simp add: defs)
qed

text \<open>The price of a reply at the rates a manifest advertises.\<close>

definition advertised_rate :: "dict \<Rightarrow> string \<Rightarrow> pyfloat" where
  "advertised_rate m k = (case getn m ''pricing'' of JObj d \<Rightarrow> (case getn d k of JFloat f \<Rightarrow> f | _ \<Rightarrow> NaN) | _ \<Rightarrow> NaN)"

definition rate_for :: "int \<Rightarrow> pyfloat \<Rightarrow> pyfloat res" where
  "rate_for tokens rate = rbind (float_of_int tokens) (\<lambda>t. rbind (fdiv t (Fin 1000000)) (\<lambda>q. Inr (fmul q rate)))"

definition advertised_amount :: "dict \<Rightarrow> int \<Rightarrow> int \<Rightarrow> string res" where
  "advertised_amount m n_in n_out =
     rbind (rate_for n_in (advertised_rate m ''input_per_1m'')) (\<lambda>a.
     rbind (rate_for n_out (advertised_rate m ''output_per_1m'')) (\<lambda>b. Inr (format_amount (fadd a b))))"

definition double :: "pyfloat \<Rightarrow> bool" where
  "double f \<longleftrightarrow> (\<exists>x. f = Fin x \<and> to_float x = Fin x)"

lemma per_million_repr: "double f \<Longrightarrow> per_million n (float_repr f) = rate_for n f"
  using float_repr_read_back by (auto simp: per_million_def rate_for_def double_def rbind_def split: sum.splits)

lemma rates_of_share:
  assumes "getn m ''pricing'' = JObj [(''unit'', JStr u), (''input_per_1m'', JFloat a), (''output_per_1m'', JFloat b)]"
  shows "advertised_rate m ''input_per_1m'' = a" "advertised_rate m ''output_per_1m'' = b"
  unfolding advertised_rate_def assms by (simp_all add: getn_def)

text \<open>A shared node charges what it advertises: for any token counts the price its gateway computes, from rates printed as
  text and read back, is the one computed from the numbers of its signed manifest, which names its unit, model and address.\<close>

theorem shared_node_charges_advertised:
  assumes "build_share P spent_file c kp adapter now = Inr r" "double (sc_input c)" "double (sc_output c)"
  shows "price_amount (fst (sr_app r)) n_in n_out = advertised_amount (sr_manifest r) n_in n_out \<and>
    price_units (fst (sr_app r)) = sc_unit c \<and> allowed_models (fst (sr_app r)) = [sc_model c] \<and>
    gw_manifest (fst (sr_app r)) = sr_manifest r \<and> getn (sr_manifest r) ''models'' = jstrs [sc_model c] \<and>
    getn (sr_manifest r) ''manifest_uri'' = JStr (sr_url r)"
proof -
  note s = share_run [OF assms(1)]
  note f = share_fields [OF s(1)]
  show ?thesis
    by (simp add: price_amount_def advertised_amount_def s(2,3) share_gateway_def f(2,3) rates_of_share [OF f(1)] per_million_repr assms(2,3))
qed

subsection \<open>Announcing again\<close>

lemma announced_row:
  assumes "file_announce P m url file = (Inr key, file')" "distinct (map fst (load_raw file))"
  shows "dict_get (load_raw file') k = (if k = key then Some (sort_keys (JObj [(''manifest'', JObj m)])) else map_option sort_keys (dict_get (load_raw file) k))"
proof -
  let ?rows = "dict_set key (JObj [(''manifest'', JObj m)]) (load_raw file)"
  have file': "file' = write_raw ?rows" using assms(1) by (auto simp: file_announce_def split: sum.splits)
  have "distinct (map fst ?rows)" by (rule distinct_update [OF assms(2)])
  from load_write(1) [OF this] show ?thesis unfolding file' by (simp add: dict_simps)
qed

text \<open>Re-announcing replaces exactly the node's own entry: the directory file then holds, under its key, a verified
  manifest with the new benchmark and time, and every other provider's entry is as before, up to the order of its keys.\<close>

theorem reannounce_refreshes:
  assumes "reannounce P (file_announce P) c kp name now file = (Inr key, file')" "distinct (map fst (load_raw file))"
    and "sc_benchmark c = Some b"
  shows "key = public_key_str P kp \<and>
    (\<exists>m. dict_get (load_raw file') key = Some (sort_keys (JObj [(''manifest'', JObj m)])) \<and> getn m ''benchmark'' = JObj b \<and>
       getn m ''published_at'' = JStr (utc_iso now) \<and> verify_provider_manifest P m = Inr True) \<and>
    (\<forall>k. k \<noteq> key \<longrightarrow> dict_get (load_raw file') k = map_option sort_keys (dict_get (load_raw file) k))"
proof -
  obtain m where m: "sign_document P (share_draft c (public_key_str P kp) name now) kp = Inr m"
    and ann: "file_announce P m (Some (public_url c)) file = (Inr key, file')"
    using assms(1) by (auto simp: reannounce_def abind_alift build_share_manifest_def sign_provider_manifest_def split: sum.splits)
  note f = share_fields [OF m]
  have key: "key = public_key_str P kp"
    using ann by (auto simp: file_announce_def f(5) split: sum.splits) (auto simp: rbind_eq_Inr)
  have "verify_provider_manifest P m = Inr True" using file_dir.announce_guarded [OF ann] by blast
  then show ?thesis using announced_row [OF ann assms(2)] f(6) f(7) [OF assms(3)] key by auto
qed

subsection \<open>Plugins\<close>

definition loadable :: "string \<times> 'o res \<Rightarrow> bool" where
  "loadable ep = (case snd ep of Inl e \<Rightarrow> False | Inr x \<Rightarrow> True)"

lemma discover_simps [simp]:
  "discover_plugins grp [] = []"
  "discover_plugins grp ((n, Inl e) # eps) = discover_plugins grp eps"
  "discover_plugins grp ((n, Inr x) # eps) = \<lparr>pl_name = n, pl_group = grp, pl_obj = x\<rparr> # discover_plugins grp eps"
  by (simp_all add: discover_plugins_def map_filter_simps)

lemma discover_loadable:
  "discover_plugins grp (filter loadable eps) = discover_plugins grp eps \<and> map pl_name (discover_plugins grp eps) = map fst (filter loadable eps)"
proof (induction eps)
  case (Cons ep eps)
  obtain n r where "ep = (n, r)" by fastforce
  then show ?case using Cons by (cases r) (simp_all add: loadable_def)
qed simp

text \<open>The last factory that loads under a name.\<close>

fun last_loaded :: "string \<Rightarrow> (string \<times> 'o res) list \<Rightarrow> 'o option \<Rightarrow> 'o option" where
  "last_loaded name [] found = found"
| "last_loaded name ((n, r) # eps) found = last_loaded name eps (case r of Inl e \<Rightarrow> found | Inr x \<Rightarrow> if n = name then Some x else found)"

lemma registered_last:
  "dict_get (fold (\<lambda>p. register_adapter (pl_name p) (pl_obj p)) (discover_plugins grp eps) reg) name = last_loaded name eps (dict_get reg name)"
proof (induction eps arbitrary: reg)
  case (Cons ep eps)
  obtain n r where "ep = (n, r)" by fastforce
  then show ?case using Cons by (cases r) (simp_all add: register_adapter_def dict_simps)
qed simp

text \<open>A plugin that fails to import changes nothing: loading is as if it were not installed, the names reported are those
  that loaded, and a name then builds the last factory loaded under it, or what was registered before.\<close>

theorem broken_plugins_ignored:
  "load_runtime_adapters eps reg = load_runtime_adapters (filter loadable eps) reg \<and>
   fst (load_runtime_adapters eps reg) = map fst (filter loadable eps) \<and>
   get_adapter (snd (load_runtime_adapters eps reg)) name args =
     (case last_loaded name eps (dict_get reg name) of None \<Rightarrow> Inl KeyError | Some factory \<Rightarrow> factory args)"
  by (simp add: load_runtime_adapters_def load_plugins_def discover_loadable get_adapter_def registered_last)

subsection \<open>The command line\<close>

text \<open>C39. The command line closes the loop: after \<^verbatim>\<open>keygen -o\<close>, \<^verbatim>\<open>sign --key -o\<close> of a receipt for that key exits 0, and
  \<^verbatim>\<open>verify\<close> of the file it wrote exits 0 and reports no error.\<close>

theorem command_line_roundtrip:
  assumes "ed25519_laws P" "is_bytes (private_key kp)" "length (private_key kp) = 32"
    and "disk_json D rf = Inr (JObj d)" "json_ok (JObj d)" "getn d ''provider_pubkey'' = JStr (public_key_str P kp)"
    and "\<And>m. sign_receipt P d kp = Inr m \<Longrightarrow> schema_accepts P ''receipt'' m"
    and "kf \<noteq> []" "sf \<noteq> []" "kf \<noteq> rf" "\<not> startswith kf ''ed25519:''"
  shows "\<exists>D1 D2. cmd_keygen P kp (Some kf) D = (Inr (0, Silent), D1) \<and> cmd_sign P rf kf (Some sf) D1 = (Inr (0, Silent), D2) \<and>
    cmd_verify P sf D2 = Inr (0, [])"
proof -
  let ?key = "[(''public_key'', JStr (public_key_str P kp)), (''private_key'', JStr (private_key_str kp))]"
  define D1 where "D1 = D\<lparr>disk_json := (disk_json D)(kf := Inr (JObj ?key))\<rparr>"
  have gen: "cmd_keygen P kp (Some kf) D = (Inr (0, Silent), D1)"
    using assms(8) by (simp add: cmd_keygen_def write_or_print_def falsy_text_def D1_def)
  obtain m where m: "sign_receipt P d kp = Inr m"
    using sign_document_total [OF assms(5)] unfolding sign_receipt_def by blast
  have key: "resolve_private_key (disk_json D1) kf = Inr (Go kp)"
    using assms(11) private_key_roundtrip [OF assms(2,3)] by (simp add: resolve_private_key_def D1_def)
  have receipt: "disk_json D1 rf = Inr (JObj d)" using assms(4,10) by (simp add: D1_def)
  define D2 where "D2 = D1\<lparr>disk_json := (disk_json D1)(sf := Inr (JObj m))\<rparr>"
  have sign: "cmd_sign P rf kf (Some sf) D1 = (Inr (0, Silent), D2)"
    using assms(9) by (simp add: cmd_sign_def receipt key load_object_def m abind_alift write_or_print_def falsy_text_def D2_def)
  obtain v where "verify_receipt P m = Inr v" "valid v"
    using receipt.signed_is_valid [OF assms(1) m assms(6)] assms(7) [OF m] by blast
  then have "cmd_verify P sf D2 = Inr (0, [])" by (simp add: cmd_verify_def load_object_def D2_def)
  with gen sign show ?thesis by blast
qed

text \<open>A malformed key ends \<^verbatim>\<open>sin share\<close> with an exception, where \<^verbatim>\<open>sin benchmark\<close> exits with 1.\<close>

theorem malformed_key_escapes:
  assumes "disk_json D f = Inr (JObj [(''private_key'', JStr ''ed25519:not-a-valid-key'')])" "f \<noteq> []"
    and "sa_key_file a = Some f" "adapters (sc_runtime (sa_config a)) = Inr adapter"
    and "ba_publish b = Some f" "\<not> falsy_text (ba_announce b)"
  shows "cmd_share P adapters spent_file generated a now D = (Inl KeyEncodingError, D) \<and>
    cmd_benchmark P (Inr r) profile b now_iso now D = ((1, Silent), D)"
proof -
  have bad: "from_private_str ''ed25519:not-a-valid-key'' = Inl KeyEncodingError" by code_simp
  then show ?thesis
    using assms by (simp add: cmd_share_def share_key_def falsy_text_def load_keypair_def abind_alift cmd_benchmark_def
        benchmark_announce_def or_exit_1_def)
qed

subsection \<open>Inputs\<close>

lemma signed_has_signature: "sign_document P d kp = Inr m \<Longrightarrow> \<exists>sg. dict_get m ''signature'' = Some (JStr sg)"
  by (auto simp: sign_document_def Let_def rbind_eq_Inr dict_simps)

definition demo_share :: share_config where
  "demo_share = (share_defaults ''m'')\<lparr>sc_input := Fin 1, sc_output := Fin 3, sc_benchmark := Some [(''ttft_ms'', JFloat (Fin 9))]\<rparr>"

lemma demo_share_signs:
  obtains m where "sign_document demo (share_draft demo_share (public_key_str demo (demo_key 3)) name now) (demo_key 3) = Inr m"
proof -
  have "json_ok (JObj (share_draft demo_share (public_key_str demo (demo_key 3)) name now))"
    by (simp add: share_draft_def demo_share_def share_defaults_def build_provider_manifest_def manifest_defaults_def optional_field_def jstrs_def)
  then show ?thesis using sign_document_total that by blast
qed

theorem shared_node_charges_advertised_witness:
  "\<exists>r. build_share demo (\<lambda>f. {}) demo_share (demo_key 3) mock_adapter 0 = Inr r \<and>
     price_amount (fst (sr_app r)) 5 7 = advertised_amount (sr_manifest r) 5 7"
proof -
  obtain m where m: "sign_document demo (share_draft demo_share (public_key_str demo (demo_key 3)) (adapter_name mock_adapter) 0) (demo_key 3) = Inr m"
    by (rule demo_share_signs)
  obtain r where r: "build_share demo (\<lambda>f. {}) demo_share (demo_key 3) mock_adapter 0 = Inr r"
    using signed_nonempty [OF m] by (simp add: build_share_def build_share_manifest_def sign_provider_manifest_def m create_app_def)
  have "double (sc_input demo_share)" "double (sc_output demo_share)"
    by (simp_all add: double_def demo_share_def to_float_1 to_float_numeral)
  then show ?thesis using shared_node_charges_advertised [OF r] r by blast
qed

lemma demo_share_announced:
  obtains file' where "reannounce demo (file_announce demo) demo_share (demo_key 3) ''mock'' 0 None = (Inr (public_key_str demo (demo_key 3)), file')"
proof -
  obtain m where m: "sign_document demo (share_draft demo_share (public_key_str demo (demo_key 3)) ''mock'' 0) (demo_key 3) = Inr m"
    by (rule demo_share_signs)
  note f = share_fields [OF m]
  obtain sg where "dict_get m ''signature'' = Some (JStr sg)" using signed_has_signature [OF m] by blast
  moreover have "dict_get m ''provider_pubkey'' \<noteq> None" "dict_get m ''models'' \<noteq> None"
    using f(2,4) by (auto simp: getn_def jstrs_def split: option.splits)
  moreover have "validator demo = demo_validator" by (simp add: demo_def)
  ultimately have "schema_accepts demo ''provider_manifest'' m"
    by (simp add: schema_accepts_def demo_validator_def demo_members_def)
  moreover have "getn (share_draft demo_share (public_key_str demo (demo_key 3)) ''mock'' 0) ''provider_pubkey'' = JStr (public_key_str demo (demo_key 3))"
    by (simp add: share_draft_def build_provider_manifest_def manifest_defaults_def optional_field_def getn_def dict_simps demo_share_def share_defaults_def)
  then have "verify_document demo ''provider_pubkey'' m = Inr True" using sign_verify_document [OF demo_laws m] by simp
  ultimately have v: "verify_provider_manifest demo m = Inr True" by (simp add: verify_provider_manifest_def verify_checked_True)
  have "public_url demo_share \<noteq> []" by (simp add: public_url_def demo_share_def share_defaults_def falsy_text_def)
  then have "announceable demo m (Some (public_url demo_share)) = Inr (public_url demo_share)"
    by (simp add: announceable_def require_verified_def v signed_endpoint_def f(3))
  then show ?thesis
    by (intro that) (simp add: reannounce_def build_share_manifest_def sign_provider_manifest_def m abind_alift file_announce_def f(5))
qed

theorem reannounce_refreshes_witness:
  "\<exists>file' m. dict_get (load_raw file') (public_key_str demo (demo_key 3)) = Some (sort_keys (JObj [(''manifest'', JObj m)])) \<and>
     getn m ''benchmark'' = JObj [(''ttft_ms'', JFloat (Fin 9))]"
proof -
  obtain file' where ann: "reannounce demo (file_announce demo) demo_share (demo_key 3) ''mock'' 0 None = (Inr (public_key_str demo (demo_key 3)), file')"
    by (rule demo_share_announced)
  have "sc_benchmark demo_share = Some [(''ttft_ms'', JFloat (Fin 9))]" by (simp add: demo_share_def)
  then show ?thesis using reannounce_refreshes [OF ann] by (auto simp: load_raw_def)
qed

definition demo_cli_key :: keypair where
  "demo_cli_key = \<lparr>private_key = replicate 32 1\<rparr>"

theorem command_line_roundtrip_witness:
  "\<exists>D1 D2. cmd_sign demo ''r'' ''k'' (Some ''s'') D1 = (Inr (0, Silent), D2) \<and> cmd_verify demo ''s'' D2 = Inr (0, [])"
proof -
  let ?d = "build_receipt (demo_receipt_args demo demo_cli_key 0)"
  let ?D = "\<lparr>disk_json = (\<lambda>f. if f = ''r'' then Inr (JObj ?d) else Inl OSError), disk_dirs = (\<lambda>f. None)\<rparr>"
  have key: "getn ?d ''provider_pubkey'' = JStr (public_key_str demo demo_cli_key)"
    by (simp add: build_receipt_def demo_receipt_args_def optional_field_def getn_def dict_simps)
  have schema: "schema_accepts demo ''receipt'' m" if "sign_receipt demo ?d demo_cli_key = Inr m" for m
  proof -
    note s = that [unfolded sign_receipt_def]
    obtain sg where sg: "dict_get m ''signature'' = Some (JStr sg)" using signed_has_signature [OF s] by blast
    have get: "k \<noteq> ''signature'' \<Longrightarrow> dict_get m k = dict_get ?d k" for k by (rule sign_document_fields [OF s])
    have v: "validator demo = demo_validator" by (simp add: demo_def)
    show ?thesis
      by (simp add: schema_accepts_def v demo_validator_def demo_members_def sg get)
        (simp add: build_receipt_def demo_receipt_args_def optional_field_def dict_simps)
  qed
  have "\<exists>D1 D2. cmd_keygen demo demo_cli_key (Some ''k'') ?D = (Inr (0, Silent), D1) \<and>
      cmd_sign demo ''r'' ''k'' (Some ''s'') D1 = (Inr (0, Silent), D2) \<and> cmd_verify demo ''s'' D2 = Inr (0, [])"
    by (rule command_line_roundtrip [OF demo_laws _ _ _ build_receipt_ok key schema])
      (simp_all add: demo_cli_key_def is_bytes_def startswith_def list_all_iff)
  then show ?thesis by blast
qed

theorem malformed_key_escapes_witness:
  "\<exists>a D. cmd_share demo (\<lambda>name. Inr mock_adapter) (\<lambda>f. {}) (demo_key 3) a 0 D = (Inl KeyEncodingError, D)"
proof -
  let ?D = "\<lparr>disk_json = (\<lambda>f. Inr (JObj [(''private_key'', JStr ''ed25519:not-a-valid-key'')])), disk_dirs = (\<lambda>f. None)\<rparr>"
  let ?a = "\<lparr>sa_config = demo_share, sa_key_file = Some ''k'', sa_manifest_out = None, sa_directory = None, sa_no_serve = True\<rparr>"
  let ?b = "\<lparr>ba_model = ''m'', ba_runtime = ''mock'', ba_publish = Some ''k'', ba_announce = Some ''d'', ba_advertised = Some ''u''\<rparr>"
  have "cmd_share demo (\<lambda>name. Inr mock_adapter) (\<lambda>f. {}) (demo_key 3) ?a 0 ?D = (Inl KeyEncodingError, ?D)"
    using malformed_key_escapes [where D = ?D and f = "''k''" and a = ?a and adapters = "\<lambda>name. Inr mock_adapter" and adapter = mock_adapter and b = ?b
      and P = demo and spent_file = "\<lambda>f. {}" and generated = "demo_key 3" and now = 0]
    by (simp add: falsy_text_def)
  then show ?thesis by blast
qed

end
