(* ===== verification/Mesh.thy ===== *)
theory Mesh
  imports Share
begin

text \<open>
  Clients and gateways together: the client of \<^verbatim>\<open>sip_router\<close> on a network whose sites are gateways of
  \<^verbatim>\<open>sip_gateway\<close>, reached the way \<^verbatim>\<open>in_process_client\<close> of \<^verbatim>\<open>sip_router/transport.py\<close> reaches them: the request is
  handed to the application and its answer handed back, and an exception of a handler reaches the caller. JSON bodies and
  header values arrive as they were sent. The lemmas show that an honest site serves the client that pays it, at
  the price it quoted, and what both sides then hold.
\<close>

subsection \<open>The application behind an address\<close>

text \<open>Header names are compared without case.\<close>

definition app_request :: "http_call \<Rightarrow> request" where
  "app_request call = \<lparr>headers = map (\<lambda>(k, v). (py_lower k, v)) (call_headers call), body = call_json call\<rparr>"

definition app_reply :: "response \<Rightarrow> http_reply" where
  "app_reply r = \<lparr>reply_status = status_code r, reply_json = Some (reply r)\<rparr>"

text \<open>The routes of \<^verbatim>\<open>create_app\<close>; any other path is FastAPI's to answer, with \<open>elsewhere\<close>.\<close>

definition gateway_app ::
  "platform \<Rightarrow> gateway_config \<Rightarrow> moments \<Rightarrow> (spent_set \<Rightarrow> spent_set) \<Rightarrow> http_reply \<Rightarrow> http_call \<Rightarrow> (gateway_state, http_reply) act" where
  "gateway_app P g m others elsewhere call s =
     (if (verb call, path call) = (''GET'', ''/sip/v1/health'') then (Inr (app_reply (health P g)), s)
      else if (verb call, path call) = (''GET'', ''/sip/v1/provider-manifest'') then (Inr (app_reply (manifest_endpoint g)), s)
      else if (verb call, path call) = (''POST'', ''/sip/v1/quote'')
      then (rbind (quote_handler P g (app_request call) (at_check m)) (Inr \<circ> app_reply), s)
      else if (verb call, path call) = (''POST'', ''/v1/chat/completions'')
      then (case chat_completions P g (app_request call) m others s of (out, s') \<Rightarrow> (rbind out (Inr \<circ> app_reply), s'))
      else (Inr elsewhere, s))"

subsection \<open>A network of gateways\<close>

text \<open>
  What the sites are, what the clocks and the random source read at each moment, and what other processes on a site's
  spent set do meanwhile. A moment passes with every call and every draw.
\<close>

record internet =
  sites :: "string \<Rightarrow> gateway_config option"
  client_clock :: "int \<Rightarrow> int"
  site_clock :: "int \<Rightarrow> moments"
  draw :: "int \<Rightarrow> string"
  rivals :: "int \<Rightarrow> spent_set \<Rightarrow> spent_set"
  elsewhere :: http_reply

record mesh =
  at_site :: "string \<Rightarrow> gateway_state"
  moment :: int

definition later :: "mesh \<Rightarrow> mesh" where
  "later w = w\<lparr>moment := moment w + 1\<rparr>"

definition mesh_network :: "platform \<Rightarrow> internet \<Rightarrow> string \<Rightarrow> http_call \<Rightarrow> mesh \<Rightarrow> http_reply res \<times> mesh" where
  "mesh_network P I url call w = (case sites I url of
     None \<Rightarrow> (Inl (TransportError ''ConnectError''), later w)
   | Some g \<Rightarrow> (case gateway_app P g (site_clock I (moment w)) (rivals I (moment w)) (elsewhere I) call (at_site w url) of
       (r, s') \<Rightarrow> (r, later (w\<lparr>at_site := (at_site w)(url := s')\<rparr>))))"

definition mesh_outside :: "platform \<Rightarrow> internet \<Rightarrow> mesh outside" where
  "mesh_outside P I = \<lparr>network = mesh_network P I, clock = (\<lambda>w. client_clock I (moment w)),
     random_text = (\<lambda>w. (draw I (moment w), later w))\<rparr>"

lemma mesh_exchange:
  assumes "sites I url = Some g"
    and "gateway_app P g (site_clock I (moment (world s))) (rivals I (moment (world s))) (elsewhere I) call (at_site (world s) url) = (r, s')"
  shows "exchange (mesh_outside P I) url call s = (r, s\<lparr>world := later ((world s)\<lparr>at_site := (at_site (world s))(url := s')\<rparr>)\<rparr>)"
  using assms by (simp add: exchange_def mesh_outside_def mesh_network_def)

lemma mesh_exchange_quiet:
  assumes "sites I url = Some g"
    and "gateway_app P g (site_clock I (moment (world s))) (rivals I (moment (world s))) (elsewhere I) call (at_site (world s) url) =
      (r, at_site (world s) url)"
  shows "exchange (mesh_outside P I) url call s = (r, s\<lparr>world := later (world s)\<rparr>)"
  using mesh_exchange [OF assms] by simp

subsection \<open>What a site accepts\<close>

definition admits :: "gateway_config \<Rightarrow> string option \<Rightarrow> bool" where
  "admits g presented \<longleftrightarrow> token g = None \<or> token g = presented"

lemma bearer_admitted:
  assumes "admits g t"
  shows "auth_ok g (app_request \<lparr>verb = v, path = p, call_headers = bearer t, call_json = j\<rparr>)"
    and "auth_ok g (app_request \<lparr>verb = v, path = p, call_headers = (''X-SIP-Request-Id'', x) # (''X-SIP-Privacy-Mode'', y) # bearer t, call_json = j\<rparr>)"
proof -
  have low: "py_lower ''X-SIP-Request-Id'' = ''x-sip-request-id''" "py_lower ''X-SIP-Privacy-Mode'' = ''x-sip-privacy-mode''"
    "py_lower ''Authorization'' = ''authorization''" "py_lower ''Bearer'' = ''bearer''" by code_simp+
  have cut: "partition_char CHR '' '' (''Bearer '' @ u) = (''Bearer'', True, u)" for u
    using partition_char_found [of "CHR '' ''" "''Bearer''" u] by simp
  show "auth_ok g (app_request \<lparr>verb = v, path = p, call_headers = bearer t, call_json = j\<rparr>)"
    using assms low cut by (auto simp: auth_ok_def app_request_def header_or_def bearer_def admits_def split: option.splits)
  show "auth_ok g (app_request \<lparr>verb = v, path = p, call_headers = (''X-SIP-Request-Id'', x) # (''X-SIP-Privacy-Mode'', y) # bearer t, call_json = j\<rparr>)"
    using assms low cut by (auto simp: auth_ok_def app_request_def header_or_def bearer_def admits_def split: option.splits)
qed


text \<open>A request within the terms of a site.\<close>

definition takes_request :: "gateway_config \<Rightarrow> chat_options \<Rightarrow> bool" where
  "takes_request g c \<longleftrightarrow> admits g (c_token c) \<and> c_model c \<in> set (allowed_models g) \<and>
     valid_messages (JArr (c_messages c)) \<and> list_all json_ok (c_messages c) \<and> total_chars (c_messages c) \<le> max_input_chars g \<and>
     1 \<le> c_max_tokens c \<and> c_max_tokens c \<le> max_output_tokens g"

text \<open>Room in the rate limiter for so many more requests.\<close>

definition room :: "int \<Rightarrow> gateway_config \<Rightarrow> gateway_state \<Rightarrow> bool" where
  "room k g s \<longleftrightarrow> (case rate_limit g of None \<Rightarrow> True | Some limit \<Rightarrow> int (length (hits s)) + k \<le> limit)"

lemma room_passes:
  assumes "room k g s" "1 \<le> k"
  shows "\<exists>hs. rate_limited g t s = (False, s\<lparr>hits := hs\<rparr>) \<and> room (k - 1) g (s\<lparr>hits := hs\<rparr>)"
proof (cases "rate_limit g")
  case None
  then show ?thesis by (intro exI [of _ "hits s"]) (simp add: room_def rate_limited_def)
next
  case (Some limit)
  let ?live = "dropWhile (\<lambda>h. fle h (fsub t (Fin 60))) (hits s)"
  have "length ?live \<le> length (hits s)" by (rule length_dropWhile_le)
  then show ?thesis using assms Some by (auto simp: room_def rate_limited_def limiter_allow_def Let_def)
qed

lemma health_answered:
  assumes "sites I url = Some g"
  shows "health_ok (mesh_outside P I) url s = (Inr True, s\<lparr>world := later (world s)\<rparr>)"
proof -
  let ?call = "\<lparr>verb = ''GET'', path = ''/sip/v1/health'', call_headers = [], call_json = None\<rparr>"
  have "exchange (mesh_outside P I) url ?call s = (Inr (app_reply (health P g)), s\<lparr>world := later (world s)\<rparr>)"
    by (rule mesh_exchange_quiet [OF assms]) (simp add: gateway_app_def)
  then show ?thesis
    by (simp add: health_ok_def abind_def aret_def app_reply_def health_def safe_json_def getn_def)
qed

subsection \<open>The quote\<close>

definition quote_of :: "platform \<Rightarrow> gateway_config \<Rightarrow> chat_options \<Rightarrow> string \<Rightarrow> int \<Rightarrow> dict" where
  "quote_of P g c max_price now = build_quote
     \<lparr>q_request_id = c_request_id c, q_provider_pubkey = public_key_str P (gw_keypair g), q_model_alias = c_model c,
      q_price_units = price_units g, q_input_per_1m = input_per_1m g, q_output_per_1m = output_per_1m g,
      q_max_output_tokens = c_max_tokens c, q_max_price = max_price, q_issued_at = now, q_expires_at = now + 300 * second,
      q_privacy_mode = Some (c_privacy_mode c)\<rparr>"

lemma quote_of_fields:
  "getn (quote_of P g c mp now) ''provider_pubkey'' = JStr (public_key_str P (gw_keypair g))"
  "getn (quote_of P g c mp now) ''price_units'' = JStr (price_units g)"
  "getn (quote_of P g c mp now) ''max_price'' = JStr mp"
  "getn (quote_of P g c mp now) ''expires_at'' = JStr (utc_iso (now + 300 * second))"
  "json_ok (JObj (quote_of P g c mp now))"
  by (simp_all add: quote_of_def build_quote_def optional_field_def getn_def)

lemma quote_fetched:
  assumes "sites I url = Some g" "takes_request g c" "ed25519_laws P"
    and "price_amount g (max_input_chars g) (c_max_tokens c) = Inr mp"
    and t: "t = at_check (site_clock I (moment (world s)))" "valid_instant (t + 300 * second)"
    and "\<And>q. sign_quote P (quote_of P g c mp t) (gw_keypair g) = Inr q \<Longrightarrow> schema_accepts P ''quote'' q"
  shows "\<exists>q v. sign_quote P (quote_of P g c mp t) (gw_keypair g) = Inr q \<and> verify_quote P q = Inr v \<and> valid v \<and>
    fetch_quote P (mesh_outside P I) c url s = (Inr (Some q), s\<lparr>world := later (world s)\<rparr>)"
proof -
  obtain q where q: "sign_quote P (quote_of P g c mp t) (gw_keypair g) = Inr q"
    using sign_document_total [OF quote_of_fields(5)] by (metis sign_quote_def)
  obtain v where v: "verify_quote P q = Inr v" "valid v"
    using quote.signed_is_valid [OF assms(3) q quote_of_fields(1) assms(7) [OF q]] by blast
  let ?call = "\<lparr>verb = ''POST'', path = ''/sip/v1/quote'', call_headers = bearer (c_token c),
      call_json = Some (JObj [(''request_id'', JStr (c_request_id c)), (''model'', JStr (c_model c)),
          (''max_output_tokens'', JInt (c_max_tokens c)), (''privacy_mode'', JStr (c_privacy_mode c))])\<rparr>"
  have "instant_plus t (300 * second) = Inr (t + 300 * second)" using t(2) by (simp add: instant_plus_def)
  moreover have "auth_ok g (app_request ?call)"
    using assms(2) by (intro bearer_admitted) (simp add: takes_request_def)
  moreover have "body (app_request ?call) = call_json ?call" by (simp add: app_request_def)
  ultimately have "quote_handler P g (app_request ?call) t = Inr \<lparr>status_code = 200, reply = JObj q\<rparr>"
    using assms(2,4) q by (simp add: quote_handler_def takes_request_def getn_def quote_of_def)
  then have "exchange (mesh_outside P I) url ?call s =
      (Inr (app_reply \<lparr>status_code = 200, reply = JObj q\<rparr>), s\<lparr>world := later (world s)\<rparr>)"
    by (intro mesh_exchange_quiet [OF assms(1)]) (simp add: gateway_app_def t(1))
  then have "fetch_quote P (mesh_outside P I) c url s = (Inr (Some q), s\<lparr>world := later (world s)\<rparr>)"
    using v by (simp add: fetch_quote_def abind_def aret_def alift_def app_reply_def safe_json_def)
  with q v show ?thesis by blast
qed


subsection \<open>The challenge\<close>

text \<open>The completion request of the client.\<close>

definition chat_call :: "chat_options \<Rightarrow> dict option \<Rightarrow> http_call" where
  "chat_call c payment = \<lparr>verb = ''POST'', path = ''/v1/chat/completions'', call_headers = completion_headers c,
     call_json = Some (JObj ([(''model'', JStr (c_model c)), (''messages'', JArr (c_messages c)), (''max_tokens'', JInt (c_max_tokens c))] @
       (case payment of None \<Rightarrow> [] | Some p \<Rightarrow> [(''sip_payment'', JObj p)])))\<rparr>"

lemma post_completion_call: "post_completion E c url payment = exchange E url (chat_call c payment)"
  by (simp add: post_completion_def chat_call_def)

lemma chat_call_headers:
  "header_or (app_request (chat_call c payment)) ''x-sip-request-id'' fb = c_request_id c"
  "header_or (app_request (chat_call c payment)) ''x-sip-privacy-mode'' fb = c_privacy_mode c"
proof -
  have low: "py_lower ''X-SIP-Request-Id'' = ''x-sip-request-id''" "py_lower ''X-SIP-Privacy-Mode'' = ''x-sip-privacy-mode''" by code_simp+
  then show "header_or (app_request (chat_call c payment)) ''x-sip-request-id'' fb = c_request_id c"
    "header_or (app_request (chat_call c payment)) ''x-sip-privacy-mode'' fb = c_privacy_mode c"
    by (simp_all add: header_or_def app_request_def chat_call_def completion_headers_def)
qed

lemma chat_call_accepted:
  assumes "takes_request g c"
  shows "\<exists>d. chat_request g (app_request (chat_call c payment)) = Inr (d, c_model c, c_messages c, c_max_tokens c) \<and>
    sip_payment d = (case payment of None \<Rightarrow> [] | Some p \<Rightarrow> p)"
proof -
  define d where "d = [(''model'', JStr (c_model c)), (''messages'', JArr (c_messages c)), (''max_tokens'', JInt (c_max_tokens c))] @
       (case payment of None \<Rightarrow> [] | Some p \<Rightarrow> [(''sip_payment'', JObj p)])"
  have f: "getn d ''model'' = JStr (c_model c)" "getn d ''messages'' = JArr (c_messages c)"
    "get_or d ''max_tokens'' (JInt 256) = JInt (c_max_tokens c)" "sip_payment d = (case payment of None \<Rightarrow> [] | Some p \<Rightarrow> p)"
    by (simp_all add: d_def getn_def get_or_def sip_payment_def split: option.splits)
  have "auth_ok g (app_request (chat_call c payment))"
    unfolding chat_call_def completion_headers_def using assms by (simp add: takes_request_def bearer_admitted)
  moreover have "body (app_request (chat_call c payment)) = Some (JObj d)" by (simp add: app_request_def chat_call_def d_def)
  ultimately show ?thesis using assms f by (intro exI [of _ d]) (simp add: chat_request_def takes_request_def)
qed

lemma unpaid_refused: "gateway_redeem P g [] price now commit rid S = Inr (rejected (py_str JNull) ''unsupported_scheme'', S)"
  by (simp add: gateway_redeem_def redeem_payment_def getn_def Let_def)

lemma unpaid_challenged:
  assumes "sites I url = Some g" "takes_request g c" "require_payment g" "room k g (at_site (world s) url)" "1 \<le> k"
    and "price_amount g (billed_input (c_messages c)) (c_max_tokens c) = Inr price"
  shows "\<exists>hs. room (k - 1) g ((at_site (world s) url)\<lparr>hits := hs\<rparr>) \<and>
    post_completion (mesh_outside P I) c url None s = (Inr (app_reply (payment_required_response g price)),
      s\<lparr>world := later ((world s)\<lparr>at_site := (at_site (world s))(url := (at_site (world s) url)\<lparr>hits := hs\<rparr>)\<rparr>)\<rparr>)"
proof -
  let ?r = "app_request (chat_call c None)" and ?m = "site_clock I (moment (world s))" and ?s = "at_site (world s) url"
  obtain d where d: "chat_request g ?r = Inr (d, c_model c, c_messages c, c_max_tokens c)" "sip_payment d = []"
    using chat_call_accepted [OF assms(2), of None] by auto
  obtain hs where hs: "rate_limited g (at_clock ?m) ?s = (False, ?s\<lparr>hits := hs\<rparr>)" "room (k - 1) g (?s\<lparr>hits := hs\<rparr>)"
    using room_passes [OF assms(4,5)] by blast
  have "chat_completions P g ?r ?m (rivals I (moment (world s))) ?s = (Inr (payment_required_response g price), ?s\<lparr>hits := hs\<rparr>)"
    using d hs assms(3,6) by (simp add: chat_completions_def chat_serve_def check_payment_def unpaid_refused rejected_def)
  then have "gateway_app P g ?m (rivals I (moment (world s))) (elsewhere I) (chat_call c None) ?s =
      (Inr (app_reply (payment_required_response g price)), ?s\<lparr>hits := hs\<rparr>)"
    by (simp add: gateway_app_def chat_call_def)
  from mesh_exchange [OF assms(1) this] hs(2) show ?thesis by (auto simp: post_completion_call)
qed

text \<open>The payer's answer: an x402 payment over the price of the challenge, with the nonce drawn.\<close>

lemma x402_fresh: "fresh \<noteq> [] \<Longrightarrow> build_x402_payment P kp amount unit t fresh None pk rid = build_x402_payment P kp amount unit t fresh (Some fresh) pk rid"
  by (simp add: build_x402_payment_def x402_inner_def)

lemma x402_built:
  "\<exists>payment. build_x402_payment P kp amount unit t fresh (Some nonce) (Some pk) (Some rid) = Inr payment"
proof -
  have "json_ok (JObj (x402_inner P kp amount unit t fresh (Some nonce) (Some pk) (Some rid)))"
    by (simp add: x402_inner_def optional_field_def)
  from sign_document_total [OF this, of P kp] show ?thesis by (auto simp: build_x402_payment_def)
qed

lemma challenge_paid:
  assumes "x402_keypair c = Some kp" "''x402'' \<in> set (accept_schemes g)" "purse s = None \<or> ''pic'' \<notin> set (accept_schemes g)"
    and "getn (manifest e) ''provider_pubkey'' = JStr (public_key_str P (gw_keypair g))"
    and "fresh = draw I (moment (world s))" "fresh \<noteq> []"
    and "build_x402_payment P kp price (price_units g) (client_clock I (moment (world s))) fresh (Some fresh)
      (Some (public_key_str P (gw_keypair g))) (Some (c_request_id c)) = Inr payment"
  shows "prepare_payment P (mesh_outside P I) c e (app_reply (payment_required_response g price)) s =
    (Inr (Pay payment None), s\<lparr>world := later (world s)\<rparr>)"
proof -
  let ?challenge = "payment_required price (price_units g) (pic_issuers g) (accept_schemes g)"
  have f: "getn ?challenge ''price_amount'' = JStr price" "getn ?challenge ''price_units'' = JStr (price_units g)"
    "getn ?challenge ''accepted_schemes'' = jstrs (accept_schemes g)"
    by (simp_all add: payment_required_def getn_def)
  have "client_x402 P kp price (price_units g) (client_clock I (moment (world s))) fresh (JStr (public_key_str P (gw_keypair g))) (c_request_id c) = Inr payment"
    using assms(6,7) by (simp add: client_x402_def x402_fresh)
  then have "sign_x402 P (mesh_outside P I) c e kp price (price_units g) s = (Inr (Pay payment None), s\<lparr>world := later (world s)\<rparr>)"
    using assms(4,5) by (simp add: sign_x402_def mesh_outside_def)
  moreover have "JStr x \<in> set (map JStr xs) \<longleftrightarrow> x \<in> set xs" for x xs by auto
  moreover have "the_obj (safe_json (app_reply (payment_required_response g price))) =
      Some [(''error'', JStr ''payment required''), (''sip_payment_required'', JObj ?challenge)]"
    by (simp add: app_reply_def payment_required_response_def safe_json_def)
  ultimately show ?thesis using assms(1-3) f
    by (auto simp: prepare_payment_def getn_def [of "[_, _]"] jstrs_def Let_def split: option.split)
qed


subsection \<open>The paid request\<close>

text \<open>What a site holds after it served a paid request.\<close>

definition charged_state ::
  "platform \<Rightarrow> gateway_config \<Rightarrow> string \<Rightarrow> dict \<Rightarrow> (spent_set \<Rightarrow> spent_set) \<Rightarrow> gateway_state \<Rightarrow> gateway_state" where
  "charged_state P g price payment others s = s\<lparr>spent_keys := others (spent_keys s) \<union> spend_keys payment,
     gw_ledger := map_option (ledger_record (public_key_str P (gw_keypair g)) price (price_units g) (payment_refs payment)) (gw_ledger s)\<rparr>"

text \<open>A payment that passes both checks of a site, whatever others redeem in between, and is then marked.\<close>

definition honoured :: "platform \<Rightarrow> gateway_config \<Rightarrow> string \<Rightarrow> string \<Rightarrow> moments \<Rightarrow> (spent_set \<Rightarrow> spent_set) \<Rightarrow> spent_set \<Rightarrow> dict \<Rightarrow> bool" where
  "honoured P g price rid m others S payment \<longleftrightarrow>
     (\<exists>r. gateway_redeem P g payment price (at_check m) False rid S = Inr (r, S) \<and> ok r) \<and>
     (\<exists>r. gateway_redeem P g payment price (at_commit m) True rid (others S) = Inr (r, others S \<union> spend_keys payment) \<and> ok r)"

lemma paid_served:
  assumes "sites I url = Some g" "takes_request g c" "require_payment g" "room k g (at_site (world s) url)" "1 \<le> k"
    and "price_amount g (billed_input (c_messages c)) (c_max_tokens c) = Inr price"
    and "m = site_clock I (moment (world s))" "others = rivals I (moment (world s))"
    and "honoured P g price (c_request_id c) m others (spent_keys (at_site (world s) url)) payment"
    and "adapter_chat (gw_adapter g) (c_model c) (c_messages c) (c_max_tokens c) = Inr result"
  shows "\<exists>hs receipt. chat_receipt P g (c_request_id c) (c_privacy_mode c) (c_model c) (c_messages c) result (Some price) m = Inr receipt \<and>
    paid_retry (mesh_outside P I) c url payment reserved s = (Inr (app_reply (chat_reply (c_request_id c) (c_model c) result receipt)),
      s\<lparr>world := later ((world s)\<lparr>at_site := (at_site (world s))
        (url := charged_state P g price payment others ((at_site (world s) url)\<lparr>hits := hs\<rparr>))\<rparr>)\<rparr>)"
proof -
  let ?r = "app_request (chat_call c (Some payment))" and ?s = "at_site (world s) url"
  obtain d where d: "chat_request g ?r = Inr (d, c_model c, c_messages c, c_max_tokens c)" "sip_payment d = payment"
    using chat_call_accepted [OF assms(2), of "Some payment"] by auto
  obtain hs where hs: "rate_limited g (at_clock m) ?s = (False, ?s\<lparr>hits := hs\<rparr>)"
    using room_passes [OF assms(4,5)] by blast
  obtain receipt where rc: "chat_receipt P g (c_request_id c) (c_privacy_mode c) (c_model c) (c_messages c) result (Some price) m = Inr receipt"
    using chat_receipt_total [where required = "Some price"] assms(2) by (metis option.distinct(1) takes_request_def)
  obtain r1 r2 where r: "gateway_redeem P g payment price (at_check m) False (c_request_id c) (spent_keys ?s) = Inr (r1, spent_keys ?s)" "ok r1"
    "gateway_redeem P g payment price (at_commit m) True (c_request_id c) (others (spent_keys ?s)) =
       Inr (r2, others (spent_keys ?s) \<union> spend_keys payment)" "ok r2"
    using assms(9) by (auto simp: honoured_def)
  have chk: "check_payment P g payment (c_messages c) (c_max_tokens c) (at_check m) (c_request_id c) (spent_keys ?s) = Inr (Inr (Some price))"
    using assms(3,6) r by (simp add: check_payment_def)
  have com: "commit_payment P g payment (Some price) (at_commit m) (c_request_id c) (?s\<lparr>hits := hs, spent_keys := others (spent_keys ?s)\<rparr>) =
      (Inr None, charged_state P g price payment others (?s\<lparr>hits := hs\<rparr>))"
    using r by (simp add: commit_payment_def charged_state_def Let_def)
  have "chat_completions P g ?r m others ?s = (Inr (chat_reply (c_request_id c) (c_model c) result receipt),
      charged_state P g price payment others (?s\<lparr>hits := hs\<rparr>))"
    using d hs chk com rc assms(10)
    by (simp add: chat_completions_def chat_serve_def chat_finish_def chat_call_headers Let_def)
  then have "gateway_app P g m others (elsewhere I) (chat_call c (Some payment)) ?s =
      (Inr (app_reply (chat_reply (c_request_id c) (c_model c) result receipt)), charged_state P g price payment others (?s\<lparr>hits := hs\<rparr>))"
    by (simp add: gateway_app_def chat_call_def)
  from mesh_exchange [OF assms(1) this [unfolded assms(7,8)]] rc show ?thesis
    by (auto simp: paid_retry_def post_completion_call assms(7,8))
qed

lemma reply_read:
  "extract_content (safe_json (app_reply (chat_reply rid model result receipt))) = Some (content result)"
  "reply_status (app_reply (chat_reply rid model result receipt)) = 200"
  "the_obj (safe_json (app_reply (chat_reply rid model result receipt))) = Some d \<Longrightarrow> getn d ''sip_receipt'' = JObj receipt"
  "the_obj (safe_json (app_reply (chat_reply rid model result receipt))) \<noteq> None"
  by (auto simp: app_reply_def chat_reply_def safe_json_def extract_content_def getn_def)

text \<open>The client is satisfied with an honest receipt within an honest quote.\<close>

lemma honest_judged:
  assumes pk: "getn (manifest e) ''provider_pubkey'' = JStr (public_key_str P (gw_keypair g))"
    and rc: "chat_receipt P g (c_request_id c) mode (c_model c) (c_messages c) result (Some price) m = Inr receipt"
    and laws: "ed25519_laws P" and schema: "schema_accepts P ''receipt'' receipt"
    and q: "sign_quote P (quote_of P g c mp t) (gw_keypair g) = Inr q"
    and fresh: "expires_passed P q (client_clock I (moment (world s))) = Inr False"
    and money: "dec_of_str price = Inr p" "dec_of_str mp = Inr b" "dec_le p b = Inr True"
  shows "judge P (mesh_outside P I) c e (Some q) reserved (app_reply (chat_reply rid (c_model c) result receipt)) s =
    (Inr (Served (content result) (JObj receipt) (Some q)), s)"
proof -
  have f: "getn receipt ''price_amount'' = JStr price" "getn receipt ''price_units'' = JStr (price_units g)"
    "getn receipt ''provider_pubkey'' = JStr (public_key_str P (gw_keypair g))"
    "getn receipt ''response_hash'' = JStr (hash_response_body P (content result))"
    "\<exists>v. verify_receipt P receipt = Inr v \<and> valid v"
    using chat_receipt_fields [OF rc] schema laws by (metis option.simps(5))+
  have qf: "getn q ''provider_pubkey'' = JStr (public_key_str P (gw_keypair g))" "getn q ''price_units'' = JStr (price_units g)"
    "getn q ''max_price'' = JStr mp"
    using quote_of_fields quote.sign_keeps_fields [OF q] by simp_all
  have "receipt_trusted P (JObj receipt) e (content result) = Inr True"
    using f pk by (auto simp: receipt_trusted_def)
  moreover have "quote_honored P q (JObj receipt) e (client_clock I (moment (world s))) = Inr True"
    using f qf pk fresh money by (simp add: quote_honored_def quote_is_expired_def)
  moreover have "py_or (JObj receipt) (JObj []) = JObj receipt" using f(1) by (auto simp: py_or_def getn_def)
  ultimately show ?thesis using reply_read [of rid "c_model c" result receipt]
    by (auto simp: judge_def abind_def aret_def alift_def now_of_def mesh_outside_def Let_def split: option.split)
qed


subsection \<open>From the request to the books\<close>

text \<open>
  An attempt that starts at moment \<open>k\<close> asks for the quote at \<open>k + 1\<close>, is challenged at \<open>k + 2\<close> and signs at
  \<open>k + 3\<close>; the paid request follows, and at the moment after it the client checks the quote.
\<close>

definition quote_time :: "internet \<Rightarrow> int \<Rightarrow> int" where
  "quote_time I k = at_check (site_clock I (k + 1))"

definition quote_lasts :: "internet \<Rightarrow> int \<Rightarrow> int \<Rightarrow> bool" where
  "quote_lasts I k checked \<longleftrightarrow> (let q = quote_time I k + 300 * second in
     valid_instant q \<and> four_digit_instant q \<and> client_clock I checked < whole_seconds q)"

text \<open>The schemas accept the quote and the receipt the site issues.\<close>

definition issues_valid ::
  "platform \<Rightarrow> gateway_config \<Rightarrow> chat_options \<Rightarrow> int \<Rightarrow> moments \<Rightarrow> string \<Rightarrow> string \<Rightarrow> chat_result \<Rightarrow> bool" where
  "issues_valid P g c t m price mp result \<longleftrightarrow>
     (\<forall>q. sign_quote P (quote_of P g c mp t) (gw_keypair g) = Inr q \<longrightarrow> schema_accepts P ''quote'' q) \<and>
     (\<forall>receipt. chat_receipt P g (c_request_id c) (c_privacy_mode c) (c_model c) (c_messages c) result (Some price) m =
        Inr receipt \<longrightarrow> schema_accepts P ''receipt'' receipt)"

text \<open>The price of the request and the bound the site quotes are numbers.\<close>

definition priced :: "gateway_config \<Rightarrow> chat_options \<Rightarrow> string \<Rightarrow> string \<Rightarrow> bool" where
  "priced g c price mp \<longleftrightarrow> finite_rates g \<and> price_amount g (billed_input (c_messages c)) (c_max_tokens c) = Inr price \<and>
     price_amount g (max_input_chars g) (c_max_tokens c) = Inr mp \<and> literal_val mp \<noteq> None"

lemma billed_bounds: "0 \<le> billed_input ms" "billed_input ms \<le> total_chars ms"
proof -
  show "0 \<le> billed_input ms" by (induction ms) (simp_all add: billed_input_def)
  show "billed_input ms \<le> total_chars ms"
    by (induction ms) (auto simp: billed_input_def total_chars_def intro!: add_mono simp: py_split_length)
qed

lemma priced_within_quote:
  assumes "priced g c price mp" "takes_request g c"
  shows "\<exists>p b. dec_of_str price = Inr p \<and> dec_of_str mp = Inr b \<and> dec_le p b = Inr True \<and> dec_lt p p = Inr False"
proof -
  have pr: "price_amount g (billed_input (c_messages c)) (c_max_tokens c) = Inr price"
    "price_amount g (max_input_chars g) (c_max_tokens c) = Inr mp" "finite_rates g" using assms(1) by (simp_all add: priced_def)
  obtain u' where u': "literal_val mp = Some u'" using assms(1) by (auto simp: priced_def)
  have le: "billed_input (c_messages c) \<le> max_input_chars g" "0 \<le> c_max_tokens c"
    using billed_bounds(2) [of "c_messages c"] assms(2) by (simp_all add: takes_request_def)
  obtain u where u: "literal_val price = Some u" "u \<le> u'" "price_text price" "price_text mp"
    using price_amount_mono [OF pr billed_bounds(1) le order_refl u'] by blast
  obtain p where p: "dec_of_str price = Inr p" "dec_val p = u" "\<not> is_nan p" "dec_rank p = 0"
    using price_text_dec [OF u(3,1)] by blast
  obtain b where b: "dec_of_str mp = Inr b" "dec_val b = u'" "\<not> is_nan b" "dec_rank b = 0"
    using price_text_dec [OF u(4) u'] by blast
  have "dec_le p b = Inr True" "dec_lt p p = Inr False"
    using p b u(2) by (simp_all add: dec_le_def dec_lt_def dec_le_val_def dec_less_val_def)
  with p(1) b(1) show ?thesis by blast
qed

text \<open>From the challenge to the satisfied client, for any payment the site honours.\<close>

lemma paid_completion:
  assumes site: "sites I (base_url e) = Some g" "getn (manifest e) ''provider_pubkey'' = JStr (public_key_str P (gw_keypair g))"
    and terms: "takes_request g c" "require_payment g" "room 2 g (at_site (world s) (base_url e))" and price: "priced g c price mp"
    and meets: "\<And>s1. moment (world s1) = moment (world s) + 1 \<Longrightarrow> purse s1 = purse s \<Longrightarrow>
      \<exists>s2. prepare_payment P (mesh_outside P I) c e (app_reply (payment_required_response g price)) s1 = (Inr (Pay payment reserved), s2) \<and>
        moment (world s2) = j \<and> at_site (world s2) = at_site (world s1) \<and> purse s2 = w"
    and paid: "honoured P g price (c_request_id c) (site_clock I j) (rivals I j) (spent_keys (at_site (world s) (base_url e))) payment"
    and lasts: "quote_lasts I k (j + 1)" and run: "adapter_chat (gw_adapter g) (c_model c) (c_messages c) (c_max_tokens c) = Inr result"
    and issue: "issues_valid P g c (quote_time I k) (site_clock I j) price mp result" and laws: "ed25519_laws P" "isoformat_law P"
    and q: "sign_quote P (quote_of P g c mp (quote_time I k)) (gw_keypair g) = Inr q"
  shows "\<exists>receipt hs t. complete P (mesh_outside P I) c e (Some q) s = (Inr (Served (content result) (JObj receipt) (Some q)), t) \<and>
    chat_receipt P g (c_request_id c) (c_privacy_mode c) (c_model c) (c_messages c) result (Some price) (site_clock I j) = Inr receipt \<and>
    purse t = w \<and> at_site (world t) = (at_site (world s))(base_url e :=
      charged_state P g price payment (rivals I j) ((at_site (world s) (base_url e))\<lparr>hits := hs\<rparr>))"
proof -
  let ?E = "mesh_outside P I" and ?u = "base_url e"
  obtain p b where money: "dec_of_str price = Inr p" "dec_of_str mp = Inr b" "dec_le p b = Inr True"
    using priced_within_quote [OF price terms(1)] by blast
  have pr: "price_amount g (billed_input (c_messages c)) (c_max_tokens c) = Inr price" using price by (simp add: priced_def)
  obtain hs where hs: "room 1 g ((at_site (world s) ?u)\<lparr>hits := hs\<rparr>)" "post_completion ?E c ?u None s =
      (Inr (app_reply (payment_required_response g price)),
       s\<lparr>world := later ((world s)\<lparr>at_site := (at_site (world s))(?u := (at_site (world s) ?u)\<lparr>hits := hs\<rparr>)\<rparr>)\<rparr>)"
    using unpaid_challenged [OF site(1) terms, of price P] pr by auto
  define s1 where "s1 = s\<lparr>world := later ((world s)\<lparr>at_site := (at_site (world s))(?u := (at_site (world s) ?u)\<lparr>hits := hs\<rparr>)\<rparr>)\<rparr>"
  obtain s2 where s2: "prepare_payment P ?E c e (app_reply (payment_required_response g price)) s1 = (Inr (Pay payment reserved), s2)"
    "moment (world s2) = j" "at_site (world s2) = at_site (world s1)" "purse s2 = w"
    using meets [of s1] by (auto simp: s1_def later_def)
  have before: "at_site (world s2) = (at_site (world s))(?u := (at_site (world s) ?u)\<lparr>hits := hs\<rparr>)"
    using s2(3) by (simp add: s1_def later_def)
  have room: "room 1 g (at_site (world s2) ?u)"
    and honoured: "honoured P g price (c_request_id c) (site_clock I j) (rivals I j) (spent_keys (at_site (world s2) ?u)) payment"
    using hs(1) paid before by simp_all
  obtain hs' receipt t where served: "chat_receipt P g (c_request_id c) (c_privacy_mode c) (c_model c) (c_messages c) result (Some price) (site_clock I j) = Inr receipt"
    "paid_retry ?E c ?u payment reserved s2 = (Inr (app_reply (chat_reply (c_request_id c) (c_model c) result receipt)), t)"
    "t = s2\<lparr>world := later ((world s2)\<lparr>at_site := (at_site (world s2))
        (?u := charged_state P g price payment (rivals I j) ((at_site (world s2) ?u)\<lparr>hits := hs'\<rparr>))\<rparr>)\<rparr>"
    using paid_served [OF site(1) terms(1,2) room order_refl pr refl refl _ run, unfolded s2(2), OF honoured] by blast
  have t: "moment (world t) = j + 1" "purse t = w" "at_site (world t) = (at_site (world s))
      (?u := charged_state P g price payment (rivals I j) ((at_site (world s) ?u)\<lparr>hits := hs'\<rparr>))"
    using s2(2,4) before served(3) by (simp_all add: later_def)
  have "getn q ''expires_at'' = JStr (utc_iso (quote_time I k + 300 * second))"
    using quote.sign_keeps_fields [OF q, of "''expires_at''"] quote_of_fields(4) by simp
  then have "expires_passed P q (client_clock I (moment (world t))) = Inr False"
    using expires_passed_written [OF laws(2), of "quote_time I k + 300 * second" q] lasts t(1) by (simp add: quote_lasts_def Let_def)
  then have "judge P ?E c e (Some q) reserved (app_reply (chat_reply (c_request_id c) (c_model c) result receipt)) t =
      (Inr (Served (content result) (JObj receipt) (Some q)), t)"
    using honest_judged [OF site(2) served(1) laws(1) _ q _ money] issue served(1) by (simp add: issues_valid_def)
  moreover have "reply_status (app_reply (payment_required_response g price)) = 402"
    by (simp add: app_reply_def payment_required_response_def)
  ultimately have "complete P ?E c e (Some q) s = (Inr (Served (content result) (JObj receipt) (Some q)), t)"
    using hs(2) s2(1) served(2) by (simp add: complete_def abind_def s1_def)
  with served(1) t show ?thesis by blast
qed

text \<open>Unreachable candidates are passed over, a moment each.\<close>

lemma later_times: "(later ^^ n) w = w\<lparr>moment := moment w + int n\<rparr>"
  by (induction n) (simp_all add: later_def)

lemma dead_skipped:
  assumes "\<forall>e\<in>set down. sites I (base_url e) = None"
  shows "try_all P (mesh_outside P I) c (down @ es) tried s =
    try_all P (mesh_outside P I) c es (tried @ map (\<lambda>e. (base_url e, ''transport_error: ConnectError'')) down)
      (s\<lparr>world := (world s)\<lparr>moment := moment (world s) + int (length down)\<rparr>\<rparr>)"
  using assms
proof (induction down arbitrary: tried s)
  case (Cons e down)
  then have "exchange (mesh_outside P I) (base_url e) call s = (Inl (TransportError ''ConnectError''), s\<lparr>world := later (world s)\<rparr>)" for call
    by (simp add: exchange_def mesh_outside_def mesh_network_def)
  then have "try_candidate P (mesh_outside P I) c e s = (Inr (Failed (''transport_error: '' @ ''ConnectError'')), s\<lparr>world := later (world s)\<rparr>)"
    by (simp add: try_candidate_def serve_def health_ok_def abind_def)
  with Cons show ?case by (simp add: later_def algebra_simps)
qed simp

text \<open>What the caller holds of a routed answer: the runtime's answer from the first reachable site, with receipt and quote.\<close>

definition routed :: "route_result \<Rightarrow> provider_entry list \<Rightarrow> provider_entry \<Rightarrow> chat_result \<Rightarrow> string \<Rightarrow> string \<Rightarrow> bool" where
  "routed r down e result price max_price \<longleftrightarrow> rr_content r = content result \<and> rr_base_url r = base_url e \<and>
     rr_provider_pubkey r = getn (manifest e) ''provider_pubkey'' \<and>
     (\<exists>receipt. rr_receipt r = JObj receipt \<and> getn receipt ''price_amount'' = JStr price) \<and>
     (\<exists>q. rr_quote r = Some q \<and> getn q ''max_price'' = JStr max_price) \<and>
     rr_attempts r = map (\<lambda>d. (base_url d, ''transport_error: ConnectError'')) down @ [(base_url e, ''ok'')]"

text \<open>
  The interface between the client and a means of payment. \<open>ready\<close> says when the payer can meet the challenge of a
  site: it then prepares the payment, and the site honours it. The attempt below is the same for every means.
\<close>

locale payment_means =
  fixes ready :: "platform \<Rightarrow> internet \<Rightarrow> gateway_config \<Rightarrow> chat_options \<Rightarrow> int \<Rightarrow> string \<Rightarrow> spent_set \<Rightarrow> wallet option \<Rightarrow>
    dict \<Rightarrow> voucher_object list option \<Rightarrow> int \<Rightarrow> wallet option \<Rightarrow> bool"
  assumes meets: "ready P I g c k price spent purse_before payment reserved j w \<Longrightarrow>
      getn (manifest e) ''provider_pubkey'' = JStr (public_key_str P (gw_keypair g)) \<Longrightarrow>
      moment (world s) = k + 3 \<Longrightarrow> purse s = purse_before \<Longrightarrow>
      \<exists>t. prepare_payment P (mesh_outside P I) c e (app_reply (payment_required_response g price)) s = (Inr (Pay payment reserved), t) \<and>
        moment (world t) = j \<and> at_site (world t) = at_site (world s) \<and> purse t = w"
    and honours: "ready P I g c k price spent purse_before payment reserved j w \<Longrightarrow>
      honoured P g price (c_request_id c) (site_clock I j) (rivals I j) spent payment"
begin

lemma route:
  assumes found: "resolve P reg (c_model c) (Some (c_privacy_mode c)) (c_weights c) False = Inr (down @ e # es)" "max_providers c = None"
    and down: "\<forall>d\<in>set down. sites I (base_url d) = None"
    and site: "sites I (base_url e) = Some g" "getn (manifest e) ''provider_pubkey'' = JStr (public_key_str P (gw_keypair g))"
    and terms: "takes_request g c" "require_payment g" "room 2 g before" "get_quote c" and price: "priced g c price mp"
    and before: "before = at_site (world s) (base_url e)" and k: "k = moment (world s) + int (length down)"
    and pay: "ready P I g c k price (spent_keys before) (purse s) payment reserved j w"
    and lasts: "quote_lasts I k (j + 1)" and run: "adapter_chat (gw_adapter g) (c_model c) (c_messages c) (c_max_tokens c) = Inr result"
    and issue: "issues_valid P g c (quote_time I k) (site_clock I j) price mp result" and laws: "ed25519_laws P" "isoformat_law P"
  shows "\<exists>r t hs. route_chat P (mesh_outside P I) reg c s = (Inr r, t) \<and> routed r down e result price mp \<and> purse t = w \<and>
    at_site (world t) = (at_site (world s))(base_url e := charged_state P g price payment (rivals I j) (before\<lparr>hits := hs\<rparr>))"
proof -
  let ?E = "mesh_outside P I"
  define s0 where "s0 = s\<lparr>world := (world s)\<lparr>moment := k\<rparr>\<rparr>"
  define s1 where "s1 = s0\<lparr>world := later (world s0)\<rparr>"
  define s2 where "s2 = s1\<lparr>world := later (world s1)\<rparr>"
  have k2: "moment (world s2) = k + 2" "at_site (world s2) = at_site (world s)" "purse s2 = purse s"
    by (simp_all add: s0_def s1_def s2_def later_def)
  have "quote_time I k = at_check (site_clock I (moment (world s1)))" by (simp add: quote_time_def s0_def s1_def later_def)
  then obtain q v where q: "sign_quote P (quote_of P g c mp (quote_time I k)) (gw_keypair g) = Inr q" "verify_quote P q = Inr v" "valid v"
    "fetch_quote P ?E c (base_url e) s1 = (Inr (Some q), s2)"
    using quote_fetched [OF site(1) terms(1) laws(1) _ _, where s = s1 and mp = mp and t = "quote_time I k"] price lasts issue
    by (auto simp: priced_def quote_lasts_def issues_valid_def Let_def s2_def)
  have room: "room 2 g (at_site (world s2) (base_url e))"
    and honoured: "honoured P g price (c_request_id c) (site_clock I j) (rivals I j) (spent_keys (at_site (world s2) (base_url e))) payment"
    using terms(3) honours [OF pay] k2 before by simp_all
  have plan: "\<exists>u2. prepare_payment P ?E c e (app_reply (payment_required_response g price)) u1 = (Inr (Pay payment reserved), u2) \<and>
      moment (world u2) = j \<and> at_site (world u2) = at_site (world u1) \<and> purse u2 = w"
    if "moment (world u1) = moment (world s2) + 1" "purse u1 = purse s2" for u1
    using meets [OF pay site(2), of u1] that k2 by simp
  obtain receipt hs t where compl: "complete P ?E c e (Some q) s2 = (Inr (Served (content result) (JObj receipt) (Some q)), t)"
    and rc: "chat_receipt P g (c_request_id c) (c_privacy_mode c) (c_model c) (c_messages c) result (Some price) (site_clock I j) = Inr receipt"
    and t: "purse t = w" "at_site (world t) = (at_site (world s))(base_url e := charged_state P g price payment (rivals I j) (before\<lparr>hits := hs\<rparr>))"
    using paid_completion [OF site terms(1,2) room price plan honoured lasts run issue laws q(1)] k2 before by auto
  have "serve P ?E c e s0 = (Inr (Served (content result) (JObj receipt) (Some q)), t)"
    using health_answered [OF site(1), of P s0] q(4) terms(4) compl by (simp add: serve_def abind_def aret_def s1_def)
  then have "try_candidate P ?E c e s0 = (Inr (Served (content result) (JObj receipt) (Some q)), t)" by (simp add: try_candidate_def)
  moreover have "getn receipt ''price_amount'' = JStr price" using chat_receipt_fields [OF rc] by (metis option.simps(5))
  moreover have "getn q ''max_price'' = JStr mp" using quote.sign_keeps_fields [OF q(1)] quote_of_fields by simp
  moreover have "getitem (manifest e) ''provider_pubkey'' = Inr (JStr (public_key_str P (gw_keypair g)))"
    using site(2) by (rule getn_JStr_getitem)
  ultimately show ?thesis
    using found dead_skipped [OF down, of P c "e # es" "[]" s] t site(2)
    by (simp add: route_chat_def routed_def k [symmetric] s0_def [symmetric]) (rule exI, rule refl)
qed

end

subsection \<open>Paying with x402\<close>

text \<open>The payer signs at a date in range, under a nonce nobody has used, and the site sees the payment within five minutes.\<close>

definition can_sign :: "gateway_config \<Rightarrow> chat_options \<Rightarrow> internet \<Rightarrow> int \<Rightarrow> wallet option \<Rightarrow> spent_set \<Rightarrow> keypair \<Rightarrow> bool" where
  "can_sign g c I k w spent kp \<longleftrightarrow> (let t = client_clock I (k + 3); m = site_clock I (k + 4); nonce = draw I (k + 3) in
     x402_keypair c = Some kp \<and> ''x402'' \<in> set (accept_schemes g) \<and> (w = None \<or> ''pic'' \<notin> set (accept_schemes g)) \<and>
     nonce \<noteq> [] \<and> x402_key nonce \<notin> spent \<and> x402_key nonce \<notin> rivals I (k + 4) spent \<and>
     valid_instant t \<and> four_digit_instant t \<and>
     at_check m \<le> whole_seconds t + 300 * second \<and> at_commit m \<le> whole_seconds t + 300 * second)"

lemma covering_honoured:
  assumes "covering_payment P g price rid m S (others S) payment" "ed25519_laws P" "isoformat_law P"
  shows "honoured P g price rid m others S payment"
  using covering_payment_redeems [OF assms] by (simp add: honoured_def)

definition ready_x402 :: "platform \<Rightarrow> internet \<Rightarrow> gateway_config \<Rightarrow> chat_options \<Rightarrow> int \<Rightarrow> string \<Rightarrow> spent_set \<Rightarrow> wallet option \<Rightarrow>
    dict \<Rightarrow> voucher_object list option \<Rightarrow> int \<Rightarrow> wallet option \<Rightarrow> bool" where
  "ready_x402 P I g c k price spent w payment reserved j w' \<longleftrightarrow> ed25519_laws P \<and> isoformat_law P \<and>
     (\<exists>kp p. can_sign g c I k w spent kp \<and> dec_of_str price = Inr p \<and> dec_lt p p = Inr False \<and>
        build_x402_payment P kp price (price_units g) (client_clock I (k + 3)) (draw I (k + 3)) (Some (draw I (k + 3)))
          (Some (public_key_str P (gw_keypair g))) (Some (c_request_id c)) = Inr payment) \<and>
     reserved = None \<and> j = k + 4 \<and> w' = w"

lemma x402_honoured:
  assumes "ready_x402 P I g c k price spent w payment reserved j w'"
  shows "honoured P g price (c_request_id c) (site_clock I j) (rivals I j) spent payment"
proof -
  obtain kp p where r: "can_sign g c I k w spent kp" "dec_of_str price = Inr p" "dec_lt p p = Inr False" "j = k + 4"
    "build_x402_payment P kp price (price_units g) (client_clock I (k + 3)) (draw I (k + 3)) (Some (draw I (k + 3)))
      (Some (public_key_str P (gw_keypair g))) (Some (c_request_id c)) = Inr payment" and laws: "ed25519_laws P" "isoformat_law P"
    using assms by (auto simp: ready_x402_def)
  show ?thesis
  proof (rule covering_honoured [OF _ laws])
    show "covering_payment P g price (c_request_id c) (site_clock I j) spent (rivals I j spent) payment"
      unfolding covering_payment_def using r
      by (intro exI [of _ kp] exI [of _ price] exI [of _ "client_clock I (k + 3)"] exI [of _ "draw I (k + 3)"] exI [of _ p])
        (auto simp: can_sign_def Let_def)
  qed
qed

interpretation by_x402: payment_means ready_x402
proof
  fix P I g c k price spent p payment reserved j w and e :: provider_entry and s :: "mesh routing"
  assume "ready_x402 P I g c k price spent p payment reserved j w" "moment (world s) = k + 3" "purse s = p"
    and "getn (manifest e) ''provider_pubkey'' = JStr (public_key_str P (gw_keypair g))"
  then show "\<exists>t. prepare_payment P (mesh_outside P I) c e (app_reply (payment_required_response g price)) s = (Inr (Pay payment reserved), t) \<and>
      moment (world t) = j \<and> at_site (world t) = at_site (world s) \<and> purse t = w"
    using challenge_paid [of c _ g s e P "draw I (k + 3)" I price payment]
    by (auto simp: ready_x402_def can_sign_def Let_def later_def)
qed (rule x402_honoured)

text \<open>What the payment is to the provider: the payer's key, and the nonce it marks.\<close>

lemma built_x402_books:
  assumes "build_x402_payment P kp amount unit t fresh (Some nonce) pk rid = Inr payment" "nonce \<noteq> []"
  shows "spend_keys payment = {x402_key nonce}" "payment_refs payment = [public_key_str P kp]"
proof -
  let ?inner = "x402_inner P kp amount unit t fresh (Some nonce) pk rid"
  obtain signed where s: "sign_document P ?inner kp = Inr signed" "payment = [(''scheme'', JStr ''x402''), (''payment'', JObj signed)]"
    using assms(1) by (auto simp: build_x402_payment_def rbind_eq_Inr)
  have "getn ?inner ''nonce'' = JStr nonce" "getn ?inner ''payer_pubkey'' = JStr (public_key_str P kp)"
    using assms(2) by (auto simp: x402_inner_def optional_field_def getn_def split: option.split)
  then have "getn signed ''nonce'' = JStr nonce" "getn signed ''payer_pubkey'' = JStr (public_key_str P kp)"
    using sign_document_fields [OF s(1)] by (simp_all add: getn_def)
  then show "spend_keys payment = {x402_key nonce}" "payment_refs payment = [public_key_str P kp]"
    using assms(2) s(2) by (simp_all add: spend_keys_def payment_refs_def x402_nonce_def getn_def [of "[_, _]"])
qed

subsection \<open>Paying with vouchers\<close>

text \<open>A voucher the site redeems at a time, with these keys spent.\<close>

definition redeemable :: "platform \<Rightarrow> gateway_config \<Rightarrow> int \<Rightarrow> spent_set \<Rightarrow> dict \<Rightarrow> bool" where
  "redeemable P g now S v \<longleftrightarrow> validate_voucher P v (price_units g) (pic_issuers g) now = Inr None \<and>
     getn v ''voucher_id'' = JStr (id_of v) \<and> id_of v \<notin> S"

lemma redeemable_distinct:
  "list_all (redeemable P g now S) vs \<Longrightarrow> distinct (map id_of vs) \<Longrightarrow> id_of ` set vs \<inter> set known = {} \<Longrightarrow>
     distinct_ids (map JObj vs) known = Inr True"
  by (induction vs arbitrary: known) (auto simp: redeemable_def attr_get_def)

lemma redeemable_checked:
  "list_all (redeemable P g now S) vs \<Longrightarrow> rfold (add_field ''denomination'') vs acc = Inr t \<Longrightarrow>
     check_vouchers P (price_units g) (pic_issuers g) now S vs acc = Inr (Inr t)"
proof (induction vs arbitrary: acc)
  case (Cons v vs)
  then obtain acc' where "add_field ''denomination'' v acc = Inr acc'" "rfold (add_field ''denomination'') vs acc' = Inr t"
    by (auto simp: rbind_eq_Inr)
  then show ?case using Cons by (simp add: redeemable_def is_spent_def add_denomination_Some [THEN iffD2])
qed simp

lemma vouchers_redeem:
  assumes "list_all (redeemable P g now S) vs" "distinct (map id_of vs)" "vs \<noteq> []"
    and "rfold (add_field ''denomination'') vs dec_zero = Inr t" "dec_of_str price = Inr p" "dec_lt t p = Inr False"
  shows "gateway_redeem P g (build_pic_payment (map JObj vs)) price now commit rid S =
    Inr (\<lparr>ok = True, scheme = ''pic'', total_amount = dec_str t, reason = []\<rparr>, if commit then S \<union> id_of ` set vs else S)"
proof -
  have "set (map id_of vs) \<inter> S = {}" using assms(1) by (auto simp: list_all_iff redeemable_def)
  note batch = spend_batch_all_new [OF assms(2) this]
  have "getn (build_pic_payment (map JObj vs)) ''scheme'' = JStr ''pic''" "getn (build_pic_payment (map JObj vs)) ''vouchers'' = JArr (map JObj vs)"
    by (simp_all add: build_pic_payment_def getn_def)
  with assms(3,5,6) batch redeemable_distinct [OF assms(1,2), of "[]"] redeemable_checked [OF assms(1,4)] show ?thesis
    by (simp add: gateway_redeem_def redeem_payment_def redeem_pic_def Let_def)
qed

text \<open>A wallet whose vouchers of the site's unit the site redeems, when it checks and when it commits.\<close>

definition good_wallet :: "platform \<Rightarrow> gateway_config \<Rightarrow> moments \<Rightarrow> (spent_set \<Rightarrow> spent_set) \<Rightarrow> spent_set \<Rightarrow> wallet \<Rightarrow> bool" where
  "good_wallet P g m others S w \<longleftrightarrow> (let vs = map snd (filter (\<lambda>v. unit_matches (Some (price_units g)) (snd v)) (held w)) in
     distinct (map id_of vs) \<and> list_all (redeemable P g (at_check m) S) vs \<and> list_all (redeemable P g (at_commit m) (others S)) vs)"

definition voucher_payment :: "voucher_object list \<Rightarrow> dict" where
  "voucher_payment vs = build_pic_payment (map (JObj \<circ> snd) vs)"

lemma voucher_payment_books:
  assumes "\<forall>v\<in>set vs. getn (snd v) ''voucher_id'' = JStr (id_of (snd v))"
  shows "spend_keys (voucher_payment vs) = id_of ` snd ` set vs" "payment_refs (voucher_payment vs) = map (id_of \<circ> snd) vs"
proof -
  have f: "getn (voucher_payment vs) ''scheme'' = JStr ''pic''" "getn (voucher_payment vs) ''vouchers'' = JArr (map JObj (map snd vs))"
    by (simp_all add: voucher_payment_def build_pic_payment_def getn_def)
  have objects: "List.map_filter the_obj (map (JObj \<circ> snd) vs) = map snd vs" using map_filter_objects [of "map snd vs"] by simp
  show "spend_keys (voucher_payment vs) = id_of ` snd ` set vs"
    unfolding spend_keys_def f by (simp add: image_image objects)
  have "List.map_filter (\<lambda>d. the_str (getn d ''voucher_id'')) (map snd vs) = map (id_of \<circ> snd) vs"
    using assms by (induction vs) (simp_all add: List.map_filter_simps)
  then show "payment_refs (voucher_payment vs) = map (id_of \<circ> snd) vs"
    unfolding payment_refs_def f by (simp add: objects)
qed

lemma selected_honoured:
  assumes "good_wallet P g m others S w" "wallet_select w (JStr price) (price_units g) = Inr (vs, w')" "vs \<noteq> []"
  shows "honoured P g price rid m others S (voucher_payment vs)" "\<forall>v\<in>set vs. getn (snd v) ''voucher_id'' = JStr (id_of (snd v))"
proof -
  obtain p where p: "py_decimal (JStr price) = Inr p" "greedy_prefix p (price_units g) (held w) vs"
    "\<exists>t. wallet_balance w (Some (price_units g)) = Inr t \<and> dec_lt t p = Inr False"
    using wallet_select_cases [OF assms(2)] by blast
  obtain t where t: "rfold (add_field ''denomination'') (map snd vs) dec_zero = Inr t" "dec_lt t p = Inr False"
    using greedy_prefix_covers [OF p(2,3)] by blast
  have price: "dec_of_str price = Inr p" using p(1) by simp
  obtain rest where "filter (\<lambda>v. unit_matches (Some (price_units g)) (snd v)) (held w) = vs @ rest"
    using p(2) by (auto simp: greedy_prefix_def)
  then have good: "distinct (map id_of (map snd vs))" "list_all (redeemable P g (at_check m) S) (map snd vs)"
    "list_all (redeemable P g (at_commit m) (others S)) (map snd vs)"
    using assms(1) by (simp_all add: good_wallet_def Let_def)
  then show ids: "\<forall>v\<in>set vs. getn (snd v) ''voucher_id'' = JStr (id_of (snd v))" by (auto simp: list_all_iff redeemable_def)
  have pay: "voucher_payment vs = build_pic_payment (map JObj (map snd vs))" by (simp add: voucher_payment_def)
  have "map snd vs \<noteq> []" using assms(3) by simp
  note redeem = vouchers_redeem [OF good(2,1) this t(1) price t(2), of False rid] vouchers_redeem [OF good(3,1) this t(1) price t(2), of True rid]
  have keys: "spend_keys (voucher_payment vs) = id_of ` set (map snd vs)" using voucher_payment_books(1) [OF ids] by simp
  show "honoured P g price rid m others S (voucher_payment vs)"
    unfolding honoured_def pay redeem using keys [unfolded pay] by simp
qed

lemma wallet_meets:
  assumes "purse s = Some w" "''pic'' \<in> set (accept_schemes g)" "wallet_select w (JStr price) (price_units g) = Inr (vs, w')"
  shows "prepare_payment P E c e (app_reply (payment_required_response g price)) s =
    (Inr (Pay (voucher_payment vs) (Some vs)), s\<lparr>purse := Some w'\<rparr>)"
proof -
  let ?challenge = "payment_required price (price_units g) (pic_issuers g) (accept_schemes g)"
  have f: "getn ?challenge ''price_amount'' = JStr price" "getn ?challenge ''price_units'' = JStr (price_units g)"
    "getn ?challenge ''accepted_schemes'' = jstrs (accept_schemes g)"
    by (simp_all add: payment_required_def getn_def)
  have "JStr x \<in> set (map JStr xs) \<longleftrightarrow> x \<in> set xs" for x xs by auto
  moreover have "the_obj (safe_json (app_reply (payment_required_response g price))) =
      Some [(''error'', JStr ''payment required''), (''sip_payment_required'', JObj ?challenge)]"
    by (simp add: app_reply_def payment_required_response_def safe_json_def)
  ultimately show ?thesis using assms f
    by (simp add: prepare_payment_def getn_def [of "[_, _]"] jstrs_def Let_def reserve_vouchers_def voucher_payment_def)
qed


definition ready_vouchers :: "platform \<Rightarrow> internet \<Rightarrow> gateway_config \<Rightarrow> chat_options \<Rightarrow> int \<Rightarrow> string \<Rightarrow> spent_set \<Rightarrow> wallet option \<Rightarrow>
    dict \<Rightarrow> voucher_object list option \<Rightarrow> int \<Rightarrow> wallet option \<Rightarrow> bool" where
  "ready_vouchers P I g c k price spent w payment reserved j w' \<longleftrightarrow>
     (\<exists>held_before vs held_after. w = Some held_before \<and> ''pic'' \<in> set (accept_schemes g) \<and>
        wallet_select held_before (JStr price) (price_units g) = Inr (vs, held_after) \<and> vs \<noteq> [] \<and>
        good_wallet P g (site_clock I j) (rivals I j) spent held_before \<and>
        payment = voucher_payment vs \<and> reserved = Some vs \<and> w' = Some held_after) \<and> j = k + 3"

interpretation by_vouchers: payment_means ready_vouchers
proof
  fix P I g c k price spent p payment reserved j w and e :: provider_entry and s :: "mesh routing"
  assume "ready_vouchers P I g c k price spent p payment reserved j w" "moment (world s) = k + 3" "purse s = p"
  then show "\<exists>t. prepare_payment P (mesh_outside P I) c e (app_reply (payment_required_response g price)) s = (Inr (Pay payment reserved), t) \<and>
      moment (world t) = j \<and> at_site (world t) = at_site (world s) \<and> purse t = w"
    using wallet_meets by (fastforce simp: ready_vouchers_def)
next
  fix P I g c k price spent w payment reserved j w'
  assume "ready_vouchers P I g c k price spent w payment reserved j w'"
  then show "honoured P g price (c_request_id c) (site_clock I j) (rivals I j) spent payment"
    using selected_honoured(1) by (fastforce simp: ready_vouchers_def)
qed

subsection \<open>End to end\<close>

lemma x402_route:
  assumes found: "resolve P reg (c_model c) (Some (c_privacy_mode c)) (c_weights c) False = Inr (down @ e # es)" "max_providers c = None"
    and down: "\<forall>d\<in>set down. sites I (base_url d) = None"
    and site: "sites I (base_url e) = Some g" "getn (manifest e) ''provider_pubkey'' = JStr (public_key_str P (gw_keypair g))"
    and terms: "takes_request g c" "require_payment g" "room 2 g before" "get_quote c" and price: "priced g c price max_price"
    and before: "before = at_site (world s) (base_url e)" and k: "k = moment (world s) + int (length down)"
    and pay: "can_sign g c I k (purse s) (spent_keys before) kp" and lasts: "quote_lasts I k (k + 5)"
    and run: "adapter_chat (gw_adapter g) (c_model c) (c_messages c) (c_max_tokens c) = Inr result"
    and issue: "issues_valid P g c (quote_time I k) (site_clock I (k + 4)) price max_price result" and laws: "ed25519_laws P" "isoformat_law P"
  shows "\<exists>r t hs. route_chat P (mesh_outside P I) reg c s = (Inr r, t) \<and> routed r down e result price max_price \<and> purse t = purse s \<and>
    at_site (world t) = (at_site (world s))(base_url e := before\<lparr>hits := hs,
      spent_keys := insert (x402_key (draw I (k + 3))) (rivals I (k + 4) (spent_keys before)),
      gw_ledger := map_option (ledger_record (public_key_str P (gw_keypair g)) price (price_units g) [public_key_str P kp]) (gw_ledger before)\<rparr>)"
proof -
  obtain payment where built: "build_x402_payment P kp price (price_units g) (client_clock I (k + 3)) (draw I (k + 3)) (Some (draw I (k + 3)))
      (Some (public_key_str P (gw_keypair g))) (Some (c_request_id c)) = Inr payment" using x402_built by blast
  have nonce: "draw I (k + 3) \<noteq> []" using pay by (simp add: can_sign_def Let_def)
  have ready: "ready_x402 P I g c k price (spent_keys before) (purse s) payment None (k + 4) (purse s)"
    using pay built laws priced_within_quote [OF price terms(1)] by (auto simp: ready_x402_def)
  have last: "quote_lasts I k (k + 4 + 1)" using lasts by (simp add: ac_simps)
  from by_x402.route [OF found down site terms price before k ready last run issue laws]
  obtain r t hs where "route_chat P (mesh_outside P I) reg c s = (Inr r, t)" "routed r down e result price max_price" "purse t = purse s"
    "at_site (world t) = (at_site (world s))(base_url e := charged_state P g price payment (rivals I (k + 4)) (before\<lparr>hits := hs\<rparr>))"
    by blast
  then show ?thesis
    by (intro exI [of _ r] exI [of _ t] exI [of _ hs]) (simp add: charged_state_def built_x402_books [OF built nonce])
qed

text \<open>C1. End to end, paying per request: a client that asks the network for a model, with a quote, is served by the first
  candidate that is reachable when that one is an honest gateway, the request is within its terms and the payer signs x402
  in time. It is answered with what the runtime said, under a receipt for the price of the request and a quote that bounds it; the
  site has marked exactly the payment's nonce and booked the price to the payer's key, and no other site has changed.\<close>

theorem paid_route_served:
  assumes "resolve P reg (c_model c) (Some (c_privacy_mode c)) (c_weights c) False = Inr (down @ e # es)" "max_providers c = None"
    and "\<forall>d\<in>set down. sites I (base_url d) = None"
    and "sites I (base_url e) = Some g" "getn (manifest e) ''provider_pubkey'' = JStr (public_key_str P (gw_keypair g))"
    and "takes_request g c" "require_payment g" "room 2 g before" "get_quote c" "priced g c price max_price"
    and "before = at_site (world s) (base_url e)" "k = moment (world s) + int (length down)"
    and "can_sign g c I k (purse s) (spent_keys before) kp" "quote_lasts I k (k + 5)"
    and "adapter_chat (gw_adapter g) (c_model c) (c_messages c) (c_max_tokens c) = Inr result"
    and "issues_valid P g c (quote_time I k) (site_clock I (k + 4)) price max_price result" "ed25519_laws P" "isoformat_law P"
  shows "\<exists>r t hs. route_chat P (mesh_outside P I) reg c s = (Inr r, t) \<and> routed r down e result price max_price \<and> purse t = purse s \<and>
    at_site (world t) = (at_site (world s))(base_url e := before\<lparr>hits := hs,
      spent_keys := insert (x402_key (draw I (k + 3))) (rivals I (k + 4) (spent_keys before)),
      gw_ledger := map_option (ledger_record (public_key_str P (gw_keypair g)) price (price_units g) [public_key_str P kp]) (gw_ledger before)\<rparr>)"
  using assms by (rule x402_route)

text \<open>C2. End to end, paying with vouchers: the same when the payer's wallet meets the challenge with vouchers the site
  redeems. The wallet then holds what it held less the vouchers selected, and the site has marked exactly their ids and booked the
  price against them.\<close>

theorem voucher_route_served:
  assumes found: "resolve P reg (c_model c) (Some (c_privacy_mode c)) (c_weights c) False = Inr (down @ e # es)" "max_providers c = None"
    and down: "\<forall>d\<in>set down. sites I (base_url d) = None"
    and site: "sites I (base_url e) = Some g" "getn (manifest e) ''provider_pubkey'' = JStr (public_key_str P (gw_keypair g))"
    and terms: "takes_request g c" "require_payment g" "room 2 g before" "get_quote c" and price: "priced g c price max_price"
    and before: "before = at_site (world s) (base_url e)" and k: "k = moment (world s) + int (length down)"
    and wallet: "purse s = Some w" "''pic'' \<in> set (accept_schemes g)" "wallet_select w (JStr price) (price_units g) = Inr (vs, w')" "vs \<noteq> []"
    and good: "good_wallet P g (site_clock I (k + 3)) (rivals I (k + 3)) (spent_keys before) w" and lasts: "quote_lasts I k (k + 4)"
    and run: "adapter_chat (gw_adapter g) (c_model c) (c_messages c) (c_max_tokens c) = Inr result"
    and issue: "issues_valid P g c (quote_time I k) (site_clock I (k + 3)) price max_price result" and laws: "ed25519_laws P" "isoformat_law P"
  shows "\<exists>r t hs. route_chat P (mesh_outside P I) reg c s = (Inr r, t) \<and> routed r down e result price max_price \<and> purse t = Some w' \<and>
    at_site (world t) = (at_site (world s))(base_url e := before\<lparr>hits := hs,
      spent_keys := rivals I (k + 3) (spent_keys before) \<union> id_of ` snd ` set vs,
      gw_ledger := map_option (ledger_record (public_key_str P (gw_keypair g)) price (price_units g) (map (id_of \<circ> snd) vs)) (gw_ledger before)\<rparr>)"
proof -
  have ready: "ready_vouchers P I g c k price (spent_keys before) (purse s) (voucher_payment vs) (Some vs) (k + 3) (Some w')"
    using wallet good by (simp add: ready_vouchers_def)
  have last: "quote_lasts I k (k + 3 + 1)" using lasts by (simp add: ac_simps)
  from by_vouchers.route [OF found down site terms price before k ready last run issue laws]
  obtain r t hs where "route_chat P (mesh_outside P I) reg c s = (Inr r, t)" "routed r down e result price max_price" "purse t = Some w'"
    "at_site (world t) = (at_site (world s))(base_url e := charged_state P g price (voucher_payment vs) (rivals I (k + 3)) (before\<lparr>hits := hs\<rparr>))"
    by blast
  then show ?thesis
    by (intro exI [of _ r] exI [of _ t] exI [of _ hs])
      (simp add: charged_state_def voucher_payment_books [OF selected_honoured(2) [OF good wallet(3,4)]])
qed

text \<open>A node set up with \<^verbatim>\<open>sin share\<close> is such a site, and its terms are those of its manifest.\<close>

definition shared_entry :: "share_result \<Rightarrow> provider_entry" where
  "shared_entry n = \<lparr>base_url = sr_url n, manifest = sr_manifest n\<rparr>"

definition advertised_terms :: "share_result \<Rightarrow> chat_options \<Rightarrow> string \<Rightarrow> string \<Rightarrow> bool" where
  "advertised_terms n c price max_price \<longleftrightarrow>
     fle (Fin 0) (advertised_rate (sr_manifest n) ''input_per_1m'') \<and> fle (Fin 0) (advertised_rate (sr_manifest n) ''output_per_1m'') \<and>
     advertised_amount (sr_manifest n) (billed_input (c_messages c)) (c_max_tokens c) = Inr price \<and>
     advertised_amount (sr_manifest n) (max_input_chars (fst (sr_app n))) (c_max_tokens c) = Inr max_price \<and> literal_val max_price \<noteq> None"

lemma shared_priced:
  assumes "build_share P spent_file cfg kp adapter now = Inr n" "double (sc_input cfg)" "double (sc_output cfg)"
    and "advertised_terms n c price max_price"
  shows "priced (fst (sr_app n)) c price max_price"
proof -
  note run = share_run [OF assms(1)]
  note rates = rates_of_share [OF share_fields(1) [OF run(1)]]
  have "\<exists>x. float_of_str (float_repr f) = Inr (Fin x) \<and> 0 \<le> x" if "double f" "fle (Fin 0) f" for f
    using that float_repr_read_back by (auto simp: double_def)
  then have "finite_rates (fst (sr_app n))"
    using assms(2-4) by (simp add: finite_rates_def run(2) share_gateway_def advertised_terms_def rates)
  then show ?thesis
    using assms(4) shared_node_charges_advertised [OF assms(1-3)] by (simp add: priced_def advertised_terms_def)
qed

text \<open>C35. From sharing to the books: a node built by \<^verbatim>\<open>sin share\<close> with payment required is such a site. A client that
  finds its manifest is served by its runtime and pays it the amount that the numbers in the signed manifest come to, in the unit it
  names, with the node's key as the provider.\<close>

theorem shared_node_paid:
  assumes n: "build_share P spent_file cfg kp adapter now = Inr n" "sc_require cfg" "double (sc_input cfg)" "double (sc_output cfg)"
    and found: "resolve P reg (c_model c) (Some (c_privacy_mode c)) (c_weights c) False = Inr (down @ shared_entry n # es)" "max_providers c = None"
    and down: "\<forall>d\<in>set down. sites I (base_url d) = None" and site: "sites I (sr_url n) = Some (fst (sr_app n))"
    and terms: "takes_request (fst (sr_app n)) c" "room 2 (fst (sr_app n)) before" "get_quote c" "advertised_terms n c price max_price"
    and before: "before = at_site (world s) (sr_url n)" and k: "k = moment (world s) + int (length down)"
    and pay: "can_sign (fst (sr_app n)) c I k (purse s) (spent_keys before) payer" and lasts: "quote_lasts I k (k + 5)"
    and run: "adapter_chat adapter (c_model c) (c_messages c) (c_max_tokens c) = Inr result"
    and issue: "issues_valid P (fst (sr_app n)) c (quote_time I k) (site_clock I (k + 4)) price max_price result"
    and laws: "ed25519_laws P" "isoformat_law P"
  shows "\<exists>r t hs. route_chat P (mesh_outside P I) reg c s = (Inr r, t) \<and> routed r down (shared_entry n) result price max_price \<and>
    rr_provider_pubkey r = JStr (public_key_str P kp) \<and> purse t = purse s \<and>
    at_site (world t) = (at_site (world s))(sr_url n := before\<lparr>hits := hs,
      spent_keys := insert (x402_key (draw I (k + 3))) (rivals I (k + 4) (spent_keys before)),
      gw_ledger := map_option (ledger_record (public_key_str P kp) price (sc_unit cfg) [public_key_str P payer]) (gw_ledger before)\<rparr>)"
proof -
  note share = share_run [OF n(1)]
  have g: "gw_keypair (fst (sr_app n)) = kp" "gw_adapter (fst (sr_app n)) = adapter" "require_payment (fst (sr_app n))"
    "price_units (fst (sr_app n)) = sc_unit cfg" using n(2) by (simp_all add: share(2) share_gateway_def)
  have e: "base_url (shared_entry n) = sr_url n" "getn (manifest (shared_entry n)) ''provider_pubkey'' = JStr (public_key_str P (gw_keypair (fst (sr_app n))))"
    using share_fields(4) [OF share(1)] by (simp_all add: shared_entry_def g(1))
  obtain r t hs where r: "route_chat P (mesh_outside P I) reg c s = (Inr r, t)" "routed r down (shared_entry n) result price max_price" "purse t = purse s"
    "at_site (world t) = (at_site (world s))(sr_url n := before\<lparr>hits := hs,
      spent_keys := insert (x402_key (draw I (k + 3))) (rivals I (k + 4) (spent_keys before)),
      gw_ledger := map_option (ledger_record (public_key_str P kp) price (sc_unit cfg) [public_key_str P payer]) (gw_ledger before)\<rparr>)"
    using x402_route [OF found down _ e(2) terms(1) g(3) terms(2,3) shared_priced [OF n(1,3,4) terms(4)] _ k pay lasts _ issue laws, unfolded e(1) g]
      site before run by blast
  moreover have "rr_provider_pubkey r = JStr (public_key_str P kp)"
    using r(2) e(2) by (simp add: routed_def g(1))
  ultimately show ?thesis by blast
qed

subsection \<open>Inputs\<close>

text \<open>
  Two registered providers: \<^verbatim>\<open>u1\<close> is gone, \<^verbatim>\<open>u2\<close> is a gateway. The x402 payer signs with key 9; the other payer holds
  one voucher of four units.
\<close>

definition demo_internet :: "gateway_config \<Rightarrow> internet" where
  "demo_internet g = \<lparr>sites = (\<lambda>u. if u = ''u2'' then Some g else None), client_clock = (\<lambda>_. demo_now),
     site_clock = (\<lambda>_. demo_moments), draw = (\<lambda>_. ''n1''), rivals = (\<lambda>_ S. S), elsewhere = \<lparr>reply_status = 404, reply_json = None\<rparr>\<rparr>"

definition demo_asks :: chat_options where
  "demo_asks = demo_options\<lparr>c_messages := [demo_message JNull], c_max_tokens := 1000000, get_quote := True, x402_keypair := Some (demo_key 9)\<rparr>"

definition demo_mesh :: "wallet option \<Rightarrow> mesh routing" where
  "demo_mesh p = \<lparr>world = \<lparr>at_site = (\<lambda>_. demo_state), moment = 0\<rparr>, purse = p\<rparr>"

definition demo_seller :: gateway_config where
  "demo_seller = demo_gateway\<lparr>pic_issuers := [issuer_pubkey demo demo_issuer]\<rparr>"

definition demo_minted :: dict where
  "demo_minted = (case sign_voucher demo (build_voucher ''a'' ''4'' ''pic'' (issuer_pubkey demo demo_issuer) demo_now (demo_now + 3600 * second) None)
     (demo_key 5) of Inl e \<Rightarrow> [] | Inr v \<Rightarrow> v)"

lemma demo_quote_dates:
  "valid_instant (demo_now + 300 * second)" "four_digit_instant (demo_now + 300 * second)" "demo_now < whole_seconds (demo_now + 300 * second)"
  by code_simp+

lemma demo_lasts: "quote_lasts (demo_internet g) k j"
  using demo_quote_dates by (simp add: quote_lasts_def quote_time_def demo_internet_def demo_moments_def Let_def)

lemma demo_takes: "takes_request demo_gateway demo_asks" "takes_request demo_seller demo_asks"
  by (simp_all add: takes_request_def admits_def demo_seller_def demo_gateway_def demo_asks_def demo_options_def valid_messages_def valid_message_def
      demo_message_def getn_def total_chars_def content_of_def)

lemma demo_priced: "priced demo_gateway demo_asks ''4'' ''5''" "priced demo_seller demo_asks ''4'' ''5''"
proof -
  have "finite_rates demo_gateway" using demo_rate by (simp add: finite_rates_def demo_gateway_def)
  moreover have "max_input_chars demo_gateway = 1000000" by (simp add: demo_gateway_def)
  moreover have "literal_val ''5'' \<noteq> None" by (simp add: literal_simps Let_def)
  ultimately show p: "priced demo_gateway demo_asks ''4'' ''5''" using demo_prices by (simp add: priced_def demo_asks_def demo_billed)
  then show "priced demo_seller demo_asks ''4'' ''5''"
    by (simp add: priced_def demo_seller_def price_amount_def finite_rates_def)
qed

lemma text_present: "getn d k = JStr v \<Longrightarrow> dict_get d k \<noteq> None"
  by (cases "dict_get d k") (simp_all add: getn_def)

lemma demo_issues: "issues_valid demo g demo_asks t m price mp result"
proof -
  have v: "validator demo = demo_validator" by (simp add: demo_def)
  have "schema_accepts demo ''quote'' q" if q: "sign_quote demo (quote_of demo g demo_asks mp t) (gw_keypair g) = Inr q" for q
  proof -
    have "getn (quote_of demo g demo_asks mp t) ''request_id'' = JStr (c_request_id demo_asks)"
      by (simp add: quote_of_def build_quote_def optional_field_def getn_def)
    then have "getn q ''request_id'' = JStr (c_request_id demo_asks)" using quote.sign_keeps_fields [OF q] by simp
    moreover have "getn q ''provider_pubkey'' = JStr (public_key_str demo (gw_keypair g))" "getn q ''max_price'' = JStr mp"
      using quote.sign_keeps_fields [OF q] quote_of_fields by simp_all
    moreover obtain sg where "dict_get q ''signature'' = Some (JStr sg)" using q signed_has_signature unfolding sign_quote_def by blast
    ultimately show ?thesis using text_present by (simp add: schema_accepts_def v demo_validator_def demo_members_def)
  qed
  moreover have "schema_accepts demo ''receipt'' d"
    if d: "chat_receipt demo g rid mode model ms result (Some price) m = Inr d" for d rid mode model ms
  proof -
    have "getn d ''request_id'' = JStr rid" "getn d ''provider_pubkey'' = JStr (public_key_str demo (gw_keypair g))"
      "getn d ''price_amount'' = JStr price" using chat_receipt_fields [OF d] by (metis option.simps(5))+
    moreover obtain sg where "dict_get d ''signature'' = Some (JStr sg)"
      using d signed_has_signature by (fastforce simp: chat_receipt_def sign_receipt_def rbind_eq_Inr)
    ultimately show ?thesis using text_present by (simp add: schema_accepts_def v demo_validator_def demo_members_def)
  qed
  ultimately show ?thesis by (simp add: issues_valid_def)
qed

lemma demo_found:
  "resolve demo [demo_entry ''u1'', demo_entry ''u2''] (c_model demo_asks) (Some (c_privacy_mode demo_asks)) (c_weights demo_asks) False =
     Inr ([demo_entry ''u1''] @ demo_entry ''u2'' # [])" "max_providers demo_asks = None" "get_quote demo_asks"
  "\<forall>d\<in>set [demo_entry ''u1'']. sites (demo_internet g) (base_url d) = None" "base_url (demo_entry u) = u"
  "1 = moment (world (demo_mesh p)) + int (length [demo_entry ''u1''])" "demo_state = at_site (world (demo_mesh p)) (base_url (demo_entry ''u2''))"
  using demo_resolved by (simp_all add: demo_asks_def demo_options_def demo_internet_def demo_entry_def demo_mesh_def)

theorem paid_route_served_witness:
  "\<exists>r t result. route_chat demo (mesh_outside demo (demo_internet demo_gateway)) [demo_entry ''u1'', demo_entry ''u2''] demo_asks (demo_mesh None) =
       (Inr r, t) \<and> routed r [demo_entry ''u1''] (demo_entry ''u2'') result ''4'' ''5'' \<and>
     spent_keys (at_site (world t) ''u2'') = {''z'', ''x402:n1''}"
proof -
  obtain result where run: "adapter_chat (gw_adapter demo_gateway) (c_model demo_asks) (c_messages demo_asks) (c_max_tokens demo_asks) = Inr result"
    using demo_answers [of "c_messages demo_asks"] by (auto simp: demo_asks_def demo_options_def)
  have site: "sites (demo_internet demo_gateway) (base_url (demo_entry ''u2'')) = Some demo_gateway"
    "getn (manifest (demo_entry ''u2'')) ''provider_pubkey'' = JStr (public_key_str demo (gw_keypair demo_gateway))"
    "require_payment demo_gateway" "room 2 demo_gateway demo_state"
    by (simp_all add: demo_internet_def demo_entry_def demo_gateway_def getn_def room_def demo_state_def)
  have pay: "can_sign demo_gateway demo_asks (demo_internet demo_gateway) 1 (purse (demo_mesh None)) (spent_keys demo_state) (demo_key 9)"
    using demo_dates
    by (simp add: can_sign_def demo_internet_def demo_mesh_def demo_state_def demo_asks_def demo_gateway_def x402_key_def Let_def
        demo_moments_def second_def)
  from paid_route_served [OF demo_found(1,2,4) site(1,2) demo_takes(1) site(3,4) demo_found(3) demo_priced(1) demo_found(7,6) pay
      demo_lasts run demo_issues demo_laws demo_isoformat]
  show ?thesis
    by (auto simp: demo_internet_def demo_state_def x402_key_def insert_commute demo_found(5))
qed

lemma demo_minted_signed:
  "sign_voucher demo (build_voucher ''a'' ''4'' (issuer_unit demo_issuer) (issuer_pubkey demo demo_issuer) demo_now (demo_now + 3600 * second) None)
     (issuer_keypair demo_issuer) = Inr demo_minted"
  "schema_accepts demo ''voucher'' demo_minted"
  "wallet_select \<lparr>held = [(1, demo_minted)]\<rparr> (JStr ''4'') ''pic'' = Inr ([(1, demo_minted)], \<lparr>held = []\<rparr>)"
  by code_simp+

lemma demo_minted_redeemable:
  assumes "now < demo_now + 2 * second" "''a'' \<notin> S"
  shows "redeemable demo demo_seller now S demo_minted" "id_of demo_minted = ''a''"
proof -
  have e: "valid_instant (demo_now + 3600 * second)" by code_simp
  have "now < whole_seconds (demo_now + 3600 * second)" using demo_voucher_dates(2) assms(1) by (simp add: second_def whole_seconds_def demo_now_def)
  from validate_fresh_voucher [OF demo_laws demo_isoformat e demo_voucher_dates(1) demo_minted_signed(1,2) this]
  have "validate_voucher demo demo_minted (price_units demo_seller) (pic_issuers demo_seller) now = Inr None"
    by (simp add: demo_unit demo_seller_def demo_gateway_def)
  moreover have "getn demo_minted ''voucher_id'' = JStr ''a''" using signed_voucher_fields(1) [OF demo_minted_signed(1)] .
  ultimately show "redeemable demo demo_seller now S demo_minted" "id_of demo_minted = ''a''"
    using assms(2) by (simp_all add: redeemable_def id_of_def)
qed

theorem voucher_route_served_witness:
  "\<exists>r t result. route_chat demo (mesh_outside demo (demo_internet demo_seller)) [demo_entry ''u1'', demo_entry ''u2''] demo_asks
       (demo_mesh (Some \<lparr>held = [(1, demo_minted)]\<rparr>)) = (Inr r, t) \<and> routed r [demo_entry ''u1''] (demo_entry ''u2'') result ''4'' ''5'' \<and>
     purse t = Some \<lparr>held = []\<rparr> \<and> spent_keys (at_site (world t) ''u2'') = {''z'', ''a''}"
proof -
  let ?w = "\<lparr>held = [(1, demo_minted)]\<rparr>"
  obtain result where run: "adapter_chat (gw_adapter demo_seller) (c_model demo_asks) (c_messages demo_asks) (c_max_tokens demo_asks) = Inr result"
    using demo_answers [of "c_messages demo_asks"] by (auto simp: demo_asks_def demo_options_def demo_seller_def)
  have site: "sites (demo_internet demo_seller) (base_url (demo_entry ''u2'')) = Some demo_seller"
    "getn (manifest (demo_entry ''u2'')) ''provider_pubkey'' = JStr (public_key_str demo (gw_keypair demo_seller))"
    "require_payment demo_seller" "room 2 demo_seller demo_state" "purse (demo_mesh (Some ?w)) = Some ?w"
    "''pic'' \<in> set (accept_schemes demo_seller)" "price_units demo_seller = ''pic''"
    by (simp_all add: demo_internet_def demo_entry_def demo_seller_def demo_gateway_def getn_def room_def demo_state_def demo_mesh_def)
  have "at_check demo_moments < demo_now + 2 * second" "at_commit demo_moments < demo_now + 2 * second"
    by (simp_all add: demo_moments_def second_def)
  then have good: "good_wallet demo demo_seller (site_clock (demo_internet demo_seller) (1 + 3)) (rivals (demo_internet demo_seller) (1 + 3))
      (spent_keys demo_state) ?w"
    using demo_minted_redeemable by (simp add: good_wallet_def demo_internet_def demo_state_def Let_def)
  have chosen: "wallet_select ?w (JStr ''4'') (price_units demo_seller) = Inr ([(1, demo_minted)], \<lparr>held = []\<rparr>)"
    using demo_minted_signed(3) site(7) by simp
  from voucher_route_served [OF demo_found(1,2,4) site(1,2) demo_takes(2) site(3,4) demo_found(3) demo_priced(2) demo_found(7,6) site(5,6)
      chosen _ good demo_lasts run demo_issues demo_laws demo_isoformat]
  show ?thesis using demo_minted_redeemable(2) [of demo_now "{}"]
    by (auto simp: demo_internet_def demo_state_def insert_commute demo_found(5) second_def)
qed


definition demo_offer :: share_config where
  "demo_offer = (share_defaults ''m'')\<lparr>sc_require := True, sc_input := Fin 1, sc_output := Fin 4, sc_max_output := 1000000,
     sc_max_chars := 1000000, sc_advertised := Some ''u2'', sc_unit := ''pic''\<rparr>"

lemma demo_offered:
  obtains n where "build_share demo (\<lambda>_. {}) demo_offer (demo_key 3) mock_adapter demo_now = Inr n"
proof -
  have "json_ok (JObj (share_draft demo_offer (public_key_str demo (demo_key 3)) (adapter_name mock_adapter) demo_now))"
    by (simp add: share_draft_def demo_offer_def share_defaults_def build_provider_manifest_def manifest_defaults_def optional_field_def jstrs_def)
  then obtain m where "sign_document demo (share_draft demo_offer (public_key_str demo (demo_key 3)) (adapter_name mock_adapter) demo_now) (demo_key 3) = Inr m"
    using sign_document_total by blast
  moreover from this have "m \<noteq> []" by (rule signed_nonempty)
  ultimately show ?thesis
    by (intro that) (simp add: build_share_def build_share_manifest_def sign_provider_manifest_def create_app_def)
qed

lemma anchored_total:
  assumes "to_float a = Fin a" "0 < a"
  shows "\<exists>x. anchored a v = Inr x"
proof (cases "fmax v (Fin 0)")
  case (Fin y)
  then have "0 \<le> y" by (cases v) (auto simp: fmax_def split: if_splits)
  then have "fle (Fin a) (to_float (a + y))" using to_float_mono [of a "a + y"] assms(1) by simp
  then show ?thesis using Fin assms(2) by (cases "to_float (a + y)") (auto simp: anchored_def)
qed (simp_all add: anchored_def)

lemma demo_offer_score:
  assumes "sign_document demo (share_draft demo_offer key name t) kp = Inr m"
  shows "score_provider None (Some ''direct'') (Some ''m'') (Some []) \<lparr>base_url = u, manifest = m\<rparr> = Inr (Fin 0)"
proof -
  have get: "k \<noteq> ''signature'' \<Longrightarrow> dict_get m k = dict_get (share_draft demo_offer key name t) k" for k
    by (rule sign_document_fields [OF assms])
  have f: "getn m ''models'' = JArr [JStr ''m'']" "getn m ''benchmark'' = JNull" "getn m ''privacy_modes'' = JArr [JStr ''direct'']"
    "getn m ''pricing'' = JObj [(''unit'', JStr ''pic''), (''input_per_1m'', JFloat (Fin 1)), (''output_per_1m'', JFloat (Fin 4))]"
    by (simp_all add: getn_def get share_draft_def demo_offer_def share_defaults_def build_provider_manifest_def manifest_defaults_def
        optional_field_def jstrs_def dict_simps)
  have "\<exists>x. anchored 2000 v = Inr x" "\<exists>x. anchored 100 v = Inr x" for v
    by (intro anchored_total; simp add: to_float_numeral)+
  then obtain f h where "anchored 2000 v = Inr (f v)" "anchored 100 v = Inr (h v)" for v by metis
  then show ?thesis
    by (auto simp: score_provider_def Let_def model_fit_score_def latency_score_def effective_ms_def price_score_def
        privacy_score_def f float_get_def get_or_def py_or_def py_sum_def to_float_numeral)
qed


lemma demo_terms:
  assumes "build_share demo (\<lambda>_. {}) demo_offer (demo_key 3) mock_adapter demo_now = Inr n"
  shows "advertised_terms n demo_asks ''4'' ''5''"
proof -
  note run = share_run [OF assms]
  have rates: "advertised_rate (sr_manifest n) ''input_per_1m'' = Fin 1" "advertised_rate (sr_manifest n) ''output_per_1m'' = Fin 4"
    using rates_of_share [OF share_fields(1) [OF run(1)]] by (simp_all add: demo_offer_def)
  have "rate_for 0 (Fin 1) = Inr (Fin 0)" "rate_for 1000000 (Fin 1) = Inr (Fin 1)" "rate_for 1000000 (Fin 4) = Inr (Fin 4)"
    by (simp_all add: rate_for_def float_of_int_def to_float_1 to_float_numeral)
  moreover have "literal_val ''5'' \<noteq> None" by (simp add: literal_simps Let_def)
  moreover have "max_input_chars (fst (sr_app n)) = 1000000" by (simp add: run(2) share_gateway_def demo_offer_def)
  ultimately show ?thesis
    by (simp add: advertised_terms_def rates advertised_amount_def demo_asks_def demo_billed to_float_numeral demo_amount)
qed

theorem shared_node_paid_witness:
  "\<exists>n r t result. build_share demo (\<lambda>_. {}) demo_offer (demo_key 3) mock_adapter demo_now = Inr n \<and>
     route_chat demo (mesh_outside demo (demo_internet (fst (sr_app n)))) [shared_entry n] demo_asks (demo_mesh None) = (Inr r, t) \<and>
     routed r [] (shared_entry n) result ''4'' ''5'' \<and> spent_keys (at_site (world t) ''u2'') = {''z'', ''x402:n1''}"
proof -
  obtain n where n: "build_share demo (\<lambda>_. {}) demo_offer (demo_key 3) mock_adapter demo_now = Inr n" by (rule demo_offered)
  note run = share_run [OF n]
  let ?g = "fst (sr_app n)" and ?I = "demo_internet (fst (sr_app n))"
  have url: "sr_url n = ''u2''" by (simp add: run(3) public_url_def demo_offer_def falsy_text_def)
  have g: "?g = (share_gateway demo_offer (demo_key 3) mock_adapter)\<lparr>gw_manifest := sr_manifest n\<rparr>" by (rule run(2))
  have opts: "c_model demo_asks = ''m''" "c_privacy_mode demo_asks = ''direct''" "c_weights demo_asks = Some []"
    by (simp_all add: demo_asks_def demo_options_def)
  have models: "get_or (sr_manifest n) ''models'' (JArr []) = JArr [JStr ''m'']"
    using share_fields(2) [OF run(1)] by (auto simp: getn_def get_or_def jstrs_def demo_offer_def share_defaults_def split: option.splits)
  have found: "resolve demo [shared_entry n] (c_model demo_asks) (Some (c_privacy_mode demo_asks)) (c_weights demo_asks) False = Inr ([] @ shared_entry n # [])"
    using demo_offer_score [OF run(1)] by (simp add: opts resolve_def for_model_def rank_candidates_def shared_entry_def models)
  have double: "double (sc_input demo_offer)" "double (sc_output demo_offer)"
    by (simp_all add: double_def demo_offer_def to_float_1 to_float_numeral)
  have site: "sites ?I (sr_url n) = Some ?g" "takes_request ?g demo_asks" "room 2 ?g demo_state" "sc_require demo_offer"
    "\<forall>d\<in>set []. sites ?I (base_url d) = None"
    by (simp_all add: url demo_internet_def g share_gateway_def demo_offer_def share_defaults_def takes_request_def admits_def demo_asks_def
        demo_options_def valid_messages_def valid_message_def demo_message_def getn_def total_chars_def content_of_def room_def demo_state_def)
  have pay: "can_sign ?g demo_asks ?I 0 (purse (demo_mesh None)) (spent_keys demo_state) (demo_key 9)"
    using demo_dates by (simp add: can_sign_def demo_internet_def demo_mesh_def demo_state_def demo_asks_def g share_gateway_def x402_key_def
        Let_def demo_moments_def second_def)
  have start: "demo_state = at_site (world (demo_mesh None)) (sr_url n)" "0 = moment (world (demo_mesh None)) + int (length [])"
    by (simp_all add: demo_mesh_def)
  obtain result where answer: "adapter_chat mock_adapter (c_model demo_asks) (c_messages demo_asks) (c_max_tokens demo_asks) = Inr result"
    using demo_answers [of "c_messages demo_asks"] by (auto simp: demo_asks_def demo_options_def demo_gateway_def)
  from shared_node_paid [OF n site(4) double found demo_found(2) site(5,1,2,3) demo_found(3) demo_terms [OF n] start pay demo_lasts answer demo_issues
      demo_laws demo_isoformat] n
  show ?thesis by (auto simp: url demo_internet_def demo_state_def x402_key_def insert_commute)
qed

text \<open>A price of zero cannot be paid from the wallet: nothing is selected, and an empty payment is refused.\<close>

theorem zero_price_unpayable:
  assumes "wallet_select w (JStr ''0'') unit = Inr (vs, w')"
  shows "vs = [] \<and> gateway_redeem P g (voucher_payment vs) price now commit rid S = Inr (rejected ''pic'' ''invalid_voucher'', S)"
proof -
  have "dec_of_str ''0'' = Inr dec_zero" "dec_le dec_zero dec_zero = Inr True" by code_simp+
  then have "pick_vouchers dec_zero unit xs [] dec_zero = Inr []" for xs by (cases xs) simp_all
  then have "vs = []" using assms \<open>dec_of_str ''0'' = Inr dec_zero\<close> by (auto simp: wallet_select_def rbind_eq_Inr Let_def split: if_splits)
  then show ?thesis
    by (simp add: voucher_payment_def build_pic_payment_def gateway_redeem_def redeem_payment_def redeem_pic_def getn_def Let_def)
qed

end
