(* ===== verification/Origins.thy ===== *)
theory Origins
  imports Server Charging
begin

text \<open>
  The pages a browser may call the desktop server from: the regular expression of \<^verbatim>\<open>sip_openai_proxy/server.py\<close> over
  origins and ports (\<^verbatim>\<open>_PORT\<close>, \<^verbatim>\<open>_ALLOW_ORIGIN_REGEX\<close>), as an expression with its meaning, and the proof that it admits
  exactly the addresses it is meant to.
\<close>

subsection \<open>Regular expressions\<close>

text \<open>The constructs of \<^verbatim>\<open>re\<close> that the patterns use, with \<^verbatim>\<open>fullmatch\<close> as their meaning.\<close>

datatype rx =
    Word string
  | Between char char
  | Seq rx rx
  | Alt rx rx
  | Times nat nat rx
  | Many rx

definition cuts :: "string \<Rightarrow> (string \<times> string) list" where
  "cuts s = map (\<lambda>i. (take i s, drop i s)) [0..<Suc (length s)]"

fun repeated :: "(string \<Rightarrow> bool) \<Rightarrow> nat \<Rightarrow> string \<Rightarrow> bool" where
  "repeated p 0 s = (s = [])"
| "repeated p (Suc n) s = list_ex (\<lambda>(x, y). p x \<and> repeated p n y) (cuts s)"

definition in_class :: "char \<Rightarrow> char \<Rightarrow> char \<Rightarrow> bool" where
  "in_class lo hi c = (of_char lo \<le> (of_char c :: int) \<and> (of_char c :: int) \<le> of_char hi)"

fun fullmatch :: "rx \<Rightarrow> string \<Rightarrow> bool" where
  "fullmatch (Word w) s = (s = w)"
| "fullmatch (Between lo hi) s = (case s of [c] \<Rightarrow> in_class lo hi c | _ \<Rightarrow> False)"
| "fullmatch (Seq a b) s = list_ex (\<lambda>(x, y). fullmatch a x \<and> fullmatch b y) (cuts s)"
| "fullmatch (Alt a b) s = (fullmatch a s \<or> fullmatch b s)"
| "fullmatch (Times lo hi a) s = list_ex (\<lambda>n. repeated (fullmatch a) n s) [lo..<Suc hi]"
| "fullmatch (Many a) s = list_ex (\<lambda>n. repeated (fullmatch a) n s) [1..<Suc (max 1 (length s))]"

definition seqs :: "rx list \<Rightarrow> rx" where
  "seqs rs = foldr Seq rs (Word [])"

definition digit_rx :: rx where
  "digit_rx = Between CHR ''0'' CHR ''9''"

text \<open>\<^verbatim>\<open>_PORT\<close> and \<^verbatim>\<open>_ALLOW_ORIGIN_REGEX\<close>\<close>

definition port_rx :: rx where
  "port_rx =
     Alt (seqs [Word ''6553'', Between CHR ''0'' CHR ''5''])
    (Alt (seqs [Word ''655'', Between CHR ''0'' CHR ''2'', digit_rx])
    (Alt (seqs [Word ''65'', Between CHR ''0'' CHR ''4'', Times 2 2 digit_rx])
    (Alt (seqs [Word ''6'', Between CHR ''0'' CHR ''4'', Times 3 3 digit_rx])
    (Alt (seqs [Between CHR ''1'' CHR ''5'', Times 4 4 digit_rx])
         (seqs [Between CHR ''1'' CHR ''9'', Times 0 3 digit_rx])))))"

definition origin_rx :: rx where
  "origin_rx =
     Alt (Word ''tauri://localhost'')
    (Alt (Word ''https://tauri.localhost'')
         (seqs [Word ''http'', Times 0 1 (Word ''s''), Word ''://'', Alt (Word ''localhost'') (Word ''127.0.0.1''),
            Times 0 1 (seqs [Word '':'', port_rx])]))"

text \<open>\<^verbatim>\<open>_ALLOW_ORIGIN_REGEX\<close> of \<^verbatim>\<open>sin_node/api.py\<close>\<close>

definition node_origin_rx :: rx where
  "node_origin_rx = seqs [Word ''http'', Times 0 1 (Word ''s''), Word ''://'', Alt (Word ''localhost'') (Word ''127.0.0.1''),
     Times 0 1 (seqs [Word '':'', Many digit_rx])]"

text \<open>\<^verbatim>\<open>CORSMiddleware\<close> asks whether the whole origin matches.\<close>

definition origin_allowed :: "string \<Rightarrow> bool" where
  "origin_allowed origin = fullmatch origin_rx origin"

lemma cuts_ex: "list_ex (\<lambda>(x, y). p x \<and> q y) (cuts s) \<longleftrightarrow> (\<exists>x y. s = x @ y \<and> p x \<and> q y)"
proof
  assume "list_ex (\<lambda>(x, y). p x \<and> q y) (cuts s)"
  then have "\<exists>i. p (take i s) \<and> q (drop i s)" unfolding list_ex_iff cuts_def by (auto simp del: upt_Suc)
  then show "\<exists>x y. s = x @ y \<and> p x \<and> q y" by (metis append_take_drop_id)
next
  assume "\<exists>x y. s = x @ y \<and> p x \<and> q y"
  then obtain x y where xy: "s = x @ y" "p x" "q y" by blast
  then have "(x, y) = (take (length x) s, drop (length x) s)" "length x \<in> set [0..<Suc (length s)]" by auto
  then have "(x, y) \<in> set (cuts s)" unfolding cuts_def set_map by (rule image_eqI)
  with xy show "list_ex (\<lambda>(x, y). p x \<and> q y) (cuts s)" by (force simp: list_ex_iff)
qed

lemma match_seq: "fullmatch (Seq a b) s \<longleftrightarrow> (\<exists>x y. s = x @ y \<and> fullmatch a x \<and> fullmatch b y)"
  by (simp add: cuts_ex)

lemma match_class: "fullmatch (Between lo hi) s \<longleftrightarrow> (\<exists>c. s = [c] \<and> in_class lo hi c)"
  by (auto split: list.split)

lemma class_first:
  "(\<exists>x y. s = x @ y \<and> fullmatch (Between lo hi) x \<and> q y) \<longleftrightarrow> (\<exists>c y. s = c # y \<and> in_class lo hi c \<and> q y)"
proof
  assume "\<exists>c y. s = c # y \<and> in_class lo hi c \<and> q y"
  then obtain c y where "s = [c] @ y" "in_class lo hi c" "q y" by auto
  then show "\<exists>x y. s = x @ y \<and> fullmatch (Between lo hi) x \<and> q y" unfolding match_class by blast
qed (auto simp: match_class simp del: fullmatch.simps)

lemma repeated_step: "repeated p (Suc n) s \<longleftrightarrow> (\<exists>x y. s = x @ y \<and> p x \<and> repeated p n y)"
  by (simp add: cuts_ex)

declare repeated.simps(2) [simp del] fullmatch.simps(2, 3) [simp del]

lemma repeated_class: "repeated (fullmatch (Between lo hi)) n s \<longleftrightarrow> length s = n \<and> list_all (in_class lo hi) s"
proof (induction n arbitrary: s)
  case (Suc n)
  have "repeated (fullmatch (Between lo hi)) (Suc n) s \<longleftrightarrow> (\<exists>c y. s = c # y \<and> in_class lo hi c \<and> length y = n \<and> list_all (in_class lo hi) y)"
    unfolding repeated_step class_first Suc.IH ..
  then show ?case by (cases s) auto
qed auto

lemma match_times:
  "fullmatch (Times lo hi (Between a b)) s \<longleftrightarrow> lo \<le> length s \<and> length s \<le> hi \<and> list_all (in_class a b) s"
  by (auto simp: list_ex_iff repeated_class simp del: upt_Suc)

lemma match_optional: "fullmatch (Times 0 1 r) s \<longleftrightarrow> s = [] \<or> fullmatch r s"
  by (auto simp: repeated_step upt_rec)

lemma match_many: "fullmatch (Many (Between a b)) s \<longleftrightarrow> s \<noteq> [] \<and> list_all (in_class a b) s"
  by (cases s) (auto simp: list_ex_iff repeated_class simp del: upt_Suc)

lemma match_seqs:
  "fullmatch (seqs []) s \<longleftrightarrow> s = []"
  "fullmatch (seqs [r]) s \<longleftrightarrow> fullmatch r s"
  "fullmatch (seqs (Word w # rs)) s \<longleftrightarrow> (\<exists>y. s = w @ y \<and> fullmatch (seqs rs) y)"
  "fullmatch (seqs (Between lo hi # rs)) s \<longleftrightarrow> (\<exists>c y. s = c # y \<and> in_class lo hi c \<and> fullmatch (seqs rs) y)"
  by (simp_all add: seqs_def match_seq class_first)

text \<open>Characters as numbers, for the arithmetic of the port.\<close>

lemma char_is: "c = d \<longleftrightarrow> (of_char c :: int) = of_char d"
  by simp

lemma code_of:
  "c = CHR ''0'' \<longleftrightarrow> of_char c = (48::int)" "c = CHR ''3'' \<longleftrightarrow> of_char c = (51::int)"
  "c = CHR ''5'' \<longleftrightarrow> of_char c = (53::int)" "c = CHR ''6'' \<longleftrightarrow> of_char c = (54::int)"
proof -
  have eq: "c = d \<longleftrightarrow> (of_char c :: int) = of_char d" for d by simp
  show "c = CHR ''0'' \<longleftrightarrow> of_char c = (48::int)" "c = CHR ''3'' \<longleftrightarrow> of_char c = (51::int)"
    "c = CHR ''5'' \<longleftrightarrow> of_char c = (53::int)" "c = CHR ''6'' \<longleftrightarrow> of_char c = (54::int)"
    by (simp_all add: eq del: of_char_eq_iff)
qed

lemma class_of: "in_class lo hi c \<longleftrightarrow> of_char lo \<le> (of_char c :: int) \<and> (of_char c :: int) \<le> of_char hi"
  by (simp add: in_class_def)

lemmas port_rules = port_rx_def match_seqs match_times match_class digit_rx_def

lemma below_65536:
  fixes k l m n r :: int
  assumes "48 \<le> l \<and> l \<le> 57" "48 \<le> m \<and> m \<le> 57" "48 \<le> n \<and> n \<le> 57" "48 \<le> r \<and> r \<le> 57"
  shows "k = 54 \<and> l = 53 \<and> m = 53 \<and> n = 51 \<and> r \<le> 53 \<or> k = 54 \<and> l = 53 \<and> m = 53 \<and> n \<le> 50 \<or>
      k = 54 \<and> l = 53 \<and> m \<le> 52 \<or> k = 54 \<and> l \<le> 52 \<or> 49 \<le> k \<and> k \<le> 53 \<longleftrightarrow>
    49 \<le> k \<and> k \<le> 57 \<and> 10000 * k + (1000 * l + (100 * m + (10 * n + r))) \<le> 598863"
proof (cases k "54 :: int" rule: linorder_cases)
  case k: equal
  show ?thesis
  proof (cases l "53 :: int" rule: linorder_cases)
    case l: equal
    show ?thesis
    proof (cases m "53 :: int" rule: linorder_cases)
      case m: equal
      show ?thesis by (cases n "51 :: int" rule: linorder_cases) (use assms k l m in simp_all)
    qed (use assms k l in simp_all)
  qed (use assms k in simp_all)
qed (use assms in simp_all)

lemma port_5:
  "fullmatch port_rx [a, b, c, d, e] \<longleftrightarrow> list_all is_digit [a, b, c, d, e] \<and> a \<noteq> CHR ''0'' \<and> nat_of_digits [a, b, c, d, e] \<le> 65535"
proof -
  define k l m n r where "k = (of_char a :: int)" and "l = (of_char b :: int)" and "m = (of_char c :: int)" and "n = (of_char d :: int)"
    and "r = (of_char e :: int)"
  note code = k_def [symmetric] l_def [symmetric] m_def [symmetric] n_def [symmetric] r_def [symmetric]
  have num: "nat_of_digits [a, b, c, d, e] \<le> 65535 \<longleftrightarrow> 10000 * k + (1000 * l + (100 * m + (10 * n + r))) \<le> 598863"
    by (simp add: nat_of_digits_def digit_val_def code)
  have rx: "fullmatch port_rx [a, b, c, d, e] \<longleftrightarrow>
     k = 54 \<and> l = 53 \<and> m = 53 \<and> n = 51 \<and> 48 \<le> r \<and> r \<le> 53 \<or>
     k = 54 \<and> l = 53 \<and> m = 53 \<and> 48 \<le> n \<and> n \<le> 50 \<and> 48 \<le> r \<and> r \<le> 57 \<or>
     k = 54 \<and> l = 53 \<and> 48 \<le> m \<and> m \<le> 52 \<and> 48 \<le> n \<and> n \<le> 57 \<and> 48 \<le> r \<and> r \<le> 57 \<or>
     k = 54 \<and> 48 \<le> l \<and> l \<le> 52 \<and> 48 \<le> m \<and> m \<le> 57 \<and> 48 \<le> n \<and> n \<le> 57 \<and> 48 \<le> r \<and> r \<le> 57 \<or>
     49 \<le> k \<and> k \<le> 53 \<and> 48 \<le> l \<and> l \<le> 57 \<and> 48 \<le> m \<and> m \<le> 57 \<and> 48 \<le> n \<and> n \<le> 57 \<and> 48 \<le> r \<and> r \<le> 57"
    by (simp add: port_rules code_of class_of code del: fullmatch.simps(5))
  show ?thesis
  proof (cases "(48 \<le> l \<and> l \<le> 57) \<and> (48 \<le> m \<and> m \<le> 57) \<and> (48 \<le> n \<and> n \<le> 57) \<and> (48 \<le> r \<and> r \<le> 57)")
    case True
    have "fullmatch port_rx [a, b, c, d, e] \<longleftrightarrow> 49 \<le> k \<and> k \<le> 57 \<and> 10000 * k + (1000 * l + (100 * m + (10 * n + r))) \<le> 598863"
      unfolding rx using below_65536 [of l m n r k] True by simp
    moreover have "49 \<le> k \<longleftrightarrow> 48 \<le> k \<and> k \<noteq> 48" by linarith
    ultimately show ?thesis using True unfolding num by (simp add: is_digit_def Let_def code code_of) blast
  next
    case False
    then have "\<not> list_all is_digit [a, b, c, d, e]" by (auto simp: is_digit_def Let_def code)
    moreover have "\<not> fullmatch port_rx [a, b, c, d, e]" unfolding rx using False by linarith
    ultimately show ?thesis by blast
  qed
qed

lemma port_short:
  "\<not> fullmatch port_rx []"
  "fullmatch port_rx [a] \<longleftrightarrow> list_all is_digit [a] \<and> a \<noteq> CHR ''0''"
  "fullmatch port_rx [a, b] \<longleftrightarrow> list_all is_digit [a, b] \<and> a \<noteq> CHR ''0''"
  "fullmatch port_rx [a, b, c] \<longleftrightarrow> list_all is_digit [a, b, c] \<and> a \<noteq> CHR ''0''"
  "fullmatch port_rx [a, b, c, d] \<longleftrightarrow> list_all is_digit [a, b, c, d] \<and> a \<noteq> CHR ''0''"
proof -
  have nz: "is_digit a \<and> a \<noteq> CHR ''0'' \<longleftrightarrow> in_class CHR ''1'' CHR ''9'' a" for a
    by (auto simp: is_digit_def class_of code_of Let_def)
  have dg: "is_digit = in_class CHR ''0'' CHR ''9''" by (auto simp: is_digit_def class_of Let_def fun_eq_iff)
  show "\<not> fullmatch port_rx []" "fullmatch port_rx [a] \<longleftrightarrow> list_all is_digit [a] \<and> a \<noteq> CHR ''0''"
    "fullmatch port_rx [a, b] \<longleftrightarrow> list_all is_digit [a, b] \<and> a \<noteq> CHR ''0''"
    "fullmatch port_rx [a, b, c] \<longleftrightarrow> list_all is_digit [a, b, c] \<and> a \<noteq> CHR ''0''"
    "fullmatch port_rx [a, b, c, d] \<longleftrightarrow> list_all is_digit [a, b, c, d] \<and> a \<noteq> CHR ''0''"
    using nz [of a] by (auto simp: port_rules dg simp del: fullmatch.simps(5))
qed

lemma port_length: "fullmatch port_rx s \<Longrightarrow> s \<noteq> [] \<and> length s \<le> 5"
  by (auto simp: port_rules simp del: fullmatch.simps(5))

lemma digit_char_val: "is_digit c \<Longrightarrow> digit_char (digit_val c) = c"
  by (simp add: digit_char_def digit_val_def)

lemma nonzero_first: "1 \<le> n \<Longrightarrow> hd (str_of_nat n) \<noteq> CHR ''0''"
proof (induction n rule: str_of_nat.induct)
  case (1 n)
  then show ?case by (subst str_of_nat.simps) (auto simp: digit_char_def code_of)
qed

lemma canonical_digits:
  "list_all is_digit s \<Longrightarrow> s \<noteq> [] \<Longrightarrow> hd s \<noteq> CHR ''0'' \<Longrightarrow> 1 \<le> nat_of_digits s \<and> str_of_nat (nat_of_digits s) = s"
proof (induction s rule: rev_induct)
  case (snoc c s)
  have c: "0 \<le> digit_val c" "digit_val c \<le> 9" "digit_char (digit_val c) = c"
    using snoc.prems(1) digit_char_val [of c] by (simp_all add: is_digit_def digit_val_def Let_def)
  show ?case
  proof (cases "s = []")
    case True
    with snoc.prems have "digit_val c \<noteq> 0" by (auto simp: digit_val_def code_of)
    with c True show ?thesis by (subst str_of_nat.simps) (simp add: nat_of_digits_def)
  next
    case False
    then have "1 \<le> nat_of_digits s" "str_of_nat (nat_of_digits s) = s" using snoc by simp_all
    with c show ?thesis by (subst str_of_nat.simps) (simp add: nat_of_digits_snoc)
  qed
qed simp

lemma digits_value: "list_all is_digit s \<Longrightarrow> nat_of_digits s < 10 ^ length s"
proof (induction s rule: rev_induct)
  case (snoc c s)
  then have "digit_val c \<le> 9" "nat_of_digits s < 10 ^ length s" by (simp_all add: is_digit_def digit_val_def Let_def)
  then show ?case by (simp add: nat_of_digits_snoc)
qed (simp add: nat_of_digits_def)

lemma port_matched:
  assumes "s \<noteq> []" "length s \<le> 5"
  shows "fullmatch port_rx s \<longleftrightarrow> list_all is_digit s \<and> hd s \<noteq> CHR ''0'' \<and> nat_of_digits s \<le> 65535"
proof -
  obtain a t where s: "s = a # t" "length t \<le> 4" using assms by (cases s) auto
  show ?thesis
  proof (cases "length t = 4")
    case True
    then obtain b c d e where "t = [b, c, d, e]" by (auto simp: numeral_eq_Suc length_Suc_conv)
    with s show ?thesis by (simp only: port_5 list.sel)
  next
    case False
    have small: "nat_of_digits s \<le> 65535" if "list_all is_digit s"
    proof -
      have "nat_of_digits s < 10 ^ length s" using that by (rule digits_value)
      also have "\<dots> \<le> 10 ^ 4" using s False by (intro power_increasing) auto
      finally show ?thesis by simp
    qed
    from False s have "length t = 0 \<or> length t = 1 \<or> length t = 2 \<or> length t = 3" by linarith
    then have "t = [] \<or> (\<exists>b. t = [b]) \<or> (\<exists>b c. t = [b, c]) \<or> (\<exists>b c d. t = [b, c, d])"
      by (auto simp: numeral_eq_Suc length_Suc_conv)
    then show ?thesis using small by (elim disjE exE) (simp_all only: s port_short list.sel, auto)
  qed
qed

text \<open>The ports are the numbers from 1 to 65535, as they are printed.\<close>

lemma port_exact: "fullmatch port_rx s \<longleftrightarrow> (\<exists>n. 1 \<le> n \<and> n \<le> 65535 \<and> s = str_of_nat n)"
proof
  assume m: "fullmatch port_rx s"
  from port_length [OF m] m canonical_digits show "\<exists>n. 1 \<le> n \<and> n \<le> 65535 \<and> s = str_of_nat n"
    by (metis port_matched)
next
  assume "\<exists>n. 1 \<le> n \<and> n \<le> 65535 \<and> s = str_of_nat n"
  then obtain n where n: "1 \<le> n" "n \<le> 65535" "s = str_of_nat n" by blast
  with length_str_of_nat [of n 4] have "length s \<le> 5" by simp
  with n show "fullmatch port_rx s" by (simp add: port_matched str_of_nat_digits nonzero_first)
qed

definition node_origin_allowed :: "string \<Rightarrow> bool" where
  "node_origin_allowed origin = fullmatch node_origin_rx origin"

subsection \<open>The addresses admitted\<close>

lemma match_first: "fullmatch (seqs (q # rs)) u \<longleftrightarrow> (\<exists>x y. u = x @ y \<and> fullmatch q x \<and> fullmatch (seqs rs) y)"
  by (simp add: seqs_def match_seq)

lemma match_port_part: "fullmatch (seqs [Times 0 1 (seqs [Word '':'', r])]) z \<longleftrightarrow> z = [] \<or> (\<exists>p. z = CHR '':'' # p \<and> fullmatch r p)"
  by (simp add: match_seqs match_optional del: fullmatch.simps(5) One_nat_def)

lemma match_web:
  "fullmatch (seqs [Word ''http'', Times 0 1 (Word ''s''), Word ''://'', Alt (Word ''localhost'') (Word ''127.0.0.1''),
      Times 0 1 (seqs [Word '':'', r])]) s \<longleftrightarrow>
    (\<exists>scheme host port. scheme \<in> {''http'', ''https''} \<and> host \<in> {''localhost'', ''127.0.0.1''} \<and>
       (port = [] \<or> (\<exists>p. port = CHR '':'' # p \<and> fullmatch r p)) \<and> s = scheme @ ''://'' @ host @ port)"
  (is "?m \<longleftrightarrow> ?w")
proof
  assume ?m
  then obtain y where y: "s = ''http'' @ y" "fullmatch (seqs [Times 0 1 (Word ''s''), Word ''://'',
      Alt (Word ''localhost'') (Word ''127.0.0.1''), Times 0 1 (seqs [Word '':'', r])]) y"
    unfolding match_seqs(3) by blast
  then obtain x y' where x: "y = x @ y'" "x = [] \<or> x = ''s''" "fullmatch (seqs [Word ''://'',
      Alt (Word ''localhost'') (Word ''127.0.0.1''), Times 0 1 (seqs [Word '':'', r])]) y'"
    unfolding match_first [of "Times _ _ _"] match_optional fullmatch.simps(1) by blast
  then obtain u where u: "y' = ''://'' @ u" "fullmatch (seqs [Alt (Word ''localhost'') (Word ''127.0.0.1''), Times 0 1 (seqs [Word '':'', r])]) u"
    unfolding match_seqs(3) by blast
  then obtain h z where h: "u = h @ z" "h = ''localhost'' \<or> h = ''127.0.0.1''" "fullmatch (seqs [Times 0 1 (seqs [Word '':'', r])]) z"
    unfolding match_first [of "Alt _ _"] fullmatch.simps(1, 4) by blast
  with x(2) show ?w unfolding match_port_part y(1) x(1) u(1)
    by (intro exI [of _ "''http'' @ x"] exI [of _ h] exI [of _ z]) auto
next
  assume ?w
  then obtain scheme h z where w: "s = scheme @ ''://'' @ h @ z" "scheme \<in> {''http'', ''https''}" "h = ''localhost'' \<or> h = ''127.0.0.1''"
    "z = [] \<or> (\<exists>p. z = CHR '':'' # p \<and> fullmatch r p)" by blast
  have "fullmatch (seqs [Alt (Word ''localhost'') (Word ''127.0.0.1''), Times 0 1 (seqs [Word '':'', r])]) (h @ z)"
    using w(3,4) unfolding match_first [of "Alt _ _"] match_port_part fullmatch.simps(1, 4) by blast
  then have "fullmatch (seqs [Word ''://'', Alt (Word ''localhost'') (Word ''127.0.0.1''), Times 0 1 (seqs [Word '':'', r])]) (''://'' @ h @ z)"
    unfolding match_seqs(3) by blast
  then have "fullmatch (seqs [Times 0 1 (Word ''s''), Word ''://'', Alt (Word ''localhost'') (Word ''127.0.0.1''), Times 0 1 (seqs [Word '':'', r])])
      (x @ ''://'' @ h @ z)" if "x = [] \<or> x = ''s''" for x
    using that unfolding match_first [of "Times _ _ _"] match_optional fullmatch.simps(1) by blast
  from this [of "drop 4 scheme"] w(1,2) show ?m unfolding match_seqs(3) by auto
qed

definition web_rx :: rx where
  "web_rx = seqs [Word ''http'', Times 0 1 (Word ''s''), Word ''://'', Alt (Word ''localhost'') (Word ''127.0.0.1''),
     Times 0 1 (seqs [Word '':'', port_rx])]"

lemma web_exact:
  "fullmatch web_rx origin \<longleftrightarrow> (\<exists>scheme host port. scheme \<in> {''http'', ''https''} \<and> host \<in> {''localhost'', ''127.0.0.1''} \<and>
     (port = [] \<or> (\<exists>n. 1 \<le> n \<and> n \<le> 65535 \<and> port = CHR '':'' # str_of_nat n)) \<and> origin = scheme @ ''://'' @ host @ port)"
proof -
  have "(\<exists>p. port = CHR '':'' # p \<and> fullmatch port_rx p) \<longleftrightarrow> (\<exists>n. 1 \<le> n \<and> n \<le> 65535 \<and> port = CHR '':'' # str_of_nat n)" for port
    by (auto simp: port_exact)
  then show ?thesis unfolding web_rx_def match_web by (simp only:)
qed

lemma origin_parts:
  "origin_allowed origin \<longleftrightarrow> origin = ''tauri://localhost'' \<or> origin = ''https://tauri.localhost'' \<or> fullmatch web_rx origin"
  unfolding origin_allowed_def origin_rx_def web_rx_def by (simp only: fullmatch.simps(1,4))

text \<open>C27. The desktop server answers cross-origin requests of exactly these origins: the two addresses of the app's own shell, and
  http or https at localhost or 127.0.0.1, without a port or with a port from 1 to 65535 written the usual way. Malformed
  ports, leading zeros and anything before or after are refused.
\<close>

theorem origin_exact:
  "origin_allowed origin \<longleftrightarrow> origin = ''tauri://localhost'' \<or> origin = ''https://tauri.localhost'' \<or>
     (\<exists>scheme host port. scheme \<in> {''http'', ''https''} \<and> host \<in> {''localhost'', ''127.0.0.1''} \<and>
        (port = [] \<or> (\<exists>n. 1 \<le> n \<and> n \<le> 65535 \<and> port = CHR '':'' # str_of_nat n)) \<and> origin = scheme @ ''://'' @ host @ port)"
  unfolding origin_parts web_exact ..

text \<open>Of the web addresses the node's own server admits every one that the desktop server admits.\<close>

lemma node_origin_exact:
  "node_origin_allowed origin \<longleftrightarrow> (\<exists>scheme host port. scheme \<in> {''http'', ''https''} \<and> host \<in> {''localhost'', ''127.0.0.1''} \<and>
     (port = [] \<or> (\<exists>p. port = CHR '':'' # p \<and> p \<noteq> [] \<and> list_all is_digit p)) \<and> origin = scheme @ ''://'' @ host @ port)"
proof -
  have "is_digit = in_class CHR ''0'' CHR ''9''" by (auto simp: is_digit_def class_of Let_def fun_eq_iff)
  then show ?thesis unfolding node_origin_allowed_def node_origin_rx_def by (simp only: match_web digit_rx_def match_many)
qed

lemma node_admits_local:
  assumes "origin_allowed origin" "origin \<noteq> ''tauri://localhost''" "origin \<noteq> ''https://tauri.localhost''"
  shows "node_origin_allowed origin"
proof -
  have "list_all is_digit (str_of_nat n)" if "1 \<le> n" for n using that by (intro str_of_nat_digits) simp
  then show ?thesis using assms unfolding origin_parts web_exact node_origin_exact by (metis str_of_nat_nonempty)
qed

end
