(* ===== verification/Startup.thy ===== *)
theory Startup
  imports Server Share
begin

text \<open>
  What is settled before anything is served: the opening of the spend log (\<^verbatim>\<open>_open\<close> of \<^verbatim>\<open>sip_pic/spentset.py\<close>), the
  command lines of the proxy and of the desktop server (\<^verbatim>\<open>run\<close> of \<^verbatim>\<open>app.py\<close> and \<^verbatim>\<open>server.py\<close>), the dashboard and the
  watch on the parent process of \<^verbatim>\<open>server.py\<close>, and the commands of \<^verbatim>\<open>sin_cli\<close> that report. \<^verbatim>\<open>argparse\<close> hands over
  the arguments as the records below; \<^verbatim>\<open>sqlite3.connect\<close> is taken to succeed.
\<close>

subsection \<open>Opening the spend log\<close>

datatype sqlite_error = Database_error | Operational_error | Interface_error

text \<open>\<^verbatim>\<open>except sqlite3.DatabaseError\<close> catches its subclass \<^verbatim>\<open>OperationalError\<close> too: a locked or busy database raises it.\<close>

definition database_error :: "sqlite_error \<Rightarrow> bool" where
  "database_error e = (e \<noteq> Interface_error)"

text \<open>The file behind the log: missing, of a foreign format, or a database with the keys it marks.\<close>

datatype spend_file = Missing | Foreign | Log spent_set

definition marks :: "spend_file \<Rightarrow> spent_set" where
  "marks f = (case f of Log S \<Rightarrow> S | _ \<Rightarrow> {})"

definition schema_statement :: string where
  "schema_statement = ''CREATE TABLE IF NOT EXISTS spent (spend_key TEXT PRIMARY KEY) WITHOUT ROWID''"

definition opening_statements :: "bool \<Rightarrow> string list" where
  "opening_statements on_disk =
     (if on_disk then [''PRAGMA journal_mode=WAL'', ''PRAGMA synchronous=NORMAL'', ''PRAGMA busy_timeout=5000''] else []) @ [schema_statement]"

text \<open>SQLite is a function: what a statement does to the file, and the error it raises.\<close>

type_synonym engine = "string \<Rightarrow> spend_file \<Rightarrow> sqlite_error option \<times> spend_file"

fun run_statements :: "engine \<Rightarrow> string list \<Rightarrow> spend_file \<Rightarrow> sqlite_error option \<times> spend_file" where
  "run_statements A [] f = (None, f)"
| "run_statements A (st # sts) f = (case A st f of (None, f') \<Rightarrow> run_statements A sts f' | (Some e, f') \<Rightarrow> (Some e, f'))"

text \<open>\<^verbatim>\<open>_open\<close>. It calls itself after the file has been unlinked, as often as the failed attempt leaves a file behind.\<close>

partial_function (option) open_log :: "engine \<Rightarrow> bool \<Rightarrow> spend_file \<Rightarrow> ((sqlite_error + spent_set) \<times> spend_file) option" where
  "open_log A on_disk f = (case run_statements A (opening_statements on_disk) f of
     (None, f') \<Rightarrow> Some (Inr (marks f'), f')
   | (Some e, f') \<Rightarrow> if database_error e \<and> on_disk \<and> f' \<noteq> Missing then open_log A on_disk Missing else Some (Inl e, f'))"

definition undisturbed :: "engine \<Rightarrow> spend_file \<Rightarrow> bool" where
  "undisturbed A f \<longleftrightarrow> list_all (\<lambda>st. A st f = (None, f)) (opening_statements True)"

text \<open>A fresh file is made by the first statement that writes.\<close>

definition creates :: "engine \<Rightarrow> bool" where
  "creates A \<longleftrightarrow> run_statements A (opening_statements True) Missing = (None, Log {})"

lemma undisturbed_run: "list_all (\<lambda>st. A st f = (None, f)) sts \<Longrightarrow> run_statements A sts f = (None, f)"
  by (induction sts) simp_all

lemma log_kept: "undisturbed A (Log S) \<Longrightarrow> open_log A True (Log S) = Some (Inr S, Log S)"
  by (simp add: open_log.simps [of A True "Log S"] undisturbed_def undisturbed_run marks_def)

lemma failed_log_replaced:
  assumes "creates A" "run_statements A (opening_statements True) f = (Some e, f')" "database_error e" "f' \<noteq> Missing"
  shows "open_log A True f = Some (Inr {}, Log {})"
  using assms by (simp add: open_log.simps [of A True f] open_log.simps [of A True Missing] creates_def marks_def)

text \<open>The recursion is not bounded by one: a fresh file that fails after it was made is unlinked again and again.\<close>

lemma open_log_diverges:
  assumes "run_statements A (opening_statements True) Missing = (Some e, f')" "database_error e" "f' \<noteq> Missing"
  shows "open_log A True Missing = None"
proof -
  have "\<not> (B = A \<and> on_disk \<and> f = Missing)" if "open_log B on_disk f = Some r" for B on_disk f r
  proof (rule open_log.raw_induct [where P = "\<lambda>B on_disk f r. \<not> (B = A \<and> on_disk \<and> f = Missing)", OF _ that])
    fix open' B on_disk f r
    assume ih: "\<And>B on_disk f r. open' B on_disk f = Some r \<Longrightarrow> \<not> (B = A \<and> on_disk \<and> f = Missing)"
      and eq: "(case run_statements B (opening_statements on_disk) f of (None, f') \<Rightarrow> Some (Inr (marks f'), f')
        | (Some e, f') \<Rightarrow> if database_error e \<and> on_disk \<and> f' \<noteq> Missing then open' B on_disk Missing else Some (Inl e, f')) = Some r"
    show "\<not> (B = A \<and> on_disk \<and> f = Missing)" using ih [of A True Missing r] eq assms by auto
  qed
  note never = this
  show ?thesis
  proof (rule ccontr)
    assume "open_log A True Missing \<noteq> None"
    then obtain r where "open_log A True Missing = Some r" by auto
    from never [OF this] show False by simp
  qed
qed

text \<open>What a redemption accepts does not depend on the marks of other payments.\<close>

lemma checked_unmarked: "check_vouchers P unit issuers now S vs acc = Inr (Inr t) \<Longrightarrow> check_vouchers P unit issuers now {} vs acc = Inr (Inr t)"
  by (induction vs arbitrary: acc) (auto simp: rbind_eq_Inr is_spent_def split: option.splits if_splits)

lemma pic_when_unmarked:
  assumes "redeem_pic P payment price unit issuers now True S = Inr (r, S')" "ok r"
  shows "\<exists>vs. the_arr (getn payment ''vouchers'') = Some (map JObj vs) \<and>
    redeem_pic P payment price unit issuers now True {} = Inr (r, id_of ` set vs)"
proof -
  obtain raw where raw: "the_arr (getn payment ''vouchers'') = Some raw" "raw \<noteq> []" "distinct_ids raw [] = Inr True"
    using assms by (auto simp: redeem_pic_def rejected_def rbind_eq_Inr split: option.splits if_splits)
  then obtain vs where vs: "raw = map JObj vs" "distinct (map id_of vs)"
    using distinct_ids_True [of raw "[]"] by auto
  obtain checked where checked: "check_vouchers P unit issuers now S vs dec_zero = Inr checked"
    using assms raw by (auto simp: redeem_pic_def vs(1) rbind_eq_Inr)
  then obtain t where t: "check_vouchers P unit issuers now S vs dec_zero = Inr (Inr t)"
    using assms raw by (cases checked) (auto simp: redeem_pic_def vs(1) rejected_def)
  then obtain p short where p: "dec_of_str price = Inr p" "dec_lt t p = Inr short"
    using assms raw by (auto simp: redeem_pic_def vs(1) rbind_eq_Inr)
  have won: "\<not> short" "r = \<lparr>ok = True, scheme = ''pic'', total_amount = dec_str t, reason = []\<rparr>"
    using assms raw t p by (auto simp: redeem_pic_def vs(1) Let_def split: if_splits prod.splits bool.splits)
  have "spend_batch spend unspend (map id_of vs) [] {} = (True, id_of ` set vs)"
    using spend_batch_all_new [OF vs(2), of "{}"] by simp
  then show ?thesis using raw p won checked_unmarked [OF t] by (intro exI [of _ vs]) (simp add: redeem_pic_def vs(1) Let_def)
qed

lemma x402_when_unmarked:
  assumes "redeem_x402 P payment price unit now True pk rid S = Inr (r, S')" "ok r"
  shows "\<exists>n. x402_nonce payment = Some n \<and> redeem_x402 P payment price unit now True pk rid {} = Inr (r, {x402_key n})"
proof (cases "x402_nonce payment")
  case (Some n)
  then obtain good where "verify_x402_payment P payment price unit now 300 pk rid = Inr good"
    using assms(1) by (auto simp: redeem_x402_def rbind_eq_Inr)
  with Some assms show ?thesis
    by (auto simp: redeem_x402_def rejected_def is_spent_def spend_def Let_def split: if_splits)
qed (use assms in \<open>auto simp: redeem_x402_def rejected_def\<close>)

text \<open>A payment accepted before marks exactly its keys when the log is empty again.\<close>

lemma accepted_when_unmarked:
  assumes "redeem_payment P payment price unit issuers now True pk rid S = Inr (r, S')" "ok r"
  shows "redeem_payment P payment price unit issuers now True pk rid {} = Inr (r, spend_keys payment)"
proof -
  consider "getn payment ''scheme'' = JStr ''pic''" | "getn payment ''scheme'' = JStr ''x402''"
    using assms by (auto simp: redeem_payment_def rejected_def Let_def split: if_splits)
  then show ?thesis
  proof cases
    case 1
    then have "redeem_pic P payment price unit issuers now True S = Inr (r, S')" using assms(1) by (simp add: redeem_payment_def)
    from pic_when_unmarked [OF this assms(2)] 1 show ?thesis by (auto simp: redeem_payment_def spend_keys_def)
  next
    case 2
    then have "redeem_x402 P payment price unit now True pk rid S = Inr (r, S')" using assms(1) by (simp add: redeem_payment_def)
    from x402_when_unmarked [OF this assms(2)] 2 show ?thesis by (auto simp: redeem_payment_def spend_keys_def)
  qed
qed

text \<open>C9. A log that another process keeps locked while the gateway starts is taken for a corrupt one and replaced: every
  payment redeemed before is accepted once more. A log that answers is kept.\<close>

theorem locked_log_forgotten:
  assumes "redeem_payment P payment price unit issuers now True pk rid S = Inr (r, S')" "ok r"
    and "creates A" "run_statements A (opening_statements True) (Log S') = (Some Operational_error, Log S')"
  shows "open_log A True (Log S') = Some (Inr {}, Log {}) \<and>
    redeem_payment P payment price unit issuers now True pk rid {} = Inr (r, spend_keys payment)"
  using failed_log_replaced [OF assms(3,4)] accepted_when_unmarked [OF assms(1,2)] by (simp add: database_error_def)

definition demo_engine :: "bool \<Rightarrow> engine" where
  "demo_engine locked st f = (case f of
     Missing \<Rightarrow> (None, Log {})
   | Foreign \<Rightarrow> (Some Database_error, Foreign)
   | Log S \<Rightarrow> if locked \<and> S \<noteq> {} \<and> st = ''PRAGMA journal_mode=WAL'' then (Some Operational_error, Log S) else (None, Log S))"

lemma demo_engine_creates: "creates (demo_engine locked)"
  by (simp add: creates_def demo_engine_def opening_statements_def)

lemma locked_log_forgotten_witness:
  "open_log (demo_engine True) True (Log {''a'', ''b''}) = Some (Inr {}, Log {}) \<and>
    (\<exists>r. ok r \<and> redeem_payment demo demo_pic ''2'' ''pic'' [issuer_pubkey demo demo_issuer] demo_now True None None {} = Inr (r, spend_keys demo_pic))"
proof -
  have "run_statements (demo_engine True) (opening_statements True) (Log {''a'', ''b''}) = (Some Operational_error, Log {''a'', ''b''})"
    by (simp add: demo_engine_def opening_statements_def)
  from locked_log_forgotten [OF demo_redeemed _ demo_engine_creates this] show ?thesis by auto
qed

lemma foreign_log_replaced: "open_log (demo_engine locked) True Foreign = Some (Inr {}, Log {})"
  by (rule failed_log_replaced [OF demo_engine_creates, where e = Database_error and f' = Foreign]) (simp_all add: demo_engine_def opening_statements_def database_error_def)

subsection \<open>The watch on the parent process\<close>

text \<open>What \<^verbatim>\<open>os.kill(pid, 0)\<close> does.\<close>

datatype kill_answer = Delivered | No_such_process | Not_permitted

definition pid_alive :: "kill_answer \<Rightarrow> bool" where
  "pid_alive k = (case k of No_such_process \<Rightarrow> False | Not_permitted \<Rightarrow> True | Delivered \<Rightarrow> True)"

text \<open>\<^verbatim>\<open>_watch_parent_forever\<close>: the thread sleeps between the checks; \<^verbatim>\<open>os._exit\<close> ends the process, with the world it leaves
  behind. \<open>None\<close> is a process that is never ended this way.\<close>

partial_function (option) watch_parent :: "(int \<Rightarrow> 'w \<Rightarrow> kill_answer) \<Rightarrow> ('w \<Rightarrow> 'w) \<Rightarrow> int \<Rightarrow> 'w \<Rightarrow> 'w option" where
  "watch_parent kill sleep pid w = (case watch_parent_once (\<lambda>p. pid_alive (kill p w)) id pid w of
     (alive, w') \<Rightarrow> if alive then watch_parent kill sleep pid (sleep w') else Some w')"

lemma watch_step:
  "watch_parent kill sleep pid w = (if pid_alive (kill pid w) then watch_parent kill sleep pid (sleep w) else Some w)"
  by (subst watch_parent.simps) (simp add: watch_parent_once_def)

lemma watch_found:
  assumes "\<not> pid_alive (kill pid ((sleep ^^ n) w))" "\<forall>i<n. pid_alive (kill pid ((sleep ^^ i) w))"
  shows "watch_parent kill sleep pid w = Some ((sleep ^^ n) w)"
  using assms
proof (induction n arbitrary: w)
  case 0
  then show ?case by (simp add: watch_step [of kill sleep pid w])
next
  case (Suc n)
  have sw: "(sleep ^^ i) (sleep w) = (sleep ^^ Suc i) w" for i by (simp add: funpow_swap1)
  have "pid_alive (kill pid ((sleep ^^ 0) w))" using Suc.prems(2) by blast
  moreover have "watch_parent kill sleep pid (sleep w) = Some ((sleep ^^ n) (sleep w))"
    by (rule Suc.IH) (use Suc.prems in \<open>simp_all only: sw, auto\<close>)
  ultimately show ?case unfolding sw by (simp add: watch_step [of kill sleep pid w])
qed

lemma watch_returned:
  assumes "watch_parent kill sleep pid w = Some w'"
  shows "\<exists>n. w' = (sleep ^^ n) w \<and> \<not> pid_alive (kill pid w') \<and> (\<forall>i<n. pid_alive (kill pid ((sleep ^^ i) w)))"
proof (rule watch_parent.raw_induct [where P = "\<lambda>kill sleep pid w w'. \<exists>n. w' = (sleep ^^ n) w \<and> \<not> pid_alive (kill pid w') \<and>
    (\<forall>i<n. pid_alive (kill pid ((sleep ^^ i) w)))", OF _ assms])
  fix watch and kill :: "int \<Rightarrow> 'a \<Rightarrow> kill_answer" and sleep pid w w'
  assume ih: "\<And>kill sleep pid w w'. watch kill sleep pid w = Some w' \<Longrightarrow>
      \<exists>n. w' = (sleep ^^ n) w \<and> \<not> pid_alive (kill pid w') \<and> (\<forall>i<n. pid_alive (kill pid ((sleep ^^ i) w)))"
    and eq: "(case watch_parent_once (\<lambda>p. pid_alive (kill p w)) id pid w of
      (alive, w') \<Rightarrow> if alive then watch kill sleep pid (sleep w') else Some w') = Some w'"
  show "\<exists>n. w' = (sleep ^^ n) w \<and> \<not> pid_alive (kill pid w') \<and> (\<forall>i<n. pid_alive (kill pid ((sleep ^^ i) w)))"
  proof (cases "pid_alive (kill pid w)")
    case True
    with eq have "watch kill sleep pid (sleep w) = Some w'" by (simp add: watch_parent_once_def)
    from ih [OF this] obtain n where n: "w' = (sleep ^^ n) (sleep w)" "\<not> pid_alive (kill pid w')" "\<forall>i<n. pid_alive (kill pid ((sleep ^^ i) (sleep w)))"
      by blast
    have "pid_alive (kill pid ((sleep ^^ i) w))" if "i < Suc n" for i
      using that n(3) True by (cases i) (auto simp: funpow_swap1)
    with n(1,2) show ?thesis by (intro exI [of _ "Suc n"]) (simp add: funpow_swap1)
  next
    case False
    with eq show ?thesis by (intro exI [of _ 0]) (simp add: watch_parent_once_def)
  qed
qed

text \<open>The server exits at the first check that finds its parent gone, and only then.\<close>

theorem watch_ends_with_parent:
  "watch_parent kill sleep pid w = Some w' \<longleftrightarrow>
     (\<exists>n. w' = (sleep ^^ n) w \<and> \<not> pid_alive (kill pid w') \<and> list_all (\<lambda>i. pid_alive (kill pid ((sleep ^^ i) w))) [0..<n])"
proof
  assume "watch_parent kill sleep pid w = Some w'"
  from watch_returned [OF this] show "\<exists>n. w' = (sleep ^^ n) w \<and> \<not> pid_alive (kill pid w') \<and> list_all (\<lambda>i. pid_alive (kill pid ((sleep ^^ i) w))) [0..<n]"
    by (auto simp: list_all_iff)
next
  assume "\<exists>n. w' = (sleep ^^ n) w \<and> \<not> pid_alive (kill pid w') \<and> list_all (\<lambda>i. pid_alive (kill pid ((sleep ^^ i) w))) [0..<n]"
  then obtain n where n: "w' = (sleep ^^ n) w" "\<not> pid_alive (kill pid w')" "\<forall>i<n. pid_alive (kill pid ((sleep ^^ i) w))"
    by (auto simp: list_all_iff)
  then have "\<not> pid_alive (kill pid ((sleep ^^ n) w))" by simp
  from watch_found [where kill = kill and pid = pid and sleep = sleep and w = w, OF this n(3)]
  show "watch_parent kill sleep pid w = Some w'" unfolding n(1) .
qed

subsection \<open>The desktop server from its command line\<close>

record app_args =
  aa_host :: string
  aa_port :: int
  aa_admin_token :: "string option"
  aa_proxy_key :: "string option"
  aa_parent_pid :: "int option"

text \<open>\<^verbatim>\<open>secrets.token_urlsafe(24)\<close>: the bytes drawn, in the URL-safe alphabet, without padding.\<close>

definition generate_token :: "bytes \<Rightarrow> string" where
  "generate_token drawn = b64u_encode drawn"

record 'w launched =
  la_services :: "'w services"
  la_server :: "'w server"
  la_proxy_key :: "string option"
  la_watched :: "int option"
  la_lines :: "string list"

definition launch :: "platform \<Rightarrow> 'w services \<Rightarrow> config_file \<Rightarrow> app_args \<Rightarrow> bytes \<Rightarrow> 'w \<Rightarrow> 'w launched res" where
  "launch P V file a drawn w =
     (let tok = (if falsy_text (aa_admin_token a) then generate_token drawn else the (aa_admin_token a));
          V' = V\<lparr>svc_admin_token := Some tok\<rparr>
      in rbind (boot P V' file w) (\<lambda>s. Inr \<lparr>la_services = V', la_server = s, la_proxy_key = aa_proxy_key a,
           la_watched = (case aa_parent_pid a of None \<Rightarrow> None | Some p \<Rightarrow> if p = 0 then None else Some p),
           la_lines = [''SOVEREIGN_ADMIN_TOKEN='' @ tok,
             ''Sovereign Inference app server on http://'' @ aa_host a @ '':'' @ str_of_int (aa_port a)]\<rparr>))"

lemma generated_nonempty:
  assumes "is_bytes drawn" "drawn \<noteq> []"
  shows "generate_token drawn \<noteq> []"
proof
  assume "generate_token drawn = []"
  then have "b64u_decode [] = Inr drawn" using b64u_roundtrip [OF assms(1)] by (simp add: generate_token_def)
  moreover have "b64u_decode [] = Inr []" by code_simp
  ultimately show False using assms(2) by simp
qed

text \<open>However it is started, the server has a token, and a request that presents none is refused.\<close>

lemma launch_guarded:
  assumes "launch P V file a drawn w = Inr L" "is_bytes drawn" "drawn \<noteq> []"
  shows "\<exists>tok. tok \<noteq> [] \<and> svc_admin_token (la_services L) = Some tok \<and> hd (la_lines L) = ''SOVEREIGN_ADMIN_TOKEN='' @ tok \<and>
    (\<forall>header req s. req \<noteq> Health \<longrightarrow> header \<noteq> Some tok \<longrightarrow>
       admin P (la_services L) header req s = (Inr (http_error 401 ''missing or invalid admin token''), s))"
proof -
  obtain tok where tok: "tok = (if falsy_text (aa_admin_token a) then generate_token drawn else the (aa_admin_token a))" by simp
  have "tok \<noteq> []" using generated_nonempty [OF assms(2,3)] tok by (auto simp: falsy_text_def)
  moreover have L: "svc_admin_token (la_services L) = Some tok" "hd (la_lines L) = ''SOVEREIGN_ADMIN_TOKEN='' @ tok"
    using assms(1) by (auto simp: launch_def Let_def rbind_eq_Inr tok)
  moreover have "utf8 [] \<noteq> utf8 tok" using utf8_inj [of "[]" tok] \<open>tok \<noteq> []\<close> by blast
  then have "\<not> token_ok (Some tok) header" if "header \<noteq> Some tok" for header
    using that utf8_inj [of _ tok] by (cases header) (auto simp: token_ok_def)
  ultimately show ?thesis by (auto simp: admin_def aret_def)
qed

text \<open>\<^verbatim>\<open>_resolve_dashboard_dir\<close> and \<^verbatim>\<open>_mount_dashboard\<close>, over the environment and the file system.\<close>

definition dashboard_dir :: "string option \<Rightarrow> string option \<Rightarrow> string option \<Rightarrow> (string \<Rightarrow> bool) \<Rightarrow> string \<Rightarrow> string" where
  "dashboard_dir explicit env meipass is_dir source =
     (case explicit of Some d \<Rightarrow> d
      | None \<Rightarrow> if \<not> falsy_text env then the env
          else if \<not> falsy_text meipass \<and> is_dir (the meipass @ ''/dashboard'') then the meipass @ ''/dashboard''
          else source)"

definition mounted_dashboard :: "(string \<Rightarrow> bool) \<Rightarrow> (string \<Rightarrow> bool) \<Rightarrow> string \<Rightarrow> string option" where
  "mounted_dashboard is_dir is_file d = (if is_dir d \<and> is_file (d @ ''/index.html'') then Some d else None)"

subsection \<open>The proxy from its command line\<close>

record proxy_args =
  pa_registry :: "string option"
  pa_directory :: "string option"
  pa_api_key :: "string option"
  pa_token :: "string option"
  pa_require_attestation :: bool
  pa_tee_types :: "string list option"
  pa_units :: "string list option"
  pa_max_input :: "pyfloat option"
  pa_max_output :: "pyfloat option"
  pa_privacy_modes :: "string list option"

definition cli_registry :: "platform \<Rightarrow> (string \<Rightarrow> json_file) \<Rightarrow> proxy_args \<Rightarrow> registry res" where
  "cli_registry P files a =
     (let reg = (if falsy_text (pa_registry a) then [] else registry_load (files (the (pa_registry a)))) in
      if falsy_text (pa_directory a) then Inr reg
      else rbind (fst (file_discover P None (files (the (pa_directory a))))) (\<lambda>ps.
        Inr (foldl (\<lambda>reg p. registry_add \<lparr>base_url = d_base_url p, manifest = d_manifest p\<rparr> reg) reg ps)))"

definition given :: "string list option \<Rightarrow> string list" where
  "given xs = (case xs of None \<Rightarrow> [] | Some ys \<Rightarrow> ys)"

definition cli_policy :: "proxy_args \<Rightarrow> policy" where
  "cli_policy a = \<lparr>require_attestation = pa_require_attestation a, accepted_tee_types = given (pa_tee_types a),
     accepted_units = given (pa_units a), max_input_per_1m = pa_max_input a, max_output_per_1m = pa_max_output a,
     required_privacy_modes = given (pa_privacy_modes a), allow_providers = [], deny_providers = [], min_reputation = None\<rparr>"

definition cli_backend :: "platform \<Rightarrow> (string \<Rightarrow> json_file) \<Rightarrow> proxy_args \<Rightarrow> backend res" where
  "cli_backend P files a = rbind (cli_registry P files a) (build_backend P (Some (cli_policy a)) None (pa_token a))"

lemma added_providers:
  "e \<in> set (foldl (\<lambda>reg p. registry_add \<lparr>base_url = d_base_url p, manifest = d_manifest p\<rparr> reg) reg ps) \<Longrightarrow>
    e \<in> set reg \<or> (\<exists>p\<in>set ps. base_url e = d_base_url p \<and> manifest e = d_manifest p)"
proof (induction ps arbitrary: reg)
  case (Cons p ps)
  from Cons.IH [OF Cons.prems [simplified]] show ?case by (auto simp: registry_add_def split: if_splits)
qed simp

text \<open>What the proxy may route to: the entries of the registry file, as they stand, and verified ones of the directory.\<close>

lemma cli_registry_sources:
  assumes "cli_registry P files a = Inr reg" "e \<in> set reg"
  shows "(\<exists>f. pa_registry a = Some f \<and> e \<in> set (registry_load (files f))) \<or>
    verify_provider_manifest P (manifest e) = Inr True \<and> getn (manifest e) ''manifest_uri'' = JStr (base_url e)"
proof -
  let ?reg = "if falsy_text (pa_registry a) then [] else registry_load (files (the (pa_registry a)))"
  have listed: "\<exists>f. pa_registry a = Some f \<and> e \<in> set (registry_load (files f))" if "e \<in> set ?reg"
    using that by (auto simp: falsy_text_def split: if_splits)
  show ?thesis
  proof (cases "falsy_text (pa_directory a)")
    case True
    then show ?thesis using assms listed by (simp add: cli_registry_def)
  next
    case False
    then obtain ps where ps: "discover_among P None (map (entry_manifest \<circ> snd) (load_raw (files (the (pa_directory a))))) = Inr ps"
      "reg = foldl (\<lambda>reg p. registry_add \<lparr>base_url = d_base_url p, manifest = d_manifest p\<rparr> reg) ?reg ps"
      using assms(1) by (auto simp: cli_registry_def file_discover_def rbind_eq_Inr Let_def)
    have "trusted P p" if "p \<in> set ps" for p
      using discover_among_found [OF ps(1)] dedupe_result(1) that by blast
    then show ?thesis using added_providers [OF assms(2) [unfolded ps(2)]] listed by (auto simp: trusted_def)
  qed
qed

text \<open>From the command line to the answer: a plain reply of the proxy comes from a provider of the registry file or a verified
  one of the directory, which the flags permit, with its signed receipt over the content.\<close>

theorem cli_proxy_proven:
  assumes "cli_backend P files a = Inr be"
    and "proxy_chat P E (pa_api_key a) 512 be rid fresh created header r \<lparr>world = w, purse = None\<rparr> = (Inr (Reply 200 v), t)"
  shows "authorized (pa_api_key a) header \<and> (\<exists>e d said receipt.
    ((\<exists>f. pa_registry a = Some f \<and> e \<in> set (registry_load (files f))) \<or>
      verify_provider_manifest P (manifest e) = Inr True \<and> getn (manifest e) ''manifest_uri'' = JStr (base_url e)) \<and>
    permits P (cli_policy a) (manifest e) None = Inr d \<and> permitted d \<and>
    extract_content v = Some said \<and> receipt_proves P e said (JObj receipt))"
proof -
  obtain reg where reg: "cli_registry P files a = Inr reg" "build_backend P (Some (cli_policy a)) None (pa_token a) reg = Inr be"
    using assms(1) by (auto simp: cli_backend_def rbind_eq_Inr)
  obtain es where es: "filter_entries P (cli_policy a) manifest None reg = Inr es" "be_registry be = es"
    using reg(2) by (auto simp: build_backend_def rbind_eq_Inr registry_adds)
  obtain e said receipt where e: "authorized (pa_api_key a) header" "e \<in> set es" "extract_content v = Some said" "receipt_proves P e said (JObj receipt)"
    using proxied_receipt [OF assms(2)] unfolding es(2) by metis
  obtain d where d: "e \<in> set reg" "permits P (cli_policy a) (manifest e) (score_for None (manifest e)) = Inr d" "permitted d"
    using e(2) unfolding filter_entries_eq [OF es(1)] by auto
  have "score_for None (manifest e) = None" by (simp add: score_for_def)
  with d e cli_registry_sources [OF reg(1) d(1)] show ?thesis by metis
qed

subsection \<open>The commands that report\<close>

text \<open>What a command prints: a document dumped as JSON, a text, or a table with its title, its columns and its rows.\<close>

datatype report =
    Dump_profile hardware_profile
  | Dump_recommendations "recommendation list"
  | Plain string
  | Table string "string list" "string list list"

definition cmd_scan :: "string \<Rightarrow> bool \<Rightarrow> hardware_profile \<Rightarrow> int \<times> report" where
  "cmd_scan dash as_json p = (0, if as_json then Dump_profile p else Plain (render dash p))"

text \<open>\<^verbatim>\<open>recommend\<close> gives every recommendation a prediction; the question mark of a missing one is never shown.\<close>

definition recommend_row :: "recommendation \<Rightarrow> string list" where
  "recommend_row r = [display_name (rc_model r), rc_runtime r, rc_quant r, str_of_int (rc_context r),
     if rc_fits r then ''yes'' else ''no'', fmt_fixed 0 (predicted_tps r), rc_why r]"

definition cmd_recommend :: "catalog_model list \<Rightarrow> hardware_profile \<Rightarrow> string \<Rightarrow> bool \<Rightarrow> int \<Rightarrow> bool \<Rightarrow> (int \<times> report) res" where
  "cmd_recommend models p task commercial n as_json =
     rbind (recommend models p task commercial ''balanced'' n) (\<lambda>rs. Inr (0,
       if as_json then Dump_recommendations rs
       else if rs = [] then Plain (''No catalog models serve the task '' @ repr_str task @ ''.'')
       else Table (''Recommendations for '' @ repr_str task) [''Model'', ''Runtime'', ''Quant'', ''Ctx'', ''Fits'', ''~tok/s'', ''Why'']
         (map recommend_row rs)))"

definition cmd_status :: "string \<Rightarrow> 'f factories \<Rightarrow> int \<times> report" where
  "cmd_status version reg = (0, Table ''Sovereign Inference Node'' [''Component'', ''Value'']
     [[''sin-cli version'', version],
      [''registered adapters'', if join '', '' (adapter_names reg) = [] then ''none'' else join '', '' (adapter_names reg)]])"

definition cmd_version :: "string \<Rightarrow> int \<times> report" where
  "cmd_version version = (0, Plain (''sin '' @ version))"

end
