(* ===== verification/Canon.thy ===== *)
theory Canon
  imports Share
begin

text \<open>
  Canonical JSON does not see the order in which the members of an object are written (\<^verbatim>\<open>sip_protocol/canonical.py\<close>),
  so a signature survives every store that rewrites it: the directory file, written with \<^verbatim>\<open>sort_keys=True\<close>, is one.
\<close>

subsection \<open>The same document in another order\<close>

inductive reordered :: "json \<Rightarrow> json \<Rightarrow> bool" where
  same: "reordered v v"
| arrays: "list_all2 reordered xs ys \<Longrightarrow> reordered (JArr xs) (JArr ys)"
| objects: "list_all2 (\<lambda>p q. fst p = fst q \<and> reordered (snd p) (snd q)) d e \<Longrightarrow> mset e = mset d' \<Longrightarrow> distinct (map fst d) \<Longrightarrow>
    reordered (JObj d) (JObj d')"
monos list_all2_mono

inductive_cases reordered_objects: "reordered (JObj d) w"

text \<open>A sorted list is determined by its elements where the order tells them apart.\<close>

lemma sorted_determined:
  assumes "sorted_wrt le xs" "sorted_wrt le ys" "mset xs = mset ys"
    and "\<And>x y. x \<in> set xs \<Longrightarrow> y \<in> set xs \<Longrightarrow> le x y \<Longrightarrow> le y x \<Longrightarrow> x = y"
  shows "xs = ys"
  using assms
proof (induction xs arbitrary: ys)
  case (Cons x xs)
  then obtain y ys' where ys: "ys = y # ys'" by (cases ys) auto
  have sets: "set (x # xs) = set (y # ys')" using Cons.prems(3) ys by (metis set_mset_mset)
  have "x = y"
  proof (rule ccontr)
    assume "x \<noteq> y"
    then have "x \<in> set ys'" "y \<in> set xs" using sets by auto
    then have "le y x" "le x y" using Cons.prems(1,2) ys by auto
    with Cons.prems(4) [of x y] \<open>y \<in> set xs\<close> \<open>x \<noteq> y\<close> show False by simp
  qed
  moreover from this have "xs = ys'" using Cons.prems ys by (intro Cons.IH) auto
  ultimately show ?case using ys by simp
qed simp

lemma isort_keys_determined:
  assumes "mset d = mset (d' :: (string \<times> 'v) list)" "distinct (map fst d)"
  shows "isort_by key_le d = isort_by key_le d'"
proof (rule sorted_determined [where le = key_le])
  fix p q assume "p \<in> set (isort_by key_le d)" "q \<in> set (isort_by key_le d)" "key_le p q" "key_le q p"
  then have "p \<in> set d" "q \<in> set d" "fst p = fst q" by (auto simp: key_le_def intro: str_le_antisym)
  with assms(2) show "p = q" by (metis eq_key_imp_eq_value prod.collapse)
qed (use assms(1) in \<open>simp_all add: key_order.sorted_isort\<close>)

lemma insort_related:
  assumes "list_all2 R xs ys" "R x y" "\<And>p q. R p q \<Longrightarrow> fst p = fst q"
  shows "list_all2 R (insort_by key_le x xs) (insort_by key_le y ys)"
  using assms(1)
proof (induction rule: list_all2_induct)
  case (Cons p ps q qs)
  have "key_le x p = key_le y q" using assms(2,3) Cons(1) by (simp add: key_le_def)
  with Cons assms(2) show ?case by simp
qed (use assms(2) in simp)

lemma isort_related:
  assumes "list_all2 R d e" "\<And>p q. R p q \<Longrightarrow> fst p = fst q"
  shows "list_all2 R (isort_by key_le d) (isort_by key_le e)"
  using assms(1) by (induction rule: list_all2_induct) (simp_all add: insort_related assms(2))

lemma rmap_related: "list_all2 (\<lambda>x y. f x = g y) xs ys \<Longrightarrow> rmap f xs = rmap g ys"
  by (induction rule: list_all2_induct) simp_all

lemma reordered_text: "reordered v w \<Longrightarrow> json_text v = json_text w"
proof (induction rule: reordered.induct)
  case (arrays xs ys)
  then have "rmap json_text xs = rmap json_text ys" by (intro rmap_related) (auto elim: list_all2_mono)
  then show ?case by simp
next
  case (objects d e d')
  let ?f = "\<lambda>(k, v). rbind (json_text v) (\<lambda>t. Inr (json_string k @ CHR '':'' # t))"
  let ?R = "\<lambda>p q. fst p = fst q \<and> json_text (snd p) = json_text (snd q)"
  have r: "list_all2 ?R d e" using objects(1) by (rule list_all2_mono) auto
  have "map fst e = map fst d" using r by (induction rule: list_all2_induct) simp_all
  then have s: "isort_by key_le e = isort_by key_le d'" using objects by (intro isort_keys_determined) simp_all
  have "list_all2 ?R (isort_by key_le d) (isort_by key_le e)" using r by (rule isort_related) auto
  then have "list_all2 (\<lambda>p q. ?f p = ?f q) (isort_by key_le d) (isort_by key_le e)"
    by (rule list_all2_mono) (auto simp: split_beta)
  then have "rmap ?f (isort_by key_le d) = rmap ?f (isort_by key_le e)" by (rule rmap_related)
  with s show ?case by simp
qed simp


text \<open>An object in another order holds, under each key, the same value in another order.\<close>

lemma related_without:
  "list_all2 (\<lambda>p q. fst p = fst q \<and> R (snd p) (snd q)) d e \<Longrightarrow>
    list_all2 (\<lambda>p q. fst p = fst q \<and> R (snd p) (snd q)) (dict_without k d) (dict_without k e)"
  by (induction rule: list_all2_induct) (auto simp: dict_without_def split_beta)

lemma related_get:
  "list_all2 (\<lambda>p q. fst p = fst q \<and> R (snd p) (snd q)) d e \<Longrightarrow> rel_option R (dict_get d k) (dict_get e k)"
  by (induction rule: list_all2_induct) (auto split: prod.splits)

lemma related_keys: "list_all2 (\<lambda>p q. fst p = fst q \<and> R (snd p) (snd q)) d e \<Longrightarrow> map fst e = map fst d"
  by (induction rule: list_all2_induct) simp_all

lemma reordered_objectsD:
  assumes "reordered (JObj d) (JObj d')"
  shows "d' = d \<or> (\<exists>e. list_all2 (\<lambda>p q. fst p = fst q \<and> reordered (snd p) (snd q)) d e \<and> mset e = mset d' \<and> distinct (map fst d))"
  using assms by (auto elim: reordered_objects)

lemma reordered_member:
  assumes "reordered (JObj d) (JObj d')"
  shows "rel_option reordered (dict_get d k) (dict_get d' k)"
  using reordered_objectsD [OF assms]
proof
  assume "\<exists>e. list_all2 (\<lambda>p q. fst p = fst q \<and> reordered (snd p) (snd q)) d e \<and> mset e = mset d' \<and> distinct (map fst d)"
  then obtain e where e: "list_all2 (\<lambda>p q. fst p = fst q \<and> reordered (snd p) (snd q)) d e" "mset e = mset d'" "distinct (map fst d)"
    by blast
  then have "distinct (map fst e)" by (simp add: related_keys)
  with e(2) have "map_of e = map_of d'"
    by (metis map_of_inject_set mset_eq_imp_distinct_iff mset_eq_setD mset_map)
  then show ?thesis using related_get [OF e(1), of k] by simp
qed (simp add: option.rel_refl reordered.same)

lemma reordered_without:
  assumes "reordered (JObj d) (JObj d')"
  shows "reordered (JObj (dict_without k d)) (JObj (dict_without k d'))"
  using reordered_objectsD [OF assms]
proof
  assume "\<exists>e. list_all2 (\<lambda>p q. fst p = fst q \<and> reordered (snd p) (snd q)) d e \<and> mset e = mset d' \<and> distinct (map fst d)"
  then obtain e where "list_all2 (\<lambda>p q. fst p = fst q \<and> reordered (snd p) (snd q)) d e" "mset e = mset d'" "distinct (map fst d)"
    by blast
  then show ?thesis
    by (intro reordered.objects [where e = "dict_without k e"] related_without distinct_dict_without)
      (simp_all add: dict_without_def)
qed (simp add: reordered.same)

lemma reordered_str: "reordered v w \<Longrightarrow> the_str w = the_str v"
  by (cases v) (auto elim: reordered.cases)

lemma reordered_getn_str: "reordered (JObj d) (JObj d') \<Longrightarrow> the_str (getn d' k) = the_str (getn d k)"
  using reordered_member [of d d' k] by (auto simp: getn_def reordered_str split: option.splits)

lemma signing_bytes_reordered:
  "reordered (JObj d) (JObj d') \<Longrightarrow> signing_bytes k d' = signing_bytes k d"
  by (simp only: signing_bytes_def canonical_json_def reordered_text [OF reordered_without])

lemma verify_document_the_str:
  "verify_document P f d = (case (the_str (getn d f), the_str (getn d ''signature'')) of
     (Some pk, Some sg) \<Rightarrow> rbind (signing_bytes ''signature'' d) (\<lambda>bs. Inr (verify_message P pk bs sg)) | _ \<Rightarrow> Inr False)"
  by (simp add: verify_document_def split: json.splits)

text \<open>The order in which members are written does not matter to a signature.\<close>

lemma signature_ignores_order:
  assumes "reordered (JObj d) (JObj d')"
  shows "verify_document P f d' = verify_document P f d"
  by (simp only: verify_document_the_str reordered_getn_str [OF assms] signing_bytes_reordered [OF assms])


subsection \<open>What the directory file keeps\<close>

text \<open>No object of the value has two members of the same name: a Python \<^verbatim>\<open>dict\<close> has none.\<close>

fun plain_dicts :: "json \<Rightarrow> bool" where
  "plain_dicts (JArr xs) = list_all plain_dicts xs"
| "plain_dicts (JObj d) = (distinct (map fst d) \<and> list_all (\<lambda>(k, v). plain_dicts v) d)"
| "plain_dicts v = True"

lemma sort_keys_reorders: "plain_dicts v \<Longrightarrow> reordered v (sort_keys v)"
proof (induction v rule: plain_dicts.induct)
  case (1 xs)
  then have "list_all2 reordered xs (map sort_keys xs)"
    unfolding list_all2_map2 by (intro list.rel_refl_strong) (simp add: list_all_iff)
  then show ?case by (simp add: reordered.arrays)
next
  case (2 d)
  then have "list_all2 (\<lambda>p q. fst p = fst q \<and> reordered (snd p) (snd q)) d (map (\<lambda>(k, v). (k, sort_keys v)) d)"
    unfolding list_all2_map2 by (intro list.rel_refl_strong) (force simp: list_all_iff)
  then show ?case using 2 by (simp add: reordered.objects)
qed (simp_all add: reordered.same)

lemma reordered_sorted: "plain_dicts (JObj m) \<Longrightarrow> \<exists>m'. sort_keys (JObj m) = JObj m' \<and> reordered (JObj m) (JObj m')"
  using sort_keys_reorders [of "JObj m"] by simp

lemma plain_sort_keys: "plain_dicts v \<Longrightarrow> plain_dicts (sort_keys v)"
proof (induction v rule: plain_dicts.induct)
  case (2 d)
  let ?e = "map (\<lambda>(k, v). (k, sort_keys v)) d"
  have "map fst ?e = map fst d" by (simp add: split_def)
  then have "distinct (map fst ?e)" using 2(2) by (metis plain_dicts.simps(2))
  moreover have "list_all (\<lambda>(k, v). plain_dicts v) (isort_by key_le ?e)" using 2 by (force simp: list_all_iff)
  ultimately show ?case by (simp add: distinct_sorted)
qed (auto simp: list_all_iff)

text \<open>A JSON schema does not see the order of members either.\<close>

definition schema_unordered :: "platform \<Rightarrow> bool" where
  "schema_unordered P \<longleftrightarrow> (\<forall>name d d'. reordered (JObj d) (JObj d') \<longrightarrow> schema_accepts P name d' = schema_accepts P name d)"

lemma verified_reordered:
  assumes "schema_unordered P" "reordered (JObj m) (JObj m')" "verify_provider_manifest P m = Inr True"
  shows "verify_provider_manifest P m' = Inr True"
proof -
  have "verify_document P ''provider_pubkey'' m' = verify_document P ''provider_pubkey'' m" by (rule signature_ignores_order [OF assms(2)])
  then show ?thesis using assms by (simp add: verify_provider_manifest_def verify_checked_True schema_unordered_def)
qed

lemma reordered_str_same: "reordered (JStr s) w \<Longrightarrow> w = JStr s"
  using reordered_str [of "JStr s" w] by (cases w) simp_all

lemma reordered_strs_same: "list_all2 reordered (map JStr ms) ys \<Longrightarrow> ys = map JStr ms"
  by (induction ms arbitrary: ys) (auto simp: list_all2_Cons1 dest: reordered_str_same)

inductive_cases reordered_arrays: "reordered (JArr xs) w"

lemma reordered_array: "reordered (JArr (map JStr ms)) w \<Longrightarrow> w = JArr (map JStr ms)"
  by (auto elim!: reordered_arrays dest: reordered_strs_same)

text \<open>
  What a directory file holds that only announcements have written: under each key one manifest, verified, of the
  provider with that key, with an address and its models.
\<close>

definition listing :: "platform \<Rightarrow> string \<Rightarrow> dict \<Rightarrow> bool" where
  "listing P k m \<longleftrightarrow> plain_dicts (JObj m) \<and> verify_provider_manifest P m = Inr True \<and> getn m ''provider_pubkey'' = JStr k \<and>
     (\<exists>uri. getn m ''manifest_uri'' = JStr uri \<and> uri \<noteq> []) \<and> (\<exists>ms. getn m ''models'' = JArr (map JStr ms))"

definition announced_file :: "platform \<Rightarrow> json_file \<Rightarrow> bool" where
  "announced_file P file \<longleftrightarrow> distinct (map fst (load_raw file)) \<and>
     (\<forall>k e. dict_get (load_raw file) k = Some e \<longrightarrow> (\<exists>m. e = JObj [(''manifest'', JObj m)] \<and> listing P k m))"

lemma no_file_announced: "announced_file P None"
  by (simp add: announced_file_def load_raw_def)

lemma reordered_getn: "reordered (JObj d) (JObj d') \<Longrightarrow> reordered (getn d k) (getn d' k)"
  using reordered_member [of d d' k] by (auto simp: getn_def reordered.same split: option.splits)

lemma listing_sorted:
  assumes "schema_unordered P" "listing P k m"
  shows "\<exists>m'. sort_keys (JObj m) = JObj m' \<and> reordered (JObj m) (JObj m') \<and> listing P k m'"
proof -
  obtain m' where m': "sort_keys (JObj m) = JObj m'" "reordered (JObj m) (JObj m')"
    using assms(2) reordered_sorted by (metis listing_def)
  note str = reordered_getn_str [OF m'(2)]
  have "the_str v = Some s \<longleftrightarrow> v = JStr s" for v s by (cases v) simp_all
  then have "getn m' x = JStr s \<longleftrightarrow> getn m x = JStr s" for x s using str by metis
  moreover have "plain_dicts (JObj m')" using plain_sort_keys assms(2) m'(1) by (metis listing_def)
  moreover have "verify_provider_manifest P m' = Inr True"
    using assms m'(2) by (auto simp: listing_def intro: verified_reordered)
  moreover have "\<exists>ms. getn m' ''models'' = JArr (map JStr ms)"
    using assms(2) reordered_getn [OF m'(2)] reordered_array by (metis listing_def)
  ultimately have "listing P k m'" using assms(2) by (simp add: listing_def)
  with m' show ?thesis by blast
qed

lemma announce_keeps_file:
  assumes "file_announce P m url file = (Inr key, file')" "announced_file P file" "schema_unordered P" "listing P k m"
  shows "key = k \<and> announced_file P file' \<and> (\<exists>m'. dict_get (load_raw file') key = Some (JObj [(''manifest'', JObj m')]) \<and> reordered (JObj m) (JObj m'))"
proof -
  let ?rows = "dict_set key (JObj [(''manifest'', JObj m)]) (load_raw file)"
  have "getn m ''provider_pubkey'' = JStr k" using assms(4) by (simp add: listing_def)
  then have "getitem m ''provider_pubkey'' = Inr (JStr k)" by (simp add: getn_def getitem_def split: option.splits)
  then have key: "key = k" and file': "file' = write_raw ?rows"
    using assms(1) by (auto simp: file_announce_def split: sum.splits) (auto simp: rbind_eq_Inr)
  have d: "distinct (map fst ?rows)" using assms(2) by (simp add: announced_file_def distinct_update)
  have row: "dict_get (load_raw file') x = map_option sort_keys (dict_get ?rows x)" for x
    unfolding file' by (rule load_write(1) [OF d])
  have wrap: "sort_keys (JObj [(''manifest'', v)]) = JObj [(''manifest'', sort_keys v)]" for v by simp
  have sorted: "\<exists>n'. sort_keys (JObj [(''manifest'', JObj n)]) = JObj [(''manifest'', JObj n')] \<and> reordered (JObj n) (JObj n') \<and> listing P x n'"
    if "listing P x n" for x n
    using listing_sorted [OF assms(3) that] unfolding wrap by metis
  have "announced_file P file'" unfolding announced_file_def
  proof (intro conjI allI impI)
    show "distinct (map fst (load_raw file'))" unfolding file' by (rule load_write(2) [OF d])
  next
    fix x e assume "dict_get (load_raw file') x = Some e"
    then obtain e0 where e0: "dict_get ?rows x = Some e0" "e = sort_keys e0" unfolding row by auto
    have "\<exists>n. e0 = JObj [(''manifest'', JObj n)] \<and> listing P x n"
      using e0(1) assms(2,4) key by (auto simp: announced_file_def dict_simps split: if_splits)
    then show "\<exists>n. e = JObj [(''manifest'', JObj n)] \<and> listing P x n" using sorted e0(2) by metis
  qed
  moreover have "dict_get (load_raw file') key = Some (sort_keys (JObj [(''manifest'', JObj m)]))" unfolding row by (simp add: dict_simps)
  ultimately show ?thesis using sorted [OF assms(4)] key by metis
qed


text \<open>Every row of such a file is a provider, and no two share a key.\<close>

definition row_provider :: "dict \<Rightarrow> discovered" where
  "row_provider m = \<lparr>d_base_url = (case the_str (getn m ''manifest_uri'') of None \<Rightarrow> [] | Some uri \<Rightarrow> uri), d_manifest = m\<rparr>"

lemma listing_admitted:
  assumes "listing P k m"
  shows "admit P (JObj m) = Inr (Some (row_provider m))" "d_pubkey (row_provider m) = Inr k"
    "\<exists>ms. getn m ''models'' = JArr (map JStr ms) \<and> (\<forall>model. serves (row_provider m) model = Inr (model \<in> set ms))"
proof -
  show "admit P (JObj m) = Inr (Some (row_provider m))" using assms by (auto simp: admit_def listing_def row_provider_def)
  have "getn m ''provider_pubkey'' = JStr k" using assms by (simp add: listing_def)
  then show "d_pubkey (row_provider m) = Inr k"
    by (simp add: d_pubkey_def row_provider_def getn_def getitem_def split: option.splits)
  obtain ms where ms: "getn m ''models'' = JArr (map JStr ms)" using assms by (auto simp: listing_def)
  then have "get_or m ''models'' (JArr []) = JArr (map JStr ms)" by (simp add: getn_def get_or_def split: option.splits)
  then have "serves (row_provider m) model = Inr (model \<in> set ms)" for model
    by (auto simp: serves_def d_models_def row_provider_def)
  with ms show "\<exists>ms. getn m ''models'' = JArr (map JStr ms) \<and> (\<forall>model. serves (row_provider m) model = Inr (model \<in> set ms))" by blast
qed

text \<open>Providers with different keys are all kept, in their order.\<close>

lemma dict_set_new: "dict_get fr k = None \<Longrightarrow> dict_set k p fr = fr @ [(k, p)]"
  by (induction fr) (auto split: if_splits)

lemma dedupe_distinct:
  assumes "list_all2 (\<lambda>k p. d_pubkey p = Inr k) ks ps" "distinct (map fst fr @ ks)"
    and "\<forall>p\<in>set ps. \<exists>w. (case model of None \<Rightarrow> Inr True | Some m \<Rightarrow> serves p m) = Inr w"
  shows "\<exists>fr'. rfold (keep_freshest model) ps fr = Inr fr' \<and> map snd fr' = map snd fr @ filter (wanted model) ps"
  using assms
proof (induction ks ps arbitrary: fr rule: list_all2_induct)
  case (Cons k ks p ps)
  obtain w where w: "(case model of None \<Rightarrow> Inr True | Some m \<Rightarrow> serves p m) = Inr w" using Cons.prems(2) by auto
  then have want: "wanted model p \<longleftrightarrow> w" by (auto simp: wanted_def split: option.splits)
  have new: "dict_get fr k = None" using Cons.prems(1) by (auto simp: map_of_eq_None_iff)
  let ?fr = "if w then fr @ [(k, p)] else fr"
  have step: "keep_freshest model p fr = Inr ?fr"
    using w Cons(1) new by (simp add: keep_freshest_def dict_set_new)
  have "distinct (map fst ?fr @ ks)" using Cons.prems(1) by auto
  from Cons.IH [OF this] Cons.prems(2) obtain fr' where "rfold (keep_freshest model) ps ?fr = Inr fr'"
    "map snd fr' = map snd ?fr @ filter (wanted model) ps" by auto
  then show ?case using step want by auto
qed simp

lemma rmap_mapped: "rmap f (map g xs) = rmap (f \<circ> g) xs"
  by (induction xs) simp_all

definition row_of :: "json \<Rightarrow> discovered" where
  "row_of e = row_provider (case the_obj (entry_manifest e) of None \<Rightarrow> [] | Some m \<Rightarrow> m)"

lemma announced_file_listing:
  assumes "announced_file P file" "(k, e) \<in> set (load_raw file)"
  shows "\<exists>m. e = JObj [(''manifest'', JObj m)] \<and> listing P k m \<and> row_of e = row_provider m \<and> entry_manifest e = JObj m"
proof -
  have "dict_get (load_raw file) k = Some e" using assms by (simp add: announced_file_def)
  then show ?thesis using assms(1) by (force simp: announced_file_def row_of_def entry_manifest_def getn_def)
qed

lemma announced_file_discovered:
  assumes "announced_file P file"
  shows "file_discover P model file = (Inr (filter (wanted model) (map (row_of \<circ> snd) (load_raw file))), file)"
proof -
  let ?rows = "load_raw file"
  let ?ps = "map (row_of \<circ> snd) ?rows"
  have "admit P ((entry_manifest \<circ> snd) r) = Inr (Some ((row_of \<circ> snd) r))" if "r \<in> set ?rows" for r
    using announced_file_listing [OF assms, of "fst r" "snd r"] listing_admitted(1) that by fastforce
  then have "rmap (admit P) (map (entry_manifest \<circ> snd) ?rows) = Inr (map Some ?ps)"
    using rmap_all_Inr [of ?rows "admit P \<circ> (entry_manifest \<circ> snd)" "Some \<circ> (row_of \<circ> snd)"] by (simp add: rmap_mapped)
  then have all: "admit_all P (map (entry_manifest \<circ> snd) ?rows) = Inr ?ps"
    by (simp add: admit_all_def List.map_filter_def filter_map comp_def)
  have "list_all2 (\<lambda>k p. d_pubkey p = Inr k) (map fst ?rows) ?ps"
    unfolding list_all2_map1 list_all2_map2 using announced_file_listing [OF assms] listing_admitted(2)
    by (intro list.rel_refl_strong) fastforce
  moreover have "\<exists>w. (case model of None \<Rightarrow> Inr True | Some m \<Rightarrow> serves p m) = Inr w" if p: "p \<in> set ?ps" for p
  proof -
    obtain k e where "(k, e) \<in> set ?rows" "p = row_of e" using p by auto
    with announced_file_listing [OF assms] listing_admitted(3) show ?thesis by (fastforce split: option.splits)
  qed
  moreover have "distinct (map fst ([] :: (string \<times> discovered) list) @ map fst ?rows)" using assms by (simp add: announced_file_def)
  ultimately obtain fr where "rfold (keep_freshest model) ?ps [] = Inr fr" "map snd fr = filter (wanted model) ?ps"
    using dedupe_distinct [of "map fst ?rows" ?ps "[]" model] by auto
  then show ?thesis by (simp add: file_discover_def discover_among_def all filter_and_dedupe_def)
qed

lemma reordered_same_models:
  assumes "reordered (JObj m) (JObj m')" "listing P k m" "listing Q k' m'"
  shows "wanted model (row_provider m') = wanted model (row_provider m)" "d_base_url (row_provider m') = d_base_url (row_provider m)"
proof -
  obtain ms where ms: "getn m ''models'' = JArr (map JStr ms)" "\<And>model. serves (row_provider m) model = Inr (model \<in> set ms)"
    using listing_admitted(3) [OF assms(2)] by blast
  obtain ms' where ms': "getn m' ''models'' = JArr (map JStr ms')" "\<And>model. serves (row_provider m') model = Inr (model \<in> set ms')"
    using listing_admitted(3) [OF assms(3)] by blast
  have "JArr (map JStr ms') = JArr (map JStr ms)" using reordered_getn [OF assms(1), of "''models''"] ms(1) ms'(1) reordered_array by metis
  then have "set ms' = set ms" by (auto dest!: map_injective simp: inj_def)
  then show "wanted model (row_provider m') = wanted model (row_provider m)" using ms(2) ms'(2) by (simp add: wanted_def split: option.splits)
  show "d_base_url (row_provider m') = d_base_url (row_provider m)"
    by (simp add: row_provider_def reordered_getn_str [OF assms(1)])
qed

lemma row_provider_manifest [simp]: "d_manifest (row_provider m) = m"
  by (simp add: row_provider_def)

definition listed :: "string option \<Rightarrow> json_file \<Rightarrow> discovered list" where
  "listed model file = filter (wanted model) (map (row_of \<circ> snd) (load_raw file))"

lemma row_listed:
  assumes "announced_file P file" "dict_get (load_raw file) x = Some (JObj [(''manifest'', JObj n')])" "reordered (JObj n) (JObj n')"
    and "listing P x n" "wanted model (row_provider n)"
  shows "row_provider n' \<in> set (listed model file)" "d_base_url (row_provider n') = d_base_url (row_provider n)"
proof -
  have mem: "(x, JObj [(''manifest'', JObj n')]) \<in> set (load_raw file)" using assms(2) by (rule map_of_SomeD)
  from announced_file_listing [OF assms(1) this] have l: "listing P x n'" "row_of (JObj [(''manifest'', JObj n')]) = row_provider n'" by auto
  show "d_base_url (row_provider n') = d_base_url (row_provider n)" by (rule reordered_same_models(2) [OF assms(3,4) l(1)])
  have "wanted model (row_provider n')" using reordered_same_models(1) [OF assms(3,4) l(1)] assms(5) by simp
  with mem l(2) show "row_provider n' \<in> set (listed model file)" unfolding listed_def by force
qed

lemma others_listed:
  assumes "file_announce P m url file = (Inr key, file')" "announced_file P file" "announced_file P file'" "schema_unordered P"
    and "q \<in> set (listed model file)" "d_pubkey q \<noteq> Inr key"
  shows "\<exists>p\<in>set (listed model file'). d_base_url p = d_base_url q \<and> reordered (JObj (d_manifest q)) (JObj (d_manifest p))"
proof -
  from assms(5) obtain x e where e: "(x, e) \<in> set (load_raw file)" "q = row_of e" "wanted model q" by (auto simp: listed_def)
  from announced_file_listing [OF assms(2) e(1)] e(2)
  obtain n where n: "e = JObj [(''manifest'', JObj n)]" "listing P x n" "q = row_provider n" by auto
  have x: "x \<noteq> key" using listing_admitted(2) [OF n(2)] n(3) assms(6) by auto
  have d: "distinct (map fst (load_raw file))" using assms(2) by (simp add: announced_file_def)
  with e(1) have "dict_get (load_raw file) x = Some e" by simp
  with announced_row [OF assms(1) d, of x] x have row: "dict_get (load_raw file') x = Some (sort_keys e)" by simp
  from listing_sorted [OF assms(4) n(2)] obtain n' where n': "sort_keys (JObj n) = JObj n'" "reordered (JObj n) (JObj n')" by blast
  have "sort_keys e = JObj [(''manifest'', sort_keys (JObj n))]" by (simp add: n(1))
  with row n'(1) have "dict_get (load_raw file') x = Some (JObj [(''manifest'', JObj n')])" by metis
  from row_listed [OF assms(3) this n'(2) n(2)] e(3) n'(2) show ?thesis by (metis n(3) row_provider_manifest)
qed

text \<open>C20. A node is on the map once it has announced itself: on a directory file that only announcements have written,
  announcing leaves such a file, discovery then finds the node for each of its models, at its signed address and with
  the manifest it signed up to the order of members (which no signature and no schema sees), and still finds every other
  provider it found before.\<close>

theorem announced_is_discovered:
  assumes "file_announce P m url file = (Inr key, file')" "announced_file P file" "schema_unordered P"
    and "plain_dicts (JObj m)" "getn m ''provider_pubkey'' = JStr k" "getn m ''models'' = JArr (map JStr ms)" "model \<in> set ms"
  shows "announced_file P file' \<and> (\<exists>qs ps. file_discover P (Some model) file = (Inr qs, file) \<and> file_discover P (Some model) file' = (Inr ps, file') \<and>
    (\<exists>p\<in>set ps. reordered (JObj m) (JObj (d_manifest p)) \<and> JStr (d_base_url p) = getn m ''manifest_uri'') \<and>
    (\<forall>q\<in>set qs. d_pubkey q \<noteq> Inr k \<longrightarrow> (\<exists>p\<in>set ps. d_base_url p = d_base_url q \<and> reordered (JObj (d_manifest q)) (JObj (d_manifest p)))))"
proof -
  obtain uri where good: "verify_provider_manifest P m = Inr True" "getn m ''manifest_uri'' = JStr uri" "uri \<noteq> []"
    using file_dir.announce_guarded [OF assms(1)] by blast
  then have row: "listing P k m" using assms(4,5,6) by (auto simp: listing_def)
  from announce_keeps_file [OF assms(1,2,3) row] obtain m' where kept: "key = k" "announced_file P file'"
    "dict_get (load_raw file') k = Some (JObj [(''manifest'', JObj m')])" "reordered (JObj m) (JObj m')" by auto
  have "wanted (Some model) (row_provider m)"
    using listing_admitted(3) [OF row] assms(6,7) by (auto simp: wanted_def dest!: map_injective simp: inj_def)
  note new = row_listed [OF kept(2-4) row this]
  have "d_base_url (row_provider m) = uri" by (simp add: row_provider_def good(2))
  with new kept(4) good(2)
  have "\<exists>p\<in>set (listed (Some model) file'). reordered (JObj m) (JObj (d_manifest p)) \<and> JStr (d_base_url p) = getn m ''manifest_uri''"
    by (intro bexI [of _ "row_provider m'"]) simp_all
  moreover have "file_discover P (Some model) f = (Inr (listed (Some model) f), f)" if "announced_file P f" for f
    unfolding listed_def using that by (rule announced_file_discovered)
  ultimately show ?thesis
    using others_listed [OF assms(1,2) kept(2) assms(3)] assms(2) kept(1,2) by blast
qed

lemma demo_schema_unordered: "schema_unordered demo"
  unfolding schema_unordered_def
proof (intro allI impI)
  fix name d d' assume r: "reordered (JObj d) (JObj d')"
  have "dict_get d' k = None \<longleftrightarrow> dict_get d k = None" for k using reordered_member [OF r, of k] by (cases rule: option.rel_cases) auto
  then show "schema_accepts demo name d' = schema_accepts demo name d"
    by (simp add: schema_accepts_def iter_errors_def demo_def demo_validator_def)
qed

lemma plain_set: "list_all (\<lambda>(k, v). plain_dicts v) d \<Longrightarrow> plain_dicts v \<Longrightarrow> list_all (\<lambda>(k, v). plain_dicts v) (dict_set k v d)"
  by (induction d) auto

lemma plain_signed: "sign_document P d kp = Inr d' \<Longrightarrow> plain_dicts (JObj d) \<Longrightarrow> plain_dicts (JObj d')"
  by (auto simp: sign_document_def Let_def rbind_eq_Inr distinct_update distinct_dict_without intro!: plain_set)
    (auto simp: dict_without_def list_all_iff)

lemma announced_is_discovered_witness:
  "\<exists>file' p. file_announce demo (demo_manifest ''1'') None None = (Inr (public_key_str demo (demo_key 3)), file') \<and>
     (\<exists>ps. file_discover demo (Some ''m'') file' = (Inr ps, file') \<and> p \<in> set ps \<and> d_base_url p = ''http://u'')"
proof -
  obtain file' where ann: "file_announce demo (demo_manifest ''1'') None None = (Inr (public_key_str demo (demo_key 3)), file')"
    by (simp add: file_announce_def announceable_def require_verified_def demo_manifest_verified signed_endpoint_def demo_manifest_fields)
  have plain: "plain_dicts (JObj (demo_manifest ''1''))"
    by (rule plain_signed [OF demo_manifest_signed]) (simp add: demo_draft_def)
  have f: "getn (demo_manifest ''1'') ''provider_pubkey'' = JStr (public_key_str demo (demo_key 3))"
    "getn (demo_manifest ''1'') ''models'' = JArr (map JStr [''m''])"
    by (simp_all add: getn_def demo_manifest_get demo_draft_def)
  from announced_is_discovered [OF ann no_file_announced demo_schema_unordered plain f, of "''m''"] ann
  show ?thesis by (auto simp: demo_manifest_fields)
qed

end
