(* ===== verification/Open.thy ===== *)
theory Open
  imports Mesh
begin

text \<open>
  A free gateway serves whoever finds it. The client of \<^verbatim>\<open>sip_router\<close> on a network where some sites are gateways
  that ask for no payment, some answer that they are unavailable and some do not answer: candidates that are out of order
  are passed over in order of rank, and the first gateway answers, under its receipt.
\<close>

subsection \<open>A request that costs nothing\<close>

text \<open>What a free site answers with can be signed: its rates are numbers and the messages are JSON.\<close>

definition answerable :: "gateway_config \<Rightarrow> chat_options \<Rightarrow> chat_result \<Rightarrow> bool" where
  "answerable g c result \<longleftrightarrow> adapter_chat (gw_adapter g) (c_model c) (c_messages c) (c_max_tokens c) = Inr result \<and>
     (\<exists>price. price_amount g (input_tokens result) (output_tokens result) = Inr price)"

lemma free_receipt_total:
  assumes "list_all json_ok messages" "price_amount g (input_tokens result) (output_tokens result) = Inr price"
  shows "\<exists>receipt. chat_receipt P g rid mode model messages result None m = Inr receipt"
proof -
  obtain h where "hash_request P (JStr model) (JArr messages) = Inr h" using hash_request_total [OF assms(1)] by blast
  then show ?thesis using assms(2) by (simp add: chat_receipt_def sign_receipt_def sign_document_total [OF build_receipt_ok])
qed

lemma free_served:
  assumes "sites I url = Some g" "takes_request g c" "\<not> require_payment g" "room k g (at_site (world s) url)" "1 \<le> k"
    and "answerable g c result"
  shows "\<exists>hs receipt. chat_receipt P g (c_request_id c) (c_privacy_mode c) (c_model c) (c_messages c) result None (site_clock I (moment (world s))) = Inr receipt \<and>
    room (k - 1) g ((at_site (world s) url)\<lparr>hits := hs\<rparr>) \<and>
    post_completion (mesh_outside P I) c url None s = (Inr (app_reply (chat_reply (c_request_id c) (c_model c) result receipt)),
      s\<lparr>world := later ((world s)\<lparr>at_site := (at_site (world s))(url := (at_site (world s) url)
        \<lparr>hits := hs, spent_keys := rivals I (moment (world s)) (spent_keys (at_site (world s) url))\<rparr>)\<rparr>)\<rparr>)"
proof -
  let ?r = "app_request (chat_call c None)" and ?m = "site_clock I (moment (world s))" and ?s = "at_site (world s) url"
  let ?others = "rivals I (moment (world s))"
  obtain d where d: "chat_request g ?r = Inr (d, c_model c, c_messages c, c_max_tokens c)" "sip_payment d = []"
    using chat_call_accepted [OF assms(2), of None] by auto
  obtain hs where hs: "rate_limited g (at_clock ?m) ?s = (False, ?s\<lparr>hits := hs\<rparr>)" "room (k - 1) g (?s\<lparr>hits := hs\<rparr>)"
    using room_passes [OF assms(4,5)] by blast
  obtain receipt where rc: "chat_receipt P g (c_request_id c) (c_privacy_mode c) (c_model c) (c_messages c) result None ?m = Inr receipt"
    using free_receipt_total assms(2,6) by (metis answerable_def takes_request_def)
  have "chat_completions P g ?r ?m ?others ?s = (Inr (chat_reply (c_request_id c) (c_model c) result receipt),
      ?s\<lparr>hits := hs, spent_keys := ?others (spent_keys ?s)\<rparr>)"
    using d hs assms(3,6) rc
    by (simp add: chat_completions_def chat_serve_def check_payment_def chat_finish_def commit_payment_def answerable_def chat_call_headers Let_def)
  then have "gateway_app P g ?m ?others (elsewhere I) (chat_call c None) ?s =
      (Inr (app_reply (chat_reply (c_request_id c) (c_model c) result receipt)), ?s\<lparr>hits := hs, spent_keys := ?others (spent_keys ?s)\<rparr>)"
    by (simp add: gateway_app_def chat_call_def)
  from mesh_exchange [OF assms(1) this] rc hs(2) show ?thesis by (auto simp: post_completion_call)
qed

lemma honest_receipt_trusted:
  assumes "getn (manifest e) ''provider_pubkey'' = JStr (public_key_str P (gw_keypair g))"
    and "chat_receipt P g rid mode model ms result required m = Inr receipt"
    and "ed25519_laws P" "schema_accepts P ''receipt'' receipt"
  shows "receipt_trusted P (JObj receipt) e (content result) = Inr True" "\<exists>v. verify_receipt P receipt = Inr v \<and> valid v"
    "py_or (JObj receipt) (JObj []) = JObj receipt"
proof -
  have f: "getn receipt ''provider_pubkey'' = JStr (public_key_str P (gw_keypair g))"
    "getn receipt ''response_hash'' = JStr (hash_response_body P (content result))"
    "\<exists>v. verify_receipt P receipt = Inr v \<and> valid v"
    using chat_receipt_fields [OF assms(2)] assms(3,4) by metis+
  then show "receipt_trusted P (JObj receipt) e (content result) = Inr True" "\<exists>v. verify_receipt P receipt = Inr v \<and> valid v"
    using assms(1) by (auto simp: receipt_trusted_def)
  show "py_or (JObj receipt) (JObj []) = JObj receipt" using f(1) by (auto simp: py_or_def getn_def)
qed

lemma free_judged:
  assumes "receipt_trusted P (JObj receipt) e (content result) = Inr True" "py_or (JObj receipt) (JObj []) = JObj receipt"
  shows "judge P E c e None reserved (app_reply (chat_reply rid model result receipt)) s = (Inr (Served (content result) (JObj receipt) None), s)"
  using assms reply_read [of rid model result receipt]
  by (auto simp: judge_def abind_def aret_def alift_def Let_def split: option.split)

subsection \<open>Any way of reaching the gateways\<close>

text \<open>At this address the client reaches what the network has there.\<close>

definition reaches :: "platform \<Rightarrow> internet \<Rightarrow> mesh outside \<Rightarrow> string \<Rightarrow> bool" where
  "reaches P I E url \<longleftrightarrow> network E url = mesh_network P I url"

lemma reaches_mesh [simp]: "reaches P I (mesh_outside P I) url"
  by (simp add: reaches_def mesh_outside_def)

lemma reaches_exchange: "reaches P I E url \<Longrightarrow> exchange E url = exchange (mesh_outside P I) url"
  by (simp add: fun_eq_iff exchange_def reaches_def mesh_outside_def)

text \<open>An attempt there fails with this outcome, whatever the request, and changes nothing but the moment.\<close>

definition out_of_order :: "platform \<Rightarrow> mesh outside \<Rightarrow> chat_options \<Rightarrow> provider_entry \<Rightarrow> string \<Rightarrow> bool" where
  "out_of_order P E c e outcome \<longleftrightarrow> (\<forall>s. try_candidate P E c e s = (Inr (Failed outcome), s\<lparr>world := later (world s)\<rparr>))"

lemma unavailable_out_of_order:
  assumes "\<And>call w. network E (base_url e) call w = (Inr r, later w)" "reply_status r \<noteq> 200"
  shows "out_of_order P E c e ''unhealthy''"
  using assms by (simp add: out_of_order_def try_candidate_def serve_def health_ok_def abind_def aret_def exchange_def)

lemma unreachable_out_of_order:
  assumes "\<And>call w. network E (base_url e) call w = (Inl (TransportError n), later w)"
  shows "out_of_order P E c e (''transport_error: '' @ n)"
  using assms by (simp add: out_of_order_def try_candidate_def serve_def health_ok_def abind_def exchange_def)

lemma out_of_order_skipped:
  assumes "list_all2 (out_of_order P E c) down outcomes"
  shows "try_all P E c (down @ es) tried s = try_all P E c es (tried @ zip (map base_url down) outcomes)
      (s\<lparr>world := (world s)\<lparr>moment := moment (world s) + int (length down)\<rparr>\<rparr>)"
  using assms
proof (induction arbitrary: tried s rule: list_all2_induct)
  case (Cons e down outcome outcomes)
  then show ?case by (simp add: out_of_order_def later_def algebra_simps)
qed simp

lemma free_attempt:
  assumes at: "reaches P I E (base_url e)" "sites I (base_url e) = Some g" "getn (manifest e) ''provider_pubkey'' = JStr (public_key_str P (gw_keypair g))"
    and terms: "takes_request g c" "\<not> require_payment g" "room 1 g (at_site (world s) (base_url e))" "\<not> get_quote c"
    and answer: "answerable g c result"
    and issue: "\<And>receipt. chat_receipt P g (c_request_id c) (c_privacy_mode c) (c_model c) (c_messages c) result None (site_clock I (moment (world s) + 1)) =
      Inr receipt \<Longrightarrow> schema_accepts P ''receipt'' receipt" and laws: "ed25519_laws P"
  shows "\<exists>receipt hs. try_candidate P E c e s = (Inr (Served (content result) (JObj receipt) None), s\<lparr>world := later (later ((world s)
      \<lparr>at_site := (at_site (world s))(base_url e := (at_site (world s) (base_url e))
        \<lparr>hits := hs, spent_keys := rivals I (moment (world s) + 1) (spent_keys (at_site (world s) (base_url e)))\<rparr>)\<rparr>))\<rparr>) \<and>
    chat_receipt P g (c_request_id c) (c_privacy_mode c) (c_model c) (c_messages c) result None (site_clock I (moment (world s) + 1)) = Inr receipt \<and>
    (\<exists>v. verify_receipt P receipt = Inr v \<and> valid v)"
proof -
  let ?s1 = "s\<lparr>world := later (world s)\<rparr>"
  note same = reaches_exchange [OF at(1)]
  have health: "health_ok E (base_url e) s = (Inr True, ?s1)"
    using health_answered [OF at(2), of P s] by (simp add: health_ok_def same)
  have room: "room 1 g (at_site (world ?s1) (base_url e))" using terms(3) by (simp add: later_def)
  from free_served [OF at(2) terms(1,2) room order_refl answer, of P] obtain hs receipt where
    rc: "chat_receipt P g (c_request_id c) (c_privacy_mode c) (c_model c) (c_messages c) result None (site_clock I (moment (world s) + 1)) = Inr receipt"
    and post: "post_completion (mesh_outside P I) c (base_url e) None ?s1 = (Inr (app_reply (chat_reply (c_request_id c) (c_model c) result receipt)),
      s\<lparr>world := later (later ((world s)\<lparr>at_site := (at_site (world s))(base_url e := (at_site (world s) (base_url e))
        \<lparr>hits := hs, spent_keys := rivals I (moment (world s) + 1) (spent_keys (at_site (world s) (base_url e)))\<rparr>)\<rparr>))\<rparr>)"
    by (auto simp: later_def)
  note ok = honest_receipt_trusted [OF at(3) rc laws issue [OF rc]]
  have "post_completion E c (base_url e) None ?s1 = post_completion (mesh_outside P I) c (base_url e) None ?s1"
    by (simp add: post_completion_def same)
  with post reply_read(2) free_judged [OF ok(1,3)] health terms(4)
  have "serve P E c e s = (Inr (Served (content result) (JObj receipt) None), s\<lparr>world := later (later ((world s)
      \<lparr>at_site := (at_site (world s))(base_url e := (at_site (world s) (base_url e))
        \<lparr>hits := hs, spent_keys := rivals I (moment (world s) + 1) (spent_keys (at_site (world s) (base_url e)))\<rparr>)\<rparr>))\<rparr>)"
    by (simp add: serve_def complete_def abind_def aret_def)
  with rc ok(2) show ?thesis by (auto simp: try_candidate_def)
qed


subsection \<open>The first that works\<close>

lemma free_route:
  assumes found: "resolve P reg (c_model c) (Some (c_privacy_mode c)) (c_weights c) False = Inr (down @ e # es)" "max_providers c = None"
    and down: "list_all2 (out_of_order P E c) down outcomes"
    and at: "reaches P I E (base_url e)" "sites I (base_url e) = Some g" "getn (manifest e) ''provider_pubkey'' = JStr (public_key_str P (gw_keypair g))"
    and terms: "takes_request g c" "\<not> require_payment g" "room 1 g (at_site (world s) (base_url e))" "\<not> get_quote c"
    and answer: "answerable g c result" and k: "k = moment (world s) + int (length down)"
    and issue: "\<And>receipt. chat_receipt P g (c_request_id c) (c_privacy_mode c) (c_model c) (c_messages c) result None (site_clock I (k + 1)) =
      Inr receipt \<Longrightarrow> schema_accepts P ''receipt'' receipt" and laws: "ed25519_laws P"
  obtains r t receipt hs where "route_chat P E reg c s = (Inr r, t)"
    "r = \<lparr>rr_content = content result, rr_receipt = JObj receipt, rr_provider_pubkey = JStr (public_key_str P (gw_keypair g)),
      rr_base_url = base_url e, rr_quote = None, rr_attempts = zip (map base_url down) outcomes @ [(base_url e, ''ok'')]\<rparr>"
    "chat_receipt P g (c_request_id c) (c_privacy_mode c) (c_model c) (c_messages c) result None (site_clock I (k + 1)) = Inr receipt"
    "\<exists>v. verify_receipt P receipt = Inr v \<and> valid v" "purse t = purse s" "moment (world t) = k + 2"
    "at_site (world t) = (at_site (world s))(base_url e := (at_site (world s) (base_url e))
        \<lparr>hits := hs, spent_keys := rivals I (k + 1) (spent_keys (at_site (world s) (base_url e)))\<rparr>)"
proof -
  define s0 where "s0 = s\<lparr>world := (world s)\<lparr>moment := k\<rparr>\<rparr>"
  have s0: "moment (world s0) = k" "at_site (world s0) = at_site (world s)" "purse s0 = purse s" by (simp_all add: s0_def)
  obtain receipt hs t where t: "try_candidate P E c e s0 = (Inr (Served (content result) (JObj receipt) None), t)"
    "t = s0\<lparr>world := later (later ((world s0)\<lparr>at_site := (at_site (world s0))(base_url e := (at_site (world s0) (base_url e))
        \<lparr>hits := hs, spent_keys := rivals I (moment (world s0) + 1) (spent_keys (at_site (world s0) (base_url e)))\<rparr>)\<rparr>))\<rparr>"
    "chat_receipt P g (c_request_id c) (c_privacy_mode c) (c_model c) (c_messages c) result None (site_clock I (k + 1)) = Inr receipt"
    "\<exists>v. verify_receipt P receipt = Inr v \<and> valid v"
    using free_attempt [OF at terms(1,2) _ terms(4) answer issue laws, of s0] terms(3) s0 by auto
  have "getitem (manifest e) ''provider_pubkey'' = Inr (JStr (public_key_str P (gw_keypair g)))" using at(3) by (rule getn_JStr_getitem)
  with t(1) found out_of_order_skipped [OF down, of "e # es" "[]" s]
  have "route_chat P E reg c s = (Inr \<lparr>rr_content = content result, rr_receipt = JObj receipt, rr_provider_pubkey = JStr (public_key_str P (gw_keypair g)),
      rr_base_url = base_url e, rr_quote = None, rr_attempts = zip (map base_url down) outcomes @ [(base_url e, ''ok'')]\<rparr>, t)"
    by (simp add: route_chat_def k [symmetric] s0_def [symmetric])
  moreover have "purse t = purse s" "moment (world t) = k + 2" "at_site (world t) = (at_site (world s))(base_url e := (at_site (world s) (base_url e))
        \<lparr>hits := hs, spent_keys := rivals I (k + 1) (spent_keys (at_site (world s) (base_url e)))\<rparr>)"
    using s0 by (simp_all add: t(2) later_def)
  ultimately show thesis using t(3,4) by (intro that [OF _ refl]) simp_all
qed

end
