(* ===== verification/RoutingDemo.thy ===== *)
theory RoutingDemo
  imports Open Proxy
begin

text \<open>
  \<^verbatim>\<open>apps/router-demo\<close>: the scripts that put the parts together in one process, each with the printing left out. A
  script is an action that ends with its result or with the exception that stops it; key pairs, clock readings and request
  identifiers are arguments. The theorems run the scripts: on a fresh start and with an honest platform every one of them
  reaches its last line.
\<close>

subsection \<open>Scripts\<close>

type_synonym ('s, 'a) script = "'s \<Rightarrow> (route_error + 'a) \<times> 's"

definition dret :: "'a \<Rightarrow> ('s, 'a) script" where
  "dret x s = (Inr x, s)"

definition dres :: "'a res \<Rightarrow> ('s, 'a) script" where
  "dres r s = (case r of Inl x \<Rightarrow> (Inl (Escaped x), s) | Inr y \<Rightarrow> (Inr y, s))"

definition dbind :: "('s, 'a) script \<Rightarrow> ('a \<Rightarrow> ('s, 'b) script) \<Rightarrow> ('s, 'b) script" where
  "dbind f k s = (case f s of (Inl x, s') \<Rightarrow> (Inl x, s') | (Inr y, s') \<Rightarrow> k y s')"

text \<open>\<^verbatim>\<open>try: \<dots> except NoProviderAvailable\<close>\<close>

definition unless_unserved :: "('s, 'a) script \<Rightarrow> ('s, 'a option) script" where
  "unless_unserved f s = (case f s of
     (Inl (NoProviderAvailable m attempts), s') \<Rightarrow> (Inr None, s')
   | (Inl (Escaped x), s') \<Rightarrow> (Inl (Escaped x), s')
   | (Inr y, s') \<Rightarrow> (Inr (Some y), s'))"

text \<open>\<^verbatim>\<open>sip_protocol.verify_receipt(receipt).valid\<close>\<close>

definition receipt_valid :: "platform \<Rightarrow> json \<Rightarrow> bool res" where
  "receipt_valid P v = (case the_obj v of None \<Rightarrow> Inl AttributeError | Some d \<Rightarrow> rbind (verify_receipt P d) (\<lambda>r. Inr (valid r)))"

subsection \<open>demo.py\<close>

definition MODEL :: string where
  "MODEL = ''qwen-coder-7b''"

definition TOKEN :: string where
  "TOKEN = ''demo-token''"

definition PROVIDER_A :: string where
  "PROVIDER_A = ''http://provider-a''"

definition PROVIDER_B :: string where
  "PROVIDER_B = ''http://provider-b''"

type_synonym app = "gateway_config \<times> gateway_state"

definition build_gateway_app :: "platform \<Rightarrow> keypair \<Rightarrow> string option \<Rightarrow> int \<Rightarrow> app res" where
  "build_gateway_app P kp tok now =
     create_app P ((local_gateway kp mock_adapter MODEL)\<lparr>token := tok\<rparr>) None ''no_prompt_logging'' now None None"

text \<open>
  \<^verbatim>\<open>client.get("/sip/v1/provider-manifest").json()\<close> over the in-process transport. A manifest that were not an object
  would fail where it is first used; here it fails at once.
\<close>

definition served_manifest :: "platform \<Rightarrow> internet \<Rightarrow> int \<Rightarrow> app \<Rightarrow> dict res" where
  "served_manifest P I k app =
     rbind (fst (gateway_app P (fst app) (site_clock I k) (rivals I k) (elsewhere I)
       \<lparr>verb = ''GET'', path = ''/sip/v1/provider-manifest'', call_headers = [], call_json = None\<rparr> (snd app)))
     (\<lambda>r. case reply_json r of None \<Rightarrow> Inl ValueError
        | Some v \<Rightarrow> (case the_obj v of None \<Rightarrow> Inl AttributeError | Some m \<Rightarrow> Inr m))"

definition make_provider_entry :: "platform \<Rightarrow> internet \<Rightarrow> int \<Rightarrow> string \<Rightarrow> keypair \<Rightarrow> int \<Rightarrow> provider_entry res" where
  "make_provider_entry P I k url kp now =
     rbind (build_gateway_app P kp (Some TOKEN) now) (\<lambda>app. rbind (served_manifest P I k app) (\<lambda>m.
       Inr \<lparr>base_url = url, manifest = m\<rparr>))"

text \<open>
  The applications of a script are the sites of its network. \<^verbatim>\<open>_DownTransport\<close> answers 503 on every route; an address
  without an application is a missing key of \<^verbatim>\<open>apps\<close>.
\<close>

definition unavailable :: http_reply where
  "unavailable = \<lparr>reply_status = 503, reply_json = Some (JObj [(''error'', JStr ''service unavailable'')])\<rparr>"

definition with_apps :: "(string \<times> app) list \<Rightarrow> internet \<Rightarrow> internet" where
  "with_apps apps I = I\<lparr>sites := (\<lambda>u. map_option fst (map_of apps u))\<rparr>"

definition started :: "(string \<times> app) list \<Rightarrow> mesh \<Rightarrow> mesh" where
  "started apps w = w\<lparr>at_site := (\<lambda>u. case map_of apps u of None \<Rightarrow> at_site w u | Some app \<Rightarrow> snd app)\<rparr>"

definition down_client_factory :: "platform \<Rightarrow> internet \<Rightarrow> string list \<Rightarrow> mesh outside" where
  "down_client_factory P I down = (mesh_outside P I)\<lparr>network := (\<lambda>url call w.
     if url \<in> set down then (Inr unavailable, later w)
     else if sites I url = None then (Inl KeyError, w)
     else mesh_network P I url call w)\<rparr>"

definition sync_client_factory :: "platform \<Rightarrow> internet \<Rightarrow> mesh outside" where
  "sync_client_factory P I = down_client_factory P I []"

text \<open>A client over the transport of one application reaches it at every address.\<close>

definition one_app :: "platform \<Rightarrow> internet \<Rightarrow> string \<Rightarrow> mesh outside" where
  "one_app P I u = (mesh_outside P I)\<lparr>network := (\<lambda>url. mesh_network P I u)\<rparr>"

text \<open>\<^verbatim>\<open>build_client\<close> and \<^verbatim>\<open>client.chat(MODEL, messages, wallet=\<dots>)\<close>, with the defaults of \<^verbatim>\<open>SovereignClient.chat\<close>.\<close>

definition client_asks :: "string \<Rightarrow> json list \<Rightarrow> chat_options" where
  "client_asks rid messages = \<lparr>c_token = Some TOKEN, c_request_id = rid, c_model = MODEL, c_messages = messages, c_max_tokens = 256,
     c_privacy_mode = ''direct'', verify_receipts = True, get_quote = False, max_providers = None, c_weights = None, x402_keypair = None\<rparr>"

definition client_chat :: "platform \<Rightarrow> mesh outside \<Rightarrow> registry \<Rightarrow> chat_options \<Rightarrow> wallet option \<Rightarrow> (mesh, route_result \<times> wallet option) script" where
  "client_chat P E reg c wallet w = (case route_chat P E reg c \<lparr>world = w, purse = wallet\<rparr> of
     (Inl x, s) \<Rightarrow> (Inl x, world s) | (Inr r, s) \<Rightarrow> (Inr (r, purse s), world s))"

definition user_says :: "string \<Rightarrow> json list" where
  "user_says text = [JObj [(''role'', JStr ''user''), (''content'', JStr text)]]"

definition what_is_it :: string where
  "what_is_it = ''In one sentence, what is sovereign inference?''"

text \<open>\<^verbatim>\<open>main\<close>: route with both providers up, then with the first one down.\<close>

definition failover_part :: "platform \<Rightarrow> internet \<Rightarrow> registry \<Rightarrow> string \<Rightarrow> (mesh, int) script" where
  "failover_part P I reg rid =
     dbind (unless_unserved (client_chat P (down_client_factory P I [PROVIDER_A]) reg (client_asks rid (user_says what_is_it)) None)) (\<lambda>out.
       case out of None \<Rightarrow> dret 1
       | Some (failover, _) \<Rightarrow>
           if rr_base_url failover \<noteq> PROVIDER_B then dret 1
           else dbind (dres (receipt_valid P (rr_receipt failover))) (\<lambda>good. dret (if good then 0 else 1)))"

definition routing_main :: "platform \<Rightarrow> internet \<Rightarrow> keypair \<Rightarrow> keypair \<Rightarrow> (nat \<Rightarrow> int) \<Rightarrow> (nat \<Rightarrow> string) \<Rightarrow> (mesh, int) script" where
  "routing_main P I kp_a kp_b now rid w =
     dbind (dres (build_gateway_app P kp_a (Some TOKEN) (now 0))) (\<lambda>a.
     dbind (dres (build_gateway_app P kp_b (Some TOKEN) (now 1))) (\<lambda>b.
     dbind (dres (make_provider_entry P I (moment w) PROVIDER_A kp_a (now 2))) (\<lambda>ea.
     dbind (dres (make_provider_entry P I (moment w) PROVIDER_B kp_b (now 3))) (\<lambda>eb.
       let apps = [(PROVIDER_A, a), (PROVIDER_B, b)];
           reg = registry_add eb (registry_add ea []) in
       (\<lambda>w. dbind (client_chat P (sync_client_factory P (with_apps apps I)) reg (client_asks (rid 0) (user_says what_is_it)) None) (\<lambda>(result, _).
         dbind (dres (receipt_valid P (rr_receipt result))) (\<lambda>good.
           if \<not> good then dret 1 else failover_part P (with_apps apps I) reg (rid 1))) (started apps w)))))) w"

subsection \<open>Ranking a registry of plain manifests\<close>

text \<open>Manifests with the same models, prices and privacy modes have the same score, if they have one latency score.\<close>

definition priced_terms :: "dict \<Rightarrow> string list \<Rightarrow> pyfloat \<Rightarrow> pyfloat \<Rightarrow> string list \<Rightarrow> bool" where
  "priced_terms m models i out modes \<longleftrightarrow> getn m ''models'' = JArr (map JStr models) \<and> models \<noteq> [] \<and>
     (\<exists>p. getn m ''pricing'' = JObj p \<and> p \<noteq> [] \<and> getn p ''input_per_1m'' = JFloat i \<and> getn p ''output_per_1m'' = JFloat out) \<and>
     getn m ''privacy_modes'' = JArr (map JStr modes) \<and> modes \<noteq> []"

definition plain_terms :: "dict \<Rightarrow> string list \<Rightarrow> pyfloat \<Rightarrow> pyfloat \<Rightarrow> string list \<Rightarrow> bool" where
  "plain_terms m models i out modes \<longleftrightarrow> priced_terms m models i out modes \<and> getn m ''benchmark'' = JNull"

lemma getn_get_or: "getn d k = v \<Longrightarrow> v \<noteq> JNull \<Longrightarrow> get_or d k x = v"
  by (auto simp: getn_def get_or_def split: option.splits)

lemma priced_parts:
  assumes "priced_terms (manifest e) models i out modes"
  shows "model_fit_score e (Some model) = Inr (Fin (if model \<in> set models then 1 else 0))"
    "price_score e = rbind (fdiv (fadd i out) (Fin 2)) (anchored 100)"
    "privacy_score e mode = Inr (Fin (if mode = None \<or> mode \<in> Some ` set modes then 1 else 0))"
proof -
  obtain p where p: "getn (manifest e) ''pricing'' = JObj p" "p \<noteq> []" "getn p ''input_per_1m'' = JFloat i" "getn p ''output_per_1m'' = JFloat out"
    using assms by (auto simp: priced_terms_def)
  have g: "get_or p ''input_per_1m'' v = JFloat i" "get_or p ''output_per_1m'' v = JFloat out" for v
    using p getn_get_or by blast+
  have f: "getn (manifest e) ''models'' = JArr (map JStr models)" "models \<noteq> []"
    "getn (manifest e) ''privacy_modes'' = JArr (map JStr modes)" "modes \<noteq> []" using assms by (simp_all add: priced_terms_def)
  show "price_score e = rbind (fdiv (fadd i out) (Fin 2)) (anchored 100)"
    using p(1,2) by (simp add: price_score_def py_or_def float_get_def g)
  show "model_fit_score e (Some model) = Inr (Fin (if model \<in> set models then 1 else 0))"
    using f(1,2) by (auto simp: model_fit_score_def py_or_def)
  show "privacy_score e mode = Inr (Fin (if mode = None \<or> mode \<in> Some ` set modes then 1 else 0))"
    using f(3,4) by (auto simp: privacy_score_def py_or_def split: option.split)
qed

lemma fdiv_positive: "\<not> fle t (Fin 0) \<Longrightarrow> \<exists>x. fdiv v t = Inr x"
  by (cases v; cases t) auto

lemma priced_scored:
  "\<exists>x. \<forall>e. priced_terms (manifest e) models i out modes \<longrightarrow> latency_score e None = Inr l \<longrightarrow> score_provider None mode (Some model) None e = Inr x"
proof -
  have "\<exists>h. fdiv (fadd i out) (Fin 2) = Inr h" by (rule fdiv_positive) simp
  then obtain h where h: "fdiv (fadd i out) (Fin 2) = Inr h" by blast
  obtain p where "anchored 100 h = Inr p" using anchored_total [of 100 h] by (auto simp: to_float_numeral)
  then have p: "rbind (fdiv (fadd i out) (Fin 2)) (anchored 100) = Inr p" by (simp only: h rbind_Inr)
  note parts = priced_parts(1,3) priced_parts(2) [where i = i and out = out, unfolded p]
  show ?thesis
  proof (cases "fle (py_sum (map snd default_weights)) (Fin 0)")
    case True
    then show ?thesis by (intro exI [of _ "Fin 0"] allI impI) (simp add: score_provider_def parts)
  next
    case False
    then have "\<exists>x. fdiv v (py_sum (map snd default_weights)) = Inr x" for v by (rule fdiv_positive)
    then obtain f where "fdiv v (py_sum (map snd default_weights)) = Inr (f v)" for v by metis
    then show ?thesis using False by (simp add: score_provider_def parts del: option.simps) (auto split: if_splits)
  qed
qed

lemma plain_scored:
  "\<exists>x. \<forall>e. plain_terms (manifest e) models i out modes \<longrightarrow> score_provider None mode (Some model) None e = Inr x"
proof -
  obtain l where "anchored 2000 (fadd (Fin 2000) (Fin 2000)) = Inr l" using anchored_total [of 2000] by (auto simp: to_float_numeral)
  then have "latency_score e None = Inr l" if "plain_terms (manifest e) models i out modes" for e
    using that by (simp add: plain_terms_def latency_score_def effective_ms_def py_or_def float_get_def get_or_def)
  then show ?thesis using priced_scored [of models i out modes l mode model] by (metis plain_terms_def)
qed

lemma for_model_all:
  assumes "list_all (\<lambda>e. priced_terms (manifest e) models i out modes) reg" "model \<in> set models"
  shows "for_model reg model = Inr reg"
proof -
  have "rmap (\<lambda>e. rbind (str_in model (get_or (manifest e) ''models'' (JArr []))) (\<lambda>b. Inr (b, e))) reg = Inr (map (\<lambda>e. (True, e)) reg)"
  proof (rule rmap_all_Inr)
    fix e assume "e \<in> set reg"
    then have "getn (manifest e) ''models'' = JArr (map JStr models)" using assms(1) by (simp add: list_all_iff priced_terms_def)
    then have "get_or (manifest e) ''models'' (JArr []) = JArr (map JStr models)" by (rule getn_get_or) simp
    then show "rbind (str_in model (get_or (manifest e) ''models'' (JArr []))) (\<lambda>b. Inr (b, e)) = Inr (True, e)" using assms(2) by simp
  qed
  then show ?thesis by (simp add: for_model_def filter_map comp_def)
qed

lemma resolved_in_order:
  assumes "list_all (\<lambda>e. plain_terms (manifest e) models i out modes) reg" "model \<in> set models"
  shows "resolve P reg model mode None False = Inr reg"
proof -
  obtain x where x: "\<And>e. plain_terms (manifest e) models i out modes \<Longrightarrow> score_provider None mode (Some model) None e = Inr x"
    using plain_scored by metis
  have all: "for_model reg model = Inr reg"
    using assms by (intro for_model_all [where models = models and i = i and out = out and modes = modes]) (auto simp: list_all_iff plain_terms_def)
  have "rmap (\<lambda>e. rbind (score_provider None mode (Some model) None e) (\<lambda>s. Inr (s, e))) reg = Inr (map (\<lambda>e. (x, e)) reg)"
    using assms(1) x by (intro rmap_all_Inr) (simp add: list_all_iff)
  moreover have "isort_by score_ge (map (\<lambda>e. (x, e)) es) = map (\<lambda>e. (x, e)) es" for es :: registry
  proof (induction es)
    case (Cons e es)
    have "\<not> flt x x" by (cases x) (simp_all add: flt_def)
    with Cons show ?case by (cases es) (simp_all add: score_ge_def)
  qed simp
  ultimately show ?thesis by (simp add: resolve_def all rank_candidates_def comp_def)
qed

subsection \<open>The gateways of the scripts\<close>

lemma signed_json_ok: "sign_document P d kp = Inr d' \<Longrightarrow> json_ok (JObj d) \<Longrightarrow> json_ok (JObj d')"
  unfolding sign_document_def Let_def rbind_eq_Inr by (auto simp del: json_ok.simps(3) intro!: json_ok_set json_ok_without)

text \<open>A started gateway: its configuration and the manifest it serves.\<close>

lemma started_app:
  assumes "float_of_str (input_per_1m c) = Inr i" "float_of_str (output_per_1m c) = Inr out" "json_ok (JFloat i)" "json_ok (JFloat out)"
    and "allowed_models c \<noteq> []"
  obtains m where "create_app P c None logging now shared ledger =
      Inr (c\<lparr>gw_manifest := m\<rparr>, \<lparr>spent_keys = (case shared of None \<Rightarrow> {} | Some S \<Rightarrow> S), gw_ledger = ledger, hits = []\<rparr>)"
    "plain_terms m (allowed_models c) i out [''direct'']" "getn m ''provider_pubkey'' = JStr (public_key_str P (gw_keypair c))"
proof -
  let ?draft = "[(''schema'', JStr ''sip-ai.provider_manifest.v1''), (''provider_pubkey'', JStr (public_key_str P (gw_keypair c))),
    (''node_type'', JStr ''sovereign-node''), (''models'', jstrs (allowed_models c)), (''runtime_adapters'', jstrs [adapter_name (gw_adapter c)]),
    (''pricing'', JObj [(''unit'', JStr (price_units c)), (''input_per_1m'', JFloat i), (''output_per_1m'', JFloat out)]),
    (''max_context'', JInt (max_input_chars c)), (''logging_policy'', JStr logging), (''privacy_modes'', jstrs [''direct'']),
    (''published_at'', JStr (utc_iso now))]"
  have "list_all json_ok (map JStr xs)" for xs by (simp add: list_all_iff)
  then have "json_ok (JObj ?draft)" using assms(3,4) by (simp add: jstrs_def)
  then obtain m where m: "sign_document P ?draft (gw_keypair c) = Inr m" using sign_document_total by blast
  have get: "k \<noteq> ''signature'' \<Longrightarrow> getn m k = getn ?draft k" for k
    using sign_document_fields [OF m] by (simp add: getn_def)
  have f: "getn m ''models'' = JArr (map JStr (allowed_models c))" "getn m ''benchmark'' = JNull" "getn m ''privacy_modes'' = JArr (map JStr [''direct''])"
    "getn m ''pricing'' = JObj [(''unit'', JStr (price_units c)), (''input_per_1m'', JFloat i), (''output_per_1m'', JFloat out)]"
    "getn m ''provider_pubkey'' = JStr (public_key_str P (gw_keypair c))"
    by (simp_all add: get) (simp_all add: getn_def jstrs_def)
  then have "plain_terms m (allowed_models c) i out [''direct'']" using assms(5) by (simp add: plain_terms_def priced_terms_def getn_def)
  moreover have "create_app P c None logging now shared ledger =
      Inr (c\<lparr>gw_manifest := m\<rparr>, \<lparr>spent_keys = (case shared of None \<Rightarrow> {} | Some S \<Rightarrow> S), gw_ledger = ledger, hits = []\<rparr>)"
    using m assms(1,2) by (simp add: create_app_def synthesize_manifest_def sign_provider_manifest_def)
  ultimately show thesis using f(5) that by blast
qed

lemma free_of_charge: "float_of_str ''0'' = Inr (Fin 0)"
  by (simp add: literal_simps Let_def)


lemma price_total:
  assumes "float_of_int n = Inr a" "float_of_int k = Inr b" "float_of_str (input_per_1m g) = Inr i" "float_of_str (output_per_1m g) = Inr out"
  shows "\<exists>price. price_amount g n k = Inr price"
proof -
  have "\<exists>x. fdiv v (Fin 1000000) = Inr x" for v by (rule fdiv_positive) simp
  then obtain f where "fdiv v (Fin 1000000) = Inr (f v)" for v by metis
  then show ?thesis using assms by (simp add: price_amount_def per_million_def)
qed

definition script_site :: "keypair \<Rightarrow> gateway_config" where
  "script_site kp = (local_gateway kp mock_adapter MODEL)\<lparr>token := Some TOKEN\<rparr>"

definition fresh_state :: gateway_state where
  "fresh_state = \<lparr>spent_keys = {}, gw_ledger = None, hits = []\<rparr>"

lemma script_app:
  obtains m where "build_gateway_app P kp (Some TOKEN) now = Inr ((script_site kp)\<lparr>gw_manifest := m\<rparr>, fresh_state)"
    "plain_terms m [MODEL] (Fin 0) (Fin 0) [''direct'']" "getn m ''provider_pubkey'' = JStr (public_key_str P kp)"
proof -
  have c: "float_of_str (input_per_1m (script_site kp)) = Inr (Fin 0)" "float_of_str (output_per_1m (script_site kp)) = Inr (Fin 0)"
    "allowed_models (script_site kp) = [MODEL]" "gw_keypair (script_site kp) = kp"
    by (simp_all add: script_site_def local_gateway_def free_of_charge)
  show thesis
  proof (rule started_app [where P = P and c = "script_site kp" and logging = "''no_prompt_logging''" and now = now and shared = None and ledger = None])
    fix m assume "create_app P (script_site kp) None ''no_prompt_logging'' now None None =
        Inr ((script_site kp)\<lparr>gw_manifest := m\<rparr>, \<lparr>spent_keys = (case None of None \<Rightarrow> {} | Some S \<Rightarrow> S), gw_ledger = None, hits = []\<rparr>)"
      "plain_terms m (allowed_models (script_site kp)) (Fin 0) (Fin 0) [''direct'']"
      "getn m ''provider_pubkey'' = JStr (public_key_str P (gw_keypair (script_site kp)))"
    then show thesis by (intro that [of m]) (simp_all add: build_gateway_app_def script_site_def [symmetric] fresh_state_def c)
  qed (use c in simp_all)
qed

lemma script_entry:
  obtains m where "make_provider_entry P I k url kp now = Inr \<lparr>base_url = url, manifest = m\<rparr>"
    "plain_terms m [MODEL] (Fin 0) (Fin 0) [''direct'']" "getn m ''provider_pubkey'' = JStr (public_key_str P kp)"
proof (rule script_app [of P kp now])
  fix m assume m: "build_gateway_app P kp (Some TOKEN) now = Inr ((script_site kp)\<lparr>gw_manifest := m\<rparr>, fresh_state)"
    "plain_terms m [MODEL] (Fin 0) (Fin 0) [''direct'']" "getn m ''provider_pubkey'' = JStr (public_key_str P kp)"
  then show thesis
    by (intro that [of m]) (simp_all add: make_provider_entry_def served_manifest_def gateway_app_def app_reply_def manifest_endpoint_def)
qed

text \<open>What the gateways of the scripts have in common, and the requests they take.\<close>

definition script_terms :: "gateway_config \<Rightarrow> bool" where
  "script_terms g \<longleftrightarrow> gw_adapter g = mock_adapter \<and> (token g = None \<or> token g = Some TOKEN) \<and> allowed_models g = [MODEL] \<and>
     max_input_chars g = 100000 \<and> max_output_tokens g = 512 \<and> rate_limit g = None \<and>
     (\<exists>i out. float_of_str (input_per_1m g) = Inr i \<and> float_of_str (output_per_1m g) = Inr out)"

definition echoed :: "string \<Rightarrow> chat_result" where
  "echoed text = \<lparr>content = ''echo: '' @ text, input_tokens = word_count text, output_tokens = word_count (''echo: '' @ text), chat_model = MODEL\<rparr>"

lemma user_says_content: "map content_of (user_says text) = [text]" "last_user (user_says text) = text"
  by (simp_all add: user_says_def last_user_def content_of_def getn_def)

lemma script_takes:
  assumes "script_terms g" "length text \<le> 100000"
  shows "takes_request g (client_asks rid (user_says text))" "answerable g (client_asks rid (user_says text)) (echoed text)" "room k g s"
proof -
  have total: "total_chars (user_says text) = int (length text)"
    by (simp add: total_chars_def user_says_def content_of_def getn_def)
  have "valid_messages (JArr (user_says text))" "list_all json_ok (user_says text)"
    by (simp_all add: user_says_def valid_messages_def valid_message_def getn_def)
  then show "takes_request g (client_asks rid (user_says text))"
    using assms total by (auto simp: takes_request_def client_asks_def script_terms_def admits_def)
  have "mock_chat MODEL (user_says text) n = Inr (echoed text)" for n
    by (simp add: mock_chat_def user_says_content(2) echoed_def Let_def) (simp add: user_says_def content_of_def getn_def)
  moreover have count: "\<exists>a. float_of_int (word_count u) = Inr a" if "length u \<le> 100006" for u
    using py_split_length [of u] that float_of_count [of "word_count u"] by (simp add: word_count_def)
  have "\<exists>a. float_of_int (word_count text) = Inr a" "\<exists>a. float_of_int (word_count (''echo: '' @ text)) = Inr a"
    using assms(2) by (intro count; simp)+
  ultimately show "answerable g (client_asks rid (user_says text)) (echoed text)"
    using assms(1) price_total [of "word_count text" _ "word_count (''echo: '' @ text)" _ g]
    by (auto simp: answerable_def client_asks_def script_terms_def mock_adapter_def echoed_def)
  show "room k g s" using assms(1) by (simp add: room_def script_terms_def)
qed


text \<open>The receipt schema accepts what the gateway signs for a request, at whatever moment it serves it.\<close>

definition receipts_pass :: "platform \<Rightarrow> internet \<Rightarrow> gateway_config \<Rightarrow> chat_options \<Rightarrow> chat_result \<Rightarrow> bool" where
  "receipts_pass P I g c result \<longleftrightarrow> (\<forall>k receipt. chat_receipt P g (c_request_id c) (c_privacy_mode c) (c_model c) (c_messages c) result None (site_clock I k) =
     Inr receipt \<longrightarrow> schema_accepts P ''receipt'' receipt)"

lemma receipts_pass_manifest [simp]: "receipts_pass P I (g\<lparr>gw_manifest := m\<rparr>) c result = receipts_pass P I g c result"
  by (simp add: receipts_pass_def chat_receipt_def price_amount_def)

lemma receipts_pass_sites [simp]: "receipts_pass P (with_apps apps I) g c result = receipts_pass P I g c result"
  by (simp add: receipts_pass_def with_apps_def)

lemma demo_receipts_accepted:
  assumes "chat_receipt demo g rid mode model ms result required m = Inr d"
  shows "schema_accepts demo ''receipt'' d"
proof -
  have v: "validator demo = demo_validator" by (simp add: demo_def)
  obtain price where "getn d ''request_id'' = JStr rid" "getn d ''provider_pubkey'' = JStr (public_key_str demo (gw_keypair g))"
    "getn d ''price_amount'' = JStr price" using chat_receipt_fields [OF assms] by metis
  moreover obtain sg where "dict_get d ''signature'' = Some (JStr sg)"
    using assms signed_has_signature by (fastforce simp: chat_receipt_def sign_receipt_def rbind_eq_Inr)
  ultimately show ?thesis using text_present by (simp add: schema_accepts_def v demo_validator_def demo_members_def)
qed

lemma demo_receipts_pass: "receipts_pass demo I g c result"
  using demo_receipts_accepted by (simp add: receipts_pass_def)

lemma down_reaches: "u \<notin> set ds \<Longrightarrow> sites I u \<noteq> None \<Longrightarrow> reaches P I (down_client_factory P I ds) u"
  by (auto simp: reaches_def down_client_factory_def fun_eq_iff)

lemma down_unhealthy:
  assumes "base_url e \<in> set ds"
  shows "out_of_order P (down_client_factory P I ds) c e ''unhealthy''"
  by (rule unavailable_out_of_order [where r = unavailable]) (use assms in \<open>simp_all add: down_client_factory_def unavailable_def\<close>)

lemma script_chat:
  assumes found: "resolve P reg MODEL (Some ''direct'') None False = Inr (down @ e # es)" "\<forall>d\<in>set down. base_url d \<in> set ds"
    and at: "base_url e \<notin> set ds" "sites I (base_url e) = Some g" "getn (manifest e) ''provider_pubkey'' = JStr (public_key_str P (gw_keypair g))"
    and terms: "script_terms g" "\<not> require_payment g" "length text \<le> 100000"
    and issue: "receipts_pass P I g (client_asks rid (user_says text)) (echoed text)" and laws: "ed25519_laws P"
  obtains r w' receipt k where "client_chat P (down_client_factory P I ds) reg (client_asks rid (user_says text)) wallet w = (Inr (r, wallet), w')"
    "rr_content r = ''echo: '' @ text" "rr_base_url r = base_url e" "receipt_valid P (rr_receipt r) = Inr True"
    "rr_attempts r = map (\<lambda>d. (base_url d, ''unhealthy'')) down @ [(base_url e, ''ok'')]"
    "rr_receipt r = JObj receipt" "chat_receipt P g rid ''direct'' MODEL (user_says text) (echoed text) None (site_clock I k) = Inr receipt"
    "\<And>url. url \<noteq> base_url e \<Longrightarrow> at_site w' url = at_site w url"
proof -
  let ?E = "down_client_factory P I ds" and ?c = "client_asks rid (user_says text)" and ?s = "\<lparr>world = w, purse = wallet\<rparr>"
  have c: "c_request_id ?c = rid" "c_messages ?c = user_says text" "c_model ?c = MODEL" "c_privacy_mode ?c = ''direct''" "c_weights ?c = None" "max_providers ?c = None" "\<not> get_quote ?c"
    by (simp_all add: client_asks_def)
  have down: "list_all2 (out_of_order P ?E ?c) down (replicate (length down) ''unhealthy'')"
    using found(2) down_unhealthy by (simp add: list_all2_conv_all_nth)
  have order: "resolve P reg (c_model ?c) (Some (c_privacy_mode ?c)) (c_weights ?c) False = Inr (down @ e # es)" using found(1) by (simp add: c)
  have reach: "reaches P I ?E (base_url e)" using at by (intro down_reaches) simp_all
  have pass: "schema_accepts P ''receipt'' receipt" if "chat_receipt P g (c_request_id ?c) (c_privacy_mode ?c) (c_model ?c) (c_messages ?c) (echoed text) None
      (site_clock I (moment (world ?s) + int (length down) + 1)) = Inr receipt" for receipt
    using issue that unfolding receipts_pass_def by blast
  note takes = script_takes [OF terms(1,3)]
  obtain r t receipt hs where r: "route_chat P ?E reg ?c ?s = (Inr r, t)"
    "r = \<lparr>rr_content = content (echoed text), rr_receipt = JObj receipt, rr_provider_pubkey = JStr (public_key_str P (gw_keypair g)),
      rr_base_url = base_url e, rr_quote = None, rr_attempts = zip (map base_url down) (replicate (length down) ''unhealthy'') @ [(base_url e, ''ok'')]\<rparr>"
    "chat_receipt P g (c_request_id ?c) (c_privacy_mode ?c) (c_model ?c) (c_messages ?c) (echoed text) None
      (site_clock I (moment (world ?s) + int (length down) + 1)) = Inr receipt"
    "\<exists>v. verify_receipt P receipt = Inr v \<and> valid v" "purse t = purse ?s"
    "at_site (world t) = (at_site (world ?s))(base_url e := (at_site (world ?s) (base_url e))
        \<lparr>hits := hs, spent_keys := rivals I (moment (world ?s) + int (length down) + 1) (spent_keys (at_site (world ?s) (base_url e)))\<rparr>)"
    by (rule free_route [OF order c(6) down reach at(2,3) takes(1) terms(2) takes(3) c(7) takes(2) refl pass laws])
  have zips: "zip (map base_url down) (replicate (length down) ''unhealthy'') = map (\<lambda>d. (base_url d, ''unhealthy'')) down"
    by (induction down) simp_all
  show thesis
  proof (rule that)
    show "client_chat P ?E reg ?c wallet w = (Inr (r, wallet), world t)" using r(1,5) by (simp add: client_chat_def)
    show "receipt_valid P (rr_receipt r) = Inr True" using r(4) by (auto simp: r(2) receipt_valid_def)
    show "chat_receipt P g rid ''direct'' MODEL (user_says text) (echoed text) None (site_clock I (moment (world ?s) + int (length down) + 1)) = Inr receipt"
      using r(3) by (simp add: c)
  qed (use r zips in \<open>simp_all add: echoed_def\<close>)
qed


lemma script_site_terms: "script_terms ((script_site kp)\<lparr>gw_manifest := m\<rparr>)" "\<not> require_payment ((script_site kp)\<lparr>gw_manifest := m\<rparr>)"
  "gw_keypair ((script_site kp)\<lparr>gw_manifest := m\<rparr>) = kp"
  using free_of_charge by (auto simp: script_terms_def script_site_def local_gateway_def)

lemma what_is_it_short: "length what_is_it \<le> 100000"
  by (simp add: what_is_it_def)

lemma dbind_Inr: "f s = (Inr y, s') \<Longrightarrow> dbind f k s = k y s'"
  by (simp add: dbind_def)

lemma dres_Inr [simp]: "dbind (dres (Inr y)) k = k y"
  by (simp add: dbind_def dres_def fun_eq_iff)

text \<open>The routing script ends with exit code 0: the first provider serves while both are up, and the second one when the first
  answers nothing but 503.\<close>

theorem routing_main_succeeds:
  assumes "ed25519_laws P" "receipts_pass P I (script_site kp_a) (client_asks (rid 0) (user_says what_is_it)) (echoed what_is_it)"
    and "receipts_pass P I (script_site kp_b) (client_asks (rid 1) (user_says what_is_it)) (echoed what_is_it)"
  shows "\<exists>w'. routing_main P I kp_a kp_b now rid w = (Inr 0, w')"
proof -
  obtain ma where a: "build_gateway_app P kp_a (Some TOKEN) (now 0) = Inr ((script_site kp_a)\<lparr>gw_manifest := ma\<rparr>, fresh_state)" by (rule script_app)
  obtain mb where b: "build_gateway_app P kp_b (Some TOKEN) (now 1) = Inr ((script_site kp_b)\<lparr>gw_manifest := mb\<rparr>, fresh_state)" by (rule script_app)
  obtain na where ea: "make_provider_entry P I (moment w) PROVIDER_A kp_a (now 2) = Inr \<lparr>base_url = PROVIDER_A, manifest = na\<rparr>"
    "plain_terms na [MODEL] (Fin 0) (Fin 0) [''direct'']" "getn na ''provider_pubkey'' = JStr (public_key_str P kp_a)" by (rule script_entry)
  obtain nb where eb: "make_provider_entry P I (moment w) PROVIDER_B kp_b (now 3) = Inr \<lparr>base_url = PROVIDER_B, manifest = nb\<rparr>"
    "plain_terms nb [MODEL] (Fin 0) (Fin 0) [''direct'']" "getn nb ''provider_pubkey'' = JStr (public_key_str P kp_b)" by (rule script_entry)
  define apps where "apps = [(PROVIDER_A, (script_site kp_a)\<lparr>gw_manifest := ma\<rparr>, fresh_state), (PROVIDER_B, (script_site kp_b)\<lparr>gw_manifest := mb\<rparr>, fresh_state)]"
  let ?a = "\<lparr>base_url = PROVIDER_A, manifest = na\<rparr>" and ?b = "\<lparr>base_url = PROVIDER_B, manifest = nb\<rparr>" and ?I = "with_apps apps I"
  have urls: "PROVIDER_A \<noteq> PROVIDER_B" by (simp add: PROVIDER_A_def PROVIDER_B_def)
  then have sites: "sites ?I PROVIDER_A = Some ((script_site kp_a)\<lparr>gw_manifest := ma\<rparr>)" "sites ?I PROVIDER_B = Some ((script_site kp_b)\<lparr>gw_manifest := mb\<rparr>)"
    by (simp_all add: with_apps_def apps_def)
  have order: "resolve P [?a, ?b] MODEL (Some ''direct'') None False = Inr [?a, ?b]"
    using ea(2) eb(2) by (intro resolved_in_order [where models = "[MODEL]"]) simp_all
  have keys: "getn (manifest ?a) ''provider_pubkey'' = JStr (public_key_str P (gw_keypair ((script_site kp_a)\<lparr>gw_manifest := ma\<rparr>)))"
    "getn (manifest ?b) ''provider_pubkey'' = JStr (public_key_str P (gw_keypair ((script_site kp_b)\<lparr>gw_manifest := mb\<rparr>)))"
    using ea(3) eb(3) by (simp_all add: script_site_terms(3))
  have pass: "receipts_pass P ?I ((script_site kp_a)\<lparr>gw_manifest := ma\<rparr>) (client_asks (rid 0) (user_says what_is_it)) (echoed what_is_it)"
    "receipts_pass P ?I ((script_site kp_b)\<lparr>gw_manifest := mb\<rparr>) (client_asks (rid 1) (user_says what_is_it)) (echoed what_is_it)"
    using assms(2,3) by simp_all
  have "resolve P [?a, ?b] MODEL (Some ''direct'') None False = Inr ([] @ ?a # [?b])"
    and "sites ?I (base_url ?a) = Some ((script_site kp_a)\<lparr>gw_manifest := ma\<rparr>)" using order sites by simp_all
  then obtain r w1 where r: "client_chat P (down_client_factory P ?I []) [?a, ?b] (client_asks (rid 0) (user_says what_is_it)) None (started apps w) = (Inr (r, None), w1)"
    "receipt_valid P (rr_receipt r) = Inr True"
    using script_chat [OF _ _ _ _ keys(1) script_site_terms(1,2) what_is_it_short pass(1) assms(1), where down = "[]" and ds = "[]"]
    by (metis empty_iff list.set(1))
  have "resolve P [?a, ?b] MODEL (Some ''direct'') None False = Inr ([?a] @ ?b # [])" "\<forall>d\<in>set [?a]. base_url d \<in> set [PROVIDER_A]"
    "base_url ?b \<notin> set [PROVIDER_A]" "sites ?I (base_url ?b) = Some ((script_site kp_b)\<lparr>gw_manifest := mb\<rparr>)" using order sites urls by simp_all
  then obtain f w2 where f: "client_chat P (down_client_factory P ?I [PROVIDER_A]) [?a, ?b] (client_asks (rid 1) (user_says what_is_it)) None w1 = (Inr (f, None), w2)"
    "rr_base_url f = base_url ?b" "receipt_valid P (rr_receipt f) = Inr True"
    by (rule script_chat [OF _ _ _ _ keys(2) script_site_terms(1,2) what_is_it_short pass(2) assms(1)])
  have "routing_main P I kp_a kp_b now rid w = (Inr 0, w2)"
    using r f by (simp add: routing_main_def failover_part_def a b ea(1) eb(1) registry_add_def apps_def [symmetric] sync_client_factory_def
        dbind_def dres_def unless_unserved_def dret_def Let_def del: One_nat_def)
  then show ?thesis by blast
qed

end
