(* ===== verification/DiscoveryDemo.thy ===== *)
theory DiscoveryDemo
  imports RoutingDemo Canon
begin

text \<open>
  \<^verbatim>\<open>discovery_demo.py\<close>: a node announces itself to a directory, is found there and routed to. With it, what the nodes of the
  later scripts have in common: their prices and the manifest they sign.
\<close>

subsection \<open>discovery\_demo.py\<close>

text \<open>The rates of the demo nodes, in USDC per million tokens: the doubles nearest to 0.20 and 0.60.\<close>

definition INPUT_PER_1M :: pyfloat where
  "INPUT_PER_1M = to_float (1 / 5)"

definition OUTPUT_PER_1M :: pyfloat where
  "OUTPUT_PER_1M = to_float (3 / 5)"

definition discovered_node :: string where
  "discovered_node = ''http://discovered-node''"

text \<open>What the nodes of the scripts sign: the same terms, at an address, at a time, with or without a benchmark.\<close>

definition usdc_terms :: "platform \<Rightarrow> keypair \<Rightarrow> string \<Rightarrow> dict option \<Rightarrow> string \<Rightarrow> dict" where
  "usdc_terms P kp url benchmark published = build_provider_manifest
     ((manifest_defaults (public_key_str P kp) [MODEL] [''llama.cpp''] ''usdc'' published)
       \<lparr>m_input_per_1m := INPUT_PER_1M, m_output_per_1m := OUTPUT_PER_1M, m_node_type := ''sovereign-node'', m_max_context := 8192,
        m_benchmark := benchmark, m_manifest_uri := Some url\<rparr>)"

definition usdc_site :: "keypair \<Rightarrow> gateway_config" where
  "usdc_site kp = (script_site kp)\<lparr>price_units := ''usdc'', input_per_1m := float_repr INPUT_PER_1M, output_per_1m := float_repr OUTPUT_PER_1M\<rparr>"

definition build_shared_node :: "platform \<Rightarrow> keypair \<Rightarrow> int \<Rightarrow> (dict \<times> app) res" where
  "build_shared_node P kp now =
     rbind (sign_provider_manifest P (usdc_terms P kp discovered_node None (utc_iso now)) kp) (\<lambda>m.
     rbind (create_app P (usdc_site kp) (Some m) ''no_prompt_logging'' now None None) (\<lambda>app. Inr (m, app)))"

record discovery_result =
  dd_exit_code :: int
  dd_discovered_count :: int
  dd_served_by :: string
  dd_receipt_verified :: bool

text \<open>The script works on the directory's file and on the network.\<close>

definition on_file :: "(json_file, 'a) act \<Rightarrow> (json_file \<times> mesh, 'a) script" where
  "on_file f s = (case f (fst s) of (Inl x, file) \<Rightarrow> (Inl (Escaped x), (file, snd s)) | (Inr y, file) \<Rightarrow> (Inr y, (file, snd s)))"

definition on_mesh :: "(mesh, 'a) script \<Rightarrow> (json_file \<times> mesh, 'a) script" where
  "on_mesh f s = (case f (snd s) of (r, w) \<Rightarrow> (r, (fst s, w)))"

definition entry_of :: "discovered \<Rightarrow> provider_entry" where
  "entry_of p = \<lparr>base_url = d_base_url p, manifest = d_manifest p\<rparr>"

definition discovery_main :: "platform \<Rightarrow> internet \<Rightarrow> keypair \<Rightarrow> int \<Rightarrow> string \<Rightarrow> (json_file \<times> mesh, discovery_result) script" where
  "discovery_main P I kp now rid =
     dbind (dres (build_shared_node P kp now)) (\<lambda>(m, app).
     dbind (on_file (file_announce P m None)) (\<lambda>ref.
     dbind (on_file (file_discover P (Some MODEL))) (\<lambda>found.
       let count = int (length found); apps = [(discovered_node, app)]; reg = foldl (\<lambda>r p. registry_add (entry_of p) r) [] found in
       if found = [] then dret \<lparr>dd_exit_code = 1, dd_discovered_count = 0, dd_served_by = [], dd_receipt_verified = False\<rparr>
       else dbind (on_mesh (\<lambda>w. client_chat P (sync_client_factory P (with_apps apps I)) reg
           (client_asks rid (user_says what_is_it)) None (started apps w))) (\<lambda>(result, _).
         dbind (dres (receipt_valid P (rr_receipt result))) (\<lambda>verified.
           if \<not> verified
           then dret \<lparr>dd_exit_code = 1, dd_discovered_count = count, dd_served_by = rr_base_url result, dd_receipt_verified = False\<rparr>
           else dret \<lparr>dd_exit_code = 0, dd_discovered_count = count, dd_served_by = rr_base_url result, dd_receipt_verified = verified\<rparr>)))))"

text \<open>\<^verbatim>\<open>run\<close>\<close>

definition discovery_run :: "platform \<Rightarrow> internet \<Rightarrow> keypair \<Rightarrow> int \<Rightarrow> string \<Rightarrow> (json_file \<times> mesh, int) script" where
  "discovery_run P I kp now rid = dbind (discovery_main P I kp now rid) (\<lambda>r. dret (dd_exit_code r))"

lemma binade_double:
  assumes "pow2 k \<le> x" "x \<le> (2 ^ 53 - 1) * pow2 (k - 52)" "- 1022 \<le> k" "k < 1023"
  shows "double (to_float x)"
proof -
  let ?u = "pow2 (k - 52)"
  let ?n = "rne (x / ?u)"
  have p: "0 < ?u" by (rule pow2_pos)
  have k: "pow2 k = 2 ^ 52 * ?u" "pow2 (k + 1) = 2 ^ 53 * ?u"
    using pow2_add [of 52 "k - 52"] pow2_add [of 53 "k - 52"] by (simp_all add: pow2_def [of 52] pow2_def [of 53] add.commute)
  have "2 ^ 52 \<le> x / ?u" "x / ?u \<le> 2 ^ 53 - 1" using assms(1,2) p by (simp_all add: k(1) pos_le_divide_eq pos_divide_le_eq)
  then have n: "2 ^ 52 \<le> ?n" "?n \<le> 2 ^ 53 - 1"
    using rne_mono [of "of_int (2 ^ 52)" "x / ?u"] rne_mono [of "x / ?u" "of_int (2 ^ 53 - 1)"] by (simp_all only: rne_of_int) simp_all
  have "(2 ^ 53 - 1) * ?u < pow2 (k + 1)" using p by (simp add: k(2))
  then have x: "to_float x = Fin (of_int ?n * ?u)" using assms by (intro to_float_in_binade) linarith+
  have "of_int (2 ^ 52) \<le> (of_int ?n :: rat)" "(of_int ?n :: rat) \<le> of_int (2 ^ 53 - 1)" using n by (simp_all only: of_int_le_iff)
  then have "pow2 k \<le> of_int ?n * ?u" "of_int ?n * ?u < pow2 (k + 1)"
    using p by (simp_all add: k)
  then have "to_float (of_int ?n * ?u) = Fin (of_int (rne (of_int ?n * ?u / ?u)) * ?u)" using assms(3,4) by (intro to_float_in_binade)
  then have "to_float (of_int ?n * ?u) = Fin (of_int ?n * ?u)" by simp
  with x show ?thesis by (auto simp: double_def)
qed

lemma usdc_rates: "double INPUT_PER_1M" "double OUTPUT_PER_1M"
  unfolding INPUT_PER_1M_def OUTPUT_PER_1M_def
  by (rule binade_double [of "-3"]; simp add: pow2_def) (rule binade_double [of "-1"]; simp add: pow2_def)

lemma double_reads: "double f \<Longrightarrow> \<exists>x. float_of_str (float_repr f) = Inr x"
  using float_repr_read_back by (auto simp: double_def simp del: float_repr.simps)

lemma usdc_site_terms: "script_terms ((usdc_site kp)\<lparr>gw_manifest := m\<rparr>)" "\<not> require_payment ((usdc_site kp)\<lparr>gw_manifest := m\<rparr>)"
  "gw_keypair ((usdc_site kp)\<lparr>gw_manifest := m\<rparr>) = kp"
  using usdc_rates [THEN double_reads] by (auto simp: script_terms_def usdc_site_def script_site_def local_gateway_def)

lemma reordered_leaf: "reordered v w \<Longrightarrow> (\<And>xs. v \<noteq> JArr xs) \<Longrightarrow> (\<And>d. v \<noteq> JObj d) \<Longrightarrow> w = v"
  by (cases rule: reordered.cases) auto

lemma priced_terms_reordered:
  assumes "reordered (JObj m) (JObj m')" "priced_terms m models i out modes"
  shows "priced_terms m' models i out modes"
proof -
  note get = reordered_getn [OF assms(1)]
  obtain p where p: "getn m ''pricing'' = JObj p" "p \<noteq> []" "getn p ''input_per_1m'' = JFloat i" "getn p ''output_per_1m'' = JFloat out"
    using assms(2) by (auto simp: priced_terms_def)
  obtain p' where p': "getn m' ''pricing'' = JObj p'" "reordered (JObj p) (JObj p')"
    using get [of "''pricing''"] p(1) by (auto elim: reordered_objects intro: reordered.same reordered.objects)
  have "getn p' ''input_per_1m'' = JFloat i" "getn p' ''output_per_1m'' = JFloat out"
    using reordered_getn [OF p'(2), of "''input_per_1m''"] reordered_getn [OF p'(2), of "''output_per_1m''"] p(3,4) by (auto dest: reordered_leaf)
  moreover from this have "p' \<noteq> []" by (auto simp: getn_def)
  moreover have "getn m' ''models'' = JArr (map JStr models)" "getn m' ''privacy_modes'' = JArr (map JStr modes)"
    using get [of "''models''"] get [of "''privacy_modes''"] assms(2) by (auto simp: priced_terms_def dest: reordered_array)
  ultimately show ?thesis using assms(2) p'(1) by (simp add: priced_terms_def)
qed

lemma plain_terms_reordered:
  "reordered (JObj m) (JObj m') \<Longrightarrow> plain_terms m models i out modes \<Longrightarrow> plain_terms m' models i out modes"
  using priced_terms_reordered reordered_getn [of m m' "''benchmark''"] by (auto simp: plain_terms_def dest: reordered_leaf)

lemma usdc_draft_plain:
  assumes "sign_document P (usdc_terms P kp url b published) kp = Inr m"
  shows "getn m ''provider_pubkey'' = JStr (public_key_str P kp)" "getn m ''manifest_uri'' = JStr url" "getn m ''models'' = JArr (map JStr [MODEL])"
    and "priced_terms m [MODEL] INPUT_PER_1M OUTPUT_PER_1M [''direct'']" "getn m ''published_at'' = JStr published"
    and "getn m ''benchmark'' = (case b of None \<Rightarrow> JNull | Some d \<Rightarrow> JObj d)"
    and "(\<And>d. b = Some d \<Longrightarrow> plain_dicts (JObj d)) \<Longrightarrow> plain_dicts (JObj m)"
proof -
  have get: "k \<noteq> ''signature'' \<Longrightarrow> getn m k = getn (usdc_terms P kp url b published) k" for k
    using sign_document_fields [OF assms] by (simp add: getn_def)
  note defs = usdc_terms_def build_provider_manifest_def manifest_defaults_def optional_field_def jstrs_def
  show "getn m ''provider_pubkey'' = JStr (public_key_str P kp)" "getn m ''manifest_uri'' = JStr url" "getn m ''models'' = JArr (map JStr [MODEL])"
    "getn m ''published_at'' = JStr published" "getn m ''benchmark'' = (case b of None \<Rightarrow> JNull | Some d \<Rightarrow> JObj d)"
    by (simp_all add: get) (cases b; simp add: defs getn_def)+
  show "priced_terms m [MODEL] INPUT_PER_1M OUTPUT_PER_1M [''direct'']"
    by (cases b) (simp_all add: priced_terms_def get, simp_all add: defs getn_def)
  have "list_all plain_dicts (map JStr xs)" for xs by (simp add: list_all_iff)
  then have "plain_dicts (JObj (usdc_terms P kp url b published))" if "\<And>d. b = Some d \<Longrightarrow> plain_dicts (JObj d)"
    using that by (cases b) (simp_all add: defs)
  then show "plain_dicts (JObj m)" if "\<And>d. b = Some d \<Longrightarrow> plain_dicts (JObj d)" using plain_signed [OF assms] that by blast
qed

lemma usdc_signed:
  assumes "\<And>d. b = Some d \<Longrightarrow> json_ok (JObj d)"
  obtains m where "sign_document P (usdc_terms P kp url b published) kp = Inr m"
proof -
  have "list_all json_ok (map JStr xs)" for xs by (simp add: list_all_iff)
  moreover have "json_ok (JFloat INPUT_PER_1M)" "json_ok (JFloat OUTPUT_PER_1M)" using usdc_rates by (auto simp: double_def split: pyfloat.split)
  ultimately have "json_ok (JObj (usdc_terms P kp url b published))"
    using assms by (cases b) (simp_all add: usdc_terms_def build_provider_manifest_def manifest_defaults_def optional_field_def jstrs_def)
  then show thesis using sign_document_total that by blast
qed

text \<open>The schema accepts the manifest a node signs at an address.\<close>

definition manifest_passes :: "platform \<Rightarrow> keypair \<Rightarrow> string \<Rightarrow> dict option \<Rightarrow> string \<Rightarrow> bool" where
  "manifest_passes P kp url b published \<longleftrightarrow>
     (\<forall>m. sign_document P (usdc_terms P kp url b published) kp = Inr m \<longrightarrow> schema_accepts P ''provider_manifest'' m)"

lemma usdc_verified:
  assumes "sign_document P (usdc_terms P kp url b published) kp = Inr m" "ed25519_laws P" "manifest_passes P kp url b published"
  shows "verify_provider_manifest P m = Inr True"
proof -
  have "getn (usdc_terms P kp url b published) ''provider_pubkey'' = JStr (public_key_str P kp)"
    by (cases b) (simp_all add: usdc_terms_def build_provider_manifest_def manifest_defaults_def optional_field_def getn_def)
  from sign_verify_document [OF assms(2,1) _ this] show ?thesis
    using assms(1,3) by (simp add: verify_provider_manifest_def verify_checked_True manifest_passes_def)
qed

text \<open>The one provider of a directory, announced for the first time or again.\<close>

lemma alone_on_file:
  assumes "listing P k m" "schema_unordered P" "wanted model (row_provider m)" "load_raw file = [] \<or> (\<exists>x. load_raw file = [(k, x)])"
  obtains m' where "file_announce P m None file = (Inr k, write_raw [(k, JObj [(''manifest'', JObj m)])])"
    "file_discover P model (write_raw [(k, JObj [(''manifest'', JObj m)])]) = (Inr [row_provider m'], write_raw [(k, JObj [(''manifest'', JObj m)])])"
    "load_raw (write_raw [(k, JObj [(''manifest'', JObj m)])]) = [(k, JObj [(''manifest'', JObj m')])]"
    "reordered (JObj m) (JObj m')" "listing P k m'"
proof -
  let ?file = "write_raw [(k, JObj [(''manifest'', JObj m)])]"
  obtain m' where m': "sort_keys (JObj m) = JObj m'" "reordered (JObj m) (JObj m')" "listing P k m'"
    using listing_sorted [OF assms(2,1)] by blast
  obtain uri where uri: "getn m ''manifest_uri'' = JStr uri" "uri \<noteq> []" using assms(1) by (auto simp: listing_def)
  have "verify_provider_manifest P m = Inr True" "getn m ''provider_pubkey'' = JStr k" using assms(1) by (simp_all add: listing_def)
  moreover from this have "getitem m ''provider_pubkey'' = Inr (JStr k)" by (intro getn_JStr_getitem)
  ultimately have ann: "file_announce P m None f = (Inr k, write_raw (dict_set k (JObj [(''manifest'', JObj m)]) (load_raw f)))" for f
    using uri by (simp add: file_announce_def announceable_def require_verified_def signed_endpoint_def)
  have none: "load_raw None = []" by (simp add: load_raw_def)
  have first: "file_announce P m None None = (Inr k, ?file)" using ann [of None] by (simp add: none)
  have again: "file_announce P m None file = (Inr k, ?file)" using ann [of "file"] assms(4) by auto
  have rows: "load_raw ?file = [(k, JObj [(''manifest'', JObj m')])]"
    using m'(1) by (simp add: load_raw_def write_raw_def del: sort_keys.simps(2)) (simp add: m'(1) [symmetric])
  have "announced_file P ?file" using announce_keeps_file [OF first no_file_announced assms(2,1)] by simp
  from announced_file_discovered [OF this, of model] rows assms(3) reordered_same_models(1) [OF m'(2) assms(1) m'(3), of model]
  have "file_discover P model ?file = (Inr [row_provider m'], ?file)" by (simp add: row_of_def entry_manifest_def getn_def)
  with again rows m'(2,3) show thesis by (intro that)
qed


lemma usdc_listing:
  assumes "sign_document P (usdc_terms P kp url b published) kp = Inr m" "ed25519_laws P" "manifest_passes P kp url b published"
    and "url \<noteq> []" "\<And>d. b = Some d \<Longrightarrow> plain_dicts (JObj d)"
  shows "listing P (public_key_str P kp) m" "wanted (Some MODEL) (row_provider m)" "d_base_url (row_provider m) = url"
proof -
  note f = usdc_draft_plain [OF assms(1)]
  have models: "\<exists>ms. getn m ''models'' = JArr (map JStr ms)" using f(3) by blast
  with usdc_verified [OF assms(1-3)] f(1,2) f(7) [OF assms(5)] assms(4) show l: "listing P (public_key_str P kp) m" by (simp add: listing_def)
  show "d_base_url (row_provider m) = url" using f(2) by (simp add: row_provider_def)
  from listing_admitted(3) [OF l] f(3) show "wanted (Some MODEL) (row_provider m)"
    by (auto simp: wanted_def dest!: map_injective simp: inj_def)
qed

lemma usdc_started:
  "m \<noteq> [] \<Longrightarrow> create_app P (usdc_site kp) (Some m) logging now None None = Inr ((usdc_site kp)\<lparr>gw_manifest := m\<rparr>, fresh_state)"
  by (simp add: create_app_def fresh_state_def)

text \<open>The discovery script finds the one node that announced itself, routes to it and ends with exit code 0.\<close>

theorem discovery_main_succeeds:
  assumes "ed25519_laws P" "schema_unordered P" "manifest_passes P kp discovered_node None (utc_iso now)"
    and "receipts_pass P I (usdc_site kp) (client_asks rid (user_says what_is_it)) (echoed what_is_it)"
  shows "\<exists>s'. discovery_main P I kp now rid (None, w) =
    (Inr \<lparr>dd_exit_code = 0, dd_discovered_count = 1, dd_served_by = discovered_node, dd_receipt_verified = True\<rparr>, s')"
proof -
  obtain m where m: "sign_document P (usdc_terms P kp discovered_node None (utc_iso now)) kp = Inr m" by (rule usdc_signed [where b = None]) auto
  have url: "discovered_node \<noteq> []" by (simp add: discovered_node_def)
  note l = usdc_listing [OF m assms(1,3) url, simplified]
  obtain m' where dir: "file_announce P m None None = (Inr (public_key_str P kp), write_raw [(public_key_str P kp, JObj [(''manifest'', JObj m)])])"
    "file_discover P (Some MODEL) (write_raw [(public_key_str P kp, JObj [(''manifest'', JObj m)])]) =
       (Inr [row_provider m'], write_raw [(public_key_str P kp, JObj [(''manifest'', JObj m)])])"
    "reordered (JObj m) (JObj m')" "listing P (public_key_str P kp) m'" by (rule alone_on_file [OF l(1) assms(2) l(2)]) (auto simp: load_raw_def)
  let ?e = "entry_of (row_provider m')" and ?app = "((usdc_site kp)\<lparr>gw_manifest := m\<rparr>, fresh_state)"
  let ?I = "with_apps [(discovered_node, ?app)] I"
  have e: "base_url ?e = discovered_node" "manifest ?e = m'"
    using reordered_same_models(2) [OF dir(3) l(1) dir(4)] l(3) by (simp_all add: entry_of_def)
  have "plain_terms m' [MODEL] INPUT_PER_1M OUTPUT_PER_1M [''direct'']" using plain_terms_reordered [OF dir(3)] usdc_draft_plain(4,6) [OF m] by (simp add: plain_terms_def)
  then have order: "resolve P [?e] MODEL (Some ''direct'') None False = Inr ([] @ ?e # [])"
    using e(2) by (simp add: resolved_in_order [where models = "[MODEL]"])
  have site: "sites ?I (base_url ?e) = Some ((usdc_site kp)\<lparr>gw_manifest := m\<rparr>)" by (simp add: e(1) with_apps_def)
  have key: "getn (manifest ?e) ''provider_pubkey'' = JStr (public_key_str P (gw_keypair ((usdc_site kp)\<lparr>gw_manifest := m\<rparr>)))"
    using dir(4) by (simp add: e(2) listing_def usdc_site_terms(3))
  have pass: "receipts_pass P ?I ((usdc_site kp)\<lparr>gw_manifest := m\<rparr>) (client_asks rid (user_says what_is_it)) (echoed what_is_it)" using assms(4) by simp
  obtain r w1 where r: "client_chat P (down_client_factory P ?I []) [?e] (client_asks rid (user_says what_is_it)) None (started [(discovered_node, ?app)] w) =
      (Inr (r, None), w1)" "rr_base_url r = discovered_node" "receipt_valid P (rr_receipt r) = Inr True"
    using script_chat [OF order _ _ site key usdc_site_terms(1,2) what_is_it_short pass assms(1)] e(1) by (metis empty_iff list.set(1))
  have "discovery_main P I kp now rid (None, w) =
    (Inr \<lparr>dd_exit_code = 0, dd_discovered_count = 1, dd_served_by = discovered_node, dd_receipt_verified = True\<rparr>,
       (write_raw [(public_key_str P kp, JObj [(''manifest'', JObj m)])], w1))"
    using r dir(1,2) m usdc_started [OF signed_nonempty [OF m]]
    by (simp add: discovery_main_def build_shared_node_def sign_provider_manifest_def on_file_def on_mesh_def dbind_def dres_def dret_def
        registry_add_def sync_client_factory_def Let_def)
  then show ?thesis by blast
qed

end
