(* ===== verification/DecentralizedDemo.thy ===== *)
theory DecentralizedDemo
  imports DiscoveryDemo Nosana
begin

text \<open>
  \<^verbatim>\<open>decentralized_demo.py\<close>: a node is provisioned through the Nosana adapter, advertised with its deployment's terms,
  routed to, and its manifest and receipt are anchored.
\<close>

definition nosana_node :: string where
  "nosana_node = ''http://sin-node-nosana''"

definition MARKET :: string where
  "MARKET = ''nvidia-3090''"

definition GATEWAY_IMAGE :: string where
  "GATEWAY_IMAGE = ''ghcr.io/sovereign-inference/sip-gateway:latest''"

definition build_node_gateway :: "platform \<Rightarrow> keypair \<Rightarrow> int \<Rightarrow> app res" where
  "build_node_gateway P kp now = create_app P (usdc_site kp) None ''no_prompt_logging'' now None None"

text \<open>The stand-in for the command line: what it prints, parsed; nothing where it prints no JSON.\<close>

definition fake_nosana_cli :: "string \<Rightarrow> unit shell" where
  "fake_nosana_cli node_url = \<lparr>run = (\<lambda>argv s. (let joined = join '' '' argv in Inr (
       if contains_text ''job post'' joined then Some (JObj [(''job'', JStr ''JOB_DEMO_1''), (''state'', JStr ''QUEUED'')])
       else if contains_text ''job get'' joined
       then Some (JObj [(''job'', JStr ''JOB_DEMO_1''), (''state'', JStr ''RUNNING''), (''serviceUrl'', JStr node_url)])
       else if contains_text ''job stop'' joined then None
       else Some (JObj [])), s)), pause = id\<rparr>"

definition demo_provider :: nosana where
  "demo_provider = \<lparr>ns_market = MARKET, ns_cli = ''nosana'', ns_timeout = 3600, ns_max_polls = 120\<rparr>"

definition node_spec :: inference_spec where
  "node_spec = \<lparr>sp_model = MODEL, sp_image = GATEWAY_IMAGE, sp_port = 8080, sp_gpu = True, sp_gpu_model = None, sp_cpu = ''1'',
     sp_memory = ''8Gi'', sp_command = None, sp_env = [], sp_input_per_1m = INPUT_PER_1M, sp_output_per_1m = OUTPUT_PER_1M, sp_unit = ''usdc''\<rparr>"

definition provision_node :: "string \<Rightarrow> string \<Rightarrow> deployment res" where
  "provision_node node_url job_path = fst (
     abind (alift (check_spec node_spec)) (\<lambda>spec.
     abind (nosana_deploy (fake_nosana_cli node_url) demo_provider job_path spec)
       (nosana_await (fake_nosana_cli node_url) demo_provider)) \<lparr>outer = (), temp_files = []\<rparr>)"

record decentralized_result =
  dc_exit_code :: int
  dc_manifest_uri :: string
  dc_receipt_uri :: string
  dc_input_tokens :: int
  dc_output_tokens :: int
  dc_endpoint :: string

definition node_options :: manifest_options where
  "node_options = default_options\<lparr>mo_models := Some [MODEL], mo_input := Some INPUT_PER_1M, mo_output := Some OUTPUT_PER_1M,
     mo_unit := Some ''usdc'', mo_max_context := 8192\<rparr>"

text \<open>The script works on the storage behind the anchor and on the network.\<close>

definition on_store :: "('s, 'a) act \<Rightarrow> ('s \<times> mesh, 'a) script" where
  "on_store f s = (case f (fst s) of (Inl x, st) \<Rightarrow> (Inl (Escaped x), (st, snd s)) | (Inr y, st) \<Rightarrow> (Inr y, (st, snd s)))"

definition on_net :: "(mesh, 'a) script \<Rightarrow> ('s \<times> mesh, 'a) script" where
  "on_net f s = (case f (snd s) of (r, w) \<Rightarrow> (r, (fst s, w)))"

definition tokens_of :: "dict \<Rightarrow> (int \<times> int) res" where
  "tokens_of receipt = rbind (rbind (getitem receipt ''input_tokens'') py_int) (\<lambda>i.
     rbind (rbind (getitem receipt ''output_tokens'') py_int) (\<lambda>out. Inr (i, out)))"

definition anchored_route :: "platform \<Rightarrow> internet \<Rightarrow> 's anchor \<Rightarrow> app \<Rightarrow> dict \<Rightarrow> string \<Rightarrow> string \<Rightarrow> string \<Rightarrow>
    ('s \<times> mesh, decentralized_result) script" where
  "anchored_route P I A app m manifest_uri endpoint rid =
     (let apps = [(nosana_node, app)]; reg = registry_add \<lparr>base_url = nosana_node, manifest = m\<rparr> [] in
      dbind (on_net (\<lambda>w. client_chat P (sync_client_factory P (with_apps apps I)) reg (client_asks rid (user_says what_is_it)) None (started apps w)))
        (\<lambda>(result, _).
      dbind (dres (receipt_valid P (rr_receipt result))) (\<lambda>good.
        if \<not> good then dret \<lparr>dc_exit_code = 1, dc_manifest_uri = manifest_uri, dc_receipt_uri = [], dc_input_tokens = 0,
          dc_output_tokens = 0, dc_endpoint = endpoint\<rparr>
        else (case the_obj (rr_receipt result) of None \<Rightarrow> dres (Inl AttributeError)
          | Some receipt \<Rightarrow>
              dbind (on_store (anchor_receipt P A receipt [])) (\<lambda>receipt_uri.
              dbind (dres (tokens_of receipt)) (\<lambda>(i, out).
                dret \<lparr>dc_exit_code = 0, dc_manifest_uri = manifest_uri, dc_receipt_uri = receipt_uri, dc_input_tokens = i,
                  dc_output_tokens = out, dc_endpoint = endpoint\<rparr>))))))"

definition decentralized_main :: "platform \<Rightarrow> internet \<Rightarrow> 's anchor \<Rightarrow> keypair \<Rightarrow> string \<Rightarrow> (nat \<Rightarrow> int) \<Rightarrow> string \<Rightarrow>
    ('s \<times> mesh, decentralized_result) script" where
  "decentralized_main P I A kp job_path now rid =
     dbind (dres (provision_node nosana_node job_path)) (\<lambda>d.
       let failed = \<lparr>dc_exit_code = 1, dc_manifest_uri = [], dc_receipt_uri = [], dc_input_tokens = 0, dc_output_tokens = 0, dc_endpoint = []\<rparr>;
           endpoint = (case dp_endpoint d of None \<Rightarrow> [] | Some u \<Rightarrow> u) in
       if \<not> is_ready d then dret failed
       else dbind (dres (build_node_gateway P kp (now 0))) (\<lambda>app.
         dbind (dres (provider_manifest_for P d kp node_options (now 1))) (\<lambda>m.
         dbind (dres (verify_provider_manifest P m)) (\<lambda>good.
           if \<not> good then dret (failed\<lparr>dc_endpoint := endpoint\<rparr>)
           else dbind (on_store (anchor_manifest P A m [])) (\<lambda>uri. anchored_route P I A app m uri endpoint rid)))))"

definition decentralized_run :: "platform \<Rightarrow> internet \<Rightarrow> 's anchor \<Rightarrow> keypair \<Rightarrow> string \<Rightarrow> (nat \<Rightarrow> int) \<Rightarrow> string \<Rightarrow> ('s \<times> mesh, int) script" where
  "decentralized_run P I A kp job_path now rid = dbind (decentralized_main P I A kp job_path now rid) (\<lambda>r. dret (dc_exit_code r))"

definition local_anchor :: "platform \<Rightarrow> store anchor" where
  "local_anchor P = \<lparr>a_put = (\<lambda>data _ _. local_put P data), a_get = local_get\<rparr>"

lemma contains_middle: "contains_text t (a @ t @ b)"
proof -
  have "startswith (drop (length a) (a @ t @ b)) t" by (simp add: startswith_def)
  then show ?thesis unfolding contains_text_def list_ex_iff by (intro bexI [of _ "length a"]) simp_all
qed

lemma fake_posts: "run (fake_nosana_cli u) (post_argv demo_provider p) s = (Inr (Some (JObj [(''job'', JStr ''JOB_DEMO_1''), (''state'', JStr ''QUEUED'')])), s)"
proof -
  have "join '' '' (post_argv demo_provider p) = ''nosana '' @ ''job post'' @ '' '' @ join '' '' (drop 3 (post_argv demo_provider p))"
    by (simp add: post_argv_def demo_provider_def join_def)
  then have "contains_text ''job post'' (join '' '' (post_argv demo_provider p))" using contains_middle by metis
  then show ?thesis by (simp add: fake_nosana_cli_def)
qed

lemma fake_gets: "run (fake_nosana_cli u) (get_argv demo_provider ''JOB_DEMO_1'') s =
  (Inr (Some (JObj [(''job'', JStr ''JOB_DEMO_1''), (''state'', JStr ''RUNNING''), (''serviceUrl'', JStr u)])), s)"
proof -
  have "\<not> contains_text ''job post'' (join '' '' (get_argv demo_provider ''JOB_DEMO_1''))"
    "contains_text ''job get'' (join '' '' (get_argv demo_provider ''JOB_DEMO_1''))"
    by (simp_all add: get_argv_def demo_provider_def) code_simp+
  then show ?thesis by (simp add: fake_nosana_cli_def Let_def)
qed

lemma node_provisioned:
  obtains d where "provision_node nosana_node job_path = Inr d" "is_ready d" "dp_endpoint d = Some nosana_node" "dp_provider d = ''nosana''" "dp_model d = MODEL"
proof -
  have spec: "check_spec node_spec = Inr node_spec"
    by (simp add: check_spec_def node_spec_def MODEL_def GATEWAY_IMAGE_def py_strip_def is_space_def)
  have node: "nosana_node \<noteq> []" by (simp add: nosana_node_def)
  define d0 where "d0 = \<lparr>dp_provider = ''nosana'', dp_id = ''JOB_DEMO_1'', dp_model = MODEL, dp_status = Pending, dp_endpoint = None,
    dp_unit = Some ''usdc'', dp_input = Some INPUT_PER_1M, dp_output = Some OUTPUT_PER_1M,
    dp_raw = [(''job'', JStr ''JOB_DEMO_1''), (''state'', JStr ''QUEUED'')]\<rparr>"
  have "nosana_deploy (fake_nosana_cli nosana_node) demo_provider job_path node_spec \<lparr>outer = (), temp_files = []\<rparr> = (Inr d0, \<lparr>outer = (), temp_files = []\<rparr>)"
    by (simp add: nosana_deploy_def with_temp_def run_on_def fake_posts abind_def alift_def nosana_object_def nosana_handle_def d0_def node_spec_def
        first_text_def job_id_keys_def service_url_keys_def getn_def map_state_def state_map_def py_strip_def is_space_def py_lower_def lower_char_def
        List.map_filter_simps Let_def dict_without_def)
  moreover define d1 where "d1 = d0\<lparr>dp_status := Running, dp_endpoint := Some nosana_node,
    dp_raw := [(''job'', JStr ''JOB_DEMO_1''), (''state'', JStr ''RUNNING''), (''serviceUrl'', JStr nosana_node)]\<rparr>"
  have "map_state (JStr ''RUNNING'') = Some Running" by code_simp
  then have "nosana_status (fake_nosana_cli nosana_node) demo_provider d0 h = (Inr d1, h)" for h
    using node by (simp add: nosana_status_def run_on_def d0_def fake_gets abind_def alift_def nosana_object_def nosana_refreshed_def d1_def
        first_text_def service_url_keys_def getn_def List.map_filter_simps)
  moreover have ready: "is_ready d1" using node by (simp add: is_ready_def d1_def)
  moreover from this have "poll refresh rest n d1 = aret d1" for refresh :: "deployment \<Rightarrow> (unit host, deployment) act" and rest n
    by (cases n) simp_all
  ultimately have "provision_node nosana_node job_path = Inr d1"
    by (simp add: provision_node_def spec alift_def abind_def nosana_await_def await_ready_def aret_def)
  then show thesis using ready by (intro that [of d1]) (simp_all add: d1_def d0_def)
qed


lemma receipt_tokens:
  assumes "chat_receipt P g rid mode model messages result required m = Inr receipt"
  shows "tokens_of receipt = Inr (input_tokens result, output_tokens result)" "json_ok (JObj receipt)"
proof -
  obtain args where s: "sign_document P (build_receipt args) (gw_keypair g) = Inr receipt"
    and args: "r_input_tokens args = input_tokens result" "r_output_tokens args = output_tokens result"
    using assms by (auto simp: chat_receipt_def rbind_eq_Inr sign_receipt_def)
  show "json_ok (JObj receipt)" by (rule signed_json_ok [OF s build_receipt_ok])
  have "dict_get (build_receipt args) ''input_tokens'' = Some (JInt (input_tokens result))"
    "dict_get (build_receipt args) ''output_tokens'' = Some (JInt (output_tokens result))"
    by (cases "r_request_hash args"; cases "r_runtime_version args"; simp add: build_receipt_def args optional_field_def dict_simps)+
  then have "dict_get receipt ''input_tokens'' = Some (JInt (input_tokens result))" "dict_get receipt ''output_tokens'' = Some (JInt (output_tokens result))"
    using sign_document_fields [OF s] by simp_all
  then show "tokens_of receipt = Inr (input_tokens result, output_tokens result)" by (simp add: tokens_of_def getitem_def)
qed

lemma local_put_total: "\<exists>uri st'. local_put P data st = (Inr uri, st')"
  by (simp add: local_put_def Let_def)

lemma manifest_anchored:
  assumes "verify_provider_manifest P m = Inr True" "json_ok (JObj m)"
  shows "\<exists>uri st'. anchor_manifest P (local_anchor P) m [] st = (Inr uri, st')"
  using canonical_json_total [OF assms(2)] local_put_total assms(1)
  by (fastforce simp: anchor_manifest_def anchor_json_def abind_def alift_def aret_def local_anchor_def)

lemma receipt_anchored:
  assumes "receipt_valid P (JObj receipt) = Inr True" "json_ok (JObj receipt)"
  shows "\<exists>uri st'. anchor_receipt P (local_anchor P) receipt [] st = (Inr uri, st')"
  using canonical_json_total [OF assms(2)] local_put_total assms(1)
  by (fastforce simp: anchor_receipt_def anchor_json_def abind_def alift_def aret_def local_anchor_def receipt_valid_def rbind_eq_Inr)

lemma node_app:
  obtains m where "build_node_gateway P kp now = Inr ((usdc_site kp)\<lparr>gw_manifest := m\<rparr>, fresh_state)"
proof -
  have reads: "float_of_str (float_repr f) = Inr f" "json_ok (JFloat f)" if "double f" for f
    using that float_repr_read_back by (auto simp: double_def simp del: float_repr.simps split: pyfloat.split)
  have c: "input_per_1m (usdc_site kp) = float_repr INPUT_PER_1M" "output_per_1m (usdc_site kp) = float_repr OUTPUT_PER_1M"
    "allowed_models (usdc_site kp) = [MODEL]"
    by (simp_all add: usdc_site_def script_site_def local_gateway_def)
  show thesis
  proof (rule started_app [where P = P and c = "usdc_site kp" and logging = "''no_prompt_logging''" and now = now and shared = None and ledger = None])
    show "float_of_str (input_per_1m (usdc_site kp)) = Inr INPUT_PER_1M" "float_of_str (output_per_1m (usdc_site kp)) = Inr OUTPUT_PER_1M"
      "json_ok (JFloat INPUT_PER_1M)" "json_ok (JFloat OUTPUT_PER_1M)" "allowed_models (usdc_site kp) \<noteq> []"
      using usdc_rates [THEN reads(1)] usdc_rates [THEN reads(2)] by (simp_all add: c del: float_repr.simps)
  next
    fix m assume "create_app P (usdc_site kp) None ''no_prompt_logging'' now None None =
        Inr ((usdc_site kp)\<lparr>gw_manifest := m\<rparr>, \<lparr>spent_keys = (case None of None \<Rightarrow> {} | Some S \<Rightarrow> S), gw_ledger = None, hits = []\<rparr>)"
    then show thesis by (intro that [of m]) (simp add: build_node_gateway_def fresh_state_def)
  qed
qed

lemma node_advertised:
  assumes "dp_endpoint d = Some nosana_node"
  obtains m where "provider_manifest_for P d kp node_options now = Inr m" "json_ok (JObj m)"
    "plain_terms m [MODEL] INPUT_PER_1M OUTPUT_PER_1M [''direct'']" "getn m ''provider_pubkey'' = JStr (public_key_str P kp)"
    "sign_document P (external_manifest P d nosana_node kp node_options now) kp = Inr m"
proof -
  let ?draft = "external_manifest P d nosana_node kp node_options now"
  have "list_all json_ok (map JStr xs)" for xs by (simp add: list_all_iff)
  then have ok: "json_ok (JObj ?draft)"
    using usdc_rates by (auto simp: external_manifest_def node_options_def default_options_def optional_field_def jstrs_def pick_def double_def split: pyfloat.split)
  then obtain m where m: "sign_document P ?draft kp = Inr m" using sign_document_total by blast
  have get: "k \<noteq> ''signature'' \<Longrightarrow> getn m k = getn ?draft k" for k using sign_document_fields [OF m] by (simp add: getn_def)
  note defs = external_manifest_def node_options_def default_options_def optional_field_def jstrs_def pick_def getn_def
  have "plain_terms m [MODEL] INPUT_PER_1M OUTPUT_PER_1M [''direct'']" "getn m ''provider_pubkey'' = JStr (public_key_str P kp)"
    by (simp_all add: plain_terms_def priced_terms_def get) (simp_all add: defs)
  moreover have "provider_manifest_for P d kp node_options now = Inr m"
    using m assms by (simp add: provider_manifest_for_def sign_provider_manifest_def) (simp add: nosana_node_def)
  ultimately show thesis using that signed_json_ok [OF m ok] m by blast
qed


text \<open>The schema accepts the manifest of the provisioned node.\<close>

definition external_passes :: "platform \<Rightarrow> keypair \<Rightarrow> int \<Rightarrow> bool" where
  "external_passes P kp now \<longleftrightarrow> (\<forall>d m. dp_endpoint d = Some nosana_node \<and> dp_provider d = ''nosana'' \<and> dp_model d = MODEL \<and>
     sign_document P (external_manifest P d nosana_node kp node_options now) kp = Inr m \<longrightarrow> schema_accepts P ''provider_manifest'' m)"

lemma anchored_route_served:
  assumes node: "plain_terms m [MODEL] INPUT_PER_1M OUTPUT_PER_1M [''direct'']" "getn m ''provider_pubkey'' = JStr (public_key_str P kp)"
    and laws: "ed25519_laws P" and pass: "receipts_pass P I (usdc_site kp) (client_asks rid (user_says what_is_it)) (echoed what_is_it)"
  shows "\<exists>receipt_uri s'. anchored_route P I (local_anchor P) ((usdc_site kp)\<lparr>gw_manifest := mm\<rparr>, fresh_state) m uri endpoint rid (st, w) =
    (Inr \<lparr>dc_exit_code = 0, dc_manifest_uri = uri, dc_receipt_uri = receipt_uri, dc_input_tokens = word_count what_is_it,
       dc_output_tokens = word_count (''echo: '' @ what_is_it), dc_endpoint = endpoint\<rparr>, s')"
proof -
  let ?app = "((usdc_site kp)\<lparr>gw_manifest := mm\<rparr>, fresh_state)"
  let ?e = "\<lparr>base_url = nosana_node, manifest = m\<rparr>" and ?I = "with_apps [(nosana_node, ?app)] I"
  have order: "resolve P [?e] MODEL (Some ''direct'') None False = Inr ([] @ ?e # [])"
    using node(1) by (simp add: resolved_in_order [where models = "[MODEL]"])
  have site: "sites ?I (base_url ?e) = Some ((usdc_site kp)\<lparr>gw_manifest := mm\<rparr>)" by (simp add: with_apps_def)
  have key: "getn (manifest ?e) ''provider_pubkey'' = JStr (public_key_str P (gw_keypair ((usdc_site kp)\<lparr>gw_manifest := mm\<rparr>)))"
    using node(2) by (simp add: usdc_site_terms(3))
  have ok: "receipts_pass P ?I ((usdc_site kp)\<lparr>gw_manifest := mm\<rparr>) (client_asks rid (user_says what_is_it)) (echoed what_is_it)" using pass by simp
  have none: "\<forall>d\<in>set []. base_url d \<in> set []" "base_url ?e \<notin> set []" by simp_all
  obtain r w1 receipt k where r: "client_chat P (down_client_factory P ?I []) [?e] (client_asks rid (user_says what_is_it)) None (started [(nosana_node, ?app)] w) =
      (Inr (r, None), w1)" "receipt_valid P (rr_receipt r) = Inr True" "rr_receipt r = JObj receipt"
    "chat_receipt P ((usdc_site kp)\<lparr>gw_manifest := mm\<rparr>) rid ''direct'' MODEL (user_says what_is_it) (echoed what_is_it) None (site_clock ?I k) = Inr receipt"
    by (rule script_chat [OF order none site key usdc_site_terms(1,2) what_is_it_short ok laws])
  obtain receipt_uri st' where "anchor_receipt P (local_anchor P) receipt [] st = (Inr receipt_uri, st')"
    using receipt_anchored [of P receipt st] r(2,3) receipt_tokens(2) [OF r(4)] by auto
  with r receipt_tokens(1) [OF r(4)] show ?thesis
    by (simp add: anchored_route_def on_net_def on_store_def dbind_def dres_def dret_def registry_add_def sync_client_factory_def Let_def echoed_def)
qed

text \<open>The decentralized script deploys the node, advertises it, routes to it and anchors manifest and receipt; it ends with exit
  code 0.\<close>

theorem decentralized_main_succeeds:
  assumes "ed25519_laws P" "external_passes P kp (now 1)"
    and "receipts_pass P I (usdc_site kp) (client_asks rid (user_says what_is_it)) (echoed what_is_it)"
  shows "\<exists>r s'. decentralized_main P I (local_anchor P) kp job_path now rid (st, w) = (Inr r, s') \<and> dc_exit_code r = 0 \<and>
    dc_endpoint r = nosana_node \<and> dc_input_tokens r = word_count what_is_it \<and> dc_output_tokens r = word_count (''echo: '' @ what_is_it)"
proof -
  obtain d where d: "provision_node nosana_node job_path = Inr d" "is_ready d" "dp_endpoint d = Some nosana_node" "dp_provider d = ''nosana''" "dp_model d = MODEL"
    by (rule node_provisioned)
  obtain mm where app: "build_node_gateway P kp (now 0) = Inr ((usdc_site kp)\<lparr>gw_manifest := mm\<rparr>, fresh_state)" by (rule node_app)
  obtain m where m: "provider_manifest_for P d kp node_options (now 1) = Inr m" "json_ok (JObj m)"
    "plain_terms m [MODEL] INPUT_PER_1M OUTPUT_PER_1M [''direct'']" "getn m ''provider_pubkey'' = JStr (public_key_str P kp)"
    "sign_document P (external_manifest P d nosana_node kp node_options (now 1)) kp = Inr m" by (rule node_advertised [OF d(3)])
  have "getn (external_manifest P d nosana_node kp node_options (now 1)) ''provider_pubkey'' = JStr (public_key_str P kp)"
    by (simp add: external_manifest_def optional_field_def node_options_def default_options_def getn_def)
  then have "verify_document P ''provider_pubkey'' m = Inr True" using sign_verify_document [OF assms(1) m(5)] by simp
  moreover have "schema_accepts P ''provider_manifest'' m" using assms(2) d(3-5) m(5) unfolding external_passes_def by blast
  ultimately have verified: "verify_provider_manifest P m = Inr True" by (simp add: verify_provider_manifest_def verify_checked_True)
  obtain uri st' where uri: "anchor_manifest P (local_anchor P) m [] st = (Inr uri, st')" using manifest_anchored [OF verified m(2)] by blast
  obtain receipt_uri s' where "anchored_route P I (local_anchor P) ((usdc_site kp)\<lparr>gw_manifest := mm\<rparr>, fresh_state) m uri nosana_node rid (st', w) =
    (Inr \<lparr>dc_exit_code = 0, dc_manifest_uri = uri, dc_receipt_uri = receipt_uri, dc_input_tokens = word_count what_is_it,
       dc_output_tokens = word_count (''echo: '' @ what_is_it), dc_endpoint = nosana_node\<rparr>, s')"
    using anchored_route_served [OF m(3,4) assms(1,3)] by blast
  with d app m(1) verified uri show ?thesis
    by (simp add: decentralized_main_def on_store_def dbind_def dres_def Let_def del: One_nat_def)
qed

end
