(* ===== verification/PayDemo.thy ===== *)
theory PayDemo
  imports RoutingDemo
begin

text \<open>
  \<^verbatim>\<open>pay_demo.py\<close>: a client pays a gateway per request with vouchers; wallet and ledger must balance, and a batch that has
  been redeemed is refused.
\<close>

subsection \<open>Decimal arithmetic of the script\<close>

fun dec_negate :: "dec \<Rightarrow> dec" where
  "dec_negate (DFin n m e) = DFin (\<not> n) m e"
| "dec_negate (DInf n) = DInf (\<not> n)"
| "dec_negate (DNaN s) = DNaN s"

definition dec_sub :: "dec \<Rightarrow> dec \<Rightarrow> dec res" where
  "dec_sub a b = dec_add a (dec_negate b)"

text \<open>\<^verbatim>\<open>a == b\<close>: a NaN equals nothing, and a signalling one raises.\<close>

definition dec_equal :: "dec \<Rightarrow> dec \<Rightarrow> bool res" where
  "dec_equal a b = (if a = DNaN True \<or> b = DNaN True then Inl InvalidOperation
     else Inr (\<not> is_nan a \<and> \<not> is_nan b \<and> dec_le_val a b \<and> dec_le_val b a))"

subsection \<open>The script\<close>

definition PRICE_PER_WORD :: string where
  "PRICE_PER_WORD = ''0.01''"

definition PIC :: string where
  "PIC = ''pic''"

definition PAID_PROVIDER :: string where
  "PAID_PROVIDER = ''http://paid-provider''"

definition DEMO_PROMPT :: string where
  "DEMO_PROMPT = ''explain sovereign inference''"

definition paid_site :: "platform \<Rightarrow> keypair \<Rightarrow> issuer \<Rightarrow> gateway_config" where
  "paid_site P kp i = (script_site kp)\<lparr>price_units := PIC, input_per_1m := ''10000'', output_per_1m := ''0'',
     require_payment := True, pic_issuers := [issuer_pubkey P i]\<rparr>"

definition build_paid_gateway_app :: "platform \<Rightarrow> keypair \<Rightarrow> issuer \<Rightarrow> spent_set option \<Rightarrow> ledger option \<Rightarrow> string option \<Rightarrow> int \<Rightarrow> app res" where
  "build_paid_gateway_app P kp i shared ledger tok now =
     create_app P ((paid_site P kp i)\<lparr>token := tok\<rparr>) None ''no_prompt_logging'' now shared ledger"

definition build_free_gateway_app :: "platform \<Rightarrow> keypair \<Rightarrow> string option \<Rightarrow> int \<Rightarrow> app res" where
  "build_free_gateway_app P kp tok now = create_app P ((script_site kp)\<lparr>token := tok, price_units := PIC, input_per_1m := ''10000'', output_per_1m := ''0''\<rparr>)
     None ''no_prompt_logging'' now None None"

definition make_paid_provider_entry :: "platform \<Rightarrow> internet \<Rightarrow> int \<Rightarrow> string \<Rightarrow> app \<Rightarrow> provider_entry res" where
  "make_paid_provider_entry P I k url app = rbind (served_manifest P I k app) (\<lambda>m. Inr \<lparr>base_url = url, manifest = m\<rparr>)"

text \<open>The vouchers of a batch are separate objects.\<close>

definition mint_wallet :: "platform \<Rightarrow> issuer \<Rightarrow> string list \<Rightarrow> int \<Rightarrow> wallet res" where
  "mint_wallet P i ids now = rbind (issue P i PRICE_PER_WORD ids 3600 now) (\<lambda>vs.
     Inr (wallet_add \<lparr>held = []\<rparr> (zip (map int [0..<length vs]) vs)))"

text \<open>Part 3: a fresh voucher over the amount is redeemed once.\<close>

definition double_spend_part :: "platform \<Rightarrow> issuer \<Rightarrow> dec \<Rightarrow> string \<Rightarrow> (nat \<Rightarrow> int) \<Rightarrow> int res" where
  "double_spend_part P i debited fresh now =
     rbind (issue P i (dec_str debited) [fresh] 3600 (now 2)) (\<lambda>batch.
     let payment = build_pic_payment (map JObj batch) in
     rbind (redeem_payment P payment (dec_str debited) PIC [issuer_pubkey P i] (now 3) True None None {}) (\<lambda>(first, S).
     rbind (redeem_payment P payment (dec_str debited) PIC [issuer_pubkey P i] (now 4) True None None S) (\<lambda>(replay, S').
       Inr (if \<not> ok first \<or> ok replay \<or> reason replay \<noteq> ''double_spend'' then 1 else 0))))"

text \<open>Part 1: what the wallet lost is what the ledger gained.\<close>

definition books_part :: "platform \<Rightarrow> keypair \<Rightarrow> dec \<Rightarrow> wallet option \<Rightarrow> ledger option \<Rightarrow> (dec \<times> bool) res" where
  "books_part P kp before wallet ledger =
     rbind (wallet_balance (case wallet of None \<Rightarrow> \<lparr>held = []\<rparr> | Some w \<Rightarrow> w) (Some PIC)) (\<lambda>after.
     rbind (dec_sub before after) (\<lambda>debited.
     rbind (ledger_balance (case ledger of None \<Rightarrow> open_ledger False None | Some l \<Rightarrow> l) (public_key_str P kp) (Some PIC)) (\<lambda>credited.
     rbind (dec_le debited dec_zero) (\<lambda>nothing.
     rbind (dec_equal credited debited) (\<lambda>same. Inr (debited, \<not> nothing \<and> same))))))"

definition pay_main :: "platform \<Rightarrow> internet \<Rightarrow> keypair \<Rightarrow> keypair \<Rightarrow> (nat \<Rightarrow> string) \<Rightarrow> (nat \<Rightarrow> int) \<Rightarrow> string \<Rightarrow> (mesh, int) script" where
  "pay_main P I issuer_kp kp fresh now rid w =
     (let i = \<lparr>issuer_keypair = issuer_kp, issuer_unit = PIC\<rparr> in
     dbind (dres (build_paid_gateway_app P kp i (Some {}) (Some (open_ledger False None)) (Some TOKEN) (now 0))) (\<lambda>app.
     dbind (dres (mint_wallet P i (map fresh [0..<5]) (now 1))) (\<lambda>wallet.
     dbind (dres (make_paid_provider_entry P I (moment w) PAID_PROVIDER app)) (\<lambda>e.
     dbind (dres (wallet_balance wallet (Some PIC))) (\<lambda>before.
       let apps = [(PAID_PROVIDER, app)]; reg = registry_add e [] in
       (\<lambda>w. dbind (unless_unserved (client_chat P (sync_client_factory P (with_apps apps I)) reg (client_asks rid (user_says DEMO_PROMPT)) (Some wallet)))
         (\<lambda>out. case out of None \<Rightarrow> dret 1
          | Some (result, wallet') \<Rightarrow>
              dbind (dres (receipt_valid P (rr_receipt result))) (\<lambda>good.
                if \<not> good then dret 1
                else (\<lambda>w. dbind (dres (books_part P kp before wallet' (gw_ledger (at_site w PAID_PROVIDER)))) (\<lambda>(debited, balanced).
                  if \<not> balanced then dret 1 else dres (double_spend_part P i debited (fresh 5) now)) w))) (started apps w)))))) w)"

subsection \<open>A paid request without a quote\<close>

lemma paid_unquoted:
  assumes at: "reaches P I E (base_url e)" "sites I (base_url e) = Some g" "getn (manifest e) ''provider_pubkey'' = JStr (public_key_str P (gw_keypair g))"
    and terms: "takes_request g c" "require_payment g" "room 2 g (at_site (world s) (base_url e))" "\<not> get_quote c"
    and price: "price_amount g (billed_input (c_messages c)) (c_max_tokens c) = Inr price"
    and meets: "\<And>s1. moment (world s1) = moment (world s) + 2 \<Longrightarrow> purse s1 = purse s \<Longrightarrow>
      prepare_payment P E c e (app_reply (payment_required_response g price)) s1 = (Inr (Pay payment reserved), s1\<lparr>purse := w\<rparr>)"
    and j: "j = moment (world s) + 2"
    and paid: "honoured P g price (c_request_id c) (site_clock I j) (rivals I j) (spent_keys (at_site (world s) (base_url e))) payment"
    and run: "adapter_chat (gw_adapter g) (c_model c) (c_messages c) (c_max_tokens c) = Inr result"
    and issue: "\<And>receipt. chat_receipt P g (c_request_id c) (c_privacy_mode c) (c_model c) (c_messages c) result (Some price) (site_clock I j) =
      Inr receipt \<Longrightarrow> schema_accepts P ''receipt'' receipt" and laws: "ed25519_laws P"
  obtains receipt hs t where "try_candidate P E c e s = (Inr (Served (content result) (JObj receipt) None), t)"
    "\<exists>v. verify_receipt P receipt = Inr v \<and> valid v" "purse t = w"
    "at_site (world t) = (at_site (world s))(base_url e := charged_state P g price payment (rivals I j) ((at_site (world s) (base_url e))\<lparr>hits := hs\<rparr>))"
proof -
  let ?u = "base_url e" and ?s1 = "s\<lparr>world := later (world s)\<rparr>" and ?M = "mesh_outside P I"
  note same = reaches_exchange [OF at(1)]
  have posts: "post_completion E c ?u p = post_completion ?M c ?u p" for p by (simp add: fun_eq_iff post_completion_def same)
  have health: "health_ok E ?u s = (Inr True, ?s1)" using health_answered [OF at(2), of P s] by (simp add: health_ok_def same)
  have "room 2 g (at_site (world ?s1) ?u)" using terms(3) by (simp add: later_def)
  from unpaid_challenged [OF at(2) terms(1,2) this _ price, of P] obtain hs where hs: "room 1 g ((at_site (world s) ?u)\<lparr>hits := hs\<rparr>)"
    "post_completion ?M c ?u None ?s1 = (Inr (app_reply (payment_required_response g price)),
      ?s1\<lparr>world := later ((world ?s1)\<lparr>at_site := (at_site (world s))(?u := (at_site (world s) ?u)\<lparr>hits := hs\<rparr>)\<rparr>)\<rparr>)"
    by (auto simp: later_def)
  define s2 where "s2 = ?s1\<lparr>world := later ((world ?s1)\<lparr>at_site := (at_site (world s))(?u := (at_site (world s) ?u)\<lparr>hits := hs\<rparr>)\<rparr>)\<rparr>"
  have s2: "moment (world s2) = j" "purse s2 = purse s" "at_site (world s2) = (at_site (world s))(?u := (at_site (world s) ?u)\<lparr>hits := hs\<rparr>)"
    by (simp_all add: s2_def later_def j)
  have plan: "prepare_payment P E c e (app_reply (payment_required_response g price)) s2 = (Inr (Pay payment reserved), s2\<lparr>purse := w\<rparr>)"
    using meets [of s2] s2 j by simp
  have "room 1 g (at_site (world (s2\<lparr>purse := w\<rparr>)) ?u)" and "honoured P g price (c_request_id c) (site_clock I j) (rivals I j)
      (spent_keys (at_site (world (s2\<lparr>purse := w\<rparr>)) ?u)) payment" using hs(1) paid s2(3) by simp_all
  from paid_served [OF at(2) terms(1,2) this(1) order_refl price _ _ this(2) run, where reserved = reserved] s2(1)
  obtain hs' receipt where served: "chat_receipt P g (c_request_id c) (c_privacy_mode c) (c_model c) (c_messages c) result (Some price) (site_clock I j) = Inr receipt"
    "paid_retry ?M c ?u payment reserved (s2\<lparr>purse := w\<rparr>) = (Inr (app_reply (chat_reply (c_request_id c) (c_model c) result receipt)),
      s2\<lparr>purse := w, world := later ((world s2)\<lparr>at_site := (at_site (world s2))
        (?u := charged_state P g price payment (rivals I j) ((at_site (world s2) ?u)\<lparr>hits := hs'\<rparr>))\<rparr>)\<rparr>)"
    by auto
  note good = honest_receipt_trusted [OF at(3) served(1) laws issue [OF served(1)]]
  let ?t = "s2\<lparr>purse := w, world := later ((world s2)\<lparr>at_site := (at_site (world s2))
        (?u := charged_state P g price payment (rivals I j) ((at_site (world s2) ?u)\<lparr>hits := hs'\<rparr>))\<rparr>)\<rparr>"
  have first: "post_completion E c ?u None ?s1 = (Inr (app_reply (payment_required_response g price)), s2)"
    using hs(2) by (simp add: posts s2_def)
  have "paid_retry E c ?u payment reserved (s2\<lparr>purse := w\<rparr>) = paid_retry ?M c ?u payment reserved (s2\<lparr>purse := w\<rparr>)"
    by (simp add: paid_retry_def posts)
  moreover have "reply_status (app_reply (payment_required_response g price)) = 402" by (simp add: app_reply_def payment_required_response_def)
  ultimately have "serve P E c e s = (Inr (Served (content result) (JObj receipt) None), ?t)"
    using health terms(4) first plan served(2) free_judged [OF good(1,3)] by (simp add: serve_def complete_def abind_def aret_def)
  then have "try_candidate P E c e s = (Inr (Served (content result) (JObj receipt) None), ?t)" by (simp add: try_candidate_def)
  then show thesis using good(2) s2(3) by (intro that [of receipt ?t hs']) (simp_all add: later_def)
qed

subsection \<open>The price of three words\<close>

lemma to_float_near:
  assumes "pow2 k \<le> x" "x < pow2 (k + 1)" "- 1022 \<le> k" "k < 1023" "pow2 (k - 53) \<le> eps"
  obtains a where "to_float x = Fin a" "x - eps \<le> a" "a \<le> x + eps"
proof -
  let ?u = "pow2 (k - 52)"
  let ?n = "of_int (rne (x / ?u)) :: rat"
  have "\<bar>?n - x / ?u\<bar> * ?u \<le> 1 / 2 * ?u"
    using rne_near [of "x / ?u"] pow2_pos [of "k - 52"] by (intro mult_right_mono) linarith+
  moreover have "?n * ?u - x = (?n - x / ?u) * ?u" by (simp add: left_diff_distrib)
  then have "\<bar>?n - x / ?u\<bar> * ?u = \<bar>?n * ?u - x\<bar>"
    using pow2_pos [of "k - 52"] by (simp only: abs_mult abs_of_pos)
  moreover have "?u = 2 * pow2 (k - 53)" using pow2_double [of "k - 53"] by simp
  ultimately have near: "\<bar>?n * ?u - x\<bar> \<le> eps" using assms(5) by linarith
  show thesis by (rule that [OF to_float_in_binade [OF assms(1-4)]]) (use near in linarith)+
qed

lemma word_price: "rbind (per_million 3 ''10000'') (\<lambda>a. rbind (per_million 256 ''0'') (\<lambda>b. Inr (format_amount (fadd a b)))) = Inr ''0.03''"
proof -
  have p: "pow2 (- 19) = 1 / 524288" "pow2 (- 18) = 1 / 262144" "pow2 (- 72) = 1 / 4722366482869645213696"
    "pow2 (- 6) = 1 / 64" "pow2 (- 5) = 1 / 32" "pow2 (- 59) = 1 / 576460752303423488"
    "pow2 (- 12) = 1 / 4096" "pow2 (- 11) = 1 / 2048" "pow2 (- 65) = 1 / 36893488147419103232" by (simp_all add: pow2_def)
  let ?d = "1 / 1000000000000000 :: rat" and ?D = "1 / 10000000000 :: rat"
  obtain a where a: "to_float (3 / 1000000) = Fin a" "3 / 1000000 - ?d \<le> a" "a \<le> 3 / 1000000 + ?d"
    by (rule to_float_near [of "- 19" "3 / 1000000" ?d]) (simp_all add: p)
  have a': "3 / 100 - ?D \<le> a * 10000" "a * 10000 \<le> 3 / 100 + ?D" using a(2,3) by linarith+
  have r1: "pow2 (- 6) \<le> a * 10000" "a * 10000 < pow2 (- 6 + 1)" using a' by (simp_all add: p)
  obtain y where y: "to_float (a * 10000) = Fin y" "a * 10000 - ?d \<le> y" "y \<le> a * 10000 + ?d"
    by (rule to_float_near [OF r1, of ?d]) (simp_all add: p)
  have r2: "pow2 (- 6) \<le> y" "y < pow2 (- 6 + 1)" using a' y(2,3) by (simp_all add: p)
  obtain z where z: "to_float y = Fin z" "y - ?d \<le> z" "z \<le> y + ?d"
    by (rule to_float_near [OF r2, of ?d]) (simp_all add: p)
  have "z * 1000000 - 30000 < 1 / 2" "30000 - z * 1000000 < 1 / 2" using a' y(2,3) z(2,3) by linarith+
  then have "\<bar>z * 10 ^ 6 - of_int 30000\<bar> < 1 / 2" unfolding abs_less_iff by simp
  then have r: "rne (z * 10 ^ 6) = 30000" by (rule rne_unique)
  obtain b where b: "to_float (3 / 100) = Fin b" "3 / 100 - ?d \<le> b" "b \<le> 3 / 100 + ?d"
    by (rule to_float_near [of "- 6" "3 / 100" ?d]) (simp_all add: p)
  have "b * 1000000 - 30000 < 1 / 2" "30000 - b * 1000000 < 1 / 2" using b(2,3) by linarith+
  then have "\<bar>b * 10 ^ 6 - of_int 30000\<bar> < 1 / 2" unfolding abs_less_iff by simp
  then have s: "rne (b * 10 ^ 6) = 30000" by (rule rne_unique)
  have s': "\<not> b < 0" using b(2,3) by simp
  obtain c where c: "to_float (256 / 1000000) = Fin c" by (rule to_float_near [of "- 12" "256 / 1000000" ?d]) (simp_all add: p)
  have rates: "float_of_str ''10000'' = Inr (Fin 10000)" "float_of_str ''0'' = Inr (Fin 0)"
    by (simp_all add: literal_simps to_float_numeral Let_def)
  have "per_million 3 ''10000'' = Inr (Fin y)" "per_million 256 ''0'' = Inr (Fin 0)"
    using a(1) y(1) c rates by (simp_all add: per_million_def float_of_int_def to_float_numeral)
  moreover have "fixed6 30000 = ''0.030000''" "rstrip_char CHR ''.'' (rstrip_char CHR ''0'' ''0.030000'') = ''0.03''" by code_simp+
  then have "format_amount (fadd (Fin y) (Fin 0)) = ''0.03''" using z(1) r b(1) s s' by (simp add: format_amount_def del: rstrip_char_snoc)
  ultimately show ?thesis by simp
qed

subsection \<open>What the issuer mints\<close>

text \<open>A batch is issued at a time from which an hour can be counted, and the schema accepts its vouchers.\<close>

definition mints :: "platform \<Rightarrow> issuer \<Rightarrow> string \<Rightarrow> string list \<Rightarrow> int \<Rightarrow> bool" where
  "mints P i den ids t \<longleftrightarrow> valid_instant (t + 3600 * second) \<and> four_digit_instant (t + 3600 * second) \<and>
     (\<forall>vs. issue P i den ids 3600 t = Inr vs \<longrightarrow> list_all (schema_accepts P ''voucher'') vs)"

definition good_until :: "platform \<Rightarrow> issuer \<Rightarrow> string \<Rightarrow> int \<Rightarrow> string \<Rightarrow> dict \<Rightarrow> bool" where
  "good_until P i den t k v \<longleftrightarrow> getn v ''voucher_id'' = JStr k \<and> getn v ''denomination'' = JStr den \<and> getn v ''unit'' = JStr (issuer_unit i) \<and>
     (\<forall>later. later < whole_seconds (t + 3600 * second) \<longrightarrow> validate_voucher P v (issuer_unit i) [issuer_pubkey P i] later = Inr None)"

lemma build_voucher_ok: "json_ok (JObj (build_voucher fresh den u pk t e None))"
  by (simp add: build_voucher_def)

lemma minted:
  assumes "mints P i den ids t" "ed25519_laws P" "isoformat_law P"
  obtains vs where "issue P i den ids 3600 t = Inr vs" "list_all2 (good_until P i den t) ids vs"
proof -
  let ?sign = "\<lambda>fresh. sign_voucher P (build_voucher fresh den (issuer_unit i) (issuer_pubkey P i) t (t + 3600 * second) None) (issuer_keypair i)"
  have e: "valid_instant (t + 3600 * second)" "four_digit_instant (t + 3600 * second)" using assms(1) by (simp_all add: mints_def)
  have "\<exists>v. ?sign fresh = Inr v" for fresh using sign_document_total [OF build_voucher_ok] by (simp add: sign_voucher_def)
  then obtain v where v: "?sign fresh = Inr (v fresh)" for fresh by metis
  have issued: "issue P i den ids 3600 t = Inr (map v ids)"
    using e(1) by (simp add: issue_def instant_plus_def v rmap_all_Inr)
  then have schema: "schema_accepts P ''voucher'' (v k)" if "k \<in> set ids" for k using assms(1) that by (auto simp: mints_def list_all_iff)
  have "good_until P i den t k (v k)" if "k \<in> set ids" for k
    using signed_voucher_fields [OF v] validate_fresh_voucher [OF assms(2,3) e v schema [OF that]] by (simp add: good_until_def)
  then have "list_all2 (good_until P i den t) ids (map v ids)" unfolding list_all2_map2 by (intro list.rel_refl_strong)
  with issued show thesis by (rule that)
qed

lemma redeemed_once:
  assumes "mints P i den [k] t" "ed25519_laws P" "isoformat_law P" "now < whole_seconds (t + 3600 * second)" "again < whole_seconds (t + 3600 * second)"
    and money: "dec_of_str den = Inr d" "dec_add dec_zero d = Inr s" "dec_lt s d = Inr False"
  obtains v first where "issue P i den [k] 3600 t = Inr [v]"
    "redeem_payment P (build_pic_payment [JObj v]) den (issuer_unit i) [issuer_pubkey P i] now True None None {} = Inr (first, {k})" "ok first"
    "redeem_payment P (build_pic_payment [JObj v]) den (issuer_unit i) [issuer_pubkey P i] again True None None {k} = Inr (rejected ''pic'' ''double_spend'', {k})"
proof -
  obtain v where v: "issue P i den [k] 3600 t = Inr [v]" "good_until P i den t k v"
    by (rule minted [OF assms(1-3)]) (auto simp: list_all2_Cons1)
  have f: "getn v ''voucher_id'' = JStr k" "getn v ''denomination'' = JStr den" "validate_voucher P v (issuer_unit i) [issuer_pubkey P i] now = Inr None"
    "validate_voucher P v (issuer_unit i) [issuer_pubkey P i] again = Inr None" using v(2) assms(4,5) by (simp_all add: good_until_def)
  have add: "add_denomination v dec_zero = Inr (Some s)"
    using money f(2) by (simp add: add_denomination_def add_field_def getn_JStr_getitem)
  have pay: "getn (build_pic_payment [JObj v]) ''scheme'' = JStr ''pic''" "getn (build_pic_payment [JObj v]) ''vouchers'' = JArr [JObj v]"
    by (simp_all add: build_pic_payment_def getn_def)
  have id: "id_of v = k" using f(1) by (simp add: id_of_def)
  note defs = redeem_payment_def redeem_pic_def pay attr_get_def f id is_spent_def List.map_filter_simps
  have once: "redeem_payment P (build_pic_payment [JObj v]) den (issuer_unit i) [issuer_pubkey P i] now True None None {} =
      Inr (\<lparr>ok = True, scheme = ''pic'', total_amount = dec_str s, reason = []\<rparr>, {k})"
    using money add by (simp add: defs spend_def Let_def)
  have twice: "redeem_payment P (build_pic_payment [JObj v]) den (issuer_unit i) [issuer_pubkey P i] again True None None {k} =
      Inr (rejected ''pic'' ''double_spend'', {k})"
    by (simp add: defs Let_def)
  show thesis by (rule that [OF v(1) once _ twice]) simp
qed


subsection \<open>The purse\<close>

definition cents :: "int \<Rightarrow> dec" where
  "cents n = DFin False n (- 2)"

lemma cents_facts:
  "dec_of_str ''0.01'' = Inr (cents 1)" "dec_of_str ''0.03'' = Inr (cents 3)" "dec_add dec_zero (cents 1) = Inr (cents 1)" "dec_add dec_zero (cents 3) = Inr (cents 3)"
  "dec_add (cents 1) (cents 1) = Inr (cents 2)" "dec_add (cents 2) (cents 1) = Inr (cents 3)" "dec_add (cents 3) (cents 1) = Inr (cents 4)"
  "dec_add (cents 4) (cents 1) = Inr (cents 5)" "dec_lt (cents 5) (cents 3) = Inr False" "dec_lt (cents 3) (cents 3) = Inr False"
  "dec_le (cents 3) dec_zero = Inr False" "dec_le (cents 3) (cents 3) = Inr True" "dec_le (cents 3) (cents 2) = Inr False" "dec_le (cents 3) (cents 1) = Inr False"
  "dec_sub (cents 5) (cents 2) = Inr (cents 3)" "dec_equal (cents 3) (cents 3) = Inr True" "dec_str (cents 3) = ''0.03''"
  by code_simp+

definition penny :: "voucher_object \<Rightarrow> bool" where
  "penny v \<longleftrightarrow> getn (snd v) ''unit'' = JStr PIC \<and> getn (snd v) ''denomination'' = JStr PRICE_PER_WORD"

lemma penny_counts: "penny v \<Longrightarrow> unit_matches (Some PIC) (snd v)" "penny v \<Longrightarrow> add_field ''denomination'' (snd v) acc = dec_add acc (cents 1)"
  by (simp_all add: penny_def unit_matches_def add_field_def getn_JStr_getitem PRICE_PER_WORD_def cents_facts)

lemma five_pennies:
  assumes "list_all penny [a, b, c, d, e]" "distinct (map fst [a, b, c, d, e])"
  shows "wallet_balance \<lparr>held = [a, b, c, d, e]\<rparr> (Some PIC) = Inr (cents 5)" "wallet_balance \<lparr>held = [d, e]\<rparr> (Some PIC) = Inr (cents 2)"
    "wallet_select \<lparr>held = [a, b, c, d, e]\<rparr> (JStr ''0.03'') PIC = Inr ([a, b, c], \<lparr>held = [d, e]\<rparr>)"
proof -
  have p: "penny a" "penny b" "penny c" "penny d" "penny e" using assms(1) by simp_all
  note counts = p [THEN penny_counts(1)] p [THEN penny_counts(2)]
  show all: "wallet_balance \<lparr>held = [a, b, c, d, e]\<rparr> (Some PIC) = Inr (cents 5)" and "wallet_balance \<lparr>held = [d, e]\<rparr> (Some PIC) = Inr (cents 2)"
    by (simp_all add: wallet_balance_def split_beta counts cents_facts)
  have "pick_vouchers (cents 3) PIC [a, b, c, d, e] [] dec_zero = Inr [a, b, c]" by (simp add: counts cents_facts)
  with all assms(2) show "wallet_select \<lparr>held = [a, b, c, d, e]\<rparr> (JStr ''0.03'') PIC = Inr ([a, b, c], \<lparr>held = [d, e]\<rparr>)"
    by (auto simp: wallet_select_def cents_facts Let_def simp del: pick_vouchers.simps)
qed

lemma minted_wallet:
  assumes "mints P i PRICE_PER_WORD ids t" "ed25519_laws P" "isoformat_law P" "length ids = 5" "distinct ids" "issuer_unit i = PIC"
  obtains a b c d e where "mint_wallet P i ids t = Inr \<lparr>held = [a, b, c, d, e]\<rparr>" "list_all penny [a, b, c, d, e]" "distinct (map fst [a, b, c, d, e])"
    "list_all2 (good_until P i PRICE_PER_WORD t) ids (map snd [a, b, c, d, e])" "map (id_of \<circ> snd) [a, b, c, d, e] = ids"
proof -
  obtain vs where vs: "issue P i PRICE_PER_WORD ids 3600 t = Inr vs" "list_all2 (good_until P i PRICE_PER_WORD t) ids vs"
    by (rule minted [OF assms(1-3)])
  have "length vs = 5" using vs(2) assms(4) by (simp add: list_all2_lengthD)
  then obtain a b c d e where abc: "vs = [a, b, c, d, e]" by (auto simp: eval_nat_numeral length_Suc_conv)
  have "list_all2 (\<lambda>k v. getn v ''voucher_id'' = JStr k) ids vs" using vs(2) by (rule list_all2_mono) (simp add: good_until_def)
  then have ids: "map id_of vs = ids" by (rule issued_ids)
  have "map int [0..<5] = [0, 1, 2, 3, 4]" by code_simp
  then have objects: "zip (map int [0..<length vs]) vs = [(0, a), (1, b), (2, c), (3, d), (4, e)]" by (simp only: \<open>length vs = 5\<close>) (simp add: abc)
  have "list_all penny [(0, a), (1, b), (2, c), (3, d), (4, e)]"
    using vs(2) assms(6) by (auto simp: abc list_all2_Cons2 good_until_def penny_def)
  moreover have "mint_wallet P i ids t = Inr \<lparr>held = [(0, a), (1, b), (2, c), (3, d), (4, e)]\<rparr>"
    by (simp only: mint_wallet_def vs(1) rbind_Inr objects wallet_add_def) simp
  ultimately show thesis using vs(2) ids by (intro that [of "(0, a)" "(1, b)" "(2, c)" "(3, d)" "(4, e)"]) (simp_all add: abc)
qed


subsection \<open>The script reaches its end\<close>

text \<open>The gateway's clock stays within the hour, nobody else redeems there, and its receipts pass the schema.\<close>

definition quiet_hour :: "internet \<Rightarrow> int \<Rightarrow> bool" where
  "quiet_hour I t \<longleftrightarrow> (\<forall>k. at_check (site_clock I k) < whole_seconds (t + 3600 * second) \<and>
     at_commit (site_clock I k) < whole_seconds (t + 3600 * second) \<and> rivals I k {} = {})"

definition paid_receipts_pass :: "platform \<Rightarrow> internet \<Rightarrow> gateway_config \<Rightarrow> chat_options \<Rightarrow> chat_result \<Rightarrow> string \<Rightarrow> bool" where
  "paid_receipts_pass P I g c result price \<longleftrightarrow>
     (\<forall>k receipt. chat_receipt P g (c_request_id c) (c_privacy_mode c) (c_model c) (c_messages c) result (Some price) (site_clock I k) =
        Inr receipt \<longrightarrow> schema_accepts P ''receipt'' receipt)"

lemma paid_receipts_pass_manifest [simp]: "paid_receipts_pass P I (g\<lparr>gw_manifest := m\<rparr>) c result price = paid_receipts_pass P I g c result price"
  by (simp add: paid_receipts_pass_def chat_receipt_def)

lemma paid_site_terms:
  fixes P kp i m
  defines "g \<equiv> (paid_site P kp i)\<lparr>gw_manifest := m\<rparr>"
  shows "script_terms g" "require_payment g" "gw_keypair g = kp" "price_units g = PIC" "pic_issuers g = [issuer_pubkey P i]"
    "''pic'' \<in> set (accept_schemes g)" "price_amount g 3 256 = Inr ''0.03''"
proof -
  have "float_of_str ''10000'' = Inr (Fin 10000)" by (simp add: literal_simps to_float_numeral Let_def)
  then show "script_terms g" using free_of_charge by (auto simp: g_def script_terms_def paid_site_def script_site_def local_gateway_def)
  show "price_amount g 3 256 = Inr ''0.03''" using word_price by (simp add: g_def price_amount_def paid_site_def)
qed (simp_all add: g_def paid_site_def script_site_def local_gateway_def)

lemma pennies_good:
  assumes "list_all2 (good_until P i PRICE_PER_WORD t) ids (map snd vs)" "distinct ids" "issuer_unit i = PIC" "price_units g = PIC"
    and "pic_issuers g = [issuer_pubkey P i]" "at_check m < whole_seconds (t + 3600 * second)" "at_commit m < whole_seconds (t + 3600 * second)"
    and "others {} = {}"
  shows "good_wallet P g m others {} \<lparr>held = vs\<rparr>"
proof -
  have ok: "\<exists>k\<in>set ids. good_until P i PRICE_PER_WORD t k (snd v)" if "v \<in> set vs" for v
  proof -
    obtain j where j: "j < length vs" "v = vs ! j" using \<open>v \<in> set vs\<close> by (auto simp: in_set_conv_nth)
    have "length ids = length vs" using assms(1) by (simp add: list_all2_conv_all_nth)
    moreover have "good_until P i PRICE_PER_WORD t (ids ! j) (snd v)" using list_all2_nthD2 [OF assms(1), of j] j by simp
    ultimately show ?thesis using j(1) by (intro bexI [of _ "ids ! j"]) simp_all
  qed
  have ids: "map id_of (map snd vs) = ids"
    using assms(1) by (intro issued_ids) (auto simp: good_until_def elim: list_all2_mono)
  have all: "filter (\<lambda>v. unit_matches (Some PIC) (snd v)) vs = vs"
    using ok assms(3) by (fastforce simp: filter_id_conv unit_matches_def good_until_def)
  have red: "redeemable P g later {} (snd v)" if "v \<in> set vs" "later < whole_seconds (t + 3600 * second)" for v later
    using ok [OF that(1)] that(2) assms(3-5) by (auto simp: redeemable_def good_until_def id_of_def)
  show ?thesis using ids assms(2,4,6-8) red by (simp add: good_wallet_def all list_all_iff Let_def)
qed

lemma paid_chat:
  assumes g: "g = (paid_site P kp i)\<lparr>gw_manifest := m\<rparr>" "issuer_unit i = PIC"
    and wallet: "list_all penny [a, b, c, d, e]" "distinct (map fst [a, b, c, d, e])" "list_all2 (good_until P i PRICE_PER_WORD t) ids (map snd [a, b, c, d, e])" "distinct ids"
    and entry: "plain_terms n [MODEL] i0 o0 [''direct'']" "getn n ''provider_pubkey'' = JStr (public_key_str P kp)"
    and site: "sites I PAID_PROVIDER = Some g" "at_site w PAID_PROVIDER = \<lparr>spent_keys = {}, gw_ledger = Some (open_ledger False None), hits = []\<rparr>"
    and hour: "quiet_hour I t" and pass: "paid_receipts_pass P I g (client_asks rid (user_says DEMO_PROMPT)) (echoed DEMO_PROMPT) ''0.03''"
    and laws: "ed25519_laws P"
  obtains r w' refs where "client_chat P (down_client_factory P I []) [\<lparr>base_url = PAID_PROVIDER, manifest = n\<rparr>] (client_asks rid (user_says DEMO_PROMPT))
      (Some \<lparr>held = [a, b, c, d, e]\<rparr>) w = (Inr (r, Some \<lparr>held = [d, e]\<rparr>), w')" "receipt_valid P (rr_receipt r) = Inr True"
    "gw_ledger (at_site w' PAID_PROVIDER) = Some (ledger_record (public_key_str P kp) ''0.03'' PIC refs (open_ledger False None))"
proof -
  let ?E = "down_client_factory P I []" and ?e = "\<lparr>base_url = PAID_PROVIDER, manifest = n\<rparr>" and ?c = "client_asks rid (user_says DEMO_PROMPT)"
  let ?s = "\<lparr>world = w, purse = Some \<lparr>held = [a, b, c, d, e]\<rparr>\<rparr>" and ?j = "moment w + 2"
  note t = paid_site_terms [where P = P and kp = kp and i = i and m = m, folded g(1)]
  have short: "length DEMO_PROMPT \<le> 100000" by (simp add: DEMO_PROMPT_def)
  note takes = script_takes [OF t(1) short]
  have billed: "billed_input (c_messages ?c) = 3" "c_max_tokens ?c = 256"
    by (simp_all add: client_asks_def billed_input_def user_says_def content_of_def getn_def) code_simp
  then have price: "price_amount g (billed_input (c_messages ?c)) (c_max_tokens ?c) = Inr ''0.03''" using t(7) by simp
  have order: "resolve P [?e] MODEL (Some ''direct'') None False = Inr [?e]"
    using entry(1) by (simp add: resolved_in_order [where models = "[MODEL]"])
  have at: "reaches P I ?E (base_url ?e)" "sites I (base_url ?e) = Some g" "getn (manifest ?e) ''provider_pubkey'' = JStr (public_key_str P (gw_keypair g))"
    using site(1) entry(2) t(3) by (simp_all add: down_reaches)
  have "\<not> get_quote ?c" by (simp add: client_asks_def)
  have select: "wallet_select \<lparr>held = [a, b, c, d, e]\<rparr> (JStr ''0.03'') (price_units g) = Inr ([a, b, c], \<lparr>held = [d, e]\<rparr>)"
    using five_pennies(3) [OF wallet(1,2)] t(4) by simp
  have meets: "prepare_payment P ?E ?c ?e (app_reply (payment_required_response g ''0.03'')) s1 =
      (Inr (Pay (voucher_payment [a, b, c]) (Some [a, b, c])), s1\<lparr>purse := Some \<lparr>held = [d, e]\<rparr>\<rparr>)"
    if "purse s1 = purse ?s" for s1 using wallet_meets [OF _ t(6) select] that by simp
  have good: "good_wallet P g (site_clock I ?j) (rivals I ?j) {} \<lparr>held = [a, b, c, d, e]\<rparr>"
    using pennies_good [OF wallet(3,4) g(2) t(4,5)] hour by (simp add: quiet_hour_def)
  have spent: "spent_keys (at_site (world ?s) (base_url ?e)) = {}" using site(2) by simp
  have honoured: "honoured P g ''0.03'' (c_request_id ?c) (site_clock I ?j) (rivals I ?j) (spent_keys (at_site (world ?s) (base_url ?e))) (voucher_payment [a, b, c])"
    unfolding spent by (rule selected_honoured(1) [OF good select]) simp
  have run: "adapter_chat (gw_adapter g) (c_model ?c) (c_messages ?c) (c_max_tokens ?c) = Inr (echoed DEMO_PROMPT)"
    using takes(2) by (simp add: answerable_def)
  have j: "?j = moment (world ?s) + 2" by simp
  have issue: "schema_accepts P ''receipt'' receipt" if "chat_receipt P g (c_request_id ?c) (c_privacy_mode ?c) (c_model ?c) (c_messages ?c)
      (echoed DEMO_PROMPT) (Some ''0.03'') (site_clock I ?j) = Inr receipt" for receipt
    using pass that unfolding paid_receipts_pass_def by blast
  obtain receipt hs t' where t': "try_candidate P ?E ?c ?e ?s = (Inr (Served (content (echoed DEMO_PROMPT)) (JObj receipt) None), t')"
    "\<exists>v. verify_receipt P receipt = Inr v \<and> valid v" "purse t' = Some \<lparr>held = [d, e]\<rparr>"
    "at_site (world t') = (at_site (world ?s))(base_url ?e := charged_state P g ''0.03'' (voucher_payment [a, b, c]) (rivals I ?j)
       ((at_site (world ?s) (base_url ?e))\<lparr>hits := hs\<rparr>))"
    by (rule paid_unquoted [OF at takes(1) t(2) takes(3) \<open>\<not> get_quote ?c\<close> price meets j honoured run issue laws])
  have c: "c_model ?c = MODEL" "c_privacy_mode ?c = ''direct''" "c_weights ?c = None" "max_providers ?c = None" by (simp_all add: client_asks_def)
  have routed: "getitem n ''provider_pubkey'' = Inr (JStr (public_key_str P kp))" using entry(2) by (rule getn_JStr_getitem)
  define r where "r = \<lparr>rr_content = content (echoed DEMO_PROMPT), rr_receipt = JObj receipt, rr_provider_pubkey = JStr (public_key_str P kp),
      rr_base_url = PAID_PROVIDER, rr_quote = None, rr_attempts = [(PAID_PROVIDER, ''ok'')]\<rparr>"
  have "route_chat P ?E [?e] ?c ?s = (Inr r, t')"
    using order t'(1) routed by (simp add: route_chat_def c r_def)
  then have chat: "client_chat P ?E [?e] ?c (Some \<lparr>held = [a, b, c, d, e]\<rparr>) w = (Inr (r, Some \<lparr>held = [d, e]\<rparr>), world t')"
    using t'(3) by (simp add: client_chat_def)
  have receipt: "receipt_valid P (rr_receipt r) = Inr True" using t'(2) by (auto simp: receipt_valid_def r_def)
  have books: "gw_ledger (at_site (world t') PAID_PROVIDER) = Some (ledger_record (public_key_str P kp) ''0.03'' PIC
      (payment_refs (voucher_payment [a, b, c])) (open_ledger False None))"
    using t'(4) site(2) t(3,4) by (simp add: charged_state_def)
  show thesis by (rule that [OF chat receipt books])
qed


lemma with_apps_quiet [simp]: "quiet_hour (with_apps apps I) t = quiet_hour I t"
  by (simp add: quiet_hour_def with_apps_def)

lemma with_apps_pass [simp]: "paid_receipts_pass P (with_apps apps I) g c result price = paid_receipts_pass P I g c result price"
  by (simp add: paid_receipts_pass_def with_apps_def)

lemma paid_app:
  fixes P kp i
  obtains m where "build_paid_gateway_app P kp i (Some {}) (Some (open_ledger False None)) (Some TOKEN) now =
      Inr ((paid_site P kp i)\<lparr>gw_manifest := m\<rparr>, \<lparr>spent_keys = {}, gw_ledger = Some (open_ledger False None), hits = []\<rparr>)"
    "plain_terms m [MODEL] (Fin 10000) (Fin 0) [''direct'']" "getn m ''provider_pubkey'' = JStr (public_key_str P kp)"
proof -
  let ?g = "paid_site P kp i"
  have c: "float_of_str (input_per_1m ?g) = Inr (Fin 10000)" "float_of_str (output_per_1m ?g) = Inr (Fin 0)" "allowed_models ?g = [MODEL]"
    "gw_keypair ?g = kp" "?g\<lparr>token := Some TOKEN\<rparr> = ?g"
    by (simp_all add: paid_site_def script_site_def local_gateway_def literal_simps to_float_numeral Let_def)
  obtain m where m: "create_app P ?g None ''no_prompt_logging'' now (Some {}) (Some (open_ledger False None)) =
      Inr (?g\<lparr>gw_manifest := m\<rparr>, \<lparr>spent_keys = (case Some {} of None \<Rightarrow> {} | Some S \<Rightarrow> S), gw_ledger = Some (open_ledger False None), hits = []\<rparr>)"
    "plain_terms m (allowed_models ?g) (Fin 10000) (Fin 0) [''direct'']" "getn m ''provider_pubkey'' = JStr (public_key_str P (gw_keypair ?g))"
    by (rule started_app [OF c(1,2), where P = P and logging = "''no_prompt_logging''" and now = now and shared = "Some {}" and
          ledger = "Some (open_ledger False None)"]) (simp_all add: c(3))
  show thesis by (rule that [of m]) (use m in \<open>simp_all add: build_paid_gateway_app_def c\<close>)
qed

lemma books_balance:
  assumes "list_all penny [a, b, c, d, e]" "distinct (map fst [a, b, c, d, e])"
  shows "books_part P kp (cents 5) (Some \<lparr>held = [d, e]\<rparr>) (Some (ledger_record (public_key_str P kp) ''0.03'' PIC refs (open_ledger False None))) =
    Inr (cents 3, True)"
proof -
  have "dec_of_str ''0.03'' = Inr (cents 3)" by (rule cents_facts)
  then have "ledger_balance (ledger_record (public_key_str P kp) ''0.03'' PIC refs (open_ledger False None)) (public_key_str P kp) (Some PIC) = Inr (cents 3)"
    by (simp add: ledger_balance_def ledger_record_def ledger_save_def open_ledger_def ledger_load_def getn_def getitem_def add_field_def unit_matches_def cents_facts)
  then show ?thesis using five_pennies(2) [OF assms] by (simp add: books_part_def cents_facts)
qed

lemma replay_refused:
  assumes "mints P \<lparr>issuer_keypair = kp, issuer_unit = PIC\<rparr> ''0.03'' [k] (now 2)" "ed25519_laws P" "isoformat_law P"
    and "now 3 < whole_seconds (now 2 + 3600 * second)" "now 4 < whole_seconds (now 2 + 3600 * second)"
  shows "double_spend_part P \<lparr>issuer_keypair = kp, issuer_unit = PIC\<rparr> (cents 3) k now = Inr 0"
proof -
  let ?i = "\<lparr>issuer_keypair = kp, issuer_unit = PIC\<rparr>"
  obtain v first where v: "issue P ?i ''0.03'' [k] 3600 (now 2) = Inr [v]"
    "redeem_payment P (build_pic_payment [JObj v]) ''0.03'' (issuer_unit ?i) [issuer_pubkey P ?i] (now 3) True None None {} = Inr (first, {k})" "ok first"
    "redeem_payment P (build_pic_payment [JObj v]) ''0.03'' (issuer_unit ?i) [issuer_pubkey P ?i] (now 4) True None None {k} = Inr (rejected ''pic'' ''double_spend'', {k})"
    by (rule redeemed_once [OF assms cents_facts(2,4,10)])
  then show ?thesis by (simp add: double_spend_part_def cents_facts rejected_def Let_def)
qed

text \<open>C36. The paid-routing script reaches its last line: the gateway asks three cents for the three words, the wallet of five
  one-cent vouchers pays them, wallet and ledger balance (the ledger ends with that one entry), and the second redemption of a batch is
  refused.\<close>

theorem pay_main_succeeds:
  fixes P kp issuer_kp
  defines "i \<equiv> \<lparr>issuer_keypair = issuer_kp, issuer_unit = PIC\<rparr>"
  assumes laws: "ed25519_laws P" "isoformat_law P"
    and batch: "mints P i PRICE_PER_WORD (map fresh [0..<5]) (now 1)" "distinct (map fresh [0..<5])" "mints P i ''0.03'' [fresh 5] (now 2)"
    and clock: "now 3 < whole_seconds (now 2 + 3600 * second)" "now 4 < whole_seconds (now 2 + 3600 * second)" "quiet_hour I (now 1)"
    and pass: "paid_receipts_pass P I (paid_site P kp i) (client_asks rid (user_says DEMO_PROMPT)) (echoed DEMO_PROMPT) ''0.03''"
  shows "\<exists>w' refs. pay_main P I issuer_kp kp fresh now rid w = (Inr 0, w') \<and>
    gw_ledger (at_site w' PAID_PROVIDER) = Some (ledger_record (public_key_str P kp) ''0.03'' PIC refs (open_ledger False None))"
proof -
  obtain m where app: "build_paid_gateway_app P kp i (Some {}) (Some (open_ledger False None)) (Some TOKEN) (now 0) =
      Inr ((paid_site P kp i)\<lparr>gw_manifest := m\<rparr>, \<lparr>spent_keys = {}, gw_ledger = Some (open_ledger False None), hits = []\<rparr>)"
    "plain_terms m [MODEL] (Fin 10000) (Fin 0) [''direct'']" "getn m ''provider_pubkey'' = JStr (public_key_str P kp)" by (rule paid_app)
  define state where "state = \<lparr>spent_keys = {}, gw_ledger = Some (open_ledger False None), hits = []\<rparr>"
  define apps where "apps = [(PAID_PROVIDER, (paid_site P kp i)\<lparr>gw_manifest := m\<rparr>, state)]"
  let ?I = "with_apps apps I"
  have entry: "make_paid_provider_entry P I (moment w) PAID_PROVIDER ((paid_site P kp i)\<lparr>gw_manifest := m\<rparr>, state) = Inr \<lparr>base_url = PAID_PROVIDER, manifest = m\<rparr>"
    by (simp add: make_paid_provider_entry_def served_manifest_def gateway_app_def app_reply_def manifest_endpoint_def)
  obtain a b c d e where wallet: "mint_wallet P i (map fresh [0..<5]) (now 1) = Inr \<lparr>held = [a, b, c, d, e]\<rparr>" "list_all penny [a, b, c, d, e]"
    "distinct (map fst [a, b, c, d, e])" "list_all2 (good_until P i PRICE_PER_WORD (now 1)) (map fresh [0..<5]) (map snd [a, b, c, d, e])"
    by (rule minted_wallet [OF batch(1) laws _ batch(2)]) (simp_all add: i_def)
  have unit: "issuer_unit i = PIC" by (simp add: i_def)
  have site: "sites ?I PAID_PROVIDER = Some ((paid_site P kp i)\<lparr>gw_manifest := m\<rparr>)" by (simp add: with_apps_def apps_def)
  have held: "at_site (started apps w) PAID_PROVIDER = \<lparr>spent_keys = {}, gw_ledger = Some (open_ledger False None), hits = []\<rparr>"
    by (simp add: started_def apps_def state_def)
  have hour: "quiet_hour ?I (now 1)" and ok: "paid_receipts_pass P ?I ((paid_site P kp i)\<lparr>gw_manifest := m\<rparr>)
      (client_asks rid (user_says DEMO_PROMPT)) (echoed DEMO_PROMPT) ''0.03''" using clock(3) pass by simp_all
  obtain r w' refs where r: "client_chat P (down_client_factory P ?I []) [\<lparr>base_url = PAID_PROVIDER, manifest = m\<rparr>] (client_asks rid (user_says DEMO_PROMPT))
      (Some \<lparr>held = [a, b, c, d, e]\<rparr>) (started apps w) = (Inr (r, Some \<lparr>held = [d, e]\<rparr>), w')" "receipt_valid P (rr_receipt r) = Inr True"
    "gw_ledger (at_site w' PAID_PROVIDER) = Some (ledger_record (public_key_str P kp) ''0.03'' PIC refs (open_ledger False None))"
    by (rule paid_chat [OF refl unit wallet(2-4) batch(2) app(2,3) site held hour ok laws(1)])
  have served: "unless_unserved (client_chat P (down_client_factory P ?I []) [\<lparr>base_url = PAID_PROVIDER, manifest = m\<rparr>] (client_asks rid (user_says DEMO_PROMPT))
      (Some \<lparr>held = [a, b, c, d, e]\<rparr>)) (started apps w) = (Inr (Some (r, Some \<lparr>held = [d, e]\<rparr>)), w')" using r(1) by (simp add: unless_unserved_def)
  have "pay_main P I issuer_kp kp fresh now rid w = (Inr 0, w')"
    using five_pennies(1) [OF wallet(2,3)] books_balance [OF wallet(2,3)] replay_refused [OF batch(3) [unfolded i_def] laws clock(1,2)]
    by (simp add: pay_main_def Let_def i_def [symmetric] app(1) wallet(1) state_def [symmetric] entry apps_def [symmetric] sync_client_factory_def
        registry_add_def dbind_def [of "unless_unserved _"] served r(2,3) dres_def del: One_nat_def)
  then show ?thesis using r(3) by blast
qed


lemma demo_mints:
  assumes "valid_instant (t + 3600 * second)" "four_digit_instant (t + 3600 * second)"
  shows "mints demo i den ids t"
  unfolding mints_def
proof (intro conjI assms allI impI)
  fix vs assume "issue demo i den ids 3600 t = Inr vs"
  then have vs: "rmap (\<lambda>fresh. sign_voucher demo (build_voucher fresh den (issuer_unit i) (issuer_pubkey demo i) t (t + 3600 * second) None)
      (issuer_keypair i)) ids = Inr vs"
    using assms(1) by (simp add: issue_def instant_plus_def)
  have val: "validator demo = demo_validator" by (simp add: demo_def)
  have "schema_accepts demo ''voucher'' v" if "v \<in> set vs" for v
  proof -
    from that have "(Inr v :: dict res) \<in> set (map Inr vs)" by simp
    note this [unfolded rmap_Inr_map [OF vs]]
    then have "Inr v \<in> (\<lambda>fresh. sign_voucher demo (build_voucher fresh den (issuer_unit i) (issuer_pubkey demo i) t (t + 3600 * second) None)
        (issuer_keypair i)) ` set ids" unfolding set_map .
    then obtain fresh where "Inr v = sign_voucher demo (build_voucher fresh den (issuer_unit i) (issuer_pubkey demo i) t (t + 3600 * second) None)
        (issuer_keypair i)" by (rule imageE)
    note s = this [symmetric]
    obtain sg where "dict_get v ''signature'' = Some (JStr sg)" using s signed_has_signature unfolding sign_voucher_def by blast
    then show ?thesis using signed_voucher_fields(1-4) [OF s, THEN text_present] by (simp add: schema_accepts_def val demo_validator_def demo_members_def)
  qed
  then show "list_all (schema_accepts demo ''voucher'') vs" by (simp add: list_all_iff)
qed

lemma demo_mint_times:
  "valid_instant (demo_now + 3600 * second)" "four_digit_instant (demo_now + 3600 * second)" "demo_now < whole_seconds (demo_now + 3600 * second)"
  "demo_now + second < whole_seconds (demo_now + 3600 * second)"
  by code_simp+

lemma pay_main_succeeds_witness:
  "\<exists>w' refs. pay_main demo (demo_internet demo_gateway) (demo_key 5) (demo_key 3) (\<lambda>n. replicate n CHR ''v'') (\<lambda>_. demo_now) ''r''
      (world (demo_mesh None)) = (Inr 0, w') \<and>
    gw_ledger (at_site w' PAID_PROVIDER) = Some (ledger_record (public_key_str demo (demo_key 3)) ''0.03'' PIC refs (open_ledger False None))"
proof -
  have "quiet_hour (demo_internet demo_gateway) demo_now"
    using demo_mint_times(3,4) by (simp add: quiet_hour_def demo_internet_def demo_moments_def)
  moreover have "distinct (map (\<lambda>n. replicate n CHR ''v'') [0..<5])" by code_simp
  moreover have "paid_receipts_pass demo I g c result price" for I g c result price
    using demo_receipts_accepted by (simp add: paid_receipts_pass_def)
  ultimately show ?thesis using demo_mint_times
    by (intro pay_main_succeeds demo_mints demo_laws demo_isoformat) simp_all
qed

end
