(* ===== verification/Relay.thy ===== *)
theory Relay
  imports Net Discovery
begin

text \<open>
  \<^verbatim>\<open>apps/relay\<close>: the privacy relay, which forwards a completion to a provider, and the client that checks what
  comes back through it.
\<close>

subsection \<open>app.py\<close>

definition relay_error :: "int \<Rightarrow> string \<Rightarrow> int \<times> json" where
  "relay_error code message = (code, JObj [(''error'', JStr message)])"

definition non_json :: json where
  "non_json = JObj [(''error'', JStr ''provider returned non-JSON'')]"

text \<open>The call to the provider; its answer goes back verbatim.\<close>

definition forward :: "'w outside \<Rightarrow> string \<Rightarrow> dict \<Rightarrow> ('w, int \<times> json) act" where
  "forward E url completion w =
     (case network E url \<lparr>verb = ''POST'', path = ''/v1/chat/completions'', call_headers = [], call_json = Some (JObj completion)\<rparr> w of
        (Inl (TransportError n), w') \<Rightarrow> (Inr (relay_error 502 (''upstream provider unreachable: '' @ n)), w')
      | (Inl e, w') \<Rightarrow> (Inl e, w')
      | (Inr r, w') \<Rightarrow> (Inr (reply_status r, case reply_json r of None \<Rightarrow> non_json | Some v \<Rightarrow> v), w'))"

definition relay :: "platform \<Rightarrow> 'w outside \<Rightarrow> json option \<Rightarrow> ('w, int \<times> json) act" where
  "relay P E body = (case body of
     None \<Rightarrow> aret (relay_error 400 ''body must be JSON'')
   | Some b \<Rightarrow>
     (case (Option.bind (the_obj b) (\<lambda>d. the_obj (getn d ''target'')), Option.bind (the_obj b) (\<lambda>d. the_obj (getn d ''completion''))) of
        (Some target, Some completion) \<Rightarrow>
          (case (the_obj (getn target ''manifest''), the_str (getn target ''base_url'')) of
             (Some manifest, Some url) \<Rightarrow>
               abind (alift (verify_provider_manifest P manifest)) (\<lambda>verified.
                 if \<not> verified then aret (relay_error 400 ''target manifest does not verify'')
                 else if getn manifest ''manifest_uri'' \<noteq> JStr url
                 then aret (relay_error 400 ''base_url does not match the signed manifest_uri'')
                 else if \<not> is_safe_forward_url url
                 then aret (relay_error 400 ''refusing to forward to a private/loopback address'')
                 else forward E url completion)
           | _ \<Rightarrow> aret (relay_error 400 ''target needs base_url + manifest''))
      | _ \<Rightarrow> aret (relay_error 400 ''expected {target, completion}'')))"

definition relay_healthz :: "int \<times> json" where
  "relay_healthz = (200, JObj [(''status'', JStr ''ok'')])"

subsection \<open>client.py\<close>

text \<open>A reply with what its content type says.\<close>

record typed_reply = http_reply +
  says_json :: bool

record relay_result =
  rl_content :: string
  rl_receipt :: dict
  rl_status :: int
  rl_verified :: bool

definition content_of :: "dict \<Rightarrow> string" where
  "content_of payload =
     (case Option.bind (the_arr (getn payload ''choices'')) (\<lambda>choices. case choices of [] \<Rightarrow> None
        | c # _ \<Rightarrow> Option.bind (the_obj c) (\<lambda>d. Option.bind (the_obj (getn d ''message'')) (\<lambda>m. dict_get m ''content''))) of
        None \<Rightarrow> [] | Some v \<Rightarrow> py_str v)"

definition payload_of :: "typed_reply \<Rightarrow> dict res" where
  "payload_of r = (if \<not> says_json r then Inr []
     else (case reply_json r of None \<Rightarrow> Inl ValueError
       | Some v \<Rightarrow> Inr (case the_obj v of None \<Rightarrow> [] | Some d \<Rightarrow> d)))"

definition relay_verify :: "platform \<Rightarrow> dict \<Rightarrow> string \<Rightarrow> dict \<Rightarrow> bool res" where
  "relay_verify P receipt content completion =
     rbind (verify_receipt P receipt) (\<lambda>v.
     rbind (hash_request P (get_or completion ''model'' (JStr [])) (get_or completion ''messages'' (JArr []))) (\<lambda>expected.
       Inr (valid v \<and> getn receipt ''response_hash'' = JStr (hash_response_body P content) \<and>
            getn receipt ''request_hash'' = JStr expected)))"

definition relay_judge :: "platform \<Rightarrow> dict \<Rightarrow> bool \<Rightarrow> typed_reply \<Rightarrow> relay_result res" where
  "relay_judge P completion check r =
     rbind (payload_of r) (\<lambda>payload.
       let content = content_of payload;
           receipt = (case the_obj (getn payload ''sip_receipt'') of None \<Rightarrow> [] | Some d \<Rightarrow> d)
       in rbind (if check \<and> receipt \<noteq> [] then relay_verify P receipt content completion else Inr False) (\<lambda>verified.
          Inr \<lparr>rl_content = content, rl_receipt = receipt, rl_status = reply_status r, rl_verified = verified\<rparr>))"

definition relay_chat ::
  "platform \<Rightarrow> (http_call \<Rightarrow> ('w, typed_reply) act) \<Rightarrow> dict \<Rightarrow> dict \<Rightarrow> bool \<Rightarrow> ('w, relay_result) act" where
  "relay_chat P post target completion check =
     abind (post \<lparr>verb = ''POST'', path = ''/sip/v1/relay'', call_headers = [],
        call_json = Some (JObj [(''target'', JObj target), (''completion'', JObj completion)])\<rparr>)
       (\<lambda>r. alift (relay_judge P completion check r))"

text \<open>Any key's receipt over the right hashes passes.\<close>

lemma self_signed_verifies:
  assumes "ed25519_laws P" "sign_receipt P (build_receipt args) kp = Inr receipt"
    and "r_provider_pubkey args = public_key_str P kp" "r_response_hash args = hash_response_body P content"
    and "hash_request P (get_or completion ''model'' (JStr [])) (get_or completion ''messages'' (JArr [])) = Inr h"
    and "r_request_hash args = Some h" "schema_accepts P ''receipt'' receipt"
  shows "relay_verify P receipt content completion = Inr True" "receipt \<noteq> []"
proof -
  have get: "k \<noteq> ''signature'' \<Longrightarrow> getn receipt k = getn (build_receipt args) k" for k
    by (rule receipt.sign_keeps_fields [OF assms(2)])
  have f: "getn (build_receipt args) ''provider_pubkey'' = JStr (public_key_str P kp)"
    "getn (build_receipt args) ''response_hash'' = JStr (hash_response_body P content)" "getn (build_receipt args) ''request_hash'' = JStr h"
    using assms(3,4,6) by (simp_all add: build_receipt_def dict_simps) (simp_all add: getn_def)
  obtain v where "verify_receipt P receipt = Inr v" "valid v"
    using receipt.signed_is_valid [OF assms(1,2) f(1) assms(7)] by blast
  then show "relay_verify P receipt content completion = Inr True" using assms(5) f get by (simp add: relay_verify_def)
  show "receipt \<noteq> []" using get [of "''provider_pubkey''"] f(1) by (auto simp: getn_def)
qed

subsection \<open>Properties\<close>

text \<open>C28. The relay reaches out only for a target whose manifest has a valid schema and signature, at the signed
  address, which the guard admits; then it makes exactly one call, with the completion it was given, and answers with
  the provider's status and body unchanged. Any other request changes nothing and is answered with 400.\<close>

theorem relay_guarded:
  assumes "relay P E body w = (Inr (code, v), w')"
  shows "(w' = w \<and> code = 400) \<or>
    (\<exists>d target completion m url. body = Some (JObj d) \<and> getn d ''target'' = JObj target \<and> getn d ''completion'' = JObj completion \<and>
       getn target ''manifest'' = JObj m \<and> getn target ''base_url'' = JStr url \<and>
       verify_document P ''provider_pubkey'' m = Inr True \<and> schema_accepts P ''provider_manifest'' m \<and>
       getn m ''manifest_uri'' = JStr url \<and> is_safe_forward_url url \<and>
       forward E url completion w = (Inr (code, v), w'))"
proof (cases "body")
  case None
  then show ?thesis using assms by (auto simp: relay_def relay_error_def)
next
  case (Some b)
  show ?thesis
  proof (cases "Option.bind (the_obj b) (\<lambda>d. the_obj (getn d ''target'')) = None \<or> Option.bind (the_obj b) (\<lambda>d. the_obj (getn d ''completion'')) = None")
    case True
    then show ?thesis using assms Some by (auto simp: relay_def relay_error_def split: option.splits)
  next
    case False
    then obtain d target completion where b: "b = JObj d" "getn d ''target'' = JObj target" "getn d ''completion'' = JObj completion"
      by (auto simp: bind_eq_Some_conv)
    show ?thesis
    proof (cases "the_obj (getn target ''manifest'') = None \<or> the_str (getn target ''base_url'') = None")
      case True
      then show ?thesis using assms Some b by (auto simp: relay_def relay_error_def split: option.splits)
    next
      case False
      then obtain m url where t: "getn target ''manifest'' = JObj m" "getn target ''base_url'' = JStr url" by auto
      have r: "abind (alift (verify_provider_manifest P m)) (\<lambda>verified.
                 if \<not> verified then aret (relay_error 400 ''target manifest does not verify'')
                 else if getn m ''manifest_uri'' \<noteq> JStr url
                 then aret (relay_error 400 ''base_url does not match the signed manifest_uri'')
                 else if \<not> is_safe_forward_url url
                 then aret (relay_error 400 ''refusing to forward to a private/loopback address'')
                 else forward E url completion) w = (Inr (code, v), w')"
        using assms Some b t by (simp add: relay_def)
      then obtain verified where ver: "verify_provider_manifest P m = Inr verified" by (auto simp: abind_alift split: sum.splits)
      show ?thesis
      proof (cases "verified \<and> getn m ''manifest_uri'' = JStr url \<and> is_safe_forward_url url")
        case True
        then have "forward E url completion w = (Inr (code, v), w')" using r ver by (simp add: abind_alift)
        moreover have "verify_document P ''provider_pubkey'' m = Inr True" "schema_accepts P ''provider_manifest'' m"
          using ver True by (simp_all add: verify_provider_manifest_def verify_checked_True)
        ultimately show ?thesis using Some b t True by blast
      next
        case False
        then show ?thesis using r ver by (auto simp: abind_alift relay_error_def split: if_splits)
      qed
    qed
  qed
qed

text \<open>A verified relayed answer comes with a receipt that is well formed, signed by the key it names, over
  exactly the returned content and exactly the request that was sent.\<close>

theorem relay_answer_bound:
  assumes "relay_chat P post target completion check w = (Inr r, w')" "rl_verified r"
  shows "check \<and> (\<exists>v. verify_receipt P (rl_receipt r) = Inr v \<and> valid v) \<and>
    getn (rl_receipt r) ''response_hash'' = JStr (hash_response_body P (rl_content r)) \<and>
    (\<exists>h. hash_request P (get_or completion ''model'' (JStr [])) (get_or completion ''messages'' (JArr [])) = Inr h \<and>
         getn (rl_receipt r) ''request_hash'' = JStr h)"
proof -
  obtain reply where "relay_judge P completion check reply = Inr r"
    using assms(1) by (auto simp: relay_chat_def abind_eq_Inr)
  then show ?thesis using assms(2)
    by (auto simp: relay_judge_def Let_def rbind_eq_Inr relay_verify_def split: if_splits)
qed

text \<open>The relay can forge a verified answer: the receipt is checked against the key it names itself, never against
  the provider that was asked for. With any key pair of its own, whatever the target's key, the relay answers any
  content and the client reports it as verified.\<close>

theorem relay_can_forge:
  assumes "ed25519_laws P" "sign_receipt P (build_receipt args) relay_key = Inr receipt"
    and "r_provider_pubkey args = public_key_str P relay_key" "r_response_hash args = hash_response_body P content"
    and "hash_request P (get_or completion ''model'' (JStr [])) (get_or completion ''messages'' (JArr [])) = Inr h"
    and "r_request_hash args = Some h" "schema_accepts P ''receipt'' receipt"
    and "getn manifest ''provider_pubkey'' \<noteq> JStr (public_key_str P relay_key)" "getn target ''manifest'' = JObj manifest"
    and "\<And>call. post call w = (Inr \<lparr>reply_status = 200, reply_json = Some (JObj
        [(''choices'', JArr [JObj [(''message'', JObj [(''content'', JStr content)])]]), (''sip_receipt'', JObj receipt)]),
        says_json = True\<rparr>, w)"
  shows "relay_chat P post target completion True w =
    (Inr \<lparr>rl_content = content, rl_receipt = receipt, rl_status = 200, rl_verified = True\<rparr>, w)"
proof -
  note self_signed_verifies [OF assms(1-6) assms(7)]
  then show ?thesis
    by (simp add: relay_chat_def abind_def assms(10) alift_def relay_judge_def payload_of_def content_of_def getn_def [of "[_, _]"] getn_def [of "[_]"] Let_def)
qed

subsection \<open>Inputs\<close>

definition demo_order :: dict where
  "demo_order = [(''model'', JStr ''m''), (''messages'', JArr [])]"

definition demo_target :: dict where
  "demo_target = [(''manifest'', JObj (demo_manifest ''1'')), (''base_url'', JStr ''http://u'')]"

lemma demo_url_safe: "is_safe_forward_url ''http://u''"
  by code_simp

lemma demo_relayed:
  "relay demo (demo_relay []) (Some (JObj [(''target'', JObj demo_target), (''completion'', JObj demo_order)])) () =
     (Inr (200, JObj [(''providers'', JArr [])]), ())"
  by (simp add: relay_def getn_def demo_target_def abind_alift demo_manifest_verified demo_manifest_fields [unfolded getn_def] demo_url_safe
      forward_def demo_relay_def)

lemma relay_guarded_witness:
  "forward (demo_relay []) ''http://u'' demo_order () = (Inr (200, JObj [(''providers'', JArr [])]), ())"
  using relay_guarded [OF demo_relayed] by (auto simp: getn_def demo_target_def)

definition forged_args :: receipt_args where
  "forged_args = \<lparr>r_request_id = ''r'', r_provider_pubkey = public_key_str demo (demo_key 5), r_model_manifest_hash = ''h'',
     r_model_alias = ''m'', r_runtime = ''mock'', r_input_tokens = 1, r_output_tokens = 1, r_price_units = ''pic'',
     r_price_amount = ''1'', r_privacy_mode = ''direct'', r_started_at = 0, r_completed_at = 0,
     r_response_hash = hash_response_body demo ''lies'', r_runtime_version = None,
     r_request_hash = (case hash_request demo (JStr ''m'') (JArr []) of Inl e \<Rightarrow> None | Inr h \<Rightarrow> Some h)\<rparr>"

definition forged_reply :: "dict \<Rightarrow> typed_reply" where
  "forged_reply receipt = \<lparr>reply_status = 200, reply_json = Some (JObj
     [(''choices'', JArr [JObj [(''message'', JObj [(''content'', JStr ''lies'')])]]), (''sip_receipt'', JObj receipt)]), says_json = True\<rparr>"

lemma demo_keys_differ: "public_key_str demo (demo_key 3) \<noteq> public_key_str demo (demo_key 5)"
  by code_simp

lemma demo_forgery:
  obtains receipt h where "sign_receipt demo (build_receipt forged_args) (demo_key 5) = Inr receipt"
    "schema_accepts demo ''receipt'' receipt" "r_request_hash forged_args = Some h"
    "hash_request demo (get_or demo_order ''model'' (JStr [])) (get_or demo_order ''messages'' (JArr [])) = Inr h"
proof -
  obtain h where h: "hash_request demo (JStr ''m'') (JArr []) = Inr h" using hash_request_total [of "[]"] by auto
  obtain receipt where s: "sign_receipt demo (build_receipt forged_args) (demo_key 5) = Inr receipt"
    using sign_document_total [OF build_receipt_ok] unfolding sign_receipt_def by blast
  have get: "k \<noteq> ''signature'' \<Longrightarrow> getn receipt k = getn (build_receipt forged_args) k" for k
    by (rule receipt.sign_keeps_fields [OF s])
  obtain bs where d: "receipt = dict_set ''signature'' (JStr (sign_message demo (demo_key 5) bs)) (dict_without ''signature'' (build_receipt forged_args))"
    using s unfolding sign_receipt_def sign_document_def Let_def rbind_eq_Inr by (metis sum.inject(2))
  have sg: "getn receipt ''signature'' = JStr (sign_message demo (demo_key 5) bs)"
    unfolding d getn_set by (rule if_P) (rule refl)
  have f: "getn receipt ''request_id'' = JStr ''r''" "getn receipt ''price_amount'' = JStr ''1''"
    "getn receipt ''provider_pubkey'' = JStr (public_key_str demo (demo_key 5))"
    by (simp_all add: get forged_args_def h build_receipt_def optional_field_def dict_simps) (simp_all add: getn_def)
  have "getn d k \<noteq> JNull \<Longrightarrow> dict_get d k \<noteq> None" for d k by (cases "dict_get d k") (simp_all add: getn_def)
  from this [of receipt] have "schema_accepts demo ''receipt'' receipt"
    using f sg by (auto simp: schema_accepts_def demo_def demo_validator_def demo_members_def filter_empty_conv)
  then show thesis using that [OF s] h by (simp add: forged_args_def demo_order_def get_or_def)
qed

lemma forged_for: "r_provider_pubkey forged_args = public_key_str demo (demo_key 5)"
  "r_response_hash forged_args = hash_response_body demo ''lies''"
  by (simp_all add: forged_args_def)

lemma relay_can_forge_witness:
  "\<exists>receipt. relay_chat demo (\<lambda>call w. (Inr (forged_reply receipt), w)) demo_target demo_order True () =
     (Inr \<lparr>rl_content = ''lies'', rl_receipt = receipt, rl_status = 200, rl_verified = True\<rparr>, ())"
proof -
  obtain receipt h where r: "sign_receipt demo (build_receipt forged_args) (demo_key 5) = Inr receipt"
    "schema_accepts demo ''receipt'' receipt" "r_request_hash forged_args = Some h"
    "hash_request demo (get_or demo_order ''model'' (JStr [])) (get_or demo_order ''messages'' (JArr [])) = Inr h"
    by (rule demo_forgery)
  have "getn (demo_manifest ''1'') ''provider_pubkey'' \<noteq> JStr (public_key_str demo (demo_key 5))"
    using demo_manifest_fields(3) [of "''1''"] demo_keys_differ by (auto simp: getitem_def getn_def split: option.splits)
  moreover have "getn demo_target ''manifest'' = JObj (demo_manifest ''1'')" by (simp add: demo_target_def getn_def)
  ultimately show ?thesis
    using relay_can_forge [OF demo_laws r(1) forged_for r(4,3,2), of "demo_manifest ''1''" demo_target "\<lambda>call w. (Inr (forged_reply receipt), w)" "()"]
    by (auto simp: forged_reply_def)
qed

lemma relay_answer_bound_witness:
  "\<exists>receipt h. hash_request demo (get_or demo_order ''model'' (JStr [])) (get_or demo_order ''messages'' (JArr [])) = Inr h \<and>
     getn receipt ''request_hash'' = JStr h"
proof -
  obtain receipt h where r: "sign_receipt demo (build_receipt forged_args) (demo_key 5) = Inr receipt"
    "schema_accepts demo ''receipt'' receipt" "r_request_hash forged_args = Some h"
    "hash_request demo (get_or demo_order ''model'' (JStr [])) (get_or demo_order ''messages'' (JArr [])) = Inr h"
    by (rule demo_forgery)
  have "relay_chat demo (\<lambda>call w. (Inr (forged_reply receipt), w)) demo_target demo_order True () =
     (Inr \<lparr>rl_content = ''lies'', rl_receipt = receipt, rl_status = 200, rl_verified = True\<rparr>, ())"
    using self_signed_verifies [OF demo_laws r(1) forged_for r(4,3,2)]
    by (simp add: relay_chat_def abind_def alift_def relay_judge_def payload_of_def content_of_def forged_reply_def
        getn_def [of "[_, _]"] getn_def [of "[_]"] Let_def)
  from relay_answer_bound [OF this] show ?thesis by auto
qed

end
