(* ===== verification/PrivacyDemo.thy ===== *)
theory PrivacyDemo
  imports RoutingDemo Relay Blind
begin

text \<open>
  \<^verbatim>\<open>privacy_demo.py\<close>: an attested provider is required, an unlinkable credit is minted and spent once, and a request goes
  through a relay; a relay that changes the answer is noticed.
\<close>

subsection \<open>The script\<close>

definition NODE_URL :: string where
  "NODE_URL = ''http://attested-node''"

definition TEE_TYPE :: string where
  "TEE_TYPE = ''intel-tdx''"

definition CREDIT :: string where
  "CREDIT = ''0.03''"

record privacy_result =
  pd_exit_code :: int
  provider_attested :: bool
  credit_unlinkable :: bool
  double_spend_blocked :: bool
  relayed_receipt_verified :: bool
  tamper_detected :: bool

definition demo_statement :: "platform \<Rightarrow> keypair \<Rightarrow> dict" where
  "demo_statement P kp = build_attestation (public_key_str P kp) TEE_TYPE (''sha256:'' @ concat (replicate 32 ''ab''))
     ''2026-06-30T00:00:00Z'' (Some ''ar://dcap-quote'')"

definition attested_terms :: "platform \<Rightarrow> keypair \<Rightarrow> dict \<Rightarrow> dict" where
  "attested_terms P kp attestation = dict_set ''attestation'' (JObj attestation) (build_provider_manifest
     ((manifest_defaults (public_key_str P kp) [MODEL] [''llama.cpp''] ''test'' ''2026-06-30T00:00:00Z'')\<lparr>m_manifest_uri := Some NODE_URL\<rparr>))"

definition attested_provider :: "platform \<Rightarrow> keypair \<Rightarrow> int \<Rightarrow> (dict \<times> app) res" where
  "attested_provider P kp now =
     rbind (sign_attestation P (demo_statement P kp) kp) (\<lambda>attestation.
     rbind (sign_provider_manifest P (attested_terms P kp attestation) kp) (\<lambda>m.
     rbind (create_app P (local_gateway kp mock_adapter MODEL) (Some m) ''no_prompt_logging'' now None None) (\<lambda>app. Inr (m, app))))"

text \<open>
  Part 2, up to the search for a blinding factor, which has no bound: the credit is valid and its blinded form is not the
  serial; it is redeemed once.
\<close>

definition credit_part :: "platform \<Rightarrow> blind_issuer \<Rightarrow> rng \<Rightarrow> (bool \<times> bool) res option" where
  "credit_part P issuer rng =
     (case blind_credit_request P (issuer_public issuer) ''pic'' CREDIT rng of None \<Rightarrow> None
      | Some (request, secret) \<Rightarrow> Some (
          rbind (sign_blinded issuer (req_blinded request)) (\<lambda>blinded_sig.
          rbind (finalize_blind_credit blinded_sig secret) (\<lambda>credit.
          let unlinkable = verify_blind_credit P credit \<and> req_blinded request \<noteq> int_of_bytes (sec_token secret);
              (first, spent) = redeem_blind_credit P credit CREDIT ''pic'' [pubkey_str (issuer_public issuer)] {};
              (replay, spent') = redeem_blind_credit P credit CREDIT ''pic'' [pubkey_str (issuer_public issuer)] spent
          in Inr (unlinkable, ok first \<and> \<not> ok replay \<and> reason replay = ''double_spend'')))))"

text \<open>Whatever the address, the relay's client reaches the node's application. A relay answers in JSON.\<close>

definition relay_app :: "platform \<Rightarrow> mesh outside \<Rightarrow> http_call \<Rightarrow> (mesh, typed_reply) act" where
  "relay_app P E call w = (case relay P E (call_json call) w of
     (Inl x, w') \<Rightarrow> (Inl x, w') | (Inr (code, v), w') \<Rightarrow> (Inr \<lparr>reply_status = code, reply_json = Some v, says_json = True\<rparr>, w'))"

definition tamper :: "dict \<Rightarrow> http_call \<Rightarrow> (mesh, typed_reply) act" where
  "tamper receipt call w = (Inr \<lparr>reply_status = 200, reply_json = Some (JObj
     [(''choices'', JArr [JObj [(''index'', JInt 0), (''message'', JObj [(''role'', JStr ''assistant''), (''content'', JStr ''TAMPERED'')])]]),
      (''sip_receipt'', JObj receipt)]), says_json = True\<rparr>, w)"

definition relayed_prompt :: string where
  "relayed_prompt = ''what is sovereign inference?''"

definition relayed_order :: dict where
  "relayed_order = [(''model'', JStr MODEL), (''messages'', JArr (user_says relayed_prompt))]"

definition relay_part :: "platform \<Rightarrow> mesh outside \<Rightarrow> dict \<Rightarrow> (mesh, bool \<times> bool) act" where
  "relay_part P E m =
     (let target = [(''base_url'', JStr NODE_URL), (''manifest'', JObj m)] in
      abind (relay_chat P (relay_app P E) target relayed_order True) (\<lambda>result.
      abind (relay_chat P (tamper (rl_receipt result)) target relayed_order True) (\<lambda>tampered.
        aret (rl_verified result, \<not> rl_verified tampered))))"

definition privacy_main :: "platform \<Rightarrow> internet \<Rightarrow> keypair \<Rightarrow> blind_issuer \<Rightarrow> rng \<Rightarrow> int \<Rightarrow> mesh \<Rightarrow> (privacy_result res \<times> mesh) option" where
  "privacy_main P I kp issuer rng now w =
     (case rbind (attested_provider P kp now) (\<lambda>(m, app). rbind (is_attested P m [TEE_TYPE, ''amd-sev-snp''] None) (\<lambda>attested. Inr (m, app, attested))) of
        Inl x \<Rightarrow> Some (Inl x, w)
      | Inr (m, app, attested) \<Rightarrow>
          if \<not> attested
          then Some (Inr \<lparr>pd_exit_code = 1, provider_attested = False, credit_unlinkable = False, double_spend_blocked = False,
            relayed_receipt_verified = False, tamper_detected = False\<rparr>, w)
          else (case credit_part P issuer rng of None \<Rightarrow> None
           | Some (Inl x) \<Rightarrow> Some (Inl x, w)
           | Some (Inr (unlinkable, blocked)) \<Rightarrow>
               let apps = [(NODE_URL, app)] in
               Some (abind (relay_part P (one_app P (with_apps apps I) NODE_URL) m) (\<lambda>(verified, detected). aret
                 \<lparr>pd_exit_code = (if attested \<and> unlinkable \<and> blocked \<and> verified \<and> detected then 0 else 1), provider_attested = attested,
                  credit_unlinkable = unlinkable, double_spend_blocked = blocked, relayed_receipt_verified = verified, tamper_detected = detected\<rparr>)
                 (started apps w))))"

text \<open>\<^verbatim>\<open>run\<close>\<close>

definition privacy_run :: "platform \<Rightarrow> internet \<Rightarrow> keypair \<Rightarrow> blind_issuer \<Rightarrow> rng \<Rightarrow> int \<Rightarrow> mesh \<Rightarrow> (int res \<times> mesh) option" where
  "privacy_run P I kp issuer rng now w =
     map_option (\<lambda>(r, w'). (rbind r (\<lambda>d. Inr (pd_exit_code d)), w')) (privacy_main P I kp issuer rng now w)"

subsection \<open>The attested provider\<close>

definition attestation_passes :: "platform \<Rightarrow> keypair \<Rightarrow> bool" where
  "attestation_passes P kp \<longleftrightarrow> (\<forall>a. sign_attestation P (demo_statement P kp) kp = Inr a \<longrightarrow> schema_accepts P ''attestation'' a \<and>
     (\<forall>m. sign_provider_manifest P (attested_terms P kp a) kp = Inr m \<longrightarrow> schema_accepts P ''provider_manifest'' m))"

definition attested_site :: "keypair \<Rightarrow> gateway_config" where
  "attested_site kp = local_gateway kp mock_adapter MODEL"

lemma attested_started:
  assumes "ed25519_laws P" "attestation_passes P kp"
  obtains m where "attested_provider P kp now = Inr (m, (attested_site kp)\<lparr>gw_manifest := m\<rparr>, fresh_state)"
    "is_attested P m [TEE_TYPE, ''amd-sev-snp''] None = Inr True" "verify_provider_manifest P m = Inr True" "getn m ''manifest_uri'' = JStr NODE_URL"
proof -
  have draft: "json_ok (JObj (demo_statement P kp))" "getn (demo_statement P kp) ''provider_pubkey'' = JStr (public_key_str P kp)"
    "getn (demo_statement P kp) ''tee_type'' = JStr TEE_TYPE"
    by (simp_all add: demo_statement_def build_attestation_def optional_field_def) (simp_all add: getn_def)
  obtain a where a: "sign_document P (demo_statement P kp) kp = Inr a" using sign_document_total [OF draft(1)] by blast
  have get: "k \<noteq> ''signature'' \<Longrightarrow> getn a k = getn (demo_statement P kp) k" for k using sign_document_fields [OF a] by (simp add: getn_def)
  have schema: "schema_accepts P ''attestation'' a" using assms(2) a by (simp add: attestation_passes_def sign_attestation_def)
  have verified: "verify_attestation P a = Inr True"
    using sign_verify_document [OF assms(1) a _ draft(2)] schema by (simp add: verify_attestation_def verify_checked_True)
  have "json_ok (JObj a)" using a draft(1) by (rule signed_json_ok)
  then have terms: "json_ok (JObj (attested_terms P kp a))" "getn (attested_terms P kp a) ''attestation'' = JObj a"
    "getn (attested_terms P kp a) ''provider_pubkey'' = JStr (public_key_str P kp)" "getn (attested_terms P kp a) ''manifest_uri'' = JStr NODE_URL"
    by (simp_all add: attested_terms_def build_provider_manifest_def manifest_defaults_def optional_field_def jstrs_def) (simp_all add: getn_def)
  obtain m where m: "sign_document P (attested_terms P kp a) kp = Inr m" using sign_document_total [OF terms(1)] by blast
  have got: "k \<noteq> ''signature'' \<Longrightarrow> getn m k = getn (attested_terms P kp a) k" for k using sign_document_fields [OF m] by (simp add: getn_def)
  have ok: "schema_accepts P ''provider_manifest'' m" using assms(2) a m by (simp add: attestation_passes_def sign_attestation_def sign_provider_manifest_def)
  show thesis
  proof (rule that)
    show "attested_provider P kp now = Inr (m, (attested_site kp)\<lparr>gw_manifest := m\<rparr>, fresh_state)"
      using a m got [of "''manifest_uri''"] terms(4)
      by (auto simp: attested_provider_def sign_attestation_def sign_provider_manifest_def create_app_def attested_site_def fresh_state_def getn_def)
    show "is_attested P m [TEE_TYPE, ''amd-sev-snp''] None = Inr True"
      using got [of "''attestation''"] got [of "''provider_pubkey''"] get [of "''tee_type''"] get [of "''provider_pubkey''"] terms(2,3) draft(2,3) verified
      by (simp add: is_attested_def in_str_set_def)
    show "verify_provider_manifest P m = Inr True"
      using sign_verify_document [OF assms(1) m _ terms(3)] ok by (simp add: verify_provider_manifest_def verify_checked_True)
    show "getn m ''manifest_uri'' = JStr NODE_URL" using got [of "''manifest_uri''"] terms(4) by simp
  qed
qed


subsection \<open>The credit\<close>

lemma credit_spent_once:
  assumes "rsa_key n e d p q" "3 \<le> n" "2 \<le> e" "length (str_of_nat e) \<le> 4300" "is_bytes (rng 0 32)"
    and request: "blind_credit_request P \<lparr>key_n = n, key_e = e\<rparr> ''pic'' CREDIT rng = Some (request, secret)"
    and signed: "sign_blinded \<lparr>iss_n = n, iss_e = e, iss_d = d\<rparr> (req_blinded request) = Inr s"
  shows "credit_part P \<lparr>iss_n = n, iss_e = e, iss_d = d\<rparr> rng = Some (Inr (req_blinded request \<noteq> int_of_bytes (rng 0 32), True))"
proof -
  let ?k = "\<lparr>key_n = n, key_e = e\<rparr>"
  obtain credit where c: "finalize_blind_credit s secret = Inr credit" "verify_blind_credit P credit" "cr_unit credit = ''pic''" "cr_amount credit = CREDIT"
    using blind_credit_verifies [OF assms] by blast
  have secret: "sec_key secret = ?k" "sec_token secret = rng 0 32"
    by (rule blind_credit_request_cases [OF request], simp)+
  have issuer: "cr_issuer credit = pubkey_str ?k" using c(1) secret by (auto simp: finalize_blind_credit_def rbind_eq_Inr)
  have "redeem_blind_credit P credit CREDIT ''pic'' [pubkey_str ?k] {} =
      (\<lparr>ok = True, scheme = ''blind'', total_amount = CREDIT, reason = []\<rparr>, {blind_spend_key credit})"
    using redeem_blind_accepts [of credit "[pubkey_str ?k]" P "''pic''" CREDIT "{}"] c issuer by simp
  moreover have "redeem_blind_credit P credit CREDIT ''pic'' [pubkey_str ?k] {blind_spend_key credit} = (rejected ''blind'' ''double_spend'', {blind_spend_key credit})"
    using c issuer by (simp add: redeem_blind_credit_def is_spent_def)
  ultimately show ?thesis using request signed c(1,2) secret(2)
    by (simp add: credit_part_def issuer_public_def rejected_def Let_def)
qed

subsection \<open>The relayed request\<close>

lemma attested_site_terms: "script_terms ((attested_site kp)\<lparr>gw_manifest := m\<rparr>)" "\<not> require_payment ((attested_site kp)\<lparr>gw_manifest := m\<rparr>)"
  "token ((attested_site kp)\<lparr>gw_manifest := m\<rparr>) = None" "gw_keypair ((attested_site kp)\<lparr>gw_manifest := m\<rparr>) = kp"
  using free_of_charge by (auto simp: script_terms_def attested_site_def local_gateway_def)

definition relayed_call :: http_call where
  "relayed_call = \<lparr>verb = ''POST'', path = ''/v1/chat/completions'', call_headers = [], call_json = Some (JObj relayed_order)\<rparr>"

lemma relayed_prompt_short: "length relayed_prompt \<le> 100000"
  by (simp add: relayed_prompt_def)

lemma relayed_order_accepted:
  assumes "script_terms g" "token g = None"
  shows "chat_request g (app_request relayed_call) = Inr (relayed_order, MODEL, user_says relayed_prompt, 256)" "sip_payment relayed_order = []"
    "header_or (app_request relayed_call) ''x-sip-request-id'' ''anon'' = ''anon''" "header_or (app_request relayed_call) ''x-sip-privacy-mode'' ''direct'' = ''direct''"
proof -
  have f: "getn relayed_order ''model'' = JStr MODEL" "getn relayed_order ''messages'' = JArr (user_says relayed_prompt)" "get_or relayed_order ''max_tokens'' (JInt 256) = JInt 256"
    by (simp_all add: relayed_order_def getn_def get_or_def)
  have "takes_request g (client_asks [] (user_says relayed_prompt))" by (rule script_takes(1) [OF assms(1) relayed_prompt_short])
  then have "valid_messages (JArr (user_says relayed_prompt))" "total_chars (user_says relayed_prompt) \<le> max_input_chars g" "MODEL \<in> set (allowed_models g)"
    "256 \<le> max_output_tokens g"
    by (simp_all add: takes_request_def client_asks_def)
  moreover have "auth_ok g (app_request relayed_call)" using assms(2) by (simp add: auth_ok_def)
  moreover have "body (app_request relayed_call) = Some (JObj relayed_order)" by (simp add: app_request_def relayed_call_def)
  ultimately show "chat_request g (app_request relayed_call) = Inr (relayed_order, MODEL, user_says relayed_prompt, 256)"
    using f by (simp add: chat_request_def)
  show "sip_payment relayed_order = []" by (simp add: sip_payment_def relayed_order_def getn_def)
  show "header_or (app_request relayed_call) ''x-sip-request-id'' ''anon'' = ''anon''" "header_or (app_request relayed_call) ''x-sip-privacy-mode'' ''direct'' = ''direct''"
    by (simp_all add: header_or_def app_request_def relayed_call_def)
qed

lemma relayed_served:
  assumes "sites I NODE_URL = Some g" "script_terms g" "token g = None" "\<not> require_payment g"
  obtains receipt w' where "network (one_app P I NODE_URL) url relayed_call w = (Inr (app_reply (chat_reply ''anon'' MODEL (echoed relayed_prompt) receipt)), w')"
    "chat_receipt P g ''anon'' ''direct'' MODEL (user_says relayed_prompt) (echoed relayed_prompt) None (site_clock I (moment w)) = Inr receipt"
proof -
  let ?m = "site_clock I (moment w)" and ?others = "rivals I (moment w)" and ?s = "at_site w NODE_URL"
  note takes = script_takes [OF assms(2) relayed_prompt_short]
  note req = relayed_order_accepted [OF assms(2,3)]
  have run: "adapter_chat (gw_adapter g) MODEL (user_says relayed_prompt) 256 = Inr (echoed relayed_prompt)"
    and price: "\<exists>price. price_amount g (input_tokens (echoed relayed_prompt)) (output_tokens (echoed relayed_prompt)) = Inr price"
    using takes(2) [of "[]"] by (simp_all add: answerable_def client_asks_def)
  have "list_all json_ok (user_says relayed_prompt)" by (simp add: user_says_def)
  then obtain receipt where rc: "chat_receipt P g ''anon'' ''direct'' MODEL (user_says relayed_prompt) (echoed relayed_prompt) None ?m = Inr receipt"
    using free_receipt_total price by metis
  obtain hs where hs: "rate_limited g (at_clock ?m) ?s = (False, ?s\<lparr>hits := hs\<rparr>)" using room_passes [OF takes(3) order_refl] by blast
  have "chat_completions P g (app_request relayed_call) ?m ?others ?s = (Inr (chat_reply ''anon'' MODEL (echoed relayed_prompt) receipt),
      ?s\<lparr>hits := hs, spent_keys := ?others (spent_keys ?s)\<rparr>)"
    using req hs assms(4) run rc
    by (simp add: chat_completions_def chat_serve_def check_payment_def chat_finish_def commit_payment_def Let_def)
  then have "gateway_app P g ?m ?others (elsewhere I) relayed_call ?s =
      (Inr (app_reply (chat_reply ''anon'' MODEL (echoed relayed_prompt) receipt)), ?s\<lparr>hits := hs, spent_keys := ?others (spent_keys ?s)\<rparr>)"
    by (simp add: gateway_app_def relayed_call_def)
  then show thesis using assms(1) rc by (intro that [of receipt]) (auto simp: one_app_def mesh_network_def)
qed

lemma node_url_safe: "is_safe_forward_url NODE_URL"
  by code_simp

text \<open>The receipt schema accepts what the node signs, and the two answers have different hashes.\<close>

definition relay_receipts_pass :: "platform \<Rightarrow> internet \<Rightarrow> gateway_config \<Rightarrow> bool" where
  "relay_receipts_pass P I g \<longleftrightarrow> (\<forall>k receipt. chat_receipt P g ''anon'' ''direct'' MODEL (user_says relayed_prompt) (echoed relayed_prompt) None
     (site_clock I k) = Inr receipt \<longrightarrow> schema_accepts P ''receipt'' receipt)"

lemma relay_part_honest:
  assumes "ed25519_laws P" "verify_provider_manifest P m = Inr True" "getn m ''manifest_uri'' = JStr NODE_URL"
    and site: "sites I NODE_URL = Some g" "script_terms g" "token g = None" "\<not> require_payment g"
    and pass: "relay_receipts_pass P I g" "hash_response_body P ''TAMPERED'' \<noteq> hash_response_body P (''echo: '' @ relayed_prompt)"
  shows "\<exists>w'. relay_part P (one_app P I NODE_URL) m w = (Inr (True, True), w')"
proof -
  let ?target = "[(''base_url'', JStr NODE_URL), (''manifest'', JObj m)]"
  obtain receipt w' where r: "network (one_app P I NODE_URL) NODE_URL relayed_call w = (Inr (app_reply (chat_reply ''anon'' MODEL (echoed relayed_prompt) receipt)), w')"
    "chat_receipt P g ''anon'' ''direct'' MODEL (user_says relayed_prompt) (echoed relayed_prompt) None (site_clock I (moment w)) = Inr receipt"
    by (rule relayed_served [OF site])
  have schema: "schema_accepts P ''receipt'' receipt" using pass(1) r(2) by (auto simp: relay_receipts_pass_def)
  obtain h where h: "hash_request P (JStr MODEL) (JArr (user_says relayed_prompt)) = Inr h"
    using hash_request_total [of "user_says relayed_prompt"] by (auto simp: user_says_def)
  have body: "getn receipt ''response_hash'' = JStr (hash_response_body P (content (echoed relayed_prompt)))"
    and valid: "\<exists>v. verify_receipt P receipt = Inr v \<and> valid v"
    and asked: "\<exists>rh. hash_request P (JStr MODEL) (JArr (user_says relayed_prompt)) = Inr rh \<and> getn receipt ''request_hash'' = JStr rh"
    using chat_receipt_fields [OF r(2)] assms(1) schema by metis+
  have f: "getn receipt ''response_hash'' = JStr (hash_response_body P (''echo: '' @ relayed_prompt))" "getn receipt ''request_hash'' = JStr h" "receipt \<noteq> []"
    using body asked h by (simp_all only: echoed_def chat_result.select_convs) (simp_all add: getn_def split: option.splits, force)
  have order: "get_or relayed_order ''model'' (JStr []) = JStr MODEL" "get_or relayed_order ''messages'' (JArr []) = JArr (user_says relayed_prompt)"
    by (simp_all add: relayed_order_def get_or_def)
  have good: "relay_verify P receipt (''echo: '' @ relayed_prompt) relayed_order = Inr True" "relay_verify P receipt ''TAMPERED'' relayed_order = Inr False"
    using f(1,2) h order pass(2) valid by (auto simp: relay_verify_def)
  have fields: "getn ?target ''manifest'' = JObj m" "getn ?target ''base_url'' = JStr NODE_URL" by (simp_all add: getn_def)
  have "relay P (one_app P I NODE_URL) (Some (JObj [(''target'', JObj ?target), (''completion'', JObj relayed_order)])) w =
      (Inr (200, reply (chat_reply ''anon'' MODEL (echoed relayed_prompt) receipt)), w')"
    using assms(2,3) node_url_safe r(1) fields
    by (simp add: relay_def getn_def [of "[(''target'', _), _]"] abind_def alift_def forward_def relayed_call_def app_reply_def chat_reply_def)
  then have first: "relay_chat P (relay_app P (one_app P I NODE_URL)) ?target relayed_order True w =
      (Inr \<lparr>rl_content = ''echo: '' @ relayed_prompt, rl_receipt = receipt, rl_status = 200, rl_verified = True\<rparr>, w')"
    using good(1) f(3) by (simp add: relay_chat_def relay_app_def abind_def alift_def relay_judge_def payload_of_def chat_reply_def echoed_def
        Relay.content_of_def getn_def [of "(_, _) # _"] Let_def)
  have second: "relay_chat P (tamper receipt) ?target relayed_order True w' =
      (Inr \<lparr>rl_content = ''TAMPERED'', rl_receipt = receipt, rl_status = 200, rl_verified = False\<rparr>, w')"
    using good(2) f(3) by (simp add: relay_chat_def tamper_def abind_def alift_def relay_judge_def payload_of_def
        Relay.content_of_def getn_def [of "(_, _) # _"] Let_def)
  show ?thesis by (simp add: relay_part_def Let_def abind_def [of "relay_chat _ _ _ _ _"] first second aret_def)
qed


lemma relay_receipts_same [simp]: "relay_receipts_pass P (with_apps apps I) g = relay_receipts_pass P I g"
  "relay_receipts_pass P I (g\<lparr>gw_manifest := m\<rparr>) = relay_receipts_pass P I g"
  by (simp_all add: relay_receipts_pass_def with_apps_def chat_receipt_def price_amount_def)

subsection \<open>The script reaches its end\<close>

text \<open>The privacy script: the attestation is accepted, the credit is spent once, the relayed answer verifies and a changed one does
  not. The exit code is 0 unless the blinded value happens to be the serial itself.\<close>

theorem privacy_main_succeeds:
  assumes "ed25519_laws P" "attestation_passes P kp" "relay_receipts_pass P I (attested_site kp)"
    and "rsa_key n e d p q" "3 \<le> n" "2 \<le> e" "length (str_of_nat e) \<le> 4300" "is_bytes (rng 0 32)"
    and "blind_credit_request P \<lparr>key_n = n, key_e = e\<rparr> ''pic'' CREDIT rng = Some (request, secret)"
    and "sign_blinded \<lparr>iss_n = n, iss_e = e, iss_d = d\<rparr> (req_blinded request) = Inr s"
    and "hash_response_body P ''TAMPERED'' \<noteq> hash_response_body P (''echo: '' @ relayed_prompt)"
  shows "\<exists>w'. privacy_main P I kp \<lparr>iss_n = n, iss_e = e, iss_d = d\<rparr> rng now w =
    Some (Inr \<lparr>pd_exit_code = (if req_blinded request = int_of_bytes (rng 0 32) then 1 else 0), provider_attested = True,
      credit_unlinkable = (req_blinded request \<noteq> int_of_bytes (rng 0 32)), double_spend_blocked = True, relayed_receipt_verified = True, tamper_detected = True\<rparr>, w')"
proof -
  obtain m where m: "attested_provider P kp now = Inr (m, (attested_site kp)\<lparr>gw_manifest := m\<rparr>, fresh_state)"
    "is_attested P m [TEE_TYPE, ''amd-sev-snp''] None = Inr True" "verify_provider_manifest P m = Inr True" "getn m ''manifest_uri'' = JStr NODE_URL"
    by (rule attested_started [OF assms(1,2)])
  let ?g = "(attested_site kp)\<lparr>gw_manifest := m\<rparr>"
  define apps where "apps = [(NODE_URL, ?g, fresh_state)]"
  have site: "sites (with_apps apps I) NODE_URL = Some ?g" by (simp add: with_apps_def apps_def)
  have pass: "relay_receipts_pass P (with_apps apps I) ?g" using assms(3) by simp
  obtain w' where w': "relay_part P (one_app P (with_apps apps I) NODE_URL) m (started apps w) = (Inr (True, True), w')"
    using relay_part_honest [OF assms(1) m(3,4) site attested_site_terms(1,3,2) pass assms(11)] by blast
  show ?thesis
    by (rule exI [of _ w']) (simp add: privacy_main_def m(1,2) credit_spent_once [OF assms(4-10)] apps_def [symmetric] abind_def w' aret_def)
qed

end
