(* ===== verification/SupplyDemo.thy ===== *)
theory SupplyDemo
  imports DiscoveryDemo Reputation
begin

text \<open>
  \<^verbatim>\<open>supply_demo.py\<close>: a node announces to a hosted directory, is found there, probed and ranked, serves a request, has the
  outcome recorded and announces a new benchmark.
\<close>

subsection \<open>The script\<close>

definition supply_node :: string where
  "supply_node = ''http://supply-node''"

definition DIRECTORY_URL :: string where
  "DIRECTORY_URL = ''http://directory''"

definition INITIAL_TPS :: pyfloat where
  "INITIAL_TPS = Fin 30"

definition REBENCH_TPS :: pyfloat where
  "REBENCH_TPS = Fin 55"

definition bench :: "pyfloat \<Rightarrow> dict" where
  "bench tps = [(''tokens_per_second'', JFloat tps), (''ttft_ms'', JInt 500)]"

definition node_manifest :: "platform \<Rightarrow> keypair \<Rightarrow> pyfloat \<Rightarrow> string \<Rightarrow> dict res" where
  "node_manifest P kp tps published = sign_provider_manifest P (usdc_terms P kp supply_node (Some (bench tps)) published) kp"

text \<open>
  The directory service as the client reaches it in process; \<open>elsewhere\<close> answers what is no route of it. The query of the
  script needs no quoting.
\<close>

definition directory_app :: "platform \<Rightarrow> internet \<Rightarrow> http_call \<Rightarrow> json_file \<Rightarrow> http_reply res \<times> json_file" where
  "directory_app P I call file =
     (let answer = (\<lambda>(r, file'). (rbind r (\<lambda>(code, v). Inr \<lparr>reply_status = code, reply_json = Some v\<rparr>), file')) in
      if (verb call, path call) = (''GET'', ''/healthz'') then answer (Inr healthz, file)
      else if (verb call, path call) = (''POST'', ''/directory/announce'')
      then answer (service_announce (file_announce P) (call_json call) file)
      else if (verb call, path call) = (''GET'', ''/directory/providers'') then answer (service_providers (file_discover P) None file)
      else if verb call = ''GET'' \<and> startswith (path call) ''/directory/providers?model=''
      then answer (service_providers (file_discover P) (Some (drop (length ''/directory/providers?model='') (path call))) file)
      else (Inr (elsewhere I), file))"

definition directory_client :: "platform \<Rightarrow> internet \<Rightarrow> json_file outside" where
  "directory_client P I = \<lparr>network = (\<lambda>url. directory_app P I), clock = (\<lambda>file. client_clock I 0), random_text = (\<lambda>file. (draw I 0, file))\<rparr>"

record supply_result =
  sd_exit_code :: int
  sd_discovered_count :: int
  sd_served_by :: string
  sd_receipt_verified :: bool
  sd_recorded_samples :: int
  sd_fresh_tps :: pyfloat

text \<open>The script works on the directory's file, on the file of the reputation store and on the network.\<close>

record supply_world =
  directory_store :: json_file
  reputation_store :: json_file
  gateways :: mesh

definition at_directory :: "(json_file, 'a) act \<Rightarrow> (supply_world, 'a) script" where
  "at_directory f s = (case f (directory_store s) of
     (Inl x, file) \<Rightarrow> (Inl (Escaped x), s\<lparr>directory_store := file\<rparr>) | (Inr y, file) \<Rightarrow> (Inr y, s\<lparr>directory_store := file\<rparr>))"

definition in_store :: "(json_file, 'a) act \<Rightarrow> (supply_world, 'a) script" where
  "in_store f s = (case f (reputation_store s) of
     (Inl x, file) \<Rightarrow> (Inl (Escaped x), s\<lparr>reputation_store := file\<rparr>) | (Inr y, file) \<Rightarrow> (Inr y, s\<lparr>reputation_store := file\<rparr>))"

definition over_net :: "(mesh, 'a) script \<Rightarrow> (supply_world, 'a) script" where
  "over_net f s = (case f (gateways s) of (r, w) \<Rightarrow> (r, s\<lparr>gateways := w\<rparr>))"

definition ranked_now :: "platform \<Rightarrow> internet \<Rightarrow> (mesh \<Rightarrow> pyfloat) \<Rightarrow> discovered list \<Rightarrow> (supply_world, ranked list) script" where
  "ranked_now P I ticks found s = over_net (\<lambda>w. case rank_providers (reputation_store s) (Some (probe_check (one_app P I supply_node) ticks)) found w of
     (Inl x, w') \<Rightarrow> (Inl (Escaped x), w') | (Inr y, w') \<Rightarrow> (Inr y, w')) s"

definition fresh_tps :: "discovered list \<Rightarrow> pyfloat res" where
  "fresh_tps found = (case found of [] \<Rightarrow> Inl IndexError
     | p # _ \<Rightarrow> rbind (getitem (d_manifest p) ''benchmark'') (\<lambda>b. rbind (item b ''tokens_per_second'') py_float))"

text \<open>Step 5, after the outcome has been recorded.\<close>

definition reannounce_part :: "platform \<Rightarrow> internet \<Rightarrow> keypair \<Rightarrow> int \<Rightarrow> string \<Rightarrow> bool \<Rightarrow> int \<Rightarrow> (supply_world, supply_result) script" where
  "reannounce_part P I kp many served verified recorded =
     dbind (dres (node_manifest P kp REBENCH_TPS ''2026-06-30T01:00:00Z'')) (\<lambda>refreshed.
     dbind (at_directory (http_announce P (directory_client P I) DIRECTORY_URL refreshed None)) (\<lambda>_.
     dbind (at_directory (http_discover P (directory_client P I) DIRECTORY_URL (Some MODEL))) (\<lambda>again.
     dbind (dres (fresh_tps again)) (\<lambda>tps.
       dret \<lparr>sd_exit_code = 0, sd_discovered_count = many, sd_served_by = served, sd_receipt_verified = verified,
         sd_recorded_samples = recorded, sd_fresh_tps = tps\<rparr>))))"

definition supply_question :: string where
  "supply_question = ''what is sovereign inference?''"

text \<open>Steps 3 and 4: route to the best one, check the receipt and record the outcome.\<close>

definition serve_part :: "platform \<Rightarrow> internet \<Rightarrow> keypair \<Rightarrow> string \<Rightarrow> int \<Rightarrow> ranked \<Rightarrow> (supply_world, supply_result) script" where
  "serve_part P I kp rid many best =
     (let p = rk_provider best; reg = registry_add (entry_of p) [] in
      dbind (over_net (client_chat P (sync_client_factory P I) reg (client_asks rid (user_says supply_question)) None)) (\<lambda>(chat, _).
      dbind (dres (receipt_valid P (rr_receipt chat))) (\<lambda>verified.
        if \<not> verified
        then dret \<lparr>sd_exit_code = 1, sd_discovered_count = many, sd_served_by = rr_base_url chat, sd_receipt_verified = False,
          sd_recorded_samples = 0, sd_fresh_tps = Fin 0\<rparr>
        else dbind (dres (d_pubkey p)) (\<lambda>key.
          dbind (in_store (rep_record key True (Option.bind (rk_health best) latency_ms) verified)) (\<lambda>_.
          dbind (in_store (\<lambda>file. (rep_score_of key file, file))) (\<lambda>score.
            reannounce_part P I kp many (rr_base_url chat) verified (samples score)))))))"

definition supply_main :: "platform \<Rightarrow> internet \<Rightarrow> keypair \<Rightarrow> int \<Rightarrow> string \<Rightarrow> (mesh \<Rightarrow> pyfloat) \<Rightarrow> (supply_world, supply_result) script" where
  "supply_main P I kp now rid ticks =
     dbind (dres (node_manifest P kp INITIAL_TPS ''2026-06-30T00:00:00Z'')) (\<lambda>m.
     dbind (dres (create_app P (usdc_site kp) (Some m) ''no_prompt_logging'' now None None)) (\<lambda>app.
       let apps = [(supply_node, app)]; I' = with_apps apps I in
       dbind (over_net (\<lambda>w. (Inr (), started apps w))) (\<lambda>_.
       dbind (at_directory (http_announce P (directory_client P I) DIRECTORY_URL m None)) (\<lambda>_.
       dbind (at_directory (http_discover P (directory_client P I) DIRECTORY_URL (Some MODEL))) (\<lambda>found.
         let failed = \<lparr>sd_exit_code = 1, sd_discovered_count = int (length found), sd_served_by = [], sd_receipt_verified = False,
           sd_recorded_samples = 0, sd_fresh_tps = Fin 0\<rparr> in
         if found = [] then dret failed
         else dbind (ranked_now P I' ticks found) (\<lambda>ranked. case ranked of
             [] \<Rightarrow> dret failed
           | best # _ \<Rightarrow> serve_part P I' kp rid (int (length found)) best))))))"

text \<open>\<^verbatim>\<open>run\<close>\<close>

definition supply_run :: "platform \<Rightarrow> internet \<Rightarrow> keypair \<Rightarrow> int \<Rightarrow> string \<Rightarrow> (mesh \<Rightarrow> pyfloat) \<Rightarrow> (supply_world, int) script" where
  "supply_run P I kp now rid ticks = dbind (supply_main P I kp now rid ticks) (\<lambda>r. dret (sd_exit_code r))"

subsection \<open>Announcing to the hosted directory and finding it there\<close>

lemma dedupe_one:
  assumes "listing P k m" "wanted model (row_provider m)"
  shows "discover_among P model [JObj m] = Inr [row_provider m]"
proof -
  note a = listing_admitted(1,2) [OF assms(1)]
  obtain ms where ms: "\<And>x. serves (row_provider m) x = Inr (x \<in> set ms)" using listing_admitted(3) [OF assms(1)] by blast
  show ?thesis using a ms assms(2)
    by (cases model) (auto simp: discover_among_def admit_all_def filter_and_dedupe_def keep_freshest_def wanted_def List.map_filter_simps)
qed

lemma announced_hosted:
  assumes "listing P k m" "schema_unordered P" "wanted (Some MODEL) (row_provider m)" "load_raw f = [] \<or> (\<exists>x. load_raw f = [(k, x)])"
  obtains f' m' ref where "http_announce P (directory_client P I) DIRECTORY_URL m None f = (Inr ref, f')"
    "http_discover P (directory_client P I) DIRECTORY_URL (Some MODEL) f' = (Inr [row_provider m'], f')"
    "reordered (JObj m) (JObj m')" "listing P k m'" "load_raw f' = [(k, JObj [(''manifest'', JObj m')])]"
proof -
  obtain m' where m': "file_announce P m None f = (Inr k, write_raw [(k, JObj [(''manifest'', JObj m)])])"
    "file_discover P (Some MODEL) (write_raw [(k, JObj [(''manifest'', JObj m)])]) = (Inr [row_provider m'], write_raw [(k, JObj [(''manifest'', JObj m)])])"
    "load_raw (write_raw [(k, JObj [(''manifest'', JObj m)])]) = [(k, JObj [(''manifest'', JObj m')])]"
    "reordered (JObj m) (JObj m')" "listing P k m'"
    by (rule alone_on_file [OF assms])
  obtain uri where uri: "getn m ''manifest_uri'' = JStr uri" "uri \<noteq> []" using assms(1) by (auto simp: listing_def)
  have "verify_provider_manifest P m = Inr True" "getn m ''provider_pubkey'' = JStr k" using assms(1) by (simp_all add: listing_def)
  then have able: "announceable P m None = Inr uri" "getitem m ''provider_pubkey'' = Inr (JStr k)"
    using uri by (simp_all add: announceable_def require_verified_def signed_endpoint_def getn_JStr_getitem)
  let ?f = "write_raw [(k, JObj [(''manifest'', JObj m)])]"
  have "network (directory_client P I) u \<lparr>verb = ''POST'', path = ''/directory/announce'', call_headers = [], call_json = Some (JObj m)\<rparr> f =
      (Inr \<lparr>reply_status = 200, reply_json = Some (JObj [(''ref'', JStr k)])\<rparr>, ?f)" for u
    using m'(1) by (simp add: directory_client_def directory_app_def service_announce_def Let_def)
  then have post: "\<exists>ref. http_announce P (directory_client P I) DIRECTORY_URL m None f = (Inr ref, ?f)"
    using able by (cases "k = []") (simp_all add: http_announce_def http_request_def checked_reply_def alift_def abind_def aret_def getn_def)
  have path: "path \<lparr>verb = ''GET'', path = ''/directory/providers?model='' @ MODEL, call_headers = [], call_json = None\<rparr> \<noteq> ''/directory/providers''"
    by (simp add: MODEL_def)
  have "network (directory_client P I) u \<lparr>verb = ''GET'', path = ''/directory/providers?model='' @ MODEL, call_headers = [], call_json = None\<rparr> ?f =
      (Inr \<lparr>reply_status = 200, reply_json = Some (JObj [(''providers'', JArr [JObj m'])])\<rparr>, ?f)" for u
    using m'(2) by (simp add: directory_client_def directory_app_def service_providers_def abind_def aret_def startswith_def Let_def)
  moreover have "wanted (Some MODEL) (row_provider m')" using reordered_same_models(1) [OF m'(4) assms(1) m'(5)] assms(3) by simp
  then have "discover_among P (Some MODEL) [JObj m'] = Inr [row_provider m']" using m'(5) by (intro dedupe_one)
  ultimately have "http_discover P (directory_client P I) DIRECTORY_URL (Some MODEL) ?f = (Inr [row_provider m'], ?f)"
    by (simp add: http_discover_def http_request_def checked_reply_def alift_def abind_def aret_def get_or_def) (simp add: MODEL_def)
  with post m'(3-5) show thesis using that by blast
qed


subsection \<open>The benchmark\<close>

lemma bench_read:
  assumes "sign_document P (usdc_terms P kp url (Some (bench tps)) published) kp = Inr m" "reordered (JObj m) (JObj m')"
  obtains b where "getn m' ''benchmark'' = JObj b" "b \<noteq> []" "getn b ''tokens_per_second'' = JFloat tps" "getn b ''ttft_ms'' = JInt 500"
proof -
  have m: "getn m ''benchmark'' = JObj (bench tps)" using usdc_draft_plain(6) [OF assms(1)] by simp
  obtain b where b: "getn m' ''benchmark'' = JObj b" "reordered (JObj (bench tps)) (JObj b)"
    using reordered_getn [OF assms(2), of "''benchmark''"] m by (auto elim: reordered_objects intro: reordered.same reordered.objects)
  have f: "getn (bench tps) ''tokens_per_second'' = JFloat tps" "getn (bench tps) ''ttft_ms'' = JInt 500" by (simp_all add: bench_def getn_def)
  have "getn b ''tokens_per_second'' = JFloat tps" "getn b ''ttft_ms'' = JInt 500"
    using reordered_getn [OF b(2), of "''tokens_per_second''"] reordered_getn [OF b(2), of "''ttft_ms''"] f by (auto dest: reordered_leaf)
  moreover from this have "b \<noteq> []" by (auto simp: getn_def)
  ultimately show thesis using b(1) that by blast
qed

lemma bench_scored:
  assumes "getn (manifest e) ''benchmark'' = JObj b" "b \<noteq> []" "getn b ''tokens_per_second'' = JFloat (Fin t)" "getn b ''ttft_ms'' = JInt 500"
    and "priced_terms (manifest e) [MODEL] i out modes" "0 < t"
  shows "resolve P [e] MODEL mode None False = Inr [e]"
proof -
  obtain q where q: "fdiv (Fin 1000) (Fin t) = Inr q" using fdiv_nonzero [of t "Fin 1000"] assms(6) by blast
  have g: "get_or b ''tokens_per_second'' v = JFloat (Fin t)" "get_or b ''ttft_ms'' v = JInt 500" for v
    using assms(3,4) getn_get_or by blast+
  have ms: "effective_ms e None = Inr (fadd (Fin 500) q)"
    using assms(1,2,6) q g by (simp add: effective_ms_def py_or_def float_get_def float_of_count)
  obtain l where l: "latency_score e None = Inr l"
    using anchored_total [of 2000 "fadd (Fin 500) q"] ms by (auto simp: latency_score_def to_float_numeral)
  obtain x where x: "score_provider None mode (Some MODEL) None e = Inr x"
    using priced_scored [of "[MODEL]" i out modes l mode MODEL] assms(5) l by blast
  have "for_model [e] MODEL = Inr [e]" using assms(5) by (intro for_model_all [where models = "[MODEL]"]) auto
  then show ?thesis using x by (simp add: resolve_def rank_candidates_def comp_def)
qed

subsection \<open>The probe and the ranking\<close>

lemma probe_alive:
  assumes "sites I supply_node = Some g" "gw_keypair g = kp" "allowed_models g = [MODEL]"
    and "getn m ''provider_pubkey'' = JStr (public_key_str P kp)" "getn m ''models'' = JArr (map JStr [MODEL])"
  shows "probe_check (one_app P I supply_node) ticks (row_provider m) w =
    (Inr \<lparr>reachable = True, pubkey_match = True, model_match = True, latency_ms = Some (fmul (fsub (ticks (later w)) (ticks w)) (Fin 1000))\<rparr>, later w)"
proof -
  let ?call = "\<lparr>verb = ''GET'', path = ''/sip/v1/health'', call_headers = [], call_json = None\<rparr>"
  have "network (one_app P I supply_node) u ?call w = (Inr (app_reply (health P g)), later w)" for u
    using assms(1) by (simp add: one_app_def mesh_network_def gateway_app_def)
  moreover have "d_pubkey (row_provider m) = Inr (public_key_str P kp)"
    using assms(4) by (simp add: d_pubkey_def row_provider_def getn_JStr_getitem)
  moreover have "get_or m ''models'' (JArr []) = JArr [JStr MODEL]" using assms(5) getn_get_or by fastforce
  then have "d_models (row_provider m) = Inr [JStr MODEL]" by (simp add: d_models_def row_provider_def py_set_def)
  ultimately show ?thesis using assms(2,3)
    by (simp add: probe_check_def checked_reply_def app_reply_def health_def read_health_def getn_def jstrs_def shares_model_def py_set_def Let_def)
qed

lemma ranked_alone:
  assumes "probe_check E ticks p w = (Inr h, w')" "health_alive h" "d_pubkey p = Inr key"
    and "getn (d_manifest p) ''benchmark'' = JObj b" "getn b ''tokens_per_second'' = JFloat t"
  obtains r where "rank_providers None (Some (probe_check E ticks)) [p] w = (Inr [r], w')" "rk_provider r = p" "rk_health r = Some h"
proof -
  have rep: "\<exists>rep. rep_score_of key None = Inr rep" by (simp add: rep_score_of_def load_raw_def getn_def score_of_counters_def get_or_def)
  then obtain rep where rep: "rep_score_of key None = Inr rep" by blast
  have "get_or b ''tokens_per_second'' (JFloat (Fin 0)) = JFloat t" using assms(5) by (rule getn_get_or) simp
  then have tps: "advertised_tps p = Inr t" using assms(4) by (simp add: advertised_tps_def policy_price_def)
  show thesis
    by (rule that [of "\<lparr>rk_provider = p, rk_reputation = rep, rk_score = rep_score rep, rk_health = Some h\<rparr>"])
      (use assms(1-3) rep tps in \<open>simp_all add: rank_providers_def rank_one_def abind_def aret_def alift_def rank_key_def List.map_filter_simps\<close>)
qed

text \<open>The first outcome recorded in a fresh store.\<close>

lemma first_recorded:
  obtains f r where "rep_record key True (Some ms) True None = (Inr (), f)" "rep_score_of key f = Inr r" "samples r = 1"
proof -
  let ?x = "\<lparr>o_key = key, o_success = True, o_latency = Some ms, o_receipt = True\<rparr>"
  let ?file = "record_outcome ?x None"
  have t: "tallies [?x] ?file" using history_tallies [of "[?x]"] by (simp add: history_def)
  have "\<exists>d. count_outcome True (Some ms) True fresh_counters = Inr d" using count_outcome_counts [OF counts_fresh, of ?x] by auto
  then have rec: "rep_record key True (Some ms) True None = (Inr (), ?file)" by (auto simp: record_outcome_def rep_record_def load_raw_def Let_def)
  obtain v where v: "dict_get (load_raw ?file) key = Some v" using tallies_absent [OF t, of key] by fastforce
  obtain d where d: "v = JObj d" "d \<noteq> []" "counts [?x] d" using tallies_present [OF t v] by auto
  obtain r where "score_of_counters key d = Inr r" "samples r = 1"
    using score_of_counts [OF d(3), of key] by (auto simp: reports_def total_of_def)
  moreover have g: "getn (load_raw ?file) key = JObj d" using v d(1) by (simp only: getn_def) simp
  have "rep_score_of key ?file = score_of_counters key d" unfolding rep_score_of_def g Let_def using d(2) by simp
  ultimately show thesis using rec by (intro that) simp_all
qed


subsection \<open>The script reaches its end\<close>

lemma getn_getitem: "getn d k = v \<Longrightarrow> v \<noteq> JNull \<Longrightarrow> getitem d k = Inr v"
  by (auto simp: getn_def getitem_def split: option.splits)

lemma bench_ok: "json_ok (JObj (bench (Fin t)))" "plain_dicts (JObj (bench tps))"
  by (simp_all add: bench_def)

text \<open>The chat with the one ranked provider.\<close>

lemma best_serves:
  assumes laws: "ed25519_laws P" and site: "sites I supply_node = Some ((usdc_site kp)\<lparr>gw_manifest := m\<rparr>)"
    and listing: "listing P (public_key_str P kp) m'" "d_base_url (row_provider m') = supply_node"
    and terms: "priced_terms m' [MODEL] i out [''direct'']" "getn m' ''benchmark'' = JObj b" "b \<noteq> []" "getn b ''tokens_per_second'' = JFloat (Fin t)"
      "getn b ''ttft_ms'' = JInt 500" "0 < t"
    and pass: "receipts_pass P I (usdc_site kp) (client_asks rid (user_says supply_question)) (echoed supply_question)"
  obtains r w' where "client_chat P (sync_client_factory P I) [entry_of (row_provider m')] (client_asks rid (user_says supply_question)) None w = (Inr (r, None), w')"
    "rr_base_url r = supply_node" "receipt_valid P (rr_receipt r) = Inr True"
proof -
  let ?e = "entry_of (row_provider m')"
  have e: "base_url ?e = supply_node" "manifest ?e = m'" using listing(2) by (simp_all add: entry_of_def)
  have "resolve P [?e] MODEL (Some ''direct'') None False = Inr [?e]"
    using terms e(2) by (intro bench_scored [where b = b and t = t and i = i and out = out and modes = "[''direct'']"]) simp_all
  then have order: "resolve P [?e] MODEL (Some ''direct'') None False = Inr ([] @ ?e # [])" by simp
  have key: "getn (manifest ?e) ''provider_pubkey'' = JStr (public_key_str P (gw_keypair ((usdc_site kp)\<lparr>gw_manifest := m\<rparr>)))"
    using listing(1) by (simp add: e(2) listing_def usdc_site_terms(3))
  have at: "sites I (base_url ?e) = Some ((usdc_site kp)\<lparr>gw_manifest := m\<rparr>)" using site by (simp add: e(1))
  have short: "length supply_question \<le> 100000" by (simp add: supply_question_def)
  have ok: "receipts_pass P I ((usdc_site kp)\<lparr>gw_manifest := m\<rparr>) (client_asks rid (user_says supply_question)) (echoed supply_question)" using pass by simp
  obtain r w' where "client_chat P (down_client_factory P I []) [?e] (client_asks rid (user_says supply_question)) None w = (Inr (r, None), w')"
    "rr_base_url r = base_url ?e" "receipt_valid P (rr_receipt r) = Inr True"
    by (rule script_chat [OF order _ _ at key usdc_site_terms(1,2) short ok laws, where ds = "[]" and wallet = None and w = w]) auto
  then show thesis using that by (simp add: e(1) sync_client_factory_def)
qed

text \<open>Step 5: the directory serves the new benchmark.\<close>

lemma reannounced:
  assumes "ed25519_laws P" "schema_unordered P" "manifest_passes P kp supply_node (Some (bench REBENCH_TPS)) ''2026-06-30T01:00:00Z''"
    and "load_raw (directory_store s) = [(public_key_str P kp, x)]"
  obtains s' where "reannounce_part P I kp n served verified recorded s =
    (Inr \<lparr>sd_exit_code = 0, sd_discovered_count = n, sd_served_by = served, sd_receipt_verified = verified, sd_recorded_samples = recorded, sd_fresh_tps = Fin 55\<rparr>, s')"
proof -
  obtain m where m: "sign_document P (usdc_terms P kp supply_node (Some (bench REBENCH_TPS)) ''2026-06-30T01:00:00Z'') kp = Inr m"
    by (rule usdc_signed [where P = P and kp = kp and url = supply_node and b = "Some (bench REBENCH_TPS)" and published = "''2026-06-30T01:00:00Z''"])
      (auto simp: bench_def REBENCH_TPS_def)
  have url: "supply_node \<noteq> []" by (simp add: supply_node_def)
  have "plain_dicts (JObj d)" if "Some (bench REBENCH_TPS) = Some d" for d using that bench_ok(2) by auto
  note l = usdc_listing [OF m assms(1,3) url this]
  have "load_raw (directory_store s) = [] \<or> (\<exists>x. load_raw (directory_store s) = [(public_key_str P kp, x)])" using assms(4) by blast
  from announced_hosted [OF l(1) assms(2) l(2) this, of I]
  obtain f m' ref where dir: "http_announce P (directory_client P I) DIRECTORY_URL m None (directory_store s) = (Inr ref, f)"
    "http_discover P (directory_client P I) DIRECTORY_URL (Some MODEL) f = (Inr [row_provider m'], f)" "reordered (JObj m) (JObj m')"
    by metis
  obtain b where b: "getn m' ''benchmark'' = JObj b" "getn b ''tokens_per_second'' = JFloat REBENCH_TPS" by (rule bench_read [OF m dir(3)])
  have "fresh_tps [row_provider m'] = Inr (Fin 55)"
    using b by (simp add: fresh_tps_def row_provider_def getn_getitem item_def REBENCH_TPS_def)
  then show thesis using dir m
    by (intro that) (simp add: reannounce_part_def node_manifest_def sign_provider_manifest_def at_directory_def dbind_def dres_def dret_def)
qed


text \<open>The announcement to an empty directory.\<close>

lemma supply_announced:
  assumes "ed25519_laws P" "schema_unordered P" "manifest_passes P kp supply_node (Some (bench (Fin tps))) published" "load_raw f = []"
  obtains m f' m' ref b where "node_manifest P kp (Fin tps) published = Inr m" "m \<noteq> []"
    "http_announce P (directory_client P I) DIRECTORY_URL m None f = (Inr ref, f')"
    "http_discover P (directory_client P I) DIRECTORY_URL (Some MODEL) f' = (Inr [row_provider m'], f')"
    "listing P (public_key_str P kp) m'" "load_raw f' = [(public_key_str P kp, JObj [(''manifest'', JObj m')])]" "d_base_url (row_provider m') = supply_node"
    "priced_terms m' [MODEL] INPUT_PER_1M OUTPUT_PER_1M [''direct'']"
    "getn m' ''benchmark'' = JObj b" "b \<noteq> []" "getn b ''tokens_per_second'' = JFloat (Fin tps)" "getn b ''ttft_ms'' = JInt 500"
proof -
  obtain m where m: "sign_document P (usdc_terms P kp supply_node (Some (bench (Fin tps))) published) kp = Inr m"
    by (rule usdc_signed [where P = P and kp = kp and url = supply_node and b = "Some (bench (Fin tps))" and published = published])
      (auto simp: bench_def)
  have url: "supply_node \<noteq> []" by (simp add: supply_node_def)
  have "plain_dicts (JObj d)" if "Some (bench (Fin tps)) = Some d" for d using that bench_ok(2) by auto
  note l = usdc_listing [OF m assms(1,3) url this]
  have "load_raw f = [] \<or> (\<exists>x. load_raw f = [(public_key_str P kp, x)])" by (simp add: assms(4))
  from announced_hosted [OF l(1) assms(2) l(2) this, of I]
  obtain f' m' ref where dir: "http_announce P (directory_client P I) DIRECTORY_URL m None f = (Inr ref, f')"
    "http_discover P (directory_client P I) DIRECTORY_URL (Some MODEL) f' = (Inr [row_provider m'], f')" "reordered (JObj m) (JObj m')"
    "listing P (public_key_str P kp) m'" "load_raw f' = [(public_key_str P kp, JObj [(''manifest'', JObj m')])]" by metis
  obtain b where b: "getn m' ''benchmark'' = JObj b" "b \<noteq> []" "getn b ''tokens_per_second'' = JFloat (Fin tps)" "getn b ''ttft_ms'' = JInt 500"
    by (rule bench_read [OF m dir(3)])
  have terms: "priced_terms m' [MODEL] INPUT_PER_1M OUTPUT_PER_1M [''direct'']" using priced_terms_reordered [OF dir(3)] usdc_draft_plain(4) [OF m] by blast
  have base: "d_base_url (row_provider m') = supply_node" using reordered_same_models(2) [OF dir(3) l(1) dir(4)] l(3) by simp
  have "node_manifest P kp (Fin tps) published = Inr m" using m by (simp add: node_manifest_def sign_provider_manifest_def)
  then show thesis by (rule that [OF _ signed_nonempty [OF m] dir(1,2,4,5) base terms b])
qed

text \<open>The discovered node is alive and ranked first.\<close>

lemma node_ranked:
  assumes site: "sites I supply_node = Some ((usdc_site kp)\<lparr>gw_manifest := m\<rparr>)" and listed: "listing P (public_key_str P kp) m'"
    and terms: "priced_terms m' [MODEL] i out modes" "getn m' ''benchmark'' = JObj b" "getn b ''tokens_per_second'' = JFloat t"
  obtains best ms where "rank_providers None (Some (probe_check (one_app P I supply_node) ticks)) [row_provider m'] w = (Inr [best], later w)"
    "rk_provider best = row_provider m'" "Option.bind (rk_health best) latency_ms = Some ms" "d_pubkey (row_provider m') = Inr (public_key_str P kp)"
proof -
  let ?g = "(usdc_site kp)\<lparr>gw_manifest := m\<rparr>" and ?ms = "fmul (fsub (ticks (later w)) (ticks w)) (Fin 1000)"
  have g: "gw_keypair ?g = kp" "allowed_models ?g = [MODEL]" using usdc_site_terms(1,3) by (auto simp: script_terms_def)
  have k: "getn m' ''provider_pubkey'' = JStr (public_key_str P kp)" "getn m' ''models'' = JArr (map JStr [MODEL])"
    using listed terms(1) by (simp_all add: listing_def priced_terms_def)
  have probed: "probe_check (one_app P I supply_node) ticks (row_provider m') w =
      (Inr \<lparr>reachable = True, pubkey_match = True, model_match = True, latency_ms = Some ?ms\<rparr>, later w)" by (rule probe_alive [OF site g k])
  have alive: "health_alive \<lparr>reachable = True, pubkey_match = True, model_match = True, latency_ms = Some ?ms\<rparr>" by (simp add: health_alive_def)
  have key: "d_pubkey (row_provider m') = Inr (public_key_str P kp)" by (rule listing_admitted(2) [OF listed])
  have "getn (d_manifest (row_provider m')) ''benchmark'' = JObj b" using terms(2) by simp
  then show thesis by (rule ranked_alone [OF probed alive key _ terms(3)]) (rule that [where ms = ?ms], auto simp: key)
qed

text \<open>C37. The supply script, from empty stores: the node announces to the hosted directory and is the one provider discovered
  there; its probe answers, it is ranked, it serves the routed request under a valid receipt; the outcome becomes the first
  sample of its reputation; and after it announces again the directory serves the new benchmark of 55 tokens a second.\<close>

theorem supply_main_succeeds:
  assumes "ed25519_laws P" "schema_unordered P" "directory_store s = None" "reputation_store s = None"
    and "manifest_passes P kp supply_node (Some (bench INITIAL_TPS)) ''2026-06-30T00:00:00Z''"
    and "manifest_passes P kp supply_node (Some (bench REBENCH_TPS)) ''2026-06-30T01:00:00Z''"
    and "receipts_pass P I (usdc_site kp) (client_asks rid (user_says supply_question)) (echoed supply_question)"
  shows "\<exists>s'. supply_main P I kp now rid ticks s = (Inr \<lparr>sd_exit_code = 0, sd_discovered_count = 1, sd_served_by = supply_node,
    sd_receipt_verified = True, sd_recorded_samples = 1, sd_fresh_tps = Fin 55\<rparr>, s')"
proof -
  have empty: "load_raw (directory_store s) = []" by (simp add: assms(3) load_raw_def)
  obtain m f m' ref b where m: "node_manifest P kp INITIAL_TPS ''2026-06-30T00:00:00Z'' = Inr m" "m \<noteq> []"
    and dir: "http_announce P (directory_client P I) DIRECTORY_URL m None (directory_store s) = (Inr ref, f)"
      "http_discover P (directory_client P I) DIRECTORY_URL (Some MODEL) f = (Inr [row_provider m'], f)"
      "listing P (public_key_str P kp) m'" "load_raw f = [(public_key_str P kp, JObj [(''manifest'', JObj m')])]"
    and base: "d_base_url (row_provider m') = supply_node" and terms: "priced_terms m' [MODEL] INPUT_PER_1M OUTPUT_PER_1M [''direct'']"
    and b: "getn m' ''benchmark'' = JObj b" "b \<noteq> []" "getn b ''tokens_per_second'' = JFloat (Fin 30)" "getn b ''ttft_ms'' = JInt 500"
    unfolding INITIAL_TPS_def by (rule supply_announced [OF assms(1,2) assms(5) [unfolded INITIAL_TPS_def] empty, of I])
  define apps where "apps = [(supply_node, (usdc_site kp)\<lparr>gw_manifest := m\<rparr>, fresh_state)]"
  let ?I = "with_apps apps I" and ?w = "started apps (gateways s)"
  have site: "sites ?I supply_node = Some ((usdc_site kp)\<lparr>gw_manifest := m\<rparr>)" by (simp add: with_apps_def apps_def)
  obtain best ms where best: "rank_providers None (Some (probe_check (one_app P ?I supply_node) ticks)) [row_provider m'] ?w = (Inr [best], later ?w)"
    "rk_provider best = row_provider m'" "Option.bind (rk_health best) latency_ms = Some ms" "d_pubkey (row_provider m') = Inr (public_key_str P kp)"
    by (rule node_ranked [OF site dir(3) terms b(1,3)])
  have pass: "receipts_pass P ?I (usdc_site kp) (client_asks rid (user_says supply_question)) (echoed supply_question)" using assms(7) by simp
  have pos: "0 < (30::rat)" by simp
  obtain r w' where chat: "client_chat P (sync_client_factory P ?I) [entry_of (row_provider m')] (client_asks rid (user_says supply_question)) None (later ?w) =
      (Inr (r, None), w')" "rr_base_url r = supply_node" "receipt_valid P (rr_receipt r) = Inr True"
    by (rule best_serves [OF assms(1) site dir(3) base terms b pos pass])
  obtain rf rep where rep: "rep_record (public_key_str P kp) True (Some ms) True None = (Inr (), rf)" "rep_score_of (public_key_str P kp) rf = Inr rep" "samples rep = 1"
    by (rule first_recorded)
  define s1 where "s1 = s\<lparr>gateways := ?w, directory_store := f\<rparr>"
  define s2 where "s2 = s1\<lparr>gateways := w', reputation_store := rf\<rparr>"
  have "load_raw (directory_store s2) = [(public_key_str P kp, JObj [(''manifest'', JObj m')])]" using dir(4) by (simp add: s2_def s1_def)
  then obtain s' where last: "reannounce_part P ?I kp 1 supply_node True 1 s2 = (Inr \<lparr>sd_exit_code = 0, sd_discovered_count = 1, sd_served_by = supply_node,
      sd_receipt_verified = True, sd_recorded_samples = 1, sd_fresh_tps = Fin 55\<rparr>, s')"
    by (rule reannounced [OF assms(1,2,6)])
  have ranked: "ranked_now P ?I ticks [row_provider m'] s1 = (Inr [best], s1\<lparr>gateways := later ?w\<rparr>)"
    using best(1) by (simp add: ranked_now_def over_net_def s1_def assms(4))
  have "serve_part P ?I kp rid 1 best (s1\<lparr>gateways := later ?w\<rparr>) = reannounce_part P ?I kp 1 supply_node True 1 s2"
    using chat best(2-4) rep
    by (simp add: serve_part_def registry_add_def over_net_def in_store_def dbind_def dres_def s1_def s2_def assms(4) Let_def)
  moreover have same: "directory_store s1 = f" "s1\<lparr>directory_store := f\<rparr> = s1" by (simp_all add: s1_def)
  ultimately show ?thesis using last m(1) dir(1,2) ranked usdc_started [OF m(2)]
    by (intro exI [of _ s']) (simp add: supply_main_def at_directory_def over_net_def dbind_def dres_def dret_def
        apps_def [symmetric] s1_def [symmetric] same Let_def)
qed

lemma demo_manifest_passes: "manifest_passes demo kp url b published"
  unfolding manifest_passes_def
proof (intro allI impI)
  fix m assume m: "sign_document demo (usdc_terms demo kp url b published) kp = Inr m"
  have v: "validator demo = demo_validator" by (simp add: demo_def)
  have "dict_get m ''provider_pubkey'' \<noteq> None" "dict_get m ''models'' \<noteq> None"
    using usdc_draft_plain(1,3) [OF m] by (auto simp: getn_def split: option.splits)
  moreover obtain sg where "dict_get m ''signature'' = Some (JStr sg)" using m signed_has_signature by blast
  ultimately show "schema_accepts demo ''provider_manifest'' m" by (simp add: schema_accepts_def v demo_validator_def demo_members_def)
qed

lemma supply_main_succeeds_witness:
  "\<exists>s'. supply_main demo (demo_internet demo_gateway) (demo_key 3) demo_now ''r'' (\<lambda>_. Fin 0)
      \<lparr>directory_store = None, reputation_store = None, gateways = world (demo_mesh None)\<rparr> =
    (Inr \<lparr>sd_exit_code = 0, sd_discovered_count = 1, sd_served_by = supply_node, sd_receipt_verified = True,
      sd_recorded_samples = 1, sd_fresh_tps = Fin 55\<rparr>, s')"
  by (rule supply_main_succeeds [OF demo_laws demo_schema_unordered _ _ demo_manifest_passes demo_manifest_passes demo_receipts_pass]) simp_all

end
