(* ===== verification/Spec2Isabelle.thy ===== *)
theory Spec2Isabelle
  imports Charging Server Nosana Mesh Origins Startup Canon DecentralizedDemo PayDemo PrivacyDemo SupplyDemo
begin

text \<open>
  \<^bold>\<open>Sovereign Inference\<close>: a network in which providers sell inference on open models and clients buy it without
  trusting them. This development models the Python packages of the repository (\<^verbatim>\<open>packages/*\<close>, \<^verbatim>\<open>adapters/*\<close>,
  \<^verbatim>\<open>apps/*\<close>) as functions of Higher-Order Logic, and proves what makes them correct. Paths below are relative to
  the root of the sources.

  \<^bold>\<open>How the parts interact.\<close> A provider signs a manifest that names its key, its endpoint, its models and its prices
  (\<^verbatim>\<open>sip-protocol\<close>), and announces it to a directory: a file, an HTTP service or an Arweave anchor (\<^verbatim>\<open>discovery\<close>,
  \<^verbatim>\<open>directory-service\<close>, \<^verbatim>\<open>arweave-anchor\<close>). A node is set up on local hardware (\<^verbatim>\<open>sin-node\<close>, \<^verbatim>\<open>sin-cli\<close>, the runtime
  adapters) or rented (\<^verbatim>\<open>compute\<close>, \<^verbatim>\<open>provider-akash\<close>, \<^verbatim>\<open>provider-nosana\<close>), and its gateway (\<^verbatim>\<open>provider-gateway\<close>) quotes,
  checks and takes payment, calls the runtime and signs a receipt. Payments are vouchers, payer-signed x402 payments, or
  blind credits (\<^verbatim>\<open>pic-vouchers\<close>), which a shared spent set guards against double spending. A client (\<^verbatim>\<open>router\<close>)
  discovers providers, scores them, fails over between them, pays a 402 challenge and checks receipt and quote; a relay
  (\<^verbatim>\<open>relay\<close>) hides who asks. The proxy (\<^verbatim>\<open>openai-proxy\<close>) puts the client behind the OpenAI interface, under an
  operator's policy (\<^verbatim>\<open>policy\<close>, \<^verbatim>\<open>reputation\<close>), alone or inside the server of the desktop app.

  \<^bold>\<open>Python's part.\<close>
  \<^item> \<open>Prelude\<close>: exceptions (\<open>exn\<close>) and the result type \<open>'a res\<close> (\<open>Inl\<close> an exception, \<open>Inr\<close> a value) with its
    combinators \<open>rbind\<close>, \<open>rmap\<close>, \<open>rfold\<close>; dictionaries as association lists in insertion order; string methods; stable
    sorting, and the locale \<open>total_preorder\<close> that every order the code sorts by interprets.
  \<^item> \<open>PyFloat\<close>, \<open>Repr\<close>: binary64 as the rationals it denotes, rounded once per operation; the locale
    \<open>monotone_rounding\<close>, interpreted on \<open>to_float\<close> and \<open>rne\<close>; parsing, printing, and \<^verbatim>\<open>float(repr(x)) == x\<close>.
  \<^item> \<open>PyDecimal\<close>: \<^verbatim>\<open>decimal.Decimal\<close>. \<open>PyTime\<close>: instants as microseconds since the year 1, and their UTC text.
  \<^item> \<open>Json\<close>: JSON values, and canonical JSON. \<open>Base64\<close>: the URL-safe alphabet with Python's lenient decoder.
  \<^item> \<open>Effects\<close>: \<open>('s, 'a) act\<close>, an action that returns or raises and leaves a state in either case; \<open>outside\<close>, the
    network, the clock and the random source as functions of a world; the locale \<open>state_preorder\<close> of relations every step
    keeps. \<open>Net\<close>: \<^verbatim>\<open>urlsplit\<close>, \<^verbatim>\<open>ipaddress\<close> and the address guards of relay and proxy.

  \<^bold>\<open>The protocol and money.\<close>
  \<^item> \<open>Protocol\<close> (\<^verbatim>\<open>sip_protocol\<close>: canonical.py, hashing.py, signing.py, documents.py, schemas.py): keys, signatures and
    the one signing rule. \<open>Artifacts\<close> (receipts.py, quotes.py, vouchers.py, attestation.py, manifests.py): the documents,
    their builders and verifiers; the locale \<open>signed_artifact\<close> is interpreted on receipts, quotes and vouchers.
  \<^item> \<open>Pic\<close>, \<open>Redeem\<close> (\<^verbatim>\<open>sip_pic\<close>: spentset.py, wallet.py, ledger.py, issuer.py, x402.py, payment.py): the spent set (the
    interface \<open>spend_guard\<close>, interpreted as \<open>spent\<close>), wallet, ledger, issuer, and redemption of each scheme.
  \<^item> \<open>Rsa\<close>, \<open>Blind\<close> (blind.py): modular powers and inverses, the RSA identity, blind credits. \<open>random_unit\<close> is a
    \<open>partial_function (option)\<close>, since nothing bounds how often a random source may miss.
  \<^item> \<open>Race\<close>: redemptions that interleave, as the inductive step relation \<open>race_step\<close> on the shared table; the abstract
    payment \<open>atomic_pay\<close>, which spends all keys of an agent at once or none; the simulation of every schedule by it.

  \<^bold>\<open>The provider and its node.\<close>
  \<^item> \<open>Gateway\<close>, \<open>Charging\<close> (\<^verbatim>\<open>sip_gateway\<close>: app.py, mock.py): \<open>gateway_config\<close> and \<open>gateway_state\<close>, the four handlers
    with every guard, the rate limiter, prices; then what a request costs.
  \<^item> \<open>Hardware\<close> (hardware.py), \<open>Advisor\<close> (models.py, memory.py, recommend.py), \<open>Node\<close> (http.py, adapter.py, benchmark.py)
    of \<^verbatim>\<open>sin_node\<close>: the scan of the machine, the choice of model, quantisation and runtime, the client of a runtime, and the
    benchmark.
  \<^item> \<open>Runtimes\<close> (\<^verbatim>\<open>adapters/runtime-llamacpp\<close>, \<^verbatim>\<open>adapters/runtime-ollama\<close>): both adapters over a process table and the
    network. \<open>Share\<close> (\<^verbatim>\<open>sin_cli\<close>, \<^verbatim>\<open>sin_node/api.py\<close>, \<^verbatim>\<open>sip_plugins\<close>, \<^verbatim>\<open>sip_receipts\<close>): sharing a node, the command
    lines, and plugins.
  \<^item> \<open>Compute\<close>, \<open>Akash\<close>, \<open>Nosana\<close> (\<^verbatim>\<open>packages/compute\<close>, \<^verbatim>\<open>adapters/provider-*\<close>): what to run, its deployment and its
    manifest; the interface \<open>compute_provider\<close> is interpreted on both adapters.

  \<^bold>\<open>The client's side.\<close>
  \<^item> \<open>Directory\<close>, \<open>Discovery\<close> (\<^verbatim>\<open>sip_discovery\<close>, \<^verbatim>\<open>sip_directory_service\<close>, \<^verbatim>\<open>sip_arweave\<close>): announcing and discovering;
    the interface \<open>verified_directory\<close> is interpreted on the file, HTTP and Arweave directories.
  \<^item> \<open>Router\<close>, \<open>Routing\<close> (\<^verbatim>\<open>sip_router\<close>): registry, scoring, resolution, and the client with its failover and payments.
  \<^item> \<open>Reputation\<close> (\<^verbatim>\<open>sip_policy\<close>, \<^verbatim>\<open>sip_reputation\<close>). \<open>Relay\<close> (\<^verbatim>\<open>sip_relay\<close>).
  \<^item> \<open>Proxy\<close>, \<open>Server\<close> (\<^verbatim>\<open>sip_openai_proxy\<close>): the trust boundary, the configuration, the backend and its OpenAI surface;
    the desktop server as the inductive step relation \<open>server_step\<close>, whose histories are \<open>server_run\<close>. The disk is part of
    its state (\<open>svc_disk\<close>): \<open>save_config\<close> may fail while it writes or renames, and raises then.
  \<^item> \<open>Origins\<close> (\<^verbatim>\<open>server.py\<close>, \<^verbatim>\<open>sin_node/api.py\<close>): the regular expressions of the admitted origins and what they match.
    \<open>Startup\<close>: the opening of the spend log (\<^verbatim>\<open>spentset.py\<close>), the command lines of the proxy and of the desktop server, the
    watch on its parent process, and the commands of \<^verbatim>\<open>sin_cli\<close> that report.
  \<^item> \<open>Canon\<close>: documents whose members are reordered, as a directory file does (the inductive relation \<open>reordered\<close>), have the
    same canonical text and the same signatures; what that means for a file of announcements.

  \<^bold>\<open>All of it together.\<close>
  \<^item> \<open>Mesh\<close> (\<^verbatim>\<open>sip_router/transport.py\<close> and the routes of \<^verbatim>\<open>sip_gateway/app.py\<close>): the client on a network whose sites are
    gateways. The interface \<open>payment_means\<close> between the client and a means of payment is interpreted on x402 and on vouchers; an
    honest site then serves the client that pays it, and the books of both sides are stated to the last key. A node set up with
    \<^verbatim>\<open>sin share\<close> is such a site.

  \<^bold>\<open>The scripts.\<close> \<^verbatim>\<open>apps/router-demo\<close> runs the packages against each other in one process. \<open>Open\<close> shows how the client
  passes over candidates that are out of order and is served by a gateway that asks for no payment. \<open>RoutingDemo\<close>,
  \<open>DiscoveryDemo\<close>, \<open>DecentralizedDemo\<close>, \<open>PayDemo\<close>, \<open>PrivacyDemo\<close> and \<open>SupplyDemo\<close> model \<^verbatim>\<open>main\<close> and \<^verbatim>\<open>run\<close> of the six
  scripts over the definitions of the packages, and prove of each that it reaches its last line.

  \<^bold>\<open>What the lemmas show.\<close>
  \<^item> Money: a payment is taken at most once whatever interleaves, all of it or none, and exactly when a request is served;
    an honest payment is accepted; the price charged stays within the quote and is the advertised one.
  \<^item> Trust: what discovery, registry, router, relay and proxy hand on is signed by the key it names, at the address the
    manifest signs, permitted by the policy, with the receipt over the very content returned; this holds after any history of
    the desktop server, and a restart brings back every change whose request was answered; only one whose save failed,
    and that no later save wrote, is lost.
  \<^item> Liveness and termination: an honest, paid request is served; polling, the health wait and the clean-up of a
    child process end; the desktop server exits at the first check that finds its parent gone; the scripts of
    \<^verbatim>\<open>apps/router-demo\<close> reach their last line.
  \<^item> Round trips: canonical JSON and base64 behind signatures, instants, floats, issued vouchers, blind credits, x402
    payments, the configuration file, the rows of nvidia-smi, the command lines.
  \<^item> Start-up: the admitted origins are exactly the intended ones; a spend log that is locked while it is opened is lost.
  \<^item> Choice: the ranking of providers, recommendations and bids; the rate limiter; the policy filter; reputation.

  \<^bold>\<open>Bounds and fuel.\<close> Machine integers do not occur in Python: integers are \<open>int\<close>, floats round as binary64 does.
  \<open>shortest\<close> (behind \<^verbatim>\<open>repr\<close>) tries 1 to 17 digits: \<open>Repr\<close> proves that 17 pin every double down. The search for
  a number's magnitude (\<open>ilog10\<close>) covers \<open>10 ^ -330\<close> to \<open>10 ^ 310\<close>, beyond both ends of binary64. Polling runs for the cap
  the code has, as structural recursion; so do the retries of the llama.cpp health wait. Three loops have no bound in the code and
  are \<open>partial_function (option)\<close>, where \<open>None\<close> is the run that never ends: \<open>random_unit\<close> (\<^verbatim>\<open>blind.py\<close>), \<open>open_log\<close>
  (\<open>open_log_diverges\<close> is such a run) and \<open>watch_parent\<close> (which ends exactly when the parent does). Other recursions carry
  termination proofs.

  \<^bold>\<open>Arguments of the model.\<close> Code outside the repository is a parameter: the record \<open>platform\<close> (Ed25519, SHA-256, the JSON
  Schema validator, \<^verbatim>\<open>fromisoformat\<close> and the local zone), with the laws \<open>ed25519_laws\<close> (what is signed verifies) and
  \<open>isoformat_law\<close> (a printed instant is parsed back) as hypotheses where a theorem needs them, and the concrete instance
  \<open>demo\<close> in the witnesses; the network, clocks, random sources, command runners, process tables and file parsers are
  functions. Strings are lists of code points below 256.

  \<^bold>\<open>Not modelled.\<close> HTTP framing, threads and the ASGI transport, FastAPI's and Pydantic's parsing (the parsed request is an
  argument, its validation a type), SQLite's and YAML's files (their contents are values), argument parsing, the table of
  \<^verbatim>\<open>sin catalog\<close>, what the scripts print, RSA key generation, the text of messages that quote another exception, and the
  desktop shell and dashboard, which are not Python.
\<close>

end
